(* ===== verification/Prelude.thy ===== *)
theory Prelude
  imports Complex_Main "HOL-Library.Char_ord" "HOL-Library.List_Lexorder" "HOL-Library.Option_ord"
begin

text \<open>
  Shared vocabulary of the development: the error values and the outcome of an
  operation, JSON values, the JavaScript string and option idioms the server
  code uses, and the generic relational table on which every repository of
  src/app/server/repositories rests.

  An operation that can throw returns a pair of a sum value and the state it
  leaves behind.  The state is returned on the error branch too: the services
  run without database transactions, so what was written before the throw stays.
\<close>

named_theorems outcome_simps "evaluation of outcome sequencing"
named_theorems tbl_simps "reads of generic tables after writes"


section \<open>Errors and outcomes\<close>

text \<open>An error that leaves a handler: createError with its status and message, a
  constraint violation raised by SQLite, or any other exception.\<close>

datatype error =
    HttpError int string
  | DbError string
  | JsError string

type_synonym ('a, 's) outcome = "(error + 'a) \<times> 's"

definition andThen :: "('a, 's) outcome \<Rightarrow> ('a \<Rightarrow> 's \<Rightarrow> ('b, 's) outcome) \<Rightarrow> ('b, 's) outcome" where
  "andThen r k = (case r of (Inl e, s) \<Rightarrow> (Inl e, s) | (Inr x, s) \<Rightarrow> k x s)"

lemma andThen_Inr [simp, outcome_simps]: "andThen (Inr x, s) k = k x s"
  by (simp add: andThen_def)

lemma andThen_Inl [simp, outcome_simps]: "andThen (Inl e, s) k = (Inl e, s)"
  by (simp add: andThen_def)

lemma outcome_ok: "\<not> isl (fst r) \<Longrightarrow> \<exists>v. r = (Inr v, snd r)"
  by (cases r; cases "fst r") auto

lemma andThen_eq_Inl:
  "andThen m k = (Inl e, w) \<longleftrightarrow> m = (Inl e, w) \<or> (\<exists>a w1. m = (Inr a, w1) \<and> k a w1 = (Inl e, w))"
  by (cases m; cases "fst m") auto

lemma andThen_eq_Inr:
  "andThen r k = (Inr y, s') \<longleftrightarrow> (\<exists>x s. r = (Inr x, s) \<and> k x s = (Inr y, s'))"
  by (auto simp: andThen_def split: prod.splits sum.splits)

lemma andThen_assoc: "andThen (andThen r k) l = andThen r (\<lambda>x s. andThen (k x s) l)"
  by (auto simp: andThen_def split: prod.splits sum.splits)

definition ok :: "('a, 's) outcome \<Rightarrow> bool" where
  "ok r = (case fst r of Inl _ \<Rightarrow> False | Inr _ \<Rightarrow> True)"

lemma ok_simps [simp]: "ok (Inr x, s)" "\<not> ok (Inl e, s)"
  by (simp_all add: ok_def)

lemma ok_andThen: "ok (andThen r k) \<Longrightarrow> \<exists>x s. r = (Inr x, s) \<and> ok (k x s)"
  by (cases r; cases "fst r") auto

text \<open>A predicate that every branch of an outcome leaves true of the state.\<close>

lemma andThen_state:
  assumes "P (snd r)" and "\<And>x s. r = (Inr x, s) \<Longrightarrow> P s \<Longrightarrow> P (snd (k x s))"
  shows "P (snd (andThen r k))"
  using assms by (cases r; cases "fst r") (auto simp: andThen_def)


section \<open>JavaScript values\<close>

text \<open>An optional field of a request body: absent, null or given.\<close>

datatype 'a maybe = Undefined | Null | Val 'a

fun maybe_opt :: "'a maybe \<Rightarrow> 'a option" where
  "maybe_opt (Val x) = Some x"
| "maybe_opt _ = None"

text \<open>The operator ?? on a nullable value.\<close>

definition orElse :: "'a option \<Rightarrow> 'a option \<Rightarrow> 'a option" where
  "orElse x y = (case x of None \<Rightarrow> y | Some _ \<Rightarrow> x)"

definition orDefault :: "'a option \<Rightarrow> 'a \<Rightarrow> 'a" where
  "orDefault x d = (case x of None \<Rightarrow> d | Some v \<Rightarrow> v)"

lemma orElse_simps [simp]: "orElse None y = y" "orElse (Some a) y = Some a"
  by (simp_all add: orElse_def)

lemma orDefault_simps [simp]: "orDefault None d = d" "orDefault (Some a) d = a"
  by (simp_all add: orDefault_def)

datatype json =
    JNull
  | JBool bool
  | JNum rat
  | JStr string
  | JArr "json list"
  | JObj "(string \<times> json) list"

text \<open>A text column that holds JSON: text that JSON.parse accepts, by the value
  it stands for, or text that it rejects.\<close>

datatype jtext = JText json | Malformed string

fun json_parse :: "jtext \<Rightarrow> json option" where
  "json_parse (JText j) = Some j"
| "json_parse (Malformed s) = None"

definition json_int :: "int \<Rightarrow> json" where
  "json_int i = JNum (of_int i)"

definition json_opt :: "('a \<Rightarrow> json) \<Rightarrow> 'a option \<Rightarrow> json" where
  "json_opt f x = (case x of None \<Rightarrow> JNull | Some v \<Rightarrow> f v)"


section \<open>Strings\<close>

text \<open>Strings are the UTF-8 bytes SQLite stores.  trim, toLowerCase and the
  character classes are those of ASCII.\<close>

definition js_space :: "char \<Rightarrow> bool" where
  "js_space c = (c \<in> {CHR '' '', CHR 0x09, CHR 0x0A, CHR 0x0B, CHR 0x0C, CHR 0x0D})"

definition js_trim :: "string \<Rightarrow> string" where
  "js_trim s = rev (dropWhile js_space (rev (dropWhile js_space s)))"

definition lower_char :: "char \<Rightarrow> char" where
  "lower_char c = (let n = of_char c :: nat in if 65 \<le> n \<and> n \<le> 90 then char_of (n + 32) else c)"

definition js_lower :: "string \<Rightarrow> string" where
  "js_lower s = map lower_char s"

definition is_digit :: "char \<Rightarrow> bool" where
  "is_digit c = (let n = of_char c :: nat in 48 \<le> n \<and> n \<le> 57)"

definition is_upper :: "char \<Rightarrow> bool" where
  "is_upper c = (let n = of_char c :: nat in 65 \<le> n \<and> n \<le> 90)"

definition is_lower :: "char \<Rightarrow> bool" where
  "is_lower c = (let n = of_char c :: nat in 97 \<le> n \<and> n \<le> 122)"

definition is_alnum :: "char \<Rightarrow> bool" where
  "is_alnum c = (is_digit c \<or> is_upper c \<or> is_lower c)"

text \<open>startsWith, split on one character, join and includes.\<close>

fun starts_with :: "string \<Rightarrow> string \<Rightarrow> bool" where
  "starts_with [] s = True"
| "starts_with (p # ps) [] = False"
| "starts_with (p # ps) (c # cs) = (p = c \<and> starts_with ps cs)"

fun js_split :: "char \<Rightarrow> string \<Rightarrow> string list" where
  "js_split d [] = [[]]"
| "js_split d (c # cs) =
     (if c = d then [] # js_split d cs
      else (case js_split d cs of [] \<Rightarrow> [[c]] | w # ws \<Rightarrow> (c # w) # ws))"

fun js_join :: "string \<Rightarrow> string list \<Rightarrow> string" where
  "js_join sep [] = []"
| "js_join sep [x] = x"
| "js_join sep (x # y # xs) = x @ sep @ js_join sep (y # xs)"

fun js_includes :: "string \<Rightarrow> string \<Rightarrow> bool" where
  "js_includes p [] = (p = [])"
| "js_includes p (c # cs) = (starts_with p (c # cs) \<or> js_includes p cs)"

text \<open>The dash of messages, in UTF-8.\<close>

definition EM_DASH :: string where "EM_DASH = [CHR 0xE2, CHR 0x80, CHR 0x94]"

text \<open>String(n) of a number that is an integer.\<close>

fun nat_digits :: "nat \<Rightarrow> string" where
  "nat_digits n = (if n < 10 then [char_of (48 + n)]
                   else nat_digits (n div 10) @ [char_of (48 + n mod 10)])"

declare nat_digits.simps [simp del]

definition int_str :: "int \<Rightarrow> string" where
  "int_str i = (if i < 0 then CHR ''-'' # nat_digits (nat (- i)) else nat_digits (nat i))"

lemma js_trim_idem [simp]: "js_trim (js_trim s) = js_trim s"
proof -
  define t where "t = dropWhile js_space s"
  define u where "u = dropWhile js_space (rev t)"
  have tr: "js_trim s = rev u" by (simp add: js_trim_def t_def u_def)
  have u2: "dropWhile js_space u = u" by (simp add: u_def)
  have "dropWhile js_space (rev u) = rev u"
  proof (cases "rev u")
    case (Cons c cs)
    have "t = rev (takeWhile js_space (rev t) @ u)"
      by (simp add: u_def)
    then have "t = c # cs @ rev (takeWhile js_space (rev t))"
      using Cons by simp
    then have "hd t = c" "t \<noteq> []" by (metis list.sel(1), metis list.distinct(1))
    then have "\<not> js_space c"
      using hd_dropWhile[of js_space s] t_def by auto
    with Cons show ?thesis by simp
  qed simp
  with tr u2 show ?thesis by (simp add: js_trim_def)
qed

lemma starts_with_append [simp]: "starts_with p (p @ s)"
  by (induction p) auto

lemma starts_with_iff: "starts_with p s \<longleftrightarrow> (\<exists>t. s = p @ t)"
  by (induction p s rule: starts_with.induct) auto

lemma js_split_nonempty [simp]: "js_split d s \<noteq> []"
  by (induction s) (auto split: list.splits)

lemma js_split_plain: "d \<notin> set s \<Longrightarrow> js_split d s = [s]"
  by (induction s) auto

lemma js_split_cons: "d \<notin> set a \<Longrightarrow> js_split d (a @ d # s) = a # js_split d s"
  by (induction a) auto


section \<open>Tables\<close>

text \<open>A table with an AUTOINCREMENT key: the rows in key order, which is the order
  SQLite scans them in, and the next key, which is never given out twice.\<close>

record 'r tbl =
  rows :: "'r list"
  seq :: int

definition tbl_empty :: "'r tbl" where
  "tbl_empty = \<lparr>rows = [], seq = 1\<rparr>"

definition tbl_insert :: "(int \<Rightarrow> 'r) \<Rightarrow> 'r tbl \<Rightarrow> 'r \<times> 'r tbl" where
  "tbl_insert mk t = (mk (seq t), t\<lparr>rows := rows t @ [mk (seq t)], seq := seq t + 1\<rparr>)"

definition tbl_update :: "('r \<Rightarrow> bool) \<Rightarrow> ('r \<Rightarrow> 'r) \<Rightarrow> 'r tbl \<Rightarrow> 'r tbl" where
  "tbl_update p f t = t\<lparr>rows := map (\<lambda>r. if p r then f r else r) (rows t)\<rparr>"

definition tbl_delete :: "('r \<Rightarrow> bool) \<Rightarrow> 'r tbl \<Rightarrow> 'r tbl" where
  "tbl_delete p t = t\<lparr>rows := filter (\<lambda>r. \<not> p r) (rows t)\<rparr>"

definition tbl_find :: "('r \<Rightarrow> bool) \<Rightarrow> 'r tbl \<Rightarrow> 'r option" where
  "tbl_find p t = find p (rows t)"

definition tbl_select :: "('r \<Rightarrow> bool) \<Rightarrow> 'r tbl \<Rightarrow> 'r list" where
  "tbl_select p t = filter p (rows t)"

definition tbl_ok :: "('r \<Rightarrow> int) \<Rightarrow> 'r tbl \<Rightarrow> bool" where
  "tbl_ok k t = (sorted_wrt (<) (map k (rows t)) \<and> (\<forall>r\<in>set (rows t). 1 \<le> k r \<and> k r < seq t) \<and> 1 \<le> seq t)"

text \<open>ORDER BY: ascending, descending.  Rows that compare equal stay in key order.\<close>

definition order_desc :: "('r \<Rightarrow> int) \<Rightarrow> 'r list \<Rightarrow> 'r list" where
  "order_desc k rs = sort_key (\<lambda>r. - k r) rs"

lemma order_desc_set [simp]: "set (order_desc k rs) = set rs"
  by (simp add: order_desc_def)

lemma order_desc_length [simp]: "length (order_desc k rs) = length rs"
  by (simp add: order_desc_def)

lemma tbl_empty_ok [simp]: "tbl_ok k tbl_empty"
  by (simp add: tbl_ok_def tbl_empty_def)

lemma tbl_empty_rows [simp]: "rows tbl_empty = []"
  by (simp add: tbl_empty_def)

lemma tbl_rows_insert [tbl_simps]: "rows (snd (tbl_insert mk t)) = rows t @ [mk (seq t)]"
  by (simp add: tbl_insert_def)

lemma tbl_fst_insert [tbl_simps]: "fst (tbl_insert mk t) = mk (seq t)"
  by (simp add: tbl_insert_def)

lemma tbl_rows_delete [tbl_simps]: "rows (tbl_delete p t) = filter (\<lambda>r. \<not> p r) (rows t)"
  by (simp add: tbl_delete_def)

lemma tbl_rows_update [tbl_simps]: "rows (tbl_update p f t) = map (\<lambda>r. if p r then f r else r) (rows t)"
  by (simp add: tbl_update_def)

lemma tbl_seq [tbl_simps]:
  "seq (snd (tbl_insert mk t)) = seq t + 1" "seq (tbl_update p f t) = seq t" "seq (tbl_delete p t) = seq t"
  by (simp_all add: tbl_insert_def tbl_update_def tbl_delete_def)

lemma tbl_find_Some:
  "tbl_find p t = Some r \<Longrightarrow> r \<in> set (rows t) \<and> p r"
  by (auto simp: tbl_find_def find_Some_iff)

lemma tbl_find_None: "tbl_find p t = None \<longleftrightarrow> (\<forall>r\<in>set (rows t). \<not> p r)"
  by (auto simp: tbl_find_def find_None_iff)

lemma tbl_update_ex:
  assumes "r \<in> set (rows t)" "Q (if p r then f r else r)"
  shows "\<exists>r'\<in>set (rows (tbl_update p f t)). Q r'"
proof -
  have "(if p r then f r else r) \<in> (\<lambda>r. if p r then f r else r) ` set (rows t)" using assms(1) by (rule imageI)
  then have "(if p r then f r else r) \<in> set (rows (tbl_update p f t))" by (simp add: tbl_update_def)
  with assms(2) show ?thesis by (rule bexI)
qed

lemma find_append: "find p (xs @ ys) = (case find p xs of None \<Rightarrow> find p ys | Some x \<Rightarrow> Some x)"
  by (induction xs) auto

lemma find_map_update:
  assumes "\<And>r. q (if p r then f r else r) = q r"
  shows "find q (map (\<lambda>r. if p r then f r else r) xs) = map_option (\<lambda>r. if p r then f r else r) (find q xs)"
  using assms by (induction xs) (auto split: if_splits)

lemma find_filter_other:
  "(\<And>r. q r \<Longrightarrow> p r) \<Longrightarrow> find q (filter p xs) = find q xs"
  by (induction xs) auto

lemma sorted_wrt_filter_map: "sorted_wrt (<) (map k xs) \<Longrightarrow> sorted_wrt (<) (map k (filter p xs))"
  by (induction xs) auto

text \<open>What the repositories promise to the services about a keyed table, once for
  all tables: the laws of insert, update, delete and find by key.\<close>

locale keyed =
  fixes key :: "'r \<Rightarrow> int"
    and put :: "'v \<Rightarrow> int \<Rightarrow> 'r"
  assumes key_put [simp]: "key (put v i) = i"
begin

lemma ok_insert: "tbl_ok key t \<Longrightarrow> tbl_ok key (snd (tbl_insert (put v) t))"
  by (fastforce simp: tbl_ok_def tbl_insert_def sorted_wrt_append)

lemma ok_delete: "tbl_ok key t \<Longrightarrow> tbl_ok key (tbl_delete p t)"
  by (auto simp: tbl_ok_def tbl_delete_def sorted_wrt_filter_map)

lemma ok_update:
  assumes "tbl_ok key t" and "\<And>r. p r \<Longrightarrow> key (f r) = key r"
  shows "tbl_ok key (tbl_update p f t)"
proof -
  have "map key (map (\<lambda>r. if p r then f r else r) (rows t)) = map key (rows t)"
    using assms(2) by simp
  with assms show ?thesis
    by (auto simp: tbl_ok_def tbl_update_def simp del: map_map)
qed

lemma key_inj:
  assumes "tbl_ok key t" "r \<in> set (rows t)" "r' \<in> set (rows t)" "key r = key r'"
  shows "r = r'"
proof -
  have "distinct (map key (rows t))"
    using assms(1) by (auto simp: tbl_ok_def strict_sorted_iff)
  then have "inj_on key (set (rows t))" by (simp add: distinct_map)
  with assms(2-4) show ?thesis by (simp add: inj_on_def)
qed

lemma find_key:
  assumes "tbl_ok key t" "r \<in> set (rows t)"
  shows "tbl_find (\<lambda>x. key x = key r) t = Some r"
proof -
  obtain r' where "tbl_find (\<lambda>x. key x = key r) t = Some r'"
    using assms(2) by (cases "tbl_find (\<lambda>x. key x = key r) t") (auto simp: tbl_find_None)
  moreover from tbl_find_Some[OF this] have "r' \<in> set (rows t)" "key r' = key r" by auto
  ultimately show ?thesis using key_inj[OF assms(1)] assms(2) by auto
qed

lemma find_key_iff:
  assumes "tbl_ok key t"
  shows "tbl_find (\<lambda>x. key x = i) t = Some r \<longleftrightarrow> r \<in> set (rows t) \<and> key r = i"
  using find_key[OF assms] tbl_find_Some by fastforce

lemma find_inserted:
  assumes "tbl_ok key t"
  shows "tbl_find (\<lambda>x. key x = seq t) (snd (tbl_insert (put v) t)) = Some (put v (seq t))"
proof -
  have "find (\<lambda>x. key x = seq t) (rows t) = None"
    using assms by (auto simp: tbl_ok_def find_None_iff)
  then show ?thesis by (simp add: tbl_find_def tbl_insert_def find_append)
qed

lemma find_insert_other:
  "i \<noteq> seq t \<Longrightarrow> tbl_find (\<lambda>x. key x = i) (snd (tbl_insert (put v) t)) = tbl_find (\<lambda>x. key x = i) t"
  by (auto simp: tbl_find_def tbl_insert_def find_append split: option.splits)

lemma find_update:
  assumes "\<And>r. key (f r) = key r"
  shows "tbl_find (\<lambda>x. key x = i) (tbl_update (\<lambda>x. key x = j) f t)
         = (if i = j then map_option f (tbl_find (\<lambda>x. key x = i) t) else tbl_find (\<lambda>x. key x = i) t)"
proof -
  have *: "tbl_find (\<lambda>x. key x = i) (tbl_update (\<lambda>x. key x = j) f t)
        = map_option (\<lambda>r. if key r = j then f r else r) (tbl_find (\<lambda>x. key x = i) t)"
    unfolding tbl_find_def tbl_update_def using assms by (simp add: find_map_update)
  show ?thesis
    using tbl_find_Some[of "\<lambda>x. key x = i" t]
    by (cases "tbl_find (\<lambda>x. key x = i) t") (auto simp: *)
qed

lemma find_deleted: "tbl_find (\<lambda>x. key x = i) (tbl_delete (\<lambda>x. key x = i) t) = None"
  by (simp add: tbl_find_None tbl_delete_def)

lemma find_delete_other:
  "i \<noteq> j \<Longrightarrow> tbl_find (\<lambda>x. key x = i) (tbl_delete (\<lambda>x. key x = j) t) = tbl_find (\<lambda>x. key x = i) t"
  unfolding tbl_find_def tbl_delete_def by (simp, rule find_filter_other) auto

end

end
