(* ===== verification/Schema.thy ===== *)
theory Schema
  imports Prelude
begin

text \<open>
  The data model: src/app/server/database/schema.ts, one record per table with
  the columns in the order of the source (a nullable column is an option, a
  column of mode timestamp is an epoch time in milliseconds whose stored value
  is a whole number of seconds), and the database as the record of all tables.
  The rows named ..._defaults carry the column defaults that an INSERT
  leaves to SQLite.
\<close>

section \<open>Enumerated columns\<close>

datatype role = RAdmin | RUser

datatype event_status = Draft | Scheduled | Live | Ended | Archived

datatype visibility = VisPublic | VisRegistered | VisGroups

datatype enrollment_status = Invited | Active | Absent | Done

datatype session_status =
  SPending | SAllowed | SRejected | SCompliant | SViolating | SKilled | SEnded

datatype audit_level = LInfo | LWarn | LError

datatype audit_category =
  CAuth | CPublish | CAccess | CConfig | CRecording | CSystem | CAdmin


section \<open>Rows\<close>

record user_row =
  us_id :: int
  us_email :: string
  us_passwordHash :: string
  us_authmodSalt :: "string option"
  us_authmodVerifier :: "string option"
  us_role :: role
  us_nodeId :: "string option"
  us_dashboardNotice :: "string option"
  us_announcement :: "string option"
  us_createdAt :: int

record node_setting_row =
  ns_nodeId :: string
  ns_maxUsers :: int

record node_latency_row =
  nl_id :: int
  nl_userId :: int
  nl_nodeId :: string
  nl_latencyMs :: int
  nl_measuredAt :: int

record app_config_row =
  ac_key :: string
  ac_value :: jtext
  ac_updatedAt :: int

record event_row =
  ev_id :: int
  ev_name :: string
  ev_slug :: string
  ev_description :: "string option"
  ev_startsAt :: "int option"
  ev_endsAt :: "int option"
  ev_status :: event_status
  ev_limitsOverride :: "jtext option"
  ev_recordEnabled :: bool
  ev_strictLimits :: bool
  ev_enforceMeasuredLimits :: bool
  ev_requireAccountAuth :: bool
  ev_visibility :: visibility
  ev_publishTokenHash :: "string option"
  ev_publishTokenPrefix :: "string option"
  ev_publishKey :: "string option"
  ev_streamGuide :: "string option"
  ev_createdAt :: int
  ev_updatedAt :: int

record stream_ban_row =
  sb_id :: int
  sb_email :: string
  sb_eventId :: "int option"
  sb_reason :: "string option"
  sb_bannedBy :: "string option"
  sb_createdAt :: int

record event_slug_alias_row =
  al_oldSlug :: string
  al_eventId :: int
  al_createdAt :: int

record student_row =
  st_id :: int
  st_studentNumber :: string
  st_name :: string
  st_email :: "string option"
  st_createdAt :: int

record enrollment_row =
  en_id :: int
  en_eventId :: int
  en_studentId :: int
  en_seatLabel :: "string option"
  en_status :: enrollment_status
  en_createdAt :: int

record stream_key_row =
  sk_id :: int
  sk_eventId :: int
  sk_enrollmentId :: "int option"
  sk_streamName :: string
  sk_tokenHash :: string
  sk_tokenPreview :: string
  sk_revoked :: bool
  sk_lastUsedAt :: "int option"
  sk_createdAt :: int

record publish_session_row =
  ps_id :: int
  ps_eventId :: "int option"
  ps_streamKeyId :: "int option"
  ps_streamName :: string
  ps_nodeId :: "string option"
  ps_lastMetricAt :: "int option"
  ps_srsClientId :: "string option"
  ps_status :: session_status
  ps_rejectReason :: "string option"
  ps_width :: "int option"
  ps_height :: "int option"
  ps_fps :: "rat option"
  ps_videoBitrateKbps :: "int option"
  ps_audioBitrateKbps :: "int option"
  ps_compliant :: bool
  ps_startedAt :: int
  ps_endedAt :: "int option"

record recording_row =
  rc_id :: int
  rc_eventId :: "int option"
  rc_sessionId :: "int option"
  rc_streamName :: string
  rc_studentLabel :: "string option"
  rc_nodeId :: "string option"
  rc_segments :: "jtext option"
  rc_filePath :: string
  rc_sizeBytes :: int
  rc_durationSec :: "rat option"
  rc_avgFps :: "rat option"
  rc_width :: "int option"
  rc_height :: "int option"
  rc_startedAt :: int
  rc_endedAt :: "int option"
  rc_retainedUntil :: "int option"
  rc_createdAt :: int

record audit_row =
  au_id :: int
  au_ts :: int
  au_level :: audit_level
  au_category :: audit_category
  au_actor :: "string option"
  au_eventId :: "int option"
  au_streamName :: "string option"
  au_message :: string
  au_detail :: "jtext option"

record group_row =
  gr_id :: int
  gr_name :: string
  gr_description :: "string option"
  gr_createdAt :: int

record user_group_row =
  ug_userId :: int
  ug_groupId :: int
  ug_createdAt :: int

record event_group_row =
  eg_eventId :: int
  eg_groupId :: int

record invite_row =
  iv_id :: int
  iv_code :: string
  iv_groupId :: int
  iv_createdBy :: "int option"
  iv_maxUses :: "int option"
  iv_usedCount :: int
  iv_expiresAt :: "int option"
  iv_active :: bool
  iv_note :: "string option"
  iv_createdAt :: int


section \<open>The database\<close>

text \<open>The wall clock is part of it: Date.now() in milliseconds, of which SQLite's
  unixepoch() default keeps the seconds.\<close>

record db =
  clock :: int
  t_users :: "user_row tbl"
  t_nodeSettings :: "node_setting_row list"
  t_nodeLatencies :: "node_latency_row tbl"
  t_appConfig :: "app_config_row list"
  t_events :: "event_row tbl"
  t_streamBans :: "stream_ban_row tbl"
  t_aliases :: "event_slug_alias_row list"
  t_students :: "student_row tbl"
  t_enrollments :: "enrollment_row tbl"
  t_streamKeys :: "stream_key_row tbl"
  t_sessions :: "publish_session_row tbl"
  t_recordings :: "recording_row tbl"
  t_audit :: "audit_row tbl"
  t_groups :: "group_row tbl"
  t_userGroups :: "user_group_row list"
  t_eventGroups :: "event_group_row list"
  t_invites :: "invite_row tbl"

text \<open>What a timestamp column keeps of a Date.\<close>

definition db_ts :: "int \<Rightarrow> int" where
  "db_ts ms = (ms div 1000) * 1000"

lemma db_ts_idem [simp]: "db_ts (db_ts t) = db_ts t"
  by (simp add: db_ts_def)

lemma db_ts_le: "db_ts t \<le> t" and db_ts_gt: "t < db_ts t + 1000"
  unfolding db_ts_def by linarith+

lemma db_ts_mono: "s \<le> t \<Longrightarrow> db_ts s \<le> db_ts t"
  by (simp add: db_ts_def zdiv_mono1)

definition db_now :: "'z db_scheme \<Rightarrow> int" where
  "db_now d = db_ts (clock d)"

definition db_empty :: db where
  "db_empty = \<lparr>clock = 0, t_users = tbl_empty, t_nodeSettings = [], t_nodeLatencies = tbl_empty,
     t_appConfig = [], t_events = tbl_empty, t_streamBans = tbl_empty, t_aliases = [],
     t_students = tbl_empty, t_enrollments = tbl_empty, t_streamKeys = tbl_empty,
     t_sessions = tbl_empty, t_recordings = tbl_empty, t_audit = tbl_empty, t_groups = tbl_empty,
     t_userGroups = [], t_eventGroups = [], t_invites = tbl_empty\<rparr>"


section \<open>Column defaults\<close>

text \<open>The values of an INSERT: the required columns, every other column at its
  default.  The key is set by the insert itself; the creation time is the
  default (unixepoch()).\<close>

definition user_values :: "string \<Rightarrow> string \<Rightarrow> user_row" where
  "user_values email hash = \<lparr>us_id = 0, us_email = email, us_passwordHash = hash,
     us_authmodSalt = None, us_authmodVerifier = None, us_role = RUser, us_nodeId = None,
     us_dashboardNotice = None, us_announcement = None, us_createdAt = 0\<rparr>"

definition event_values :: "string \<Rightarrow> string \<Rightarrow> event_row" where
  "event_values name slug = \<lparr>ev_id = 0, ev_name = name, ev_slug = slug, ev_description = None,
     ev_startsAt = None, ev_endsAt = None, ev_status = Draft, ev_limitsOverride = None,
     ev_recordEnabled = True, ev_strictLimits = False, ev_enforceMeasuredLimits = False,
     ev_requireAccountAuth = True, ev_visibility = VisRegistered, ev_publishTokenHash = None,
     ev_publishTokenPrefix = None, ev_publishKey = None, ev_streamGuide = None,
     ev_createdAt = 0, ev_updatedAt = 0\<rparr>"

definition session_values :: "string \<Rightarrow> publish_session_row" where
  "session_values stream = \<lparr>ps_id = 0, ps_eventId = None, ps_streamKeyId = None,
     ps_streamName = stream, ps_nodeId = None, ps_lastMetricAt = None, ps_srsClientId = None,
     ps_status = SPending, ps_rejectReason = None, ps_width = None, ps_height = None,
     ps_fps = None, ps_videoBitrateKbps = None, ps_audioBitrateKbps = None,
     ps_compliant = False, ps_startedAt = 0, ps_endedAt = None\<rparr>"

definition recording_values :: "string \<Rightarrow> string \<Rightarrow> recording_row" where
  "recording_values stream path = \<lparr>rc_id = 0, rc_eventId = None, rc_sessionId = None,
     rc_streamName = stream, rc_studentLabel = None, rc_nodeId = None, rc_segments = None,
     rc_filePath = path, rc_sizeBytes = 0, rc_durationSec = None, rc_avgFps = None,
     rc_width = None, rc_height = None, rc_startedAt = 0, rc_endedAt = None,
     rc_retainedUntil = None, rc_createdAt = 0\<rparr>"

end
