(* ===== verification/Repositories.thy ===== *)
theory Repositories
  imports Schema
begin

text \<open>
  The repositories of src/app/server/repositories: every query and every write,
  under the name the source gives it.  Reads are functions of the database;
  writes return the database, and those that a UNIQUE or FOREIGN KEY constraint
  of the schema can refuse return an outcome.  foreign_keys is ON (database/db.ts),
  so deletes carry the cascades that schema.ts declares.
\<close>

definition unique_violation :: "string \<Rightarrow> error" where
  "unique_violation col = DbError (''UNIQUE constraint failed: '' @ col)"

definition fk_violation :: error where
  "fk_violation = DbError ''FOREIGN KEY constraint failed''"


section \<open>users\<close>

definition put_user :: "user_row \<Rightarrow> int \<Rightarrow> user_row" where
  "put_user v i = v\<lparr>us_id := i\<rparr>"

definition UsersRepository_findById :: "int \<Rightarrow> 'z db_scheme \<Rightarrow> user_row option" where
  "UsersRepository_findById i d = tbl_find (\<lambda>u. us_id u = i) (t_users d)"

definition UsersRepository_findByEmail :: "string \<Rightarrow> 'z db_scheme \<Rightarrow> user_row option" where
  "UsersRepository_findByEmail e d = tbl_find (\<lambda>u. us_email u = e) (t_users d)"

definition UsersRepository_findAll :: "'z db_scheme \<Rightarrow> user_row list" where
  "UsersRepository_findAll d = order_desc us_createdAt (order_desc us_id (rows (t_users d)))"

definition UsersRepository_count :: "'z db_scheme \<Rightarrow> int" where
  "UsersRepository_count d = int (length (rows (t_users d)))"

definition UsersRepository_isEmpty :: "'z db_scheme \<Rightarrow> bool" where
  "UsersRepository_isEmpty d = (UsersRepository_count d = 0)"

definition UsersRepository_insert ::
  "user_row \<Rightarrow> 'z db_scheme \<Rightarrow> (user_row, 'z db_scheme) outcome" where
  "UsersRepository_insert v d =
     (if UsersRepository_findByEmail (us_email v) d \<noteq> None
      then (Inl (unique_violation ''users.email''), d)
      else case tbl_insert (put_user (v\<lparr>us_createdAt := db_now d\<rparr>)) (t_users d) of
             (r, t) \<Rightarrow> (Inr r, d\<lparr>t_users := t\<rparr>))"

definition UsersRepository_remove :: "int \<Rightarrow> 'z db_scheme \<Rightarrow> 'z db_scheme" where
  "UsersRepository_remove i d = d\<lparr>
     t_users := tbl_delete (\<lambda>u. us_id u = i) (t_users d),
     t_nodeLatencies := tbl_delete (\<lambda>l. nl_userId l = i) (t_nodeLatencies d),
     t_userGroups := filter (\<lambda>m. ug_userId m \<noteq> i) (t_userGroups d),
     t_invites := tbl_update (\<lambda>v. iv_createdBy v = Some i) (iv_createdBy_update (\<lambda>_. None)) (t_invites d)\<rparr>"

definition UsersRepository_countByRole :: "role \<Rightarrow> 'z db_scheme \<Rightarrow> int" where
  "UsersRepository_countByRole ro d = int (length (tbl_select (\<lambda>u. us_role u = ro) (t_users d)))"

definition users_set :: "int \<Rightarrow> (user_row \<Rightarrow> user_row) \<Rightarrow> 'z db_scheme \<Rightarrow> 'z db_scheme" where
  "users_set i f d = d\<lparr>t_users := tbl_update (\<lambda>u. us_id u = i) f (t_users d)\<rparr>"

definition UsersRepository_updateRole :: "int \<Rightarrow> role \<Rightarrow> 'z db_scheme \<Rightarrow> 'z db_scheme" where
  "UsersRepository_updateRole i ro d = users_set i (us_role_update (\<lambda>_. ro)) d"

definition UsersRepository_updateNode :: "int \<Rightarrow> string option \<Rightarrow> 'z db_scheme \<Rightarrow> 'z db_scheme" where
  "UsersRepository_updateNode i n d = users_set i (us_nodeId_update (\<lambda>_. n)) d"

definition UsersRepository_updateDashboardNotice ::
  "int \<Rightarrow> string option \<Rightarrow> 'z db_scheme \<Rightarrow> 'z db_scheme" where
  "UsersRepository_updateDashboardNotice i n d = users_set i (us_dashboardNotice_update (\<lambda>_. n)) d"

definition UsersRepository_updateAnnouncement ::
  "int \<Rightarrow> string option \<Rightarrow> 'z db_scheme \<Rightarrow> 'z db_scheme" where
  "UsersRepository_updateAnnouncement i n d = users_set i (us_announcement_update (\<lambda>_. n)) d"

definition UsersRepository_updatePassword :: "int \<Rightarrow> string \<Rightarrow> 'z db_scheme \<Rightarrow> 'z db_scheme" where
  "UsersRepository_updatePassword i h d = users_set i (us_passwordHash_update (\<lambda>_. h)) d"

definition UsersRepository_setAuthmod ::
  "int \<Rightarrow> string \<Rightarrow> string \<Rightarrow> 'z db_scheme \<Rightarrow> 'z db_scheme" where
  "UsersRepository_setAuthmod i salt c d =
     users_set i (\<lambda>u. u\<lparr>us_authmodSalt := Some salt, us_authmodVerifier := Some c\<rparr>) d"


section \<open>events\<close>

definition put_event :: "event_row \<Rightarrow> int \<Rightarrow> event_row" where
  "put_event v i = v\<lparr>ev_id := i\<rparr>"

text \<open>What the timestamp columns keep of the Dates of a row.\<close>

definition event_norm :: "event_row \<Rightarrow> event_row" where
  "event_norm e = e\<lparr>ev_startsAt := map_option db_ts (ev_startsAt e),
     ev_endsAt := map_option db_ts (ev_endsAt e), ev_updatedAt := db_ts (ev_updatedAt e)\<rparr>"

definition EventsRepository_findAll :: "'z db_scheme \<Rightarrow> event_row list" where
  "EventsRepository_findAll d = sort_key ev_startsAt (rows (t_events d))"

definition EventsRepository_findById :: "int \<Rightarrow> 'z db_scheme \<Rightarrow> event_row option" where
  "EventsRepository_findById i d = tbl_find (\<lambda>e. ev_id e = i) (t_events d)"

definition EventsRepository_findBySlugExcept ::
  "string \<Rightarrow> int option \<Rightarrow> 'z db_scheme \<Rightarrow> event_row option" where
  "EventsRepository_findBySlugExcept s x d =
     (case x of
        None \<Rightarrow> tbl_find (\<lambda>e. ev_slug e = s) (t_events d)
      | Some i \<Rightarrow> if i = 0 then tbl_find (\<lambda>e. ev_slug e = s) (t_events d)
                  else tbl_find (\<lambda>e. ev_slug e = s \<and> ev_id e \<noteq> i) (t_events d))"

definition EventsRepository_findBySlug :: "string \<Rightarrow> 'z db_scheme \<Rightarrow> event_row option" where
  "EventsRepository_findBySlug s d = tbl_find (\<lambda>e. ev_slug e = s) (t_events d)"

definition EventsRepository_findByPublishTokenPrefix :: "string \<Rightarrow> 'z db_scheme \<Rightarrow> event_row list" where
  "EventsRepository_findByPublishTokenPrefix p d =
     tbl_select (\<lambda>e. ev_publishTokenPrefix e = Some p) (t_events d)"

definition EventsRepository_findByPublishKey :: "string \<Rightarrow> 'z db_scheme \<Rightarrow> event_row option" where
  "EventsRepository_findByPublishKey k d = tbl_find (\<lambda>e. ev_publishKey e = Some k) (t_events d)"

definition EventsRepository_insert ::
  "event_row \<Rightarrow> 'z db_scheme \<Rightarrow> (event_row, 'z db_scheme) outcome" where
  "EventsRepository_insert v d =
     (if EventsRepository_findBySlug (ev_slug v) d \<noteq> None
      then (Inl (unique_violation ''events.slug''), d)
      else case tbl_insert
                  (put_event (event_norm (v\<lparr>ev_createdAt := db_now d, ev_updatedAt := db_now d\<rparr>)))
                  (t_events d) of
             (r, t) \<Rightarrow> (Inr r, d\<lparr>t_events := t\<rparr>))"

definition EventsRepository_update ::
  "int \<Rightarrow> (event_row \<Rightarrow> event_row) \<Rightarrow> 'z db_scheme \<Rightarrow> (unit, 'z db_scheme) outcome" where
  "EventsRepository_update i patch d =
     (case EventsRepository_findById i d of
        None \<Rightarrow> (Inr (), d)
      | Some e \<Rightarrow>
          if tbl_find (\<lambda>e'. ev_slug e' = ev_slug (patch e) \<and> ev_id e' \<noteq> i) (t_events d) \<noteq> None
          then (Inl (unique_violation ''events.slug''), d)
          else (Inr (), d\<lparr>t_events :=
                  tbl_update (\<lambda>e. ev_id e = i) (\<lambda>e. put_event (event_norm (patch e)) (ev_id e)) (t_events d)\<rparr>))"

text \<open>Rows that a deleted parent takes along, or that lose their reference to it.\<close>

definition drop_sessions :: "(publish_session_row \<Rightarrow> bool) \<Rightarrow> 'z db_scheme \<Rightarrow> 'z db_scheme" where
  "drop_sessions p d =
     (let gone = map ps_id (tbl_select p (t_sessions d)) in
      d\<lparr>t_sessions := tbl_delete p (t_sessions d),
        t_recordings := tbl_update (\<lambda>r. \<exists>s\<in>set gone. rc_sessionId r = Some s)
                          (rc_sessionId_update (\<lambda>_. None)) (t_recordings d)\<rparr>)"

definition drop_keys :: "(stream_key_row \<Rightarrow> bool) \<Rightarrow> 'z db_scheme \<Rightarrow> 'z db_scheme" where
  "drop_keys p d =
     (let gone = map sk_id (tbl_select p (t_streamKeys d)) in
      d\<lparr>t_streamKeys := tbl_delete p (t_streamKeys d),
        t_sessions := tbl_update (\<lambda>s. \<exists>k\<in>set gone. ps_streamKeyId s = Some k)
                        (ps_streamKeyId_update (\<lambda>_. None)) (t_sessions d)\<rparr>)"

definition drop_enrollments :: "(enrollment_row \<Rightarrow> bool) \<Rightarrow> 'z db_scheme \<Rightarrow> 'z db_scheme" where
  "drop_enrollments p d =
     (let gone = map en_id (tbl_select p (t_enrollments d)) in
      d\<lparr>t_enrollments := tbl_delete p (t_enrollments d),
        t_streamKeys := tbl_update (\<lambda>k. \<exists>e\<in>set gone. sk_enrollmentId k = Some e)
                          (sk_enrollmentId_update (\<lambda>_. None)) (t_streamKeys d)\<rparr>)"

definition EventsRepository_remove :: "int \<Rightarrow> 'z db_scheme \<Rightarrow> 'z db_scheme" where
  "EventsRepository_remove i d =
     (let d1 = drop_keys (\<lambda>k. sk_eventId k = i) (drop_enrollments (\<lambda>e. en_eventId e = i) d);
          d2 = drop_sessions (\<lambda>s. ps_eventId s = Some i) d1
      in d2\<lparr>t_recordings := tbl_delete (\<lambda>r. rc_eventId r = Some i) (t_recordings d2),
            t_streamBans := tbl_delete (\<lambda>b. sb_eventId b = Some i) (t_streamBans d2),
            t_aliases := filter (\<lambda>a. al_eventId a \<noteq> i) (t_aliases d2),
            t_eventGroups := filter (\<lambda>g. eg_eventId g \<noteq> i) (t_eventGroups d2),
            t_events := tbl_delete (\<lambda>e. ev_id e = i) (t_events d2)\<rparr>)"


section \<open>event_slug_aliases\<close>

definition EventSlugAliasesRepository_findByOldSlug ::
  "string \<Rightarrow> 'z db_scheme \<Rightarrow> event_slug_alias_row option" where
  "EventSlugAliasesRepository_findByOldSlug s d = find (\<lambda>a. al_oldSlug a = s) (t_aliases d)"

definition EventSlugAliasesRepository_set ::
  "string \<Rightarrow> int \<Rightarrow> 'z db_scheme \<Rightarrow> (unit, 'z db_scheme) outcome" where
  "EventSlugAliasesRepository_set s i d =
     (if EventsRepository_findById i d = None then (Inl fk_violation, d)
      else if EventSlugAliasesRepository_findByOldSlug s d \<noteq> None
      then (Inr (), d\<lparr>t_aliases := map (\<lambda>a. if al_oldSlug a = s then a\<lparr>al_eventId := i\<rparr> else a) (t_aliases d)\<rparr>)
      else (Inr (), d\<lparr>t_aliases := t_aliases d @
              [\<lparr>al_oldSlug = s, al_eventId = i, al_createdAt = db_now d\<rparr>]\<rparr>))"

definition EventSlugAliasesRepository_remove :: "string \<Rightarrow> 'z db_scheme \<Rightarrow> 'z db_scheme" where
  "EventSlugAliasesRepository_remove s d = d\<lparr>t_aliases := filter (\<lambda>a. al_oldSlug a \<noteq> s) (t_aliases d)\<rparr>"

definition EventSlugAliasesRepository_removeByEvent :: "int \<Rightarrow> 'z db_scheme \<Rightarrow> 'z db_scheme" where
  "EventSlugAliasesRepository_removeByEvent i d =
     d\<lparr>t_aliases := filter (\<lambda>a. al_eventId a \<noteq> i) (t_aliases d)\<rparr>"


section \<open>stream_bans\<close>

definition put_ban :: "stream_ban_row \<Rightarrow> int \<Rightarrow> stream_ban_row" where
  "put_ban v i = v\<lparr>sb_id := i\<rparr>"

definition StreamBansRepository_listAll :: "'z db_scheme \<Rightarrow> stream_ban_row list" where
  "StreamBansRepository_listAll d = order_desc sb_createdAt (rows (t_streamBans d))"

definition StreamBansRepository_listByEvent :: "int \<Rightarrow> 'z db_scheme \<Rightarrow> stream_ban_row list" where
  "StreamBansRepository_listByEvent i d =
     order_desc sb_createdAt (tbl_select (\<lambda>b. sb_eventId b = Some i) (t_streamBans d))"

definition StreamBansRepository_listSiteWide :: "'z db_scheme \<Rightarrow> stream_ban_row list" where
  "StreamBansRepository_listSiteWide d = tbl_select (\<lambda>b. sb_eventId b = None) (t_streamBans d)"

definition StreamBansRepository_findSiteWide :: "string \<Rightarrow> 'z db_scheme \<Rightarrow> stream_ban_row option" where
  "StreamBansRepository_findSiteWide e d =
     tbl_find (\<lambda>b. sb_email b = e \<and> sb_eventId b = None) (t_streamBans d)"

definition StreamBansRepository_listBlocking ::
  "string \<Rightarrow> int option \<Rightarrow> 'z db_scheme \<Rightarrow> stream_ban_row list" where
  "StreamBansRepository_listBlocking e i d =
     tbl_select (\<lambda>b. (sb_email b = e \<and> sb_eventId b = None)
                   \<or> (i \<noteq> None \<and> sb_email b = e \<and> sb_eventId b = i)) (t_streamBans d)"

definition StreamBansRepository_findBlocking ::
  "string \<Rightarrow> int option \<Rightarrow> 'z db_scheme \<Rightarrow> stream_ban_row option" where
  "StreamBansRepository_findBlocking e i d =
     (case StreamBansRepository_listBlocking e i d of [] \<Rightarrow> None | b # _ \<Rightarrow> Some b)"

definition StreamBansRepository_purgeStrictLimits :: "'z db_scheme \<Rightarrow> int \<times> 'z db_scheme" where
  "StreamBansRepository_purgeStrictLimits d =
     (let stale = map sb_id (tbl_select (\<lambda>b. sb_bannedBy b = Some ''system:strict-limits'') (t_streamBans d));
          d' = (if stale \<noteq> [] then d\<lparr>t_streamBans := tbl_delete (\<lambda>b. sb_id b \<in> set stale) (t_streamBans d)\<rparr>
                else d)
      in (int (length stale), d'))"

definition StreamBansRepository_insert ::
  "stream_ban_row \<Rightarrow> 'z db_scheme \<Rightarrow> (stream_ban_row, 'z db_scheme) outcome" where
  "StreamBansRepository_insert v d =
     (if sb_eventId v \<noteq> None \<and>
         tbl_find (\<lambda>b. sb_email b = sb_email v \<and> sb_eventId b = sb_eventId v) (t_streamBans d) \<noteq> None
      then (Inl (unique_violation ''stream_bans.email, stream_bans.event_id''), d)
      else if (case sb_eventId v of None \<Rightarrow> False | Some i \<Rightarrow> EventsRepository_findById i d = None)
      then (Inl fk_violation, d)
      else case tbl_insert (put_ban (v\<lparr>sb_createdAt := db_now d\<rparr>)) (t_streamBans d) of
             (r, t) \<Rightarrow> (Inr r, d\<lparr>t_streamBans := t\<rparr>))"

definition StreamBansRepository_remove :: "int \<Rightarrow> 'z db_scheme \<Rightarrow> 'z db_scheme" where
  "StreamBansRepository_remove i d = d\<lparr>t_streamBans := tbl_delete (\<lambda>b. sb_id b = i) (t_streamBans d)\<rparr>"


section \<open>students and event_enrollments\<close>

definition put_student :: "student_row \<Rightarrow> int \<Rightarrow> student_row" where
  "put_student v i = v\<lparr>st_id := i\<rparr>"

definition StudentsRepository_findById :: "int \<Rightarrow> 'z db_scheme \<Rightarrow> student_row option" where
  "StudentsRepository_findById i d = tbl_find (\<lambda>s. st_id s = i) (t_students d)"

definition StudentsRepository_findByStudentNumber :: "string \<Rightarrow> 'z db_scheme \<Rightarrow> student_row option" where
  "StudentsRepository_findByStudentNumber n d = tbl_find (\<lambda>s. st_studentNumber s = n) (t_students d)"

definition StudentsRepository_insert ::
  "student_row \<Rightarrow> 'z db_scheme \<Rightarrow> (student_row, 'z db_scheme) outcome" where
  "StudentsRepository_insert v d =
     (if StudentsRepository_findByStudentNumber (st_studentNumber v) d \<noteq> None
      then (Inl (unique_violation ''students.student_number''), d)
      else case tbl_insert (put_student (v\<lparr>st_createdAt := db_now d\<rparr>)) (t_students d) of
             (r, t) \<Rightarrow> (Inr r, d\<lparr>t_students := t\<rparr>))"

definition StudentsRepository_updateProfile ::
  "int \<Rightarrow> string \<Rightarrow> string option \<Rightarrow> 'z db_scheme \<Rightarrow> 'z db_scheme" where
  "StudentsRepository_updateProfile i n e d =
     d\<lparr>t_students := tbl_update (\<lambda>s. st_id s = i) (\<lambda>s. s\<lparr>st_name := n, st_email := e\<rparr>) (t_students d)\<rparr>"

definition put_enrollment :: "enrollment_row \<Rightarrow> int \<Rightarrow> enrollment_row" where
  "put_enrollment v i = v\<lparr>en_id := i\<rparr>"

definition EnrollmentsRepository_findById :: "int \<Rightarrow> 'z db_scheme \<Rightarrow> enrollment_row option" where
  "EnrollmentsRepository_findById i d = tbl_find (\<lambda>e. en_id e = i) (t_enrollments d)"

definition EnrollmentsRepository_findByEventAndStudent ::
  "int \<Rightarrow> int \<Rightarrow> 'z db_scheme \<Rightarrow> enrollment_row option" where
  "EnrollmentsRepository_findByEventAndStudent ev st d =
     tbl_find (\<lambda>e. en_eventId e = ev \<and> en_studentId e = st) (t_enrollments d)"

text \<open>The inner join with students, ordered by student number.\<close>

definition EnrollmentsRepository_listWithStudentByEvent ::
  "int \<Rightarrow> 'z db_scheme \<Rightarrow> (enrollment_row \<times> student_row) list" where
  "EnrollmentsRepository_listWithStudentByEvent ev d =
     sort_key (\<lambda>(e, s). st_studentNumber s)
       (List.map_filter (\<lambda>e. map_option (Pair e) (StudentsRepository_findById (en_studentId e) d))
          (tbl_select (\<lambda>e. en_eventId e = ev) (t_enrollments d)))"

definition EnrollmentsRepository_insert ::
  "enrollment_row \<Rightarrow> 'z db_scheme \<Rightarrow> (enrollment_row, 'z db_scheme) outcome" where
  "EnrollmentsRepository_insert v d =
     (if EnrollmentsRepository_findByEventAndStudent (en_eventId v) (en_studentId v) d \<noteq> None
      then (Inl (unique_violation ''event_enrollments.event_id, event_enrollments.student_id''), d)
      else if EventsRepository_findById (en_eventId v) d = None
              \<or> StudentsRepository_findById (en_studentId v) d = None
      then (Inl fk_violation, d)
      else case tbl_insert (put_enrollment (v\<lparr>en_createdAt := db_now d\<rparr>)) (t_enrollments d) of
             (r, t) \<Rightarrow> (Inr r, d\<lparr>t_enrollments := t\<rparr>))"

definition EnrollmentsRepository_updateSeat ::
  "int \<Rightarrow> string option \<Rightarrow> enrollment_status \<Rightarrow> 'z db_scheme \<Rightarrow> 'z db_scheme" where
  "EnrollmentsRepository_updateSeat i seat stat d =
     d\<lparr>t_enrollments := tbl_update (\<lambda>e. en_id e = i)
         (\<lambda>e. e\<lparr>en_seatLabel := seat, en_status := stat\<rparr>) (t_enrollments d)\<rparr>"

definition EnrollmentsRepository_remove :: "int \<Rightarrow> 'z db_scheme \<Rightarrow> 'z db_scheme" where
  "EnrollmentsRepository_remove i d = drop_enrollments (\<lambda>e. en_id e = i) d"


section \<open>stream_keys\<close>

definition put_key :: "stream_key_row \<Rightarrow> int \<Rightarrow> stream_key_row" where
  "put_key v i = v\<lparr>sk_id := i\<rparr>"

definition StreamKeysRepository_findAllByStreamName :: "string \<Rightarrow> 'z db_scheme \<Rightarrow> stream_key_row list" where
  "StreamKeysRepository_findAllByStreamName n d = tbl_select (\<lambda>k. sk_streamName k = n) (t_streamKeys d)"

definition StreamKeysRepository_findByEventAndName ::
  "int \<Rightarrow> string \<Rightarrow> 'z db_scheme \<Rightarrow> stream_key_row option" where
  "StreamKeysRepository_findByEventAndName ev n d =
     tbl_find (\<lambda>k. sk_eventId k = ev \<and> sk_streamName k = n) (t_streamKeys d)"

definition StreamKeysRepository_findByEventAndId ::
  "int \<Rightarrow> int \<Rightarrow> 'z db_scheme \<Rightarrow> stream_key_row option" where
  "StreamKeysRepository_findByEventAndId ev i d =
     tbl_find (\<lambda>k. sk_id k = i \<and> sk_eventId k = ev) (t_streamKeys d)"

definition StreamKeysRepository_findActiveEnrollmentIdsByEvent :: "int \<Rightarrow> 'z db_scheme \<Rightarrow> int list" where
  "StreamKeysRepository_findActiveEnrollmentIdsByEvent ev d =
     List.map_filter sk_enrollmentId
       (tbl_select (\<lambda>k. sk_eventId k = ev \<and> \<not> sk_revoked k) (t_streamKeys d))"

text \<open>The left joins with enrollments and students: (key, student number, name, seat).\<close>

definition StreamKeysRepository_listWithStudentByEvent ::
  "int \<Rightarrow> 'z db_scheme \<Rightarrow> (stream_key_row \<times> student_row option \<times> string option) list" where
  "StreamKeysRepository_listWithStudentByEvent ev d =
     sort_key (\<lambda>(k, _). sk_streamName k)
       (map (\<lambda>k. let en = Option.bind (sk_enrollmentId k) (\<lambda>i. EnrollmentsRepository_findById i d)
                 in (k, Option.bind en (\<lambda>e. StudentsRepository_findById (en_studentId e) d),
                        Option.bind en en_seatLabel))
            (tbl_select (\<lambda>k. sk_eventId k = ev) (t_streamKeys d)))"

definition keys_set :: "(stream_key_row \<Rightarrow> bool) \<Rightarrow> (stream_key_row \<Rightarrow> stream_key_row) \<Rightarrow>
    'z db_scheme \<Rightarrow> 'z db_scheme" where
  "keys_set p f d = d\<lparr>t_streamKeys := tbl_update p f (t_streamKeys d)\<rparr>"

definition StreamKeysRepository_touch :: "int \<Rightarrow> 'z db_scheme \<Rightarrow> 'z db_scheme" where
  "StreamKeysRepository_touch i d = keys_set (\<lambda>k. sk_id k = i) (sk_lastUsedAt_update (\<lambda>_. Some (db_now d))) d"

definition StreamKeysRepository_revoke :: "int \<Rightarrow> 'z db_scheme \<Rightarrow> 'z db_scheme" where
  "StreamKeysRepository_revoke i d = keys_set (\<lambda>k. sk_id k = i) (sk_revoked_update (\<lambda>_. True)) d"

definition StreamKeysRepository_revokeActiveByEnrollment :: "int \<Rightarrow> 'z db_scheme \<Rightarrow> 'z db_scheme" where
  "StreamKeysRepository_revokeActiveByEnrollment en d =
     keys_set (\<lambda>k. sk_enrollmentId k = Some en \<and> \<not> sk_revoked k) (sk_revoked_update (\<lambda>_. True)) d"

definition StreamKeysRepository_rotate ::
  "int \<Rightarrow> string \<Rightarrow> string \<Rightarrow> int \<Rightarrow> 'z db_scheme \<Rightarrow> (unit, 'z db_scheme) outcome" where
  "StreamKeysRepository_rotate i hash preview en d =
     (if tbl_find (\<lambda>k. sk_id k = i) (t_streamKeys d) \<noteq> None \<and> EnrollmentsRepository_findById en d = None
      then (Inl fk_violation, d)
      else (Inr (), keys_set (\<lambda>k. sk_id k = i)
              (\<lambda>k. k\<lparr>sk_tokenHash := hash, sk_tokenPreview := preview, sk_revoked := False,
                     sk_lastUsedAt := None, sk_enrollmentId := Some en\<rparr>) d))"

definition StreamKeysRepository_insert ::
  "stream_key_row \<Rightarrow> 'z db_scheme \<Rightarrow> (stream_key_row, 'z db_scheme) outcome" where
  "StreamKeysRepository_insert v d =
     (if StreamKeysRepository_findByEventAndName (sk_eventId v) (sk_streamName v) d \<noteq> None
      then (Inl (unique_violation ''stream_keys.event_id, stream_keys.stream_name''), d)
      else if EventsRepository_findById (sk_eventId v) d = None
              \<or> (case sk_enrollmentId v of None \<Rightarrow> False | Some en \<Rightarrow> EnrollmentsRepository_findById en d = None)
      then (Inl fk_violation, d)
      else case tbl_insert (put_key (v\<lparr>sk_createdAt := db_now d\<rparr>)) (t_streamKeys d) of
             (r, t) \<Rightarrow> (Inr r, d\<lparr>t_streamKeys := t\<rparr>))"


section \<open>publish_sessions\<close>

definition put_session :: "publish_session_row \<Rightarrow> int \<Rightarrow> publish_session_row" where
  "put_session v i = v\<lparr>ps_id := i\<rparr>"

definition session_norm :: "publish_session_row \<Rightarrow> publish_session_row" where
  "session_norm s = s\<lparr>ps_lastMetricAt := map_option db_ts (ps_lastMetricAt s),
     ps_startedAt := db_ts (ps_startedAt s), ps_endedAt := map_option db_ts (ps_endedAt s)\<rparr>"

definition PublishSessionsRepository_findById :: "int \<Rightarrow> 'z db_scheme \<Rightarrow> publish_session_row option" where
  "PublishSessionsRepository_findById i d = tbl_find (\<lambda>s. ps_id s = i) (t_sessions d)"

definition PublishSessionsRepository_findActiveByEvent ::
  "int \<Rightarrow> 'z db_scheme \<Rightarrow> publish_session_row list" where
  "PublishSessionsRepository_findActiveByEvent ev d =
     tbl_select (\<lambda>s. ps_eventId s = Some ev \<and> ps_endedAt s = None) (t_sessions d)"

definition first_of :: "'r list \<Rightarrow> 'r option" where
  "first_of rs = (case rs of [] \<Rightarrow> None | r # _ \<Rightarrow> Some r)"

definition PublishSessionsRepository_findActiveByStream ::
  "string \<Rightarrow> 'z db_scheme \<Rightarrow> publish_session_row option" where
  "PublishSessionsRepository_findActiveByStream n d =
     first_of (order_desc ps_startedAt
       (tbl_select (\<lambda>s. ps_streamName s = n \<and> ps_endedAt s = None) (t_sessions d)))"

definition PublishSessionsRepository_findActiveByClientId ::
  "string \<Rightarrow> 'z db_scheme \<Rightarrow> publish_session_row option" where
  "PublishSessionsRepository_findActiveByClientId c d =
     first_of (order_desc ps_startedAt
       (tbl_select (\<lambda>s. ps_srsClientId s = Some c \<and> ps_endedAt s = None) (t_sessions d)))"

definition PublishSessionsRepository_findActive ::
  "int option \<Rightarrow> 'z db_scheme \<Rightarrow> publish_session_row list" where
  "PublishSessionsRepository_findActive ev d =
     order_desc ps_startedAt
       (tbl_select (\<lambda>s. ps_endedAt s = None
                      \<and> (case ev of None \<Rightarrow> True | Some i \<Rightarrow> 0 < i \<longrightarrow> ps_eventId s = Some i)) (t_sessions d))"

definition PublishSessionsRepository_findAllByEvent ::
  "int \<Rightarrow> 'z db_scheme \<Rightarrow> publish_session_row list" where
  "PublishSessionsRepository_findAllByEvent ev d =
     order_desc ps_startedAt (tbl_select (\<lambda>s. ps_eventId s = Some ev) (t_sessions d))"

definition PublishSessionsRepository_findLiveForCatalog :: "'z db_scheme \<Rightarrow> publish_session_row list" where
  "PublishSessionsRepository_findLiveForCatalog d =
     tbl_select (\<lambda>s. ps_endedAt s = None \<and> ps_status s \<in> {SAllowed, SCompliant, SViolating}) (t_sessions d)"

definition PublishSessionsRepository_insert ::
  "publish_session_row \<Rightarrow> 'z db_scheme \<Rightarrow> (publish_session_row, 'z db_scheme) outcome" where
  "PublishSessionsRepository_insert v d =
     (if (case ps_eventId v of None \<Rightarrow> False | Some i \<Rightarrow> EventsRepository_findById i d = None)
         \<or> (case ps_streamKeyId v of None \<Rightarrow> False
             | Some k \<Rightarrow> tbl_find (\<lambda>r. sk_id r = k) (t_streamKeys d) = None)
      then (Inl fk_violation, d)
      else case tbl_insert (put_session (session_norm v)) (t_sessions d) of
             (r, t) \<Rightarrow> (Inr r, d\<lparr>t_sessions := t\<rparr>))"

definition sessions_set :: "int \<Rightarrow> (publish_session_row \<Rightarrow> publish_session_row) \<Rightarrow>
    'z db_scheme \<Rightarrow> 'z db_scheme" where
  "sessions_set i f d = d\<lparr>t_sessions := tbl_update (\<lambda>s. ps_id s = i) f (t_sessions d)\<rparr>"

definition PublishSessionsRepository_updateMetrics ::
  "int \<Rightarrow> int option \<Rightarrow> int option \<Rightarrow> rat option \<Rightarrow> int option \<Rightarrow> int option \<Rightarrow>
   'z db_scheme \<Rightarrow> 'z db_scheme" where
  "PublishSessionsRepository_updateMetrics i wd ht fp vb ab d =
     sessions_set i (\<lambda>s. s\<lparr>ps_width := wd, ps_height := ht, ps_fps := fp, ps_videoBitrateKbps := vb,
       ps_audioBitrateKbps := ab, ps_lastMetricAt := Some (db_now d)\<rparr>) d"

definition PublishSessionsRepository_updateStatus ::
  "int \<Rightarrow> session_status \<Rightarrow> int option \<Rightarrow> bool option \<Rightarrow> 'z db_scheme \<Rightarrow> 'z db_scheme" where
  "PublishSessionsRepository_updateStatus i stat endedAt compl d =
     sessions_set i (\<lambda>s. s\<lparr>ps_status := stat,
       ps_endedAt := (case endedAt of None \<Rightarrow> ps_endedAt s | Some t \<Rightarrow> Some (db_ts t)),
       ps_compliant := (case compl of None \<Rightarrow> ps_compliant s | Some b \<Rightarrow> b)\<rparr>) d"

definition PublishSessionsRepository_markEnded ::
  "int \<Rightarrow> session_status \<Rightarrow> int \<Rightarrow> 'z db_scheme \<Rightarrow> 'z db_scheme" where
  "PublishSessionsRepository_markEnded i stat endedAt d =
     sessions_set i (\<lambda>s. s\<lparr>ps_endedAt := Some (db_ts endedAt), ps_status := stat\<rparr>) d"


section \<open>recordings\<close>

definition put_recording :: "recording_row \<Rightarrow> int \<Rightarrow> recording_row" where
  "put_recording v i = v\<lparr>rc_id := i\<rparr>"

definition recording_norm :: "recording_row \<Rightarrow> recording_row" where
  "recording_norm r = r\<lparr>rc_startedAt := db_ts (rc_startedAt r), rc_endedAt := map_option db_ts (rc_endedAt r),
     rc_retainedUntil := map_option db_ts (rc_retainedUntil r)\<rparr>"

definition RecordingsRepository_findAll :: "'z db_scheme \<Rightarrow> recording_row list" where
  "RecordingsRepository_findAll d = order_desc rc_startedAt (rows (t_recordings d))"

definition RecordingsRepository_findByEvent :: "int \<Rightarrow> 'z db_scheme \<Rightarrow> recording_row list" where
  "RecordingsRepository_findByEvent ev d =
     order_desc rc_startedAt (tbl_select (\<lambda>r. rc_eventId r = Some ev) (t_recordings d))"

definition RecordingsRepository_findMergeTarget ::
  "int \<Rightarrow> string \<Rightarrow> 'z db_scheme \<Rightarrow> recording_row option" where
  "RecordingsRepository_findMergeTarget ev n d =
     first_of (order_desc rc_startedAt
       (tbl_select (\<lambda>r. rc_eventId r = Some ev \<and> rc_streamName r = n) (t_recordings d)))"

definition RecordingsRepository_update ::
  "int \<Rightarrow> (recording_row \<Rightarrow> recording_row) \<Rightarrow> 'z db_scheme \<Rightarrow> 'z db_scheme" where
  "RecordingsRepository_update i patch d =
     d\<lparr>t_recordings := tbl_update (\<lambda>r. rc_id r = i)
         (\<lambda>r. put_recording (recording_norm (patch r)) (rc_id r)) (t_recordings d)\<rparr>"

definition RecordingsRepository_findById :: "int \<Rightarrow> 'z db_scheme \<Rightarrow> recording_row option" where
  "RecordingsRepository_findById i d = tbl_find (\<lambda>r. rc_id r = i) (t_recordings d)"

definition RecordingsRepository_findExpired :: "int \<Rightarrow> 'z db_scheme \<Rightarrow> recording_row list" where
  "RecordingsRepository_findExpired cutoff d =
     tbl_select (\<lambda>r. rc_startedAt r < db_ts cutoff) (t_recordings d)"

definition RecordingsRepository_insert ::
  "recording_row \<Rightarrow> 'z db_scheme \<Rightarrow> (recording_row, 'z db_scheme) outcome" where
  "RecordingsRepository_insert v d =
     (if (case rc_eventId v of None \<Rightarrow> False | Some i \<Rightarrow> EventsRepository_findById i d = None)
         \<or> (case rc_sessionId v of None \<Rightarrow> False
             | Some s \<Rightarrow> PublishSessionsRepository_findById s d = None)
      then (Inl fk_violation, d)
      else case tbl_insert (put_recording (recording_norm (v\<lparr>rc_createdAt := db_now d\<rparr>))) (t_recordings d) of
             (r, t) \<Rightarrow> (Inr r, d\<lparr>t_recordings := t\<rparr>))"

definition RecordingsRepository_remove :: "int \<Rightarrow> 'z db_scheme \<Rightarrow> 'z db_scheme" where
  "RecordingsRepository_remove i d = d\<lparr>t_recordings := tbl_delete (\<lambda>r. rc_id r = i) (t_recordings d)\<rparr>"


section \<open>groups, user_groups and event_groups\<close>

definition put_group :: "group_row \<Rightarrow> int \<Rightarrow> group_row" where
  "put_group v i = v\<lparr>gr_id := i\<rparr>"

definition GroupsRepository_findAll :: "'z db_scheme \<Rightarrow> group_row list" where
  "GroupsRepository_findAll d = sort_key gr_name (rows (t_groups d))"

definition GroupsRepository_findById :: "int \<Rightarrow> 'z db_scheme \<Rightarrow> group_row option" where
  "GroupsRepository_findById i d = tbl_find (\<lambda>g. gr_id g = i) (t_groups d)"

definition GroupsRepository_findByName :: "string \<Rightarrow> 'z db_scheme \<Rightarrow> group_row option" where
  "GroupsRepository_findByName n d = tbl_find (\<lambda>g. gr_name g = n) (t_groups d)"

definition GroupsRepository_insert ::
  "group_row \<Rightarrow> 'z db_scheme \<Rightarrow> (group_row, 'z db_scheme) outcome" where
  "GroupsRepository_insert v d =
     (if GroupsRepository_findByName (gr_name v) d \<noteq> None
      then (Inl (unique_violation ''groups.name''), d)
      else case tbl_insert (put_group (v\<lparr>gr_createdAt := db_now d\<rparr>)) (t_groups d) of
             (r, t) \<Rightarrow> (Inr r, d\<lparr>t_groups := t\<rparr>))"

definition GroupsRepository_update ::
  "int \<Rightarrow> (group_row \<Rightarrow> group_row) \<Rightarrow> 'z db_scheme \<Rightarrow> (unit, 'z db_scheme) outcome" where
  "GroupsRepository_update i patch d =
     (case GroupsRepository_findById i d of
        None \<Rightarrow> (Inr (), d)
      | Some g \<Rightarrow>
          if tbl_find (\<lambda>g'. gr_name g' = gr_name (patch g) \<and> gr_id g' \<noteq> i) (t_groups d) \<noteq> None
          then (Inl (unique_violation ''groups.name''), d)
          else (Inr (), d\<lparr>t_groups := tbl_update (\<lambda>g. gr_id g = i) (\<lambda>g. put_group (patch g) (gr_id g)) (t_groups d)\<rparr>))"

definition GroupsRepository_remove :: "int \<Rightarrow> 'z db_scheme \<Rightarrow> 'z db_scheme" where
  "GroupsRepository_remove i d = d\<lparr>
     t_groups := tbl_delete (\<lambda>g. gr_id g = i) (t_groups d),
     t_userGroups := filter (\<lambda>m. ug_groupId m \<noteq> i) (t_userGroups d),
     t_eventGroups := filter (\<lambda>m. eg_groupId m \<noteq> i) (t_eventGroups d),
     t_invites := tbl_delete (\<lambda>v. iv_groupId v = i) (t_invites d)\<rparr>"

definition GroupsRepository_findGroupsForUser :: "int \<Rightarrow> 'z db_scheme \<Rightarrow> group_row list" where
  "GroupsRepository_findGroupsForUser u d =
     sort_key gr_name (List.map_filter (\<lambda>m. GroupsRepository_findById (ug_groupId m) d)
       (filter (\<lambda>m. ug_userId m = u) (t_userGroups d)))"

definition GroupsRepository_findUserGroupIds :: "int \<Rightarrow> 'z db_scheme \<Rightarrow> int list" where
  "GroupsRepository_findUserGroupIds u d =
     map ug_groupId (filter (\<lambda>m. ug_userId m = u) (t_userGroups d))"

definition GroupsRepository_countMembers :: "int \<Rightarrow> 'z db_scheme \<Rightarrow> int" where
  "GroupsRepository_countMembers g d = int (length (filter (\<lambda>m. ug_groupId m = g) (t_userGroups d)))"

definition GroupsRepository_addUserToGroup ::
  "int \<Rightarrow> int \<Rightarrow> 'z db_scheme \<Rightarrow> (unit, 'z db_scheme) outcome" where
  "GroupsRepository_addUserToGroup u g d =
     (if \<exists>m\<in>set (t_userGroups d). ug_userId m = u \<and> ug_groupId m = g then (Inr (), d)
      else if UsersRepository_findById u d = None \<or> GroupsRepository_findById g d = None
      then (Inl fk_violation, d)
      else (Inr (), d\<lparr>t_userGroups := t_userGroups d @
              [\<lparr>ug_userId = u, ug_groupId = g, ug_createdAt = db_now d\<rparr>]\<rparr>))"

definition GroupsRepository_removeUserFromGroup :: "int \<Rightarrow> int \<Rightarrow> 'z db_scheme \<Rightarrow> 'z db_scheme" where
  "GroupsRepository_removeUserFromGroup u g d =
     d\<lparr>t_userGroups := filter (\<lambda>m. \<not> (ug_userId m = u \<and> ug_groupId m = g)) (t_userGroups d)\<rparr>"

text \<open>The DELETE has happened when the multi-row INSERT fails as a whole.\<close>

definition GroupsRepository_setUserGroups ::
  "int \<Rightarrow> int list \<Rightarrow> 'z db_scheme \<Rightarrow> (unit, 'z db_scheme) outcome" where
  "GroupsRepository_setUserGroups u gs d =
     (let d1 = d\<lparr>t_userGroups := filter (\<lambda>m. ug_userId m \<noteq> u) (t_userGroups d)\<rparr> in
      if gs = [] then (Inr (), d1)
      else if \<not> distinct gs then (Inl (unique_violation ''user_groups.user_id, user_groups.group_id''), d1)
      else if UsersRepository_findById u d = None \<or> (\<exists>g\<in>set gs. GroupsRepository_findById g d = None)
      then (Inl fk_violation, d1)
      else (Inr (), d1\<lparr>t_userGroups := t_userGroups d1 @
              map (\<lambda>g. \<lparr>ug_userId = u, ug_groupId = g, ug_createdAt = db_now d\<rparr>) gs\<rparr>))"

definition GroupsRepository_userInAnyGroup :: "int \<Rightarrow> int list \<Rightarrow> 'z db_scheme \<Rightarrow> bool" where
  "GroupsRepository_userInAnyGroup u gs d =
     (if gs = [] then False
      else filter (\<lambda>m. ug_userId m = u \<and> ug_groupId m \<in> set gs) (t_userGroups d) \<noteq> [])"

definition GroupsRepository_findGroupsForEvent :: "int \<Rightarrow> 'z db_scheme \<Rightarrow> group_row list" where
  "GroupsRepository_findGroupsForEvent e d =
     sort_key gr_name (List.map_filter (\<lambda>m. GroupsRepository_findById (eg_groupId m) d)
       (filter (\<lambda>m. eg_eventId m = e) (t_eventGroups d)))"

definition GroupsRepository_findEventGroupIds :: "int \<Rightarrow> 'z db_scheme \<Rightarrow> int list" where
  "GroupsRepository_findEventGroupIds e d =
     map eg_groupId (filter (\<lambda>m. eg_eventId m = e) (t_eventGroups d))"

definition GroupsRepository_setEventGroups ::
  "int \<Rightarrow> int list \<Rightarrow> 'z db_scheme \<Rightarrow> (unit, 'z db_scheme) outcome" where
  "GroupsRepository_setEventGroups e gs d =
     (let d1 = d\<lparr>t_eventGroups := filter (\<lambda>m. eg_eventId m \<noteq> e) (t_eventGroups d)\<rparr> in
      if gs = [] then (Inr (), d1)
      else if \<not> distinct gs then (Inl (unique_violation ''event_groups.event_id, event_groups.group_id''), d1)
      else if EventsRepository_findById e d = None \<or> (\<exists>g\<in>set gs. GroupsRepository_findById g d = None)
      then (Inl fk_violation, d1)
      else (Inr (), d1\<lparr>t_eventGroups := t_eventGroups d1 @
              map (\<lambda>g. \<lparr>eg_eventId = e, eg_groupId = g\<rparr>) gs\<rparr>))"


section \<open>invite_links\<close>

definition put_invite :: "invite_row \<Rightarrow> int \<Rightarrow> invite_row" where
  "put_invite v i = v\<lparr>iv_id := i\<rparr>"

definition invite_norm :: "invite_row \<Rightarrow> invite_row" where
  "invite_norm v = v\<lparr>iv_expiresAt := map_option db_ts (iv_expiresAt v)\<rparr>"

definition InviteLinksRepository_findByCode :: "string \<Rightarrow> 'z db_scheme \<Rightarrow> invite_row option" where
  "InviteLinksRepository_findByCode c d = tbl_find (\<lambda>v. iv_code v = c) (t_invites d)"

definition InviteLinksRepository_findAll :: "'z db_scheme \<Rightarrow> invite_row list" where
  "InviteLinksRepository_findAll d = order_desc iv_createdAt (order_desc iv_id (rows (t_invites d)))"

definition InviteLinksRepository_findByGroup :: "int \<Rightarrow> 'z db_scheme \<Rightarrow> invite_row list" where
  "InviteLinksRepository_findByGroup g d = tbl_select (\<lambda>v. iv_groupId v = g) (t_invites d)"

definition InviteLinksRepository_insert ::
  "invite_row \<Rightarrow> 'z db_scheme \<Rightarrow> (invite_row, 'z db_scheme) outcome" where
  "InviteLinksRepository_insert v d =
     (if InviteLinksRepository_findByCode (iv_code v) d \<noteq> None
      then (Inl (unique_violation ''invite_links.code''), d)
      else if GroupsRepository_findById (iv_groupId v) d = None
              \<or> (case iv_createdBy v of None \<Rightarrow> False | Some u \<Rightarrow> UsersRepository_findById u d = None)
      then (Inl fk_violation, d)
      else case tbl_insert (put_invite (invite_norm (v\<lparr>iv_createdAt := db_now d\<rparr>))) (t_invites d) of
             (r, t) \<Rightarrow> (Inr r, d\<lparr>t_invites := t\<rparr>))"

definition InviteLinksRepository_update ::
  "int \<Rightarrow> (invite_row \<Rightarrow> invite_row) \<Rightarrow> 'z db_scheme \<Rightarrow> 'z db_scheme" where
  "InviteLinksRepository_update i patch d =
     d\<lparr>t_invites := tbl_update (\<lambda>v. iv_id v = i) (\<lambda>v. put_invite (invite_norm (patch v)) (iv_id v)) (t_invites d)\<rparr>"

definition InviteLinksRepository_remove :: "int \<Rightarrow> 'z db_scheme \<Rightarrow> 'z db_scheme" where
  "InviteLinksRepository_remove i d = d\<lparr>t_invites := tbl_delete (\<lambda>v. iv_id v = i) (t_invites d)\<rparr>"

definition InviteLinksRepository_incrementUsed :: "int \<Rightarrow> 'z db_scheme \<Rightarrow> 'z db_scheme" where
  "InviteLinksRepository_incrementUsed i d =
     d\<lparr>t_invites := tbl_update (\<lambda>v. iv_id v = i) (\<lambda>v. v\<lparr>iv_usedCount := iv_usedCount v + 1\<rparr>) (t_invites d)\<rparr>"


section \<open>node_settings and node_latencies\<close>

definition DEFAULT_MAX_USERS :: int where
  "DEFAULT_MAX_USERS = 50"

definition NodeSettingsRepository_getMaxUsers :: "string \<Rightarrow> 'z db_scheme \<Rightarrow> int" where
  "NodeSettingsRepository_getMaxUsers n d =
     (case find (\<lambda>s. ns_nodeId s = n) (t_nodeSettings d) of
        None \<Rightarrow> DEFAULT_MAX_USERS | Some s \<Rightarrow> ns_maxUsers s)"

definition NodeSettingsRepository_upsert ::
  "string \<Rightarrow> int \<Rightarrow> 'z db_scheme \<Rightarrow> node_setting_row \<times> 'z db_scheme" where
  "NodeSettingsRepository_upsert n m d =
     (let r = \<lparr>ns_nodeId = n, ns_maxUsers = m\<rparr> in
      (r, d\<lparr>t_nodeSettings :=
             (if find (\<lambda>s. ns_nodeId s = n) (t_nodeSettings d) = None then t_nodeSettings d @ [r]
              else map (\<lambda>s. if ns_nodeId s = n then r else s) (t_nodeSettings d))\<rparr>))"

definition NodeSettingsRepository_assignedCount :: "string \<Rightarrow> 'z db_scheme \<Rightarrow> int" where
  "NodeSettingsRepository_assignedCount n d =
     int (length (tbl_select (\<lambda>u. us_nodeId u = Some n) (t_users d)))"

definition put_latency :: "node_latency_row \<Rightarrow> int \<Rightarrow> node_latency_row" where
  "put_latency v i = v\<lparr>nl_id := i\<rparr>"

definition NodeLatenciesRepository_upsert ::
  "int \<Rightarrow> string \<Rightarrow> int \<Rightarrow> 'z db_scheme \<Rightarrow> (unit, 'z db_scheme) outcome" where
  "NodeLatenciesRepository_upsert u n ms d =
     (if tbl_find (\<lambda>l. nl_userId l = u \<and> nl_nodeId l = n) (t_nodeLatencies d) \<noteq> None
      then (Inr (), d\<lparr>t_nodeLatencies := tbl_update (\<lambda>l. nl_userId l = u \<and> nl_nodeId l = n)
              (\<lambda>l. l\<lparr>nl_latencyMs := ms, nl_measuredAt := db_now d\<rparr>) (t_nodeLatencies d)\<rparr>)
      else if UsersRepository_findById u d = None then (Inl fk_violation, d)
      else (Inr (), d\<lparr>t_nodeLatencies := snd (tbl_insert
              (put_latency \<lparr>nl_id = 0, nl_userId = u, nl_nodeId = n, nl_latencyMs = ms, nl_measuredAt = db_now d\<rparr>)
              (t_nodeLatencies d))\<rparr>))"

definition NodeLatenciesRepository_forUser :: "int \<Rightarrow> 'z db_scheme \<Rightarrow> (string \<times> int) list" where
  "NodeLatenciesRepository_forUser u d =
     map (\<lambda>l. (nl_nodeId l, nl_latencyMs l)) (tbl_select (\<lambda>l. nl_userId l = u) (t_nodeLatencies d))"

definition NodeLatenciesRepository_matrix :: "'z db_scheme \<Rightarrow> int \<Rightarrow> (string \<rightharpoonup> int) option" where
  "NodeLatenciesRepository_matrix d =
     fold (\<lambda>l m. m(nl_userId l \<mapsto> (orDefault (m (nl_userId l)) Map.empty)(nl_nodeId l \<mapsto> nl_latencyMs l)))
       (rows (t_nodeLatencies d)) (\<lambda>_. None)"

definition NodeLatenciesRepository_get :: "int \<Rightarrow> string \<Rightarrow> 'z db_scheme \<Rightarrow> int option" where
  "NodeLatenciesRepository_get u n d =
     map_option nl_latencyMs (tbl_find (\<lambda>l. nl_userId l = u \<and> nl_nodeId l = n) (t_nodeLatencies d))"

definition NodeLatenciesRepository_deleteNode :: "string \<Rightarrow> 'z db_scheme \<Rightarrow> 'z db_scheme" where
  "NodeLatenciesRepository_deleteNode n d =
     d\<lparr>t_nodeLatencies := tbl_delete (\<lambda>l. nl_nodeId l = n) (t_nodeLatencies d)\<rparr>"


section \<open>audit_log\<close>

definition put_audit :: "audit_row \<Rightarrow> int \<Rightarrow> audit_row" where
  "put_audit v i = v\<lparr>au_id := i\<rparr>"

record audit_filters =
  af_level :: "audit_level option"
  af_category :: "audit_category option"
  af_eventId :: "int option"
  af_actor :: "string option"
  af_involvedEmail :: "string option"
  af_q :: "string option"

text \<open>LIKE: % stands for any text, _ for one character, and ASCII letters match
  regardless of case.\<close>

fun sql_like :: "string \<Rightarrow> string \<Rightarrow> bool" where
  "sql_like [] [] = True"
| "sql_like [] (c # cs) = False"
| "sql_like (p # ps) [] = (p = CHR ''%'' \<and> sql_like ps [])"
| "sql_like (p # ps) (c # cs) =
     (if p = CHR ''%'' then sql_like ps (c # cs) \<or> sql_like (p # ps) cs
      else (p = CHR ''_'' \<or> lower_char p = lower_char c) \<and> sql_like ps cs)"

definition opt_like :: "string \<Rightarrow> string option \<Rightarrow> bool" where
  "opt_like p x = (case x of None \<Rightarrow> False | Some t \<Rightarrow> sql_like p t)"

text \<open>A filter that is null, an empty string or the number 0 adds no condition.\<close>

definition conditionsOf :: "audit_filters \<Rightarrow> (audit_row \<Rightarrow> bool) list" where
  "conditionsOf f =
     (case af_level f of None \<Rightarrow> [] | Some l \<Rightarrow> [\<lambda>r. au_level r = l]) @
     (case af_category f of None \<Rightarrow> [] | Some c \<Rightarrow> [\<lambda>r. au_category r = c]) @
     (case af_eventId f of None \<Rightarrow> [] | Some e \<Rightarrow> if e = 0 then [] else [\<lambda>r. au_eventId r = Some e]) @
     (case af_actor f of None \<Rightarrow> [] | Some a \<Rightarrow> if a = [] then [] else [\<lambda>r. au_actor r = Some a]) @
     (case af_involvedEmail f of None \<Rightarrow> []
      | Some m \<Rightarrow> if m = [] then [] else [\<lambda>r. au_actor r = Some m \<or> au_streamName r = Some m]) @
     (case af_q f of None \<Rightarrow> []
      | Some q \<Rightarrow> if q = [] then []
                  else (let p = ''%'' @ q @ ''%'' in [\<lambda>r. sql_like p (au_message r) \<or> opt_like p (au_streamName r)]))"

definition audit_matches :: "audit_filters \<Rightarrow> audit_row \<Rightarrow> bool" where
  "audit_matches f r = (\<forall>c\<in>set (conditionsOf f). c r)"

definition AuditLogRepository_insert :: "audit_row \<Rightarrow> 'z db_scheme \<Rightarrow> audit_row \<times> 'z db_scheme" where
  "AuditLogRepository_insert v d =
     (case tbl_insert (put_audit (v\<lparr>au_ts := db_now d\<rparr>)) (t_audit d) of (r, t) \<Rightarrow> (r, d\<lparr>t_audit := t\<rparr>))"

definition AuditLogRepository_findMany ::
  "audit_filters \<Rightarrow> int \<Rightarrow> int \<Rightarrow> 'z db_scheme \<Rightarrow> audit_row list" where
  "AuditLogRepository_findMany f limit offset d =
     take (nat limit) (drop (nat offset)
       (order_desc au_ts (order_desc au_id (tbl_select (audit_matches f) (t_audit d)))))"

definition AuditLogRepository_countFiltered :: "audit_filters \<Rightarrow> 'z db_scheme \<Rightarrow> int" where
  "AuditLogRepository_countFiltered f d = int (length (tbl_select (audit_matches f) (t_audit d)))"


section \<open>app_config\<close>

definition MAIN_KEY :: string where
  "MAIN_KEY = ''app_config''"

definition AppConfigRepository_findKey :: "string \<Rightarrow> 'z db_scheme \<Rightarrow> app_config_row option" where
  "AppConfigRepository_findKey k d = find (\<lambda>r. ac_key r = k) (t_appConfig d)"

definition AppConfigRepository_upsertKey :: "string \<Rightarrow> jtext \<Rightarrow> 'z db_scheme \<Rightarrow> 'z db_scheme" where
  "AppConfigRepository_upsertKey k v d =
     d\<lparr>t_appConfig :=
        (if AppConfigRepository_findKey k d = None
         then t_appConfig d @ [\<lparr>ac_key = k, ac_value = v, ac_updatedAt = db_now d\<rparr>]
         else map (\<lambda>r. if ac_key r = k then r\<lparr>ac_value := v, ac_updatedAt := db_now d\<rparr> else r) (t_appConfig d))\<rparr>"

definition AppConfigRepository_find :: "'z db_scheme \<Rightarrow> app_config_row option" where
  "AppConfigRepository_find d = AppConfigRepository_findKey MAIN_KEY d"

definition AppConfigRepository_upsert :: "jtext \<Rightarrow> 'z db_scheme \<Rightarrow> 'z db_scheme" where
  "AppConfigRepository_upsert v d = AppConfigRepository_upsertKey MAIN_KEY v d"

end
