(* ===== verification/Integrity.thy ===== *)
theory Integrity
  imports Repositories
begin

text \<open>
  Referential integrity.  The database reached by any sequence of repository
  writes satisfies every key, UNIQUE and FOREIGN KEY declaration of schema.ts:
  keys are distinct and below the next AUTOINCREMENT value, unique columns hold
  distinct values, and every reference points at a row that exists.
\<close>

named_theorems write_defs "definitions of the repository writes"

interpretation users: keyed us_id put_user by unfold_locales (simp add: put_user_def)
interpretation evts: keyed ev_id put_event by unfold_locales (simp add: put_event_def)
interpretation bans: keyed sb_id put_ban by unfold_locales (simp add: put_ban_def)
interpretation studs: keyed st_id put_student by unfold_locales (simp add: put_student_def)
interpretation enrs: keyed en_id put_enrollment by unfold_locales (simp add: put_enrollment_def)
interpretation skeys: keyed sk_id put_key by unfold_locales (simp add: put_key_def)
interpretation sess: keyed ps_id put_session by unfold_locales (simp add: put_session_def)
interpretation recs: keyed rc_id put_recording by unfold_locales (simp add: put_recording_def)
interpretation grps: keyed gr_id put_group by unfold_locales (simp add: put_group_def)
interpretation invs: keyed iv_id put_invite by unfold_locales (simp add: put_invite_def)
interpretation lats: keyed nl_id put_latency by unfold_locales (simp add: put_latency_def)
interpretation auds: keyed au_id put_audit by unfold_locales (simp add: put_audit_def)


section \<open>The declarations of the schema\<close>

text \<open>PRIMARY KEY AUTOINCREMENT.\<close>

definition ids_ok :: "'z db_scheme \<Rightarrow> bool" where
  "ids_ok d \<longleftrightarrow>
     tbl_ok us_id (t_users d) \<and> tbl_ok ev_id (t_events d) \<and> tbl_ok sb_id (t_streamBans d)
   \<and> tbl_ok st_id (t_students d) \<and> tbl_ok en_id (t_enrollments d) \<and> tbl_ok sk_id (t_streamKeys d)
   \<and> tbl_ok ps_id (t_sessions d) \<and> tbl_ok rc_id (t_recordings d) \<and> tbl_ok gr_id (t_groups d)
   \<and> tbl_ok iv_id (t_invites d) \<and> tbl_ok nl_id (t_nodeLatencies d) \<and> tbl_ok au_id (t_audit d)"

text \<open>UNIQUE columns and composite or text primary keys.  SQLite treats NULLs as
  distinct, so the unique constraint of stream_bans binds event bans only.\<close>

definition event_ban_keys :: "stream_ban_row list \<Rightarrow> (string \<times> int option) list" where
  "event_ban_keys bs = map (\<lambda>b. (sb_email b, sb_eventId b)) (filter (\<lambda>b. sb_eventId b \<noteq> None) bs)"

definition uniq_ok :: "'z db_scheme \<Rightarrow> bool" where
  "uniq_ok d \<longleftrightarrow>
     distinct (map us_email (rows (t_users d))) \<and> distinct (map ev_slug (rows (t_events d)))
   \<and> distinct (event_ban_keys (rows (t_streamBans d)))
   \<and> distinct (map al_oldSlug (t_aliases d))
   \<and> distinct (map st_studentNumber (rows (t_students d)))
   \<and> distinct (map (\<lambda>e. (en_eventId e, en_studentId e)) (rows (t_enrollments d)))
   \<and> distinct (map (\<lambda>k. (sk_eventId k, sk_streamName k)) (rows (t_streamKeys d)))
   \<and> distinct (map gr_name (rows (t_groups d)))
   \<and> distinct (map (\<lambda>m. (ug_userId m, ug_groupId m)) (t_userGroups d))
   \<and> distinct (map (\<lambda>m. (eg_eventId m, eg_groupId m)) (t_eventGroups d))
   \<and> distinct (map iv_code (rows (t_invites d)))
   \<and> distinct (map ns_nodeId (t_nodeSettings d))
   \<and> distinct (map (\<lambda>l. (nl_userId l, nl_nodeId l)) (rows (t_nodeLatencies d)))
   \<and> distinct (map ac_key (t_appConfig d))"

text \<open>REFERENCES.\<close>

definition has :: "('r \<Rightarrow> int) \<Rightarrow> 'r tbl \<Rightarrow> int \<Rightarrow> bool" where
  "has k t i \<longleftrightarrow> i \<in> k ` set (rows t)"

definition has_opt :: "('r \<Rightarrow> int) \<Rightarrow> 'r tbl \<Rightarrow> int option \<Rightarrow> bool" where
  "has_opt k t x \<longleftrightarrow> (\<forall>i. x = Some i \<longrightarrow> has k t i)"

definition fk_ok :: "'z db_scheme \<Rightarrow> bool" where
  "fk_ok d \<longleftrightarrow>
     (\<forall>l\<in>set (rows (t_nodeLatencies d)). has us_id (t_users d) (nl_userId l))
   \<and> (\<forall>b\<in>set (rows (t_streamBans d)). has_opt ev_id (t_events d) (sb_eventId b))
   \<and> (\<forall>a\<in>set (t_aliases d). has ev_id (t_events d) (al_eventId a))
   \<and> (\<forall>e\<in>set (rows (t_enrollments d)). has ev_id (t_events d) (en_eventId e))
   \<and> (\<forall>e\<in>set (rows (t_enrollments d)). has st_id (t_students d) (en_studentId e))
   \<and> (\<forall>k\<in>set (rows (t_streamKeys d)). has ev_id (t_events d) (sk_eventId k))
   \<and> (\<forall>k\<in>set (rows (t_streamKeys d)). has_opt en_id (t_enrollments d) (sk_enrollmentId k))
   \<and> (\<forall>s\<in>set (rows (t_sessions d)). has_opt ev_id (t_events d) (ps_eventId s))
   \<and> (\<forall>s\<in>set (rows (t_sessions d)). has_opt sk_id (t_streamKeys d) (ps_streamKeyId s))
   \<and> (\<forall>r\<in>set (rows (t_recordings d)). has_opt ev_id (t_events d) (rc_eventId r))
   \<and> (\<forall>r\<in>set (rows (t_recordings d)). has_opt ps_id (t_sessions d) (rc_sessionId r))
   \<and> (\<forall>m\<in>set (t_userGroups d). has us_id (t_users d) (ug_userId m) \<and> has gr_id (t_groups d) (ug_groupId m))
   \<and> (\<forall>m\<in>set (t_eventGroups d). has ev_id (t_events d) (eg_eventId m) \<and> has gr_id (t_groups d) (eg_groupId m))
   \<and> (\<forall>v\<in>set (rows (t_invites d)). has gr_id (t_groups d) (iv_groupId v)
        \<and> has_opt us_id (t_users d) (iv_createdBy v))"

definition integrity :: "'z db_scheme \<Rightarrow> bool" where
  "integrity d \<longleftrightarrow> ids_ok d \<and> uniq_ok d \<and> fk_ok d"

lemma has_insert: "has k (snd (tbl_insert mk t)) i \<longleftrightarrow> has k t i \<or> i = k (mk (seq t))"
  by (auto simp: has_def tbl_simps)

lemma has_insertI: "has k t i \<Longrightarrow> has k (snd (tbl_insert mk t)) i"
  by (simp add: has_insert)

lemma has_opt_insertI: "has_opt k t x \<Longrightarrow> has_opt k (snd (tbl_insert mk t)) x"
  by (simp add: has_opt_def has_insert)

lemma has_update: "(\<And>r. p r \<Longrightarrow> k (f r) = k r) \<Longrightarrow> has k (tbl_update p f t) i \<longleftrightarrow> has k t i"
  unfolding has_def tbl_rows_update set_map[symmetric]
  by (rule arg_cong[where f = "\<lambda>xs. i \<in> set xs"]) simp

lemma has_opt_update: "(\<And>r. p r \<Longrightarrow> k (f r) = k r) \<Longrightarrow> has_opt k (tbl_update p f t) x \<longleftrightarrow> has_opt k t x"
  by (simp add: has_opt_def has_update)

lemma has_delete: "has k (tbl_delete (\<lambda>r. k r = i) t) j \<longleftrightarrow> has k t j \<and> i \<noteq> j"
  by (auto simp: has_def tbl_simps)

lemma has_find: "tbl_find (\<lambda>r. k r = i) t \<noteq> None \<longleftrightarrow> has k t i"
  by (auto simp: has_def tbl_find_None image_iff)

lemma has_findD: "tbl_find (\<lambda>r. k r = i) t = Some r \<Longrightarrow> has k t i"
  using has_find[of k i t] by simp

lemma distinct_keep:
  "(\<And>r. p r \<Longrightarrow> k (f r) = k r) \<Longrightarrow> distinct (map k (map (\<lambda>r. if p r then f r else r) xs)) = distinct (map k xs)"
  by (rule arg_cong[where f = distinct]) simp

lemma distinct_snoc_find:
  "\<lbrakk>distinct (map k (rows t)); tbl_find (\<lambda>r. k r = k v) t = None\<rbrakk> \<Longrightarrow> distinct (map k (rows t @ [v]))"
  by (auto simp: tbl_find_None)

lemma distinct_change:
  assumes "distinct (map k (rows t))" "tbl_ok i t" "i (f r) = i r" "r \<in> set (rows t)"
    and "\<forall>r'\<in>set (rows t). i r' \<noteq> i r \<longrightarrow> k r' \<noteq> k (f r)"
  shows "distinct (map k (map (\<lambda>x. if i x = i r then f r else x) (rows t)))"
proof -
  have di: "distinct (map i (rows t))"
    using assms(2) by (auto simp: tbl_ok_def strict_sorted_iff)
  then have inj: "inj_on i (set (rows t))" by (simp add: distinct_map)
  have dr: "distinct (rows t)" using di by (simp add: distinct_map)
  let ?g = "\<lambda>x. k (if i x = i r then f r else x)"
  have "inj_on ?g (set (rows t))"
  proof (rule inj_onI)
    fix x y assume *: "x \<in> set (rows t)" "y \<in> set (rows t)" "?g x = ?g y"
    show "x = y"
    proof (cases "i x = i r")
      case True
      then have "i y = i r" using * assms(5) by (cases "i y = i r") auto
      with True * inj show ?thesis by (metis inj_onD)
    next
      case False
      then have "i y \<noteq> i r" using * assms(5) by auto
      with False * have "k x = k y" by simp
      with assms(1) * show ?thesis by (auto simp: distinct_map dest: inj_onD)
    qed
  qed
  then show ?thesis using dr by (simp add: distinct_map comp_def)
qed


lemma has_delete_gone:
  "\<lbrakk>has k t i; \<forall>r\<in>set (tbl_select p t). i \<noteq> k r\<rbrakk> \<Longrightarrow> has k (tbl_delete p t) i"
  by (auto simp: has_def tbl_simps tbl_select_def)

lemma ball_update:
  "(\<forall>r\<in>set (rows (tbl_update p f t)). Q r) \<longleftrightarrow> (\<forall>r\<in>set (rows t). Q (if p r then f r else r))"
  by (auto simp: tbl_simps)

lemma ball_delete:
  "(\<forall>r\<in>set (rows (tbl_delete p t)). Q r) \<longleftrightarrow> (\<forall>r\<in>set (rows t). \<not> p r \<longrightarrow> Q r)"
  by (auto simp: tbl_simps)

lemma ball_insert:
  "(\<forall>r\<in>set (rows (snd (tbl_insert mk t))). Q r) \<longleftrightarrow> (\<forall>r\<in>set (rows t). Q r) \<and> Q (mk (seq t))"
  by (auto simp: tbl_simps)

lemma distinct_rows_update:
  "(\<And>r. p r \<Longrightarrow> k (f r) = k r) \<Longrightarrow> distinct (map k (rows (tbl_update p f t))) = distinct (map k (rows t))"
  unfolding tbl_rows_update by (rule distinct_keep)

lemma distinct_rows_delete:
  "distinct (map k (rows t)) \<Longrightarrow> distinct (map k (rows (tbl_delete p t)))"
  by (simp add: tbl_rows_delete distinct_map_filter)

lemma distinct_rows_insert:
  "\<lbrakk>distinct (map k (rows t)); \<forall>r\<in>set (rows t). k r \<noteq> k (mk (seq t))\<rbrakk>
    \<Longrightarrow> distinct (map k (rows (snd (tbl_insert mk t))))"
  by (auto simp: tbl_rows_insert)

lemma ban_keys_delete:
  "distinct (event_ban_keys (rows t)) \<Longrightarrow> distinct (event_ban_keys (rows (tbl_delete p t)))"
proof -
  have "filter (\<lambda>b. sb_eventId b \<noteq> None) (rows (tbl_delete p t))
      = filter (\<lambda>b. \<not> p b) (filter (\<lambda>b. sb_eventId b \<noteq> None) (rows t))"
    by (simp add: tbl_rows_delete conj_commute)
  then show "distinct (event_ban_keys (rows t)) \<Longrightarrow> distinct (event_ban_keys (rows (tbl_delete p t)))"
    by (simp add: event_ban_keys_def distinct_map_filter del: filter_filter)
qed

lemma ban_keys_insert:
  "\<lbrakk>distinct (event_ban_keys (rows t));
    sb_eventId (mk (seq t)) = None \<or> (\<forall>b\<in>set (rows t). sb_email b = sb_email (mk (seq t)) \<longrightarrow> sb_eventId b \<noteq> sb_eventId (mk (seq t)))\<rbrakk>
    \<Longrightarrow> distinct (event_ban_keys (rows (snd (tbl_insert mk t))))"
  by (auto simp: event_ban_keys_def tbl_rows_insert)

lemmas schema_decls = integrity_def ids_ok_def uniq_ok_def fk_ok_def

lemmas row_rules =
  ball_update ball_delete ball_insert distinct_rows_update distinct_rows_delete distinct_rows_insert
  has_insertI has_opt_insertI has_update has_opt_update has_delete ban_keys_delete
  users.ok_insert users.ok_update users.ok_delete evts.ok_insert evts.ok_update evts.ok_delete
  bans.ok_insert bans.ok_delete studs.ok_insert studs.ok_update enrs.ok_insert enrs.ok_update enrs.ok_delete
  skeys.ok_insert skeys.ok_update skeys.ok_delete sess.ok_insert sess.ok_update sess.ok_delete
  recs.ok_insert recs.ok_update recs.ok_delete grps.ok_insert grps.ok_update grps.ok_delete
  invs.ok_insert invs.ok_update invs.ok_delete lats.ok_insert lats.ok_update lats.ok_delete auds.ok_insert

lemma find_id_None:
  "UsersRepository_findById i d \<noteq> None \<longleftrightarrow> has us_id (t_users d) i"
  "EventsRepository_findById i d \<noteq> None \<longleftrightarrow> has ev_id (t_events d) i"
  "StudentsRepository_findById i d \<noteq> None \<longleftrightarrow> has st_id (t_students d) i"
  "EnrollmentsRepository_findById i d \<noteq> None \<longleftrightarrow> has en_id (t_enrollments d) i"
  "PublishSessionsRepository_findById i d \<noteq> None \<longleftrightarrow> has ps_id (t_sessions d) i"
  "GroupsRepository_findById i d \<noteq> None \<longleftrightarrow> has gr_id (t_groups d) i"
  "tbl_find (\<lambda>k. sk_id k = i) (t_streamKeys d) \<noteq> None \<longleftrightarrow> has sk_id (t_streamKeys d) i"
  by (simp_all only: UsersRepository_findById_def EventsRepository_findById_def StudentsRepository_findById_def
      EnrollmentsRepository_findById_def PublishSessionsRepository_findById_def
      GroupsRepository_findById_def has_find)

lemma find_id_eq_None:
  "UsersRepository_findById i d = None \<longleftrightarrow> \<not> has us_id (t_users d) i"
  "EventsRepository_findById i d = None \<longleftrightarrow> \<not> has ev_id (t_events d) i"
  "StudentsRepository_findById i d = None \<longleftrightarrow> \<not> has st_id (t_students d) i"
  "EnrollmentsRepository_findById i d = None \<longleftrightarrow> \<not> has en_id (t_enrollments d) i"
  "PublishSessionsRepository_findById i d = None \<longleftrightarrow> \<not> has ps_id (t_sessions d) i"
  "GroupsRepository_findById i d = None \<longleftrightarrow> \<not> has gr_id (t_groups d) i"
  "tbl_find (\<lambda>k. sk_id k = i) (t_streamKeys d) = None \<longleftrightarrow> \<not> has sk_id (t_streamKeys d) i"
  using find_id_None by metis+

lemma opt_check:
  "(case x of None \<Rightarrow> False | Some i \<Rightarrow> \<not> has k t i) \<longleftrightarrow> \<not> has_opt k t x"
  by (auto simp: has_opt_def split: option.splits)

lemma ref_checks:
  "(case x of None \<Rightarrow> False | Some i \<Rightarrow> EventsRepository_findById i d = None) \<longleftrightarrow> \<not> has_opt ev_id (t_events d) x"
  "(case x of None \<Rightarrow> False | Some i \<Rightarrow> EnrollmentsRepository_findById i d = None) \<longleftrightarrow> \<not> has_opt en_id (t_enrollments d) x"
  "(case x of None \<Rightarrow> False | Some i \<Rightarrow> PublishSessionsRepository_findById i d = None) \<longleftrightarrow> \<not> has_opt ps_id (t_sessions d) x"
  "(case x of None \<Rightarrow> False | Some i \<Rightarrow> UsersRepository_findById i d = None) \<longleftrightarrow> \<not> has_opt us_id (t_users d) x"
  "(case x of None \<Rightarrow> False | Some i \<Rightarrow> tbl_find (\<lambda>k. sk_id k = i) (t_streamKeys d) = None) \<longleftrightarrow> \<not> has_opt sk_id (t_streamKeys d) x"
  by (simp_all only: find_id_eq_None opt_check)

section \<open>Every write keeps them\<close>

lemma UsersRepository_insert_integrity:
  "integrity d \<Longrightarrow> integrity (snd (UsersRepository_insert v d))"
  by (auto simp: schema_decls row_rules UsersRepository_insert_def UsersRepository_findByEmail_def
      tbl_find_None case_prod_unfold put_user_def)

lemma users_set_integrity:
  assumes "integrity d" "\<And>u. us_id (f u) = us_id u" "\<And>u. us_email (f u) = us_email u"
  shows "integrity (users_set i f d)"
  using assms by (simp add: schema_decls row_rules users_set_def)

lemma UsersRepository_remove_integrity:
  "integrity d \<Longrightarrow> integrity (UsersRepository_remove i d)"
  by (auto simp: schema_decls row_rules UsersRepository_remove_def distinct_map_filter has_opt_def)

lemma EventsRepository_insert_integrity:
  "integrity d \<Longrightarrow> integrity (snd (EventsRepository_insert v d))"
  by (auto simp: schema_decls row_rules EventsRepository_insert_def EventsRepository_findBySlug_def
      tbl_find_None case_prod_unfold put_event_def event_norm_def)

lemma EventsRepository_update_integrity:
  assumes "integrity d"
  shows "integrity (snd (EventsRepository_update i f d))"
proof (cases "EventsRepository_findById i d")
  case None then show ?thesis using assms by (simp add: EventsRepository_update_def)
next
  case (Some e)
  then have e: "e \<in> set (rows (t_events d))" "ev_id e = i"
    by (auto simp: EventsRepository_findById_def dest: tbl_find_Some)
  have ids: "tbl_ok ev_id (t_events d)" and sl: "distinct (map ev_slug (rows (t_events d)))"
    using assms by (simp_all add: schema_decls)
  let ?g = "\<lambda>e. put_event (event_norm (f e)) (ev_id e)"
  show ?thesis
  proof (cases "tbl_find (\<lambda>e'. ev_slug e' = ev_slug (f e) \<and> ev_id e' \<noteq> i) (t_events d)")
    case None
    then have "distinct (map ev_slug (map (\<lambda>x. if ev_id x = ev_id e then ?g e else x) (rows (t_events d))))"
      using e by (intro distinct_change[OF sl ids]) (auto simp: tbl_find_None put_event_def event_norm_def)
    moreover have "map (\<lambda>x. if ev_id x = ev_id e then ?g e else x) (rows (t_events d))
        = map (\<lambda>x. if ev_id x = i then ?g x else x) (rows (t_events d))"
      using e evts.key_inj[OF ids] by (intro map_cong) auto
    ultimately have "distinct (map ev_slug (rows (tbl_update (\<lambda>x. ev_id x = i) ?g (t_events d))))"
      by (simp only: tbl_rows_update)
    with assms Some None show ?thesis
      by (simp add: EventsRepository_update_def schema_decls row_rules)
  qed (use assms Some in \<open>simp add: EventsRepository_update_def\<close>)
qed

lemma drop_sessions_integrity: "integrity d \<Longrightarrow> integrity (drop_sessions p d)"
  by (auto simp: schema_decls row_rules drop_sessions_def Let_def has_opt_def has_delete_gone)

lemma drop_keys_integrity: "integrity d \<Longrightarrow> integrity (drop_keys p d)"
  by (auto simp: schema_decls row_rules drop_keys_def Let_def has_opt_def has_delete_gone)

lemma drop_enrollments_integrity: "integrity d \<Longrightarrow> integrity (drop_enrollments p d)"
  by (auto simp: schema_decls row_rules drop_enrollments_def Let_def has_opt_def has_delete_gone)

lemma EventsRepository_remove_integrity:
  assumes "integrity d"
  shows "integrity (EventsRepository_remove i d)"
proof -
  define d1 where "d1 = drop_keys (\<lambda>k. sk_eventId k = i) (drop_enrollments (\<lambda>e. en_eventId e = i) d)"
  define d2 where "d2 = drop_sessions (\<lambda>s. ps_eventId s = Some i) d1"
  have ok: "integrity d2"
    using assms by (simp add: d1_def d2_def drop_sessions_integrity drop_keys_integrity drop_enrollments_integrity)
  have gone: "\<forall>e\<in>set (rows (t_enrollments d2)). en_eventId e \<noteq> i"
    "\<forall>k\<in>set (rows (t_streamKeys d2)). sk_eventId k \<noteq> i"
    "\<forall>s\<in>set (rows (t_sessions d2)). ps_eventId s \<noteq> Some i"
    by (auto simp: d2_def d1_def drop_sessions_def drop_keys_def drop_enrollments_def Let_def tbl_simps)
  have "EventsRepository_remove i d
      = d2\<lparr>t_recordings := tbl_delete (\<lambda>r. rc_eventId r = Some i) (t_recordings d2),
            t_streamBans := tbl_delete (\<lambda>b. sb_eventId b = Some i) (t_streamBans d2),
            t_aliases := filter (\<lambda>a. al_eventId a \<noteq> i) (t_aliases d2),
            t_eventGroups := filter (\<lambda>g. eg_eventId g \<noteq> i) (t_eventGroups d2),
            t_events := tbl_delete (\<lambda>e. ev_id e = i) (t_events d2)\<rparr>"
    by (simp add: EventsRepository_remove_def d1_def d2_def Let_def)
  then show ?thesis using ok gone
    by (auto simp: schema_decls row_rules distinct_map_filter has_opt_def)
qed

lemma EventSlugAliasesRepository_integrity:
  assumes "integrity d"
  shows "integrity (snd (EventSlugAliasesRepository_set s i d))"
    and "integrity (EventSlugAliasesRepository_remove s d)"
    and "integrity (EventSlugAliasesRepository_removeByEvent i d)"
proof -
  have "distinct (map al_oldSlug (map (\<lambda>a. if al_oldSlug a = s then a\<lparr>al_eventId := i\<rparr> else a) (t_aliases d)))"
    using assms by (subst distinct_keep) (auto simp: schema_decls)
  then show "integrity (snd (EventSlugAliasesRepository_set s i d))" using assms
    by (auto simp: schema_decls EventSlugAliasesRepository_set_def find_id_eq_None
        EventSlugAliasesRepository_findByOldSlug_def find_None_iff)
qed (use assms in \<open>auto simp: schema_decls EventSlugAliasesRepository_remove_def
       EventSlugAliasesRepository_removeByEvent_def distinct_map_filter\<close>)

lemma StreamBansRepository_integrity:
  assumes "integrity d"
  shows "integrity (snd (StreamBansRepository_insert v d))"
    and "integrity (StreamBansRepository_remove i d)"
    and "integrity (snd (StreamBansRepository_purgeStrictLimits d))"
  using assms
  by (auto simp: schema_decls row_rules StreamBansRepository_insert_def StreamBansRepository_remove_def
      StreamBansRepository_purgeStrictLimits_def Let_def case_prod_unfold find_id_eq_None ref_checks
      ban_keys_insert put_ban_def tbl_find_None)

lemma StudentsRepository_integrity:
  assumes "integrity d"
  shows "integrity (snd (StudentsRepository_insert sv d))"
    and "integrity (StudentsRepository_updateProfile i n e d)"
  using assms
  by (auto simp: schema_decls row_rules StudentsRepository_insert_def StudentsRepository_updateProfile_def
      case_prod_unfold StudentsRepository_findByStudentNumber_def tbl_find_None put_student_def)

lemma EnrollmentsRepository_integrity:
  assumes "integrity d"
  shows "integrity (snd (EnrollmentsRepository_insert nv d))"
    and "integrity (EnrollmentsRepository_updateSeat i seat stat d)"
    and "integrity (EnrollmentsRepository_remove i d)"
  using assms drop_enrollments_integrity[OF assms]
  by (auto simp: schema_decls row_rules EnrollmentsRepository_insert_def EnrollmentsRepository_updateSeat_def
      EnrollmentsRepository_remove_def case_prod_unfold EnrollmentsRepository_findByEventAndStudent_def
      find_id_eq_None tbl_find_None put_enrollment_def)

lemma keys_set_integrity:
  assumes "integrity d" "\<And>k. sk_id (f k) = sk_id k" "\<And>k. sk_eventId (f k) = sk_eventId k"
    "\<And>k. sk_streamName (f k) = sk_streamName k"
    "\<And>k. has_opt en_id (t_enrollments d) (sk_enrollmentId k) \<Longrightarrow> has_opt en_id (t_enrollments d) (sk_enrollmentId (f k))"
  shows "integrity (keys_set p f d)"
  using assms by (simp add: schema_decls row_rules keys_set_def)

lemma StreamKeysRepository_integrity:
  assumes "integrity d"
  shows "integrity (snd (StreamKeysRepository_insert kv d))"
    and "integrity (StreamKeysRepository_touch i d)"
    and "integrity (StreamKeysRepository_revoke i d)"
    and "integrity (StreamKeysRepository_revokeActiveByEnrollment i d)"
  using assms
  by (auto simp: schema_decls row_rules StreamKeysRepository_insert_def StreamKeysRepository_touch_def
      StreamKeysRepository_revoke_def StreamKeysRepository_revokeActiveByEnrollment_def keys_set_def
      case_prod_unfold StreamKeysRepository_findByEventAndName_def find_id_eq_None ref_checks
      tbl_find_None put_key_def)

lemma StreamKeysRepository_rotate_integrity:
  assumes "integrity d"
  shows "integrity (snd (StreamKeysRepository_rotate i h p en d))"
proof (cases "has en_id (t_enrollments d) en")
  case True
  then have "integrity (keys_set (\<lambda>k. sk_id k = i)
      (\<lambda>k. k\<lparr>sk_tokenHash := h, sk_tokenPreview := p, sk_revoked := False, sk_lastUsedAt := None,
             sk_enrollmentId := Some en\<rparr>) d)"
    using assms by (intro keys_set_integrity) (auto simp: has_opt_def)
  then show ?thesis using assms by (simp add: StreamKeysRepository_rotate_def)
next
  case False
  have "keys_set (\<lambda>k. sk_id k = i) f d = d" if "\<not> has sk_id (t_streamKeys d) i" for f
  proof -
    have "tbl_update (\<lambda>k. sk_id k = i) f (t_streamKeys d) = t_streamKeys d"
    proof -
      have "\<forall>k\<in>set (rows (t_streamKeys d)). sk_id k \<noteq> i" using that by (auto simp: has_def)
      then have "map (\<lambda>k. if sk_id k = i then f k else k) (rows (t_streamKeys d)) = rows (t_streamKeys d)"
        by (intro map_idI) simp
      then show ?thesis by (simp add: tbl_update_def)
    qed
    then show ?thesis by (simp add: keys_set_def)
  qed
  with False assms show ?thesis by (simp add: StreamKeysRepository_rotate_def find_id_eq_None)
qed

lemma sessions_set_integrity:
  assumes "integrity d" "\<And>s. ps_id (f s) = ps_id s" "\<And>s. ps_eventId (f s) = ps_eventId s"
    "\<And>s. ps_streamKeyId (f s) = ps_streamKeyId s"
  shows "integrity (sessions_set i f d)"
  using assms by (simp add: schema_decls row_rules sessions_set_def)

lemma PublishSessionsRepository_integrity:
  assumes "integrity d"
  shows "integrity (snd (PublishSessionsRepository_insert pv d))"
    and "integrity (PublishSessionsRepository_updateMetrics i wd ht fp vb ab d)"
    and "integrity (PublishSessionsRepository_updateStatus i stat e c d)"
    and "integrity (PublishSessionsRepository_markEnded i stat t d)"
proof -
  show "integrity (snd (PublishSessionsRepository_insert pv d))" using assms
    by (auto simp: schema_decls row_rules PublishSessionsRepository_insert_def case_prod_unfold
        find_id_eq_None ref_checks put_session_def session_norm_def)
qed (use assms in \<open>auto simp: PublishSessionsRepository_updateMetrics_def PublishSessionsRepository_updateStatus_def
       PublishSessionsRepository_markEnded_def intro!: sessions_set_integrity\<close>)

lemma RecordingsRepository_integrity:
  assumes "integrity d"
  shows "integrity (snd (RecordingsRepository_insert rv d))"
    and "integrity (RecordingsRepository_remove i d)"
  using assms
  by (auto simp: schema_decls row_rules RecordingsRepository_insert_def RecordingsRepository_remove_def
      case_prod_unfold find_id_eq_None ref_checks put_recording_def recording_norm_def)

lemma RecordingsRepository_update_integrity:
  assumes "integrity d" "\<And>r. rc_eventId (f r) = rc_eventId r" "\<And>r. rc_sessionId (f r) = rc_sessionId r"
  shows "integrity (RecordingsRepository_update i f d)"
  using assms by (simp add: schema_decls row_rules RecordingsRepository_update_def put_recording_def recording_norm_def)

lemma GroupsRepository_insert_integrity:
  "integrity d \<Longrightarrow> integrity (snd (GroupsRepository_insert gv d))"
  by (auto simp: schema_decls row_rules GroupsRepository_insert_def GroupsRepository_findByName_def
      tbl_find_None case_prod_unfold put_group_def)

lemma GroupsRepository_update_integrity:
  assumes "integrity d"
  shows "integrity (snd (GroupsRepository_update i f d))"
proof (cases "GroupsRepository_findById i d")
  case None then show ?thesis using assms by (simp add: GroupsRepository_update_def)
next
  case (Some e)
  then have e: "e \<in> set (rows (t_groups d))" "gr_id e = i"
    by (auto simp: GroupsRepository_findById_def dest: tbl_find_Some)
  have ids: "tbl_ok gr_id (t_groups d)" and sl: "distinct (map gr_name (rows (t_groups d)))"
    using assms by (simp_all add: schema_decls)
  let ?g = "\<lambda>g. put_group (f g) (gr_id g)"
  show ?thesis
  proof (cases "tbl_find (\<lambda>g'. gr_name g' = gr_name (f e) \<and> gr_id g' \<noteq> i) (t_groups d)")
    case None
    then have "distinct (map gr_name (map (\<lambda>x. if gr_id x = gr_id e then ?g e else x) (rows (t_groups d))))"
      using e by (intro distinct_change[OF sl ids]) (auto simp: tbl_find_None put_group_def)
    moreover have "map (\<lambda>x. if gr_id x = gr_id e then ?g e else x) (rows (t_groups d))
        = map (\<lambda>x. if gr_id x = i then ?g x else x) (rows (t_groups d))"
      using e grps.key_inj[OF ids] by (intro map_cong) auto
    ultimately have "distinct (map gr_name (rows (tbl_update (\<lambda>x. gr_id x = i) ?g (t_groups d))))"
      by (simp only: tbl_rows_update)
    with assms Some None show ?thesis
      by (simp add: GroupsRepository_update_def schema_decls row_rules)
  qed (use assms Some in \<open>simp add: GroupsRepository_update_def\<close>)
qed

lemma GroupsRepository_remove_integrity:
  "integrity d \<Longrightarrow> integrity (GroupsRepository_remove i d)"
  by (auto simp: schema_decls row_rules GroupsRepository_remove_def distinct_map_filter)

lemma GroupsRepository_membership_integrity:
  assumes "integrity d"
  shows "integrity (snd (GroupsRepository_addUserToGroup u g d))"
    and "integrity (GroupsRepository_removeUserFromGroup u g d)"
    and "integrity (snd (GroupsRepository_setUserGroups u gs d))"
    and "integrity (snd (GroupsRepository_setEventGroups e gs d))"
  using assms
  by (auto simp: schema_decls GroupsRepository_addUserToGroup_def GroupsRepository_removeUserFromGroup_def
      GroupsRepository_setUserGroups_def GroupsRepository_setEventGroups_def Let_def find_id_eq_None
      distinct_map_filter distinct_map comp_def inj_on_def)

lemma InviteLinksRepository_integrity:
  assumes "integrity d"
  shows "integrity (snd (InviteLinksRepository_insert v d))"
    and "integrity (InviteLinksRepository_remove i d)"
    and "integrity (InviteLinksRepository_incrementUsed i d)"
  using assms
  by (auto simp: schema_decls row_rules InviteLinksRepository_insert_def InviteLinksRepository_remove_def
      InviteLinksRepository_incrementUsed_def case_prod_unfold InviteLinksRepository_findByCode_def
      find_id_eq_None ref_checks tbl_find_None put_invite_def invite_norm_def)

lemma InviteLinksRepository_update_integrity:
  assumes "integrity d" "\<And>v. iv_code (f v) = iv_code v" "\<And>v. iv_groupId (f v) = iv_groupId v"
    "\<And>v. iv_createdBy (f v) = iv_createdBy v"
  shows "integrity (InviteLinksRepository_update i f d)"
  using assms by (simp add: schema_decls row_rules InviteLinksRepository_update_def put_invite_def invite_norm_def)

lemma NodeSettingsRepository_upsert_integrity:
  assumes "integrity d"
  shows "integrity (snd (NodeSettingsRepository_upsert n m d))"
proof -
  have "distinct (map ns_nodeId (map (\<lambda>s. if ns_nodeId s = n then \<lparr>ns_nodeId = n, ns_maxUsers = m\<rparr> else s) (t_nodeSettings d)))"
    using assms by (subst distinct_keep) (auto simp: schema_decls)
  then show ?thesis using assms
    by (auto simp: schema_decls NodeSettingsRepository_upsert_def Let_def find_None_iff)
qed

lemma NodeLatenciesRepository_integrity:
  assumes "integrity d"
  shows "integrity (snd (NodeLatenciesRepository_upsert u n ms d))"
    and "integrity (NodeLatenciesRepository_deleteNode n d)"
  using assms
  by (auto simp: schema_decls row_rules NodeLatenciesRepository_upsert_def NodeLatenciesRepository_deleteNode_def
      find_id_eq_None tbl_find_None put_latency_def)

lemma AuditLogRepository_insert_integrity:
  "integrity d \<Longrightarrow> integrity (snd (AuditLogRepository_insert v d))"
  by (auto simp: schema_decls row_rules AuditLogRepository_insert_def case_prod_unfold)

lemma AppConfigRepository_upsertKey_integrity:
  assumes "integrity d"
  shows "integrity (AppConfigRepository_upsertKey k v d)"
proof -
  have "distinct (map ac_key (map (\<lambda>r. if ac_key r = k then r\<lparr>ac_value := v, ac_updatedAt := db_now d\<rparr> else r) (t_appConfig d)))"
    using assms by (subst distinct_keep) (auto simp: schema_decls)
  then show ?thesis using assms
    by (auto simp: schema_decls AppConfigRepository_upsertKey_def AppConfigRepository_findKey_def find_None_iff)
qed


section \<open>Reachable databases\<close>

text \<open>One repository write.  update_recording and update_invite take the patches
  the services pass, none of which touches a key or a reference; the user and
  session patches are those of the repositories themselves.  tick is the wall
  clock.\<close>

inductive db_write :: "db \<Rightarrow> db \<Rightarrow> bool" where
  tick: "clock d \<le> t \<Longrightarrow> db_write d (d\<lparr>clock := t\<rparr>)"
| insert_user: "db_write d (snd (UsersRepository_insert uv d))"
| remove_user: "db_write d (UsersRepository_remove i d)"
| update_role: "db_write d (UsersRepository_updateRole i ro d)"
| update_node: "db_write d (UsersRepository_updateNode i n d)"
| update_dashboard: "db_write d (UsersRepository_updateDashboardNotice i n d)"
| update_announcement: "db_write d (UsersRepository_updateAnnouncement i n d)"
| update_password: "db_write d (UsersRepository_updatePassword i h d)"
| set_authmod: "db_write d (UsersRepository_setAuthmod i h c d)"
| insert_event: "db_write d (snd (EventsRepository_insert ev d))"
| update_event: "db_write d (snd (EventsRepository_update i ef d))"
| remove_event: "db_write d (EventsRepository_remove i d)"
| set_alias: "db_write d (snd (EventSlugAliasesRepository_set s i d))"
| remove_alias: "db_write d (EventSlugAliasesRepository_remove s d)"
| remove_event_aliases: "db_write d (EventSlugAliasesRepository_removeByEvent i d)"
| insert_ban: "db_write d (snd (StreamBansRepository_insert bv d))"
| remove_ban: "db_write d (StreamBansRepository_remove i d)"
| purge_bans: "db_write d (snd (StreamBansRepository_purgeStrictLimits d))"
| insert_student: "db_write d (snd (StudentsRepository_insert sv d))"
| update_student: "db_write d (StudentsRepository_updateProfile i n em d)"
| insert_enrollment: "db_write d (snd (EnrollmentsRepository_insert nv d))"
| update_seat: "db_write d (EnrollmentsRepository_updateSeat i seat stat d)"
| remove_enrollment: "db_write d (EnrollmentsRepository_remove i d)"
| insert_key: "db_write d (snd (StreamKeysRepository_insert kv d))"
| touch_key: "db_write d (StreamKeysRepository_touch i d)"
| revoke_key: "db_write d (StreamKeysRepository_revoke i d)"
| revoke_keys: "db_write d (StreamKeysRepository_revokeActiveByEnrollment i d)"
| rotate_key: "db_write d (snd (StreamKeysRepository_rotate i h p en d))"
| insert_session: "db_write d (snd (PublishSessionsRepository_insert pv d))"
| update_metrics: "db_write d (PublishSessionsRepository_updateMetrics i wd ht fp vb ab d)"
| update_status: "db_write d (PublishSessionsRepository_updateStatus i st oe oc d)"
| mark_ended: "db_write d (PublishSessionsRepository_markEnded i st t d)"
| insert_recording: "db_write d (snd (RecordingsRepository_insert rv d))"
| remove_recording: "db_write d (RecordingsRepository_remove i d)"
| update_recording: "\<lbrakk>\<And>r. rc_eventId (rf r) = rc_eventId r; \<And>r. rc_sessionId (rf r) = rc_sessionId r\<rbrakk>
    \<Longrightarrow> db_write d (RecordingsRepository_update i rf d)"
| insert_group: "db_write d (snd (GroupsRepository_insert gv d))"
| update_group: "db_write d (snd (GroupsRepository_update i gf d))"
| remove_group: "db_write d (GroupsRepository_remove i d)"
| add_member: "db_write d (snd (GroupsRepository_addUserToGroup u g d))"
| remove_member: "db_write d (GroupsRepository_removeUserFromGroup u g d)"
| set_user_groups: "db_write d (snd (GroupsRepository_setUserGroups u gs d))"
| set_event_groups: "db_write d (snd (GroupsRepository_setEventGroups e gs d))"
| insert_invite: "db_write d (snd (InviteLinksRepository_insert iv d))"
| remove_invite: "db_write d (InviteLinksRepository_remove i d)"
| update_invite: "\<lbrakk>\<And>v. iv_code (vf v) = iv_code v; \<And>v. iv_groupId (vf v) = iv_groupId v;
    \<And>v. iv_createdBy (vf v) = iv_createdBy v\<rbrakk> \<Longrightarrow> db_write d (InviteLinksRepository_update i vf d)"
| increment_invite: "db_write d (InviteLinksRepository_incrementUsed i d)"
| upsert_node: "db_write d (snd (NodeSettingsRepository_upsert n m d))"
| upsert_latency: "db_write d (snd (NodeLatenciesRepository_upsert u n m d))"
| delete_node: "db_write d (NodeLatenciesRepository_deleteNode n d)"
| insert_audit: "db_write d (snd (AuditLogRepository_insert av d))"
| upsert_config: "db_write d (AppConfigRepository_upsertKey k jv d)"

lemmas repository_integrity =
  UsersRepository_insert_integrity UsersRepository_remove_integrity EventsRepository_insert_integrity
  EventsRepository_update_integrity EventsRepository_remove_integrity EventSlugAliasesRepository_integrity
  StreamBansRepository_integrity StudentsRepository_integrity EnrollmentsRepository_integrity
  StreamKeysRepository_integrity StreamKeysRepository_rotate_integrity PublishSessionsRepository_integrity
  RecordingsRepository_integrity RecordingsRepository_update_integrity GroupsRepository_insert_integrity
  GroupsRepository_update_integrity GroupsRepository_remove_integrity GroupsRepository_membership_integrity
  InviteLinksRepository_integrity InviteLinksRepository_update_integrity NodeSettingsRepository_upsert_integrity
  NodeLatenciesRepository_integrity AuditLogRepository_insert_integrity AppConfigRepository_upsertKey_integrity

lemma clock_integrity: "integrity d \<Longrightarrow> integrity (d\<lparr>clock := t\<rparr>)"
  by (simp add: schema_decls)

lemma user_patch_integrity:
  assumes "integrity d"
  shows "integrity (UsersRepository_updateRole i ro d)" "integrity (UsersRepository_updateNode i n d)"
    "integrity (UsersRepository_updateDashboardNotice i n d)" "integrity (UsersRepository_updateAnnouncement i n d)"
    "integrity (UsersRepository_updatePassword i h d)" "integrity (UsersRepository_setAuthmod i h c d)"
  using assms
  by (simp_all add: UsersRepository_updateRole_def UsersRepository_updateNode_def
      UsersRepository_updateDashboardNotice_def UsersRepository_updateAnnouncement_def
      UsersRepository_updatePassword_def UsersRepository_setAuthmod_def users_set_integrity)

lemma db_write_integrity:
  assumes "db_write d d'" "integrity d" shows "integrity d'"
  using assms
  by (induction rule: db_write.induct) (simp_all add: repository_integrity clock_integrity user_patch_integrity)

lemma db_empty_integrity: "integrity db_empty"
  by (simp add: schema_decls db_empty_def event_ban_keys_def)

text \<open>C1 Every database that the repositories can reach from the empty one, by any
  sequence of writes and at any times, satisfies the primary-key, UNIQUE and
  FOREIGN KEY declarations of schema.ts.\<close>

theorem reachable_integrity:
  "db_write\<^sup>*\<^sup>* db_empty d \<Longrightarrow> integrity d"
  by (induction rule: rtranclp_induct) (auto intro: db_empty_integrity db_write_integrity)

theorem reachable_integrity_witness:
  "integrity (EventsRepository_remove 1 (snd (StreamBansRepository_insert
     \<lparr>sb_id = 0, sb_email = ''a'', sb_eventId = Some 1, sb_reason = None, sb_bannedBy = None, sb_createdAt = 0\<rparr>
     (snd (EventsRepository_insert (event_values ''n'' ''s'') db_empty)))))"
proof (rule reachable_integrity)
  let ?b = "\<lparr>sb_id = 0, sb_email = ''a'', sb_eventId = Some 1, sb_reason = None, sb_bannedBy = None, sb_createdAt = 0\<rparr>"
  let ?d1 = "snd (EventsRepository_insert (event_values ''n'' ''s'') db_empty)"
  let ?d2 = "snd (StreamBansRepository_insert ?b ?d1)"
  have "db_write\<^sup>*\<^sup>* db_empty ?d1" by (rule r_into_rtranclp) (rule insert_event)
  then have "db_write\<^sup>*\<^sup>* db_empty ?d2" by (rule rtranclp.rtrancl_into_rtrancl) (rule insert_ban)
  then show "db_write\<^sup>*\<^sup>* db_empty (EventsRepository_remove 1 ?d2)"
    by (rule rtranclp.rtrancl_into_rtrancl) (rule remove_event)
qed

end
