(* ===== verification/SharedTypes.thy ===== *)
theory SharedTypes
  imports Schema "HOL-Library.Monad_Syntax"
begin

text \<open>
  The types the server shares with its clients (src/app/shared): the runtime
  configuration with its zod schema (shared/config.ts), the mail configuration
  (shared/mail.ts) and the events of the realtime bus (shared/events.ts).  A zod
  object schema is a parser from JSON to a record that fills in defaults; the
  encoders are JSON.stringify.
\<close>

section \<open>zod\<close>

definition z_string :: "json \<Rightarrow> string option" where
  "z_string j = (case j of JStr s \<Rightarrow> Some s | _ \<Rightarrow> None)"

definition z_boolean :: "json \<Rightarrow> bool option" where
  "z_boolean j = (case j of JBool b \<Rightarrow> Some b | _ \<Rightarrow> None)"

definition z_number :: "rat \<Rightarrow> json \<Rightarrow> rat option" where
  "z_number lo j = (case j of JNum r \<Rightarrow> if lo \<le> r then Some r else None | _ \<Rightarrow> None)"

text \<open>z.number().int() takes the safe integers.\<close>

definition MAX_SAFE :: int where
  "MAX_SAFE = 2 ^ 53 - 1"

definition z_int :: "int \<Rightarrow> int \<Rightarrow> json \<Rightarrow> int option" where
  "z_int lo hi j = (case j of
     JNum r \<Rightarrow> (case quotient_of r of (n, k) \<Rightarrow>
                  if k = 1 \<and> lo \<le> n \<and> n \<le> hi \<and> \<bar>n\<bar> \<le> MAX_SAFE then Some n else None)
   | _ \<Rightarrow> None)"

fun z_strings :: "json list \<Rightarrow> string list option" where
  "z_strings [] = Some []"
| "z_strings (JStr s # js) = map_option (Cons s) (z_strings js)"
| "z_strings (_ # js) = None"

definition z_string_array :: "json \<Rightarrow> string list option" where
  "z_string_array j = (case j of JArr js \<Rightarrow> z_strings js | _ \<Rightarrow> None)"

definition z_object :: "json \<Rightarrow> (string \<times> json) list option" where
  "z_object j = (case j of JObj kvs \<Rightarrow> Some kvs | _ \<Rightarrow> None)"

text \<open>A field with a default: absent gives the default, present is parsed.\<close>

definition z_default :: "(string \<times> json) list \<Rightarrow> string \<Rightarrow> (json \<Rightarrow> 'a option) \<Rightarrow> 'a \<Rightarrow> 'a option" where
  "z_default kvs k p d = (case map_of kvs k of None \<Rightarrow> Some d | Some j \<Rightarrow> p j)"

text \<open>A field that is nullish may be absent or null.\<close>

definition z_nullish :: "(string \<times> json) list \<Rightarrow> string \<Rightarrow> (json \<Rightarrow> 'a option) \<Rightarrow> 'a maybe option" where
  "z_nullish kvs k p = (case map_of kvs k of
     None \<Rightarrow> Some Undefined | Some JNull \<Rightarrow> Some Null | Some j \<Rightarrow> map_option Val (p j))"


section \<open>Runtime configuration\<close>

record srs_cfg =
  apiBase :: string
  rtmpHost :: string

record probe_cfg =
  waitMs :: int
  retries :: int
  timeoutMs :: int
  retryIntervalMs :: int
  pollIntervalMs :: int

record limits =
  maxWidth :: int
  maxHeight :: int
  maxFps :: rat
  maxVideoBitrateKbps :: int
  maxAudioBitrateKbps :: int

record record_cfg =
  rec_enabled :: bool
  rec_dir :: string
  maxConcurrency :: int
  retentionDays :: int
  remuxTimeoutMs :: int

record concurrency_cfg =
  probeMax :: int

record whitelist_cfg =
  wl_enabled :: bool
  wl_patterns :: "string list"

record registration_cfg =
  emailWhitelist :: whitelist_cfg
  disallowedPatterns :: "string list"
  reg_notice :: string

record dashboard_cfg =
  dash_notice :: string
  loginNotice :: string
  announcementPool :: "string list"

record app_config =
  c_srs :: srs_cfg
  c_probe :: probe_cfg
  c_limits :: limits
  c_record :: record_cfg
  c_concurrency :: concurrency_cfg
  c_registration :: registration_cfg
  c_dashboard :: dashboard_cfg

definition srsSchema :: "json \<Rightarrow> srs_cfg option" where
  "srsSchema j = do {
     kvs \<leftarrow> z_object j;
     a \<leftarrow> z_default kvs ''apiBase'' z_string ''http://127.0.0.1:1985/api/v1'';
     r \<leftarrow> z_default kvs ''rtmpHost'' z_string ''127.0.0.1'';
     Some \<lparr>apiBase = a, rtmpHost = r\<rparr> }"

definition probeSchema :: "json \<Rightarrow> probe_cfg option" where
  "probeSchema j = do {
     kvs \<leftarrow> z_object j;
     w \<leftarrow> z_default kvs ''waitMs'' (z_int 0 MAX_SAFE) 3000;
     n \<leftarrow> z_default kvs ''retries'' (z_int 0 MAX_SAFE) 3;
     t \<leftarrow> z_default kvs ''timeoutMs'' (z_int 500 MAX_SAFE) 10000;
     i \<leftarrow> z_default kvs ''retryIntervalMs'' (z_int 0 MAX_SAFE) 2000;
     p \<leftarrow> z_default kvs ''pollIntervalMs'' (z_int 1000 MAX_SAFE) 5000;
     Some \<lparr>waitMs = w, retries = n, timeoutMs = t, retryIntervalMs = i, pollIntervalMs = p\<rparr> }"

definition limitsSchema :: "json \<Rightarrow> limits option" where
  "limitsSchema j = do {
     kvs \<leftarrow> z_object j;
     w \<leftarrow> z_default kvs ''maxWidth'' (z_int 0 MAX_SAFE) 1920;
     h \<leftarrow> z_default kvs ''maxHeight'' (z_int 0 MAX_SAFE) 1080;
     f \<leftarrow> z_default kvs ''maxFps'' (z_number 0) 30;
     v \<leftarrow> z_default kvs ''maxVideoBitrateKbps'' (z_int 0 MAX_SAFE) 4000;
     a \<leftarrow> z_default kvs ''maxAudioBitrateKbps'' (z_int 0 MAX_SAFE) 160;
     Some \<lparr>maxWidth = w, maxHeight = h, maxFps = f, maxVideoBitrateKbps = v, maxAudioBitrateKbps = a\<rparr> }"

definition recordSchema :: "json \<Rightarrow> record_cfg option" where
  "recordSchema j = do {
     kvs \<leftarrow> z_object j;
     e \<leftarrow> z_default kvs ''enabled'' z_boolean True;
     d \<leftarrow> z_default kvs ''dir'' z_string ''./records'';
     m \<leftarrow> z_default kvs ''maxConcurrency'' (z_int 1 MAX_SAFE) 16;
     r \<leftarrow> z_default kvs ''retentionDays'' (z_int 0 MAX_SAFE) 7;
     t \<leftarrow> z_default kvs ''remuxTimeoutMs'' (z_int 1000 MAX_SAFE) 30000;
     Some \<lparr>rec_enabled = e, rec_dir = d, maxConcurrency = m, retentionDays = r, remuxTimeoutMs = t\<rparr> }"

definition concurrencySchema :: "json \<Rightarrow> concurrency_cfg option" where
  "concurrencySchema j = do {
     kvs \<leftarrow> z_object j;
     p \<leftarrow> z_default kvs ''probeMax'' (z_int 1 MAX_SAFE) 8;
     Some \<lparr>probeMax = p\<rparr> }"

definition emailWhitelistSchema :: "json \<Rightarrow> whitelist_cfg option" where
  "emailWhitelistSchema j = do {
     kvs \<leftarrow> z_object j;
     e \<leftarrow> z_default kvs ''enabled'' z_boolean False;
     p \<leftarrow> z_default kvs ''patterns'' z_string_array [];
     Some \<lparr>wl_enabled = e, wl_patterns = p\<rparr> }"

definition registrationSchema :: "json \<Rightarrow> registration_cfg option" where
  "registrationSchema j = do {
     kvs \<leftarrow> z_object j;
     w \<leftarrow> z_default kvs ''emailWhitelist'' emailWhitelistSchema \<lparr>wl_enabled = False, wl_patterns = []\<rparr>;
     d \<leftarrow> z_default kvs ''disallowedPatterns'' z_string_array [''student'', ''staff''];
     n \<leftarrow> z_default kvs ''notice'' z_string [];
     Some \<lparr>emailWhitelist = w, disallowedPatterns = d, reg_notice = n\<rparr> }"

definition dashboardSchema :: "json \<Rightarrow> dashboard_cfg option" where
  "dashboardSchema j = do {
     kvs \<leftarrow> z_object j;
     n \<leftarrow> z_default kvs ''notice'' z_string [];
     l \<leftarrow> z_default kvs ''loginNotice'' z_string [];
     p \<leftarrow> z_default kvs ''announcementPool'' z_string_array [];
     Some \<lparr>dash_notice = n, loginNotice = l, announcementPool = p\<rparr> }"

text \<open>The defaults are the parse of the empty object.\<close>

definition default_config :: app_config where
  "default_config = \<lparr>
     c_srs = \<lparr>apiBase = ''http://127.0.0.1:1985/api/v1'', rtmpHost = ''127.0.0.1''\<rparr>,
     c_probe = \<lparr>waitMs = 3000, retries = 3, timeoutMs = 10000, retryIntervalMs = 2000, pollIntervalMs = 5000\<rparr>,
     c_limits = \<lparr>maxWidth = 1920, maxHeight = 1080, maxFps = 30, maxVideoBitrateKbps = 4000,
                 maxAudioBitrateKbps = 160\<rparr>,
     c_record = \<lparr>rec_enabled = True, rec_dir = ''./records'', maxConcurrency = 16, retentionDays = 7,
                 remuxTimeoutMs = 30000\<rparr>,
     c_concurrency = \<lparr>probeMax = 8\<rparr>,
     c_registration = \<lparr>emailWhitelist = \<lparr>wl_enabled = False, wl_patterns = []\<rparr>,
                       disallowedPatterns = [''student'', ''staff''], reg_notice = []\<rparr>,
     c_dashboard = \<lparr>dash_notice = [], loginNotice = [], announcementPool = []\<rparr>\<rparr>"

definition appConfigSchema :: "json \<Rightarrow> app_config option" where
  "appConfigSchema j = do {
     kvs \<leftarrow> z_object j;
     s \<leftarrow> z_default kvs ''srs'' srsSchema (c_srs default_config);
     p \<leftarrow> z_default kvs ''probe'' probeSchema (c_probe default_config);
     l \<leftarrow> z_default kvs ''limits'' limitsSchema (c_limits default_config);
     r \<leftarrow> z_default kvs ''record'' recordSchema (c_record default_config);
     c \<leftarrow> z_default kvs ''concurrency'' concurrencySchema (c_concurrency default_config);
     g \<leftarrow> z_default kvs ''registration'' registrationSchema (c_registration default_config);
     d \<leftarrow> z_default kvs ''dashboard'' dashboardSchema (c_dashboard default_config);
     Some \<lparr>c_srs = s, c_probe = p, c_limits = l, c_record = r, c_concurrency = c,
           c_registration = g, c_dashboard = d\<rparr> }"

text \<open>JSON.stringify of a configuration.\<close>

definition json_strings :: "string list \<Rightarrow> json" where
  "json_strings ss = JArr (map JStr ss)"

definition limits_json :: "limits \<Rightarrow> json" where
  "limits_json l = JObj [(''maxWidth'', json_int (maxWidth l)), (''maxHeight'', json_int (maxHeight l)),
     (''maxFps'', JNum (maxFps l)), (''maxVideoBitrateKbps'', json_int (maxVideoBitrateKbps l)),
     (''maxAudioBitrateKbps'', json_int (maxAudioBitrateKbps l))]"

definition app_config_json :: "app_config \<Rightarrow> json" where
  "app_config_json c = JObj [
     (''srs'', JObj [(''apiBase'', JStr (apiBase (c_srs c))), (''rtmpHost'', JStr (rtmpHost (c_srs c)))]),
     (''probe'', JObj [(''waitMs'', json_int (waitMs (c_probe c))), (''retries'', json_int (retries (c_probe c))),
        (''timeoutMs'', json_int (timeoutMs (c_probe c))),
        (''retryIntervalMs'', json_int (retryIntervalMs (c_probe c))),
        (''pollIntervalMs'', json_int (pollIntervalMs (c_probe c)))]),
     (''limits'', limits_json (c_limits c)),
     (''record'', JObj [(''enabled'', JBool (rec_enabled (c_record c))), (''dir'', JStr (rec_dir (c_record c))),
        (''maxConcurrency'', json_int (maxConcurrency (c_record c))),
        (''retentionDays'', json_int (retentionDays (c_record c))),
        (''remuxTimeoutMs'', json_int (remuxTimeoutMs (c_record c)))]),
     (''concurrency'', JObj [(''probeMax'', json_int (probeMax (c_concurrency c)))]),
     (''registration'', JObj [
        (''emailWhitelist'', JObj [
           (''enabled'', JBool (wl_enabled (emailWhitelist (c_registration c)))),
           (''patterns'', json_strings (wl_patterns (emailWhitelist (c_registration c))))]),
        (''disallowedPatterns'', json_strings (disallowedPatterns (c_registration c))),
        (''notice'', JStr (reg_notice (c_registration c)))]),
     (''dashboard'', JObj [(''notice'', JStr (dash_notice (c_dashboard c))),
        (''loginNotice'', JStr (loginNotice (c_dashboard c))),
        (''announcementPool'', json_strings (announcementPool (c_dashboard c)))])]"

text \<open>What the schema says of a configuration that it has parsed.\<close>

definition safe_from :: "int \<Rightarrow> int \<Rightarrow> bool" where
  "safe_from lo n \<longleftrightarrow> lo \<le> n \<and> n \<le> MAX_SAFE"

definition limits_ok :: "limits \<Rightarrow> bool" where
  "limits_ok l \<longleftrightarrow> safe_from 0 (maxWidth l) \<and> safe_from 0 (maxHeight l) \<and> 0 \<le> maxFps l
     \<and> safe_from 0 (maxVideoBitrateKbps l) \<and> safe_from 0 (maxAudioBitrateKbps l)"

definition config_ok :: "app_config \<Rightarrow> bool" where
  "config_ok c \<longleftrightarrow>
     (let p = c_probe c; r = c_record c in
      safe_from 0 (waitMs p) \<and> safe_from 0 (retries p) \<and> safe_from 500 (timeoutMs p)
    \<and> safe_from 0 (retryIntervalMs p) \<and> safe_from 1000 (pollIntervalMs p)
    \<and> limits_ok (c_limits c)
    \<and> safe_from 1 (maxConcurrency r) \<and> safe_from 0 (retentionDays r) \<and> safe_from 1000 (remuxTimeoutMs r)
    \<and> safe_from 1 (probeMax (c_concurrency c)))"

lemma z_int_json: "\<lbrakk>0 \<le> lo; safe_from lo n\<rbrakk> \<Longrightarrow> z_int lo MAX_SAFE (json_int n) = Some n"
  by (simp add: z_int_def json_int_def quotient_of_int safe_from_def)

lemma z_int_bounds: "z_int lo MAX_SAFE j = Some n \<Longrightarrow> safe_from lo n"
  by (auto simp: z_int_def safe_from_def split: json.splits if_splits prod.splits)

lemma z_strings_map [simp]: "z_strings (map JStr ss) = Some ss"
  by (induction ss) auto

lemma z_string_array_json [simp]: "z_string_array (json_strings ss) = Some ss"
  by (simp add: z_string_array_def json_strings_def)

lemma z_base [simp]:
  "z_string (JStr s) = Some s" "z_boolean (JBool b) = Some b" "z_object (JObj kvs) = Some kvs"
  by (simp_all add: z_string_def z_boolean_def z_object_def)

lemma z_number_json: "lo \<le> r \<Longrightarrow> z_number lo (JNum r) = Some r"
  by (simp add: z_number_def)

lemma z_number_bounds: "z_number lo j = Some r \<Longrightarrow> lo \<le> r"
  by (auto simp: z_number_def split: json.splits if_splits)

lemma z_default_bounds:
  "\<lbrakk>z_default kvs k (z_int lo MAX_SAFE) d = Some n; safe_from lo d\<rbrakk> \<Longrightarrow> safe_from lo n"
  by (auto simp: z_default_def dest: z_int_bounds split: option.splits)

lemma z_default_number_bounds:
  "\<lbrakk>z_default kvs k (z_number lo) d = Some r; lo \<le> d\<rbrakk> \<Longrightarrow> lo \<le> r"
  by (auto simp: z_default_def dest: z_number_bounds split: option.splits)

lemma bind_Some_iff: "Option.bind x f = Some y \<longleftrightarrow> (\<exists>a. x = Some a \<and> f a = Some y)"
  by (cases x) auto

lemma safe_default [simp]:
  "safe_from 0 3000" "safe_from 0 3" "safe_from 500 10000" "safe_from 0 2000" "safe_from 1000 5000"
  "safe_from 0 1920" "safe_from 0 1080" "safe_from 0 4000" "safe_from 0 160" "safe_from 1 16"
  "safe_from 0 7" "safe_from 1000 30000" "safe_from 1 8"
  by (simp_all add: safe_from_def MAX_SAFE_def)

lemma default_config_ok: "config_ok default_config"
  by (simp add: config_ok_def default_config_def limits_ok_def)

lemma limitsSchema_ok: "limitsSchema j = Some l \<Longrightarrow> limits_ok l"
  by (auto simp: limitsSchema_def bind_Some_iff limits_ok_def
      dest!: z_default_bounds z_default_number_bounds)

lemma z_default_from:
  "\<lbrakk>z_default kvs k p d = Some x; Q d; \<And>j y. p j = Some y \<Longrightarrow> Q y\<rbrakk> \<Longrightarrow> Q x"
  by (auto simp: z_default_def split: option.splits)

text \<open>A parsed configuration is within the bounds of the schema.\<close>

lemma appConfigSchema_ok:
  assumes "appConfigSchema j = Some c" shows "config_ok c"
proof -
  obtain kvs p l r cc where parts:
    "z_default kvs ''probe'' probeSchema (c_probe default_config) = Some p" "c_probe c = p"
    "z_default kvs ''limits'' limitsSchema (c_limits default_config) = Some l" "c_limits c = l"
    "z_default kvs ''record'' recordSchema (c_record default_config) = Some r" "c_record c = r"
    "z_default kvs ''concurrency'' concurrencySchema (c_concurrency default_config) = Some cc"
    "c_concurrency c = cc"
    using assms by (auto simp: appConfigSchema_def bind_Some_iff)
  have 1: "safe_from 0 (waitMs p) \<and> safe_from 0 (retries p) \<and> safe_from 500 (timeoutMs p)
      \<and> safe_from 0 (retryIntervalMs p) \<and> safe_from 1000 (pollIntervalMs p)"
    by (rule z_default_from[OF parts(1)])
      (auto simp: default_config_def probeSchema_def bind_Some_iff dest!: z_default_bounds)
  have 2: "limits_ok l"
    by (rule z_default_from[OF parts(3)]) (auto simp: default_config_def limits_ok_def dest: limitsSchema_ok)
  have 3: "safe_from 1 (maxConcurrency r) \<and> safe_from 0 (retentionDays r) \<and> safe_from 1000 (remuxTimeoutMs r)"
    by (rule z_default_from[OF parts(5)])
      (auto simp: default_config_def recordSchema_def bind_Some_iff dest!: z_default_bounds)
  have 4: "safe_from 1 (probeMax cc)"
    by (rule z_default_from[OF parts(7)])
      (auto simp: default_config_def concurrencySchema_def bind_Some_iff dest!: z_default_bounds)
  show ?thesis using 1 2 3 4 parts by (simp add: config_ok_def)
qed

text \<open>Encoding and parsing a valid configuration gives it back.\<close>

lemma limits_roundtrip: "limits_ok l \<Longrightarrow> limitsSchema (limits_json l) = Some l"
  by (simp add: limitsSchema_def limits_json_def z_default_def limits_ok_def z_int_json z_number_json)

lemma config_roundtrip:
  assumes "config_ok c" shows "appConfigSchema (app_config_json c) = Some c"
proof -
  note b = assms[unfolded config_ok_def Let_def]
  have "probeSchema (JObj [(''waitMs'', json_int (waitMs (c_probe c))), (''retries'', json_int (retries (c_probe c))),
        (''timeoutMs'', json_int (timeoutMs (c_probe c))),
        (''retryIntervalMs'', json_int (retryIntervalMs (c_probe c))),
        (''pollIntervalMs'', json_int (pollIntervalMs (c_probe c)))]) = Some (c_probe c)"
    using b by (simp add: probeSchema_def z_default_def z_int_json)
  moreover have "recordSchema (JObj [(''enabled'', JBool (rec_enabled (c_record c))), (''dir'', JStr (rec_dir (c_record c))),
        (''maxConcurrency'', json_int (maxConcurrency (c_record c))),
        (''retentionDays'', json_int (retentionDays (c_record c))),
        (''remuxTimeoutMs'', json_int (remuxTimeoutMs (c_record c)))]) = Some (c_record c)"
    using b by (simp add: recordSchema_def z_default_def z_int_json)
  moreover have "concurrencySchema (JObj [(''probeMax'', json_int (probeMax (c_concurrency c)))])
      = Some (c_concurrency c)"
    using b by (simp add: concurrencySchema_def z_default_def z_int_json)
  moreover have "limitsSchema (limits_json (c_limits c)) = Some (c_limits c)"
    using b by (simp add: limits_roundtrip)
  ultimately show ?thesis
    by (simp add: appConfigSchema_def app_config_json_def z_default_def srsSchema_def
        registrationSchema_def emailWhitelistSchema_def dashboardSchema_def)
qed


section \<open>Limit overrides\<close>

record limits_override =
  ov_maxWidth :: "int maybe"
  ov_maxHeight :: "int maybe"
  ov_maxFps :: "rat maybe"
  ov_maxVideoBitrateKbps :: "int maybe"
  ov_maxAudioBitrateKbps :: "int maybe"

definition limitsOverrideSchema :: "json \<Rightarrow> limits_override option" where
  "limitsOverrideSchema j = do {
     kvs \<leftarrow> z_object j;
     w \<leftarrow> z_nullish kvs ''maxWidth'' (z_int 0 MAX_SAFE);
     h \<leftarrow> z_nullish kvs ''maxHeight'' (z_int 0 MAX_SAFE);
     f \<leftarrow> z_nullish kvs ''maxFps'' (z_number 0);
     v \<leftarrow> z_nullish kvs ''maxVideoBitrateKbps'' (z_int 0 MAX_SAFE);
     a \<leftarrow> z_nullish kvs ''maxAudioBitrateKbps'' (z_int 0 MAX_SAFE);
     Some \<lparr>ov_maxWidth = w, ov_maxHeight = h, ov_maxFps = f, ov_maxVideoBitrateKbps = v,
           ov_maxAudioBitrateKbps = a\<rparr> }"

text \<open>JSON.stringify leaves out what is undefined.\<close>

definition json_field :: "string \<Rightarrow> ('a \<Rightarrow> json) \<Rightarrow> 'a maybe \<Rightarrow> (string \<times> json) list" where
  "json_field k f x = (case x of Undefined \<Rightarrow> [] | Null \<Rightarrow> [(k, JNull)] | Val v \<Rightarrow> [(k, f v)])"

definition override_json :: "limits_override \<Rightarrow> json" where
  "override_json v = JObj (json_field ''maxWidth'' json_int (ov_maxWidth v) @
     json_field ''maxHeight'' json_int (ov_maxHeight v) @ json_field ''maxFps'' JNum (ov_maxFps v) @
     json_field ''maxVideoBitrateKbps'' json_int (ov_maxVideoBitrateKbps v) @
     json_field ''maxAudioBitrateKbps'' json_int (ov_maxAudioBitrateKbps v))"


section \<open>Mail configuration\<close>

datatype mail_provider = Smtp | Post

datatype post_schema = Smtogo | Powerautomate

record mail_config =
  ml_provider :: mail_provider
  ml_host :: string
  ml_port :: int
  ml_useSsl :: bool
  ml_useTls :: bool
  ml_usePassword :: bool
  ml_senderEmail :: string
  ml_senderDisplay :: string
  ml_senderDomain :: string
  ml_senderPassword :: string
  ml_maxLenRecipientEmail :: int
  ml_maxLenSubject :: int
  ml_maxLenBody :: int
  ml_postUrl :: string
  ml_postSchema :: post_schema
  ml_postAuthToken :: string
  ml_postFieldMap :: string
  ml_postSchemas :: string

definition provider_json :: "mail_provider \<Rightarrow> json" where
  "provider_json p = JStr (case p of Smtp \<Rightarrow> ''smtp'' | Post \<Rightarrow> ''post'')"

definition z_provider :: "json \<Rightarrow> mail_provider option" where
  "z_provider j = (if j = JStr ''smtp'' then Some Smtp else if j = JStr ''post'' then Some Post else None)"

definition post_schema_json :: "post_schema \<Rightarrow> json" where
  "post_schema_json p = JStr (case p of Smtogo \<Rightarrow> ''smtogo'' | Powerautomate \<Rightarrow> ''powerautomate'')"

definition z_post_schema :: "json \<Rightarrow> post_schema option" where
  "z_post_schema j = (if j = JStr ''smtogo'' then Some Smtogo
     else if j = JStr ''powerautomate'' then Some Powerautomate else None)"

definition mailConfigSchema :: "json \<Rightarrow> mail_config option" where
  "mailConfigSchema j = do {
     kvs \<leftarrow> z_object j;
     pr \<leftarrow> z_default kvs ''provider'' z_provider Smtp;
     ho \<leftarrow> z_default kvs ''host'' z_string [];
     po \<leftarrow> z_default kvs ''port'' (z_int 0 65535) 587;
     ssl \<leftarrow> z_default kvs ''useSsl'' z_boolean False;
     tls \<leftarrow> z_default kvs ''useTls'' z_boolean True;
     up \<leftarrow> z_default kvs ''usePassword'' z_boolean True;
     se \<leftarrow> z_default kvs ''senderEmail'' z_string [];
     sd \<leftarrow> z_default kvs ''senderDisplay'' z_string [];
     sm \<leftarrow> z_default kvs ''senderDomain'' z_string [];
     sp \<leftarrow> z_default kvs ''senderPassword'' z_string [];
     lr \<leftarrow> z_default kvs ''maxLenRecipientEmail'' (z_int 1 MAX_SAFE) 320;
     ls \<leftarrow> z_default kvs ''maxLenSubject'' (z_int 1 MAX_SAFE) 200;
     lb \<leftarrow> z_default kvs ''maxLenBody'' (z_int 1 MAX_SAFE) 50000;
     pu \<leftarrow> z_default kvs ''postUrl'' z_string [];
     ps \<leftarrow> z_default kvs ''postSchema'' z_post_schema Smtogo;
     pt \<leftarrow> z_default kvs ''postAuthToken'' z_string [];
     pf \<leftarrow> z_default kvs ''postFieldMap'' z_string [];
     pl \<leftarrow> z_default kvs ''postSchemas'' z_string [];
     Some \<lparr>ml_provider = pr, ml_host = ho, ml_port = po, ml_useSsl = ssl, ml_useTls = tls,
       ml_usePassword = up, ml_senderEmail = se, ml_senderDisplay = sd, ml_senderDomain = sm,
       ml_senderPassword = sp, ml_maxLenRecipientEmail = lr, ml_maxLenSubject = ls, ml_maxLenBody = lb,
       ml_postUrl = pu, ml_postSchema = ps, ml_postAuthToken = pt, ml_postFieldMap = pf, ml_postSchemas = pl\<rparr> }"

definition mail_config_json :: "mail_config \<Rightarrow> json" where
  "mail_config_json c = JObj [
     (''provider'', provider_json (ml_provider c)), (''host'', JStr (ml_host c)),
     (''port'', json_int (ml_port c)), (''useSsl'', JBool (ml_useSsl c)), (''useTls'', JBool (ml_useTls c)),
     (''usePassword'', JBool (ml_usePassword c)), (''senderEmail'', JStr (ml_senderEmail c)),
     (''senderDisplay'', JStr (ml_senderDisplay c)), (''senderDomain'', JStr (ml_senderDomain c)),
     (''senderPassword'', JStr (ml_senderPassword c)),
     (''maxLenRecipientEmail'', json_int (ml_maxLenRecipientEmail c)),
     (''maxLenSubject'', json_int (ml_maxLenSubject c)), (''maxLenBody'', json_int (ml_maxLenBody c)),
     (''postUrl'', JStr (ml_postUrl c)), (''postSchema'', post_schema_json (ml_postSchema c)),
     (''postAuthToken'', JStr (ml_postAuthToken c)), (''postFieldMap'', JStr (ml_postFieldMap c)),
     (''postSchemas'', JStr (ml_postSchemas c))]"

definition default_mail :: mail_config where
  "default_mail = \<lparr>ml_provider = Smtp, ml_host = [], ml_port = 587, ml_useSsl = False, ml_useTls = True,
     ml_usePassword = True, ml_senderEmail = [], ml_senderDisplay = [], ml_senderDomain = [],
     ml_senderPassword = [], ml_maxLenRecipientEmail = 320, ml_maxLenSubject = 200, ml_maxLenBody = 50000,
     ml_postUrl = [], ml_postSchema = Smtogo, ml_postAuthToken = [], ml_postFieldMap = [], ml_postSchemas = []\<rparr>"

definition mail_ok :: "mail_config \<Rightarrow> bool" where
  "mail_ok c \<longleftrightarrow> 0 \<le> ml_port c \<and> ml_port c \<le> 65535 \<and> safe_from 1 (ml_maxLenRecipientEmail c)
     \<and> safe_from 1 (ml_maxLenSubject c) \<and> safe_from 1 (ml_maxLenBody c)"

lemma z_enum_json [simp]:
  "z_provider (provider_json p) = Some p" "z_post_schema (post_schema_json q) = Some q"
  by (cases p; simp add: z_provider_def provider_json_def)
     (cases q; simp add: z_post_schema_def post_schema_json_def)

lemma z_port_json: "\<lbrakk>0 \<le> n; n \<le> 65535\<rbrakk> \<Longrightarrow> z_int 0 65535 (json_int n) = Some n"
  by (simp add: z_int_def json_int_def quotient_of_int MAX_SAFE_def)

lemma default_mail_ok: "mail_ok default_mail"
  by (simp add: mail_ok_def default_mail_def safe_from_def MAX_SAFE_def)

lemma mail_roundtrip: "mail_ok c \<Longrightarrow> mailConfigSchema (mail_config_json c) = Some c"
  by (simp add: mailConfigSchema_def mail_config_json_def z_default_def z_int_json z_port_json mail_ok_def)

lemma safe_mail_default [simp]: "safe_from 1 320" "safe_from 1 200" "safe_from 1 50000"
  by (simp_all add: safe_from_def MAX_SAFE_def)

lemma z_port_bounds: "z_default kvs k (z_int 0 65535) 587 = Some n \<Longrightarrow> 0 \<le> n \<and> n \<le> 65535"
  by (auto simp: z_default_def z_int_def split: option.splits json.splits prod.splits if_splits)

lemma mailConfigSchema_ok: "mailConfigSchema j = Some c \<Longrightarrow> mail_ok c"
  by (auto simp: mailConfigSchema_def bind_Some_iff mail_ok_def dest!: z_default_bounds z_port_bounds)


section \<open>Bus events\<close>

record session_snapshot =
  ss_sessionId :: int
  ss_eventId :: "int option"
  ss_streamName :: string
  ss_status :: session_status
  ss_srsClientId :: "string option"
  ss_nodeId :: "string option"
  ss_width :: "int option"
  ss_height :: "int option"
  ss_fps :: "rat option"
  ss_videoBitrateKbps :: "int option"
  ss_audioBitrateKbps :: "int option"
  ss_compliant :: bool
  ss_rejectReason :: "string option"
  ss_startedAt :: int
  ss_endedAt :: "int option"

record recording_snapshot =
  rs_id :: int
  rs_eventId :: "int option"
  rs_sessionId :: "int option"
  rs_streamName :: string
  rs_studentLabel :: "string option"
  rs_filePath :: string
  rs_sizeBytes :: int
  rs_durationSec :: "rat option"
  rs_startedAt :: rat

record audit_snapshot =
  as_id :: int
  as_ts :: int
  as_level :: audit_level
  as_category :: audit_category
  as_actor :: "string option"
  as_eventId :: "int option"
  as_streamName :: "string option"
  as_message :: string
  as_detail :: "json option"

record media_node_snapshot =
  mn_nodeId :: string
  mn_rtmpUrl :: "string option"
  mn_publicOrigin :: string
  mn_publicRtmpPort :: int
  mn_publicProbeUdpPort :: int
  mn_publicSrsUdpPort :: int
  mn_version :: string
  mn_activeStreams :: int
  mn_connectedAt :: int
  mn_maxUsers :: int
  mn_assignedUsers :: int
  mn_users :: "(int \<times> string) list"

datatype bus_event =
    SessionStart session_snapshot
  | SessionMetric session_snapshot
  | SessionViolation session_snapshot "string list"
  | SessionStop session_snapshot
  | RecordingReady recording_snapshot
  | AuditCreated audit_snapshot
  | ConfigChanged app_config
  | NodesChanged "media_node_snapshot list"

end
