(* ===== verification/AuditLog.thy ===== *)
theory AuditLog
  imports Integrity SharedTypes
begin

text \<open>
  The process state every service shares (the database, the realtime bus and the
  source of random bytes) and the audit log: services/audit.ts, utils/bus.ts.
\<close>

section \<open>The shared state\<close>

text \<open>The bus is modelled by the sequence of events it has delivered, oldest
  first.  rng is the source behind randomBytes and crypto.getRandomValues, rng_pos
  the number of bytes drawn from it.\<close>

record core = db +
  bus :: "bus_event list"
  rng :: "nat \<Rightarrow> char"
  rng_pos :: nat

definition emit :: "bus_event \<Rightarrow> 'z core_scheme \<Rightarrow> 'z core_scheme" where
  "emit e w = w\<lparr>bus := bus w @ [e]\<rparr>"

definition randomBytes :: "nat \<Rightarrow> 'z core_scheme \<Rightarrow> string \<times> 'z core_scheme" where
  "randomBytes n w = (map (rng w) [rng_pos w ..< rng_pos w + n], w\<lparr>rng_pos := rng_pos w + n\<rparr>)"


section \<open>audit\<close>

record audit_input =
  ai_actor :: "string option"
  ai_eventId :: "int option"
  ai_streamName :: "string option"
  ai_detail :: "json option"

definition no_opts :: audit_input where
  "no_opts = \<lparr>ai_actor = None, ai_eventId = None, ai_streamName = None, ai_detail = None\<rparr>"

definition audit :: "audit_level \<Rightarrow> audit_category \<Rightarrow> string \<Rightarrow> audit_input \<Rightarrow>
    'z core_scheme \<Rightarrow> 'z core_scheme" where
  "audit level category message opts w =
     (let v = \<lparr>au_id = 0, au_ts = 0, au_level = level, au_category = category,
               au_actor = ai_actor opts, au_eventId = ai_eventId opts, au_streamName = ai_streamName opts,
               au_message = message, au_detail = map_option JText (ai_detail opts)\<rparr>;
          (row, w1) = AuditLogRepository_insert v w
      in emit (AuditCreated \<lparr>as_id = au_id row, as_ts = au_ts row, as_level = level,
            as_category = category, as_actor = au_actor row, as_eventId = au_eventId row,
            as_streamName = au_streamName row, as_message = message, as_detail = ai_detail opts\<rparr>) w1)"

definition AUDIT_MAX_PAGE_SIZE :: int where "AUDIT_MAX_PAGE_SIZE = 1000"
definition AUDIT_DEFAULT_PAGE_SIZE :: int where "AUDIT_DEFAULT_PAGE_SIZE = 50"

text \<open>The client view of a row: JSON text that does not parse is handed on as text.\<close>

definition toAuditView :: "audit_row \<Rightarrow> audit_snapshot" where
  "toAuditView r = \<lparr>as_id = au_id r, as_ts = au_ts r, as_level = au_level r, as_category = au_category r,
     as_actor = au_actor r, as_eventId = au_eventId r, as_streamName = au_streamName r,
     as_message = au_message r,
     as_detail = (case au_detail r of None \<Rightarrow> None
       | Some t \<Rightarrow> (case t of JText j \<Rightarrow> Some j | Malformed s \<Rightarrow> Some (JStr s)))\<rparr>"

record audit_page =
  ap_entries :: "audit_snapshot list"
  ap_total :: int
  ap_page :: int
  ap_pageSize :: int

definition clamp_pageSize :: "int option \<Rightarrow> int" where
  "clamp_pageSize p = min (max (orDefault p AUDIT_DEFAULT_PAGE_SIZE) 1) AUDIT_MAX_PAGE_SIZE"

definition clamp_page :: "int option \<Rightarrow> int" where
  "clamp_page p = max (orDefault p 1) 1"

definition listAudit :: "audit_filters \<Rightarrow> int option \<Rightarrow> int option \<Rightarrow> 'z db_scheme \<Rightarrow> audit_page" where
  "listAudit f page sz d =
     (let pageSize = clamp_pageSize sz; pg = clamp_page page;
          total = AuditLogRepository_countFiltered f d;
          rs = AuditLogRepository_findMany f pageSize ((pg - 1) * pageSize) d
      in \<lparr>ap_entries = map toAuditView rs, ap_total = total, ap_page = pg, ap_pageSize = pageSize\<rparr>)"


section \<open>What audit leaves alone\<close>

named_theorems frame "reads that a write leaves unchanged"

lemma audit_frame [simp, frame]:
  "clock (audit l c m v w) = clock w" "t_users (audit l c m v w) = t_users w"
  "t_nodeSettings (audit l c m v w) = t_nodeSettings w"
  "t_nodeLatencies (audit l c m v w) = t_nodeLatencies w" "t_appConfig (audit l c m v w) = t_appConfig w"
  "t_events (audit l c m v w) = t_events w" "t_streamBans (audit l c m v w) = t_streamBans w"
  "t_aliases (audit l c m v w) = t_aliases w" "t_students (audit l c m v w) = t_students w"
  "t_enrollments (audit l c m v w) = t_enrollments w" "t_streamKeys (audit l c m v w) = t_streamKeys w"
  "t_sessions (audit l c m v w) = t_sessions w" "t_recordings (audit l c m v w) = t_recordings w"
  "t_groups (audit l c m v w) = t_groups w" "t_userGroups (audit l c m v w) = t_userGroups w"
  "t_eventGroups (audit l c m v w) = t_eventGroups w" "t_invites (audit l c m v w) = t_invites w"
  "rng (audit l c m v w) = rng w" "rng_pos (audit l c m v w) = rng_pos w"
  "core.more (audit l c m v w) = core.more w"
  by (simp_all add: audit_def emit_def AuditLogRepository_insert_def Let_def case_prod_unfold)

lemma emit_frame [simp, frame]:
  "clock (emit e w) = clock w" "t_users (emit e w) = t_users w" "t_nodeSettings (emit e w) = t_nodeSettings w"
  "t_nodeLatencies (emit e w) = t_nodeLatencies w" "t_appConfig (emit e w) = t_appConfig w"
  "t_events (emit e w) = t_events w" "t_streamBans (emit e w) = t_streamBans w"
  "t_aliases (emit e w) = t_aliases w" "t_students (emit e w) = t_students w"
  "t_enrollments (emit e w) = t_enrollments w" "t_streamKeys (emit e w) = t_streamKeys w"
  "t_sessions (emit e w) = t_sessions w" "t_recordings (emit e w) = t_recordings w"
  "t_audit (emit e w) = t_audit w" "t_groups (emit e w) = t_groups w" "t_userGroups (emit e w) = t_userGroups w"
  "t_eventGroups (emit e w) = t_eventGroups w" "t_invites (emit e w) = t_invites w"
  "rng (emit e w) = rng w" "rng_pos (emit e w) = rng_pos w" "core.more (emit e w) = core.more w"
  "bus (emit e w) = bus w @ [e]"
  by (simp_all add: emit_def)

lemma audit_integrity: "integrity w \<Longrightarrow> integrity (audit l c m v w)"
  using AuditLogRepository_insert_integrity[of w]
  by (simp add: audit_def Let_def case_prod_unfold emit_def schema_decls)

lemma audit_bus: "\<exists>e. bus (audit l c m v w) = bus w @ [AuditCreated e]"
  by (simp add: audit_def Let_def case_prod_unfold AuditLogRepository_insert_def)


section \<open>Paging\<close>

lemma audit_order_set:
  "length (order_desc au_ts (order_desc au_id (tbl_select p t))) = length (tbl_select p t)"
  by simp

text \<open>Cutting a list into pages of size n and gluing them gives the list back.\<close>

lemma pages_concat:
  assumes "0 < n" "length xs \<le> k * n"
  shows "concat (map (\<lambda>i. take n (drop (i * n) xs)) [0..<k]) = xs"
  using assms
proof (induction k arbitrary: xs)
  case (Suc k)
  have "[0..<Suc k] = 0 # map Suc [0..<k]" by (simp add: upt_conv_Cons map_Suc_upt)
  then have "concat (map (\<lambda>i. take n (drop (i * n) xs)) [0..<Suc k])
      = take n xs @ concat (map (\<lambda>i. take n (drop (i * n) (drop n xs))) [0..<k])"
    by (simp add: comp_def add.commute)
  also have "... = take n xs @ drop n xs"
    using Suc by (subst Suc.IH) (auto simp: algebra_simps)
  finally show ?case by simp
qed simp

text \<open>The pages of the audit log partition it: for any filter and any requested page
  size, listing the pages 1 to k, where k pages of the clamped size are enough for the
  reported total, yields every matching row exactly once, newest first; and the page size
  used lies between 1 and 1000.\<close>

theorem listAudit_pages:
  assumes "ap_total (listAudit f None sz d) \<le> int k * ap_pageSize (listAudit f None sz d)"
  shows "concat (map (\<lambda>i. ap_entries (listAudit f (Some (int i + 1)) sz d)) [0..<k])
           = map toAuditView (order_desc au_ts (order_desc au_id (tbl_select (audit_matches f) (t_audit d))))
         \<and> 1 \<le> ap_pageSize (listAudit f None sz d) \<and> ap_pageSize (listAudit f None sz d) \<le> 1000"
proof -
  define n where "n = nat (clamp_pageSize sz)"
  define xs where "xs = order_desc au_ts (order_desc au_id (tbl_select (audit_matches f) (t_audit d)))"
  have b: "1 \<le> clamp_pageSize sz" "clamp_pageSize sz \<le> 1000"
    by (auto simp: clamp_pageSize_def AUDIT_MAX_PAGE_SIZE_def)
  then have n: "0 < n" "clamp_pageSize sz = int n" by (auto simp: n_def)
  have len: "length xs \<le> k * n"
    using assms by (simp add: listAudit_def Let_def n AuditLogRepository_countFiltered_def xs_def
        flip: of_nat_mult)
  have page: "ap_entries (listAudit f (Some (int i + 1)) sz d) = map toAuditView (take n (drop (i * n) xs))" for i
    by (simp add: listAudit_def Let_def clamp_page_def n AuditLogRepository_findMany_def xs_def
        flip: of_nat_mult)
  have "concat (map (\<lambda>i. ap_entries (listAudit f (Some (int i + 1)) sz d)) [0..<k])
      = map toAuditView (concat (map (\<lambda>i. take n (drop (i * n) xs)) [0..<k]))"
    by (simp add: page map_concat comp_def)
  with pages_concat[OF n(1) len] b show ?thesis by (simp add: xs_def listAudit_def Let_def)
qed

definition no_filters :: audit_filters where
  "no_filters = \<lparr>af_level = None, af_category = None, af_eventId = None, af_actor = None,
     af_involvedEmail = None, af_q = None\<rparr>"

theorem listAudit_pages_witness:
  "ap_pageSize (listAudit no_filters None (Some 5000) db_empty) \<le> 1000"
proof -
  have "ap_total (listAudit no_filters None (Some 5000) db_empty)
      \<le> int 1 * ap_pageSize (listAudit no_filters None (Some 5000) db_empty)"
    by (simp add: listAudit_def Let_def AuditLogRepository_countFiltered_def tbl_select_def db_empty_def
        clamp_pageSize_def AUDIT_MAX_PAGE_SIZE_def)
  from listAudit_pages[OF this] show ?thesis by simp
qed

end
