(* ===== verification/Tokens.thy ===== *)
theory Tokens
  imports AuditLog
begin

text \<open>
  Secrets: byte encodings, password hashes (utils/password.ts), stream tokens
  (utils/token.ts), encryption at rest (utils/crypto.ts), the Adobe authmod
  challenge (utils/authmod.ts), sanitised file names (utils/filename.ts) and the
  RTMP address helpers (shared/rtmp.ts).  A Buffer is the list of its bytes.  The
  primitives of node:crypto, @noble/hashes and jose are parameters, collected in
  the record externals together with the values read from the environment.
\<close>

section \<open>Code outside the repository, and the environment\<close>

record externals =
  x_argon2id :: "string \<Rightarrow> string \<Rightarrow> string"
  x_bunVerify :: "string \<Rightarrow> string \<Rightarrow> bool"
  x_md5 :: "string \<Rightarrow> string"
  x_sha256 :: "string \<Rightarrow> string"
  x_gcmSeal :: "string \<Rightarrow> string \<Rightarrow> string \<Rightarrow> string \<times> string"
  x_gcmOpen :: "string \<Rightarrow> string \<Rightarrow> string \<Rightarrow> string \<Rightarrow> string option"
  x_rsaDecrypt :: "string \<Rightarrow> string option"
  x_jwtSign :: "string \<Rightarrow> int \<Rightarrow> role \<Rightarrow> int \<Rightarrow> string"
  x_jwtVerify :: "string \<Rightarrow> int \<Rightarrow> string \<Rightarrow> (string \<times> json) list option"
  x_picomatch :: "string \<Rightarrow> string list \<Rightarrow> bool"
  e_verifierSecret :: string
  e_jwtSecret :: string
  e_corsOrigins :: "string list"
  e_srsFlvBase :: string
  e_recordDir :: string
  e_mediaNodeAuthToken :: string

text \<open>argon2id with the options of the source yields 32 bytes; AES-256-GCM yields a
  ciphertext of the length of the plaintext with a 16 byte tag, and opens what it sealed.\<close>

definition gcm_laws :: "externals \<Rightarrow> bool" where
  "gcm_laws x \<longleftrightarrow> (\<forall>k iv p ct tag. x_gcmSeal x k iv p = (ct, tag) \<longrightarrow>
     length tag = 16 \<and> length ct = length p \<and> x_gcmOpen x k iv ct tag = Some p)"


section \<open>Hex\<close>

definition hex_digit :: "nat \<Rightarrow> char" where
  "hex_digit n = (if n < 10 then char_of (48 + n) else char_of (87 + n))"

definition hex_value :: "char \<Rightarrow> nat option" where
  "hex_value c = (let n = of_char c :: nat in
     if 48 \<le> n \<and> n \<le> 57 then Some (n - 48)
     else if 97 \<le> n \<and> n \<le> 102 then Some (n - 87)
     else if 65 \<le> n \<and> n \<le> 70 then Some (n - 55) else None)"

definition to_hex :: "string \<Rightarrow> string" where
  "to_hex bs = concat (map (\<lambda>b. let n = of_char b :: nat in [hex_digit (n div 16), hex_digit (n mod 16)]) bs)"

text \<open>Buffer.from(s, 'hex') stops at the first pair that is not hex.\<close>

fun from_hex :: "string \<Rightarrow> string" where
  "from_hex (a # b # s) = (case (hex_value a, hex_value b) of
     (Some x, Some y) \<Rightarrow> char_of (16 * x + y) # from_hex s | _ \<Rightarrow> [])"
| "from_hex _ = []"

lemma of_char_lt [simp]: "(of_char c :: nat) < 256"
  by (metis of_char_of of_char_mod_256 mod_less_divisor zero_less_numeral)

lemma hex_value_digit: "n < 16 \<Longrightarrow> hex_value (hex_digit n) = Some n"
  by (auto simp: hex_digit_def hex_value_def Let_def)

lemma from_to_hex [simp]: "from_hex (to_hex bs) = bs"
proof (induction bs)
  case (Cons b bs)
  have "(of_char b :: nat) div 16 < 16" "(of_char b :: nat) mod 16 < 16"
    using of_char_lt[of b] by (auto simp: less_mult_imp_div_less)
  moreover have "char_of (16 * ((of_char b :: nat) div 16) + of_char b mod 16) = b"
    by (simp only: mult_div_mod_eq char_of_char)
  ultimately show ?case using Cons by (simp add: to_hex_def Let_def hex_value_digit)
qed (simp add: to_hex_def)

lemma length_to_hex [simp]: "length (to_hex bs) = 2 * length bs"
  by (induction bs) (auto simp: to_hex_def Let_def)

lemma hex_digit_range: "n < 16 \<Longrightarrow> is_alnum (hex_digit n)"
  by (auto simp: hex_digit_def is_alnum_def is_digit_def is_lower_def Let_def)

lemma to_hex_alnum: "c \<in> set (to_hex bs) \<Longrightarrow> is_alnum c"
proof -
  have "(of_char b :: nat) div 16 < 16" "(of_char b :: nat) mod 16 < 16" for b
    using of_char_lt[of b] by (auto simp: less_mult_imp_div_less)
  then show "c \<in> set (to_hex bs) \<Longrightarrow> is_alnum c"
    by (auto simp: to_hex_def Let_def hex_digit_range)
qed


section \<open>Base64\<close>

definition b64_char :: "nat \<Rightarrow> char" where
  "b64_char n = (if n < 26 then char_of (65 + n) else if n < 52 then char_of (71 + n)
     else if n < 62 then char_of (n - 4) else if n = 62 then CHR ''+'' else CHR ''/'')"

definition b64_value :: "char \<Rightarrow> nat option" where
  "b64_value c = (let n = of_char c :: nat in
     if 65 \<le> n \<and> n \<le> 90 then Some (n - 65)
     else if 97 \<le> n \<and> n \<le> 122 then Some (n - 71)
     else if 48 \<le> n \<and> n \<le> 57 then Some (n + 4)
     else if c = CHR ''+'' \<or> c = CHR ''-'' then Some 62
     else if c = CHR ''/'' \<or> c = CHR ''_'' then Some 63 else None)"

fun sextets :: "nat list \<Rightarrow> nat list" where
  "sextets (a # b # c # s) =
     (a div 4) # ((a mod 4) * 16 + b div 16) # ((b mod 16) * 4 + c div 64) # (c mod 64) # sextets s"
| "sextets [a, b] = [a div 4, (a mod 4) * 16 + b div 16, (b mod 16) * 4]"
| "sextets [a] = [a div 4, (a mod 4) * 16]"
| "sextets [] = []"

fun unsextets :: "nat list \<Rightarrow> nat list" where
  "unsextets (p # q # r # t # s) =
     (p * 4 + q div 16) # ((q mod 16) * 16 + r div 4) # ((r mod 4) * 64 + t) # unsextets s"
| "unsextets [p, q, r] = [p * 4 + q div 16, (q mod 16) * 16 + r div 4]"
| "unsextets [p, q] = [p * 4 + q div 16]"
| "unsextets _ = []"

definition to_base64 :: "string \<Rightarrow> string" where
  "to_base64 bs = map b64_char (sextets (map of_char bs)) @
     replicate ((3 - length bs mod 3) mod 3) (CHR ''='')"

text \<open>Buffer.from(s, 'base64') skips characters outside both alphabets and stops at
  the padding.\<close>

definition from_base64 :: "string \<Rightarrow> string" where
  "from_base64 s = map char_of (unsextets (List.map_filter b64_value (takeWhile (\<lambda>c. c \<noteq> CHR ''='') s)))"

lemma unsextets_sextets: "\<forall>n\<in>set ns. n < 256 \<Longrightarrow> unsextets (sextets ns) = ns"
proof (induction ns rule: sextets.induct)
  case (1 a b c s)
  then have "a div 4 * 4 + (a mod 4 * 16 + b div 16) div 16 = a"
    "(a mod 4 * 16 + b div 16) mod 16 * 16 + (b mod 16 * 4 + c div 64) div 4 = b"
    "(b mod 16 * 4 + c div 64) mod 4 * 64 + c mod 64 = c"
    by (auto simp: div_mult2_eq)
  with 1 show ?case by simp
next
  case (2 a b)
  then have "a div 4 * 4 + (a mod 4 * 16 + b div 16) div 16 = a"
    "(a mod 4 * 16 + b div 16) mod 16 * 16 + (b mod 16 * 4) div 4 = b"
    by (auto simp: div_mult2_eq)
  then show ?case by simp
qed auto

lemma sextets_lt: "\<forall>n\<in>set ns. n < 256 \<Longrightarrow> \<forall>n\<in>set (sextets ns). n < 64"
proof (induction ns rule: sextets.induct)
  case (1 a b c s)
  have "a div 4 < 64" "a mod 4 * 16 + b div 16 < 64" "b mod 16 * 4 + c div 64 < 64" "c mod 64 < 64"
    using 1(2) by auto
  with 1 show ?case by simp
next
  case (2 a b)
  then show ?case by auto
qed auto

lemma b64_char_cases: "n < 64 \<Longrightarrow> b64_value (b64_char n) = Some n \<and> b64_char n \<noteq> CHR ''=''"
proof -
  assume "n < 64"
  have code: "(of_char (b64_char n) :: nat) =
      (if n < 26 then 65 + n else if n < 52 then 71 + n else if n < 62 then n - 4 else if n = 62 then 43 else 47)"
    using \<open>n < 64\<close> by (simp add: b64_char_def)
  have "b64_char n \<noteq> CHR ''=''"
  proof
    assume "b64_char n = CHR ''=''"
    then have "(of_char (b64_char n) :: nat) = 61" by simp
    with code \<open>n < 64\<close> show False by (auto split: if_splits)
  qed
  moreover have "b64_value (b64_char n) = Some n"
  proof -
    consider "n < 26" | "26 \<le> n" "n < 52" | "52 \<le> n" "n < 62" | "n = 62" | "n = 63"
      using \<open>n < 64\<close> by linarith
    then show ?thesis
      by cases (simp_all add: b64_value_def code Let_def, auto simp: b64_char_def)
  qed
  ultimately show ?thesis by simp
qed

lemma from_to_base64 [simp]: "from_base64 (to_base64 bs) = bs"
proof -
  let ?ss = "sextets (map of_char bs)"
  have lt: "\<forall>n\<in>set ?ss. n < 64" by (rule sextets_lt) auto
  have "takeWhile (\<lambda>c. c \<noteq> CHR ''='') (to_base64 bs) = map b64_char ?ss"
    using lt b64_char_cases by (simp add: to_base64_def takeWhile_append takeWhile_replicate)
  moreover have "List.map_filter b64_value (map b64_char ?ss) = ?ss"
    using lt b64_char_cases by (simp add: map_filter_def comp_def) (rule map_idI, auto)
  moreover have "unsextets ?ss = map of_char bs" by (rule unsextets_sextets) auto
  ultimately show ?thesis by (simp add: from_base64_def comp_def)
qed


section \<open>Passwords\<close>

text \<open>utils/password.ts: salt and hash in hex, joined by a colon; hashes written by
  Bun.password start with $argon2 and go to Bun's verifier.\<close>

definition LEGACY_PHC_PREFIX :: string where "LEGACY_PHC_PREFIX = ''$argon2''"

definition hashPassword :: "externals \<Rightarrow> string \<Rightarrow> 'z core_scheme \<Rightarrow> string \<times> 'z core_scheme" where
  "hashPassword x plain w =
     (let (salt, w1) = randomBytes 16 w
      in (to_hex salt @ '':'' @ to_hex (x_argon2id x plain salt), w1))"

definition verifyPassword :: "externals \<Rightarrow> string \<Rightarrow> string \<Rightarrow> bool" where
  "verifyPassword x plain stored =
     (if starts_with LEGACY_PHC_PREFIX stored then x_bunVerify x plain stored
      else if CHR '':'' \<notin> set stored then False
      else let saltHex = takeWhile (\<lambda>c. c \<noteq> CHR '':'') stored;
               hashHex = tl (dropWhile (\<lambda>c. c \<noteq> CHR '':'') stored);
               salt = from_hex saltHex
           in if salt = [] then False
              else let a = x_argon2id x plain salt; b = from_hex hashHex
                   in length a = length b \<and> a = b)"

definition isLegacyHash :: "string \<Rightarrow> bool" where
  "isLegacyHash stored = starts_with LEGACY_PHC_PREFIX stored"

lemma colon_not_hex: "CHR '':'' \<notin> set (to_hex bs)"
proof
  assume "CHR '':'' \<in> set (to_hex bs)"
  from to_hex_alnum[OF this] show False
    by (simp add: is_alnum_def is_digit_def is_upper_def is_lower_def Let_def)
qed

lemma dollar_not_hex: "CHR ''$'' \<notin> set (to_hex bs)"
proof
  assume "CHR ''$'' \<in> set (to_hex bs)"
  from to_hex_alnum[OF this] show False
    by (simp add: is_alnum_def is_digit_def is_upper_def is_lower_def Let_def)
qed

lemma length_randomBytes [simp]: "length (fst (randomBytes n w)) = n"
  by (simp add: randomBytes_def)

lemma randomBytes_frame [simp, frame]:
  "clock (snd (randomBytes n w)) = clock w" "t_users (snd (randomBytes n w)) = t_users w"
  "t_events (snd (randomBytes n w)) = t_events w" "t_streamBans (snd (randomBytes n w)) = t_streamBans w"
  "t_aliases (snd (randomBytes n w)) = t_aliases w" "t_students (snd (randomBytes n w)) = t_students w"
  "t_enrollments (snd (randomBytes n w)) = t_enrollments w"
  "t_streamKeys (snd (randomBytes n w)) = t_streamKeys w" "t_sessions (snd (randomBytes n w)) = t_sessions w"
  "t_recordings (snd (randomBytes n w)) = t_recordings w" "t_groups (snd (randomBytes n w)) = t_groups w"
  "t_userGroups (snd (randomBytes n w)) = t_userGroups w"
  "t_eventGroups (snd (randomBytes n w)) = t_eventGroups w" "t_invites (snd (randomBytes n w)) = t_invites w"
  "t_appConfig (snd (randomBytes n w)) = t_appConfig w" "t_audit (snd (randomBytes n w)) = t_audit w"
  "bus (snd (randomBytes n w)) = bus w" "core.more (snd (randomBytes n w)) = core.more w"
  "t_nodeLatencies (snd (randomBytes n w)) = t_nodeLatencies w"
  "t_nodeSettings (snd (randomBytes n w)) = t_nodeSettings w"
  by (simp_all add: randomBytes_def)

lemma randomBytes_integrity: "integrity w \<Longrightarrow> integrity (snd (randomBytes n w))"
  by (simp add: schema_decls)

lemma hash_shape: "fst (hashPassword x p w)
    = to_hex (fst (randomBytes 16 w)) @ CHR '':'' # to_hex (x_argon2id x p (fst (randomBytes 16 w)))"
  by (simp add: hashPassword_def case_prod_unfold Let_def)

lemma hash_not_legacy [simp]: "\<not> isLegacyHash (fst (hashPassword x p w))"
proof -
  have "length (to_hex (fst (randomBytes 16 w))) = 32" by simp
  then obtain c cs where c: "to_hex (fst (randomBytes 16 w)) = c # cs"
    by (cases "to_hex (fst (randomBytes 16 w))") (auto simp del: length_to_hex)
  then have "c \<noteq> CHR ''$''" using dollar_not_hex[of "fst (randomBytes 16 w)"] by auto
  with c show ?thesis by (simp add: isLegacyHash_def hash_shape LEGACY_PHC_PREFIX_def)
qed

text \<open>Hashing a password and verifying another against the stored text succeeds
  exactly when argon2id maps both to the same bytes under the salt drawn: in
  particular the password itself is always accepted, the stored text is never taken
  for a legacy hash, and the salt and hash are stored losslessly.\<close>

lemma verify_hashPassword:
  "verifyPassword x q (fst (hashPassword x p w)) \<longleftrightarrow>
     x_argon2id x q (fst (randomBytes 16 w)) = x_argon2id x p (fst (randomBytes 16 w))"
proof -
  define salt where "salt = fst (randomBytes 16 w)"
  define h where "h = to_hex (x_argon2id x p salt)"
  have len: "length salt = 16" by (simp add: salt_def)
  have stored: "fst (hashPassword x p w) = to_hex salt @ CHR '':'' # h"
    by (simp add: hash_shape salt_def h_def)
  have "\<not> starts_with LEGACY_PHC_PREFIX (to_hex salt @ CHR '':'' # h)"
    using hash_not_legacy[of x p w] by (simp add: isLegacyHash_def stored)
  moreover have "takeWhile (\<lambda>c. c \<noteq> CHR '':'') (to_hex salt @ CHR '':'' # h) = to_hex salt"
    using colon_not_hex by (subst takeWhile_append2) auto
  moreover have "dropWhile (\<lambda>c. c \<noteq> CHR '':'') (to_hex salt @ CHR '':'' # h) = CHR '':'' # h"
    using colon_not_hex by (subst dropWhile_append2) auto
  ultimately show ?thesis
    using len unfolding stored verifyPassword_def salt_def[symmetric]
    by (auto simp: Let_def h_def)
qed


section \<open>Stream tokens\<close>

definition b64url_char :: "char \<Rightarrow> char" where
  "b64url_char c = (if c = CHR ''+'' then CHR ''-'' else if c = CHR ''/'' then CHR ''_'' else c)"

definition generateToken :: "nat \<Rightarrow> 'z core_scheme \<Rightarrow> string \<times> 'z core_scheme" where
  "generateToken byteLen w =
     (let (bytes, w1) = randomBytes byteLen w;
          s = map b64url_char (to_base64 bytes)
      in (rev (dropWhile (\<lambda>c. c = CHR ''='') (rev s)), w1))"

definition ELLIPSIS :: string where "ELLIPSIS = [CHR 0xE2, CHR 0x80, CHR 0xA6]"

definition tokenPreview :: "string \<Rightarrow> string" where
  "tokenPreview token = (if length token \<le> 10 then token
     else take 4 token @ ELLIPSIS @ drop (length token - 4) token)"

definition hashToken :: "externals \<Rightarrow> string \<Rightarrow> 'z core_scheme \<Rightarrow> string \<times> 'z core_scheme" where
  "hashToken x token w = hashPassword x token w"

definition verifyToken :: "externals \<Rightarrow> string \<Rightarrow> string \<Rightarrow> bool" where
  "verifyToken x token hash = verifyPassword x token hash"

definition stream_char :: "char \<Rightarrow> bool" where
  "stream_char c = (is_alnum c \<or> c = CHR ''_'' \<or> c = CHR ''-'')"

definition base36 :: "nat \<Rightarrow> char" where
  "base36 n = (if n < 10 then char_of (48 + n) else char_of (87 + n))"

definition byte36 :: "char \<Rightarrow> string" where
  "byte36 b = (let n = of_char b :: nat in
     if n < 36 then [CHR ''0'', base36 n] else [base36 (n div 36), base36 (n mod 36)])"

definition streamNameFor :: "string \<Rightarrow> 'z core_scheme \<Rightarrow> string \<times> 'z core_scheme" where
  "streamNameFor studentNumber w =
     (let base = filter stream_char studentNumber in
      if base \<noteq> [] then (base, w)
      else let (bytes, w1) = randomBytes 6 w in (concat (map byte36 bytes), w1))"

lemma b64_url_ok: "n < 64 \<Longrightarrow> stream_char (b64url_char (b64_char n)) \<and> b64url_char (b64_char n) \<noteq> CHR ''=''"
proof -
  assume lt: "n < 64"
  have ne: "b64url_char (b64_char n) \<noteq> CHR ''=''"
    using b64_char_cases[OF lt] by (simp add: b64url_char_def)
  consider "n < 26" | "26 \<le> n" "n < 52" | "52 \<le> n" "n < 62" | "n = 62" | "n = 63"
    using lt by linarith
  then have "stream_char (b64url_char (b64_char n))"
    by cases (auto simp: b64_char_def b64url_char_def stream_char_def is_alnum_def is_upper_def
        is_lower_def is_digit_def Let_def)
  with ne show ?thesis by simp
qed

lemma length_sextets: "length (sextets ns) = (4 * length ns + 2) div 3"
  by (induction ns rule: sextets.induct) auto

lemma generateToken_sextets:
  "fst (generateToken n w) = map (b64url_char \<circ> b64_char) (sextets (map of_char (fst (randomBytes n w))))"
proof -
  let ?ss = "sextets (map of_char (fst (randomBytes n w)))"
  let ?t = "map (b64url_char \<circ> b64_char) ?ss"
  have lt: "\<forall>m\<in>set ?ss. m < 64" by (rule sextets_lt) auto
  have strip: "rev (dropWhile (\<lambda>c. c = CHR ''='') (replicate k (CHR ''='') @ rev t)) = t"
    if "\<forall>c\<in>set t. c \<noteq> CHR ''=''" for t k
  proof -
    have "dropWhile (\<lambda>c. c = CHR ''='') (rev t) = rev t"
      using that hd_in_set[of "rev t"] by (auto simp: dropWhile_eq_self_iff)
    then show ?thesis by (subst dropWhile_append2) auto
  qed
  have "map b64url_char (to_base64 (fst (randomBytes n w))) = ?t @ replicate ((3 - n mod 3) mod 3) (CHR ''='')"
    by (simp add: to_base64_def map_replicate b64url_char_def)
  moreover have "\<forall>c\<in>set ?t. c \<noteq> CHR ''=''" using lt b64_url_ok by auto
  ultimately show ?thesis
    by (simp add: generateToken_def Let_def case_prod_unfold strip)
qed

text \<open>A generated stream token consists only of letters, digits, - and _ (so it survives
  in an RTMP query), has ceil(4n/3) characters for n random bytes, 32 for the default of
  24, and decoding it as base64 gives the random bytes back: no entropy is lost.\<close>

lemma generateToken_ok:
  "list_all stream_char (fst (generateToken n w))
   \<and> length (fst (generateToken n w)) = (4 * n + 2) div 3
   \<and> from_base64 (fst (generateToken n w)) = fst (randomBytes n w)"
proof -
  let ?ns = "map of_char (fst (randomBytes n w)) :: nat list"
  let ?ss = "sextets ?ns"
  have lt: "\<forall>m\<in>set ?ss. m < 64" by (rule sextets_lt) auto
  have v: "b64_value (b64url_char (b64_char m)) = Some m" if "m < 64" for m
    using b64_char_cases[OF that] by (auto simp: b64url_char_def b64_value_def)
  have "takeWhile (\<lambda>c. c \<noteq> CHR ''='') (map (b64url_char \<circ> b64_char) ?ss) = map (b64url_char \<circ> b64_char) ?ss"
    using lt b64_url_ok by (auto simp: takeWhile_eq_all_conv)
  moreover have "List.map_filter b64_value (map (b64url_char \<circ> b64_char) ?ss) = ?ss"
    using lt v by (simp add: map_filter_def comp_def) (rule map_idI, auto)
  moreover have "unsextets ?ss = ?ns" by (rule unsextets_sextets) auto
  ultimately have "from_base64 (fst (generateToken n w)) = map char_of ?ns"
    by (simp only: generateToken_sextets from_base64_def)
  then have "from_base64 (fst (generateToken n w)) = fst (randomBytes n w)" by (simp add: comp_def)
  then show ?thesis
    using lt b64_url_ok by (auto simp: generateToken_sextets length_sextets list_all_iff)
qed


section \<open>Encryption at rest and authmod\<close>

definition enc_key :: "externals \<Rightarrow> string" where
  "enc_key x = x_sha256 x (e_verifierSecret x)"

definition encrypt :: "externals \<Rightarrow> string \<Rightarrow> 'z core_scheme \<Rightarrow> string \<times> 'z core_scheme" where
  "encrypt x plain w =
     (let (iv, w1) = randomBytes 12 w;
          (ct, tag) = x_gcmSeal x (enc_key x) iv plain
      in (to_base64 (iv @ tag @ ct), w1))"

definition decrypt :: "externals \<Rightarrow> string \<Rightarrow> error + string" where
  "decrypt x packed =
     (let buf = from_base64 packed in
      if length buf < 29 then Inl (JsError ''ciphertext too short'')
      else case x_gcmOpen x (enc_key x) (take 12 buf) (drop 28 buf) (take 16 (drop 12 buf)) of
             None \<Rightarrow> Inl (JsError ''Unsupported state or unable to authenticate data'')
           | Some p \<Rightarrow> Inr p)"

definition generateSalt :: "'z core_scheme \<Rightarrow> string \<times> 'z core_scheme" where
  "generateSalt w = (let (bs, w1) = randomBytes 8 w in (to_hex bs, w1))"

definition computeVerifier :: "externals \<Rightarrow> string \<Rightarrow> string \<Rightarrow> string \<Rightarrow> string" where
  "computeVerifier x user salt password = to_base64 (x_md5 x (user @ salt @ password))"

definition mintAuthmod :: "externals \<Rightarrow> string \<Rightarrow> string \<Rightarrow> 'z core_scheme \<Rightarrow> (string \<times> string) \<times> 'z core_scheme" where
  "mintAuthmod x user password w =
     (let (salt, w1) = generateSalt w;
          (cipher, w2) = encrypt x (computeVerifier x user salt password) w1
      in ((salt, cipher), w2))"

definition verifierFromCipher :: "externals \<Rightarrow> string \<Rightarrow> error + string" where
  "verifierFromCipher x cipher = decrypt x cipher"

definition verifyResponse :: "externals \<Rightarrow> string \<Rightarrow> string \<Rightarrow> string \<Rightarrow> string \<Rightarrow> bool" where
  "verifyResponse x storedVerifier opaq challenge response =
     (let expected = to_base64 (x_md5 x (storedVerifier @ opaq @ challenge))
      in length expected = length response \<and> expected = response)"

text \<open>What librtmp computes on the publisher's side.\<close>

definition librtmp_response :: "externals \<Rightarrow> string \<Rightarrow> string \<Rightarrow> string \<Rightarrow> string \<Rightarrow> string \<Rightarrow> string" where
  "librtmp_response x user salt password opaq challenge =
     to_base64 (x_md5 x (to_base64 (x_md5 x (user @ salt @ password)) @ opaq @ challenge))"

lemma decrypt_encrypt:
  assumes "gcm_laws x" "plain \<noteq> []"
  shows "decrypt x (fst (encrypt x plain w)) = Inr plain"
proof -
  define iv where "iv = fst (randomBytes 12 w)"
  obtain ct tag where seal: "x_gcmSeal x (enc_key x) iv plain = (ct, tag)" by (cases "x_gcmSeal x (enc_key x) iv plain") auto
  have l: "length tag = 16" "length ct = length plain" "x_gcmOpen x (enc_key x) iv ct tag = Some plain"
    using assms(1) seal by (auto simp: gcm_laws_def)
  have iv: "length iv = 12" by (simp add: iv_def)
  have "fst (encrypt x plain w) = to_base64 (iv @ tag @ ct)"
    by (simp add: encrypt_def case_prod_unfold Let_def iv_def[symmetric] seal)
  moreover have "drop 28 (iv @ tag @ ct) = ct" using iv l by simp
  ultimately show ?thesis
    using l iv assms(2) by (cases plain) (simp_all add: decrypt_def Let_def)
qed

lemma encrypt_empty_unreadable:
  assumes "gcm_laws x"
  shows "decrypt x (fst (encrypt x [] w)) = Inl (JsError ''ciphertext too short'')"
proof -
  obtain ct tag where seal: "x_gcmSeal x (enc_key x) (fst (randomBytes 12 w)) [] = (ct, tag)"
    by (cases "x_gcmSeal x (enc_key x) (fst (randomBytes 12 w)) []") auto
  then have "length tag = 16 \<and> length ct = length ([] :: string)"
    using assms unfolding gcm_laws_def by blast
  then show ?thesis by (simp add: encrypt_def case_prod_unfold Let_def seal decrypt_def)
qed

lemma to_base64_nonempty: "bs \<noteq> [] \<Longrightarrow> to_base64 bs \<noteq> []"
proof
  assume "bs \<noteq> []" "to_base64 bs = []"
  moreover have "from_base64 [] = []" by (simp add: from_base64_def map_filter_def)
  ultimately show False using from_to_base64[of bs] by simp
qed

text \<open>The verifier minted for an account, stored encrypted and decrypted again, accepts
  the Adobe authmod response that librtmp computes from the same user name, salt and
  password for any opaque and challenge; and whatever response is accepted equals that
  one.  (md5 yields 16 bytes; AES-GCM opens what it sealed.)\<close>

lemma authmod_complete:
  assumes "gcm_laws x" "\<And>s. x_md5 x s \<noteq> []"
    and "mintAuthmod x user password w = ((salt, cipher), w')"
  shows "\<exists>v. verifierFromCipher x cipher = Inr v \<and>
    (\<forall>opaq challenge response. verifyResponse x v opaq challenge response \<longleftrightarrow>
       response = librtmp_response x user salt password opaq challenge)"
proof -
  have cipher: "cipher = fst (encrypt x (computeVerifier x user salt password) (snd (generateSalt w)))"
    using assms(3) by (auto simp: mintAuthmod_def case_prod_unfold Let_def)
  have "computeVerifier x user salt password \<noteq> []"
    using assms(2) by (simp add: computeVerifier_def to_base64_nonempty)
  then have "verifierFromCipher x cipher = Inr (computeVerifier x user salt password)"
    using decrypt_encrypt[OF assms(1)] by (simp add: verifierFromCipher_def cipher)
  then show ?thesis
    by (auto simp: verifyResponse_def librtmp_response_def computeVerifier_def Let_def)
qed


text \<open>An instance of the parameters: a cipher that leaves the text readable, with the
  lengths the laws ask for.\<close>

definition demo_externals :: externals where
  "demo_externals = \<lparr>x_argon2id = (\<lambda>p s. s @ p), x_bunVerify = (\<lambda>p s. False), x_md5 = (\<lambda>s. ''m'' @ s),
     x_sha256 = (\<lambda>s. s), x_gcmSeal = (\<lambda>k iv p. (p, replicate 16 (CHR ''t''))),
     x_gcmOpen = (\<lambda>k iv c t. Some c), x_rsaDecrypt = (\<lambda>s. Some s), x_jwtSign = (\<lambda>k u r e. ''jwt''),
     x_jwtVerify = (\<lambda>k now t. None), x_picomatch = (\<lambda>e ps. e \<in> set ps),
     e_verifierSecret = ''secret'', e_jwtSecret = ''secret'', e_corsOrigins = [],
     e_srsFlvBase = ''http://127.0.0.1:38081'', e_recordDir = ''./records'', e_mediaNodeAuthToken = []\<rparr>"

definition demo_core :: core where
  "demo_core = db.extend db_empty (core.fields [] (\<lambda>n. char_of (n mod 256)) 0)"

lemma demo_gcm_laws: "gcm_laws demo_externals"
  by (auto simp: gcm_laws_def demo_externals_def)

lemma demo_md5: "x_md5 demo_externals s \<noteq> []"
  by (simp add: demo_externals_def)


section \<open>File names and RTMP addresses\<close>

definition ILLEGAL :: "char list" where
  "ILLEGAL = [CHR 0x5C, CHR ''/'', CHR '':'', CHR ''*'', CHR ''?'', CHR 0x22, CHR ''<'', CHR ''>'', CHR ''|'']"

definition safeName :: "string \<Rightarrow> string" where
  "safeName name = fold (\<lambda>ch out. js_join ''_'' (js_split ch out)) ILLEGAL name"

lemma join_split_map: "js_join ''_'' (js_split d s) = map (\<lambda>c. if c = d then CHR ''_'' else c) s"
proof (induction s)
  case (Cons c cs)
  obtain w ws where "js_split d cs = w # ws" by (cases "js_split d cs") auto
  with Cons show ?case by (cases ws) auto
qed simp

text \<open>safeName replaces exactly the characters that are illegal in file names by an
  underscore, position by position: the result has the same length, contains none of
  them (in particular no path separator), and names without such characters are kept.\<close>

theorem safeName_spec:
  "safeName name = map (\<lambda>c. if c \<in> set ILLEGAL then CHR ''_'' else c) name"
proof -
  have "fold (\<lambda>ch out. js_join ''_'' (js_split ch out)) chs s
      = map (\<lambda>c. if c \<in> set chs then CHR ''_'' else c) s" if "CHR ''_'' \<notin> set chs" for chs s
    using that by (induction chs arbitrary: s) (auto simp: join_split_map)
  moreover have "CHR ''_'' \<notin> set ILLEGAL" by (simp add: ILLEGAL_def)
  ultimately show ?thesis by (simp add: safeName_def)
qed

definition ends_with :: "string \<Rightarrow> string \<Rightarrow> bool" where
  "ends_with suf s = starts_with (rev suf) (rev s)"

definition normalizeRtmpAuthority :: "string \<Rightarrow> string" where
  "normalizeRtmpAuthority a = (if ends_with '':1935'' a then take (length a - 5) a else a)"

definition obsServerUrl :: "string \<Rightarrow> string" where
  "obsServerUrl a = ''rtmp://'' @ normalizeRtmpAuthority a @ ''/live''"

end
