(* ===== verification/Semaphore.thy ===== *)
theory Semaphore
  imports Prelude "HOL-Library.Multiset"
begin

text \<open>
  utils/semaphore.ts: the AsyncSemaphore that caps concurrent probes.  A call of
  run is split at its suspension points: run_enter is the code before fn, run_leave
  the finally block.  pump hands slots to waiters in order; granted waiters are
  counted in active before they resume.
\<close>

record 'w sem =
  sem_max :: int
  sem_active :: int
  sem_waiters :: "'w list"

definition sem_new :: "int \<Rightarrow> 'w sem" where
  "sem_new n = \<lparr>sem_max = n, sem_active = 0, sem_waiters = []\<rparr>"

text \<open>The loop of pump: the slots in use, the queue left and the waiters resolved.\<close>

fun pump_loop :: "int \<Rightarrow> int \<Rightarrow> 'w list \<Rightarrow> int \<times> 'w list \<times> 'w list" where
  "pump_loop mx act [] = (act, [], [])"
| "pump_loop mx act (w # ws) =
     (if act < mx then (let (a, rest, got) = pump_loop mx (act + 1) ws in (a, rest, w # got))
      else (act, w # ws, []))"

definition pump :: "'w sem \<Rightarrow> 'w list \<times> 'w sem" where
  "pump s = (let (a, rest, got) = pump_loop (sem_max s) (sem_active s) (sem_waiters s)
             in (got, s\<lparr>sem_active := a, sem_waiters := rest\<rparr>))"

definition run_enter :: "'w \<Rightarrow> 'w sem \<Rightarrow> bool \<times> 'w sem" where
  "run_enter w s =
     (if sem_max s \<le> sem_active s then (False, s\<lparr>sem_waiters := sem_waiters s @ [w]\<rparr>)
      else (True, s\<lparr>sem_active := sem_active s + 1\<rparr>))"

definition run_leave :: "'w sem \<Rightarrow> 'w list \<times> 'w sem" where
  "run_leave s = pump (s\<lparr>sem_active := sem_active s - 1\<rparr>)"

definition setMax :: "rat \<Rightarrow> 'w sem \<Rightarrow> 'w list \<times> 'w sem" where
  "setMax n s = pump (s\<lparr>sem_max := max 1 \<lfloor>n\<rfloor>\<rparr>)"

lemma pump_loop_spec:
  "pump_loop mx act ws = (a, rest, got) \<Longrightarrow>
     ws = got @ rest \<and> a = act + int (length got) \<and> (rest = [] \<or> mx \<le> a) \<and> (got = [] \<or> a \<le> mx)"
  by (induction mx act ws arbitrary: a rest got rule: pump_loop.induct)
     (auto split: if_splits prod.splits)

lemma pump_spec:
  assumes "pump s = (got, s')"
  shows "sem_waiters s = got @ sem_waiters s'" "sem_active s' = sem_active s + int (length got)"
    "sem_max s' = sem_max s" "sem_waiters s' = [] \<or> sem_max s' \<le> sem_active s'"
    "got = [] \<or> sem_active s' \<le> sem_max s'"
  using assms pump_loop_spec[of "sem_max s" "sem_active s" "sem_waiters s"]
  by (auto simp: pump_def Let_def split: prod.splits)


section \<open>A gate: what a client of the semaphore relies on\<close>

text \<open>A gate admits clients: enter either admits the client or queues it, leave gives a
  slot back and admits from the front of the queue, a gate that satisfies ok wastes no
  slot.\<close>

locale gate =
  fixes ok :: "'s \<Rightarrow> bool"
    and cap :: "'s \<Rightarrow> int"
    and busy :: "'s \<Rightarrow> int"
    and queue :: "'s \<Rightarrow> 'w list"
    and enter :: "'w \<Rightarrow> 's \<Rightarrow> bool \<times> 's"
    and leave :: "'s \<Rightarrow> 'w list \<times> 's"
  assumes enter_in: "\<lbrakk>ok s; enter w s = (True, s')\<rbrakk> \<Longrightarrow>
      ok s' \<and> cap s' = cap s \<and> busy s' = busy s + 1 \<and> queue s' = queue s \<and> busy s < cap s"
    and enter_wait: "\<lbrakk>ok s; enter w s = (False, s')\<rbrakk> \<Longrightarrow>
      ok s' \<and> cap s' = cap s \<and> busy s' = busy s \<and> queue s' = queue s @ [w]"
    and leave_law: "\<lbrakk>ok s; 0 < busy s; leave s = (got, s')\<rbrakk> \<Longrightarrow>
      ok s' \<and> cap s' = cap s \<and> busy s' = busy s - 1 + int (length got) \<and> queue s = got @ queue s'
      \<and> (got = [] \<or> busy s' \<le> cap s')"
    and no_waste: "\<lbrakk>ok s; queue s \<noteq> []\<rbrakk> \<Longrightarrow> cap s \<le> busy s"
    and cap_pos: "ok s \<Longrightarrow> 1 \<le> cap s"
begin

lemma leave_bound:
  assumes "ok s" "0 < busy s" "leave s = (got, s')" "busy s \<le> b" "cap s \<le> b"
  shows "busy s' \<le> b"
  using leave_law[OF assms(1-3)] assms(4,5) by auto

text \<open>Once busy clients keep leaving, everybody who waits gets in: the total of busy and
  waiting clients drops with every leave, and the gate never rests with a queue.\<close>

lemma leave_progress:
  assumes "ok s" "0 < busy s" "leave s = (got, s')"
  shows "busy s' + int (length (queue s')) = busy s + int (length (queue s)) - 1"
proof -
  from leave_law[OF assms] have "queue s = got @ queue s'" "busy s' = busy s - 1 + int (length got)"
    by blast+
  then show ?thesis by simp
qed

lemma waiting_implies_busy: "\<lbrakk>ok s; queue s \<noteq> []\<rbrakk> \<Longrightarrow> 0 < busy s"
  using no_waste cap_pos by fastforce

primrec leave_n :: "nat \<Rightarrow> 's \<Rightarrow> 's" where
  "leave_n 0 s = s"
| "leave_n (Suc n) s = (if 0 < busy s then leave_n n (snd (leave s)) else s)"

lemma drain:
  assumes "ok s" "0 \<le> busy s" "nat (busy s + int (length (queue s))) \<le> n"
  shows "queue (leave_n n s) = [] \<and> busy (leave_n n s) = 0"
  using assms
proof (induction n arbitrary: s)
  case 0
  then have "busy s = 0 \<and> queue s = []" by (cases "queue s") auto
  then show ?case by simp
next
  case (Suc n)
  show ?case
  proof (cases "0 < busy s")
    case True
    obtain got s' where l: "leave s = (got, s')" by (cases "leave s") auto
    have "ok s'" "0 \<le> busy s'" using leave_law[OF Suc.prems(1) True l] True by auto
    moreover have "nat (busy s' + int (length (queue s'))) \<le> n"
      using leave_progress[OF Suc.prems(1) True l] Suc.prems(3) by simp
    ultimately show ?thesis using Suc.IH[of s'] True l by simp
  next
    case False
    then have "queue s = []" using waiting_implies_busy Suc.prems(1) by blast
    with False Suc.prems(2) show ?thesis by simp
  qed
qed

end

definition sem_ok :: "'w sem \<Rightarrow> bool" where
  "sem_ok s \<longleftrightarrow> 1 \<le> sem_max s \<and> (sem_waiters s = [] \<or> sem_max s \<le> sem_active s)"

interpretation probes: gate sem_ok sem_max sem_active sem_waiters run_enter run_leave
proof
  fix s s' :: "'w sem" and w got
  assume ok: "sem_ok s"
  show "run_enter w s = (True, s') \<Longrightarrow> sem_ok s' \<and> sem_max s' = sem_max s \<and> sem_active s' = sem_active s + 1
      \<and> sem_waiters s' = sem_waiters s \<and> sem_active s < sem_max s"
    using ok by (auto simp: run_enter_def sem_ok_def split: if_splits)
  show "run_enter w s = (False, s') \<Longrightarrow> sem_ok s' \<and> sem_max s' = sem_max s \<and> sem_active s' = sem_active s
      \<and> sem_waiters s' = sem_waiters s @ [w]"
    using ok by (auto simp: run_enter_def sem_ok_def split: if_splits)
  show "\<lbrakk>0 < sem_active s; run_leave s = (got, s')\<rbrakk> \<Longrightarrow>
      sem_ok s' \<and> sem_max s' = sem_max s \<and> sem_active s' = sem_active s - 1 + int (length got)
      \<and> sem_waiters s = got @ sem_waiters s' \<and> (got = [] \<or> sem_active s' \<le> sem_max s')"
    using ok pump_spec[of "s\<lparr>sem_active := sem_active s - 1\<rparr>" got s'] by (auto simp: run_leave_def sem_ok_def)
  show "sem_waiters s \<noteq> [] \<Longrightarrow> sem_max s \<le> sem_active s" using ok by (simp add: sem_ok_def)
  show "1 \<le> sem_max s" using ok by (simp add: sem_ok_def)
qed


section \<open>Histories\<close>

text \<open>A history of the semaphore: the calls inside fn, the calls that have entered and
  left so far, and the largest capacity there has been.\<close>

record 'w sem_run =
  sr_sem :: "'w sem"
  sr_running :: "'w list"
  sr_entered :: "'w list"
  sr_left :: "'w list"
  sr_peak :: int

definition run_start :: "int \<Rightarrow> 'w sem_run" where
  "run_start n = \<lparr>sr_sem = sem_new n, sr_running = [], sr_entered = [], sr_left = [], sr_peak = n\<rparr>"

inductive sem_step :: "'w sem_run \<Rightarrow> 'w sem_run \<Rightarrow> bool" where
  enter_now: "run_enter w (sr_sem r) = (True, s) \<Longrightarrow>
    sem_step r (r\<lparr>sr_sem := s, sr_running := sr_running r @ [w], sr_entered := sr_entered r @ [w]\<rparr>)"
| enter_later: "run_enter w (sr_sem r) = (False, s) \<Longrightarrow>
    sem_step r (r\<lparr>sr_sem := s, sr_entered := sr_entered r @ [w]\<rparr>)"
| leave_one: "\<lbrakk>w \<in> set (sr_running r); run_leave (sr_sem r) = (got, s)\<rbrakk> \<Longrightarrow>
    sem_step r (r\<lparr>sr_sem := s, sr_running := remove1 w (sr_running r) @ got, sr_left := sr_left r @ [w]\<rparr>)"
| resize: "setMax n (sr_sem r) = (got, s) \<Longrightarrow>
    sem_step r (r\<lparr>sr_sem := s, sr_running := sr_running r @ got, sr_peak := max (sr_peak r) (sem_max s)\<rparr>)"

definition sem_inv :: "'w sem_run \<Rightarrow> bool" where
  "sem_inv r \<longleftrightarrow> sem_ok (sr_sem r) \<and> sem_active (sr_sem r) = int (length (sr_running r))
     \<and> sem_max (sr_sem r) \<le> sr_peak r \<and> sem_active (sr_sem r) \<le> sr_peak r
     \<and> mset (sr_entered r) = mset (sr_left r) + mset (sr_running r) + mset (sem_waiters (sr_sem r))"

lemma sem_step_inv:
  assumes "sem_step r r'" "sem_inv r" shows "sem_inv r'"
  using assms
proof (induction rule: sem_step.induct)
  case (enter_now w r s)
  with probes.enter_in[OF _ enter_now(1)] show ?case by (auto simp: sem_inv_def)
next
  case (enter_later w r s)
  with probes.enter_wait[OF _ enter_later(1)] show ?case by (auto simp: sem_inv_def)
next
  case (leave_one w r got s)
  then have ok: "sem_ok (sr_sem r)" and pos: "0 < sem_active (sr_sem r)"
    by (auto simp: sem_inv_def intro: length_pos_if_in_set)
  define rest where "rest = remove1 w (sr_running r)"
  have ms: "mset (sr_running r) = add_mset w (mset rest)"
    using leave_one(1) by (simp add: rest_def)
  have "size (mset (sr_running r)) = Suc (size (mset rest))" by (simp only: ms size_add_mset)
  then have len: "int (length (sr_running r)) = int (length rest) + 1" by simp
  from probes.leave_law[OF ok pos leave_one(2)]
  have laws: "sem_ok s" "sem_max s = sem_max (sr_sem r)"
    "sem_active s = sem_active (sr_sem r) - 1 + int (length got)"
    "sem_waiters (sr_sem r) = got @ sem_waiters s" "got = [] \<or> sem_active s \<le> sem_max s" by auto
  have "mset (sr_entered r) = mset (sr_left r) + add_mset w (mset rest) + mset (got @ sem_waiters s)"
    using leave_one(3) laws(4) ms by (simp add: sem_inv_def)
  moreover have "sem_active s = int (length (rest @ got))" "sem_active s \<le> sr_peak r"
    "sem_max s \<le> sr_peak r"
    using laws leave_one(3) len by (auto simp: sem_inv_def)
  ultimately show ?case using laws(1) by (simp add: sem_inv_def rest_def[symmetric])
next
  case (resize n r got s)
  from pump_spec[OF resize(1)[unfolded setMax_def]] resize(2) show ?case
    by (auto simp: sem_inv_def sem_ok_def)
qed

lemma run_start_inv: "1 \<le> n \<Longrightarrow> sem_inv (run_start n)"
  by (simp add: sem_inv_def run_start_def sem_new_def sem_ok_def)

text \<open>C6 In every history of the probe semaphore created with at least one slot, under any
  interleaving of calls, completions and capacity changes: the counter active equals the
  number of calls inside fn, it never exceeds the largest capacity configured so far, no
  call waits while a slot is free, and no call is lost or duplicated (every call that
  entered is running, waiting or done).\<close>

theorem semaphore_safe:
  assumes "sem_step\<^sup>*\<^sup>* (run_start n) r" "1 \<le> n"
  shows "sem_active (sr_sem r) = int (length (sr_running r))
    \<and> sem_active (sr_sem r) \<le> sr_peak r
    \<and> \<not> (sem_waiters (sr_sem r) \<noteq> [] \<and> sem_active (sr_sem r) < sem_max (sr_sem r))
    \<and> mset (sr_entered r) = mset (sr_left r) + mset (sr_running r) + mset (sem_waiters (sr_sem r))"
proof -
  from assms have "sem_inv r"
    by (induction rule: rtranclp_induct) (auto intro: run_start_inv sem_step_inv)
  then show ?thesis by (auto simp: sem_inv_def sem_ok_def)
qed

theorem semaphore_safe_witness:
  "sem_active (sr_sem (run_start 1 :: nat sem_run)) \<le> sr_peak (run_start 1 :: nat sem_run)
   \<and> (\<exists>r. sem_step (run_start 1) r \<and> sem_active (sr_sem r) = 1 \<and> sr_running r = [7 :: nat])"
proof -
  let ?r = "(run_start 1)\<lparr>sr_sem := \<lparr>sem_max = 1, sem_active = 1, sem_waiters = []\<rparr>,
      sr_running := sr_running (run_start 1) @ [7 :: nat], sr_entered := sr_entered (run_start 1) @ [7]\<rparr>"
  have st: "sem_step (run_start 1) ?r"
    by (rule enter_now) (simp add: run_enter_def run_start_def sem_new_def)
  with semaphore_safe[of 1 ?r] semaphore_safe[of 1 "run_start 1 :: nat sem_run"]
  show ?thesis by (auto intro!: exI[of _ ?r] simp: run_start_def)
qed

text \<open>No deadlock: from any state a history of the semaphore can reach, if the calls
  inside fn finish one after the other, then after as many completions as there are
  calls running or waiting nobody waits and nobody runs: every queued probe has got its
  turn.\<close>

theorem semaphore_drains:
  assumes "sem_step\<^sup>*\<^sup>* (run_start n) r" "1 \<le> n"
    and "k = length (sr_running r) + length (sem_waiters (sr_sem r))"
  shows "sem_waiters (probes.leave_n k (sr_sem r)) = [] \<and> sem_active (probes.leave_n k (sr_sem r)) = 0"
proof -
  from assms(1,2) have "sem_inv r"
    by (induction rule: rtranclp_induct) (auto intro: run_start_inv sem_step_inv)
  then show ?thesis using assms(3) by (intro probes.drain) (auto simp: sem_inv_def)
qed

theorem semaphore_drains_witness:
  "sem_active (probes.leave_n 1 \<lparr>sem_max = 1, sem_active = 1, sem_waiters = [] :: nat list\<rparr>) = 0"
proof -
  let ?r = "(run_start 1)\<lparr>sr_sem := \<lparr>sem_max = 1, sem_active = 1, sem_waiters = []\<rparr>,
      sr_running := sr_running (run_start 1) @ [7 :: nat], sr_entered := sr_entered (run_start 1) @ [7]\<rparr>"
  have "sem_step (run_start 1) ?r"
    by (rule enter_now) (simp add: run_enter_def run_start_def sem_new_def)
  then have "sem_step\<^sup>*\<^sup>* (run_start 1) ?r" by (rule r_into_rtranclp)
  from semaphore_drains[OF this, of 1] show ?thesis by (simp add: run_start_def)
qed

end
