(* ===== verification/World.thy ===== *)
theory World
  imports Tokens Semaphore
begin

text \<open>
  The memory of the server process beside the database: the module-level Maps and
  caches of the services, as one record.  A JavaScript Map is the list of its entries in
  insertion order.
\<close>

section \<open>JavaScript Maps\<close>

type_synonym ('k, 'v) jsmap = "('k \<times> 'v) list"

definition map_get :: "'k \<Rightarrow> ('k, 'v) jsmap \<Rightarrow> 'v option" where
  "map_get k m = map_of m k"

fun map_put :: "'k \<Rightarrow> 'v \<Rightarrow> ('k, 'v) jsmap \<Rightarrow> ('k, 'v) jsmap" where
  "map_put k v [] = [(k, v)]"
| "map_put k v ((k', v') # m) = (if k = k' then (k, v) # m else (k', v') # map_put k v m)"

definition map_del :: "'k \<Rightarrow> ('k, 'v) jsmap \<Rightarrow> ('k, 'v) jsmap" where
  "map_del k m = filter (\<lambda>e. fst e \<noteq> k) m"

definition map_ok :: "('k, 'v) jsmap \<Rightarrow> bool" where
  "map_ok m \<longleftrightarrow> distinct (map fst m)"

lemma map_get_put: "map_get k (map_put k' v m) = (if k = k' then Some v else map_get k m)"
  by (induction k' v m rule: map_put.induct) (auto simp: map_get_def)

lemma map_get_del: "map_get k (map_del k' m) = (if k = k' then None else map_get k m)"
  by (induction m) (auto simp: map_get_def map_del_def)

lemma map_get_Cons: "map_get k ((k', v) # m) = (if k = k' then Some v else map_get k m)"
  by (simp add: map_get_def)

lemma map_get_Nil [simp]: "map_get k [] = None"
  by (simp add: map_get_def)

lemma map_put_keys: "fst ` set (map_put k v m) = insert k (fst ` set m)"
  by (induction k v m rule: map_put.induct) auto

lemma map_ok_put: "map_ok m \<Longrightarrow> map_ok (map_put k v m)"
proof (induction k v m rule: map_put.induct)
  case (2 k v k' v' m)
  have "fst ` set (map_put k v m) = insert k (fst ` set m)" by (rule map_put_keys)
  with 2 show ?case by (auto simp: map_ok_def)
qed (simp add: map_ok_def)

lemma map_ok_del: "map_ok m \<Longrightarrow> map_ok (map_del k m)"
  by (simp add: map_ok_def map_del_def distinct_map_filter)

lemma map_get_Some_in: "map_get k m = Some v \<Longrightarrow> (k, v) \<in> set m"
  by (simp add: map_get_def map_of_SomeD)

lemma map_get_in: "map_ok m \<Longrightarrow> (k, v) \<in> set m \<Longrightarrow> map_get k m = Some v"
  by (simp add: map_get_def map_ok_def)

lemma map_get_None: "map_get k m = None \<longleftrightarrow> k \<notin> fst ` set m"
  by (simp add: map_get_def map_of_eq_None_iff)


section \<open>The world\<close>

record code_entry =
  ce_code :: string
  ce_expiresAt :: int
  ce_attempts :: int

record media_node =
  nd_nodeId :: string
  nd_socketId :: string
  nd_identifier :: string
  nd_publicOrigin :: string
  nd_publicRtmpPort :: int
  nd_publicProbeUdpPort :: int
  nd_publicSrsUdpPort :: int
  nd_hostname :: string
  nd_version :: string
  nd_connectedAt :: int
  nd_activeStreams :: int
  nd_srsFlvBase :: string

text \<open>An entry of the Map active of stream-lifecycle.ts is shared with the monitor loop
  of its session: the objects live in session_objs under their session id, the Map holds
  the ids.\<close>

record active_session =
  sn_sessionId :: int
  sn_eventId :: "int option"
  sn_streamName :: string
  sn_app :: string
  sn_vhost :: string
  sn_clientId :: string
  sn_startedAtMs :: int
  sn_active :: bool

record handle =
  hd_tmpPath :: string
  hd_startedAt :: int
  hd_compliant :: bool
  hd_width :: "int option"
  hd_height :: "int option"
  hd_fps :: "rat option"

record world = core +
  cfg_cache :: "app_config option"
  mail_cache :: "mail_config option"
  codes :: "(string, code_entry) jsmap"
  probe_sem :: "int sem"
  nodes :: "(string, media_node) jsmap"
  socketToNode :: "(string, string) jsmap"
  session_objs :: "(int, active_session) jsmap"
  active_map :: "(string, int) jsmap"
  rec_handles :: "(string, handle) jsmap"
  files :: "(string, int) jsmap"

lemma world_more_frame [simp, frame]:
  "cfg_cache (audit l c m v w) = cfg_cache w" "mail_cache (audit l c m v w) = mail_cache w"
  "codes (audit l c m v w) = codes w" "probe_sem (audit l c m v w) = probe_sem w"
  "nodes (audit l c m v w) = nodes w" "socketToNode (audit l c m v w) = socketToNode w"
  "session_objs (audit l c m v w) = session_objs w" "active_map (audit l c m v w) = active_map w"
  "rec_handles (audit l c m v w) = rec_handles w" "files (audit l c m v w) = files w"
  "cfg_cache (emit e w) = cfg_cache w" "mail_cache (emit e w) = mail_cache w"
  "codes (emit e w) = codes w" "probe_sem (emit e w) = probe_sem w"
  "nodes (emit e w) = nodes w" "socketToNode (emit e w) = socketToNode w"
  "session_objs (emit e w) = session_objs w" "active_map (emit e w) = active_map w"
  "rec_handles (emit e w) = rec_handles w" "files (emit e w) = files w"
  by (simp_all add: audit_def emit_def AuditLogRepository_insert_def Let_def case_prod_unfold)

text \<open>The world right after start-up, on an empty database.\<close>

definition world_start :: world where
  "world_start = core.extend demo_core (world.fields None None [] (sem_new 8) [] [] [] [] [] [])"

lemma world_start_db [simp]:
  "clock world_start = 0" "t_users world_start = tbl_empty" "t_events world_start = tbl_empty"
  "t_streamBans world_start = tbl_empty" "t_aliases world_start = []" "t_students world_start = tbl_empty"
  "t_enrollments world_start = tbl_empty" "t_streamKeys world_start = tbl_empty"
  "t_sessions world_start = tbl_empty" "t_recordings world_start = tbl_empty"
  "t_audit world_start = tbl_empty" "t_groups world_start = tbl_empty" "t_userGroups world_start = []"
  "t_eventGroups world_start = []" "t_invites world_start = tbl_empty" "t_appConfig world_start = []"
  "t_nodeSettings world_start = []" "t_nodeLatencies world_start = tbl_empty" "bus world_start = []"
  "cfg_cache world_start = None" "mail_cache world_start = None" "codes world_start = []"
  "nodes world_start = []" "socketToNode world_start = []" "session_objs world_start = []"
  "active_map world_start = []" "rec_handles world_start = []" "files world_start = []"
  "probe_sem world_start = sem_new 8" "rng_pos world_start = 0"
  by (simp_all add: world_start_def demo_core_def core.defs world.defs db.defs db_empty_def)

end
