(* ===== verification/Config.thy ===== *)
theory Config
  imports World
begin

text \<open>
  The configuration services: the read-through caches and hot reload of
  utils/config-store.ts, services/config.ts and utils/mail-config.ts, the
  registration rules of utils/registration.ts.
\<close>

section \<open>config-store\<close>

text \<open>JavaScript truthiness of a JSON value.\<close>

definition truthy :: "json \<Rightarrow> bool" where
  "truthy j = (j \<notin> {JNull, JBool False, JNum 0, JStr []})"

text \<open>The rename of limits.maxBitrateKbps.  The operator in throws on a truthy primitive,
  which getConfig catches: None.\<close>

definition migrateLegacyLimits :: "json \<Rightarrow> json option" where
  "migrateLegacyLimits raw = (case raw of
     JObj kvs \<Rightarrow> (case map_get ''limits'' kvs of
        None \<Rightarrow> Some raw
      | Some (JObj ls) \<Rightarrow>
          (case (map_get ''maxBitrateKbps'' ls, map_get ''maxVideoBitrateKbps'' ls) of
             (Some v, None) \<Rightarrow> Some (JObj (map_put ''limits''
                (JObj (map_del ''maxBitrateKbps'' (map_put ''maxVideoBitrateKbps'' v ls))) kvs))
           | _ \<Rightarrow> Some raw)
      | Some (JArr js) \<Rightarrow> Some raw
      | Some l \<Rightarrow> if truthy l then None else Some raw)
   | _ \<Rightarrow> Some raw)"

definition load_config :: "'z db_scheme \<Rightarrow> app_config" where
  "load_config d = (case AppConfigRepository_find d of
     None \<Rightarrow> default_config
   | Some row \<Rightarrow> orDefault (do {
       raw \<leftarrow> json_parse (ac_value row);
       j \<leftarrow> migrateLegacyLimits raw;
       appConfigSchema j }) default_config)"

definition getConfig :: "'z world_scheme \<Rightarrow> app_config \<times> 'z world_scheme" where
  "getConfig w = (case cfg_cache w of
     Some c \<Rightarrow> (c, w)
   | None \<Rightarrow> (let c = load_config w in (c, w\<lparr>cfg_cache := Some c\<rparr>)))"

definition invalidateConfig :: "'z world_scheme \<Rightarrow> 'z world_scheme" where
  "invalidateConfig w = w\<lparr>cfg_cache := None\<rparr>"

abbreviation config_of :: "'z world_scheme \<Rightarrow> app_config" where
  "config_of w \<equiv> fst (getConfig w)"

text \<open>Limits in force for an event: the override wins where it is set.  The column is
  written by createEvent and updateEvent only, after limitsOverrideSchema, or by an older
  version under the name maxBitrateKbps; other JSON in it counts as nothing.\<close>

definition num_field :: "string \<Rightarrow> json \<Rightarrow> rat option" where
  "num_field k j = (case j of JObj kvs \<Rightarrow>
     (case map_get k kvs of Some (JNum r) \<Rightarrow> Some r | _ \<Rightarrow> None) | _ \<Rightarrow> None)"

definition limits_merge :: "json \<Rightarrow> limits \<Rightarrow> limits" where
  "limits_merge j g = \<lparr>
     maxWidth = orDefault (map_option floor (num_field ''maxWidth'' j)) (maxWidth g),
     maxHeight = orDefault (map_option floor (num_field ''maxHeight'' j)) (maxHeight g),
     maxFps = orDefault (num_field ''maxFps'' j) (maxFps g),
     maxVideoBitrateKbps = orDefault (map_option floor
        (orElse (num_field ''maxVideoBitrateKbps'' j) (num_field ''maxBitrateKbps'' j)))
        (maxVideoBitrateKbps g),
     maxAudioBitrateKbps = orDefault (map_option floor (num_field ''maxAudioBitrateKbps'' j))
        (maxAudioBitrateKbps g)\<rparr>"

definition limits_for :: "app_config \<Rightarrow> event_row option \<Rightarrow> limits" where
  "limits_for c ev = (case Option.bind ev ev_limitsOverride of
     None \<Rightarrow> c_limits c
   | Some t \<Rightarrow> (case json_parse t of None \<Rightarrow> c_limits c | Some j \<Rightarrow> limits_merge j (c_limits c)))"

definition getLimitsFor :: "event_row option \<Rightarrow> 'z world_scheme \<Rightarrow> limits \<times> 'z world_scheme" where
  "getLimitsFor ev w = (let (c, w1) = getConfig w in (limits_for c ev, w1))"


section \<open>Hot reload\<close>

function deepMerge :: "json option \<Rightarrow> json \<Rightarrow> json"
  and merge_fields :: "(string, json) jsmap \<Rightarrow> (string, json) jsmap \<Rightarrow> (string, json) jsmap \<Rightarrow> (string, json) jsmap"
where
  "deepMerge base patch =
     (case (base, patch) of (Some (JObj b), JObj p) \<Rightarrow> JObj (merge_fields b b p) | _ \<Rightarrow> patch)"
| "merge_fields b out [] = out"
| "merge_fields b out ((k, v) # p) = merge_fields b (map_put k (deepMerge (map_get k b) v) out) p"
  by pat_completeness auto
termination
  by (relation "measure (\<lambda>x. case x of Inl (b, p) \<Rightarrow> size p | Inr (b, out, p) \<Rightarrow> size_list (size_prod (\<lambda>_. 0) size) p)")
     (auto split: json.splits)

declare deepMerge.simps [simp del]

definition object_keys :: "json \<Rightarrow> string list" where
  "object_keys j = (case j of JObj kvs \<Rightarrow> map fst kvs | _ \<Rightarrow> [])"

definition updateConfig :: "json \<Rightarrow> 'z world_scheme \<Rightarrow> (app_config, 'z world_scheme) outcome" where
  "updateConfig body w =
     (let patch = (if body = JNull then JObj [] else body);
          (current, w1) = getConfig w
      in case appConfigSchema (deepMerge (Some (app_config_json current)) patch) of
           None \<Rightarrow> (Inl (HttpError 400 ''invalid config''), w1)
         | Some nxt \<Rightarrow>
             (let w2 = AppConfigRepository_upsert (JText (app_config_json nxt)) w1;
                  w3 = invalidateConfig w2;
                  w4 = w3\<lparr>probe_sem := snd (setMax (of_int (probeMax (c_concurrency nxt))) (probe_sem w3))\<rparr>;
                  w5 = emit (ConfigChanged nxt) w4;
                  w6 = audit LInfo CConfig ''config updated''
                         (no_opts\<lparr>ai_detail := Some (JObj [(''changedKeys'', json_strings (object_keys patch))])\<rparr>) w5
              in (Inr nxt, w6)))"

lemma load_config_ok: "config_ok (load_config d)"
  by (auto simp: load_config_def orDefault_def default_config_ok bind_Some_iff dest: appConfigSchema_ok
      split: option.splits)

definition cache_ok :: "'z world_scheme \<Rightarrow> bool" where
  "cache_ok w \<longleftrightarrow> (\<forall>c. cfg_cache w = Some c \<longrightarrow> config_ok c)"

lemma getConfig_ok: "cache_ok w \<Longrightarrow> config_ok (config_of w)"
  by (auto simp: getConfig_def cache_ok_def load_config_ok Let_def split: option.splits)

lemma find_upsertKey:
  "AppConfigRepository_findKey k (AppConfigRepository_upsertKey k v d)
     = Some (case AppConfigRepository_findKey k d of
               None \<Rightarrow> \<lparr>ac_key = k, ac_value = v, ac_updatedAt = db_now d\<rparr>
             | Some r \<Rightarrow> r\<lparr>ac_value := v, ac_updatedAt := db_now d\<rparr>)"
proof (cases "AppConfigRepository_findKey k d")
  case None
  then show ?thesis
    by (simp add: AppConfigRepository_findKey_def AppConfigRepository_upsertKey_def find_append)
next
  case (Some r)
  have "find (\<lambda>r. ac_key r = k) (map (\<lambda>r. if ac_key r = k then r\<lparr>ac_value := v, ac_updatedAt := n\<rparr> else r) rs)
      = map_option (\<lambda>r. r\<lparr>ac_value := v, ac_updatedAt := n\<rparr>) (find (\<lambda>r. ac_key r = k) rs)" for rs :: "app_config_row list" and n
    by (induction rs) auto
  with Some show ?thesis
    by (simp add: AppConfigRepository_findKey_def AppConfigRepository_upsertKey_def)
qed

lemma find_upsertKey_other:
  "k' \<noteq> k \<Longrightarrow> AppConfigRepository_findKey k' (AppConfigRepository_upsertKey k v d) = AppConfigRepository_findKey k' d"
proof -
  assume "k' \<noteq> k"
  then have "find (\<lambda>r. ac_key r = k') (map (\<lambda>r. if ac_key r = k then r\<lparr>ac_value := v, ac_updatedAt := n\<rparr> else r) rs)
      = find (\<lambda>r. ac_key r = k') rs" for rs :: "app_config_row list" and n by (induction rs) auto
  with \<open>k' \<noteq> k\<close> show ?thesis
    by (simp add: AppConfigRepository_findKey_def AppConfigRepository_upsertKey_def find_append split: option.splits)
qed

lemma find_key_audit [simp]:
  "AppConfigRepository_findKey k (audit l c m v w) = AppConfigRepository_findKey k w"
  "AppConfigRepository_findKey k (emit e w) = AppConfigRepository_findKey k w"
  by (simp_all add: AppConfigRepository_findKey_def)

lemma migrate_stored: "migrateLegacyLimits (app_config_json c) = Some (app_config_json c)"
  by (simp add: migrateLegacyLimits_def app_config_json_def limits_json_def map_get_def)

text \<open>Hot reload: a patch that updateConfig accepts is persisted so that the next
  getConfig, which finds the cache dropped and parses the stored row, returns exactly the
  configuration updateConfig returned; it lies within the bounds of the schema, the
  probe semaphore has its new capacity, and the clients were told.\<close>

theorem updateConfig_reload:
  assumes "updateConfig body w = (Inr c, w')"
  shows "config_of w' = c \<and> config_ok c
    \<and> sem_max (probe_sem w') = probeMax (c_concurrency c) \<and> ConfigChanged c \<in> set (bus w')"
proof -
  define patch where "patch = (if body = JNull then JObj [] else body)"
  define w1 where "w1 = snd (getConfig w)"
  have parse: "appConfigSchema (deepMerge (Some (app_config_json (config_of w))) patch) = Some c"
    using assms by (auto simp: updateConfig_def Let_def case_prod_unfold patch_def split: option.splits)
  define w5 where "w5 = emit (ConfigChanged c)
      ((invalidateConfig (AppConfigRepository_upsert (JText (app_config_json c)) w1))
        \<lparr>probe_sem := snd (setMax (of_int (probeMax (c_concurrency c)))
            (probe_sem (invalidateConfig (AppConfigRepository_upsert (JText (app_config_json c)) w1))))\<rparr>)"
  obtain d where w': "w' = audit LInfo CConfig ''config updated'' d w5"
    using assms parse by (auto simp: updateConfig_def Let_def case_prod_unfold patch_def w5_def w1_def)
  have okc: "config_ok c" by (rule appConfigSchema_ok[OF parse])
  have "AppConfigRepository_find w' = AppConfigRepository_find (AppConfigRepository_upsert (JText (app_config_json c)) w1)"
    by (simp add: w' w5_def AppConfigRepository_find_def invalidateConfig_def AppConfigRepository_findKey_def)
  then obtain row where "AppConfigRepository_find w' = Some row" "ac_value row = JText (app_config_json c)"
    by (auto simp: AppConfigRepository_find_def AppConfigRepository_upsert_def find_upsertKey split: option.splits)
  then have "load_config w' = c"
    by (simp add: load_config_def migrate_stored config_roundtrip[OF okc])
  moreover have "cfg_cache w' = None" by (simp add: w' w5_def invalidateConfig_def)
  ultimately have "config_of w' = c" by (simp add: getConfig_def Let_def)
  moreover have "sem_max (probe_sem w') = max 1 (probeMax (c_concurrency c))"
    by (simp add: w' w5_def setMax_def pump_def Let_def case_prod_unfold)
  moreover have "1 \<le> probeMax (c_concurrency c)" using okc by (simp add: config_ok_def safe_from_def Let_def)
  moreover have "ConfigChanged c \<in> set (bus w')"
    using audit_bus[of LInfo CConfig "''config updated''" d w5] by (auto simp: w' w5_def)
  ultimately show ?thesis using okc by simp
qed

definition demo_patch :: "(string, json) jsmap" where
  "demo_patch = [(''limits'', JObj [(''maxFps'', JNum 60)])]"

lemma demo_merge:
  "appConfigSchema (deepMerge (Some (app_config_json default_config)) (JObj demo_patch))
     = Some (default_config\<lparr>c_limits := (c_limits default_config)\<lparr>maxFps := 60\<rparr>\<rparr>)"
  by code_simp

lemma config_of_start: "config_of world_start = default_config"
  by (simp add: getConfig_def load_config_def AppConfigRepository_find_def AppConfigRepository_findKey_def Let_def)

lemma demo_update:
  "\<exists>w'. updateConfig (JObj demo_patch) world_start
     = (Inr (default_config\<lparr>c_limits := (c_limits default_config)\<lparr>maxFps := 60\<rparr>\<rparr>), w')"
  using demo_merge by (simp add: updateConfig_def Let_def case_prod_unfold config_of_start)

theorem updateConfig_reload_witness:
  "\<exists>w'. updateConfig (JObj demo_patch) world_start = (fst (updateConfig (JObj demo_patch) world_start), w')
     \<and> maxFps (c_limits (config_of w')) = 60"
proof -
  obtain w' where "updateConfig (JObj demo_patch) world_start
     = (Inr (default_config\<lparr>c_limits := (c_limits default_config)\<lparr>maxFps := 60\<rparr>\<rparr>), w')"
    using demo_update by blast
  with updateConfig_reload[OF this] show ?thesis by (intro exI[of _ w']) simp
qed

lemma merge_fields_get:
  "distinct (map fst p) \<Longrightarrow>
     map_get k (merge_fields b out p) =
       (case map_get k p of None \<Rightarrow> map_get k out | Some v \<Rightarrow> Some (deepMerge (map_get k b) v))"
proof (induction p arbitrary: out)
  case (Cons e p)
  obtain k' v where e: "e = (k', v)" by (cases e)
  have "map_get k' p = None" using Cons.prems e by (auto simp: map_get_None)
  with Cons e show ?case
    by (auto simp: map_get_put map_get_Cons split: option.splits)
qed simp

lemma section_kept:
  assumes "distinct (map fst p)" "map_get k p = None"
    "app_config_json c = JObj kvs"
  shows "deepMerge (Some (app_config_json c)) (JObj p) = JObj (merge_fields kvs kvs p)
     \<and> map_of (merge_fields kvs kvs p) k = map_of kvs k"
  using assms merge_fields_get[OF assms(1), of k kvs kvs]
  by (simp add: deepMerge.simps map_get_def)

text \<open>The sections of the configuration, by their keys.\<close>

definition same_section :: "string \<Rightarrow> app_config \<Rightarrow> app_config \<Rightarrow> bool" where
  "same_section k a b \<longleftrightarrow>
     (k = ''srs'' \<longrightarrow> c_srs a = c_srs b) \<and> (k = ''probe'' \<longrightarrow> c_probe a = c_probe b)
   \<and> (k = ''limits'' \<longrightarrow> c_limits a = c_limits b) \<and> (k = ''record'' \<longrightarrow> c_record a = c_record b)
   \<and> (k = ''concurrency'' \<longrightarrow> c_concurrency a = c_concurrency b)
   \<and> (k = ''registration'' \<longrightarrow> c_registration a = c_registration b)
   \<and> (k = ''dashboard'' \<longrightarrow> c_dashboard a = c_dashboard b)"

lemma schema_fields:
  assumes "appConfigSchema (JObj kvs) = Some c"
  shows "z_default kvs ''srs'' srsSchema (c_srs default_config) = Some (c_srs c)"
    "z_default kvs ''probe'' probeSchema (c_probe default_config) = Some (c_probe c)"
    "z_default kvs ''limits'' limitsSchema (c_limits default_config) = Some (c_limits c)"
    "z_default kvs ''record'' recordSchema (c_record default_config) = Some (c_record c)"
    "z_default kvs ''concurrency'' concurrencySchema (c_concurrency default_config) = Some (c_concurrency c)"
    "z_default kvs ''registration'' registrationSchema (c_registration default_config) = Some (c_registration c)"
    "z_default kvs ''dashboard'' dashboardSchema (c_dashboard default_config) = Some (c_dashboard c)"
  using assms by (auto simp: appConfigSchema_def bind_Some_iff)

lemma schema_section:
  assumes "appConfigSchema (JObj kvs) = Some c" "appConfigSchema (JObj kvs') = Some c'"
    "map_of kvs k = map_of kvs' k"
  shows "same_section k c c'"
proof -
  have eq: "z_default kvs k p d = z_default kvs' k p d" for p :: "json \<Rightarrow> 'b option" and d
    using assms(3) by (simp add: z_default_def)
  note f = schema_fields[OF assms(1)] schema_fields[OF assms(2)]
  show ?thesis unfolding same_section_def
  proof (intro conjI impI)
    assume "k = ''srs''" with eq[of srsSchema] f show "c_srs c = c_srs c'" by simp
  next assume "k = ''probe''" with eq[of probeSchema] f show "c_probe c = c_probe c'" by simp
  next assume "k = ''limits''" with eq[of limitsSchema] f show "c_limits c = c_limits c'" by simp
  next assume "k = ''record''" with eq[of recordSchema] f show "c_record c = c_record c'" by simp
  next assume "k = ''concurrency''"
    with eq[of concurrencySchema] f show "c_concurrency c = c_concurrency c'" by simp
  next assume "k = ''registration''"
    with eq[of registrationSchema] f show "c_registration c = c_registration c'" by simp
  next assume "k = ''dashboard''" with eq[of dashboardSchema] f show "c_dashboard c = c_dashboard c'" by simp
  qed
qed

text \<open>Partial updates: a patch object leaves every section of the configuration that it
  does not mention exactly as it was.\<close>

theorem updateConfig_partial:
  assumes "cache_ok w" "updateConfig (JObj p) w = (Inr c, w')"
    and "distinct (map fst p)" "k \<notin> fst ` set p"
  shows "same_section k c (config_of w)"
proof -
  let ?cur = "config_of w"
  obtain kvs where kvs: "app_config_json ?cur = JObj kvs" by (simp add: app_config_json_def)
  have parse: "appConfigSchema (deepMerge (Some (app_config_json ?cur)) (JObj p)) = Some c"
    using assms(2) by (auto simp: updateConfig_def Let_def case_prod_unfold split: option.splits)
  have none: "map_get k p = None" using assms(4) by (simp add: map_get_None)
  from section_kept[OF assms(3) none kvs]
  have m: "appConfigSchema (JObj (merge_fields kvs kvs p)) = Some c"
    "map_of (merge_fields kvs kvs p) k = map_of kvs k" using parse by simp_all
  have "appConfigSchema (JObj kvs) = Some ?cur"
    using config_roundtrip[OF getConfig_ok[OF assms(1)]] kvs by simp
  from schema_section[OF m(1) this m(2)] show ?thesis .
qed

theorem updateConfig_partial_witness:
  "\<exists>c w'. updateConfig (JObj demo_patch) world_start = (Inr c, w')
     \<and> same_section ''record'' c (config_of world_start)"
proof -
  obtain c w' where u: "updateConfig (JObj demo_patch) world_start = (Inr c, w')"
    using demo_update by blast
  have "cache_ok world_start" by (simp add: cache_ok_def)
  from updateConfig_partial[OF this u, of "''record''"] u show ?thesis by (auto simp: demo_patch_def)
qed


section \<open>mail-config\<close>

definition MAIL_KEY :: string where "MAIL_KEY = ''mail''"

definition load_mail :: "'z db_scheme \<Rightarrow> mail_config" where
  "load_mail d = (case AppConfigRepository_findKey MAIL_KEY d of
     None \<Rightarrow> default_mail
   | Some row \<Rightarrow> orDefault (Option.bind (json_parse (ac_value row)) mailConfigSchema) default_mail)"

definition getMailConfig :: "'z world_scheme \<Rightarrow> mail_config \<times> 'z world_scheme" where
  "getMailConfig w = (case mail_cache w of
     Some c \<Rightarrow> (c, w)
   | None \<Rightarrow> (let c = load_mail w in (c, w\<lparr>mail_cache := Some c\<rparr>)))"

definition isMailConfigured :: "'z world_scheme \<Rightarrow> bool \<times> 'z world_scheme" where
  "isMailConfigured w = (let (c, w1) = getMailConfig w in
     (if ml_provider c = Post then js_trim (ml_postUrl c) \<noteq> [] else js_trim (ml_host c) \<noteq> [], w1))"

text \<open>The spread of the stored configuration and the patch, with the secrets put back
  when the patch brings no value for them.\<close>

definition mail_field :: "string \<Rightarrow> (string, json) jsmap \<Rightarrow> json option" where
  "mail_field k p = map_get k p"

definition spread :: "(string, json) jsmap \<Rightarrow> (string, json) jsmap \<Rightarrow> (string, json) jsmap" where
  "spread a b = fold (\<lambda>(k, v) m. map_put k v m) b a"

definition keep_secret :: "string \<Rightarrow> string \<Rightarrow> (string, json) jsmap \<Rightarrow> (string, json) jsmap \<Rightarrow> (string, json) jsmap" where
  "keep_secret k old p merged =
     (case map_get k p of
        Some v \<Rightarrow> if truthy v then merged else map_put k (JStr old) merged
      | None \<Rightarrow> map_put k (JStr old) merged)"

definition mail_fields :: "mail_config \<Rightarrow> (string, json) jsmap" where
  "mail_fields c = (case mail_config_json c of JObj kvs \<Rightarrow> kvs | _ \<Rightarrow> [])"

definition saveMailConfig :: "(string, json) jsmap \<Rightarrow> 'z world_scheme \<Rightarrow> (mail_config, 'z world_scheme) outcome" where
  "saveMailConfig patch w =
     (let (current, w1) = getMailConfig w;
          merged = keep_secret ''postAuthToken'' (ml_postAuthToken current) patch
                    (keep_secret ''senderPassword'' (ml_senderPassword current) patch
                      (spread (mail_fields current) patch))
      in case mailConfigSchema (JObj merged) of
           None \<Rightarrow> (Inl (JsError ''ZodError''), w1)
         | Some nxt \<Rightarrow>
             (let w2 = AppConfigRepository_upsertKey MAIL_KEY (JText (mail_config_json nxt)) w1
              in (Inr nxt, w2\<lparr>mail_cache := None\<rparr>)))"

record mail_client =
  mc_provider :: mail_provider
  mc_host :: string
  mc_port :: int
  mc_useSsl :: bool
  mc_useTls :: bool
  mc_usePassword :: bool
  mc_senderEmail :: string
  mc_senderDisplay :: string
  mc_senderDomain :: string
  mc_hasPassword :: bool
  mc_maxLenRecipientEmail :: int
  mc_maxLenSubject :: int
  mc_maxLenBody :: int
  mc_postUrl :: string
  mc_postSchema :: post_schema
  mc_postFieldMap :: string
  mc_postSchemas :: string
  mc_hasPostAuthToken :: bool

definition mailConfigToClient :: "mail_config \<Rightarrow> mail_client" where
  "mailConfigToClient c = \<lparr>mc_provider = ml_provider c, mc_host = ml_host c, mc_port = ml_port c,
     mc_useSsl = ml_useSsl c, mc_useTls = ml_useTls c, mc_usePassword = ml_usePassword c,
     mc_senderEmail = ml_senderEmail c, mc_senderDisplay = ml_senderDisplay c,
     mc_senderDomain = ml_senderDomain c, mc_hasPassword = (length (ml_senderPassword c) > 0),
     mc_maxLenRecipientEmail = ml_maxLenRecipientEmail c, mc_maxLenSubject = ml_maxLenSubject c,
     mc_maxLenBody = ml_maxLenBody c, mc_postUrl = ml_postUrl c, mc_postSchema = ml_postSchema c,
     mc_postFieldMap = ml_postFieldMap c, mc_postSchemas = ml_postSchemas c,
     mc_hasPostAuthToken = (length (ml_postAuthToken c) > 0)\<rparr>"

lemma spread_get:
  "distinct (map fst b) \<Longrightarrow> map_get k (spread a b) = (case map_get k b of None \<Rightarrow> map_get k a | Some v \<Rightarrow> Some v)"
proof (induction b arbitrary: a)
  case (Cons e b)
  obtain k' v where e: "e = (k', v)" by (cases e)
  have "map_get k' b = None" using Cons.prems e by (auto simp: map_get_None)
  with Cons e show ?case by (auto simp: spread_def map_get_put map_get_Cons split: option.splits)
qed (simp add: spread_def)

lemma keep_secret_get:
  "map_get k' (keep_secret k old p m) =
     (if k' = k \<and> (case map_get k p of Some v \<Rightarrow> \<not> truthy v | None \<Rightarrow> True)
      then Some (JStr old) else map_get k' m)"
  by (auto simp: keep_secret_def map_get_put split: option.splits)

lemma mail_schema_secrets:
  assumes "mailConfigSchema (JObj kvs) = Some c"
  shows "z_default kvs ''senderPassword'' z_string [] = Some (ml_senderPassword c)"
    and "z_default kvs ''postAuthToken'' z_string [] = Some (ml_postAuthToken c)"
  using assms by (auto simp: mailConfigSchema_def bind_Some_iff)

lemma load_mail_ok: "mail_ok (load_mail d)"
  by (auto simp: load_mail_def orDefault_def default_mail_ok bind_Some_iff dest: mailConfigSchema_ok split: option.splits)

text \<open>The value a patch supplies for a secret, if it supplies one.\<close>

definition new_secret :: "string \<Rightarrow> (string, json) jsmap \<Rightarrow> string \<Rightarrow> string" where
  "new_secret k p old = (case map_get k p of Some (JStr s) \<Rightarrow> if s = [] then old else s | _ \<Rightarrow> old)"

text \<open>Saving the mail settings without re-entering a secret keeps it: the stored password
  and webhook token change only when the patch supplies a non-empty value, and the next
  read (through the dropped cache and the stored row) gives the saved settings.\<close>

theorem saveMailConfig_secrets:
  assumes "saveMailConfig p w = (Inr c, w')" "distinct (map fst p)"
  shows "ml_senderPassword c = new_secret ''senderPassword'' p (ml_senderPassword (fst (getMailConfig w)))
    \<and> ml_postAuthToken c = new_secret ''postAuthToken'' p (ml_postAuthToken (fst (getMailConfig w)))
    \<and> fst (getMailConfig w') = c"
proof -
  define cur where "cur = fst (getMailConfig w)"
  define kvs where "kvs = keep_secret ''postAuthToken'' (ml_postAuthToken cur) p
      (keep_secret ''senderPassword'' (ml_senderPassword cur) p (spread (mail_fields cur) p))"
  have parse: "mailConfigSchema (JObj kvs) = Some c"
    using assms(1) by (auto simp: saveMailConfig_def Let_def case_prod_unfold kvs_def cur_def split: option.splits)
  have get: "map_get ''senderPassword'' kvs = (case map_get ''senderPassword'' p of
       Some v \<Rightarrow> Some (if truthy v then v else JStr (ml_senderPassword cur)) | None \<Rightarrow> Some (JStr (ml_senderPassword cur)))"
    "map_get ''postAuthToken'' kvs = (case map_get ''postAuthToken'' p of
       Some v \<Rightarrow> Some (if truthy v then v else JStr (ml_postAuthToken cur)) | None \<Rightarrow> Some (JStr (ml_postAuthToken cur)))"
    by (auto simp: kvs_def keep_secret_get spread_get[OF assms(2)] split: option.splits)
  note secrets = mail_schema_secrets[OF parse, unfolded z_default_def map_get_def[symmetric]]
  have "ml_senderPassword c = new_secret ''senderPassword'' p (ml_senderPassword cur)"
    using secrets(1) get(1)
    by (auto simp: new_secret_def truthy_def z_string_def split: option.splits json.splits if_splits)
  moreover have "ml_postAuthToken c = new_secret ''postAuthToken'' p (ml_postAuthToken cur)"
    using secrets(2) get(2)
    by (auto simp: new_secret_def truthy_def z_string_def split: option.splits json.splits if_splits)
  moreover have "fst (getMailConfig w') = c"
  proof -
    have w': "w' = (AppConfigRepository_upsertKey MAIL_KEY (JText (mail_config_json c)) (snd (getMailConfig w)))\<lparr>mail_cache := None\<rparr>"
      using assms(1) parse by (auto simp: saveMailConfig_def Let_def case_prod_unfold kvs_def cur_def split: option.splits)
    have "AppConfigRepository_findKey MAIL_KEY w'
        = AppConfigRepository_findKey MAIL_KEY (AppConfigRepository_upsertKey MAIL_KEY (JText (mail_config_json c)) (snd (getMailConfig w)))"
      by (simp add: w' AppConfigRepository_findKey_def)
    then have "load_mail w' = c"
      using mail_roundtrip[OF mailConfigSchema_ok[OF parse]]
      by (auto simp: load_mail_def find_upsertKey split: option.splits)
    then show ?thesis by (simp add: getMailConfig_def w' Let_def)
  qed
  ultimately show ?thesis by (simp add: cur_def)
qed

theorem saveMailConfig_secrets_witness:
  "\<exists>c w'. saveMailConfig [(''senderPassword'', JStr ''pw''), (''postAuthToken'', JStr [])] world_start = (Inr c, w')
     \<and> ml_senderPassword c = ''pw'' \<and> ml_postAuthToken c = []"
proof -
  let ?p = "[(''senderPassword'', JStr ''pw''), (''postAuthToken'', JStr [])] :: (string, json) jsmap"
  have cur: "getMailConfig world_start = (default_mail, world_start\<lparr>mail_cache := Some default_mail\<rparr>)"
    by (simp add: getMailConfig_def load_mail_def AppConfigRepository_findKey_def Let_def)
  have "mailConfigSchema (JObj (keep_secret ''postAuthToken'' (ml_postAuthToken default_mail) ?p
      (keep_secret ''senderPassword'' (ml_senderPassword default_mail) ?p (spread (mail_fields default_mail) ?p)))) \<noteq> None"
    by code_simp
  then obtain c w' where s: "saveMailConfig ?p world_start = (Inr c, w')"
    by (auto simp: saveMailConfig_def cur Let_def)
  from saveMailConfig_secrets[OF s] s cur show ?thesis
    by (auto simp: new_secret_def map_get_def default_mail_def)
qed

text \<open>The settings shown to the admin client are independent of the secrets: two
  configurations that differ only in non-empty passwords and tokens look the same.\<close>

theorem mailConfigToClient_hides:
  "mailConfigToClient (c\<lparr>ml_senderPassword := a # p, ml_postAuthToken := b # t\<rparr>)
     = mailConfigToClient (c\<lparr>ml_senderPassword := a' # p', ml_postAuthToken := b' # t'\<rparr>)"
  by (simp add: mailConfigToClient_def)


section \<open>registration\<close>

definition EMAIL_RE :: "string \<Rightarrow> bool" where
  "EMAIL_RE s = (case js_split (CHR ''@'') s of
     [l, d] \<Rightarrow> l \<noteq> [] \<and> list_all (\<lambda>c. \<not> js_space c) s
        \<and> (\<exists>i\<in>set [1 ..< length d - 1]. d ! i = CHR ''.'')
   | _ \<Rightarrow> False)"

definition normalizeEmail :: "string \<Rightarrow> string" where
  "normalizeEmail e = js_lower (js_trim e)"

definition isDisallowedEmail :: "string \<Rightarrow> app_config \<Rightarrow> bool" where
  "isDisallowedEmail email c =
     (\<exists>p\<in>set (disallowedPatterns (c_registration c)). p \<noteq> [] \<and> js_includes (js_lower p) (js_lower email))"

definition emailMatchesWhitelist :: "externals \<Rightarrow> string \<Rightarrow> string list \<Rightarrow> bool" where
  "emailMatchesWhitelist x email ps = (if ps = [] then False else x_picomatch x (js_lower email) ps)"

definition passesWhitelist :: "externals \<Rightarrow> string \<Rightarrow> app_config \<Rightarrow> bool" where
  "passesWhitelist x email c = (let wl = emailWhitelist (c_registration c) in
     if \<not> wl_enabled wl then True else if wl_patterns wl = [] then True
     else emailMatchesWhitelist x email (wl_patterns wl))"

definition describeEmailRules :: "app_config \<Rightarrow> string" where
  "describeEmailRules c = (let wl = emailWhitelist (c_registration c) in
     js_join ''; '' (if wl_enabled wl \<and> wl_patterns wl \<noteq> []
       then [''allowed email patterns: '' @ js_join '', '' (wl_patterns wl)] else []))"


section \<open>Whatever is stored, what is read is typed\<close>

text \<open>The operations on the configuration, and everything else the server does to the database:
  a write of it leaves the caches alone, a restart clears them, and the stored rows may be
  anything.\<close>

inductive config_run :: "world \<Rightarrow> world \<Rightarrow> bool" for boot where
  config_boot: "config_run boot boot"
| config_read: "config_run boot w \<Longrightarrow> config_run boot (snd (getConfig w))"
| config_update: "config_run boot w \<Longrightarrow> config_run boot (snd (updateConfig body w))"
| mail_read: "config_run boot w \<Longrightarrow> config_run boot (snd (getMailConfig w))"
| mail_save: "config_run boot w \<Longrightarrow> config_run boot (snd (saveMailConfig patch w))"
| config_other: "config_run boot w \<Longrightarrow> cfg_cache w' = cfg_cache w \<Longrightarrow> mail_cache w' = mail_cache w \<Longrightarrow> config_run boot w'"
| config_restart: "config_run boot w \<Longrightarrow> config_run boot (w\<lparr>cfg_cache := None, mail_cache := None\<rparr>)"

definition caches_typed :: "'z world_scheme \<Rightarrow> bool" where
  "caches_typed w \<longleftrightarrow> cache_ok w \<and> (\<forall>c. mail_cache w = Some c \<longrightarrow> mail_ok c)"

lemma upsert_caches [simp]:
  "cfg_cache (AppConfigRepository_upsertKey k v w) = cfg_cache w" "mail_cache (AppConfigRepository_upsertKey k v w) = mail_cache w"
  by (simp_all add: AppConfigRepository_upsertKey_def split: option.split)

lemma getConfig_typed: "caches_typed w \<Longrightarrow> caches_typed (snd (getConfig w))"
  by (auto simp: getConfig_def caches_typed_def cache_ok_def load_config_ok Let_def split: option.split)

lemma getMailConfig_typed:
  "caches_typed w \<Longrightarrow> caches_typed (snd (getMailConfig w)) \<and> mail_ok (fst (getMailConfig w))"
  by (auto simp: getMailConfig_def caches_typed_def cache_ok_def load_mail_ok Let_def split: option.split)

lemma updateConfig_typed:
  assumes "caches_typed w" shows "caches_typed (snd (updateConfig body w))"
proof (cases "appConfigSchema (deepMerge (Some (app_config_json (config_of w))) (if body = JNull then JObj [] else body))")
  case None
  then show ?thesis using getConfig_typed [OF assms] by (simp add: updateConfig_def Let_def case_prod_unfold)
next
  case (Some c)
  then show ?thesis using getConfig_typed [OF assms]
    by (simp add: updateConfig_def Let_def case_prod_unfold caches_typed_def cache_ok_def invalidateConfig_def
      AppConfigRepository_upsert_def)
qed

lemma saveMailConfig_typed: "caches_typed w \<Longrightarrow> caches_typed (snd (saveMailConfig p w))"
  using getMailConfig_typed [of w]
  by (auto simp: saveMailConfig_def Let_def case_prod_unfold caches_typed_def cache_ok_def split: option.split)

lemma config_run_typed:
  assumes "config_run boot w" "caches_typed boot" shows "caches_typed w"
  using assms
proof (induction rule: config_run.induct)
  case config_boot then show ?case by simp
next
  case (config_read w) then show ?case by (intro getConfig_typed) blast
next
  case (config_update w body) then show ?case by (intro updateConfig_typed) blast
next
  case (mail_read w) then show ?case using getMailConfig_typed by blast
next
  case (mail_save w patch) then show ?case by (intro saveMailConfig_typed) blast
next
  case (config_other w w') then show ?case unfolding caches_typed_def cache_ok_def by metis
next
  case (config_restart w) show ?case by (simp add: caches_typed_def cache_ok_def)
qed

text \<open>C34 Whatever rows the configuration table holds, damaged ones included, and after every
  sequence of reads, accepted and refused updates and restarts, getConfig and getMailConfig return
  a configuration within every bound of its schema, so that validating it again returns it unchanged.\<close>

theorem config_always_typed:
  assumes "config_run boot w" "cfg_cache boot = None" "mail_cache boot = None"
  shows "appConfigSchema (app_config_json (config_of w)) = Some (config_of w)
    \<and> mailConfigSchema (mail_config_json (fst (getMailConfig w))) = Some (fst (getMailConfig w))
    \<and> config_ok (config_of w) \<and> mail_ok (fst (getMailConfig w))"
proof -
  have "caches_typed boot" using assms(2,3) by (simp add: caches_typed_def cache_ok_def)
  from config_run_typed [OF assms(1) this] have w: "caches_typed w" .
  then have "config_ok (config_of w)" by (simp add: caches_typed_def getConfig_ok)
  with getMailConfig_typed [OF w] show ?thesis using config_roundtrip mail_roundtrip by blast
qed

definition damaged :: world where
  "damaged = world_start\<lparr>t_appConfig := [\<lparr>ac_key = ''app_config'', ac_value = JText (JObj [(''limits'', JNum 3)]), ac_updatedAt = 0\<rparr>]\<rparr>"

theorem config_always_typed_witness:
  "appConfigSchema (app_config_json (config_of damaged)) = Some (config_of damaged)"
  using config_always_typed [of damaged damaged] by (simp add: config_boot damaged_def)

end
