(* ===== verification/AccessControl.thy ===== *)
theory AccessControl
  imports Config
begin

text \<open>
  services/access-control.ts: whether a publisher may stream.  The RTMP parameter is
  parsed by URLSearchParams; the credential is a stream key of the name, a publish token
  of an event or the shared publish key of an event.
\<close>

section \<open>URLSearchParams\<close>

fun percent_decode :: "string \<Rightarrow> string" where
  "percent_decode (a # b # c # s) =
     (if a = CHR ''%'' then
        (case (hex_value b, hex_value c) of
           (Some h, Some l) \<Rightarrow> char_of (16 * h + l) # percent_decode s
         | _ \<Rightarrow> a # percent_decode (b # c # s))
      else a # percent_decode (b # c # s))"
| "percent_decode (a # s) = a # percent_decode s"
| "percent_decode [] = []"

definition form_decode :: "string \<Rightarrow> string" where
  "form_decode s = percent_decode (map (\<lambda>c. if c = CHR ''+'' then CHR '' '' else c) s)"

definition url_pair :: "string \<Rightarrow> string \<times> string" where
  "url_pair s = (form_decode (takeWhile (\<lambda>c. c \<noteq> CHR ''='') s),
                 form_decode (tl (dropWhile (\<lambda>c. c \<noteq> CHR ''='') s)))"

definition url_params :: "string \<Rightarrow> (string \<times> string) list" where
  "url_params q =
     (let q' = (if starts_with ''?'' q then tl q else q)
      in map url_pair (filter (\<lambda>s. s \<noteq> []) (js_split (CHR ''&'') q')))"

definition parseToken :: "string \<Rightarrow> string option" where
  "parseToken param =
     (if param = [] then None
      else let q = (if starts_with ''?'' param then tl param else param)
           in map_of (url_params q) ''token'')"

text \<open>The characters that a publish token may have (PUBLISH_TOKEN_RE of services/events.ts).\<close>

definition token_char :: "char \<Rightarrow> bool" where
  "token_char c = (is_alnum c \<or> c = CHR ''.'' \<or> c = CHR ''_'' \<or> c = CHR ''~'' \<or> c = CHR ''-'')"

lemma token_char_plain:
  "token_char c \<Longrightarrow> c \<noteq> CHR ''&'' \<and> c \<noteq> CHR ''='' \<and> c \<noteq> CHR ''%'' \<and> c \<noteq> CHR ''+'' \<and> c \<noteq> CHR ''?''"
  by (auto simp: token_char_def is_alnum_def is_digit_def is_upper_def is_lower_def Let_def)

lemma percent_decode_plain: "CHR ''%'' \<notin> set s \<Longrightarrow> percent_decode s = s"
  by (induction s rule: percent_decode.induct) auto

lemma form_decode_plain: "\<forall>c\<in>set s. token_char c \<Longrightarrow> form_decode s = s"
proof -
  assume s: "\<forall>c\<in>set s. token_char c"
  then have "map (\<lambda>c. if c = CHR ''+'' then CHR '' '' else c) s = s"
    by (intro map_idI) (auto dest: token_char_plain)
  moreover have "CHR ''%'' \<notin> set s" using s token_char_plain by auto
  ultimately show ?thesis by (simp add: form_decode_def percent_decode_plain)
qed

text \<open>A token or key over the allowed alphabet (letters, digits, . _ ~ -) passes
  unchanged through the publish URL: parsing ?token=t gives t back.\<close>

lemma parse_token_plain:
  assumes "list_all token_char t"
  shows "parseToken (''?token='' @ t) = Some t"
proof -
  have t: "\<forall>c\<in>set t. token_char c" using assms by (simp add: list_all_iff)
  then have amp: "CHR ''&'' \<notin> set t" using token_char_plain by auto
  have "js_split (CHR ''&'') (''token='' @ t) = [''token='' @ t]"
    by (rule js_split_plain) (use amp in auto)
  moreover have "form_decode ''token'' = ''token''" by code_simp
  ultimately show ?thesis
    using t by (simp add: parseToken_def url_params_def Let_def url_pair_def form_decode_plain)
qed


section \<open>authorizePublish\<close>

datatype auth_result = Allow int int "string option" | Reject string

definition publishClosedReason :: "event_status option \<Rightarrow> string" where
  "publishClosedReason s = (case s of
     None \<Rightarrow> ''event closed'' | Some Draft \<Rightarrow> ''event not published yet''
   | Some Scheduled \<Rightarrow> ''event not started yet'' | Some Ended \<Rightarrow> ''event ended''
   | Some _ \<Rightarrow> ''event closed'')"

definition withinWindow :: "int \<Rightarrow> event_row \<Rightarrow> string option" where
  "withinWindow now e =
     (if (case ev_startsAt e of None \<Rightarrow> False | Some s \<Rightarrow> now < s) then Some ''event not started''
      else if (case ev_endsAt e of None \<Rightarrow> False | Some t \<Rightarrow> t < now) then Some ''event ended''
      else None)"

definition findEventByPublishToken :: "externals \<Rightarrow> string \<Rightarrow> 'z db_scheme \<Rightarrow> event_row option" where
  "findEventByPublishToken x token d =
     (if length token < 8 then None
      else find (\<lambda>e. case ev_publishTokenHash e of None \<Rightarrow> False
                     | Some h \<Rightarrow> h \<noteq> [] \<and> verifyToken x token h)
             (EventsRepository_findByPublishTokenPrefix (take 8 token) d))"

definition resolveStudentLabel :: "int option \<Rightarrow> 'z db_scheme \<Rightarrow> string option" where
  "resolveStudentLabel en d =
     (case en of None \<Rightarrow> None
      | Some i \<Rightarrow> if i = 0 then None
          else (case EnrollmentsRepository_findById i d of None \<Rightarrow> None
                | Some enr \<Rightarrow> map_option st_name (StudentsRepository_findById (en_studentId enr) d)))"

text \<open>The first key of the stream name that is not revoked and whose hash the token
  verifies.\<close>

definition matching_key :: "externals \<Rightarrow> string \<Rightarrow> stream_key_row list \<Rightarrow> stream_key_row option" where
  "matching_key x token keys = find (\<lambda>k. \<not> sk_revoked k \<and> verifyToken x token (sk_tokenHash k)) keys"

text \<open>Path 1: the key decides, whatever the event says.\<close>

definition authorize_key :: "stream_key_row \<Rightarrow> 'z db_scheme \<Rightarrow> auth_result \<times> 'z db_scheme" where
  "authorize_key k d =
     (case EventsRepository_findById (sk_eventId k) d of
        None \<Rightarrow> (Reject (publishClosedReason None), d)
      | Some e \<Rightarrow>
          if ev_status e \<noteq> Live then (Reject (publishClosedReason (Some (ev_status e))), d)
          else (case withinWindow (clock d) e of
                  Some r \<Rightarrow> (Reject r, d)
                | None \<Rightarrow> (Allow (ev_id e) (sk_id k) (resolveStudentLabel (sk_enrollmentId k) d),
                          StreamKeysRepository_touch (sk_id k) d)))"

text \<open>Path 2: the publish token of an event, else its publish key.\<close>

definition shared_event :: "externals \<Rightarrow> string \<Rightarrow> 'z db_scheme \<Rightarrow> event_row option" where
  "shared_event x token d =
     orElse (findEventByPublishToken x token d) (EventsRepository_findByPublishKey token d)"

definition authorize_event :: "event_row \<Rightarrow> 'z db_scheme \<Rightarrow> auth_result" where
  "authorize_event e d =
     (if ev_status e \<noteq> Live then Reject (publishClosedReason (Some (ev_status e)))
      else (case withinWindow (clock d) e of
              Some r \<Rightarrow> Reject r
            | None \<Rightarrow> Allow (ev_id e) (-1) None))"

definition authorizePublish ::
  "externals \<Rightarrow> string \<Rightarrow> string \<Rightarrow> 'z db_scheme \<Rightarrow> auth_result \<times> 'z db_scheme" where
  "authorizePublish x stream param d =
     (let keys = StreamKeysRepository_findAllByStreamName stream d;
          token = (case parseToken param of None \<Rightarrow> [] | Some t \<Rightarrow> t);
          key = (if token = [] then None else matching_key x token keys)
      in case key of
           Some k \<Rightarrow> authorize_key k d
         | None \<Rightarrow>
             (case (if token = [] then None else shared_event x token d) of
                Some e \<Rightarrow> (authorize_event e d, d)
              | None \<Rightarrow>
                  if keys \<noteq> [] then
                    (if token = [] then (Reject ''missing token'', d)
                     else (Reject (if \<exists>k\<in>set keys. \<not> sk_revoked k then ''bad token'' else ''key revoked''), d))
                  else (Reject ''unknown stream name'', d)))"

lemma find_SomeD: "find p xs = Some x \<Longrightarrow> x \<in> set xs \<and> p x"
  by (auto simp: find_Some_iff)

lemma matching_keyD:
  "matching_key x t (StreamKeysRepository_findAllByStreamName s d) = Some k \<Longrightarrow>
     k \<in> set (rows (t_streamKeys d)) \<and> sk_streamName k = s \<and> \<not> sk_revoked k \<and> verifyToken x t (sk_tokenHash k)"
  by (auto simp: matching_key_def StreamKeysRepository_findAllByStreamName_def tbl_select_def dest!: find_SomeD)

lemma shared_eventD:
  "shared_event x t d = Some e \<Longrightarrow> e \<in> set (rows (t_events d)) \<and>
     ((\<exists>h. ev_publishTokenHash e = Some h \<and> verifyToken x t h) \<or> ev_publishKey e = Some t)"
  by (auto simp: shared_event_def findEventByPublishToken_def EventsRepository_findByPublishTokenPrefix_def
      EventsRepository_findByPublishKey_def tbl_select_def orElse_def
      dest!: find_SomeD tbl_find_Some split: option.splits if_splits)

lemma EventsRepository_findById_Some:
  "EventsRepository_findById i d = Some e \<Longrightarrow> e \<in> set (rows (t_events d)) \<and> ev_id e = i"
  by (auto simp: EventsRepository_findById_def dest: tbl_find_Some)

definition in_window :: "int \<Rightarrow> event_row \<Rightarrow> bool" where
  "in_window now e \<longleftrightarrow> (\<forall>s. ev_startsAt e = Some s \<longrightarrow> s \<le> now) \<and> (\<forall>t. ev_endsAt e = Some t \<longrightarrow> now \<le> t)"

lemma withinWindow_None: "withinWindow now e = None \<longleftrightarrow> in_window now e"
  by (auto simp: withinWindow_def in_window_def split: option.splits if_splits)

text \<open>C2 A publisher is admitted only with a good credential for a live event inside its
  window: if authorizePublish allows, the parameter carries a non-empty token, the event
  exists, is live and the time is inside its bounds, and the token verifies against a key
  of that very stream name that is not revoked and belongs to the event (streamKeyId is
  then its id), or, with streamKeyId -1, against the event's publish token, or equals its
  publish key.\<close>

theorem authorizePublish_sound:
  assumes "authorizePublish x stream param d = (Allow ev kid label, d')"
  shows "\<exists>token e. parseToken param = Some token \<and> token \<noteq> [] \<and> e \<in> set (rows (t_events d)) \<and> ev_id e = ev
    \<and> ev_status e = Live \<and> in_window (clock d) e
    \<and> ((\<exists>k\<in>set (rows (t_streamKeys d)). sk_id k = kid \<and> sk_streamName k = stream \<and> sk_eventId k = ev
          \<and> \<not> sk_revoked k \<and> verifyToken x token (sk_tokenHash k))
       \<or> kid = -1 \<and> ((\<exists>h. ev_publishTokenHash e = Some h \<and> verifyToken x token h)
                     \<or> ev_publishKey e = Some token))"
proof -
  define token where "token = (case parseToken param of None \<Rightarrow> [] | Some t \<Rightarrow> t)"
  define keys where "keys = StreamKeysRepository_findAllByStreamName stream d"
  note eq = assms[unfolded authorizePublish_def Let_def, folded token_def keys_def]
  have ne: "token \<noteq> []" using eq by (auto split: if_splits option.splits)
  then have tok: "parseToken param = Some token" by (auto simp: token_def split: option.splits)
  show ?thesis
  proof (cases "matching_key x token keys")
    case (Some k)
    note k = matching_keyD[OF Some[unfolded keys_def]]
    from eq Some ne have "authorize_key k d = (Allow ev kid label, d')" by simp
    then obtain e where "EventsRepository_findById (sk_eventId k) d = Some e" "ev_status e = Live"
      "withinWindow (clock d) e = None" "ev = ev_id e" "kid = sk_id k"
      by (auto simp: authorize_key_def split: option.splits if_splits)
    with k tok ne show ?thesis
      using EventsRepository_findById_Some[of "sk_eventId k" d e] by (auto simp: withinWindow_None)
  next
    case None
    with eq ne obtain e where e: "shared_event x token d = Some e" "authorize_event e d = Allow ev kid label"
      by (auto split: option.splits if_splits)
    with shared_eventD[OF e(1)] tok ne show ?thesis
      by (auto simp: authorize_event_def withinWindow_None split: if_splits option.splits)
  qed
qed

text \<open>Admission is complete for the shared key: when the stream name has no key of its
  own that matches, the parameter carries the publish key of a live event inside its
  window that is the first event with this key, and the token is no event's publish token,
  the publisher is admitted to that event, and nothing is written.\<close>

theorem authorizePublish_key_complete:
  assumes "parseToken param = Some token" "token \<noteq> []"
    and "EventsRepository_findByPublishKey token d = Some e" "ev_status e = Live" "in_window (clock d) e"
    and "matching_key x token (StreamKeysRepository_findAllByStreamName stream d) = None"
    and "findEventByPublishToken x token d = None"
  shows "authorizePublish x stream param d = (Allow (ev_id e) (-1) None, d)"
  using assms by (simp add: authorizePublish_def Let_def shared_event_def authorize_event_def flip: withinWindow_None)

text \<open>A revoked key admits nobody: if every key of the stream name is revoked and the token
  is not a shared credential of any event, the publisher is refused, with the reason that
  tells a missing token, a revoked key and an unknown name apart, and nothing is
  written.\<close>

theorem authorizePublish_revoked:
  assumes "\<forall>k\<in>set (StreamKeysRepository_findAllByStreamName stream d). sk_revoked k"
    and "\<forall>token. parseToken param = Some token \<and> token \<noteq> [] \<longrightarrow> shared_event x token d = None"
  shows "authorizePublish x stream param d =
    (Reject (if StreamKeysRepository_findAllByStreamName stream d = [] then ''unknown stream name''
             else if parseToken param = None \<or> parseToken param = Some [] then ''missing token''
             else ''key revoked''), d)"
proof -
  have "matching_key x t (StreamKeysRepository_findAllByStreamName stream d) = None" for t
    using assms(1) by (auto simp: matching_key_def find_None_iff)
  with assms show ?thesis
    by (auto simp: authorizePublish_def Let_def split: option.splits)
qed

lemma authorize_key_state:
  "snd (authorize_key k d) = d \<or> snd (authorize_key k d) = StreamKeysRepository_touch (sk_id k) d"
  by (simp add: authorize_key_def split: option.split)

lemma authorizePublish_state:
  "snd (authorizePublish x stream param d) = d
   \<or> (\<exists>k. snd (authorizePublish x stream param d) = StreamKeysRepository_touch k d)"
proof -
  have "snd (authorizePublish x stream param d) = d \<or>
      (\<exists>k. snd (authorizePublish x stream param d) = snd (authorize_key k d))"
    unfolding authorizePublish_def Let_def by (simp split: option.split) blast
  then show ?thesis using authorize_key_state by metis
qed

definition demo_event :: event_row where
  "demo_event = (event_values ''Contest'' ''contest'')\<lparr>ev_id := 1, ev_status := Live, ev_publishKey := Some ''contest'',
     ev_startsAt := Some 1000, ev_endsAt := Some 9000\<rparr>"

definition demo_key :: stream_key_row where
  "demo_key = \<lparr>sk_id = 1, sk_eventId = 1, sk_enrollmentId = None, sk_streamName = ''bob'', sk_tokenHash = ''00:00'',
     sk_tokenPreview = '''', sk_revoked = True, sk_lastUsedAt = None, sk_createdAt = 0\<rparr>"

definition demo_db :: world where
  "demo_db = world_start\<lparr>clock := 5000, t_events := \<lparr>rows = [demo_event], seq = 2\<rparr>,
     t_streamKeys := \<lparr>rows = [demo_key], seq = 2\<rparr>\<rparr>"

lemmas demo_defs = demo_db_def demo_event_def demo_key_def event_values_def

lemma demo_token: "parseToken ''?token=contest'' = Some ''contest''"
  using parse_token_plain[of "''contest''"]
  by (simp add: token_char_def is_alnum_def is_lower_def Let_def)

lemma demo_lookup:
  "EventsRepository_findByPublishKey ''contest'' demo_db = Some demo_event"
  "StreamKeysRepository_findAllByStreamName ''alice'' demo_db = []"
  "StreamKeysRepository_findAllByStreamName ''bob'' demo_db = [demo_key]"
  "findEventByPublishToken x ''contest'' demo_db = None"
  by (simp_all add: demo_defs EventsRepository_findByPublishKey_def tbl_find_def tbl_select_def
      StreamKeysRepository_findAllByStreamName_def findEventByPublishToken_def)

theorem authorizePublish_key_complete_witness:
  "authorizePublish demo_externals ''alice'' ''?token=contest'' demo_db = (Allow 1 (-1) None, demo_db)"
  using authorizePublish_key_complete[OF demo_token, of demo_db demo_event demo_externals "''alice''"]
  by (simp add: demo_lookup matching_key_def) (simp add: demo_defs in_window_def)

theorem authorizePublish_sound_witness:
  "\<exists>e\<in>set (rows (t_events demo_db)). ev_id e = 1 \<and> ev_status e = Live \<and> in_window 5000 e"
proof -
  have clk: "clock demo_db = 5000" by (simp add: demo_db_def)
  have "authorizePublish demo_externals ''alice'' ''?token=contest'' demo_db = (Allow 1 (-1) None, demo_db)"
    by (simp add: authorizePublish_def demo_token demo_lookup matching_key_def shared_event_def authorize_event_def)
       (simp add: demo_defs withinWindow_def)
  from authorizePublish_sound[OF this] show ?thesis by (auto simp: clk)
qed

theorem authorizePublish_revoked_witness:
  "authorizePublish demo_externals ''bob'' ''?x=1'' demo_db = (Reject ''missing token'', demo_db)"
proof -
  have t: "parseToken ''?x=1'' = None" by code_simp
  have r: "\<forall>k\<in>set (StreamKeysRepository_findAllByStreamName ''bob'' demo_db). sk_revoked k"
    by (simp add: demo_lookup) (simp add: demo_defs)
  from authorizePublish_revoked[OF r, of "''?x=1''" demo_externals] t show ?thesis by (simp add: demo_lookup)
qed

end
