(* ===== verification/Events.thy ===== *)
theory Events
  imports AccessControl
begin

text \<open>
  services/events.ts: event administration.  The event key is unique, restricted to a-z,
  0-9, _ and -, and doubles as publish key; a renamed event leaves an alias behind; a
  scheduled event needs a window.
\<close>

section \<open>Input and view\<close>

record event_input =
  ei_name :: "string maybe"
  ei_slug :: "string maybe"
  ei_description :: "string maybe"
  ei_startsAt :: "int maybe"
  ei_endsAt :: "int maybe"
  ei_status :: "event_status maybe"
  ei_limitsOverride :: "json maybe"
  ei_recordEnabled :: "bool maybe"
  ei_strictLimits :: "bool maybe"
  ei_enforceMeasuredLimits :: "bool maybe"
  ei_visibility :: "visibility maybe"
  ei_streamGuide :: "string maybe"
  ei_groupIds :: "int list maybe"

record event_view =
  vw_id :: int
  vw_name :: string
  vw_slug :: string
  vw_description :: "string option"
  vw_startsAt :: "int option"
  vw_endsAt :: "int option"
  vw_status :: event_status
  vw_limitsOverride :: "json option"
  vw_recordEnabled :: bool
  vw_strictLimits :: bool
  vw_enforceMeasuredLimits :: bool
  vw_requireAccountAuth :: bool
  vw_visibility :: visibility
  vw_groups :: "(int \<times> string) list"
  vw_publishTokenPreview :: "string option"
  vw_publishKeyPreview :: "string option"
  vw_streamGuide :: "string option"
  vw_createdAt :: int
  vw_updatedAt :: int

definition event_toView :: "event_row \<Rightarrow> 'z db_scheme \<Rightarrow> error + event_view" where
  "event_toView e d =
     (case ev_limitsOverride e of
        Some (Malformed s) \<Rightarrow> Inl (JsError ''SyntaxError'')
      | lo \<Rightarrow> Inr \<lparr>vw_id = ev_id e, vw_name = ev_name e, vw_slug = ev_slug e,
          vw_description = ev_description e, vw_startsAt = ev_startsAt e, vw_endsAt = ev_endsAt e,
          vw_status = ev_status e, vw_limitsOverride = Option.bind lo json_parse,
          vw_recordEnabled = ev_recordEnabled e, vw_strictLimits = ev_strictLimits e,
          vw_enforceMeasuredLimits = ev_enforceMeasuredLimits e,
          vw_requireAccountAuth = ev_requireAccountAuth e, vw_visibility = ev_visibility e,
          vw_groups = map (\<lambda>g. (gr_id g, gr_name g)) (GroupsRepository_findGroupsForEvent (ev_id e) d),
          vw_publishTokenPreview = ev_publishTokenPrefix e,
          vw_publishKeyPreview = (case ev_publishKey e of None \<Rightarrow> None
             | Some k \<Rightarrow> if k = [] then None else Some (take 4 k @ ELLIPSIS)),
          vw_streamGuide = ev_streamGuide e, vw_createdAt = ev_createdAt e, vw_updatedAt = ev_updatedAt e\<rparr>)"

definition getRow :: "int \<Rightarrow> 'z db_scheme \<Rightarrow> error + event_row" where
  "getRow i d = (case EventsRepository_findById i d of
     None \<Rightarrow> Inl (HttpError 404 ''event not found'') | Some e \<Rightarrow> Inr e)"

text \<open>A Date holds 8640000000000000 ms in either direction; toTs drops anything else.\<close>

definition valid_date :: "int \<Rightarrow> bool" where
  "valid_date ms \<longleftrightarrow> \<bar>ms\<bar> \<le> 8640000000000000"

definition toTs :: "int option \<Rightarrow> int option" where
  "toTs ms = (case ms of None \<Rightarrow> None | Some t \<Rightarrow> if valid_date t then Some t else None)"

definition visibility_str :: "visibility \<Rightarrow> string" where
  "visibility_str v = (case v of VisPublic \<Rightarrow> ''public'' | VisRegistered \<Rightarrow> ''registered'' | VisGroups \<Rightarrow> ''groups'')"

definition key_char :: "char \<Rightarrow> bool" where
  "key_char c = (is_lower c \<or> is_digit c \<or> c = CHR ''_'' \<or> c = CHR ''-'')"

definition EVENT_KEY_RE :: "string \<Rightarrow> bool" where
  "EVENT_KEY_RE s = (s \<noteq> [] \<and> list_all key_char s)"

definition validEventKey :: "string \<Rightarrow> error + string" where
  "validEventKey slug = (if EVENT_KEY_RE slug then Inr slug
     else Inl (HttpError 400 ''Event key may only contain lowercase letters, digits, _ and -''))"

definition slug_taken :: "string \<Rightarrow> int option \<Rightarrow> 'z db_scheme \<Rightarrow> bool" where
  "slug_taken slug exceptId d = (EventsRepository_findBySlugExcept slug exceptId d \<noteq> None)"

definition slug_error :: error where
  "slug_error = HttpError 409 ''slug already used''"

text \<open>assertWindow: epoch 0 and invalid dates count as missing.\<close>

definition win_ms :: "int option \<Rightarrow> int option" where
  "win_ms x = (case x of None \<Rightarrow> None | Some t \<Rightarrow> if t = 0 \<or> \<not> valid_date t then None else Some t)"

definition assertWindow :: "event_status option \<Rightarrow> int option \<Rightarrow> int option \<Rightarrow> error option" where
  "assertWindow status startsAt endsAt =
     (let s = win_ms startsAt; e = win_ms endsAt in
      if status = Some Scheduled \<and> (s = None \<or> e = None)
      then Some (HttpError 400 ''scheduled events need both a start and an end time'')
      else (case (s, e) of
              (Some s', Some e') \<Rightarrow> if e' \<le> s' then Some (HttpError 400 ''end time must be after the start time'') else None
            | _ \<Rightarrow> None))"

definition parse_override :: "json \<Rightarrow> error + jtext" where
  "parse_override j = (case limitsOverrideSchema j of
     None \<Rightarrow> Inl (JsError ''ZodError'') | Some v \<Rightarrow> Inr (JText (override_json v)))"

definition maybe_val :: "'a maybe \<Rightarrow> 'a \<Rightarrow> 'a" where
  "maybe_val m d = orDefault (maybe_opt m) d"


section \<open>createEvent\<close>

definition event_of_input :: "string \<Rightarrow> string \<Rightarrow> jtext option \<Rightarrow> event_input \<Rightarrow> event_row" where
  "event_of_input name slug lo input = (event_values name slug)\<lparr>
     ev_publishKey := Some slug,
     ev_description := maybe_opt (ei_description input),
     ev_startsAt := toTs (maybe_opt (ei_startsAt input)),
     ev_endsAt := toTs (maybe_opt (ei_endsAt input)),
     ev_status := maybe_val (ei_status input) Draft,
     ev_limitsOverride := lo,
     ev_recordEnabled := maybe_val (ei_recordEnabled input) True,
     ev_strictLimits := maybe_val (ei_strictLimits input) False,
     ev_enforceMeasuredLimits := maybe_val (ei_enforceMeasuredLimits input) False,
     ev_requireAccountAuth := True,
     ev_visibility := maybe_val (ei_visibility input) VisRegistered\<rparr>"

definition input_override :: "json maybe \<Rightarrow> error + jtext option" where
  "input_override m = (case m of
     Val j \<Rightarrow> (case parse_override j of Inl e \<Rightarrow> Inl e | Inr t \<Rightarrow> Inr (Some t))
   | _ \<Rightarrow> Inr None)"

text \<open>What follows the INSERT.\<close>

definition event_created :: "event_input \<Rightarrow> string \<Rightarrow> string \<Rightarrow> event_row \<Rightarrow> 'z core_scheme \<Rightarrow>
    (event_view, 'z core_scheme) outcome" where
  "event_created input name slug row w1 =
     andThen (case ei_groupIds input of Val gs \<Rightarrow> GroupsRepository_setEventGroups (ev_id row) gs w1
              | _ \<Rightarrow> (Inr (), w1)) (\<lambda>_ w2.
     let w3 = EventSlugAliasesRepository_remove slug w2;
         w4 = audit LInfo CAdmin (''event created: '' @ name)
                (no_opts\<lparr>ai_eventId := Some (ev_id row),
                  ai_detail := Some (JObj [(''slug'', JStr slug), (''visibility'', JStr (visibility_str (ev_visibility row)))])\<rparr>) w3
     in (event_toView row w4, w4))"

definition createEvent :: "event_input \<Rightarrow> 'z core_scheme \<Rightarrow> (event_view, 'z core_scheme) outcome" where
  "createEvent input w =
     (let name = js_trim (maybe_val (ei_name input) []) in
      if name = [] then (Inl (HttpError 400 ''name is required''), w)
      else case validEventKey (js_trim (maybe_val (ei_slug input) [])) of
        Inl e \<Rightarrow> (Inl e, w)
      | Inr slug \<Rightarrow>
         if slug_taken slug None w then (Inl slug_error, w)
         else case input_override (ei_limitsOverride input) of
           Inl e \<Rightarrow> (Inl e, w)
         | Inr lo \<Rightarrow>
            (case assertWindow (maybe_opt (ei_status input)) (maybe_opt (ei_startsAt input)) (maybe_opt (ei_endsAt input)) of
               Some e \<Rightarrow> (Inl e, w)
             | None \<Rightarrow> andThen (EventsRepository_insert (event_of_input name slug lo input) w)
                         (event_created input name slug)))"


section \<open>updateEvent\<close>

text \<open>The object set of the source: the fields of the row it overwrites, with their
  names.\<close>

type_synonym event_set = "(string \<times> (event_row \<Rightarrow> event_row)) list"

definition apply_set :: "event_set \<Rightarrow> event_row \<Rightarrow> event_row" where
  "apply_set s e = fold (\<lambda>(_, f) r. f r) s e"

definition set_given :: "string \<Rightarrow> 'a maybe \<Rightarrow> ('a \<Rightarrow> event_row \<Rightarrow> event_row) \<Rightarrow> event_set" where
  "set_given k m f = (case m of Val v \<Rightarrow> [(k, f v)] | _ \<Rightarrow> [])"

definition set_nullable :: "string \<Rightarrow> 'a maybe \<Rightarrow> ('a option \<Rightarrow> event_row \<Rightarrow> event_row) \<Rightarrow> event_set" where
  "set_nullable k m f = (case m of Undefined \<Rightarrow> [] | Null \<Rightarrow> [(k, f None)] | Val v \<Rightarrow> [(k, f (Some v))])"

text \<open>The times assertWindow sees: set.startsAt ?? existing.startsAt.\<close>

definition eff_time :: "int maybe \<Rightarrow> int option \<Rightarrow> int option" where
  "eff_time m old = orElse (toTs (maybe_opt m)) old"

definition rename_set :: "string maybe \<Rightarrow> event_row \<Rightarrow> 'z db_scheme \<Rightarrow> (event_set, 'z db_scheme) outcome" where
  "rename_set m existing w = (case m of
     Val s \<Rightarrow> (case validEventKey (js_trim s) of
        Inl e \<Rightarrow> (Inl e, w)
      | Inr slug \<Rightarrow>
          if slug = ev_slug existing then (Inr [], w)
          else if slug_taken slug (Some (ev_id existing)) w then (Inl slug_error, w)
          else andThen (EventSlugAliasesRepository_set (ev_slug existing) (ev_id existing) w) (\<lambda>_ w1.
                 (Inr [(''slug'', ev_slug_update (\<lambda>_. slug)), (''publishKey'', ev_publishKey_update (\<lambda>_. Some slug))],
                  EventSlugAliasesRepository_remove slug w1)))
   | _ \<Rightarrow> (Inr [], w))"

definition name_set :: "string maybe \<Rightarrow> error + event_set" where
  "name_set m = (case m of
     Val n \<Rightarrow> if js_trim n = [] then Inl (HttpError 400 ''name cannot be empty'')
              else Inr [(''name'', ev_name_update (\<lambda>_. js_trim n))]
   | _ \<Rightarrow> Inr [])"

definition time_set :: "event_input \<Rightarrow> event_set" where
  "time_set patch =
     set_nullable ''description'' (ei_description patch) (\<lambda>v. ev_description_update (\<lambda>_. v))
   @ set_nullable ''startsAt'' (ei_startsAt patch) (\<lambda>v. ev_startsAt_update (\<lambda>_. toTs v))
   @ set_nullable ''endsAt'' (ei_endsAt patch) (\<lambda>v. ev_endsAt_update (\<lambda>_. toTs v))
   @ set_given ''status'' (ei_status patch) (\<lambda>v. ev_status_update (\<lambda>_. v))"

definition flag_set :: "event_input \<Rightarrow> event_set" where
  "flag_set patch =
     set_given ''recordEnabled'' (ei_recordEnabled patch) (\<lambda>v. ev_recordEnabled_update (\<lambda>_. v))
   @ set_given ''strictLimits'' (ei_strictLimits patch) (\<lambda>v. ev_strictLimits_update (\<lambda>_. v))
   @ set_given ''enforceMeasuredLimits'' (ei_enforceMeasuredLimits patch) (\<lambda>v. ev_enforceMeasuredLimits_update (\<lambda>_. v))
   @ set_given ''visibility'' (ei_visibility patch) (\<lambda>v. ev_visibility_update (\<lambda>_. v))"

definition limits_set :: "json maybe \<Rightarrow> error + event_set" where
  "limits_set m = (case m of
     Undefined \<Rightarrow> Inr []
   | Null \<Rightarrow> Inr [(''limitsOverride'', ev_limitsOverride_update (\<lambda>_. None))]
   | Val j \<Rightarrow> (case parse_override j of Inl e \<Rightarrow> Inl e
       | Inr t \<Rightarrow> Inr [(''limitsOverride'', ev_limitsOverride_update (\<lambda>_. Some t))]))"

text \<open>groupIds: null is not undefined, so the links are deleted and then reading its length
  throws.\<close>

definition update_scope :: "int \<Rightarrow> int list maybe \<Rightarrow> 'z db_scheme \<Rightarrow> (unit, 'z db_scheme) outcome" where
  "update_scope i m w = (case m of
     Undefined \<Rightarrow> (Inr (), w)
   | Null \<Rightarrow> (Inl (JsError ''TypeError''),
        w\<lparr>t_eventGroups := filter (\<lambda>g. eg_eventId g \<noteq> i) (t_eventGroups w)\<rparr>)
   | Val gs \<Rightarrow> GroupsRepository_setEventGroups i gs w)"

text \<open>What follows the UPDATE.\<close>

definition event_updated :: "int \<Rightarrow> int list maybe \<Rightarrow> string list \<Rightarrow> string \<Rightarrow> 'z core_scheme \<Rightarrow>
    (event_view, 'z core_scheme) outcome" where
  "event_updated i groupIds names name w2 =
     andThen (update_scope i groupIds w2) (\<lambda>_ w3.
     let w4 = audit LInfo CAdmin (''event updated: '' @ name)
                (no_opts\<lparr>ai_eventId := Some i, ai_detail := Some (JObj [
                  (''fields'', json_strings names),
                  (''groupScope'', JBool (groupIds \<noteq> Undefined))])\<rparr>) w3
     in case getRow i w4 of Inl e \<Rightarrow> (Inl e, w4) | Inr r \<Rightarrow> (event_toView r w4, w4))"

definition updateEvent :: "int \<Rightarrow> event_input \<Rightarrow> 'z core_scheme \<Rightarrow> (event_view, 'z core_scheme) outcome" where
  "updateEvent i patch w =
     (case getRow i w of
        Inl e \<Rightarrow> (Inl e, w)
      | Inr existing \<Rightarrow>
         (case name_set (ei_name patch) of
            Inl e \<Rightarrow> (Inl e, w)
          | Inr s1 \<Rightarrow>
              andThen (rename_set (ei_slug patch) existing w) (\<lambda>s2 w1.
              case assertWindow (Some (maybe_val (ei_status patch) (ev_status existing)))
                     (eff_time (ei_startsAt patch) (ev_startsAt existing))
                     (eff_time (ei_endsAt patch) (ev_endsAt existing)) of
                Some e \<Rightarrow> (Inl e, w1)
              | None \<Rightarrow>
                 (case limits_set (ei_limitsOverride patch) of
                    Inl e \<Rightarrow> (Inl e, w1)
                  | Inr s5 \<Rightarrow>
                     let s = [(''updatedAt'', ev_updatedAt_update (\<lambda>_. clock w))] @ s1 @ s2 @ time_set patch
                           @ flag_set patch @ s5
                           @ set_nullable ''streamGuide'' (ei_streamGuide patch) (\<lambda>v. ev_streamGuide_update (\<lambda>_. v))
                     in andThen (EventsRepository_update i (apply_set s) w1)
                          (\<lambda>_. event_updated i (ei_groupIds patch) (map fst s) (ev_name existing))))))"

definition deleteEvent :: "int \<Rightarrow> 'z core_scheme \<Rightarrow> (unit, 'z core_scheme) outcome" where
  "deleteEvent i w =
     (case getRow i w of
        Inl e \<Rightarrow> (Inl e, w)
      | Inr existing \<Rightarrow>
          let w1 = EventSlugAliasesRepository_removeByEvent i w;
              w2 = EventsRepository_remove i w1
          in (Inr (), audit LWarn CAdmin (''event deleted: '' @ ev_name existing) (no_opts\<lparr>ai_eventId := Some i\<rparr>) w2))"


section \<open>Listing\<close>

fun views :: "event_row list \<Rightarrow> 'z db_scheme \<Rightarrow> error + event_view list" where
  "views [] d = Inr []"
| "views (e # es) d = (case event_toView e d of Inl er \<Rightarrow> Inl er
     | Inr v \<Rightarrow> (case views es d of Inl er \<Rightarrow> Inl er | Inr vs \<Rightarrow> Inr (v # vs)))"

definition listEvents :: "'z db_scheme \<Rightarrow> error + event_view list" where
  "listEvents d = views (EventsRepository_findAll d) d"

definition listEventsForUser :: "'z db_scheme \<Rightarrow> error + event_view list" where
  "listEventsForUser d = views (filter (\<lambda>e. ev_status e \<noteq> Draft) (EventsRepository_findAll d)) d"

definition getEvent :: "int \<Rightarrow> 'z db_scheme \<Rightarrow> error + event_view" where
  "getEvent i d = (case getRow i d of Inl e \<Rightarrow> Inl e | Inr r \<Rightarrow> event_toView r d)"


section \<open>Publish credentials\<close>

definition PUBLISH_TOKEN_MIN :: nat where "PUBLISH_TOKEN_MIN = 8"
definition PUBLISH_TOKEN_MAX :: nat where "PUBLISH_TOKEN_MAX = 128"

definition EN_DASH :: string where "EN_DASH = [CHR 0xE2, CHR 0x80, CHR 0x93]"

definition PUBLISH_TOKEN_RE :: "string \<Rightarrow> bool" where
  "PUBLISH_TOKEN_RE s = (s \<noteq> [] \<and> list_all token_char s)"

text \<open>The custom or generated credential; what is what in the messages differs only by
  the first word.\<close>

definition choose_secret :: "string \<Rightarrow> string maybe \<Rightarrow> 'z core_scheme \<Rightarrow> (string \<times> bool, 'z core_scheme) outcome" where
  "choose_secret what custom w =
     (case custom of
        Val s \<Rightarrow>
          if js_trim s \<noteq> [] then
            let c = js_trim s in
            if length c < PUBLISH_TOKEN_MIN \<or> PUBLISH_TOKEN_MAX < length c
            then (Inl (HttpError 400 (what @ '' length must be 8'' @ EN_DASH @ ''128 characters'')), w)
            else if \<not> PUBLISH_TOKEN_RE c
            then (Inl (HttpError 400 (what @ '' may only contain letters, digits, and . _ - ~'')), w)
            else (Inr (c, True), w)
          else (let (t, w1) = generateToken 24 w in (Inr (t, False), w1))
      | _ \<Rightarrow> (let (t, w1) = generateToken 24 w in (Inr (t, False), w1)))"

definition rotatePublishToken ::
  "externals \<Rightarrow> int \<Rightarrow> string maybe \<Rightarrow> 'z core_scheme \<Rightarrow> (string \<times> string \<times> bool, 'z core_scheme) outcome" where
  "rotatePublishToken x i custom w =
     (case getRow i w of
        Inl e \<Rightarrow> (Inl e, w)
      | Inr existing \<Rightarrow>
          andThen (choose_secret ''Token'' custom w) (\<lambda>(token, isCustom) w1.
          let (hash, w2) = hashToken x token w1; prefix = take 8 token in
          andThen (EventsRepository_update i (\<lambda>e. e\<lparr>ev_publishTokenHash := Some hash,
                     ev_publishTokenPrefix := Some prefix, ev_updatedAt := clock w2\<rparr>) w2) (\<lambda>_ w3.
          let w4 = audit LInfo CAdmin (''publish token '' @ (if isCustom then ''set (custom)'' else ''rotated'')
                     @ '': '' @ ev_name existing) (no_opts\<lparr>ai_eventId := Some i\<rparr>) w3
          in (Inr (token, prefix, isCustom), w4))))"

definition clearPublishToken :: "int \<Rightarrow> 'z core_scheme \<Rightarrow> (unit, 'z core_scheme) outcome" where
  "clearPublishToken i w =
     (case getRow i w of
        Inl e \<Rightarrow> (Inl e, w)
      | Inr existing \<Rightarrow>
          andThen (EventsRepository_update i (\<lambda>e. e\<lparr>ev_publishTokenHash := None,
                     ev_publishTokenPrefix := None, ev_updatedAt := clock w\<rparr>) w) (\<lambda>_ w1.
          (Inr (), audit LWarn CAdmin (''publish token cleared: '' @ ev_name existing)
                     (no_opts\<lparr>ai_eventId := Some i\<rparr>) w1)))"

definition setPublishKey :: "int \<Rightarrow> string maybe \<Rightarrow> 'z core_scheme \<Rightarrow> (string \<times> bool, 'z core_scheme) outcome" where
  "setPublishKey i custom w =
     (case getRow i w of
        Inl e \<Rightarrow> (Inl e, w)
      | Inr existing \<Rightarrow>
          andThen (choose_secret ''Key'' custom w) (\<lambda>(key, isCustom) w1.
          andThen (EventsRepository_update i (\<lambda>e. e\<lparr>ev_publishKey := Some key, ev_updatedAt := clock w1\<rparr>) w1) (\<lambda>_ w2.
          let w3 = audit LInfo CAdmin (''publish key '' @ (if isCustom then ''set (custom)'' else ''generated'')
                     @ '': '' @ ev_name existing) (no_opts\<lparr>ai_eventId := Some i\<rparr>) w2
          in (Inr (key, isCustom), w3))))"

definition clearPublishKey :: "int \<Rightarrow> 'z core_scheme \<Rightarrow> (unit, 'z core_scheme) outcome" where
  "clearPublishKey i w =
     (case getRow i w of
        Inl e \<Rightarrow> (Inl e, w)
      | Inr existing \<Rightarrow>
          andThen (EventsRepository_update i (\<lambda>e. e\<lparr>ev_publishKey := None, ev_updatedAt := clock w\<rparr>) w) (\<lambda>_ w1.
          (Inr (), audit LWarn CAdmin (''publish key cleared: '' @ ev_name existing)
                     (no_opts\<lparr>ai_eventId := Some i\<rparr>) w1)))"

definition getPublishKey :: "int \<Rightarrow> 'z db_scheme \<Rightarrow> error + string option" where
  "getPublishKey i d = (case getRow i d of Inl e \<Rightarrow> Inl e | Inr r \<Rightarrow> Inr (ev_publishKey r))"


section \<open>Properties\<close>

lemma setEventGroups_frame [simp]:
  "t_events (snd (GroupsRepository_setEventGroups i gs d)) = t_events d"
  "t_aliases (snd (GroupsRepository_setEventGroups i gs d)) = t_aliases d"
  "clock (snd (GroupsRepository_setEventGroups i gs d)) = clock d"
  by (simp_all add: GroupsRepository_setEventGroups_def Let_def)

lemma setEventGroups_frameD:
  "GroupsRepository_setEventGroups i gs d = (r, d') \<Longrightarrow> t_events d' = t_events d \<and> t_aliases d' = t_aliases d"
  using setEventGroups_frame[of i gs d] by simp

lemma update_scope_frameD:
  "update_scope i m d = (r, d') \<Longrightarrow> t_events d' = t_events d \<and> t_aliases d' = t_aliases d"
  by (auto simp: update_scope_def dest: setEventGroups_frameD split: maybe.splits)

lemma getRow_Inr: "getRow i d = Inr e \<longleftrightarrow> EventsRepository_findById i d = Some e"
  by (auto simp: getRow_def split: option.splits)

lemma slug_taken_None: "\<not> slug_taken s None d \<longleftrightarrow> EventsRepository_findBySlug s d = None"
  by (simp add: slug_taken_def EventsRepository_findBySlugExcept_def EventsRepository_findBySlug_def)

lemma alias_remove [simp]:
  "t_events (EventSlugAliasesRepository_remove s d) = t_events d"
  "EventSlugAliasesRepository_findByOldSlug s (EventSlugAliasesRepository_remove s d) = None"
  by (simp_all add: EventSlugAliasesRepository_remove_def EventSlugAliasesRepository_findByOldSlug_def find_None_iff)

lemma alias_remove_other:
  "s' \<noteq> s \<Longrightarrow> EventSlugAliasesRepository_findByOldSlug s' (EventSlugAliasesRepository_remove s d)
     = EventSlugAliasesRepository_findByOldSlug s' d"
  unfolding EventSlugAliasesRepository_remove_def EventSlugAliasesRepository_findByOldSlug_def
  by (simp, rule find_filter_other) auto

lemma alias_find_cong:
  "t_aliases d' = t_aliases d \<Longrightarrow> EventSlugAliasesRepository_findByOldSlug s d'
     = EventSlugAliasesRepository_findByOldSlug s d"
  by (simp add: EventSlugAliasesRepository_findByOldSlug_def)

lemma validEventKey_Inr: "validEventKey s = Inr t \<longleftrightarrow> t = s \<and> EVENT_KEY_RE s"
  by (auto simp: validEventKey_def)

lemma event_created_Inr:
  assumes "event_created input name slug row w1 = (Inr v, w')"
  shows "t_events w' = t_events w1 \<and> EventSlugAliasesRepository_findByOldSlug slug w' = None
    \<and> event_toView row w' = Inr v"
proof -
  obtain w2 where w2: "t_events w2 = t_events w1"
    "\<exists>m d. w' = audit LInfo CAdmin m d (EventSlugAliasesRepository_remove slug w2)" "event_toView row w' = Inr v"
    using assms unfolding event_created_def Let_def andThen_eq_Inr
    by (auto split: maybe.splits dest: setEventGroups_frameD)
  have "EventSlugAliasesRepository_findByOldSlug slug (audit LInfo CAdmin m d (EventSlugAliasesRepository_remove slug w2)) = None"
    for m d by (subst alias_find_cong[OF audit_frame(8)]) simp
  with w2 show ?thesis by auto
qed

lemma createEvent_Inr:
  assumes "createEvent input w = (Inr v, w')"
  obtains slug lo row w1 where
    "slug = js_trim (maybe_val (ei_slug input) [])" "EVENT_KEY_RE slug" "EventsRepository_findBySlug slug w = None"
    "assertWindow (maybe_opt (ei_status input)) (maybe_opt (ei_startsAt input)) (maybe_opt (ei_endsAt input)) = None"
    "EventsRepository_insert (event_of_input (js_trim (maybe_val (ei_name input) [])) slug lo input) w = (Inr row, w1)"
    "event_created input (js_trim (maybe_val (ei_name input) [])) slug row w1 = (Inr v, w')"
proof -
  let ?name = "js_trim (maybe_val (ei_name input) [])"
  obtain slug where slug: "validEventKey (js_trim (maybe_val (ei_slug input) [])) = Inr slug"
    "\<not> slug_taken slug None w"
    using assms by (auto simp: createEvent_def Let_def split: sum.splits if_splits)
  obtain lo where lo: "input_override (ei_limitsOverride input) = Inr lo"
    using assms slug by (cases "input_override (ei_limitsOverride input)") (auto simp: createEvent_def Let_def split: if_splits)
  have win: "assertWindow (maybe_opt (ei_status input)) (maybe_opt (ei_startsAt input)) (maybe_opt (ei_endsAt input)) = None"
    using assms slug lo by (auto simp: createEvent_def Let_def split: if_splits option.splits)
  have "andThen (EventsRepository_insert (event_of_input ?name slug lo input) w) (event_created input ?name slug) = (Inr v, w')"
    using assms slug lo win by (simp add: createEvent_def Let_def split: if_splits)
  then obtain row w1 where "EventsRepository_insert (event_of_input ?name slug lo input) w = (Inr row, w1)"
    "event_created input ?name slug row w1 = (Inr v, w')"
    by (auto simp: andThen_eq_Inr)
  with slug win show ?thesis by (intro that) (auto simp: validEventKey_Inr slug_taken_None)
qed

lemma event_toView_id: "event_toView e d = Inr v \<Longrightarrow> vw_id v = ev_id e"
  by (auto simp: event_toView_def split: option.splits jtext.splits)

lemma insert_event_Inr:
  assumes "EventsRepository_insert v d = (Inr row, d')"
  shows "rows (t_events d') = rows (t_events d) @ [row]" "t_aliases d' = t_aliases d"
    "row = put_event (event_norm (v\<lparr>ev_createdAt := db_now d, ev_updatedAt := db_now d\<rparr>)) (seq (t_events d))"
    "EventsRepository_findBySlug (ev_slug v) d = None"
  using assms by (auto simp: EventsRepository_insert_def tbl_insert_def split: if_splits)

definition window_sane :: "event_row \<Rightarrow> bool" where
  "window_sane e \<longleftrightarrow>
     (ev_status e = Scheduled \<longrightarrow> ev_startsAt e \<noteq> None \<and> ev_endsAt e \<noteq> None)
   \<and> (\<forall>s t. ev_startsAt e = Some s \<and> ev_endsAt e = Some t \<and> s \<noteq> 0 \<and> t \<noteq> 0 \<longrightarrow> s \<le> t)"

lemma db_ts_zero: "db_ts t \<noteq> 0 \<Longrightarrow> t \<noteq> 0"
  by (auto simp: db_ts_def)

lemma assertWindow_sane:
  assumes "assertWindow st s t = None" "st = Some (ev_status e) \<or> ev_status e \<noteq> Scheduled"
    "ev_startsAt e = map_option db_ts (toTs s)" "ev_endsAt e = map_option db_ts (toTs t)"
  shows "window_sane e"
  using assms
  by (auto simp: assertWindow_def window_sane_def win_ms_def toTs_def Let_def dest!: db_ts_zero
      intro: db_ts_mono split: option.splits if_splits)

text \<open>C3 createEvent: on success there is exactly one new event; it has the trimmed slug, which
  is over a-z, 0-9, _ and - and was free, and carries it as its publish key; every other
  event is untouched; no alias answers for the slug any more; the window is sane (a
  scheduled event has both times, the start does not come after the end); and the view
  returned is that of the new row.\<close>

theorem createEvent_ok:
  assumes "createEvent input w = (Inr v, w')"
  shows "\<exists>e. rows (t_events w') = rows (t_events w) @ [e] \<and> vw_id v = ev_id e
    \<and> ev_slug e = js_trim (maybe_val (ei_slug input) []) \<and> EVENT_KEY_RE (ev_slug e)
    \<and> EventsRepository_findBySlug (ev_slug e) w = None
    \<and> ev_publishKey e = Some (ev_slug e) \<and> window_sane e
    \<and> EventSlugAliasesRepository_findByOldSlug (ev_slug e) w' = None"
proof -
  obtain slug lo row w1 where c: "slug = js_trim (maybe_val (ei_slug input) [])" "EVENT_KEY_RE slug"
    "EventsRepository_findBySlug slug w = None"
    "assertWindow (maybe_opt (ei_status input)) (maybe_opt (ei_startsAt input)) (maybe_opt (ei_endsAt input)) = None"
    "EventsRepository_insert (event_of_input (js_trim (maybe_val (ei_name input) [])) slug lo input) w = (Inr row, w1)"
    "event_created input (js_trim (maybe_val (ei_name input) [])) slug row w1 = (Inr v, w')"
    by (rule createEvent_Inr[OF assms])
  note ins = insert_event_Inr[OF c(5)]
  note cr = event_created_Inr[OF c(6)]
  have row: "ev_slug row = slug" "ev_publishKey row = Some slug"
    by (simp_all add: ins(3) put_event_def event_norm_def event_of_input_def event_values_def)
  have "window_sane row"
  proof (rule assertWindow_sane[OF c(4)])
    show "maybe_opt (ei_status input) = Some (ev_status row) \<or> ev_status row \<noteq> Scheduled"
      by (cases "ei_status input")
         (auto simp: ins(3) put_event_def event_norm_def event_of_input_def maybe_val_def)
  qed (simp_all add: ins(3) put_event_def event_norm_def event_of_input_def)
  with c row ins cr show ?thesis by (intro exI[of _ row]) (auto dest: event_toView_id)
qed

lemma setEventGroups_error: "fst (GroupsRepository_setEventGroups i gs d) \<noteq> Inl (HttpError c m)"
  by (simp add: GroupsRepository_setEventGroups_def Let_def unique_violation_def fk_violation_def)

lemma insert_event_error: "fst (EventsRepository_insert v d) \<noteq> Inl (HttpError c m)"
  by (simp add: EventsRepository_insert_def unique_violation_def case_prod_unfold)

lemma event_created_error: "fst (event_created input name slug row w1) \<noteq> Inl (HttpError c m)"
proof
  assume *: "fst (event_created input name slug row w1) = Inl (HttpError c m)"
  obtain r w2 where r: "(case ei_groupIds input of Val gs \<Rightarrow> GroupsRepository_setEventGroups (ev_id row) gs w1
              | _ \<Rightarrow> (Inr (), w1)) = (r, w2)" by (metis surj_pair)
  show False
  proof (cases r)
    case (Inl e)
    with * r have "e = HttpError c m" by (simp add: event_created_def)
    with r Inl show False
      by (auto split: maybe.splits) (metis fst_conv setEventGroups_error)
  next
    case (Inr u)
    with * r show False
      by (simp add: event_created_def event_toView_def Let_def split: option.splits jtext.splits)
  qed
qed

lemma assertWindow_error: "assertWindow st s t = Some e \<Longrightarrow> \<exists>m. e = HttpError 400 m"
  by (auto simp: assertWindow_def Let_def split: if_splits option.splits)

lemma createEvent_error:
  assumes r: "createEvent input w = (Inl (HttpError c m), w')"
  shows "w' = w \<and> (c = 400 \<or> c = 409)"
proof -
  let ?name = "js_trim (maybe_val (ei_name input) [])"
  consider (name) "?name = []" | (key) e where "?name \<noteq> []" "validEventKey (js_trim (maybe_val (ei_slug input) [])) = Inl e"
    | (rest) slug where "?name \<noteq> []" "validEventKey (js_trim (maybe_val (ei_slug input) [])) = Inr slug"
    by (cases "validEventKey (js_trim (maybe_val (ei_slug input) []))") auto
  then show ?thesis
  proof cases
    case rest
    note c = createEvent_def Let_def rest
    show ?thesis
    proof (cases "slug_taken slug None w")
      case False
      show ?thesis
      proof (cases "input_override (ei_limitsOverride input)")
        case (Inl e)
        with r False show ?thesis
          by (auto simp: c input_override_def parse_override_def split: maybe.splits option.splits)
      next
        case (Inr lo)
        show ?thesis
        proof (cases "assertWindow (maybe_opt (ei_status input)) (maybe_opt (ei_startsAt input)) (maybe_opt (ei_endsAt input))")
          case None
          with r False Inr have "andThen (EventsRepository_insert (event_of_input ?name slug lo input) w)
              (event_created input ?name slug) = (Inl (HttpError c m), w')" by (simp add: c)
          then consider "EventsRepository_insert (event_of_input ?name slug lo input) w = (Inl (HttpError c m), w')"
            | row w1 where "event_created input ?name slug row w1 = (Inl (HttpError c m), w')"
            by (auto simp: andThen_eq_Inl)
          then have False
            by cases (metis fst_conv insert_event_error, metis fst_conv event_created_error)
          then show ?thesis ..
        qed (use r False Inr in \<open>auto simp: c dest: assertWindow_error\<close>)
      qed
    qed (use r in \<open>auto simp: c slug_error_def\<close>)
  qed (use r in \<open>auto simp: createEvent_def Let_def validEventKey_def split: if_splits\<close>)
qed

text \<open>C4 Every refusal of createEvent with an HTTP status (400 for a missing name, a key outside
  the alphabet or a bad window, 409 for a slug in use) happens before anything is written:
  the state is unchanged.\<close>

theorem createEvent_refuses:
  assumes "createEvent input w = (Inl (HttpError c m), w')"
  shows "w' = w \<and> c \<in> {400, 409}"
  using createEvent_error assms by fastforce

lemma apply_set_append: "apply_set (a @ b) e = apply_set b (apply_set a e)"
  by (simp add: apply_set_def)

lemma apply_set_Cons: "apply_set ((k, f) # s) e = apply_set s (f e)"
  by (simp add: apply_set_def)

lemma apply_set_Nil: "apply_set [] e = e"
  by (simp add: apply_set_def)

lemma sets_keep_slug:
  "name_set m = Inr s1 \<Longrightarrow> ev_slug (apply_set s1 e) = ev_slug e \<and> ev_publishKey (apply_set s1 e) = ev_publishKey e"
  "ev_slug (apply_set (time_set p) e) = ev_slug e" "ev_publishKey (apply_set (time_set p) e) = ev_publishKey e"
  "ev_slug (apply_set (flag_set p) e) = ev_slug e" "ev_publishKey (apply_set (flag_set p) e) = ev_publishKey e"
  "limits_set l = Inr s5 \<Longrightarrow> ev_slug (apply_set s5 e) = ev_slug e \<and> ev_publishKey (apply_set s5 e) = ev_publishKey e"
  "ev_slug (apply_set (set_nullable k g (\<lambda>v. ev_streamGuide_update (\<lambda>_. v))) e) = ev_slug e"
  "ev_publishKey (apply_set (set_nullable k g (\<lambda>v. ev_streamGuide_update (\<lambda>_. v))) e) = ev_publishKey e"
  by (auto simp: name_set_def time_set_def flag_set_def limits_set_def set_nullable_def set_given_def
      apply_set_def split: maybe.splits if_splits sum.splits)

lemma event_updated_Inr:
  assumes "event_updated i gs fs n w2 = (Inr v, w')"
  shows "t_events w' = t_events w2 \<and> t_aliases w' = t_aliases w2
    \<and> (\<exists>r. EventsRepository_findById i w' = Some r \<and> event_toView r w' = Inr v)"
proof -
  define a where "a w3 = audit LInfo CAdmin (''event updated: '' @ n) (no_opts\<lparr>ai_eventId := Some i,
      ai_detail := Some (JObj [(''fields'', json_strings fs), (''groupScope'', JBool (gs \<noteq> Undefined))])\<rparr>) w3"
    for w3 :: "'a core_scheme"
  obtain w3 where w3: "update_scope i gs w2 = (Inr (), w3)"
    "(case getRow i (a w3) of Inl e \<Rightarrow> (Inl e, a w3) | Inr r \<Rightarrow> (event_toView r (a w3), a w3)) = (Inr v, w')"
    using assms unfolding event_updated_def andThen_eq_Inr Let_def a_def by auto
  then have "w' = a w3 \<and> (\<exists>r. getRow i w' = Inr r \<and> event_toView r w' = Inr v)"
    by (auto split: sum.splits)
  with update_scope_frameD[OF w3(1)] show ?thesis by (auto simp: getRow_Inr a_def)
qed

lemma updateEvent_Inr:
  assumes "updateEvent i patch w = (Inr v, w')"
  obtains existing s1 s2 s5 w1 w2 s where
    "EventsRepository_findById i w = Some existing" "name_set (ei_name patch) = Inr s1"
    "rename_set (ei_slug patch) existing w = (Inr s2, w1)"
    "assertWindow (Some (maybe_val (ei_status patch) (ev_status existing)))
       (eff_time (ei_startsAt patch) (ev_startsAt existing)) (eff_time (ei_endsAt patch) (ev_endsAt existing)) = None"
    "limits_set (ei_limitsOverride patch) = Inr s5"
    "s = [(''updatedAt'', ev_updatedAt_update (\<lambda>_. clock w))] @ s1 @ s2 @ time_set patch @ flag_set patch @ s5
         @ set_nullable ''streamGuide'' (ei_streamGuide patch) (\<lambda>v. ev_streamGuide_update (\<lambda>_. v))"
    "EventsRepository_update i (apply_set s) w1 = (Inr (), w2)"
    "t_events w' = t_events w2" "t_aliases w' = t_aliases w2"
    "\<exists>r. EventsRepository_findById i w' = Some r \<and> event_toView r w' = Inr v"
proof -
  obtain existing where ex: "getRow i w = Inr existing"
    using assms by (cases "getRow i w") (auto simp: updateEvent_def)
  obtain s1 where s1: "name_set (ei_name patch) = Inr s1"
    using assms ex by (cases "name_set (ei_name patch)") (auto simp: updateEvent_def)
  obtain s2 w1 where s2: "rename_set (ei_slug patch) existing w = (Inr s2, w1)"
    using assms ex s1 by (auto simp: updateEvent_def andThen_eq_Inr)
  have win: "assertWindow (Some (maybe_val (ei_status patch) (ev_status existing)))
       (eff_time (ei_startsAt patch) (ev_startsAt existing)) (eff_time (ei_endsAt patch) (ev_endsAt existing)) = None"
    using assms ex s1 s2 by (auto simp: updateEvent_def split: option.splits)
  obtain s5 where s5: "limits_set (ei_limitsOverride patch) = Inr s5"
    using assms ex s1 s2 win by (cases "limits_set (ei_limitsOverride patch)") (auto simp: updateEvent_def)
  define s where "s = [(''updatedAt'', ev_updatedAt_update (\<lambda>_. clock w))] @ s1 @ s2 @ time_set patch @ flag_set patch @ s5
         @ set_nullable ''streamGuide'' (ei_streamGuide patch) (\<lambda>v. ev_streamGuide_update (\<lambda>_. v))"
  have "andThen (EventsRepository_update i (apply_set s) w1)
      (\<lambda>_. event_updated i (ei_groupIds patch) (map fst s) (ev_name existing)) = (Inr v, w')"
    using assms ex s1 s2 win s5 by (simp add: updateEvent_def Let_def s_def)
  then obtain w2 where rest: "EventsRepository_update i (apply_set s) w1 = (Inr (), w2)"
    "event_updated i (ei_groupIds patch) (map fst s) (ev_name existing) w2 = (Inr v, w')"
    by (auto simp: andThen_eq_Inr)
  from event_updated_Inr[OF rest(2)] have "t_events w' = t_events w2" "t_aliases w' = t_aliases w2"
    "\<exists>r. EventsRepository_findById i w' = Some r \<and> event_toView r w' = Inr v" by auto
  with ex s1 s2 win s5 s_def rest(1) show ?thesis by (intro that) (auto simp: getRow_Inr)
qed

lemma event_update_Inr:
  assumes "EventsRepository_update i f w = (Inr (), w')" "EventsRepository_findById i w = Some e"
    "tbl_ok ev_id (t_events w)"
  shows "EventsRepository_findById i w' = Some (put_event (event_norm (f e)) i)"
    "t_aliases w' = t_aliases w" "\<And>j. j \<noteq> i \<Longrightarrow> EventsRepository_findById j w' = EventsRepository_findById j w"
    "tbl_find (\<lambda>e'. ev_slug e' = ev_slug (f e) \<and> ev_id e' \<noteq> i) (t_events w) = None"
proof -
  have w': "w' = w\<lparr>t_events := tbl_update (\<lambda>e. ev_id e = i) (\<lambda>e. put_event (event_norm (f e)) (ev_id e)) (t_events w)\<rparr>"
    and none: "tbl_find (\<lambda>e'. ev_slug e' = ev_slug (f e) \<and> ev_id e' \<noteq> i) (t_events w) = None"
    using assms(1,2) by (auto simp: EventsRepository_update_def split: if_splits)
  have e: "ev_id e = i" using EventsRepository_findById_Some[OF assms(2)] by simp
  show "EventsRepository_findById i w' = Some (put_event (event_norm (f e)) i)"
    using assms(2) e by (simp add: w' EventsRepository_findById_def evts.find_update)
  show "\<And>j. j \<noteq> i \<Longrightarrow> EventsRepository_findById j w' = EventsRepository_findById j w"
    by (simp add: w' EventsRepository_findById_def evts.find_update)
qed (use assms in \<open>auto simp: EventsRepository_update_def split: if_splits\<close>)

lemma findById_cong: "t_events d' = t_events d \<Longrightarrow> EventsRepository_findById i d' = EventsRepository_findById i d"
  by (simp add: EventsRepository_findById_def)

lemma alias_set_find:
  "EventSlugAliasesRepository_set s i d = (Inr (), d') \<Longrightarrow>
    (\<exists>a. EventSlugAliasesRepository_findByOldSlug s d' = Some a \<and> al_eventId a = i) \<and> t_events d' = t_events d"
proof -
  have *: "find (\<lambda>a. al_oldSlug a = s) (map (\<lambda>a. if al_oldSlug a = s then a\<lparr>al_eventId := i\<rparr> else a) as)
      = map_option (\<lambda>a. a\<lparr>al_eventId := i\<rparr>) (find (\<lambda>a. al_oldSlug a = s) as)" for as :: "event_slug_alias_row list"
    by (induction as) auto
  show "EventSlugAliasesRepository_set s i d = (Inr (), d') \<Longrightarrow> ?thesis"
    by (auto simp: EventSlugAliasesRepository_set_def EventSlugAliasesRepository_findByOldSlug_def * find_append
        split: if_splits option.splits)
qed

lemma updateEvent_renamed:
  assumes "integrity w" "updateEvent i patch w = (Inr v, w')" "ei_slug patch = Val s"
    and "EventsRepository_findById i w = Some old" "js_trim s \<noteq> ev_slug old"
  shows "\<exists>e. EventsRepository_findById i w' = Some e \<and> ev_slug e = js_trim s \<and> EVENT_KEY_RE (ev_slug e)
    \<and> ev_publishKey e = Some (js_trim s)
    \<and> (\<forall>j e'. j \<noteq> i \<longrightarrow> EventsRepository_findById j w' = EventsRepository_findById j w
         \<and> (EventsRepository_findById j w' = Some e' \<longrightarrow> ev_slug e' \<noteq> js_trim s))
    \<and> (\<exists>a. EventSlugAliasesRepository_findByOldSlug (ev_slug old) w' = Some a \<and> al_eventId a = i)
    \<and> EventSlugAliasesRepository_findByOldSlug (js_trim s) w' = None"
proof -
  obtain existing s1 s2 s5 w1 w2 st where u:
    "EventsRepository_findById i w = Some existing" "name_set (ei_name patch) = Inr s1"
    "rename_set (ei_slug patch) existing w = (Inr s2, w1)"
    "limits_set (ei_limitsOverride patch) = Inr s5"
    "st = [(''updatedAt'', ev_updatedAt_update (\<lambda>_. clock w))] @ s1 @ s2 @ time_set patch @ flag_set patch @ s5
         @ set_nullable ''streamGuide'' (ei_streamGuide patch) (\<lambda>v. ev_streamGuide_update (\<lambda>_. v))"
    "EventsRepository_update i (apply_set st) w1 = (Inr (), w2)"
    "t_events w' = t_events w2" "t_aliases w' = t_aliases w2"
    by (rule updateEvent_Inr[OF assms(2)])
  have old: "existing = old" and id: "ev_id old = i"
    using u(1) assms(4) EventsRepository_findById_Some[OF assms(4)] by auto
  let ?n = "js_trim s"
  obtain w0 where ren: "EVENT_KEY_RE ?n" "\<not> slug_taken ?n (Some i) w"
    "EventSlugAliasesRepository_set (ev_slug old) i w = (Inr (), w0)"
    "w1 = EventSlugAliasesRepository_remove ?n w0"
    "s2 = [(''slug'', ev_slug_update (\<lambda>_. ?n)), (''publishKey'', ev_publishKey_update (\<lambda>_. Some ?n))]"
    using u(3) assms(3,5) old id
    by (auto simp: rename_set_def andThen_eq_Inr validEventKey_Inr split: sum.splits if_splits)
  note al = alias_set_find[OF ren(3)]
  have ev1: "t_events w1 = t_events w" using al by (simp add: ren(4))
  have ids: "tbl_ok ev_id (t_events w1)" using assms(1) by (simp add: ev1 schema_decls)
  have f1: "EventsRepository_findById i w1 = Some old"
    using assms(4) by (simp add: findById_cong[OF ev1])
  note upd = event_update_Inr[OF u(6) f1 ids]
  have new: "ev_slug (apply_set st old) = ?n" "ev_publishKey (apply_set st old) = Some ?n"
    using sets_keep_slug(1)[OF u(2)] sets_keep_slug(6)[OF u(4)]
    by (simp_all add: u(5) ren(5) apply_set_append apply_set_Cons apply_set_Nil sets_keep_slug)
  let ?e = "put_event (event_norm (apply_set st old)) i"
  have look: "EventsRepository_findById j w' = EventsRepository_findById j w2" for j
    by (rule findById_cong[OF u(7)])
  have uniq: "ev_slug e' \<noteq> ?n" if "j \<noteq> i" "EventsRepository_findById j w' = Some e'" for j e'
  proof -
    have "EventsRepository_findById j w = Some e'"
      using that upd(3)[of j] by (simp add: look findById_cong[OF ev1])
    with that(1) have "e' \<in> set (rows (t_events w))" "ev_id e' \<noteq> i"
      using EventsRepository_findById_Some by blast+
    with upd(4) show ?thesis by (auto simp: tbl_find_None ev1 new)
  qed
  have "EventSlugAliasesRepository_findByOldSlug (ev_slug old) w'
      = EventSlugAliasesRepository_findByOldSlug (ev_slug old) w0"
    using assms(5) by (simp add: alias_find_cong[OF u(8)] alias_find_cong[OF upd(2)] ren(4) alias_remove_other)
  moreover have "EventSlugAliasesRepository_findByOldSlug ?n w' = None"
    by (simp add: alias_find_cong[OF u(8)] alias_find_cong[OF upd(2)] ren(4))
  moreover have "ev_slug ?e = ?n" "ev_publishKey ?e = Some ?n"
    using new by (simp_all add: put_event_def event_norm_def)
  ultimately show ?thesis
    using upd(1,3) al ren(1) uniq
    by (intro exI[of _ ?e]) (auto simp: look findById_cong[OF ev1])
qed


text \<open>C5 Renaming an event: when a patch with a new key succeeds, the event has exactly that key,
  over the allowed alphabet, its publish key is the same, no other event has it, the retired
  key redirects to the event, no alias shadows the new key, and every other event keeps its
  row.\<close>

theorem updateEvent_rename:
  assumes "integrity w" "updateEvent i patch w = (Inr v, w')" "ei_slug patch = Val s"
    and "EventsRepository_findById i w = Some old" "js_trim s \<noteq> ev_slug old"
  shows "\<exists>e. EventsRepository_findById i w' = Some e \<and> ev_slug e = js_trim s \<and> EVENT_KEY_RE (ev_slug e)
    \<and> ev_publishKey e = Some (js_trim s)
    \<and> (\<forall>j e'. j \<noteq> i \<longrightarrow> EventsRepository_findById j w' = EventsRepository_findById j w
         \<and> (EventsRepository_findById j w' = Some e' \<longrightarrow> ev_slug e' \<noteq> js_trim s))
    \<and> (\<exists>a. EventSlugAliasesRepository_findByOldSlug (ev_slug old) w' = Some a \<and> al_eventId a = i)
    \<and> EventSlugAliasesRepository_findByOldSlug (js_trim s) w' = None"
  by (rule updateEvent_renamed[OF assms])

section \<open>Publish credentials: what is stored is what OBS can carry\<close>

definition clean_secret :: "string \<Rightarrow> bool" where
  "clean_secret t = (PUBLISH_TOKEN_RE t \<and> PUBLISH_TOKEN_MIN \<le> length t \<and> length t \<le> PUBLISH_TOKEN_MAX)"

lemma generated_clean: "clean_secret (fst (generateToken 24 w))"
proof -
  have "stream_char c \<Longrightarrow> token_char c" for c
    by (auto simp: stream_char_def token_char_def)
  moreover have "fst (generateToken 24 w) \<noteq> []"
    using generateToken_ok[of 24 w] by (intro notI) simp
  ultimately show ?thesis
    using generateToken_ok[of 24 w]
    by (simp add: clean_secret_def PUBLISH_TOKEN_RE_def PUBLISH_TOKEN_MIN_def PUBLISH_TOKEN_MAX_def list_all_iff)
qed

lemma generateToken_frame:
  "t_events (snd (generateToken n w)) = t_events w" "clock (snd (generateToken n w)) = clock w"
  "t_aliases (snd (generateToken n w)) = t_aliases w" "t_streamKeys (snd (generateToken n w)) = t_streamKeys w"
  by (simp_all add: generateToken_def Let_def case_prod_unfold)

lemma hashToken_frame:
  "t_events (snd (hashToken x t w)) = t_events w" "clock (snd (hashToken x t w)) = clock w"
  "t_streamKeys (snd (hashToken x t w)) = t_streamKeys w"
  by (simp_all add: hashToken_def hashPassword_def Let_def case_prod_unfold)

lemma choose_secret_clean:
  assumes "choose_secret what custom w = (Inr (t, c), w')"
  shows "clean_secret t" "t_events w' = t_events w" "t_streamKeys w' = t_streamKeys w"
proof -
  have eq: "generateToken 24 w = (t, w') \<Longrightarrow> clean_secret t \<and> t_events w' = t_events w \<and> t_streamKeys w' = t_streamKeys w"
    using generated_clean[of w] generateToken_frame[of 24 w] by simp
  from assms eq show "clean_secret t" "t_events w' = t_events w" "t_streamKeys w' = t_streamKeys w"
    by (auto simp: choose_secret_def Let_def clean_secret_def split: maybe.splits if_splits prod.splits)
qed

lemma clean_secret_parses: "clean_secret t \<Longrightarrow> parseToken (''?token='' @ t) = Some t \<and> t \<noteq> []"
  using parse_token_plain[of t] by (auto simp: clean_secret_def PUBLISH_TOKEN_RE_def)

lemma rotatePublishToken_Inr:
  assumes "rotatePublishToken x i custom w = (Inr (t, p, c), w')"
  obtains e w1 h w2 w3 where "EventsRepository_findById i w = Some e"
    "choose_secret ''Token'' custom w = (Inr (t, c), w1)" "hashToken x t w1 = (h, w2)" "p = take 8 t"
    "EventsRepository_update i (\<lambda>e. e\<lparr>ev_publishTokenHash := Some h, ev_publishTokenPrefix := Some (take 8 t),
       ev_updatedAt := clock w2\<rparr>) w2 = (Inr (), w3)"
    "t_events w' = t_events w3"
proof -
  obtain e where e: "EventsRepository_findById i w = Some e"
    using assms by (cases "EventsRepository_findById i w") (auto simp: rotatePublishToken_def getRow_def)
  then have "getRow i w = Inr e" by (simp add: getRow_Inr)
  with assms obtain t' c' w1 where ch: "choose_secret ''Token'' custom w = (Inr (t', c'), w1)"
    by (cases "choose_secret ''Token'' custom w"; cases "fst (choose_secret ''Token'' custom w)")
       (auto simp: rotatePublishToken_def)
  obtain h w2 where h: "hashToken x t' w1 = (h, w2)" by (cases "hashToken x t' w1") auto
  with assms e ch obtain w3 where
    "EventsRepository_update i (\<lambda>e. e\<lparr>ev_publishTokenHash := Some h, ev_publishTokenPrefix := Some (take 8 t'),
       ev_updatedAt := clock w2\<rparr>) w2 = (Inr (), w3)" "t = t'" "c = c'" "p = take 8 t'" "t_events w' = t_events w3"
    by (auto simp: rotatePublishToken_def getRow_def andThen_eq_Inr Let_def)
  with e ch h show ?thesis by (intro that) auto
qed

text \<open>Rotating an event's publish token: the token handed out (generated, or a custom one
  that passed the checks) has 8 to 128 characters that pass through an RTMP query unchanged;
  the event stores only a hash that verifies it and its first 8 characters; no other event
  changes; and a publisher who presents it is looked up to an event whose hash it
  verifies, so the prefix index never hides it.\<close>

theorem rotatePublishToken_ok:
  assumes "tbl_ok ev_id (t_events w)" "rotatePublishToken x i custom w = (Inr (t, p, c), w')"
  shows "clean_secret t \<and> parseToken (''?token='' @ t) = Some t
    \<and> (\<exists>e h. EventsRepository_findById i w' = Some e \<and> ev_publishTokenHash e = Some h \<and> verifyToken x t h
          \<and> ev_publishTokenPrefix e = Some p \<and> p = take 8 t)
    \<and> (\<forall>j. j \<noteq> i \<longrightarrow> EventsRepository_findById j w' = EventsRepository_findById j w)
    \<and> (\<exists>e h. findEventByPublishToken x t w' = Some e \<and> ev_publishTokenHash e = Some h \<and> verifyToken x t h)"
proof -
  obtain e w1 h w2 w3 where r: "EventsRepository_findById i w = Some e"
    "choose_secret ''Token'' custom w = (Inr (t, c), w1)" "hashToken x t w1 = (h, w2)" "p = take 8 t"
    "EventsRepository_update i (\<lambda>e. e\<lparr>ev_publishTokenHash := Some h, ev_publishTokenPrefix := Some (take 8 t),
       ev_updatedAt := clock w2\<rparr>) w2 = (Inr (), w3)"
    "t_events w' = t_events w3"
    by (rule rotatePublishToken_Inr[OF assms(2)])
  note ch = choose_secret_clean[OF r(2)]
  have ev: "t_events w2 = t_events w" using hashToken_frame(1)[of x t w1] ch(2) r(3) by simp
  have fi: "EventsRepository_findById j w2 = EventsRepository_findById j w" for j
    by (rule findById_cong[OF ev])
  have fi': "EventsRepository_findById j w' = EventsRepository_findById j w3" for j
    by (rule findById_cong[OF r(6)])
  note up = event_update_Inr[OF r(5), of e, unfolded fi ev, OF r(1) assms(1)]
  have h: "verifyToken x t h" "h \<noteq> []"
    using verify_hashPassword[of x t t w1] r(3)
    by (simp_all add: hashToken_def verifyToken_def hashPassword_def case_prod_unfold Let_def) auto
  obtain e' where e': "EventsRepository_findById i w' = Some e'" "ev_publishTokenHash e' = Some h"
    "ev_publishTokenPrefix e' = Some (take 8 t)"
    using up(1) by (auto simp: fi' put_event_def event_norm_def)
  then have "e' \<in> set (EventsRepository_findByPublishTokenPrefix (take 8 t) w')"
    using EventsRepository_findById_Some[OF e'(1)]
    by (simp add: EventsRepository_findByPublishTokenPrefix_def tbl_select_def)
  moreover have "8 \<le> length t" using ch(1) by (simp add: clean_secret_def PUBLISH_TOKEN_MIN_def)
  ultimately have "findEventByPublishToken x t w' \<noteq> None"
    using e' h by (auto simp: findEventByPublishToken_def find_None_iff)
  moreover have "findEventByPublishToken x t w' = Some e'' \<Longrightarrow>
      \<exists>h. ev_publishTokenHash e'' = Some h \<and> verifyToken x t h" for e''
    by (auto simp: findEventByPublishToken_def dest!: find_SomeD split: if_splits option.splits)
  ultimately show ?thesis
    using ch(1) clean_secret_parses e' h r(4) up(3) by (auto simp: fi')
qed



section \<open>Concrete runs\<close>

definition no_input :: event_input where
  "no_input = \<lparr>ei_name = Undefined, ei_slug = Undefined, ei_description = Undefined, ei_startsAt = Undefined,
     ei_endsAt = Undefined, ei_status = Undefined, ei_limitsOverride = Undefined, ei_recordEnabled = Undefined,
     ei_strictLimits = Undefined, ei_enforceMeasuredLimits = Undefined, ei_visibility = Undefined,
     ei_streamGuide = Undefined, ei_groupIds = Undefined\<rparr>"

definition spring_input :: event_input where
  "spring_input = no_input\<lparr>ei_name := Val '' Spring '', ei_slug := Val ''spring-1'', ei_status := Val Scheduled,
     ei_startsAt := Val 2000, ei_endsAt := Val 9000\<rparr>"

definition planned :: core where
  "planned = demo_core\<lparr>t_events := \<lparr>rows = [demo_event\<lparr>ev_status := Scheduled\<rparr>], seq = 2\<rparr>\<rparr>"

theorem createEvent_ok_witness:
  "\<exists>e. rows (t_events (snd (createEvent spring_input demo_core))) = [e] \<and> ev_slug e = ''spring-1'' \<and> window_sane e"
proof -
  have "\<not> isl (fst (createEvent spring_input demo_core))" by code_simp
  then obtain v where v: "createEvent spring_input demo_core = (Inr v, snd (createEvent spring_input demo_core))"
    using outcome_ok by blast
  have "js_trim (maybe_val (ei_slug spring_input) []) = ''spring-1''" "rows (t_events demo_core) = []" by code_simp+
  with createEvent_ok[OF v] show ?thesis by auto
qed

theorem createEvent_refuses_witness:
  "createEvent (spring_input\<lparr>ei_slug := Val ''contest''\<rparr>) planned = (Inl (HttpError 409 ''slug already used''), planned)"
proof -
  have "fst (createEvent (spring_input\<lparr>ei_slug := Val ''contest''\<rparr>) planned) = Inl (HttpError 409 ''slug already used'')"
    by code_simp
  then have "createEvent (spring_input\<lparr>ei_slug := Val ''contest''\<rparr>) planned
      = (Inl (HttpError 409 ''slug already used''), snd (createEvent (spring_input\<lparr>ei_slug := Val ''contest''\<rparr>) planned))"
    by (metis prod.collapse)
  from createEvent_refuses[OF this] this show ?thesis by simp
qed

theorem updateEvent_rename_witness:
  "\<exists>e a. EventsRepository_findById 1 (snd (updateEvent 1 (no_input\<lparr>ei_slug := Val ''finals''\<rparr>) planned)) = Some e
     \<and> ev_slug e = ''finals'' \<and> EventSlugAliasesRepository_findByOldSlug ''contest''
          (snd (updateEvent 1 (no_input\<lparr>ei_slug := Val ''finals''\<rparr>) planned)) = Some a \<and> al_eventId a = 1"
proof -
  let ?r = "updateEvent 1 (no_input\<lparr>ei_slug := Val ''finals''\<rparr>) planned"
  have ok: "integrity planned"
    by (simp add: planned_def demo_core_def schema_decls db_empty_def tbl_empty_def demo_event_def event_values_def
        tbl_ok_def event_ban_keys_def db.defs core.defs)
  have "\<not> isl (fst ?r)" by code_simp
  then obtain v where v: "?r = (Inr v, snd ?r)" using outcome_ok by blast
  have old: "EventsRepository_findById 1 planned = Some (demo_event\<lparr>ev_status := Scheduled\<rparr>)" by code_simp
  have s: "ei_slug (no_input\<lparr>ei_slug := Val ''finals''\<rparr>) = Val ''finals''" by simp
  have n: "js_trim ''finals'' = ''finals''" by code_simp
  from updateEvent_rename[OF ok v s old] n show ?thesis
    by (auto simp: demo_event_def event_values_def)
qed

theorem rotatePublishToken_ok_witness:
  "\<exists>t p c. clean_secret t \<and> fst (rotatePublishToken demo_externals 1 Undefined planned) = Inr (t, p, c)"
proof -
  let ?r = "rotatePublishToken demo_externals 1 Undefined planned"
  have ok: "tbl_ok ev_id (t_events planned)"
    by (simp add: planned_def tbl_ok_def demo_event_def)
  have "\<not> isl (fst ?r)" by code_simp
  then obtain v where "?r = (Inr v, snd ?r)" using outcome_ok by blast
  moreover obtain t p c where "v = (t, p, c)" by (cases v) auto
  ultimately have v: "?r = (Inr (t, p, c), snd ?r)" by simp
  from rotatePublishToken_ok[OF ok v] v show ?thesis by (metis fst_conv)
qed

text \<open>Clearing the start of a scheduled event is accepted, because the new null falls back to
  the old start in the check: a scheduled event without a window.\<close>

lemma updateEvent_loses_window:
  "list_all (\<lambda>e. ev_status e = Scheduled \<and> ev_startsAt e = None)
     (rows (t_events (snd (updateEvent 1 (no_input\<lparr>ei_startsAt := Null\<rparr>) planned))))"
  by code_simp

text \<open>A refused rename still leaves an alias of the old key behind.\<close>

lemma updateEvent_refused_alias:
  "fst (updateEvent 1 (no_input\<lparr>ei_slug := Val ''finals'', ei_endsAt := Val 500\<rparr>) planned)
      = Inl (HttpError 400 ''end time must be after the start time'')
   \<and> map al_oldSlug (t_aliases (snd (updateEvent 1 (no_input\<lparr>ei_slug := Val ''finals'', ei_endsAt := Val 500\<rparr>)
        planned))) = [''contest'']"
  by code_simp

text \<open>Nothing keeps two events from one publish key; the first of them answers for both.\<close>

definition two_events :: core where
  "two_events = planned\<lparr>t_events := \<lparr>rows = [demo_event, demo_event\<lparr>ev_id := 2, ev_slug := ''final'', ev_publishKey := None\<rparr>],
     seq = 3\<rparr>\<rparr>"

lemma setPublishKey_shared:
  "map ev_publishKey (rows (t_events (snd (setPublishKey 2 (Val ''contest'') two_events)))) = [Some ''contest'', None]"
  "map ev_publishKey (rows (t_events (snd (setPublishKey 1 (Val ''contest-key'')
      (snd (setPublishKey 2 (Val ''contest-key'') two_events)))))) = [Some ''contest-key'', Some ''contest-key'']"
  by code_simp+

text \<open>groupIds: null clears the scope of the event and then fails.\<close>

lemma update_scope_null:
  "fst (update_scope i Null d) = Inl (JsError ''TypeError'')"
  "t_eventGroups (snd (update_scope i Null d)) = filter (\<lambda>g. eg_eventId g \<noteq> i) (t_eventGroups d)"
  by (simp_all add: update_scope_def)

end
