(* ===== verification/StreamKeys.thy ===== *)
theory StreamKeys
  imports Events
begin

text \<open>
  services/stream-keys.ts and services/roster.ts: the roster of an event (students and their
  enrollments) and the stream keys handed to them.  The plaintext of a key leaves the
  server once; generating again for the same name rotates it in place.
\<close>

section \<open>Names\<close>

lemma nat_digits_lt: "n < 10 \<Longrightarrow> nat_digits n = [char_of (48 + n)]"
  by (simp add: nat_digits.simps)

lemma nat_digits_ge: "10 \<le> n \<Longrightarrow> nat_digits n = nat_digits (n div 10) @ [char_of (48 + n mod 10)]"
  by (subst nat_digits.simps) simp

lemma digit_inj: "a < 10 \<Longrightarrow> b < 10 \<Longrightarrow> char_of (48 + a) = (char_of (48 + b) :: char) \<Longrightarrow> a = (b::nat)"
  by (drule arg_cong[of _ _ "of_char :: char \<Rightarrow> nat"]) simp

lemma nat_digits_nonempty: "nat_digits n \<noteq> []"
  by (cases "n < 10") (simp_all add: nat_digits_lt nat_digits_ge)

lemma nat_digits_long: "10 \<le> n \<Longrightarrow> length (nat_digits n) \<noteq> 1"
  using nat_digits_nonempty by (simp add: nat_digits_ge)

lemma nat_digits_inj: "nat_digits a = nat_digits b \<Longrightarrow> a = b"
proof (induction a arbitrary: b rule: less_induct)
  case (less a)
  consider "a < 10" "b < 10" | "10 \<le> a" "10 \<le> b" | "a < 10" "10 \<le> b" | "10 \<le> a" "b < 10" by linarith
  then show ?case
  proof cases
    case 1
    with less.prems have "char_of (48 + a) = (char_of (48 + b) :: char)" by (simp add: nat_digits_lt)
    with 1 show ?thesis by (rule digit_inj)
  next
    case 2
    with less.prems have "nat_digits (a div 10) = nat_digits (b div 10)"
      "char_of (48 + a mod 10) = (char_of (48 + b mod 10) :: char)" by (simp_all add: nat_digits_ge)
    moreover from this(2) have "a mod 10 = b mod 10" by (intro digit_inj) simp_all
    moreover have "a div 10 < a" using 2 by simp
    ultimately show ?thesis using less.IH by (metis div_mult_mod_eq)
  next
    case 3
    with less.prems have "length (nat_digits b) = 1" by (metis nat_digits_lt One_nat_def length_Cons list.size(3))
    with 3 nat_digits_long show ?thesis by blast
  next
    case 4
    with less.prems have "length (nat_digits a) = 1" by (metis nat_digits_lt One_nat_def length_Cons list.size(3))
    with 4 nat_digits_long show ?thesis by blast
  qed
qed

text \<open>The candidates base, base-2, base-3, ...\<close>

definition name_candidate :: "string \<Rightarrow> nat \<Rightarrow> string" where
  "name_candidate base n = (if n = 1 then base else base @ ''-'' @ nat_digits n)"

lemma name_candidate_inj: "name_candidate base m = name_candidate base n \<Longrightarrow> m = n"
  using nat_digits_inj by (auto simp: name_candidate_def split: if_splits)

definition key_clash :: "int \<Rightarrow> int \<Rightarrow> string \<Rightarrow> 'z db_scheme \<Rightarrow> bool" where
  "key_clash ev en name d = (case StreamKeysRepository_findByEventAndName ev name d of
     None \<Rightarrow> False | Some k \<Rightarrow> sk_enrollmentId k \<noteq> Some en)"

lemma key_clash_taken: "key_clash ev en name d \<Longrightarrow> name \<in> sk_streamName ` set (rows (t_streamKeys d))"
  by (auto simp: key_clash_def StreamKeysRepository_findByEventAndName_def dest: tbl_find_Some split: option.splits)

definition taken_from :: "string \<Rightarrow> nat \<Rightarrow> 'z db_scheme \<Rightarrow> nat set" where
  "taken_from base n d = {m. n \<le> m \<and> name_candidate base m \<in> sk_streamName ` set (rows (t_streamKeys d))}"

lemma finite_taken_from: "finite (taken_from base n d)"
proof (rule finite_imageD)
  show "finite (name_candidate base ` taken_from base n d)"
    by (rule finite_subset[of _ "sk_streamName ` set (rows (t_streamKeys d))"]) (auto simp: taken_from_def)
  show "inj_on (name_candidate base) (taken_from base n d)"
    by (auto simp: inj_on_def dest: name_candidate_inj)
qed

text \<open>ensureUniqueStreamName: the first free candidate.  Every clash uses up a stored name, so
  the loop ends.\<close>

function unique_name :: "int \<Rightarrow> int \<Rightarrow> string \<Rightarrow> nat \<Rightarrow> 'z db_scheme \<Rightarrow> string" where
  "unique_name ev en base n d =
     (if key_clash ev en (name_candidate base n) d then unique_name ev en base (n + 1) d
      else name_candidate base n)"
  by pat_completeness auto
termination
proof (relation "measure (\<lambda>(ev, en, base, n, d). card (taken_from base n d))")
  fix ev en base n and d :: "'a db_scheme"
  assume "key_clash ev en (name_candidate base n) d"
  then have "n \<in> taken_from base n d" by (auto simp: taken_from_def dest: key_clash_taken)
  moreover have "taken_from base (n + 1) d \<subseteq> taken_from base n d" "n \<notin> taken_from base (n + 1) d"
    by (auto simp: taken_from_def)
  ultimately show "((ev, en, base, n + 1, d), ev, en, base, n, d) \<in> measure (\<lambda>(ev, en, base, n, d). card (taken_from base n d))"
    by (auto intro!: psubset_card_mono finite_taken_from)
qed simp

declare unique_name.simps [simp del]

definition ensureUniqueStreamName :: "int \<Rightarrow> int \<Rightarrow> string \<Rightarrow> 'z db_scheme \<Rightarrow> string" where
  "ensureUniqueStreamName ev en base d = unique_name ev en base 1 d"

lemma unique_name_free: "\<not> key_clash ev en (unique_name ev en base n d) d"
proof (induction ev en base n d rule: unique_name.induct)
  case (1 ev en base n d)
  then show ?case by (cases "key_clash ev en (name_candidate base n) d") (simp_all add: unique_name.simps[of _ _ _ n])
qed

lemma unique_name_cong: "t_streamKeys d' = t_streamKeys d \<Longrightarrow> key_clash ev en name d' = key_clash ev en name d"
  by (simp add: key_clash_def StreamKeysRepository_findByEventAndName_def)


section \<open>Generating keys\<close>

record key_input =
  gi_studentNumber :: string
  gi_name :: string
  gi_email :: "string option"
  gi_seatLabel :: "string option"
  gi_streamName :: "string option"

record generated_key =
  gk_id :: int
  gk_streamName :: string
  gk_token :: string
  gk_tokenPreview :: string
  gk_studentLabel :: string
  gk_studentNumber :: string

text \<open>x?.trim() || null\<close>

definition trim_or_null :: "string option \<Rightarrow> string option" where
  "trim_or_null s = (case s of None \<Rightarrow> None | Some t \<Rightarrow> if js_trim t = [] then None else Some (js_trim t))"

definition requireEventExists :: "int \<Rightarrow> 'z db_scheme \<Rightarrow> error option" where
  "requireEventExists ev d = (if EventsRepository_findById ev d = None
     then Some (HttpError 404 ''event not found'') else None)"

definition student_values :: "string \<Rightarrow> string \<Rightarrow> string option \<Rightarrow> student_row" where
  "student_values number name email = \<lparr>st_id = 0, st_studentNumber = number, st_name = name, st_email = email,
     st_createdAt = 0\<rparr>"

definition enrollment_values :: "int \<Rightarrow> int \<Rightarrow> string option \<Rightarrow> enrollment_row" where
  "enrollment_values ev st seat = \<lparr>en_id = 0, en_eventId = ev, en_studentId = st, en_seatLabel = seat,
     en_status = Active, en_createdAt = 0\<rparr>"

definition key_values :: "int \<Rightarrow> int \<Rightarrow> string \<Rightarrow> string \<Rightarrow> string \<Rightarrow> stream_key_row" where
  "key_values ev en name hash preview = \<lparr>sk_id = 0, sk_eventId = ev, sk_enrollmentId = Some en, sk_streamName = name,
     sk_tokenHash = hash, sk_tokenPreview = preview, sk_revoked = False, sk_lastUsedAt = None, sk_createdAt = 0\<rparr>"

text \<open>The student by number, inserted or with a refreshed profile, and read again.\<close>

definition upsert_student :: "string \<Rightarrow> string \<Rightarrow> string option \<Rightarrow> 'z db_scheme \<Rightarrow> (student_row, 'z db_scheme) outcome" where
  "upsert_student number name email w =
     (case StudentsRepository_findByStudentNumber number w of
        None \<Rightarrow> StudentsRepository_insert (student_values number name email) w
      | Some s \<Rightarrow> let w1 = StudentsRepository_updateProfile (st_id s) name (orElse email (st_email s)) w
                  in (case StudentsRepository_findById (st_id s) w1 of
                        None \<Rightarrow> (Inl (JsError ''TypeError''), w1) | Some s' \<Rightarrow> (Inr s', w1)))"

definition find_enrollment :: "int \<Rightarrow> int \<Rightarrow> string option \<Rightarrow> 'z db_scheme \<Rightarrow> (enrollment_row, 'z db_scheme) outcome" where
  "find_enrollment ev st seat w =
     (case EnrollmentsRepository_findByEventAndStudent ev st w of
        Some e \<Rightarrow> (Inr e, w)
      | None \<Rightarrow> EnrollmentsRepository_insert (enrollment_values ev st (trim_or_null seat)) w)"

text \<open>The token, hashed, into the key of that name or into a new one.\<close>

definition store_key :: "int \<Rightarrow> int \<Rightarrow> string \<Rightarrow> string \<Rightarrow> string \<Rightarrow> 'z db_scheme \<Rightarrow> (int, 'z db_scheme) outcome" where
  "store_key ev en name hash preview w =
     (case StreamKeysRepository_findByEventAndName ev name w of
        Some k \<Rightarrow> andThen (StreamKeysRepository_rotate (sk_id k) hash preview en w) (\<lambda>_ w1. (Inr (sk_id k), w1))
      | None \<Rightarrow> andThen (StreamKeysRepository_insert (key_values ev en name hash preview) w)
                  (\<lambda>k w1. (Inr (sk_id k), w1)))"

definition issue_key :: "externals \<Rightarrow> int \<Rightarrow> key_input \<Rightarrow> string \<Rightarrow> student_row \<Rightarrow> enrollment_row \<Rightarrow> 'z core_scheme \<Rightarrow>
    (generated_key, 'z core_scheme) outcome" where
  "issue_key x ev input number student enr w =
     (let (base, w1) = streamNameFor (orDefault (trim_or_null (gi_streamName input)) number) w;
          name = ensureUniqueStreamName ev (en_id enr) base w1;
          (token, w2) = generateToken 24 w1;
          (hash, w3) = hashToken x token w2;
          preview = tokenPreview token
      in andThen (store_key ev (en_id enr) name hash preview w3) (\<lambda>i w4.
           (Inr \<lparr>gk_id = i, gk_streamName = name, gk_token = token, gk_tokenPreview = preview,
                 gk_studentLabel = st_name student, gk_studentNumber = number\<rparr>,
            audit LInfo CAccess (''key generated: '' @ name @ '' ('' @ st_name student @ '')'')
              (no_opts\<lparr>ai_eventId := Some ev, ai_detail := Some (JObj [(''keyId'', json_int i),
                 (''streamName'', JStr name), (''studentNumber'', JStr number),
                 (''studentLabel'', JStr (st_name student))])\<rparr>) w4)))"

definition generateKeyForEvent :: "externals \<Rightarrow> int \<Rightarrow> key_input \<Rightarrow> 'z core_scheme \<Rightarrow>
    (generated_key, 'z core_scheme) outcome" where
  "generateKeyForEvent x ev input w =
     (case requireEventExists ev w of
        Some e \<Rightarrow> (Inl e, w)
      | None \<Rightarrow>
          let number = js_trim (gi_studentNumber input); name = js_trim (gi_name input) in
          if number = [] \<or> name = [] then (Inl (HttpError 400 ''studentNumber and name are required''), w)
          else andThen (upsert_student number name (trim_or_null (gi_email input)) w) (\<lambda>student w1.
               andThen (find_enrollment ev (st_id student) (gi_seatLabel input) w1) (\<lambda>enr.
               issue_key x ev input number student enr)))"

fun generate_each :: "externals \<Rightarrow> int \<Rightarrow> (enrollment_row \<times> student_row) list \<Rightarrow> 'z core_scheme \<Rightarrow>
    (generated_key list, 'z core_scheme) outcome" where
  "generate_each x ev [] w = (Inr [], w)"
| "generate_each x ev ((e, s) # es) w =
     andThen (generateKeyForEvent x ev \<lparr>gi_studentNumber = st_studentNumber s, gi_name = st_name s,
                gi_email = st_email s, gi_seatLabel = en_seatLabel e, gi_streamName = None\<rparr> w) (\<lambda>k w1.
     andThen (generate_each x ev es w1) (\<lambda>ks w2. (Inr (k # ks), w2)))"

definition generateKeysForUnkeyed :: "externals \<Rightarrow> int \<Rightarrow> 'z core_scheme \<Rightarrow> (generated_key list, 'z core_scheme) outcome" where
  "generateKeysForUnkeyed x ev w =
     (case requireEventExists ev w of
        Some e \<Rightarrow> (Inl e, w)
      | None \<Rightarrow>
          let keyed = StreamKeysRepository_findActiveEnrollmentIdsByEvent ev w
          in generate_each x ev (filter (\<lambda>(e, s). en_id e \<notin> set keyed)
                (EnrollmentsRepository_listWithStudentByEvent ev w)) w)"

record key_view =
  kv_id :: int
  kv_streamName :: string
  kv_tokenPreview :: string
  kv_revoked :: bool
  kv_lastUsedAt :: "int option"
  kv_createdAt :: int
  kv_studentNumber :: "string option"
  kv_studentLabel :: "string option"
  kv_seatLabel :: "string option"

definition listKeys :: "int \<Rightarrow> 'z db_scheme \<Rightarrow> key_view list" where
  "listKeys ev d = map (\<lambda>(k, st, seat). \<lparr>kv_id = sk_id k, kv_streamName = sk_streamName k,
       kv_tokenPreview = sk_tokenPreview k, kv_revoked = sk_revoked k, kv_lastUsedAt = sk_lastUsedAt k,
       kv_createdAt = sk_createdAt k, kv_studentNumber = map_option st_studentNumber st,
       kv_studentLabel = map_option st_name st, kv_seatLabel = seat\<rparr>)
     (StreamKeysRepository_listWithStudentByEvent ev d)"

definition revokeKey :: "int \<Rightarrow> int \<Rightarrow> 'z core_scheme \<Rightarrow> (unit, 'z core_scheme) outcome" where
  "revokeKey ev i w =
     (case StreamKeysRepository_findByEventAndId ev i w of
        None \<Rightarrow> (Inl (HttpError 404 ''key not found''), w)
      | Some k \<Rightarrow>
          if sk_revoked k then (Inr (), w)
          else (Inr (), audit LWarn CAccess (''key revoked: '' @ sk_streamName k)
                 (no_opts\<lparr>ai_eventId := Some ev, ai_streamName := Some (sk_streamName k),
                   ai_detail := Some (JObj [(''keyId'', json_int i)])\<rparr>) (StreamKeysRepository_revoke i w)))"


section \<open>The roster\<close>

record roster_entry =
  re_enrollmentId :: int
  re_studentId :: int
  re_studentNumber :: string
  re_name :: string
  re_email :: "string option"
  re_seatLabel :: "string option"
  re_status :: enrollment_status
  re_hasKey :: bool

definition listRoster :: "int \<Rightarrow> 'z db_scheme \<Rightarrow> error + roster_entry list" where
  "listRoster ev d =
     (case requireEventExists ev d of
        Some e \<Rightarrow> Inl e
      | None \<Rightarrow>
          let keyed = StreamKeysRepository_findActiveEnrollmentIdsByEvent ev d
          in Inr (map (\<lambda>(e, s). \<lparr>re_enrollmentId = en_id e, re_studentId = en_studentId e,
               re_studentNumber = st_studentNumber s, re_name = st_name s, re_email = st_email s,
               re_seatLabel = en_seatLabel e, re_status = en_status e, re_hasKey = en_id e \<in> set keyed\<rparr>)
               (EnrollmentsRepository_listWithStudentByEvent ev d)))"

record roster_input =
  ri_studentNumber :: "string option"
  ri_name :: "string option"
  ri_email :: "string option"
  ri_seatLabel :: "string option"

text \<open>One line of the import: nothing without a number and a name; otherwise the student and
  the enrollment are created or refreshed.  The flag says whether the enrollment is new.\<close>

definition import_one :: "int \<Rightarrow> roster_input \<Rightarrow> 'z db_scheme \<Rightarrow> (bool option, 'z db_scheme) outcome" where
  "import_one ev s w =
     (let number = js_trim (orDefault (ri_studentNumber s) []); name = js_trim (orDefault (ri_name s) []);
          email = trim_or_null (ri_email s)
      in if number = [] \<or> name = [] then (Inr None, w)
      else andThen (case StudentsRepository_findByStudentNumber number w of
             None \<Rightarrow> StudentsRepository_insert (student_values number name email) w
           | Some st \<Rightarrow> (Inr st, StudentsRepository_updateProfile (st_id st) name (orElse email (st_email st)) w))
           (\<lambda>student w1.
           case EnrollmentsRepository_findByEventAndStudent ev (st_id student) w1 of
             Some e \<Rightarrow> (Inr (Some False), EnrollmentsRepository_updateSeat (en_id e) (trim_or_null (ri_seatLabel s)) Active w1)
           | None \<Rightarrow> andThen (EnrollmentsRepository_insert (enrollment_values ev (st_id student)
                        (trim_or_null (ri_seatLabel s))) w1) (\<lambda>_ w2. (Inr (Some True), w2))))"

record import_result =
  ir_created :: int
  ir_updated :: int
  ir_total :: int

fun import_all :: "int \<Rightarrow> roster_input list \<Rightarrow> int \<Rightarrow> int \<Rightarrow> 'z db_scheme \<Rightarrow> (int \<times> int, 'z db_scheme) outcome" where
  "import_all ev [] c u w = (Inr (c, u), w)"
| "import_all ev (s # ss) c u w =
     andThen (import_one ev s w) (\<lambda>r.
       import_all ev ss (if r = Some True then c + 1 else c) (if r = Some False then u + 1 else u))"

definition importRoster :: "int \<Rightarrow> roster_input list \<Rightarrow> 'z core_scheme \<Rightarrow> (import_result, 'z core_scheme) outcome" where
  "importRoster ev input w =
     (case requireEventExists ev w of
        Some e \<Rightarrow> (Inl e, w)
      | None \<Rightarrow> andThen (import_all ev input 0 0 w) (\<lambda>(c, u) w1.
          (Inr \<lparr>ir_created = c, ir_updated = u, ir_total = int (length input)\<rparr>,
           audit LInfo CAdmin (''roster imported: +'' @ int_str c @ '' ~'' @ int_str u)
             (no_opts\<lparr>ai_eventId := Some ev, ai_detail := Some (JObj [(''created'', json_int c),
                (''updated'', json_int u), (''total'', json_int (int (length input)))])\<rparr>) w1)))"

definition removeEnrollment :: "int \<Rightarrow> int \<Rightarrow> 'z core_scheme \<Rightarrow> (unit, 'z core_scheme) outcome" where
  "removeEnrollment ev i w =
     (case requireEventExists ev w of
        Some e \<Rightarrow> (Inl e, w)
      | None \<Rightarrow>
          (case EnrollmentsRepository_findById i w of
             None \<Rightarrow> (Inl (HttpError 404 ''enrollment not found''), w)
           | Some e \<Rightarrow>
               if en_eventId e \<noteq> ev then (Inl (HttpError 404 ''enrollment not found''), w)
               else let w1 = StreamKeysRepository_revokeActiveByEnrollment i w;
                        w2 = EnrollmentsRepository_remove i w1
                    in (Inr (), audit LWarn CAdmin (''roster entry removed (enrollment '' @ int_str i @ '')'')
                          (no_opts\<lparr>ai_eventId := Some ev\<rparr>) w2)))"


section \<open>A new key opens the door\<close>

lemma upsert_student_frame:
  "upsert_student n m e w = (r, w') \<Longrightarrow> t_events w' = t_events w \<and> t_streamKeys w' = t_streamKeys w \<and> clock w' = clock w"
  by (auto simp: upsert_student_def StudentsRepository_insert_def StudentsRepository_updateProfile_def Let_def
      split: option.splits if_splits prod.splits)

lemma find_enrollment_frame:
  "find_enrollment ev st seat w = (r, w') \<Longrightarrow> t_events w' = t_events w \<and> t_streamKeys w' = t_streamKeys w \<and> clock w' = clock w"
  by (auto simp: find_enrollment_def EnrollmentsRepository_insert_def split: option.splits if_splits prod.splits)

lemma streamNameFor_frame:
  "t_events (snd (streamNameFor n w)) = t_events w" "t_streamKeys (snd (streamNameFor n w)) = t_streamKeys w"
  "clock (snd (streamNameFor n w)) = clock w"
  by (simp_all add: streamNameFor_def Let_def case_prod_unfold)

definition key_names_ok :: "'z db_scheme \<Rightarrow> bool" where
  "key_names_ok d \<longleftrightarrow> distinct (map (\<lambda>k. (sk_eventId k, sk_streamName k)) (rows (t_streamKeys d)))"

lemma key_names_inj:
  "key_names_ok d \<Longrightarrow> k \<in> set (rows (t_streamKeys d)) \<Longrightarrow> k' \<in> set (rows (t_streamKeys d)) \<Longrightarrow>
     sk_eventId k = sk_eventId k' \<Longrightarrow> sk_streamName k = sk_streamName k' \<Longrightarrow> k = k'"
  using inj_onD[of "\<lambda>k. (sk_eventId k, sk_streamName k)" "set (rows (t_streamKeys d))" k k']
  by (simp add: key_names_ok_def distinct_map)

lemma key_names_cong: "t_streamKeys d' = t_streamKeys d \<Longrightarrow> key_names_ok d' = key_names_ok d"
  by (simp add: key_names_ok_def)

text \<open>What store_key leaves: exactly one key of that event and name, valid, with that hash.\<close>

definition sole_key :: "int \<Rightarrow> string \<Rightarrow> stream_key_row \<Rightarrow> 'z db_scheme \<Rightarrow> bool" where
  "sole_key ev name k d \<longleftrightarrow> k \<in> set (rows (t_streamKeys d)) \<and> sk_eventId k = ev \<and> sk_streamName k = name \<and> \<not> sk_revoked k
     \<and> (\<forall>k'\<in>set (rows (t_streamKeys d)). sk_eventId k' = ev \<and> sk_streamName k' = name \<longrightarrow> k' = k)"

lemma store_key_rotate:
  assumes "key_names_ok w" "StreamKeysRepository_findByEventAndName ev name w = Some k0"
    and "StreamKeysRepository_rotate (sk_id k0) h p en w = (Inr (), w')"
  shows "\<exists>k. sole_key ev name k w' \<and> sk_id k = sk_id k0 \<and> sk_tokenHash k = h \<and> sk_enrollmentId k = Some en"
proof -
  let ?f = "\<lambda>k. k\<lparr>sk_tokenHash := h, sk_tokenPreview := p, sk_revoked := False, sk_lastUsedAt := None,
              sk_enrollmentId := Some en\<rparr>"
  have k0: "k0 \<in> set (rows (t_streamKeys w))" "sk_eventId k0 = ev" "sk_streamName k0 = name"
    using assms(2) by (auto simp: StreamKeysRepository_findByEventAndName_def dest: tbl_find_Some)
  have w': "rows (t_streamKeys w') = map (\<lambda>k. if sk_id k = sk_id k0 then ?f k else k) (rows (t_streamKeys w))"
    using assms(3) by (auto simp: StreamKeysRepository_rotate_def keys_set_def tbl_update_def split: if_splits)
  have sole: "k' = ?f k0" if "k' \<in> set (rows (t_streamKeys w'))" "sk_eventId k' = ev" "sk_streamName k' = name" for k'
  proof -
    from that(1) obtain k where k: "k \<in> set (rows (t_streamKeys w))" "k' = (if sk_id k = sk_id k0 then ?f k else k)"
      by (auto simp: w')
    with that have "sk_eventId k = ev" "sk_streamName k = name" by (auto split: if_splits)
    with k(1) k0 have "k = k0" by (intro key_names_inj[OF assms(1)]) auto
    with k(2) show ?thesis by simp
  qed
  have "?f k0 \<in> set (rows (t_streamKeys w'))" using k0(1) by (force simp: w')
  moreover define k where "k = ?f k0"
  moreover have "sk_eventId k = ev" "sk_streamName k = name" "\<not> sk_revoked k" "sk_id k = sk_id k0"
    "sk_tokenHash k = h" "sk_enrollmentId k = Some en"
    using k0(2,3) by (simp_all add: k_def)
  ultimately show ?thesis using sole unfolding sole_key_def by (metis (no_types, lifting))
qed

lemma store_key_insert:
  assumes "StreamKeysRepository_findByEventAndName ev name w = None"
    and "StreamKeysRepository_insert (key_values ev en name h p) w = (Inr k, w')"
  shows "sole_key ev name k w' \<and> sk_tokenHash k = h \<and> sk_enrollmentId k = Some en"
proof -
  have new: "k = put_key ((key_values ev en name h p)\<lparr>sk_createdAt := db_now w\<rparr>) (seq (t_streamKeys w))"
    "rows (t_streamKeys w') = rows (t_streamKeys w) @ [k]"
    using assms(2) by (auto simp: StreamKeysRepository_insert_def tbl_insert_def split: if_splits)
  moreover have "\<forall>k'\<in>set (rows (t_streamKeys w)). \<not> (sk_eventId k' = ev \<and> sk_streamName k' = name)"
    using assms(1) by (simp add: StreamKeysRepository_findByEventAndName_def tbl_find_None)
  ultimately show ?thesis by (auto simp: sole_key_def put_key_def key_values_def)
qed

lemma store_key_Inr:
  assumes "store_key ev en name h p w = (Inr i, w')" "key_names_ok w"
  shows "(\<exists>k. sole_key ev name k w' \<and> sk_id k = i \<and> sk_tokenHash k = h \<and> sk_enrollmentId k = Some en)
    \<and> t_events w' = t_events w \<and> clock w' = clock w"
proof (cases "StreamKeysRepository_findByEventAndName ev name w")
  case None
  with assms obtain k where k: "StreamKeysRepository_insert (key_values ev en name h p) w = (Inr k, w')" "i = sk_id k"
    by (auto simp: store_key_def andThen_eq_Inr)
  moreover from k(1) have "t_events w' = t_events w \<and> clock w' = clock w"
    by (auto simp: StreamKeysRepository_insert_def split: if_splits prod.splits)
  ultimately show ?thesis using store_key_insert[OF None k(1)] by blast
next
  case (Some k0)
  with assms have k: "StreamKeysRepository_rotate (sk_id k0) h p en w = (Inr (), w')" "i = sk_id k0"
    by (auto simp: store_key_def andThen_eq_Inr)
  moreover from k(1) have "t_events w' = t_events w \<and> clock w' = clock w"
    by (auto simp: StreamKeysRepository_rotate_def keys_set_def split: if_splits)
  ultimately show ?thesis using store_key_rotate[OF assms(2) Some k(1)] by blast
qed

lemma store_key_others:
  assumes "store_key ev en name h p w = (Inr i, w')" "tbl_ok sk_id (t_streamKeys w)"
    and "k \<in> set (rows (t_streamKeys w'))" "sk_eventId k \<noteq> ev"
  shows "k \<in> set (rows (t_streamKeys w))"
proof (cases "StreamKeysRepository_findByEventAndName ev name w")
  case None
  with assms(1,3,4) show ?thesis
    by (auto simp: store_key_def andThen_eq_Inr StreamKeysRepository_insert_def tbl_insert_def key_values_def
        put_key_def split: if_splits)
next
  case (Some k0)
  then have k0: "k0 \<in> set (rows (t_streamKeys w))" "sk_eventId k0 = ev"
    by (auto simp: StreamKeysRepository_findByEventAndName_def dest: tbl_find_Some)
  from assms(1) Some have "StreamKeysRepository_rotate (sk_id k0) h p en w = (Inr (), w')"
    by (auto simp: store_key_def andThen_eq_Inr)
  then have "rows (t_streamKeys w') = map (\<lambda>k. if sk_id k = sk_id k0 then k\<lparr>sk_tokenHash := h, sk_tokenPreview := p,
      sk_revoked := False, sk_lastUsedAt := None, sk_enrollmentId := Some en\<rparr> else k) (rows (t_streamKeys w))"
    by (auto simp: StreamKeysRepository_rotate_def keys_set_def tbl_update_def split: if_splits)
  with assms(3) obtain k1 where k1: "k1 \<in> set (rows (t_streamKeys w))" "sk_id k1 = sk_id k0 \<or> k = k1"
    "sk_eventId k = sk_eventId k1" by (auto split: if_splits)
  with assms(4) k0 skeys.key_inj[OF assms(2) k1(1) k0(1)] show ?thesis by auto
qed

lemma hash_verifies: "hashToken x t w = (h, w') \<Longrightarrow> verifyToken x t h \<and> h \<noteq> []"
  using verify_hashPassword[of x t t w]
  by (auto simp: hashToken_def verifyToken_def hashPassword_def case_prod_unfold Let_def)

lemma sole_key_cong: "t_streamKeys d' = t_streamKeys d \<Longrightarrow> sole_key ev n k d' = sole_key ev n k d"
  by (simp add: sole_key_def)

lemma issue_key_Inr:
  assumes "issue_key x ev input number student enr w = (Inr g, w')" "key_names_ok w" "tbl_ok sk_id (t_streamKeys w)"
  shows "(\<exists>k. sole_key ev (gk_streamName g) k w' \<and> sk_id k = gk_id g \<and> verifyToken x (gk_token g) (sk_tokenHash k)
            \<and> sk_enrollmentId k = Some (en_id enr))
    \<and> clean_secret (gk_token g) \<and> t_events w' = t_events w \<and> clock w' = clock w
    \<and> (\<forall>k\<in>set (rows (t_streamKeys w')). sk_eventId k \<noteq> ev \<longrightarrow> k \<in> set (rows (t_streamKeys w)))"
proof -
  obtain base w1 where b: "streamNameFor (orDefault (trim_or_null (gi_streamName input)) number) w = (base, w1)"
    by (metis surj_pair)
  obtain token w2 where t: "generateToken 24 w1 = (token, w2)" by (metis surj_pair)
  obtain hash w3 where h: "hashToken x token w2 = (hash, w3)" by (metis surj_pair)
  let ?name = "ensureUniqueStreamName ev (en_id enr) base w1"
  obtain i w4 where s: "store_key ev (en_id enr) ?name hash (tokenPreview token) w3 = (Inr i, w4)"
    "gk_id g = i" "gk_streamName g = ?name" "gk_token g = token"
    "t_streamKeys w' = t_streamKeys w4" "t_events w' = t_events w4" "clock w' = clock w4"
    using assms(1) by (auto simp: issue_key_def b t h Let_def andThen_eq_Inr)
  have f: "t_events w3 = t_events w" "clock w3 = clock w" "t_streamKeys w3 = t_streamKeys w"
    using streamNameFor_frame[of "orDefault (trim_or_null (gi_streamName input)) number" w]
      generateToken_frame[of 24 w1] hashToken_frame[of x token w2] b t h by simp_all
  have "key_names_ok w3" using assms(2) key_names_cong[OF f(3)] by simp
  from store_key_Inr[OF s(1) this] obtain k where k: "sole_key ev ?name k w4" "sk_id k = i" "sk_tokenHash k = hash"
    "sk_enrollmentId k = Some (en_id enr)" "t_events w4 = t_events w3" "clock w4 = clock w3" by blast
  have "sole_key ev ?name k w'" using k(1) sole_key_cong[OF s(5)] by simp
  moreover have "clean_secret token" using generated_clean[of w1] t by simp
  moreover have "\<forall>k\<in>set (rows (t_streamKeys w')). sk_eventId k \<noteq> ev \<longrightarrow> k \<in> set (rows (t_streamKeys w))"
    using store_key_others[OF s(1)] assms(3) s(5) f(3) by simp
  ultimately show ?thesis using k s f hash_verifies[OF h] by auto
qed

text \<open>The student and the enrollment that a key is issued for.\<close>

lemma upsert_student_Inr:
  assumes "upsert_student n m e w = (Inr s, w')" "tbl_ok st_id (t_students w)"
  shows "StudentsRepository_findById (st_id s) w' = Some s \<and> st_name s = m \<and> st_studentNumber s = n
    \<and> t_enrollments w' = t_enrollments w"
proof (cases "StudentsRepository_findByStudentNumber n w")
  case None
  let ?p = "put_student ((student_values n m e)\<lparr>st_createdAt := db_now w\<rparr>)"
  have "s = ?p (seq (t_students w))" "w' = w\<lparr>t_students := snd (tbl_insert ?p (t_students w))\<rparr>"
    using assms(1) None
    by (auto simp: upsert_student_def StudentsRepository_insert_def student_values_def tbl_insert_def split: if_splits)
  then show ?thesis
    using studs.find_inserted[OF assms(2), of "(student_values n m e)\<lparr>st_createdAt := db_now w\<rparr>"]
    by (simp add: StudentsRepository_findById_def put_student_def student_values_def)
next
  case (Some s0)
  then have s0: "s0 \<in> set (rows (t_students w))" "st_studentNumber s0 = n"
    by (auto simp: StudentsRepository_findByStudentNumber_def dest: tbl_find_Some)
  have "StudentsRepository_findById (st_id s0) (StudentsRepository_updateProfile (st_id s0) m (orElse e (st_email s0)) w)
      = Some (s0\<lparr>st_name := m, st_email := orElse e (st_email s0)\<rparr>)"
    using studs.find_key[OF assms(2) s0(1)]
    by (simp add: StudentsRepository_findById_def StudentsRepository_updateProfile_def studs.find_update)
  then show ?thesis
    using assms(1) Some s0(2) by (auto simp: upsert_student_def Let_def StudentsRepository_updateProfile_def)
qed

lemma find_enrollment_Inr:
  assumes "find_enrollment ev st seat w = (Inr e, w')" "tbl_ok en_id (t_enrollments w)"
  shows "EnrollmentsRepository_findById (en_id e) w' = Some e \<and> en_eventId e = ev \<and> en_studentId e = st \<and> en_id e \<noteq> 0
    \<and> t_students w' = t_students w"
proof (cases "EnrollmentsRepository_findByEventAndStudent ev st w")
  case None
  let ?v = "(enrollment_values ev st (trim_or_null seat))\<lparr>en_createdAt := db_now w\<rparr>"
  have "e = put_enrollment ?v (seq (t_enrollments w))"
    "w' = w\<lparr>t_enrollments := snd (tbl_insert (put_enrollment ?v) (t_enrollments w))\<rparr>"
    using assms(1) None
    by (auto simp: find_enrollment_def EnrollmentsRepository_insert_def tbl_insert_def split: if_splits)
  then show ?thesis
    using enrs.find_inserted[OF assms(2), of ?v] assms(2)
    by (simp add: EnrollmentsRepository_findById_def put_enrollment_def enrollment_values_def tbl_ok_def)
next
  case (Some e0)
  then have e: "e0 \<in> set (rows (t_enrollments w))" "en_eventId e0 = ev" "en_studentId e0 = st"
    by (auto simp: EnrollmentsRepository_findByEventAndStudent_def dest: tbl_find_Some)
  with assms Some show ?thesis
    using enrs.find_key[OF assms(2) e(1)] by (auto simp: find_enrollment_def EnrollmentsRepository_findById_def tbl_ok_def)
qed

lemma issue_key_people:
  "issue_key x ev input number student enr w = (Inr g, w') \<Longrightarrow>
     t_students w' = t_students w \<and> t_enrollments w' = t_enrollments w \<and> gk_studentLabel g = st_name student"
  by (auto simp: issue_key_def store_key_def Let_def case_prod_unfold andThen_eq_Inr streamNameFor_def generateToken_def
      hashToken_def hashPassword_def StreamKeysRepository_rotate_def StreamKeysRepository_insert_def keys_set_def
      split: option.splits if_splits)

text \<open>Whom a key of an event belongs to: the student with that number, under that name.\<close>

definition key_holder :: "int \<Rightarrow> string \<Rightarrow> string \<Rightarrow> int option \<Rightarrow> 'z db_scheme \<Rightarrow> bool" where
  "key_holder ev number name en d \<longleftrightarrow> (\<exists>e st. en = Some (en_id e) \<and> en_id e \<noteq> 0
     \<and> EnrollmentsRepository_findById (en_id e) d = Some e \<and> en_eventId e = ev
     \<and> StudentsRepository_findById (en_studentId e) d = Some st \<and> st_studentNumber st = number \<and> st_name st = name)"

lemma key_holder_label: "key_holder ev number name en d \<Longrightarrow> resolveStudentLabel en d = Some name"
  by (auto simp: key_holder_def resolveStudentLabel_def)

lemma generateKeyForEvent_Inr:
  assumes "generateKeyForEvent x ev input w = (Inr g, w')" "tbl_ok st_id (t_students w)" "tbl_ok en_id (t_enrollments w)"
  obtains number student enr w2 where "issue_key x ev input number student enr w2 = (Inr g, w')"
    "t_events w2 = t_events w" "t_streamKeys w2 = t_streamKeys w" "clock w2 = clock w"
    "key_holder ev (js_trim (gi_studentNumber input)) (js_trim (gi_name input)) (Some (en_id enr)) w'"
    "gk_studentLabel g = js_trim (gi_name input)"
proof -
  let ?number = "js_trim (gi_studentNumber input)" and ?name = "js_trim (gi_name input)"
  obtain student w1 enr w2 where
    s: "upsert_student ?number ?name (trim_or_null (gi_email input)) w = (Inr student, w1)" and
    e: "find_enrollment ev (st_id student) (gi_seatLabel input) w1 = (Inr enr, w2)" and
    i: "issue_key x ev input ?number student enr w2 = (Inr g, w')"
    using assms(1) by (auto simp: generateKeyForEvent_def Let_def andThen_eq_Inr split: option.splits if_splits)
  note s' = upsert_student_Inr[OF s assms(2)] and p = issue_key_people[OF i]
  have e': "EnrollmentsRepository_findById (en_id enr) w2 = Some enr" "en_eventId enr = ev" "en_studentId enr = st_id student"
    "en_id enr \<noteq> 0" "t_students w2 = t_students w1"
    using find_enrollment_Inr[OF e] s' assms(3) by simp_all
  then have "key_holder ev ?number ?name (Some (en_id enr)) w'"
    using s' p unfolding key_holder_def
    by (intro exI[of _ enr] exI[of _ student]) (simp add: EnrollmentsRepository_findById_def StudentsRepository_findById_def)
  moreover have "t_events w2 = t_events w" "t_streamKeys w2 = t_streamKeys w" "clock w2 = clock w"
    using upsert_student_frame[OF s] find_enrollment_frame[OF e] by simp_all
  ultimately show ?thesis using that i s' p by metis
qed

text \<open>C8 A generated key opens the door, and says whose it is: when generateKeyForEvent succeeds, the token
  it returns parses back from the publish URL, exactly one key of the event has the returned stream
  name, it is not revoked, belongs to the returned id and is bound to the enrollment in this event of
  the student with the given number and name; and while the event is live and inside its window,
  publishing that name with that token is admitted with this event, this key and, as its label, the
  student's name, provided no key of another event with the same name happens to verify the
  token.\<close>

theorem generateKey_admits:
  assumes "integrity w" "generateKeyForEvent x ev input w = (Inr g, w')"
    and "EventsRepository_findById ev w = Some e" "ev_status e = Live" "in_window (clock w) e"
    and "list_all (\<lambda>k. sk_streamName k = gk_streamName g \<and> sk_eventId k \<noteq> ev
           \<longrightarrow> \<not> verifyToken x (gk_token g) (sk_tokenHash k)) (rows (t_streamKeys w))"
  shows "fst (authorizePublish x (gk_streamName g) (''?token='' @ gk_token g) w')
      = Allow ev (gk_id g) (Some (js_trim (gi_name input)))
    \<and> gk_studentLabel g = js_trim (gi_name input)
    \<and> (\<exists>k. sole_key ev (gk_streamName g) k w' \<and> sk_id k = gk_id g
         \<and> key_holder ev (js_trim (gi_studentNumber input)) (js_trim (gi_name input)) (sk_enrollmentId k) w')"
proof -
  have ids: "tbl_ok st_id (t_students w)" "tbl_ok en_id (t_enrollments w)" using assms(1) by (simp_all add: schema_decls)
  obtain number student enr w2 where i: "issue_key x ev input number student enr w2 = (Inr g, w')"
    "t_events w2 = t_events w" "t_streamKeys w2 = t_streamKeys w" "clock w2 = clock w"
    "key_holder ev (js_trim (gi_studentNumber input)) (js_trim (gi_name input)) (Some (en_id enr)) w'"
    "gk_studentLabel g = js_trim (gi_name input)"
    by (rule generateKeyForEvent_Inr[OF assms(2) ids])
  have "key_names_ok w2"
    using assms(1) key_names_cong[OF i(3)] by (simp add: key_names_ok_def schema_decls)
  moreover have "tbl_ok sk_id (t_streamKeys w2)" using assms(1) by (simp add: i(3) schema_decls)
  ultimately obtain k where k: "sole_key ev (gk_streamName g) k w'" "sk_id k = gk_id g"
    "verifyToken x (gk_token g) (sk_tokenHash k)" "sk_enrollmentId k = Some (en_id enr)" and tok: "clean_secret (gk_token g)"
    and fr: "t_events w' = t_events w" "clock w' = clock w"
    and other: "\<forall>k\<in>set (rows (t_streamKeys w')). sk_eventId k \<noteq> ev \<longrightarrow> k \<in> set (rows (t_streamKeys w))"
    using issue_key_Inr[OF i(1)] unfolding i(2-4) by blast
  let ?keys = "StreamKeysRepository_findAllByStreamName (gk_streamName g) w'"
  have "k \<in> set ?keys" "\<not> sk_revoked k"
    using k(1) by (auto simp: sole_key_def StreamKeysRepository_findAllByStreamName_def tbl_select_def)
  with k(3) have "matching_key x (gk_token g) ?keys \<noteq> None" by (auto simp: matching_key_def find_None_iff)
  then obtain k' where k': "matching_key x (gk_token g) ?keys = Some k'" by auto
  note d = matching_keyD[OF k']
  with assms(6) other have "sk_eventId k' = ev" by (auto simp: list_all_iff)
  with d k(1) have "k' = k" by (auto simp: sole_key_def)
  moreover have "EventsRepository_findById ev w' = Some e" using assms(3) findById_cong[OF fr(1)] by metis
  moreover have "withinWindow (clock w') e = None" using assms(5) by (simp add: withinWindow_None fr(2))
  moreover have "resolveStudentLabel (sk_enrollmentId k) w' = Some (js_trim (gi_name input))"
    using key_holder_label[OF i(5)] k(4) by simp
  ultimately have "fst (authorizePublish x (gk_streamName g) (''?token='' @ gk_token g) w')
      = Allow ev (gk_id g) (Some (js_trim (gi_name input)))"
    using clean_secret_parses[OF tok] k' k(1,2) assms(4) EventsRepository_findById_Some[OF assms(3)]
    by (simp add: authorizePublish_def authorize_key_def sole_key_def)
  with k i(5,6) show ?thesis by metis
qed


text \<open>C9 Removing a student from the roster shuts the student out: the enrollment is gone and no
  other is, every key that was bound to it is revoked and unbound, every other key keeps
  its row, and no session or event is touched.\<close>

theorem removeEnrollment_revokes:
  assumes "removeEnrollment ev i w = (Inr (), w')"
  shows "rows (t_enrollments w') = filter (\<lambda>e. en_id e \<noteq> i) (rows (t_enrollments w))
    \<and> rows (t_streamKeys w') = map (\<lambda>k. if sk_enrollmentId k = Some i
         then k\<lparr>sk_revoked := True, sk_enrollmentId := None\<rparr> else k) (rows (t_streamKeys w))
    \<and> t_events w' = t_events w \<and> t_sessions w' = t_sessions w"
proof -
  obtain e where e: "EnrollmentsRepository_findById i w = Some e" "en_eventId e = ev"
    "t_enrollments w' = t_enrollments (EnrollmentsRepository_remove i (StreamKeysRepository_revokeActiveByEnrollment i w))"
    "t_streamKeys w' = t_streamKeys (EnrollmentsRepository_remove i (StreamKeysRepository_revokeActiveByEnrollment i w))"
    "t_events w' = t_events w" "t_sessions w' = t_sessions w"
    using assms
    by (auto simp: removeEnrollment_def Let_def EnrollmentsRepository_remove_def drop_enrollments_def
        StreamKeysRepository_revokeActiveByEnrollment_def keys_set_def split: option.splits if_splits)
  have "e \<in> set (rows (t_enrollments w))" "en_id e = i"
    using tbl_find_Some[OF e(1)[unfolded EnrollmentsRepository_findById_def]] by auto
  then have gone: "(\<exists>x\<in>set (map en_id (tbl_select (\<lambda>e. en_id e = i) (t_enrollments w))). y = Some x) = (y = Some i)" for y
    by (auto simp: tbl_select_def)
  show ?thesis
    using e(3-6) gone
    by (simp add: EnrollmentsRepository_remove_def drop_enrollments_def Let_def tbl_delete_def tbl_update_def
        StreamKeysRepository_revokeActiveByEnrollment_def keys_set_def)
qed


section \<open>Generating a key always succeeds\<close>

lemma upsert_student_total:
  assumes "tbl_ok st_id (t_students w)"
  shows "\<exists>s w'. upsert_student n m e w = (Inr s, w') \<and> StudentsRepository_findById (st_id s) w' = Some s
    \<and> t_enrollments w' = t_enrollments w"
proof (cases "StudentsRepository_findByStudentNumber n w")
  case None
  let ?p = "put_student ((student_values n m e)\<lparr>st_createdAt := db_now w\<rparr>)"
  have "upsert_student n m e w = (Inr (?p (seq (t_students w))), w\<lparr>t_students := snd (tbl_insert ?p (t_students w))\<rparr>)"
    using None by (simp add: upsert_student_def StudentsRepository_insert_def student_values_def tbl_insert_def)
  then show ?thesis
    using studs.find_inserted[OF assms] by (simp add: StudentsRepository_findById_def put_student_def)
next
  case (Some s)
  then have s: "s \<in> set (rows (t_students w))"
    by (auto simp: StudentsRepository_findByStudentNumber_def dest: tbl_find_Some)
  let ?f = "\<lambda>s. s\<lparr>st_name := m, st_email := orElse e (st_email s)\<rparr>"
  have "StudentsRepository_findById (st_id s) (StudentsRepository_updateProfile (st_id s) m (orElse e (st_email s)) w)
      = Some (?f s)"
    using studs.find_key[OF assms s]
    by (simp add: StudentsRepository_findById_def StudentsRepository_updateProfile_def studs.find_update)
  then show ?thesis using Some by (simp add: upsert_student_def StudentsRepository_updateProfile_def)
qed

lemma find_enrollment_total:
  assumes "tbl_ok en_id (t_enrollments w)" "EventsRepository_findById ev w \<noteq> None" "StudentsRepository_findById st w \<noteq> None"
  shows "\<exists>e w'. find_enrollment ev st seat w = (Inr e, w') \<and> EnrollmentsRepository_findById (en_id e) w' = Some e"
proof (cases "EnrollmentsRepository_findByEventAndStudent ev st w")
  case None
  let ?p = "put_enrollment ((enrollment_values ev st (trim_or_null seat))\<lparr>en_createdAt := db_now w\<rparr>)"
  have "find_enrollment ev st seat w = (Inr (?p (seq (t_enrollments w))),
      w\<lparr>t_enrollments := snd (tbl_insert ?p (t_enrollments w))\<rparr>)"
    using None assms by (simp add: find_enrollment_def EnrollmentsRepository_insert_def enrollment_values_def tbl_insert_def)
  then show ?thesis
    using enrs.find_inserted[OF assms(1)] by (simp add: EnrollmentsRepository_findById_def put_enrollment_def)
next
  case (Some e)
  then have "e \<in> set (rows (t_enrollments w))"
    by (auto simp: EnrollmentsRepository_findByEventAndStudent_def dest: tbl_find_Some)
  with Some show ?thesis
    using enrs.find_key[OF assms(1)] by (simp add: find_enrollment_def EnrollmentsRepository_findById_def)
qed

lemma store_key_total:
  assumes "EventsRepository_findById ev w \<noteq> None" "EnrollmentsRepository_findById en w \<noteq> None"
  shows "\<exists>i w'. store_key ev en name h p w = (Inr i, w')"
proof (cases "StreamKeysRepository_findByEventAndName ev name w")
  case None
  with assms show ?thesis
    by (auto simp: store_key_def StreamKeysRepository_insert_def key_values_def case_prod_unfold)
next
  case (Some k)
  with assms show ?thesis by (auto simp: store_key_def StreamKeysRepository_rotate_def)
qed

lemma issue_key_total:
  assumes "EventsRepository_findById ev w \<noteq> None" "EnrollmentsRepository_findById (en_id enr) w \<noteq> None"
  shows "\<exists>g w'. issue_key x ev input number student enr w = (Inr g, w')"
proof -
  let ?b = "streamNameFor (orDefault (trim_or_null (gi_streamName input)) number) w"
  let ?t = "generateToken 24 (snd ?b)"
  let ?h = "hashToken x (fst ?t) (snd ?t)"
  have en: "t_enrollments (snd ?h) = t_enrollments w"
    by (simp add: hashToken_def hashPassword_def generateToken_def streamNameFor_def Let_def case_prod_unfold)
  have "EventsRepository_findById ev (snd ?h) \<noteq> None"
    using assms(1) findById_cong[of "snd ?h" w] by (simp add: hashToken_frame generateToken_frame streamNameFor_frame)
  moreover have "EnrollmentsRepository_findById (en_id enr) (snd ?h) \<noteq> None"
    using assms(2) by (simp add: EnrollmentsRepository_findById_def en)
  ultimately obtain i w' where "store_key ev (en_id enr) (ensureUniqueStreamName ev (en_id enr) (fst ?b) (snd ?b))
      (fst ?h) (tokenPreview (fst ?t)) (snd ?h) = (Inr i, w')" using store_key_total by metis
  then show ?thesis by (simp add: issue_key_def case_prod_unfold Let_def)
qed

lemma generateKeyForEvent_total:
  assumes "integrity w" "EventsRepository_findById ev w \<noteq> None"
    and "js_trim (gi_studentNumber input) \<noteq> []" "js_trim (gi_name input) \<noteq> []"
  shows "\<exists>g w'. generateKeyForEvent x ev input w = (Inr g, w')"
proof -
  let ?number = "js_trim (gi_studentNumber input)"
  have ok: "tbl_ok st_id (t_students w)" "tbl_ok en_id (t_enrollments w)" using assms(1) by (simp_all add: schema_decls)
  obtain s w1 where s: "upsert_student ?number (js_trim (gi_name input)) (trim_or_null (gi_email input)) w = (Inr s, w1)"
    "StudentsRepository_findById (st_id s) w1 = Some s" "t_enrollments w1 = t_enrollments w"
    using upsert_student_total[OF ok(1)] by metis
  have ev1: "EventsRepository_findById ev w1 \<noteq> None"
    using assms(2) upsert_student_frame[OF s(1)] findById_cong by metis
  obtain e w2 where e: "find_enrollment ev (st_id s) (gi_seatLabel input) w1 = (Inr e, w2)"
    "EnrollmentsRepository_findById (en_id e) w2 = Some e"
    using find_enrollment_total[of w1 ev "st_id s"] ok(2) ev1 s by force
  have "EventsRepository_findById ev w2 \<noteq> None"
    using ev1 find_enrollment_frame[OF e(1)] findById_cong by metis
  then obtain g w' where "issue_key x ev input ?number s e w2 = (Inr g, w')" using issue_key_total e(2) by (metis option.distinct(1))
  with assms s e show ?thesis
    by (simp add: generateKeyForEvent_def requireEventExists_def Let_def)
qed


section \<open>The import\<close>

definition enrolled :: "int \<Rightarrow> string \<Rightarrow> 'z db_scheme \<Rightarrow> bool" where
  "enrolled ev number d \<longleftrightarrow> (\<exists>st\<in>set (rows (t_students d)). st_studentNumber st = number
     \<and> (\<exists>e\<in>set (rows (t_enrollments d)). en_eventId e = ev \<and> en_studentId e = st_id st \<and> en_status e = Active))"

definition line_number :: "roster_input \<Rightarrow> string" where
  "line_number s = js_trim (orDefault (ri_studentNumber s) [])"

definition line_valid :: "roster_input \<Rightarrow> bool" where
  "line_valid s = (line_number s \<noteq> [] \<and> js_trim (orDefault (ri_name s) []) \<noteq> [])"

lemma enrolledI:
  "st \<in> set (rows (t_students d)) \<Longrightarrow> st_studentNumber st = n \<Longrightarrow> e \<in> set (rows (t_enrollments d)) \<Longrightarrow>
     en_eventId e = ev \<Longrightarrow> en_studentId e = st_id st \<Longrightarrow> en_status e = Active \<Longrightarrow> enrolled ev n d"
  unfolding enrolled_def by blast

lemma enrolled_mono:
  assumes "enrolled ev n d"
    and "\<And>st. st \<in> set (rows (t_students d)) \<Longrightarrow>
           \<exists>st'\<in>set (rows (t_students d')). st_id st' = st_id st \<and> st_studentNumber st' = st_studentNumber st"
    and "\<And>e. e \<in> set (rows (t_enrollments d)) \<Longrightarrow> en_status e = Active \<Longrightarrow>
           \<exists>e'\<in>set (rows (t_enrollments d')). en_eventId e' = en_eventId e \<and> en_studentId e' = en_studentId e
              \<and> en_status e' = Active"
  shows "enrolled ev n d'"
proof -
  obtain st e where "st \<in> set (rows (t_students d))" "st_studentNumber st = n" "e \<in> set (rows (t_enrollments d))"
    "en_eventId e = ev" "en_studentId e = st_id st" "en_status e = Active"
    using assms(1) by (auto simp: enrolled_def)
  with assms(2)[of st] assms(3)[of e] show ?thesis unfolding enrolled_def by metis
qed

lemma enrolled_updateProfile: "enrolled ev n d \<Longrightarrow> enrolled ev n (StudentsRepository_updateProfile i m e d)"
  by (rule enrolled_mono[of ev n d]) (auto simp: StudentsRepository_updateProfile_def intro!: tbl_update_ex)

lemma enrolled_insert_student:
  "StudentsRepository_insert v d = (Inr s, d') \<Longrightarrow> enrolled ev n d \<Longrightarrow> enrolled ev n d'"
  by (rule enrolled_mono[of ev n d]) (auto simp: StudentsRepository_insert_def tbl_insert_def split: if_splits)

lemma enrolled_updateSeat: "enrolled ev n d \<Longrightarrow> enrolled ev n (EnrollmentsRepository_updateSeat i seat Active d)"
  by (rule enrolled_mono[of ev n d]) (auto simp: EnrollmentsRepository_updateSeat_def intro!: tbl_update_ex)

lemma enrolled_insert_enrollment:
  "EnrollmentsRepository_insert v d = (Inr e, d') \<Longrightarrow> enrolled ev n d \<Longrightarrow> enrolled ev n d'"
  by (rule enrolled_mono[of ev n d]) (auto simp: EnrollmentsRepository_insert_def tbl_insert_def split: if_splits)

definition line_student :: "roster_input \<Rightarrow> 'z db_scheme \<Rightarrow> (student_row, 'z db_scheme) outcome" where
  "line_student s w = (case StudentsRepository_findByStudentNumber (line_number s) w of
      None \<Rightarrow> StudentsRepository_insert (student_values (line_number s) (js_trim (orDefault (ri_name s) []))
                (trim_or_null (ri_email s))) w
    | Some st \<Rightarrow> (Inr st, StudentsRepository_updateProfile (st_id st) (js_trim (orDefault (ri_name s) []))
                (orElse (trim_or_null (ri_email s)) (st_email st)) w))"

definition line_enroll :: "int \<Rightarrow> roster_input \<Rightarrow> student_row \<Rightarrow> 'z db_scheme \<Rightarrow> (bool option, 'z db_scheme) outcome" where
  "line_enroll ev s student w1 = (case EnrollmentsRepository_findByEventAndStudent ev (st_id student) w1 of
      Some e \<Rightarrow> (Inr (Some False), EnrollmentsRepository_updateSeat (en_id e) (trim_or_null (ri_seatLabel s)) Active w1)
    | None \<Rightarrow> andThen (EnrollmentsRepository_insert (enrollment_values ev (st_id student)
                 (trim_or_null (ri_seatLabel s))) w1) (\<lambda>_ w2. (Inr (Some True), w2)))"

lemma import_one_alt: "import_one ev s w =
    (if line_valid s then andThen (line_student s w) (line_enroll ev s) else (Inr None, w))"
  unfolding import_one_def line_valid_def line_number_def line_student_def Let_def
  by (simp add: line_enroll_def[abs_def])

lemma line_student_Inr:
  assumes "line_student s w = (Inr st, w')"
  shows "(\<exists>st'\<in>set (rows (t_students w')). st_id st' = st_id st \<and> st_studentNumber st' = line_number s)
    \<and> t_enrollments w' = t_enrollments w \<and> (\<forall>n. enrolled ev n w \<longrightarrow> enrolled ev n w')"
proof (cases "StudentsRepository_findByStudentNumber (line_number s) w")
  case None
  with assms have "StudentsRepository_insert (student_values (line_number s) (js_trim (orDefault (ri_name s) []))
      (trim_or_null (ri_email s))) w = (Inr st, w')" by (simp add: line_student_def)
  moreover from this have "st \<in> set (rows (t_students w'))" "st_studentNumber st = line_number s"
    "t_enrollments w' = t_enrollments w"
    by (auto simp: StudentsRepository_insert_def tbl_insert_def put_student_def student_values_def split: if_splits)
  ultimately show ?thesis using enrolled_insert_student by blast
next
  case (Some st0)
  with assms have eq: "st = st0" "w' = StudentsRepository_updateProfile (st_id st0) (js_trim (orDefault (ri_name s) []))
      (orElse (trim_or_null (ri_email s)) (st_email st0)) w" by (auto simp: line_student_def)
  have "st0 \<in> set (rows (t_students w))" "st_studentNumber st0 = line_number s"
    using Some by (auto simp: StudentsRepository_findByStudentNumber_def dest: tbl_find_Some)
  then have "\<exists>st'\<in>set (rows (t_students w')). st_id st' = st_id st \<and> st_studentNumber st' = line_number s"
    by (auto simp: eq StudentsRepository_updateProfile_def intro!: tbl_update_ex[of st0])
  then show ?thesis using enrolled_updateProfile by (auto simp: eq StudentsRepository_updateProfile_def)
qed

lemma line_enroll_Inr:
  assumes "line_enroll ev s st w = (Inr r, w')"
    and "st' \<in> set (rows (t_students w))" "st_id st' = st_id st" "st_studentNumber st' = n"
  shows "enrolled ev n w' \<and> (\<forall>n. enrolled ev n w \<longrightarrow> enrolled ev n w')
    \<and> (r = Some True \<and> length (rows (t_enrollments w')) = length (rows (t_enrollments w)) + 1
       \<or> r = Some False \<and> length (rows (t_enrollments w')) = length (rows (t_enrollments w)))"
proof (cases "EnrollmentsRepository_findByEventAndStudent ev (st_id st) w")
  case None
  with assms(1) obtain e where e: "EnrollmentsRepository_insert (enrollment_values ev (st_id st)
      (trim_or_null (ri_seatLabel s))) w = (Inr e, w')" "r = Some True" by (auto simp: line_enroll_def andThen_eq_Inr)
  from e(1) have "e \<in> set (rows (t_enrollments w'))" "en_eventId e = ev" "en_studentId e = st_id st" "en_status e = Active"
    "length (rows (t_enrollments w')) = length (rows (t_enrollments w)) + 1" "t_students w' = t_students w"
    by (auto simp: EnrollmentsRepository_insert_def tbl_insert_def put_enrollment_def enrollment_values_def split: if_splits)
  moreover from this assms have "enrolled ev n w'" by (intro enrolledI[of st' w' n e]) simp_all
  ultimately show ?thesis using e(2) enrolled_insert_enrollment[OF e(1)] by simp
next
  case (Some e)
  with assms(1) have w': "w' = EnrollmentsRepository_updateSeat (en_id e) (trim_or_null (ri_seatLabel s)) Active w"
    "r = Some False" by (auto simp: line_enroll_def)
  have e: "e \<in> set (rows (t_enrollments w))" "en_eventId e = ev" "en_studentId e = st_id st"
    using Some by (auto simp: EnrollmentsRepository_findByEventAndStudent_def dest: tbl_find_Some)
  define e' where "e' = e\<lparr>en_seatLabel := trim_or_null (ri_seatLabel s), en_status := Active\<rparr>"
  have "e' \<in> set (rows (t_enrollments w'))"
    using e(1) by (force simp: w' e'_def EnrollmentsRepository_updateSeat_def tbl_update_def)
  moreover have "en_eventId e' = ev" "en_studentId e' = st_id st" "en_status e' = Active" using e by (simp_all add: e'_def)
  moreover have "t_students w' = t_students w" "length (rows (t_enrollments w')) = length (rows (t_enrollments w))"
    by (simp_all add: w' EnrollmentsRepository_updateSeat_def tbl_update_def)
  moreover have "enrolled ev n w \<Longrightarrow> enrolled ev n w'" for n by (simp add: w' enrolled_updateSeat)
  ultimately show ?thesis using assms(2-4) w'(2) unfolding enrolled_def by metis
qed

lemma import_one_Inr:
  assumes "import_one ev s w = (Inr r, w')"
  shows "(line_valid s \<longrightarrow> enrolled ev (line_number s) w') \<and> (\<forall>n. enrolled ev n w \<longrightarrow> enrolled ev n w')
    \<and> (\<not> line_valid s \<and> r = None \<and> length (rows (t_enrollments w')) = length (rows (t_enrollments w))
       \<or> line_valid s \<and> r = Some True \<and> length (rows (t_enrollments w')) = length (rows (t_enrollments w)) + 1
       \<or> line_valid s \<and> r = Some False \<and> length (rows (t_enrollments w')) = length (rows (t_enrollments w)))"
proof (cases "line_valid s")
  case True
  with assms obtain st w1 where l: "line_student s w = (Inr st, w1)" "line_enroll ev s st w1 = (Inr r, w')"
    by (auto simp: import_one_alt andThen_eq_Inr)
  from line_student_Inr[OF l(1), of ev] obtain st' where "st' \<in> set (rows (t_students w1))" "st_id st' = st_id st"
    "st_studentNumber st' = line_number s" "t_enrollments w1 = t_enrollments w" "\<forall>n. enrolled ev n w \<longrightarrow> enrolled ev n w1"
    by auto
  with line_enroll_Inr[OF l(2)] True show ?thesis by metis
qed (use assms in \<open>simp add: import_one_alt\<close>)

lemma import_all_Inr:
  "import_all ev ss c u w = (Inr (c', u'), w') \<Longrightarrow>
     list_all (\<lambda>s. line_valid s \<longrightarrow> enrolled ev (line_number s) w') ss \<and> (\<forall>n. enrolled ev n w \<longrightarrow> enrolled ev n w')
   \<and> c' + u' = c + u + int (length (filter line_valid ss))
   \<and> int (length (rows (t_enrollments w'))) = int (length (rows (t_enrollments w))) + (c' - c)"
proof (induction ss arbitrary: c u w)
  case (Cons s ss)
  then obtain r w1 where s: "import_one ev s w = (Inr r, w1)"
    "import_all ev ss (if r = Some True then c + 1 else c) (if r = Some False then u + 1 else u) w1 = (Inr (c', u'), w')"
    by (auto simp: andThen_eq_Inr)
  from import_one_Inr[OF s(1)] Cons.IH[OF s(2)] show ?case by (elim conjE disjE) simp_all
qed simp

text \<open>After a successful roster import every line that has a number and a name is an active
  enrollment of the event, enrollments made by earlier lines survive the later ones, each
  such line is counted once, as created or as updated, and the enrollments grow by exactly
  the number reported as created.\<close>

theorem importRoster_enrolls:
  assumes "importRoster ev input w = (Inr r, w')"
  shows "list_all (\<lambda>s. line_valid s \<longrightarrow> enrolled ev (line_number s) w') input
    \<and> ir_created r + ir_updated r = int (length (filter line_valid input))
    \<and> int (length (rows (t_enrollments w'))) = int (length (rows (t_enrollments w))) + ir_created r
    \<and> ir_total r = int (length input)"
proof -
  obtain c u w1 where i: "import_all ev input 0 0 w = (Inr (c, u), w1)" "ir_created r = c" "ir_updated r = u"
    "ir_total r = int (length input)" "t_enrollments w' = t_enrollments w1" "t_students w' = t_students w1"
    using assms by (auto simp: importRoster_def andThen_eq_Inr split: option.splits prod.splits)
  have "enrolled ev n w' = enrolled ev n w1" for n by (simp add: enrolled_def i)
  with import_all_Inr[OF i(1)] i show ?thesis by simp
qed


section \<open>Concrete runs\<close>

definition alice :: key_input where
  "alice = \<lparr>gi_studentNumber = ''2024001'', gi_name = ''Alice'', gi_email = None, gi_seatLabel = None, gi_streamName = None\<rparr>"

definition running :: core where
  "running = demo_core\<lparr>clock := 5000, t_events := \<lparr>rows = [demo_event], seq = 2\<rparr>\<rparr>"

definition bob_line :: roster_input where
  "bob_line = \<lparr>ri_studentNumber = Some ''7'', ri_name = Some ''Bob'', ri_email = None, ri_seatLabel = None\<rparr>"

theorem generateKey_admits_witness:
  "\<exists>g w'. generateKeyForEvent demo_externals 1 alice running = (Inr g, w')
     \<and> fst (authorizePublish demo_externals (gk_streamName g) (''?token='' @ gk_token g) w') = Allow 1 (gk_id g) (Some ''Alice'')"
proof -
  let ?r = "generateKeyForEvent demo_externals 1 alice running"
  have ok: "integrity running"
    by (simp add: running_def demo_core_def schema_decls db_empty_def tbl_empty_def demo_event_def event_values_def
        tbl_ok_def event_ban_keys_def db.defs core.defs)
  have ev: "EventsRepository_findById 1 running = Some demo_event" by code_simp
  have "js_trim (gi_studentNumber alice) \<noteq> []" "js_trim (gi_name alice) \<noteq> []" by code_simp+
  then obtain g where g: "?r = (Inr g, snd ?r)"
    using generateKeyForEvent_total[OF ok, of 1 alice demo_externals] ev by auto
  note ev
  moreover have "ev_status demo_event = Live" by code_simp
  moreover have "in_window (clock running) demo_event" by (simp add: in_window_def running_def demo_event_def)
  moreover have "list_all (\<lambda>k. sk_streamName k = gk_streamName g \<and> sk_eventId k \<noteq> 1
      \<longrightarrow> \<not> verifyToken demo_externals (gk_token g) (sk_tokenHash k)) (rows (t_streamKeys running))"
    by (simp add: running_def demo_core_def db_empty_def tbl_empty_def db.defs core.defs)
  ultimately have "fst (authorizePublish demo_externals (gk_streamName g) (''?token='' @ gk_token g) (snd ?r))
      = Allow 1 (gk_id g) (Some (js_trim (gi_name alice)))"
    using generateKey_admits[OF ok g] by blast
  moreover have "js_trim (gi_name alice) = ''Alice''" by code_simp
  ultimately have "fst (authorizePublish demo_externals (gk_streamName g) (''?token='' @ gk_token g) (snd ?r))
      = Allow 1 (gk_id g) (Some ''Alice'')" by (simp only:)
  with g show ?thesis by blast
qed

theorem importRoster_enrolls_witness:
  "enrolled 1 ''7'' (snd (importRoster 1 [bob_line] running))"
proof -
  let ?r = "importRoster 1 [bob_line] running"
  have "\<not> isl (fst ?r)" by code_simp
  then obtain g where g: "?r = (Inr g, snd ?r)" using outcome_ok by blast
  have "line_valid bob_line" "line_number bob_line = ''7''" by code_simp+
  with importRoster_enrolls[OF g] show ?thesis by simp
qed

theorem removeEnrollment_revokes_witness:
  "rows (t_enrollments (snd (removeEnrollment 1 1 (snd (importRoster 1 [bob_line] running))))) = []"
proof -
  let ?w = "snd (importRoster 1 [bob_line] running)"
  have "\<not> isl (fst (removeEnrollment 1 1 ?w))" by code_simp
  then obtain v where "removeEnrollment 1 1 ?w = (Inr v, snd (removeEnrollment 1 1 ?w))" using outcome_ok by blast
  then have g: "removeEnrollment 1 1 ?w = (Inr (), snd (removeEnrollment 1 1 ?w))" by simp
  have "filter (\<lambda>e. en_id e \<noteq> 1) (rows (t_enrollments ?w)) = []" by code_simp
  with removeEnrollment_revokes[OF g] show ?thesis by simp
qed

end
