(* ===== verification/Membership.thy ===== *)
theory Membership
  imports StreamKeys Config
begin

text \<open>
  services/groups.ts and services/invites.ts, with the endpoints through which participants
  see events (api/events): groups and membership, invite links, the visibility predicate
  canViewEvent, the catalogs and the participant guide.
\<close>

section \<open>Groups\<close>

record group_view =
  gv_id :: int
  gv_name :: string
  gv_description :: "string option"
  gv_memberCount :: int
  gv_createdAt :: int

definition group_view_of :: "group_row \<Rightarrow> 'z db_scheme \<Rightarrow> group_view" where
  "group_view_of g d = \<lparr>gv_id = gr_id g, gv_name = gr_name g, gv_description = gr_description g,
     gv_memberCount = GroupsRepository_countMembers (gr_id g) d, gv_createdAt = gr_createdAt g\<rparr>"

definition group_error :: error where
  "group_error = HttpError 404 ''group not found''"

definition toGroupView :: "int \<Rightarrow> 'z db_scheme \<Rightarrow> error + group_view" where
  "toGroupView i d = (case GroupsRepository_findById i d of
     None \<Rightarrow> Inl group_error | Some g \<Rightarrow> Inr (group_view_of g d))"

definition listGroups :: "'z db_scheme \<Rightarrow> group_view list" where
  "listGroups d = map (\<lambda>g. group_view_of g d) (GroupsRepository_findAll d)"

definition createGroup :: "string \<Rightarrow> string option \<Rightarrow> 'z core_scheme \<Rightarrow> (group_view, 'z core_scheme) outcome" where
  "createGroup name0 description w =
     (let name = js_trim name0 in
      if name = [] then (Inl (HttpError 400 ''group name is required''), w)
      else if GroupsRepository_findByName name w \<noteq> None then (Inl (HttpError 409 ''group name already used''), w)
      else andThen (GroupsRepository_insert \<lparr>gr_id = 0, gr_name = name, gr_description = description, gr_createdAt = 0\<rparr> w)
        (\<lambda>row w1.
         let w2 = audit LInfo CAdmin (''group created: '' @ name)
                    (no_opts\<lparr>ai_detail := Some (JObj [(''groupId'', json_int (gr_id row))])\<rparr>) w1
         in (toGroupView (gr_id row) w2, w2)))"

text \<open>The new name, None when the patch has none.\<close>

definition group_name_patch :: "string maybe \<Rightarrow> group_row \<Rightarrow> 'z db_scheme \<Rightarrow> error + string option" where
  "group_name_patch m existing d =
     (case m of
        Val n \<Rightarrow> let name = js_trim n in
          if name = [] then Inl (HttpError 400 ''group name cannot be empty'')
          else if name \<noteq> gr_name existing \<and> GroupsRepository_findByName name d \<noteq> None
          then Inl (HttpError 409 ''group name already used'')
          else Inr (Some name)
      | _ \<Rightarrow> Inr None)"

definition updateGroup :: "int \<Rightarrow> string maybe \<Rightarrow> string maybe \<Rightarrow> 'z core_scheme \<Rightarrow> (group_view, 'z core_scheme) outcome" where
  "updateGroup i pname pdesc w =
     (case GroupsRepository_findById i w of
        None \<Rightarrow> (Inl group_error, w)
      | Some existing \<Rightarrow>
         (case group_name_patch pname existing w of
            Inl e \<Rightarrow> (Inl e, w)
          | Inr name \<Rightarrow>
              let names = (if name = None then [] else [''name'']) @ (if pdesc = Undefined then [] else [''description'']);
                  f = (\<lambda>g. g\<lparr>gr_name := orDefault name (gr_name g),
                         gr_description := (if pdesc = Undefined then gr_description g else maybe_opt pdesc)\<rparr>)
              in andThen (if names = [] then (Inr (), w) else GroupsRepository_update i f w) (\<lambda>_ w1.
                 let w2 = audit LInfo CAdmin (''group updated: '' @ gr_name existing)
                            (no_opts\<lparr>ai_detail := Some (JObj [(''groupId'', json_int i), (''fields'', json_strings names)])\<rparr>) w1
                 in (toGroupView i w2, w2))))"

definition deleteGroup :: "int \<Rightarrow> 'z core_scheme \<Rightarrow> (unit, 'z core_scheme) outcome" where
  "deleteGroup i w =
     (case GroupsRepository_findById i w of
        None \<Rightarrow> (Inl group_error, w)
      | Some g \<Rightarrow> (Inr (), audit LWarn CAdmin (''group deleted: '' @ gr_name g)
          (no_opts\<lparr>ai_detail := Some (JObj [(''groupId'', json_int i)])\<rparr>) (GroupsRepository_remove i w)))"

record user_view =
  uv_id :: int
  uv_email :: string
  uv_role :: role
  uv_groups :: "(int \<times> string) list"
  uv_nodeId :: "string option"
  uv_latencies :: "string \<rightharpoonup> int"
  uv_announcement :: "string option"
  uv_createdAt :: int

definition listUsersWithGroups :: "'z db_scheme \<Rightarrow> user_view list" where
  "listUsersWithGroups d = map (\<lambda>u. \<lparr>uv_id = us_id u, uv_email = us_email u, uv_role = us_role u,
       uv_groups = map (\<lambda>g. (gr_id g, gr_name g)) (GroupsRepository_findGroupsForUser (us_id u) d),
       uv_nodeId = us_nodeId u,
       uv_latencies = orDefault (NodeLatenciesRepository_matrix d (us_id u)) Map.empty,
       uv_announcement = us_announcement u, uv_createdAt = us_createdAt u\<rparr>) (UsersRepository_findAll d)"

definition user_error :: error where
  "user_error = HttpError 404 ''user not found''"

definition setUserGroups :: "int \<Rightarrow> int list \<Rightarrow> 'z core_scheme \<Rightarrow> (unit, 'z core_scheme) outcome" where
  "setUserGroups u gs w =
     (case UsersRepository_findById u w of
        None \<Rightarrow> (Inl user_error, w)
      | Some user \<Rightarrow> andThen (GroupsRepository_setUserGroups u gs w) (\<lambda>_ w1.
          (Inr (), audit LInfo CAdmin (''groups set for '' @ us_email user)
             (no_opts\<lparr>ai_detail := Some (JObj [(''userId'', json_int u), (''groupIds'', JArr (map json_int gs))])\<rparr>) w1)))"

definition role_str :: "role \<Rightarrow> string" where
  "role_str r = (case r of RAdmin \<Rightarrow> ''admin'' | RUser \<Rightarrow> ''user'')"

definition ARROW :: string where "ARROW = [CHR 0xE2, CHR 0x86, CHR 0x92]"

definition setUserRole :: "int \<Rightarrow> role \<Rightarrow> 'z core_scheme \<Rightarrow> (unit, 'z core_scheme) outcome" where
  "setUserRole u r w =
     (case UsersRepository_findById u w of
        None \<Rightarrow> (Inl user_error, w)
      | Some user \<Rightarrow>
          if us_role user = r then (Inr (), w)
          else (Inr (), audit LWarn CAdmin (''role changed: '' @ us_email user @ '' '' @ ARROW @ '' '' @ role_str r)
                 (no_opts\<lparr>ai_detail := Some (JObj [(''userId'', json_int u), (''role'', JStr (role_str r))])\<rparr>)
                 (UsersRepository_updateRole u r w)))"


section \<open>Who sees an event\<close>

record auth_context =
  ax_userId :: int
  ax_role :: role

definition canViewEvent :: "auth_context option \<Rightarrow> visibility \<Rightarrow> int list \<Rightarrow> 'z db_scheme \<Rightarrow> bool" where
  "canViewEvent auth vis groupIds d =
     (case auth of
        Some a \<Rightarrow> if ax_role a = RAdmin then True
                  else if vis = VisPublic then True
                  else if vis = VisRegistered then True
                  else GroupsRepository_userInAnyGroup (ax_userId a) groupIds d
      | None \<Rightarrow> vis = VisPublic)"

definition is_admin :: "auth_context option \<Rightarrow> bool" where
  "is_admin auth = (case auth of None \<Rightarrow> False | Some a \<Rightarrow> ax_role a = RAdmin)"

definition can_view :: "auth_context option \<Rightarrow> event_view \<Rightarrow> 'z db_scheme \<Rightarrow> bool" where
  "can_view auth v d = canViewEvent auth (vw_visibility v) (map fst (vw_groups v)) d"

text \<open>GET /api/events\<close>

definition events_index :: "auth_context option \<Rightarrow> 'z db_scheme \<Rightarrow> error + event_view list" where
  "events_index auth d =
     (case (if is_admin auth then listEvents d else listEventsForUser d) of
        Inl e \<Rightarrow> Inl e | Inr vs \<Rightarrow> Inr (filter (\<lambda>v. can_view auth v d) vs))"

text \<open>GET /api/events/public\<close>

definition events_public :: "'z db_scheme \<Rightarrow> error + event_view list" where
  "events_public d = views (filter (\<lambda>e. ev_visibility e = VisPublic \<and> ev_status e \<noteq> Draft)
     (EventsRepository_findAll d)) d"

text \<open>GET /api/events/:id\<close>

definition event_get :: "auth_context option \<Rightarrow> int \<Rightarrow> 'z db_scheme \<Rightarrow> error + event_view" where
  "event_get auth i d =
     (if i \<le> 0 then Inl (HttpError 400 ''invalid event id'')
      else case getEvent i d of
        Inl e \<Rightarrow> Inl e
      | Inr v \<Rightarrow>
          if \<not> is_admin auth \<and> vw_status v = Draft then Inl (HttpError 404 ''event not found'')
          else if \<not> can_view auth v d then Inl (HttpError 403 ''forbidden'')
          else Inr v)"

record event_guide =
  eg_redirectTo :: "string option"
  eg_name :: string
  eg_slug :: string
  eg_server :: string
  eg_publishKey :: "string option"
  eg_limits :: limits
  eg_startsAt :: "int option"
  eg_endsAt :: "int option"
  eg_requireAccountAuth :: bool
  eg_streamGuide :: "string option"

text \<open>utils/rtmp-server.ts: the configured host, else the host of the request, without its port.\<close>

definition guideRtmpServer :: "string \<Rightarrow> string \<Rightarrow> string" where
  "guideRtmpServer publicHost requestHost =
     (let override = js_trim publicHost;
          host = (if override \<noteq> [] then override else requestHost)
      in obsServerUrl (takeWhile (\<lambda>c. c \<noteq> CHR '':'') host))"

definition guide_of :: "string \<Rightarrow> string option \<Rightarrow> event_row \<Rightarrow> 'z world_scheme \<Rightarrow> event_guide \<times> 'z world_scheme" where
  "guide_of server redirectTo e w =
     (let (l, w1) = getLimitsFor (Some e) w in
      (\<lparr>eg_redirectTo = redirectTo, eg_name = ev_name e, eg_slug = ev_slug e, eg_server = server,
        eg_publishKey = ev_publishKey e, eg_limits = l, eg_startsAt = ev_startsAt e, eg_endsAt = ev_endsAt e,
        eg_requireAccountAuth = ev_requireAccountAuth e, eg_streamGuide = ev_streamGuide e\<rparr>, w1))"

definition guide_gate :: "auth_context option \<Rightarrow> event_row option \<Rightarrow> 'z db_scheme \<Rightarrow> error + event_row" where
  "guide_gate auth row d =
     (case row of
        None \<Rightarrow> Inl (HttpError 404 ''event not found'')
      | Some e \<Rightarrow>
          if ev_status e = Draft \<or> ev_status e = Archived then Inl (HttpError 404 ''event not found'')
          else if \<not> canViewEvent auth (ev_visibility e) (map gr_id (GroupsRepository_findGroupsForEvent (ev_id e) d)) d
          then Inl (HttpError 403 ''not authorized for this event'')
          else Inr e)"

text \<open>The event of a slug, or of the slug it had before a rename.\<close>

definition resolve_slug :: "string \<Rightarrow> 'z db_scheme \<Rightarrow> event_row option \<times> string option" where
  "resolve_slug slug d =
     (case EventsRepository_findBySlug slug d of
        Some e \<Rightarrow> (Some e, None)
      | None \<Rightarrow>
          (case EventSlugAliasesRepository_findByOldSlug slug d of
             None \<Rightarrow> (None, None)
           | Some a \<Rightarrow>
               (case EventsRepository_findById (al_eventId a) d of
                  None \<Rightarrow> (None, None)
                | Some t \<Rightarrow> if ev_slug t \<noteq> slug then (Some t, Some (ev_slug t)) else (None, None))))"

definition guide_by_slug :: "string \<Rightarrow> auth_context option \<Rightarrow> string \<Rightarrow> 'z world_scheme \<Rightarrow> (event_guide, 'z world_scheme) outcome" where
  "guide_by_slug server auth slug w =
     (if slug = [] then (Inl (HttpError 400 ''missing slug''), w)
      else let (row, redirectTo) = resolve_slug slug w in
        case guide_gate auth row w of
          Inl e \<Rightarrow> (Inl e, w)
        | Inr e \<Rightarrow> let (g, w1) = guide_of server redirectTo e w in (Inr g, w1))"

definition guide_by_id :: "string \<Rightarrow> auth_context option \<Rightarrow> int \<Rightarrow> 'z world_scheme \<Rightarrow> (event_guide, 'z world_scheme) outcome" where
  "guide_by_id server auth i w =
     (case guide_gate auth (EventsRepository_findById i w) w of
        Inl e \<Rightarrow> (Inl e, w)
      | Inr e \<Rightarrow> let (g, w1) = guide_of server None e w in (Inr g, w1))"


section \<open>Invite links\<close>

record invite_view =
  il_id :: int
  il_code :: string
  il_groupId :: int
  il_groupName :: string
  il_maxUses :: "int option"
  il_usedCount :: int
  il_expiresAt :: "int option"
  il_active :: bool
  il_note :: "string option"
  il_createdAt :: int

definition CODE_BYTES :: nat where "CODE_BYTES = 12"

fun try_codes :: "nat \<Rightarrow> 'z core_scheme \<Rightarrow> (string, 'z core_scheme) outcome" where
  "try_codes 0 w = (Inl (HttpError 500 ''could not generate a unique invite code''), w)"
| "try_codes (Suc n) w =
     (let (bytes, w1) = randomBytes CODE_BYTES w; code = to_hex bytes in
      if length code = 2 * CODE_BYTES \<and> InviteLinksRepository_findByCode code w1 = None then (Inr code, w1)
      else try_codes n w1)"

definition generateUniqueCode :: "'z core_scheme \<Rightarrow> (string, 'z core_scheme) outcome" where
  "generateUniqueCode w = try_codes 8 w"

text \<open>Math.round of the milliseconds; an unrepresentable date is dropped.\<close>

definition ttlToExpiresAt :: "int \<Rightarrow> rat option \<Rightarrow> int option" where
  "ttlToExpiresAt now ttl = (case ttl of None \<Rightarrow> None
     | Some h \<Rightarrow> let t = now + \<lfloor>h * 3600000 + 1 / 2\<rfloor> in if valid_date t then Some t else None)"

definition rowToView :: "invite_row \<Rightarrow> 'z db_scheme \<Rightarrow> invite_view" where
  "rowToView v d = \<lparr>il_id = iv_id v, il_code = iv_code v, il_groupId = iv_groupId v,
     il_groupName = (case GroupsRepository_findById (iv_groupId v) d of None \<Rightarrow> ''(deleted)'' | Some g \<Rightarrow> gr_name g),
     il_maxUses = iv_maxUses v, il_usedCount = iv_usedCount v, il_expiresAt = iv_expiresAt v,
     il_active = iv_active v, il_note = iv_note v, il_createdAt = iv_createdAt v\<rparr>"

definition listInvites :: "'z db_scheme \<Rightarrow> invite_view list" where
  "listInvites d = map (\<lambda>v. rowToView v d) (InviteLinksRepository_findAll d)"

record invite_input =
  ii_groupId :: int
  ii_maxUses :: "int option"
  ii_ttlHours :: "rat option"
  ii_note :: "string option"

definition invite_values :: "string \<Rightarrow> invite_input \<Rightarrow> int \<Rightarrow> int \<Rightarrow> invite_row" where
  "invite_values code input createdBy now = \<lparr>iv_id = 0, iv_code = code, iv_groupId = ii_groupId input,
     iv_createdBy = Some createdBy, iv_maxUses = ii_maxUses input, iv_usedCount = 0,
     iv_expiresAt = ttlToExpiresAt now (ii_ttlHours input), iv_active = True, iv_note = ii_note input, iv_createdAt = 0\<rparr>"

definition createInvite :: "invite_input \<Rightarrow> int \<Rightarrow> 'z core_scheme \<Rightarrow> (invite_view, 'z core_scheme) outcome" where
  "createInvite input createdBy w =
     (if GroupsRepository_findById (ii_groupId input) w = None then (Inl group_error, w)
      else if (case ii_maxUses input of None \<Rightarrow> False | Some m \<Rightarrow> m < 1)
      then (Inl (HttpError 400 ''maxUses must be at least 1''), w)
      else andThen (generateUniqueCode w) (\<lambda>code w1.
           andThen (InviteLinksRepository_insert (invite_values code input createdBy (clock w1)) w1) (\<lambda>row w2.
           let w3 = audit LInfo CAdmin (''invite created for group #'' @ int_str (ii_groupId input))
                      (no_opts\<lparr>ai_detail := Some (JObj [(''inviteId'', json_int (iv_id row)),
                        (''groupId'', json_int (ii_groupId input)), (''maxUses'', json_opt json_int (ii_maxUses input))])\<rparr>) w2
           in (Inr (rowToView row w3), w3))))"

definition find_invite :: "int \<Rightarrow> 'z db_scheme \<Rightarrow> error + invite_row" where
  "find_invite i d = (case find (\<lambda>v. iv_id v = i) (InviteLinksRepository_findAll d) of
     None \<Rightarrow> Inl (HttpError 404 ''invite not found'') | Some v \<Rightarrow> Inr v)"

definition deactivateInvite :: "int \<Rightarrow> 'z core_scheme \<Rightarrow> (unit, 'z core_scheme) outcome" where
  "deactivateInvite i w = (case find_invite i w of
     Inl e \<Rightarrow> (Inl e, w)
   | Inr v \<Rightarrow> (Inr (), audit LWarn CAdmin (''invite deactivated: '' @ iv_code v)
       (no_opts\<lparr>ai_detail := Some (JObj [(''inviteId'', json_int i)])\<rparr>)
       (InviteLinksRepository_update i (iv_active_update (\<lambda>_. False)) w)))"

definition removeInvite :: "int \<Rightarrow> 'z core_scheme \<Rightarrow> (unit, 'z core_scheme) outcome" where
  "removeInvite i w = (case find_invite i w of
     Inl e \<Rightarrow> (Inl e, w)
   | Inr v \<Rightarrow> (Inr (), audit LWarn CAdmin (''invite deleted: '' @ iv_code v)
       (no_opts\<lparr>ai_detail := Some (JObj [(''inviteId'', json_int i)])\<rparr>) (InviteLinksRepository_remove i w)))"

definition invite_usable :: "int \<Rightarrow> invite_row \<Rightarrow> bool" where
  "invite_usable now v = (iv_active v \<and> \<not> (case iv_expiresAt v of None \<Rightarrow> False | Some t \<Rightarrow> t < now)
     \<and> \<not> (case iv_maxUses v of None \<Rightarrow> False | Some m \<Rightarrow> m \<le> iv_usedCount v))"

definition consumeInvite :: "string \<Rightarrow> int \<Rightarrow> 'z core_scheme \<Rightarrow> (group_row option, 'z core_scheme) outcome" where
  "consumeInvite code u w =
     (case InviteLinksRepository_findByCode (js_trim code) w of
        None \<Rightarrow> (Inr None, w)
      | Some v \<Rightarrow>
         (case GroupsRepository_findById (iv_groupId v) w of
            None \<Rightarrow> (Inr None, w)
          | Some g \<Rightarrow>
              if iv_groupId v \<in> set (GroupsRepository_findUserGroupIds u w) then (Inr (Some g), w)
              else if \<not> invite_usable (clock w) v then (Inr None, w)
              else andThen (GroupsRepository_addUserToGroup u (iv_groupId v) w) (\<lambda>_ w1.
                (Inr (Some g), audit LInfo CAdmin (''invite consumed '' @ ARROW @ '' group \"'' @ gr_name g @ ''\"'')
                  (no_opts\<lparr>ai_detail := Some (JObj [(''inviteId'', json_int (iv_id v)), (''groupId'', json_int (gr_id g)),
                     (''userId'', json_int u)])\<rparr>) (InviteLinksRepository_incrementUsed (iv_id v) w1)))))"


section \<open>What a participant sees\<close>

text \<open>The specification over the link tables.\<close>

definition event_visible :: "auth_context option \<Rightarrow> event_row \<Rightarrow> 'z db_scheme \<Rightarrow> bool" where
  "event_visible auth e d \<longleftrightarrow> is_admin auth \<or> ev_visibility e = VisPublic
     \<or> (\<exists>a. auth = Some a \<and> (ev_visibility e = VisRegistered
          \<or> (\<exists>m\<in>set (t_userGroups d). ug_userId m = ax_userId a
               \<and> (\<exists>l\<in>set (t_eventGroups d). eg_eventId l = ev_id e \<and> eg_groupId l = ug_groupId m))))"

lemma set_map_filter: "set (List.map_filter f xs) = {y. \<exists>x\<in>set xs. f x = Some y}"
  by (force simp: map_filter_def)

lemma groups_of_event:
  assumes "integrity d"
  shows "gr_id ` set (GroupsRepository_findGroupsForEvent i d)
    = eg_groupId ` {l \<in> set (t_eventGroups d). eg_eventId l = i}"
proof -
  have "\<exists>g. GroupsRepository_findById (eg_groupId l) d = Some g \<and> gr_id g = eg_groupId l" if "l \<in> set (t_eventGroups d)" for l
  proof -
    have "has gr_id (t_groups d) (eg_groupId l)" using assms that by (simp add: integrity_def fk_ok_def)
    then obtain g where "g \<in> set (rows (t_groups d))" "gr_id g = eg_groupId l" by (auto simp: has_def)
    then show ?thesis
      using grps.find_key[of "t_groups d" g] assms
      by (auto simp: GroupsRepository_findById_def integrity_def ids_ok_def)
  qed
  then show ?thesis
    unfolding GroupsRepository_findGroupsForEvent_def by (fastforce simp: set_map_filter image_iff)
qed

lemma canViewEvent_visible:
  assumes "integrity d" "set gs = gr_id ` set (GroupsRepository_findGroupsForEvent (ev_id e) d)"
  shows "canViewEvent auth (ev_visibility e) gs d = event_visible auth e d"
proof -
  have gs: "set gs = eg_groupId ` {l \<in> set (t_eventGroups d). eg_eventId l = ev_id e}"
    using assms groups_of_event by simp
  have "GroupsRepository_userInAnyGroup u gs d \<longleftrightarrow> (\<exists>m\<in>set (t_userGroups d). ug_userId m = u \<and> ug_groupId m \<in> set gs)" for u
    by (auto simp: GroupsRepository_userInAnyGroup_def filter_empty_conv)
  moreover have "ug_groupId m \<in> set gs \<longleftrightarrow> (\<exists>l\<in>set (t_eventGroups d). eg_eventId l = ev_id e \<and> eg_groupId l = ug_groupId m)"
    for m :: user_group_row
    unfolding gs by (auto simp: image_iff)
  ultimately show ?thesis
    unfolding event_visible_def canViewEvent_def is_admin_def
    by (cases auth; cases "ev_visibility e") simp_all
qed

lemma view_fields:
  assumes "event_toView e d = Inr v"
  shows "vw_id v = ev_id e" "vw_visibility v = ev_visibility e" "vw_status v = ev_status e"
    "map fst (vw_groups v) = map gr_id (GroupsRepository_findGroupsForEvent (ev_id e) d)"
  using assms by (auto simp: event_toView_def split: option.splits jtext.splits)

lemma can_view_visible: "integrity d \<Longrightarrow> event_toView e d = Inr v \<Longrightarrow> can_view auth v d = event_visible auth e d"
  unfolding can_view_def view_fields(2,4) by (erule canViewEvent_visible) (rule set_map)

lemma views_Inr: "views es d = Inr vs \<Longrightarrow> list_all2 (\<lambda>e v. event_toView e d = Inr v) es vs"
  by (induction es arbitrary: vs) (auto split: sum.splits)

lemma views_ids:
  assumes "integrity d" "list_all2 (\<lambda>e v. event_toView e d = Inr v) es vs"
  shows "map vw_id (filter (\<lambda>v. can_view auth v d) vs) = map ev_id (filter (\<lambda>e. event_visible auth e d) es)"
  using assms(2) by (induction rule: list_all2_induct) (auto simp: can_view_visible[OF assms(1)] view_fields)

text \<open>C10 The event catalog refines its specification over the link tables: a regular user (or
  nobody) is listed exactly the events that are not drafts and are public, or open to any
  login, or linked to a group the user is a member of; an administrator is listed all; in
  the order of the repository.  And an event can be fetched by its id exactly when the
  catalog lists it.\<close>

theorem catalog_exact:
  assumes "integrity d" "events_index auth d = Inr vs"
  shows "map vw_id vs = map ev_id (filter (\<lambda>e. (is_admin auth \<or> ev_status e \<noteq> Draft) \<and> event_visible auth e d)
      (EventsRepository_findAll d))
    \<and> (0 < i \<longrightarrow> (\<exists>v. event_get auth i d = Inr v) = (i \<in> vw_id ` set vs))"
proof -
  define es where "es = filter (\<lambda>e. is_admin auth \<or> ev_status e \<noteq> Draft) (EventsRepository_findAll d)"
  obtain vs0 where vs0: "views es d = Inr vs0" "vs = filter (\<lambda>v. can_view auth v d) vs0"
    using assms(2)
    by (cases "is_admin auth") (auto simp: events_index_def listEvents_def listEventsForUser_def es_def split: sum.splits)
  have ids: "map vw_id vs = map ev_id (filter (\<lambda>e. event_visible auth e d) es)"
    using views_ids[OF assms(1) views_Inr[OF vs0(1)], of auth] vs0(2) by simp
  have all: "set (EventsRepository_findAll d) = set (rows (t_events d))"
    by (simp add: EventsRepository_findAll_def order_desc_def)
  have key: "EventsRepository_findById i d = Some e \<longleftrightarrow> e \<in> set (rows (t_events d)) \<and> ev_id e = i" for e
    using assms(1) evts.find_key_iff[of "t_events d" i e] by (simp add: EventsRepository_findById_def schema_decls)
  have "(\<exists>v. event_get auth i d = Inr v) = (i \<in> vw_id ` set vs)" if "0 < i"
  proof
    assume "\<exists>v. event_get auth i d = Inr v"
    then obtain e v where e: "EventsRepository_findById i d = Some e" "event_toView e d = Inr v"
      "is_admin auth \<or> vw_status v \<noteq> Draft" "can_view auth v d"
      using that by (auto simp: event_get_def getEvent_def getRow_Inr split: sum.splits if_splits)
    then have "e \<in> set es" "event_visible auth e d"
      using view_fields[OF e(2)] can_view_visible[OF assms(1) e(2)] key all by (auto simp: es_def)
    then have "i \<in> set (map vw_id vs)" unfolding ids using e(1) key by auto
    then show "i \<in> vw_id ` set vs" by simp
  next
    assume "i \<in> vw_id ` set vs"
    then have "i \<in> set (map vw_id vs)" by simp
    then obtain e where e: "e \<in> set es" "event_visible auth e d" "ev_id e = i" unfolding ids by auto
    then have f: "EventsRepository_findById i d = Some e" using key all by (auto simp: es_def)
    obtain v where v: "event_toView e d = Inr v"
      using views_Inr[OF vs0(1)] e(1) by (auto simp: list_all2_conv_all_nth in_set_conv_nth)
    have "is_admin auth \<or> vw_status v \<noteq> Draft" using e(1) view_fields[OF v] by (auto simp: es_def)
    moreover have "can_view auth v d" using can_view_visible[OF assms(1) v] e(2) by simp
    moreover have "getRow i d = Inr e" using f by (simp add: getRow_Inr)
    ultimately show "\<exists>v. event_get auth i d = Inr v"
      using that v by (auto simp: event_get_def getEvent_def)
  qed
  moreover have "filter (\<lambda>e. event_visible auth e d) es
      = filter (\<lambda>e. (is_admin auth \<or> ev_status e \<noteq> Draft) \<and> event_visible auth e d) (EventsRepository_findAll d)"
    by (simp add: es_def conj_commute)
  ultimately show ?thesis using ids by simp
qed


section \<open>Invites\<close>

lemma mem_findUserGroupIds:
  "g \<in> set (GroupsRepository_findUserGroupIds u d) \<longleftrightarrow> (\<exists>m\<in>set (t_userGroups d). ug_userId m = u \<and> ug_groupId m = g)"
  by (auto simp: GroupsRepository_findUserGroupIds_def image_iff)

text \<open>Redeeming an invite never fails with an exception for an existing user and is exact: a
  group is returned if and only if the user is a member of the invite's group afterwards
  by this call or before it; a member changes nothing; a new member is let in only by a
  link that is active, not expired and not used up, is added exactly once, and costs the
  link exactly one use; otherwise nothing at all changes.\<close>

theorem consumeInvite_spec:
  assumes "UsersRepository_findById u w \<noteq> None"
  shows "\<exists>r w'. consumeInvite code u w = (Inr r, w') \<and>
    (case r of
       None \<Rightarrow> w' = w
     | Some g \<Rightarrow> \<exists>v\<in>set (rows (t_invites w)). iv_code v = js_trim code \<and> iv_groupId v = gr_id g
         \<and> gr_id g \<in> set (GroupsRepository_findUserGroupIds u w')
         \<and> (if gr_id g \<in> set (GroupsRepository_findUserGroupIds u w) then w' = w
            else invite_usable (clock w) v
              \<and> GroupsRepository_findUserGroupIds u w' = GroupsRepository_findUserGroupIds u w @ [gr_id g]
              \<and> (\<forall>u'. u' \<noteq> u \<longrightarrow> GroupsRepository_findUserGroupIds u' w' = GroupsRepository_findUserGroupIds u' w)
              \<and> rows (t_invites w') = map (\<lambda>x. if iv_id x = iv_id v then x\<lparr>iv_usedCount := iv_usedCount x + 1\<rparr> else x)
                    (rows (t_invites w))))"
proof (cases "InviteLinksRepository_findByCode (js_trim code) w")
  case None
  then show ?thesis by (simp add: consumeInvite_def)
next
  case (Some v)
  then have v: "v \<in> set (rows (t_invites w))" "iv_code v = js_trim code"
    by (auto simp: InviteLinksRepository_findByCode_def dest: tbl_find_Some)
  show ?thesis
  proof (cases "GroupsRepository_findById (iv_groupId v) w")
    case None
    with Some show ?thesis by (simp add: consumeInvite_def)
  next
    case g: (Some g)
    then have gid: "gr_id g = iv_groupId v" by (auto simp: GroupsRepository_findById_def dest: tbl_find_Some)
    note d = consumeInvite_def Some g
    consider (member) "iv_groupId v \<in> set (GroupsRepository_findUserGroupIds u w)"
      | (dead) "iv_groupId v \<notin> set (GroupsRepository_findUserGroupIds u w)" "\<not> invite_usable (clock w) v"
      | (join) "iv_groupId v \<notin> set (GroupsRepository_findUserGroupIds u w)" "invite_usable (clock w) v" by blast
    then show ?thesis
    proof cases
      case member
      with v gid show ?thesis by (auto simp: d)
    next
      case dead
      then show ?thesis by (simp add: d)
    next
      case join
      let ?m = "\<lparr>ug_userId = u, ug_groupId = iv_groupId v, ug_createdAt = db_now w\<rparr>"
      have fresh: "\<not> (\<exists>m\<in>set (t_userGroups w). ug_userId m = u \<and> ug_groupId m = iv_groupId v)"
        using join(1) mem_findUserGroupIds by blast
      have add: "GroupsRepository_addUserToGroup u (iv_groupId v) w = (Inr (), w\<lparr>t_userGroups := t_userGroups w @ [?m]\<rparr>)"
        using assms g by (simp add: GroupsRepository_addUserToGroup_def fresh)
      define w1 where "w1 = InviteLinksRepository_incrementUsed (iv_id v) (w\<lparr>t_userGroups := t_userGroups w @ [?m]\<rparr>)"
      have w1: "GroupsRepository_findUserGroupIds u w1 = GroupsRepository_findUserGroupIds u w @ [gr_id g]"
        "\<And>u'. u' \<noteq> u \<Longrightarrow> GroupsRepository_findUserGroupIds u' w1 = GroupsRepository_findUserGroupIds u' w"
        "rows (t_invites w1) = map (\<lambda>x. if iv_id x = iv_id v then x\<lparr>iv_usedCount := iv_usedCount x + 1\<rparr> else x) (rows (t_invites w))"
        by (simp_all add: w1_def InviteLinksRepository_incrementUsed_def GroupsRepository_findUserGroupIds_def gid tbl_update_def)
      define op where "op = no_opts\<lparr>ai_detail := Some (JObj [(''inviteId'', json_int (iv_id v)), (''groupId'', json_int (gr_id g)),
                     (''userId'', json_int u)])\<rparr>"
      define w2 where "w2 = audit LInfo CAdmin (''invite consumed '' @ ARROW @ '' group \"'' @ gr_name g @ ''\"'') op w1"
      have r: "consumeInvite code u w = (Inr (Some g), w2)"
        using join add by (simp add: d w1_def op_def w2_def)
      have ids: "GroupsRepository_findUserGroupIds x w2 = GroupsRepository_findUserGroupIds x w1" for x
        by (simp add: GroupsRepository_findUserGroupIds_def w2_def)
      have inv: "t_invites w2 = t_invites w1" by (simp add: w2_def)
      have "iv_code v = js_trim code \<and> iv_groupId v = gr_id g \<and> gr_id g \<in> set (GroupsRepository_findUserGroupIds u w2)
          \<and> gr_id g \<notin> set (GroupsRepository_findUserGroupIds u w) \<and> invite_usable (clock w) v
          \<and> GroupsRepository_findUserGroupIds u w2 = GroupsRepository_findUserGroupIds u w @ [gr_id g]
          \<and> (\<forall>u'. u' \<noteq> u \<longrightarrow> GroupsRepository_findUserGroupIds u' w2 = GroupsRepository_findUserGroupIds u' w)
          \<and> rows (t_invites w2) = map (\<lambda>x. if iv_id x = iv_id v then x\<lparr>iv_usedCount := iv_usedCount x + 1\<rparr> else x)
                (rows (t_invites w))"
        using v(2) gid join w1 by (simp add: ids inv)
      with r v(1) show ?thesis by (intro exI[of _ "Some g"] exI[of _ w2]) auto
    qed
  qed
qed

section \<open>Every history of the invite links\<close>

text \<open>The redemption that a call of consumeInvite is: the link and the user, when the call made the user a
  member of a group.\<close>

definition redemption :: "string \<Rightarrow> int \<Rightarrow> 'z core_scheme \<Rightarrow> (int \<times> int) list" where
  "redemption code u w =
     (case InviteLinksRepository_findByCode (js_trim code) w of
        None \<Rightarrow> []
      | Some v \<Rightarrow> if t_userGroups (snd (consumeInvite code u w)) \<noteq> t_userGroups w then [(iv_id v, u)] else [])"

text \<open>A history starts on a database without links and carries the redemptions, in order.  The links are
  created, redeemed, deactivated and removed, their groups and creators deleted, and the rest of the
  program (groups and users made, memberships changed, time passing) does anything but write links.\<close>

inductive invite_run :: "(int \<times> int) list \<Rightarrow> world \<Rightarrow> bool" where
  invite_boot: "t_invites w = tbl_empty \<Longrightarrow> invite_run [] w"
| invite_create: "invite_run l w \<Longrightarrow> invite_run l (snd (createInvite input by w))"
| invite_consume: "invite_run l w \<Longrightarrow> invite_run (l @ redemption code u w) (snd (consumeInvite code u w))"
| invite_deactivate: "invite_run l w \<Longrightarrow> invite_run l (snd (deactivateInvite i w))"
| invite_remove: "invite_run l w \<Longrightarrow> invite_run l (snd (removeInvite i w))"
| invite_group_gone: "invite_run l w \<Longrightarrow> invite_run l (snd (deleteGroup g w))"
| invite_user_gone: "invite_run l w \<Longrightarrow> invite_run l (UsersRepository_remove i w)"
| invite_other: "invite_run l w \<Longrightarrow> t_invites w' = t_invites w \<Longrightarrow> invite_run l w'"

definition redeemed :: "int \<Rightarrow> (int \<times> int) list \<Rightarrow> int" where
  "redeemed i l = int (length (filter (\<lambda>r. fst r = i) l))"

definition invite_exact :: "(int \<times> int) list \<Rightarrow> invite_row \<Rightarrow> bool" where
  "invite_exact l v \<longleftrightarrow> iv_usedCount v = redeemed (iv_id v) l
     \<and> (\<forall>m. iv_maxUses v = Some m \<longrightarrow> 1 \<le> m \<and> iv_usedCount v \<le> m)"

definition invites_ok :: "(int \<times> int) list \<Rightarrow> invite_row tbl \<Rightarrow> bool" where
  "invites_ok l t \<longleftrightarrow> tbl_ok iv_id t \<and> (\<forall>v\<in>set (rows t). invite_exact l v) \<and> (\<forall>r\<in>set l. fst r < seq t)"

lemma redeemed_simps [simp]:
  "redeemed i [] = 0" "redeemed i (l @ m) = redeemed i l + redeemed i m"
  "redeemed i [r] = (if fst r = i then 1 else 0)"
  by (simp_all add: redeemed_def)

text \<open>A change of rows that keeps their identity, their limit and their count.\<close>

lemma invites_ok_change:
  assumes "invites_ok l t"
    and "\<And>v. iv_id (f v) = iv_id v" "\<And>v. iv_maxUses (f v) = iv_maxUses v" "\<And>v. iv_usedCount (f v) = iv_usedCount v"
  shows "invites_ok l (tbl_update p f t)"
  using assms(1) invs.ok_update[of t p f] assms(2-) by (auto simp: invites_ok_def invite_exact_def tbl_update_def)

lemma invites_ok_delete: "invites_ok l t \<Longrightarrow> invites_ok l (tbl_delete p t)"
  using invs.ok_delete[of t p] by (auto simp: invites_ok_def tbl_delete_def)

lemma try_codes_frame: "t_invites (snd (try_codes n w)) = t_invites w"
  by (induction n arbitrary: w) (auto simp: Let_def case_prod_unfold)

lemma insert_invite_ok:
  assumes "invites_ok l (t_invites w)" "iv_usedCount v = 0" "\<forall>m. iv_maxUses v = Some m \<longrightarrow> 1 \<le> m"
  shows "invites_ok l (t_invites (snd (InviteLinksRepository_insert v w)))"
proof -
  let ?v = "invite_norm (v\<lparr>iv_createdAt := db_now w\<rparr>)"
  let ?t = "snd (tbl_insert (put_invite ?v) (t_invites w))"
  have none: "redeemed (seq (t_invites w)) l = 0"
    using assms(1) by (auto simp: redeemed_def filter_empty_conv invites_ok_def)
  have "invite_exact l (put_invite ?v (seq (t_invites w)))"
    using assms(2,3) none by (fastforce simp: invite_exact_def put_invite_def invite_norm_def)
  then have "invites_ok l ?t"
    using assms(1) invs.ok_insert[of "t_invites w" ?v] by (force simp: invites_ok_def tbl_insert_def)
  then show ?thesis using assms(1) by (simp add: InviteLinksRepository_insert_def case_prod_unfold)
qed

lemma createInvite_ok:
  assumes "invites_ok l (t_invites w)"
  shows "invites_ok l (t_invites (snd (createInvite input by w)))"
proof -
  let ?P = "\<lambda>w. invites_ok l (t_invites w)"
  have "?P (snd (andThen (generateUniqueCode w) (\<lambda>code w1.
           andThen (InviteLinksRepository_insert (invite_values code input by (clock w1)) w1)
             (\<lambda>row w2. (f row w2, audit LInfo CAdmin m (g row) w2)))))"
    if lim: "\<forall>m. ii_maxUses input = Some m \<longrightarrow> 1 \<le> m" for f m g
  proof (rule andThen_state)
    show "?P (snd (generateUniqueCode w))"
      using assms try_codes_frame[of 8 w] by (simp add: generateUniqueCode_def del: try_codes.simps)
    fix code and w1 :: "'a core_scheme"
    assume "?P w1"
    then have "?P (snd (InviteLinksRepository_insert (invite_values code input by (clock w1)) w1))"
      by (rule insert_invite_ok) (use lim in \<open>simp_all add: invite_values_def\<close>)
    then show "?P (snd (andThen (InviteLinksRepository_insert (invite_values code input by (clock w1)) w1)
        (\<lambda>row w2. (f row w2, audit LInfo CAdmin m (g row) w2))))"
      by (rule andThen_state) simp
  qed
  with assms show ?thesis by (auto simp: createInvite_def Let_def not_less split: option.splits)
qed

text \<open>A redemption is counted, and nothing else is.\<close>

lemma consumeInvite_counts:
  "t_invites (snd (consumeInvite code u w)) = t_invites w \<and> redemption code u w = []
   \<or> (\<exists>v\<in>set (rows (t_invites w)). invite_usable (clock w) v \<and> redemption code u w = [(iv_id v, u)]
       \<and> t_invites (snd (consumeInvite code u w)) =
           tbl_update (\<lambda>x. iv_id x = iv_id v) (\<lambda>x. x\<lparr>iv_usedCount := iv_usedCount x + 1\<rparr>) (t_invites w))"
proof (cases "InviteLinksRepository_findByCode (js_trim code) w")
  case None
  then show ?thesis by (simp add: consumeInvite_def redemption_def)
next
  case (Some v)
  then have v: "v \<in> set (rows (t_invites w))" by (auto simp: InviteLinksRepository_findByCode_def dest: tbl_find_Some)
  have fresh: "\<not> (\<exists>m\<in>set (t_userGroups w). ug_userId m = u \<and> ug_groupId m = iv_groupId v)"
    if "iv_groupId v \<notin> set (GroupsRepository_findUserGroupIds u w)"
    using that mem_findUserGroupIds by blast
  show ?thesis
  proof (cases "GroupsRepository_findById (iv_groupId v) w")
    case None
    with Some show ?thesis by (simp add: consumeInvite_def redemption_def)
  next
    case g: (Some g)
    let ?add = "GroupsRepository_addUserToGroup u (iv_groupId v) w"
    note d = consumeInvite_def redemption_def Some g
    consider "iv_groupId v \<in> set (GroupsRepository_findUserGroupIds u w) \<or> \<not> invite_usable (clock w) v"
      | "iv_groupId v \<notin> set (GroupsRepository_findUserGroupIds u w)" "invite_usable (clock w) v" by blast
    then show ?thesis
    proof cases
      case 1
      then show ?thesis by (auto simp: d)
    next
      case 2
      have "?add = (Inl fk_violation, w) \<or> ?add = (Inr (), w\<lparr>t_userGroups := t_userGroups w @
          [\<lparr>ug_userId = u, ug_groupId = iv_groupId v, ug_createdAt = db_now w\<rparr>]\<rparr>)"
        unfolding GroupsRepository_addUserToGroup_def if_not_P[OF fresh[OF 2(1)]] by simp
      then show ?thesis using 2 v by (elim disjE) (auto simp: d InviteLinksRepository_incrementUsed_def)
    qed
  qed
qed

lemma consumeInvite_ok:
  assumes "invites_ok l (t_invites w)"
  shows "invites_ok (l @ redemption code u w) (t_invites (snd (consumeInvite code u w)))"
proof -
  consider "t_invites (snd (consumeInvite code u w)) = t_invites w" "redemption code u w = []"
    | v where "v \<in> set (rows (t_invites w))" "invite_usable (clock w) v" "redemption code u w = [(iv_id v, u)]"
      "t_invites (snd (consumeInvite code u w)) =
           tbl_update (\<lambda>x. iv_id x = iv_id v) (\<lambda>x. x\<lparr>iv_usedCount := iv_usedCount x + 1\<rparr>) (t_invites w)"
    using consumeInvite_counts[of code u w] by blast
  then show ?thesis
  proof cases
    case 2
    let ?f = "\<lambda>x. if iv_id x = iv_id v then x\<lparr>iv_usedCount := iv_usedCount x + 1\<rparr> else x"
    have ok: "tbl_ok iv_id (t_invites w)" and exact: "\<And>x. x \<in> set (rows (t_invites w)) \<Longrightarrow> invite_exact l x"
      and low: "\<And>r. r \<in> set l \<Longrightarrow> fst r < seq (t_invites w)"
      using assms by (auto simp: invites_ok_def)
    have "invite_exact (l @ [(iv_id v, u)]) (?f x)" if x: "x \<in> set (rows (t_invites w))" for x
    proof (cases "iv_id x = iv_id v")
      case True
      then have "x = v" by (rule invs.key_inj[OF ok x 2(1)])
      then show ?thesis using exact[OF x] 2(2) by (auto simp: invite_exact_def invite_usable_def)
    next
      case False
      then show ?thesis using exact[OF x] by (auto simp: invite_exact_def)
    qed
    note upd = this
    let ?t = "tbl_update (\<lambda>x. iv_id x = iv_id v) (\<lambda>x. x\<lparr>iv_usedCount := iv_usedCount x + 1\<rparr>) (t_invites w)"
    have "set (rows ?t) = ?f ` set (rows (t_invites w))" by (simp add: tbl_update_def)
    then have "\<forall>y\<in>set (rows ?t). invite_exact (l @ [(iv_id v, u)]) y"
      by (simp only: ball_simps) (rule ballI, rule upd)
    moreover have "\<forall>r\<in>set (l @ [(iv_id v, u)]). fst r < seq ?t"
      using low ok 2(1) by (auto simp: tbl_update_def tbl_ok_def)
    moreover have "tbl_ok iv_id ?t" using ok by (intro invs.ok_update) simp_all
    ultimately show ?thesis unfolding 2(3,4) invites_ok_def by blast
  qed (use assms in simp)
qed

lemma deactivateInvite_ok:
  "invites_ok l (t_invites w) \<Longrightarrow> invites_ok l (t_invites (snd (deactivateInvite i w)))"
  by (auto simp: deactivateInvite_def InviteLinksRepository_update_def put_invite_def invite_norm_def
      intro!: invites_ok_change split: sum.splits)

lemma invite_run_ok: "invite_run l w \<Longrightarrow> invites_ok l (t_invites w)"
proof (induction rule: invite_run.induct)
  case (invite_boot w)
  then show ?case by (simp add: invites_ok_def tbl_empty_def tbl_ok_def)
next
  case (invite_remove l w i)
  then show ?case by (simp add: removeInvite_def InviteLinksRepository_remove_def invites_ok_delete split: sum.splits)
next
  case (invite_group_gone l w g)
  then show ?case by (auto simp: deleteGroup_def GroupsRepository_remove_def invites_ok_delete split: option.splits)
next
  case (invite_user_gone l w i)
  then show ?case by (auto simp: UsersRepository_remove_def intro!: invites_ok_change)
qed (simp_all add: createInvite_ok consumeInvite_ok deactivateInvite_ok)

text \<open>C11 No invite link is oversold: however links are created, redeemed, deactivated and removed, their
  groups and creators deleted, and whatever the rest of the program does in between, the use count
  of every link is the number of users that joined a group by it in this history, and where the link
  has a limit, the limit is at least one and no more users than it allows have joined.\<close>

theorem invites_never_oversold:
  assumes "invite_run l w"
  shows "list_all (\<lambda>v. iv_usedCount v = redeemed (iv_id v) l
      \<and> (case iv_maxUses v of None \<Rightarrow> True | Some m \<Rightarrow> 1 \<le> m \<and> redeemed (iv_id v) l \<le> m)) (rows (t_invites w))"
  using invite_run_ok[OF assms] by (auto simp: invites_ok_def invite_exact_def list_all_iff split: option.split)


section \<open>The guide follows a rename\<close>

lemma updateEvent_ids:
  assumes "tbl_ok ev_id (t_events w)" "updateEvent i patch w = (Inr v, w')"
  shows "tbl_ok ev_id (t_events w')"
proof -
  obtain existing s1 s2 s5 w1 w2 st where u:
    "rename_set (ei_slug patch) existing w = (Inr s2, w1)" "EventsRepository_update i (apply_set st) w1 = (Inr (), w2)"
    "t_events w' = t_events w2"
    by (rule updateEvent_Inr[OF assms(2)])
  have "t_events w1 = t_events w"
    using u(1) by (auto simp: rename_set_def andThen_eq_Inr split: maybe.splits sum.splits if_splits dest!: alias_set_find)
  moreover have "t_events w2 = t_events w1 \<or> (\<exists>f. t_events w2 = tbl_update (\<lambda>e. ev_id e = i)
      (\<lambda>e. put_event (f e) (ev_id e)) (t_events w1))"
    using u(2) by (auto simp: EventsRepository_update_def split: option.splits if_splits)
  ultimately show ?thesis
    using assms(1) u(3) evts.ok_update by (auto simp: put_event_def)
qed

lemma resolve_renamed:
  assumes "integrity w" "updateEvent i patch w = (Inr v, w')" "ei_slug patch = Val s"
    and "EventsRepository_findById i w = Some old" "js_trim s \<noteq> ev_slug old"
  shows "\<exists>e. resolve_slug (js_trim s) w' = (Some e, None) \<and> resolve_slug (ev_slug old) w' = (Some e, Some (js_trim s))
    \<and> ev_id e = i \<and> ev_slug e = js_trim s"
proof -
  let ?n = "js_trim s"
  have ids: "tbl_ok ev_id (t_events w')" using assms(1,2) updateEvent_ids by (auto simp: schema_decls)
  obtain e a where e: "EventsRepository_findById i w' = Some e" "ev_slug e = ?n"
    "\<forall>j. j \<noteq> i \<longrightarrow> EventsRepository_findById j w' = EventsRepository_findById j w"
    "EventSlugAliasesRepository_findByOldSlug (ev_slug old) w' = Some a" "al_eventId a = i"
    using updateEvent_renamed[OF assms(1-5)] by blast
  have new: "e'' = e" if "e'' \<in> set (rows (t_events w'))" "ev_slug e'' = ?n" for e''
  proof (rule ccontr)
    assume ne: "e'' \<noteq> e"
    have "EventsRepository_findById (ev_id e'') w' = Some e''"
      using that(1) evts.find_key[OF ids] by (simp add: EventsRepository_findById_def)
    moreover from this ne e(1) have "ev_id e'' \<noteq> i" by auto
    ultimately show False using updateEvent_renamed[OF assms(1-5)] that(2) e by metis
  qed
  have "e \<in> set (rows (t_events w'))" "ev_id e = i" using EventsRepository_findById_Some[OF e(1)] by auto
  then have "EventsRepository_findBySlug ?n w' \<noteq> None"
    using e(2) by (auto simp: EventsRepository_findBySlug_def tbl_find_None)
  then have find_new: "EventsRepository_findBySlug ?n w' = Some e"
    using new by (auto simp: EventsRepository_findBySlug_def dest: tbl_find_Some)
  have "EventsRepository_findBySlug (ev_slug old) w' = None"
  proof (rule ccontr)
    assume "EventsRepository_findBySlug (ev_slug old) w' \<noteq> None"
    then obtain e1 where e1: "e1 \<in> set (rows (t_events w'))" "ev_slug e1 = ev_slug old"
      by (auto simp: EventsRepository_findBySlug_def dest: tbl_find_Some)
    have f1: "EventsRepository_findById (ev_id e1) w' = Some e1"
      using e1(1) evts.find_key[OF ids] by (simp add: EventsRepository_findById_def)
    show False
    proof (cases "ev_id e1 = i")
      case True
      with f1 e e1 assms(5) show False by auto
    next
      case False
      then have "EventsRepository_findById (ev_id e1) w = Some e1" using e(3) f1 by simp
      then have "e1 \<in> set (rows (t_events w))" "old \<in> set (rows (t_events w))" "ev_id old = i"
        using EventsRepository_findById_Some assms(4) by blast+
      moreover have "inj_on ev_slug (set (rows (t_events w)))"
        using assms(1) by (simp add: integrity_def uniq_ok_def distinct_map)
      ultimately show False using e1(2) False by (auto dest: inj_onD)
    qed
  qed
  then show ?thesis
    using find_new e assms(5) \<open>ev_id e = i\<close> by (intro exI[of _ e]) (simp add: resolve_slug_def)
qed

text \<open>Participants survive a rename: once updateEvent has given an event a new key, the guide
  under the old key answers exactly as the guide under the new key does (the same payload, or
  the same refusal), with the new key as its redirect, and the guide under the new key
  redirects nowhere.\<close>

theorem guide_follows_rename:
  assumes "integrity w" "updateEvent i patch w = (Inr v, w')" "ei_slug patch = Val s"
    and "EventsRepository_findById i w = Some old" "js_trim s \<noteq> ev_slug old" "ev_slug old \<noteq> []"
  shows "fst (guide_by_slug server auth (ev_slug old) w') =
      (case fst (guide_by_slug server auth (js_trim s) w') of
         Inl e \<Rightarrow> Inl e | Inr g \<Rightarrow> Inr (g\<lparr>eg_redirectTo := Some (js_trim s)\<rparr>))
    \<and> (\<forall>g. fst (guide_by_slug server auth (js_trim s) w') = Inr g \<longrightarrow> eg_redirectTo g = None \<and> eg_slug g = js_trim s)"
proof -
  obtain e where e: "resolve_slug (js_trim s) w' = (Some e, None)" "resolve_slug (ev_slug old) w' = (Some e, Some (js_trim s))"
    "ev_slug e = js_trim s"
    using resolve_renamed[OF assms(1-5)] by blast
  have ne: "js_trim s \<noteq> []"
    using updateEvent_renamed[OF assms(1-5)] by (auto simp: EVENT_KEY_RE_def)
  show ?thesis
    using e ne assms(6)
    by (cases "guide_gate auth (Some e) w'")
       (auto simp: guide_by_slug_def guide_of_def Let_def case_prod_unfold guide_gate_def split: if_splits)
qed



section \<open>Concrete runs\<close>

definition club :: world where
  "club = world_start\<lparr>clock := 5000, t_events := \<lparr>rows = [demo_event], seq = 2\<rparr>,
     t_groups := \<lparr>rows = [\<lparr>gr_id = 1, gr_name = ''A'', gr_description = None, gr_createdAt = 0\<rparr>], seq = 2\<rparr>,
     t_users := \<lparr>rows = [(user_values ''ann@x.org'' ''00:00'')\<lparr>us_id := 1, us_role := RAdmin\<rparr>], seq = 2\<rparr>,
     t_invites := \<lparr>rows = [\<lparr>iv_id = 1, iv_code = ''abc'', iv_groupId = 1, iv_createdBy = None, iv_maxUses = Some 1,
        iv_usedCount = 0, iv_expiresAt = None, iv_active = True, iv_note = None, iv_createdAt = 0\<rparr>], seq = 2\<rparr>\<rparr>"

lemma club_integrity: "integrity club"
  by (simp add: club_def schema_decls demo_event_def event_values_def user_values_def tbl_ok_def event_ban_keys_def
      has_def has_opt_def tbl_empty_def)

theorem catalog_exact_witness:
  "\<exists>vs. events_index (Some \<lparr>ax_userId = 7, ax_role = RUser\<rparr>) club = Inr vs
     \<and> map vw_id vs = [1] \<and> (\<exists>v. event_get (Some \<lparr>ax_userId = 7, ax_role = RUser\<rparr>) 1 club = Inr v)"
proof -
  let ?a = "Some \<lparr>ax_userId = 7, ax_role = RUser\<rparr>"
  have "\<not> isl (events_index ?a club)" by code_simp
  then obtain vs where vs: "events_index ?a club = Inr vs" by (cases "events_index ?a club") auto
  have all: "EventsRepository_findAll club = [demo_event]"
    by (simp add: club_def EventsRepository_findAll_def order_desc_def)
  have "event_visible ?a demo_event club" "ev_status demo_event \<noteq> Draft" "ev_id demo_event = 1"
    by (simp_all add: event_visible_def demo_event_def event_values_def)
  with catalog_exact[OF club_integrity vs, of 1] all vs show ?thesis by (auto simp: image_iff)
qed

theorem consumeInvite_spec_witness:
  "GroupsRepository_findUserGroupIds 1 (snd (consumeInvite '' abc '' 1 club)) = [1]"
proof -
  have u: "UsersRepository_findById 1 club \<noteq> None"
    by (simp add: club_def UsersRepository_findById_def tbl_find_def user_values_def)
  have r: "map_option gr_id (projr (fst (consumeInvite '' abc '' 1 club))) = Some 1" by code_simp
  have none: "GroupsRepository_findUserGroupIds 1 club = []" by (simp add: club_def GroupsRepository_findUserGroupIds_def)
  from consumeInvite_spec[OF u, of "'' abc ''"] obtain r w' where c: "consumeInvite '' abc '' 1 club = (Inr r, w')"
    "case r of None \<Rightarrow> True | Some g \<Rightarrow> GroupsRepository_findUserGroupIds 1 w' = GroupsRepository_findUserGroupIds 1 club @ [gr_id g]"
    by (auto simp: none split: option.splits)
  with r none show ?thesis by (auto split: option.splits)
qed

text \<open>A link for one use: Ann joins by it, then Bob tries.\<close>

definition entrance :: world where
  "entrance = snd (createInvite \<lparr>ii_groupId = 1, ii_maxUses = Some 1, ii_ttlHours = None, ii_note = None\<rparr> 1
     (club\<lparr>t_invites := tbl_empty, t_users := \<lparr>rows = [(user_values ''ann@x.org'' ''00:00'')\<lparr>us_id := 1, us_role := RAdmin\<rparr>,
        (user_values ''bob@x.org'' ''00:00'')\<lparr>us_id := 2\<rparr>], seq = 3\<rparr>\<rparr>))"

definition entrance_code :: string where
  "entrance_code = (case rows (t_invites entrance) of [] \<Rightarrow> [] | v # _ \<Rightarrow> iv_code v)"

definition sold_out :: world where
  "sold_out = snd (consumeInvite entrance_code 2 (snd (consumeInvite entrance_code 1 entrance)))"

theorem invites_never_oversold_witness:
  "\<exists>l. invite_run l sold_out \<and> redeemed 1 l = 1 \<and> map iv_maxUses (rows (t_invites sold_out)) = [Some 1]"
proof -
  let ?l = "([] @ redemption entrance_code 1 entrance) @ redemption entrance_code 2 (snd (consumeInvite entrance_code 1 entrance))"
  have run: "invite_run ?l sold_out"
    unfolding sold_out_def by (intro invite_consume) (simp add: entrance_def invite_create invite_boot)
  have "map (\<lambda>v. (iv_id v, iv_usedCount v, iv_maxUses v)) (rows (t_invites sold_out)) = [(1, 1, Some 1)]" by code_simp
  then obtain v where v: "rows (t_invites sold_out) = [v]" "iv_id v = 1" "iv_usedCount v = 1" "iv_maxUses v = Some 1" by auto
  have "redeemed 1 ?l = 1" using invites_never_oversold[OF run] v by simp
  with run v show ?thesis by auto
qed

theorem guide_follows_rename_witness:
  "\<exists>g. fst (guide_by_slug ''rtmp://h'' None ''contest'' (snd (updateEvent 1 (no_input\<lparr>ei_slug := Val ''finals'',
      ei_visibility := Val VisPublic\<rparr>) club))) = Inr g \<and> eg_redirectTo g = Some ''finals''"
proof -
  let ?p = "no_input\<lparr>ei_slug := Val ''finals'', ei_visibility := Val VisPublic\<rparr>"
  let ?w = "snd (updateEvent 1 ?p club)"
  have "\<not> isl (fst (updateEvent 1 ?p club))" by code_simp
  then obtain v where v: "updateEvent 1 ?p club = (Inr v, ?w)" using outcome_ok by blast
  have old: "EventsRepository_findById 1 club = Some demo_event"
    by (simp add: club_def EventsRepository_findById_def tbl_find_def demo_event_def)
  have n: "js_trim ''finals'' = ''finals''" "ev_slug demo_event = ''contest''" by code_simp+
  have ok: "\<not> isl (fst (guide_by_slug ''rtmp://h'' None ''finals'' ?w))" by code_simp
  from guide_follows_rename[OF club_integrity v _ old, of "''finals''" "''rtmp://h''" None] n ok
  show ?thesis by (cases "fst (guide_by_slug ''rtmp://h'' None ''finals'' ?w)") auto
qed

text \<open>setUserRole does not keep the last administrator, unlike the deletion of a user.\<close>

lemma setUserRole_last_admin: "map us_role (rows (t_users (snd (setUserRole 1 RUser club)))) = [RUser]"
  by code_simp

text \<open>A replacement of a membership that fails has already deleted the old one.\<close>

lemma setUserGroups_loses:
  "UsersRepository_findById u d \<noteq> None \<Longrightarrow> GroupsRepository_findById g d = None \<Longrightarrow>
     fst (setUserGroups u [g] d) = Inl fk_violation
   \<and> GroupsRepository_findUserGroupIds u (snd (setUserGroups u [g] d)) = []"
  by (auto simp: setUserGroups_def GroupsRepository_setUserGroups_def Let_def GroupsRepository_findUserGroupIds_def
      filter_empty_conv)

end
