(* ===== verification/Gateway.thy ===== *)
theory Gateway
  imports Membership
begin

text \<open>
  services/stream-bans.ts and api/srs/rtmp-auth: streaming bans, and the three questions the
  RTMP gateway asks: the salt of an account, whether a challenge response is right, and the
  policy of a publish key.
\<close>

section \<open>Bans\<close>

text \<open>StreamBanView has the fields of the row.\<close>

definition ban_email :: "string \<Rightarrow> string" where
  "ban_email e = js_lower (js_trim e)"

definition listBans :: "int option \<Rightarrow> 'z db_scheme \<Rightarrow> stream_ban_row list" where
  "listBans ev d = (case ev of Some i \<Rightarrow> StreamBansRepository_listByEvent i d | None \<Rightarrow> StreamBansRepository_listAll d)"

definition isSiteWideBanned :: "string \<Rightarrow> 'z db_scheme \<Rightarrow> bool" where
  "isSiteWideBanned email d = (StreamBansRepository_findSiteWide (ban_email email) d \<noteq> None)"

definition isBlocked :: "string \<Rightarrow> int option \<Rightarrow> 'z db_scheme \<Rightarrow> bool" where
  "isBlocked email ev d = (StreamBansRepository_listBlocking (ban_email email) ev d \<noteq> [])"

definition purgeLegacyStrictLimitsBans :: "'z db_scheme \<Rightarrow> 'z db_scheme" where
  "purgeLegacyStrictLimitsBans d = snd (StreamBansRepository_purgeStrictLimits d)"

record ban_input =
  bi_email :: string
  bi_eventId :: "int option"
  bi_reason :: "string option"
  bi_bannedBy :: "string option"

definition existing_ban :: "string \<Rightarrow> int option \<Rightarrow> 'z db_scheme \<Rightarrow> stream_ban_row option" where
  "existing_ban email ev d = (case ev of
     None \<Rightarrow> StreamBansRepository_findSiteWide email d
   | Some i \<Rightarrow> find (\<lambda>b. sb_email b = email) (StreamBansRepository_listByEvent i d))"

definition ban :: "ban_input \<Rightarrow> 'z core_scheme \<Rightarrow> (stream_ban_row, 'z core_scheme) outcome" where
  "ban input w =
     (let email = ban_email (bi_email input); ev = bi_eventId input in
      if email = [] then (Inl (HttpError 400 ''email is required''), w)
      else case existing_ban email ev w of
        Some b \<Rightarrow> (Inr b, w)
      | None \<Rightarrow> andThen (StreamBansRepository_insert \<lparr>sb_id = 0, sb_email = email, sb_eventId = ev,
                    sb_reason = bi_reason input, sb_bannedBy = bi_bannedBy input, sb_createdAt = 0\<rparr> w) (\<lambda>row w1.
          (Inr row, audit LWarn CAdmin
             (''stream ban ('' @ (case ev of None \<Rightarrow> ''site-wide'' | Some i \<Rightarrow> ''event '' @ int_str i) @ ''): '' @ email)
             \<lparr>ai_actor = Some email, ai_eventId = None, ai_streamName = Some email,
              ai_detail = Some (JObj [(''email'', JStr email), (''eventId'', json_opt json_int ev),
                (''reason'', json_opt JStr (bi_reason input)), (''bannedBy'', json_opt JStr (bi_bannedBy input))])\<rparr> w1)))"

definition unban :: "int \<Rightarrow> string option \<Rightarrow> 'z core_scheme \<Rightarrow> 'z core_scheme" where
  "unban i actor w =
     (let row = find (\<lambda>b. sb_id b = i) (StreamBansRepository_listAll w);
          w1 = StreamBansRepository_remove i w
      in case row of
           None \<Rightarrow> w1
         | Some b \<Rightarrow> audit LInfo CAdmin (''stream ban lifted: '' @ sb_email b)
             \<lparr>ai_actor = Some (sb_email b), ai_eventId = None, ai_streamName = Some (sb_email b),
              ai_detail = Some (JObj [(''email'', JStr (sb_email b)), (''eventId'', json_opt json_int (sb_eventId b)),
                (''by'', json_opt JStr actor)])\<rparr> w1)"

lemma isBlocked_iff:
  "isBlocked email ev d \<longleftrightarrow> (\<exists>b\<in>set (rows (t_streamBans d)). sb_email b = ban_email email
      \<and> (sb_eventId b = None \<or> sb_eventId b = ev))"
  by (cases ev) (auto simp: isBlocked_def StreamBansRepository_listBlocking_def tbl_select_def filter_empty_conv)

lemma existing_ban_Some:
  "existing_ban email ev d = Some b \<Longrightarrow> b \<in> set (rows (t_streamBans d)) \<and> sb_email b = email \<and> sb_eventId b = ev"
  by (auto simp: existing_ban_def StreamBansRepository_findSiteWide_def StreamBansRepository_listByEvent_def
      order_desc_def tbl_select_def dest!: tbl_find_Some find_SomeD split: option.splits)

lemma existing_ban_None:
  "existing_ban email ev d = None \<longleftrightarrow> (\<forall>b\<in>set (rows (t_streamBans d)). \<not> (sb_email b = email \<and> sb_eventId b = ev))"
  by (cases ev) (auto simp: existing_ban_def StreamBansRepository_findSiteWide_def StreamBansRepository_listByEvent_def
      order_desc_def tbl_select_def tbl_find_None find_None_iff)

lemma ban_Inr:
  assumes "ban input w = (Inr b, w')"
  shows "sb_email b = ban_email (bi_email input) \<and> sb_eventId b = bi_eventId input \<and> ban_email (bi_email input) \<noteq> []
    \<and> (existing_ban (ban_email (bi_email input)) (bi_eventId input) w = Some b \<and> w' = w
       \<or> existing_ban (ban_email (bi_email input)) (bi_eventId input) w = None
         \<and> rows (t_streamBans w') = rows (t_streamBans w) @ [b])"
proof (cases "existing_ban (ban_email (bi_email input)) (bi_eventId input) w")
  case None
  let ?v = "\<lparr>sb_id = 0, sb_email = ban_email (bi_email input), sb_eventId = bi_eventId input,
      sb_reason = bi_reason input, sb_bannedBy = bi_bannedBy input, sb_createdAt = 0\<rparr>"
  obtain w1 where w1: "StreamBansRepository_insert ?v w = (Inr b, w1)" "t_streamBans w' = t_streamBans w1"
    "ban_email (bi_email input) \<noteq> []"
    using assms None by (auto simp: ban_def Let_def andThen_eq_Inr split: if_splits)
  have "b = put_ban (?v\<lparr>sb_createdAt := db_now w\<rparr>) (seq (t_streamBans w))" "rows (t_streamBans w1) = rows (t_streamBans w) @ [b]"
    using w1(1) by (auto simp: StreamBansRepository_insert_def tbl_insert_def split: if_splits)
  with None w1 show ?thesis by (simp add: put_ban_def)
next
  case (Some b0)
  then show ?thesis using assms existing_ban_Some[OF Some] by (auto simp: ban_def Let_def split: if_splits)
qed

text \<open>C12 A ban blocks exactly what it says: after a successful ban an account is blocked from an
  event if it was before, or if its e-mail, trimmed and lower-cased, is the banned one and
  the ban is site-wide or for this very event; the ban returned is the one stored for that
  e-mail and scope, and banning again returns it and changes nothing.\<close>

theorem ban_blocks:
  assumes "ban input w = (Inr b, w')"
  shows "(isBlocked email ev w' \<longleftrightarrow> isBlocked email ev w
      \<or> ban_email email = ban_email (bi_email input) \<and> (bi_eventId input = None \<or> bi_eventId input = ev))
    \<and> b \<in> set (rows (t_streamBans w')) \<and> sb_email b = ban_email (bi_email input) \<and> sb_eventId b = bi_eventId input
    \<and> ban input w' = (Inr b, w')"
proof -
  note b = ban_Inr[OF assms]
  have stored: "b \<in> set (rows (t_streamBans w'))"
    and only: "\<And>b'. b' \<in> set (rows (t_streamBans w')) \<Longrightarrow> b' = b \<or> b' \<in> set (rows (t_streamBans w))"
    and old: "\<And>b'. b' \<in> set (rows (t_streamBans w)) \<Longrightarrow> b' \<in> set (rows (t_streamBans w'))"
    using b existing_ban_Some[of "ban_email (bi_email input)" "bi_eventId input" w b] by auto
  have "existing_ban (ban_email (bi_email input)) (bi_eventId input) w' = Some b"
  proof (cases "existing_ban (ban_email (bi_email input)) (bi_eventId input) w")
    case None
    have "existing_ban (ban_email (bi_email input)) (bi_eventId input) w' \<noteq> None"
      using stored b unfolding existing_ban_None by blast
    then obtain b' where b': "existing_ban (ban_email (bi_email input)) (bi_eventId input) w' = Some b'" by auto
    from existing_ban_Some[OF this] only None have "b' = b" unfolding existing_ban_None by blast
    with b' show ?thesis by simp
  next
    case (Some b0)
    with b show ?thesis by auto
  qed
  then have again: "ban input w' = (Inr b, w')" using b by (simp add: ban_def Let_def)
  have "isBlocked email ev w' \<longleftrightarrow> isBlocked email ev w
      \<or> ban_email email = ban_email (bi_email input) \<and> (bi_eventId input = None \<or> bi_eventId input = ev)"
    unfolding isBlocked_iff using b stored only old by metis
  with stored b again show ?thesis by blast
qed

text \<open>Lifting a ban removes that ban and no other.\<close>

lemma unban_lifts:
  "rows (t_streamBans (unban i actor w)) = filter (\<lambda>b. sb_id b \<noteq> i) (rows (t_streamBans w))"
  by (simp add: unban_def Let_def StreamBansRepository_remove_def tbl_delete_def split: option.split)


section \<open>The questions of the RTMP gateway\<close>

definition rtmp_guard :: "externals \<Rightarrow> string option \<Rightarrow> error option" where
  "rtmp_guard x header = (if e_mediaNodeAuthToken x \<noteq> [] \<and> header \<noteq> Some (e_mediaNodeAuthToken x)
     then Some (HttpError 401 ''Unauthorized'') else None)"

text \<open>crypto.randomUUID without its dashes: 16 random bytes with the version and the variant.\<close>

definition uuid_hex :: "'z core_scheme \<Rightarrow> string \<times> 'z core_scheme" where
  "uuid_hex w = (let (bs, w1) = randomBytes 16 w;
       b6 = char_of (64 + of_char (bs ! 6) mod (16::nat)); b8 = char_of (128 + of_char (bs ! 8) mod (64::nat))
     in (to_hex (bs[6 := b6, 8 := b8]), w1))"

definition randomSalt :: "'z core_scheme \<Rightarrow> string \<times> 'z core_scheme" where
  "randomSalt w = (let (u, w1) = uuid_hex w in (take 16 u, w1))"

text \<open>GET /api/srs/rtmp-auth/salt: the salt and the site-wide ban flag.\<close>

definition rtmp_salt :: "externals \<Rightarrow> string option \<Rightarrow> string \<Rightarrow> 'z core_scheme \<Rightarrow> (string \<times> bool, 'z core_scheme) outcome" where
  "rtmp_salt x header q w =
     (case rtmp_guard x header of
        Some e \<Rightarrow> (Inl e, w)
      | None \<Rightarrow>
          let email = ban_email q;
              salt = (if email = [] then None else Option.bind (UsersRepository_findByEmail email w) us_authmodSalt);
              banned = (email \<noteq> [] \<and> isSiteWideBanned email w)
          in (case salt of
                Some s \<Rightarrow> if s \<noteq> [] then (Inr (s, banned), w)
                          else (let (r, w1) = randomSalt w in (Inr (r, banned), w1))
              | None \<Rightarrow> (let (r, w1) = randomSalt w in (Inr (r, banned), w1))))"

record verify_body =
  vb_email :: string
  vb_opaque :: string
  vb_challenge :: string
  vb_response :: string

text \<open>POST /api/srs/rtmp-auth/verify: (allow, known).\<close>

definition rtmp_verify :: "externals \<Rightarrow> string option \<Rightarrow> verify_body \<Rightarrow> 'z core_scheme \<Rightarrow> (bool \<times> bool, 'z core_scheme) outcome" where
  "rtmp_verify x header body w =
     (case rtmp_guard x header of
        Some e \<Rightarrow> (Inl e, w)
      | None \<Rightarrow>
          let email = ban_email (vb_email body);
              cipher = (if email = [] then None else Option.bind (UsersRepository_findByEmail email w) us_authmodVerifier)
          in (if cipher = None \<or> cipher = Some [] then
                (Inr (False, False), audit LWarn CAuth ''authmod failed: user does not exist''
                   (no_opts\<lparr>ai_detail := Some (JObj [(''attemptedEmail'', if email = [] then JNull else JStr email),
                      (''source'', JStr ''http'')])\<rparr>) w)
              else case verifierFromCipher x (the cipher) of
                Inl e \<Rightarrow> (Inl e, w)
              | Inr v \<Rightarrow>
                  if verifyResponse x v (vb_opaque body) (vb_challenge body) (vb_response body) then (Inr (True, True), w)
                  else (Inr (False, True), audit LWarn CAuth (''authmod failed: wrong password ('' @ email @ '')'')
                         (no_opts\<lparr>ai_actor := Some email, ai_detail := Some (JObj [(''email'', JStr email),
                            (''source'', JStr ''http'')])\<rparr>) w)))"

record rtmp_policy_view =
  rp_publishKey :: bool
  rp_requireAccountAuth :: bool
  rp_windowOpen :: bool
  rp_banned :: bool

text \<open>GET /api/srs/rtmp-auth/policy\<close>

definition window_open :: "event_row option \<Rightarrow> int \<Rightarrow> bool" where
  "window_open row now =
     (case row of
        None \<Rightarrow> True
      | Some e \<Rightarrow> ev_status e \<noteq> Archived
          \<and> (case ev_startsAt e of None \<Rightarrow> True | Some s \<Rightarrow> s \<le> now)
          \<and> (case ev_endsAt e of None \<Rightarrow> True | Some t \<Rightarrow> now \<le> t))"

definition rtmp_policy :: "externals \<Rightarrow> string option \<Rightarrow> string \<Rightarrow> string \<Rightarrow> 'z db_scheme \<Rightarrow> error + rtmp_policy_view" where
  "rtmp_policy x header token stream0 d =
     (case rtmp_guard x header of
        Some e \<Rightarrow> Inl e
      | None \<Rightarrow>
          let stream = js_trim stream0;
              row = (if token = [] then None else EventsRepository_findByPublishKey token d)
          in Inr \<lparr>rp_publishKey = (row \<noteq> None), rp_requireAccountAuth = True, rp_windowOpen = window_open row (clock d),
                  rp_banned = (stream \<noteq> [] \<and> isBlocked stream (map_option ev_id row) d)\<rparr>)"

lemma window_open_iff:
  "window_open (Some e) now \<longleftrightarrow> ev_status e \<noteq> Archived \<and> withinWindow now e = None"
  by (auto simp: window_open_def withinWindow_def not_less split: option.splits)

text \<open>The hook on a token, by the credential that decides.\<close>

lemma hook_admits:
  assumes "parseToken param = Some token" "fst (authorizePublish x name param d) = Allow ev key label"
  shows "(\<exists>k. matching_key x token (StreamKeysRepository_findAllByStreamName name d) = Some k \<and> key = sk_id k)
    \<or> (\<exists>e. findEventByPublishToken x token d = Some e \<and> ev = ev_id e \<and> key = -1)
    \<or> (\<exists>e. EventsRepository_findByPublishKey token d = Some e \<and> ev = ev_id e \<and> key = -1 \<and> token \<noteq> []
         \<and> window_open (Some e) (clock d))"
proof (cases "matching_key x token (StreamKeysRepository_findAllByStreamName name d)")
  case None
  then obtain e where e: "token \<noteq> []" "shared_event x token d = Some e" "authorize_event e d = Allow ev key label"
    using assms by (auto simp: authorizePublish_def Let_def split: option.splits if_splits)
  from e(3) have "ev = ev_id e \<and> key = -1 \<and> window_open (Some e) (clock d)"
    by (auto simp: authorize_event_def window_open_iff split: if_splits option.splits)
  with e(1,2) show ?thesis by (auto simp: shared_event_def orElse_def split: option.splits)
next
  case (Some k)
  with assms have "token \<noteq> []" by (auto simp: authorizePublish_def Let_def split: if_splits)
  with assms Some show ?thesis
    by (auto simp: authorizePublish_def authorize_key_def Let_def split: option.splits if_splits)
qed

lemma hook_by_key:
  assumes "parseToken param = Some token" "token \<noteq> []" "EventsRepository_findByPublishKey token d = Some e"
    "findEventByPublishToken x token d = None" "matching_key x token (StreamKeysRepository_findAllByStreamName name d) = None"
  shows "fst (authorizePublish x name param d) = authorize_event e d"
  using assms by (simp add: authorizePublish_def Let_def shared_event_def orElse_def)

text \<open>C13 The gateway is never told that the window is closed for a publisher whom the publish hook would let
  in by the publish key.  The policy calls a token a publish key exactly when it is one, and the name banned
  exactly when a ban of the whole site or of the event of that key is on the address it stands for.  Whatever
  name is published with this token: when the hook admits, it is by a stream key of that name, by the publish token
  of an event, or by the publish key, and then to the event of the key and with the window reported
  open.  When the hook refuses a token that is a publish key and neither of the others although the window was
  reported open, the cause is that the event is not live, and nothing else.\<close>

theorem policy_never_stricter:
  assumes "rtmp_policy x header token stream d = Inr p" "parseToken param = Some token"
  shows "(rp_publishKey p \<longleftrightarrow> token \<noteq> [] \<and> EventsRepository_findByPublishKey token d \<noteq> None)
    \<and> (rp_banned p \<longleftrightarrow> js_trim stream \<noteq> [] \<and> (\<exists>b\<in>set (rows (t_streamBans d)). sb_email b = ban_email (js_trim stream)
         \<and> (sb_eventId b = None \<or> rp_publishKey p \<and> sb_eventId b = map_option ev_id (EventsRepository_findByPublishKey token d))))
    \<and> (case fst (authorizePublish x name param d) of
         Allow ev key label \<Rightarrow>
           (\<exists>k. matching_key x token (StreamKeysRepository_findAllByStreamName name d) = Some k \<and> key = sk_id k)
         \<or> (\<exists>e. findEventByPublishToken x token d = Some e \<and> ev = ev_id e \<and> key = -1)
         \<or> (\<exists>e. EventsRepository_findByPublishKey token d = Some e \<and> ev = ev_id e \<and> key = -1 \<and> rp_publishKey p \<and> rp_windowOpen p)
       | Reject r \<Rightarrow>
           rp_publishKey p \<and> rp_windowOpen p \<and> findEventByPublishToken x token d = None
             \<and> matching_key x token (StreamKeysRepository_findAllByStreamName name d) = None
           \<longrightarrow> (\<exists>e. EventsRepository_findByPublishKey token d = Some e \<and> ev_status e \<noteq> Live
                 \<and> r = publishClosedReason (Some (ev_status e))))"
proof (intro conjI)
  let ?row = "if token = [] then None else EventsRepository_findByPublishKey token d"
  have p: "rp_publishKey p \<longleftrightarrow> ?row \<noteq> None" "rp_windowOpen p \<longleftrightarrow> window_open ?row (clock d)"
    "rp_banned p \<longleftrightarrow> js_trim stream \<noteq> [] \<and> isBlocked (js_trim stream) (map_option ev_id ?row) d"
    using assms(1) by (auto simp: rtmp_policy_def Let_def split: option.splits)
  show "rp_publishKey p \<longleftrightarrow> token \<noteq> [] \<and> EventsRepository_findByPublishKey token d \<noteq> None" by (simp add: p)
  show "rp_banned p \<longleftrightarrow> js_trim stream \<noteq> [] \<and> (\<exists>b\<in>set (rows (t_streamBans d)). sb_email b = ban_email (js_trim stream)
         \<and> (sb_eventId b = None \<or> rp_publishKey p \<and> sb_eventId b = map_option ev_id (EventsRepository_findByPublishKey token d)))"
    by (cases ?row) (auto simp: p isBlocked_iff split: if_splits)
  show "case fst (authorizePublish x name param d) of
         Allow ev key label \<Rightarrow>
           (\<exists>k. matching_key x token (StreamKeysRepository_findAllByStreamName name d) = Some k \<and> key = sk_id k)
         \<or> (\<exists>e. findEventByPublishToken x token d = Some e \<and> ev = ev_id e \<and> key = -1)
         \<or> (\<exists>e. EventsRepository_findByPublishKey token d = Some e \<and> ev = ev_id e \<and> key = -1 \<and> rp_publishKey p \<and> rp_windowOpen p)
       | Reject r \<Rightarrow>
           rp_publishKey p \<and> rp_windowOpen p \<and> findEventByPublishToken x token d = None
             \<and> matching_key x token (StreamKeysRepository_findAllByStreamName name d) = None
           \<longrightarrow> (\<exists>e. EventsRepository_findByPublishKey token d = Some e \<and> ev_status e \<noteq> Live
                 \<and> r = publishClosedReason (Some (ev_status e)))"
  proof (cases "fst (authorizePublish x name param d)")
    case (Allow ev key label)
    from hook_admits[OF assms(2) this] show ?thesis unfolding Allow by (auto simp: p)
  next
    case (Reject r)
    have "\<exists>e. EventsRepository_findByPublishKey token d = Some e \<and> ev_status e \<noteq> Live \<and> r = publishClosedReason (Some (ev_status e))"
      if open_key: "rp_publishKey p" "rp_windowOpen p" and no: "findEventByPublishToken x token d = None"
        "matching_key x token (StreamKeysRepository_findAllByStreamName name d) = None"
    proof -
      obtain e where e: "token \<noteq> []" "EventsRepository_findByPublishKey token d = Some e" "window_open (Some e) (clock d)"
        using open_key by (auto simp: p split: if_splits)
      have "authorize_event e d = Reject r" using hook_by_key[OF assms(2) e(1,2) no] Reject by simp
      with e show ?thesis by (auto simp: authorize_event_def window_open_iff split: if_splits)
    qed
    then show ?thesis unfolding Reject by simp
  qed
qed

lemma mint_nonempty: "mintAuthmod x u pw w = ((salt, cipher), w') \<Longrightarrow> salt \<noteq> [] \<and> cipher \<noteq> []"
proof -
  assume m: "mintAuthmod x u pw w = ((salt, cipher), w')"
  then have "salt = to_hex (fst (randomBytes 8 w))" by (auto simp: mintAuthmod_def generateSalt_def Let_def case_prod_unfold)
  then have "length salt = 16" by simp
  moreover have "cipher = fst (encrypt x (computeVerifier x u salt pw) (snd (generateSalt w)))"
    using m by (auto simp: mintAuthmod_def Let_def case_prod_unfold)
  then have "\<exists>bs. cipher = to_base64 (fst (randomBytes 12 (snd (generateSalt w))) @ bs)" by (auto simp: encrypt_def Let_def case_prod_unfold)
  then obtain bs where c: "cipher = to_base64 (fst (randomBytes 12 (snd (generateSalt w))) @ bs)" ..
  have "fst (randomBytes 12 (snd (generateSalt w))) \<noteq> []"
    using length_randomBytes[of 12 "snd (generateSalt w)"] by (intro notI) simp
  with c have "cipher \<noteq> []" using to_base64_nonempty by simp
  ultimately show ?thesis by auto
qed

lemma audit_rows: "length (rows (t_audit (audit l c m v w))) = length (rows (t_audit w)) + 1"
  by (simp add: audit_def emit_def AuditLogRepository_insert_def tbl_insert_def Let_def)

text \<open>C14 Signing in to OBS with the account password works: for a user whose authmod columns were
  minted from a password, the salt the gateway is given is that of the account, and the
  verification answers known, and allow exactly for the response that librtmp computes from
  the e-mail, that salt and that password; nothing is written unless the response is wrong,
  and then one audit entry.\<close>

theorem rtmp_login_complete:
  assumes "gcm_laws x" "\<And>s. x_md5 x s \<noteq> []" "rtmp_guard x header = None"
    and "mintAuthmod x (us_email u) pw w0 = ((salt, cipher), w1)"
    and "UsersRepository_findByEmail (us_email u) w = Some u" "us_authmodSalt u = Some salt" "us_authmodVerifier u = Some cipher"
    and "us_email u \<noteq> []" "ban_email (us_email u) = us_email u" "ban_email (vb_email body) = us_email u"
  shows "fst (rtmp_salt x header (us_email u) w) = Inr (salt, isSiteWideBanned (us_email u) w)
    \<and> fst (rtmp_verify x header body w) =
        Inr (vb_response body = librtmp_response x (us_email u) salt pw (vb_opaque body) (vb_challenge body), True)
    \<and> length (rows (t_audit (snd (rtmp_verify x header body w)))) = length (rows (t_audit w)) +
        (if vb_response body = librtmp_response x (us_email u) salt pw (vb_opaque body) (vb_challenge body) then 0 else 1)"
proof -
  obtain v where v: "verifierFromCipher x cipher = Inr v"
    "verifyResponse x v (vb_opaque body) (vb_challenge body) (vb_response body) \<longleftrightarrow>
       vb_response body = librtmp_response x (us_email u) salt pw (vb_opaque body) (vb_challenge body)"
    using authmod_complete[OF assms(1,2,4)] by blast
  have "salt \<noteq> []" "cipher \<noteq> []" using mint_nonempty[OF assms(4)] by auto
  with assms v show ?thesis
    by (auto simp: rtmp_salt_def rtmp_verify_def Let_def audit_rows)
qed

text \<open>The salt invented for an unknown account is not byte-identical to a real one: a real salt
  is 16 random hex digits and stable, this one changes with every request and always has
  the version digit of a UUID in its thirteenth place.\<close>

lemma to_hex_nth: "i < length bs \<Longrightarrow> to_hex bs ! (2 * i) = hex_digit (of_char (bs ! i) div 16)"
proof (induction bs arbitrary: i)
  case (Cons b bs)
  then show ?case by (cases i) (simp_all add: to_hex_def Let_def)
qed simp

lemma unknown_salt_marked: "fst (randomSalt w) ! 12 = CHR ''4''"
proof -
  define bs where "bs = fst (randomBytes 16 w)"
  define b where "b = (char_of (64 + of_char (bs ! 6) mod (16::nat)) :: char)"
  define b8 where "b8 = (char_of (128 + of_char (bs ! 8) mod (64::nat)) :: char)"
  have len: "length bs = 16" by (simp add: bs_def)
  have "of_char b = 64 + of_char (bs ! 6) mod (16::nat)" by (simp add: b_def)
  then have d: "of_char b div 16 = (4::nat)" by simp
  have "fst (randomSalt w) ! 12 = to_hex (bs[6 := b, 8 := b8]) ! (2 * 6)"
    by (simp add: randomSalt_def uuid_hex_def Let_def case_prod_unfold bs_def b_def b8_def)
  also have "\<dots> = hex_digit (of_char b div 16)"
    using len by (subst to_hex_nth) simp_all
  finally have "fst (randomSalt w) ! 12 = hex_digit 4" by (simp add: d)
  moreover have "hex_digit 4 = CHR ''4''" by code_simp
  ultimately show ?thesis by simp
qed



section \<open>Concrete runs\<close>

theorem ban_blocks_witness:
  "isBlocked ''ann@x.org'' (Some 1) (snd (ban \<lparr>bi_email = '' Ann@X.org '', bi_eventId = Some 1, bi_reason = None,
      bi_bannedBy = None\<rparr> club))"
proof -
  let ?i = "\<lparr>bi_email = '' Ann@X.org '', bi_eventId = Some 1, bi_reason = None, bi_bannedBy = None\<rparr>"
  have "\<not> isl (fst (ban ?i club))" by code_simp
  then obtain b where b: "ban ?i club = (Inr b, snd (ban ?i club))" using outcome_ok by blast
  have "ban_email ''ann@x.org'' = ban_email '' Ann@X.org ''" by code_simp
  with ban_blocks[OF b, of "''ann@x.org''" "Some 1"] show ?thesis by simp
qed

theorem policy_never_stricter_witness:
  "\<exists>p. rtmp_policy demo_externals None ''contest'' ''ann@x.org'' club = Inr p \<and> rp_publishKey p \<and> rp_windowOpen p
     \<and> \<not> rp_banned p \<and> fst (authorizePublish demo_externals ''ann@x.org'' ''?token=contest'' club) = Allow 1 (-1) None"
proof -
  have "\<not> isl (rtmp_policy demo_externals None ''contest'' ''ann@x.org'' club)" by code_simp
  then obtain p where p: "rtmp_policy demo_externals None ''contest'' ''ann@x.org'' club = Inr p"
    by (cases "rtmp_policy demo_externals None ''contest'' ''ann@x.org'' club") auto
  have hook: "fst (authorizePublish demo_externals ''ann@x.org'' ''?token=contest'' club) = Allow 1 (-1) None" by code_simp
  have no: "findEventByPublishToken demo_externals ''contest'' club = None" by code_simp
  have none: "matching_key demo_externals ''contest'' (StreamKeysRepository_findAllByStreamName ''ann@x.org'' club) = None"
    by (simp add: club_def StreamKeysRepository_findAllByStreamName_def tbl_select_def tbl_empty_def matching_key_def)
  have bans: "rows (t_streamBans club) = []" by (simp add: club_def tbl_empty_def)
  from policy_never_stricter[OF p demo_token, of "''ann@x.org''"] show ?thesis
    unfolding hook no none using p hook bans by auto
qed

definition ann :: user_row where
  "ann = (user_values ''ann@x.org'' ''00:00'')\<lparr>us_id := 1,
     us_authmodSalt := Some (fst (fst (mintAuthmod demo_externals ''ann@x.org'' ''secret1'' demo_core))),
     us_authmodVerifier := Some (snd (fst (mintAuthmod demo_externals ''ann@x.org'' ''secret1'' demo_core)))\<rparr>"

definition studio :: world where
  "studio = club\<lparr>t_users := \<lparr>rows = [ann], seq = 2\<rparr>\<rparr>"

theorem rtmp_login_complete_witness:
  "\<exists>salt. fst (rtmp_salt demo_externals None ''ann@x.org'' studio) = Inr (salt, False)
     \<and> fst (rtmp_verify demo_externals None \<lparr>vb_email = ''Ann@x.org'', vb_opaque = ''o'', vb_challenge = ''c'',
          vb_response = librtmp_response demo_externals ''ann@x.org'' salt ''secret1'' ''o'' ''c''\<rparr> studio) = Inr (True, True)"
proof -
  obtain salt cipher w1 where m: "mintAuthmod demo_externals ''ann@x.org'' ''secret1'' demo_core = ((salt, cipher), w1)"
    by (metis prod.collapse)
  let ?body = "\<lparr>vb_email = ''Ann@x.org'', vb_opaque = ''o'', vb_challenge = ''c'',
      vb_response = librtmp_response demo_externals ''ann@x.org'' salt ''secret1'' ''o'' ''c''\<rparr>"
  have a: "us_email ann = ''ann@x.org''" "us_authmodSalt ann = Some salt" "us_authmodVerifier ann = Some cipher"
    by (simp_all add: ann_def user_values_def m)
  have find: "UsersRepository_findByEmail ''ann@x.org'' studio = Some ann"
    by (simp add: studio_def UsersRepository_findByEmail_def tbl_find_def a)
  have low: "ban_email ''ann@x.org'' = ''ann@x.org''" "ban_email ''Ann@x.org'' = ''ann@x.org''" by code_simp+
  have g: "rtmp_guard demo_externals None = None" by (simp add: rtmp_guard_def demo_externals_def)
  have nb: "\<not> isSiteWideBanned ''ann@x.org'' studio"
    by (simp add: isSiteWideBanned_def studio_def club_def StreamBansRepository_findSiteWide_def tbl_find_def tbl_empty_def)
  have m': "mintAuthmod demo_externals (us_email ann) ''secret1'' demo_core = ((salt, cipher), w1)" using m a by simp
  from rtmp_login_complete[OF demo_gcm_laws demo_md5 g m', of studio ?body] find low a nb
  show ?thesis by auto
qed

end
