(* ===== verification/Session.thy ===== *)
theory Session
  imports Gateway
begin

text \<open>
  Who is calling: utils/session.ts (the JWT cookie), utils/auth.ts (the gates of the
  handlers) and the server middleware 00-host-normalize, 01-auth and 02-cors.  Signing and
  verifying a JWT (jose) are parameters.
\<close>

section \<open>The session cookie\<close>

record session_payload =
  sp_uid :: rat
  sp_role :: role
  sp_exp :: rat

definition COOKIE_NAME :: string where "COOKIE_NAME = ''sid''"
definition MAX_AGE_SEC :: int where "MAX_AGE_SEC = 7 * 24 * 60 * 60"

text \<open>httpOnly and the path are constant; secure is absent where it is not True.\<close>

record cookie_spec =
  ck_name :: string
  ck_value :: string
  ck_sameSiteNone :: bool
  ck_secure :: bool
  ck_maxAge :: int

definition CROSS_ORIGIN :: "externals \<Rightarrow> bool" where
  "CROSS_ORIGIN x = (e_corsOrigins x \<noteq> [])"

definition now_sec :: "'z db_scheme \<Rightarrow> int" where
  "now_sec d = clock d div 1000"

definition createSessionCookie :: "externals \<Rightarrow> int \<Rightarrow> role \<Rightarrow> 'z db_scheme \<Rightarrow> cookie_spec" where
  "createSessionCookie x uid r d =
     \<lparr>ck_name = COOKIE_NAME, ck_value = x_jwtSign x (e_jwtSecret x) uid r (now_sec d + MAX_AGE_SEC),
      ck_sameSiteNone = CROSS_ORIGIN x, ck_secure = CROSS_ORIGIN x, ck_maxAge = MAX_AGE_SEC\<rparr>"

definition claim_num :: "string \<Rightarrow> (string \<times> json) list \<Rightarrow> rat option" where
  "claim_num k kvs = (case map_of kvs k of Some (JNum n) \<Rightarrow> Some n | _ \<Rightarrow> None)"

definition claim_role :: "(string \<times> json) list \<Rightarrow> role option" where
  "claim_role kvs = (case map_of kvs ''role'' of
     Some (JStr s) \<Rightarrow> if s = ''admin'' then Some RAdmin else if s = ''user'' then Some RUser else None
   | _ \<Rightarrow> None)"

definition readSessionCookie :: "externals \<Rightarrow> string option \<Rightarrow> 'z db_scheme \<Rightarrow> session_payload option" where
  "readSessionCookie x value d =
     (case value of
        None \<Rightarrow> None
      | Some v \<Rightarrow>
          if v = [] then None
          else case x_jwtVerify x (e_jwtSecret x) (now_sec d) v of
            None \<Rightarrow> None
          | Some kvs \<Rightarrow>
              (case claim_num ''uid'' kvs of None \<Rightarrow> None | Some u \<Rightarrow>
              (case claim_role kvs of None \<Rightarrow> None | Some r \<Rightarrow>
              (case claim_num ''exp'' kvs of None \<Rightarrow> None | Some e \<Rightarrow>
                 Some \<lparr>sp_uid = u, sp_role = r, sp_exp = e\<rparr>))))"

definition clearSessionCookie :: "externals \<Rightarrow> cookie_spec" where
  "clearSessionCookie x = \<lparr>ck_name = COOKIE_NAME, ck_value = [], ck_sameSiteNone = CROSS_ORIGIN x,
     ck_secure = CROSS_ORIGIN x, ck_maxAge = 0\<rparr>"

text \<open>What jose documents: a token verifies under the key that signed it until it expires, and
  gives back the claims.\<close>

definition jwt_laws :: "externals \<Rightarrow> bool" where
  "jwt_laws x \<longleftrightarrow> (\<forall>k u r e now. x_jwtSign x k u r e \<noteq> [] \<and>
     (e \<le> now \<longrightarrow> x_jwtVerify x k now (x_jwtSign x k u r e) = None) \<and>
     (now < e \<longrightarrow> (\<exists>kvs. x_jwtVerify x k now (x_jwtSign x k u r e) = Some kvs
        \<and> map_of kvs ''uid'' = Some (json_int u) \<and> map_of kvs ''role'' = Some (JStr (role_str r))
        \<and> map_of kvs ''exp'' = Some (json_int e))))"


section \<open>The gates of the handlers\<close>

definition requireUser :: "auth_context option \<Rightarrow> error + auth_context" where
  "requireUser auth = (case auth of None \<Rightarrow> Inl (HttpError 403 ''login required'') | Some a \<Rightarrow> Inr a)"

definition requireAdmin :: "auth_context option \<Rightarrow> error + auth_context" where
  "requireAdmin auth =
     (case auth of
        None \<Rightarrow> Inl (HttpError 403 ''admin privileges required'')
      | Some a \<Rightarrow> if ax_role a \<noteq> RAdmin then Inl (HttpError 403 ''admin privileges required'') else Inr a)"

text \<open>me/*: the 401 of the handlers that re-check the middleware.\<close>

definition requireSession :: "auth_context option \<Rightarrow> error + auth_context" where
  "requireSession auth = (case auth of None \<Rightarrow> Inl (HttpError 401 ''authentication required'') | Some a \<Rightarrow> Inr a)"


section \<open>Middleware\<close>

text \<open>01-auth, first half: the cookie gives the identity, the database the role.  No row has a
  key that is not an integer.\<close>

definition user_of_uid :: "rat \<Rightarrow> 'z db_scheme \<Rightarrow> user_row option" where
  "user_of_uid u d = (if of_int \<lfloor>u\<rfloor> = u then UsersRepository_findById \<lfloor>u\<rfloor> d else None)"

definition context_auth :: "externals \<Rightarrow> string option \<Rightarrow> 'z db_scheme \<Rightarrow> auth_context option" where
  "context_auth x cookie d =
     (case readSessionCookie x cookie d of
        None \<Rightarrow> None
      | Some p \<Rightarrow> map_option (\<lambda>u. \<lparr>ax_userId = us_id u, ax_role = us_role u\<rparr>) (user_of_uid (sp_uid p) d))"

definition ALLOW_EXACT :: "string list" where
  "ALLOW_EXACT = [''/'', ''/login'', ''/invite'', ''/favicon.ico'']"

definition ALLOW_PREFIX :: "string list" where
  "ALLOW_PREFIX = [''/api/srs/'', ''/api/auth/'', ''/api/events/public'', ''/e/'', ''/api/events/slug/'', ''/api/health'',
     ''/api/client-errors'', ''/favicon.svg'', ''/_nuxt/'', ''/__nuxt'']"

definition allowlisted :: "string \<Rightarrow> bool" where
  "allowlisted path = (path \<in> set ALLOW_EXACT \<or> list_ex (\<lambda>p. starts_with p path) ALLOW_PREFIX)"

text \<open>encodeURIComponent\<close>

definition uri_char :: "char \<Rightarrow> bool" where
  "uri_char c = (is_alnum c \<or> c \<in> set ''-_.!~*'' \<or> of_char c \<in> {39, 40, 41 :: nat})"

definition upper_hex :: "nat \<Rightarrow> char" where
  "upper_hex n = (if n < 10 then char_of (48 + n) else char_of (55 + n))"

definition encodeURIComponent :: "string \<Rightarrow> string" where
  "encodeURIComponent s = concat (map (\<lambda>c. if uri_char c then [c]
     else [CHR ''%'', upper_hex (of_char c div 16), upper_hex (of_char c mod 16)]) s)"

datatype gate = Through | Refused error | RedirectTo string

definition auth_middleware :: "externals \<Rightarrow> string option \<Rightarrow> string \<Rightarrow> 'z db_scheme \<Rightarrow> auth_context option \<times> gate" where
  "auth_middleware x cookie url d =
     (let auth = context_auth x cookie d;
          path = takeWhile (\<lambda>c. c \<noteq> CHR ''?'') url
      in (auth,
          if allowlisted path then Through
          else if auth \<noteq> None then Through
          else if starts_with ''/api/'' path then Refused (HttpError 401 ''authentication required'')
          else RedirectTo (''/login?redirect='' @ encodeURIComponent path)))"

definition host_normalize :: "string \<Rightarrow> string \<Rightarrow> gate" where
  "host_normalize host url =
     (if starts_with ''0.0.0.0'' host
      then (case js_split (CHR '':'') host of
              _ # p # _ \<Rightarrow> RedirectTo (''http://localhost:'' @ (if p \<noteq> [] then p else ''31954'') @ url)
            | _ \<Rightarrow> RedirectTo (''http://localhost:31954'' @ url))
      else Through)"

text \<open>02-cors: the headers set, and whether the preflight is answered here.\<close>

definition cors_middleware :: "externals \<Rightarrow> string option \<Rightarrow> string \<Rightarrow> (string \<times> string) list \<times> bool" where
  "cors_middleware x origin method =
     (case origin of
        None \<Rightarrow> ([], False)
      | Some og \<Rightarrow>
          if e_corsOrigins x = [] \<or> og = [] \<or> og \<notin> set (e_corsOrigins x) then ([], False)
          else ([(''access-control-allow-origin'', og), (''access-control-allow-credentials'', ''true''),
                 (''access-control-allow-headers'', ''content-type, authorization''),
                 (''access-control-allow-methods'', ''GET, POST, PUT, PATCH, DELETE, OPTIONS''),
                 (''vary'', ''Origin'')], method = ''OPTIONS''))"


section \<open>What the cookie is worth\<close>

lemma user_of_int [simp]: "user_of_uid (of_int i) d = UsersRepository_findById i d"
  by (simp add: user_of_uid_def)

lemma read_own_cookie:
  assumes "jwt_laws x" "now_sec d < now_sec d0 + MAX_AGE_SEC"
  shows "readSessionCookie x (Some (ck_value (createSessionCookie x u r d0))) d
    = Some \<lparr>sp_uid = of_int u, sp_role = r, sp_exp = of_int (now_sec d0 + MAX_AGE_SEC)\<rparr>"
proof -
  let ?t = "x_jwtSign x (e_jwtSecret x) u r (now_sec d0 + MAX_AGE_SEC)"
  obtain kvs where "x_jwtVerify x (e_jwtSecret x) (now_sec d) ?t = Some kvs" "?t \<noteq> []"
    "map_of kvs ''uid'' = Some (json_int u)" "map_of kvs ''role'' = Some (JStr (role_str r))"
    "map_of kvs ''exp'' = Some (json_int (now_sec d0 + MAX_AGE_SEC))"
    using assms(1)[unfolded jwt_laws_def, rule_format, of "e_jwtSecret x" u r "now_sec d0 + MAX_AGE_SEC" "now_sec d"]
      assms(2) by auto
  then show ?thesis
    by (cases r) (simp_all add: readSessionCookie_def createSessionCookie_def claim_num_def claim_role_def
        json_int_def role_str_def)
qed

lemma read_expired_cookie:
  assumes "jwt_laws x" "now_sec d0 + MAX_AGE_SEC \<le> now_sec d"
  shows "readSessionCookie x (Some (ck_value (createSessionCookie x u r d0))) d = None"
  using assms by (simp add: jwt_laws_def readSessionCookie_def createSessionCookie_def)

text \<open>C15 A session is an identity, not a privilege: whatever role the cookie was minted with, for
  the seven days until it expires a request that carries it acts with the role its user has
  in the database at that moment, passes requireAdmin exactly while the user is an
  administrator there, and gets through the middleware on every path while the user exists;
  once the user is gone or the cookie has expired, the request is logged out, and outside the
  allowlist every API path refuses it.\<close>

theorem session_current_role:
  assumes "jwt_laws x" "cookie = Some (ck_value (createSessionCookie x u r d0))"
    and "user = (if now_sec d < now_sec d0 + MAX_AGE_SEC then UsersRepository_findById u d else None)"
  shows "context_auth x cookie d = map_option (\<lambda>us. \<lparr>ax_userId = us_id us, ax_role = us_role us\<rparr>) user
    \<and> ((\<exists>a. requireAdmin (context_auth x cookie d) = Inr a) \<longleftrightarrow> (\<exists>us. user = Some us \<and> us_role us = RAdmin))
    \<and> (user \<noteq> None \<longrightarrow> snd (auth_middleware x cookie url d) = Through)
    \<and> (user = None \<and> starts_with ''/api/'' (takeWhile (\<lambda>c. c \<noteq> CHR ''?'') url)
         \<and> \<not> allowlisted (takeWhile (\<lambda>c. c \<noteq> CHR ''?'') url)
       \<longrightarrow> snd (auth_middleware x cookie url d) = Refused (HttpError 401 ''authentication required''))"
proof -
  have "context_auth x cookie d = map_option (\<lambda>us. \<lparr>ax_userId = us_id us, ax_role = us_role us\<rparr>) user"
    using assms read_own_cookie[OF assms(1), of d d0 u r] read_expired_cookie[OF assms(1), of d0 d u r]
    by (auto simp: context_auth_def not_less)
  then show ?thesis
    by (cases user) (auto simp: requireAdmin_def auth_middleware_def Let_def)
qed

text \<open>A toy instance of the signature, with numbers in unary.\<close>

definition unary :: "int \<Rightarrow> string" where
  "unary i = (if i < 0 then CHR ''-'' else CHR ''+'') # replicate (nat \<bar>i\<bar>) (CHR ''1'')"

definition of_unary :: "string \<Rightarrow> int" where
  "of_unary s = (if hd s = CHR ''-'' then - int (length (tl s)) else int (length (tl s)))"

lemma of_unary [simp]: "of_unary (unary i) = i"
  by (simp add: of_unary_def unary_def)

definition toy_verify :: "int \<Rightarrow> string \<Rightarrow> (string \<times> json) list option" where
  "toy_verify now t = (let u = takeWhile (\<lambda>c. c \<noteq> CHR ''.'') t; rest = drop (length u + 1) t; e = of_unary (tl rest) in
     if e \<le> now then None
     else Some [(''uid'', json_int (of_unary u)), (''role'', JStr (if hd rest = CHR ''a'' then ''admin'' else ''user'')),
                (''exp'', json_int e)])"

definition demo_jwt :: externals where
  "demo_jwt = demo_externals\<lparr>x_jwtSign := (\<lambda>k u r e. unary u @ ''.'' @ (if r = RAdmin then CHR ''a'' else CHR ''u'') # unary e),
     x_jwtVerify := (\<lambda>k. toy_verify)\<rparr>"

lemma toy_verify_sign:
  "toy_verify now (unary u @ ''.'' @ c # unary e) = (if e \<le> now then None
     else Some [(''uid'', json_int u), (''role'', JStr (if c = CHR ''a'' then ''admin'' else ''user'')), (''exp'', json_int e)])"
proof -
  have "takeWhile (\<lambda>c. c \<noteq> CHR ''.'') (unary u @ ''.'' @ c # unary e) = unary u"
    by (subst takeWhile_append2) (auto simp: unary_def split: if_splits)
  then show ?thesis by (simp add: toy_verify_def)
qed

lemma demo_jwt_laws: "jwt_laws demo_jwt"
  unfolding jwt_laws_def
proof (intro allI conjI impI)
  fix k u r e now
  show "x_jwtSign demo_jwt k u r e \<noteq> []" by (simp add: demo_jwt_def unary_def)
  have v: "x_jwtVerify demo_jwt k now (x_jwtSign demo_jwt k u r e) = (if e \<le> now then None
     else Some [(''uid'', json_int u), (''role'', JStr (role_str r)), (''exp'', json_int e)])"
    using toy_verify_sign[of now u "if r = RAdmin then CHR ''a'' else CHR ''u''" e]
    by (cases r) (simp_all add: demo_jwt_def role_str_def)
  then show "e \<le> now \<Longrightarrow> x_jwtVerify demo_jwt k now (x_jwtSign demo_jwt k u r e) = None" by simp
  show "now < e \<Longrightarrow> \<exists>kvs. x_jwtVerify demo_jwt k now (x_jwtSign demo_jwt k u r e) = Some kvs
        \<and> map_of kvs ''uid'' = Some (json_int u) \<and> map_of kvs ''role'' = Some (JStr (role_str r))
        \<and> map_of kvs ''exp'' = Some (json_int e)"
    using v by auto
qed

text \<open>Ann was made an administrator before she logged in; now she is a user.\<close>

theorem session_current_role_witness:
  "requireAdmin (context_auth demo_jwt (Some (ck_value (createSessionCookie demo_jwt 1 RAdmin studio))) studio)
     = Inl (HttpError 403 ''admin privileges required'')"
proof -
  have f: "UsersRepository_findById 1 studio = Some ann" "us_role ann = RUser"
    by (simp_all add: studio_def UsersRepository_findById_def tbl_find_def ann_def user_values_def)
  from session_current_role[OF demo_jwt_laws refl refl, of 1 RAdmin studio studio] f
  show ?thesis by (simp add: requireAdmin_def MAX_AGE_SEC_def)
qed

end
