(* ===== verification/Nodes.thy ===== *)
theory Nodes
  imports Session "HOL-Library.Product_Lexorder"
begin

text \<open>
  The media nodes: services/media-node-registry.ts (who is connected),
  services/media-node-snapshot.ts (what the admin dashboards see), services/node-assignment.ts
  (which node a user publishes to), and the endpoints under api/nodes and api/media-nodes.
\<close>

section \<open>The registry\<close>

definition rtmpAuthority :: "media_node \<Rightarrow> string" where
  "rtmpAuthority n =
     (if nd_publicOrigin n = [] then []
      else if nd_publicRtmpPort n = 1935 then nd_publicOrigin n
      else nd_publicOrigin n @ '':'' @ int_str (nd_publicRtmpPort n))"

text \<open>The three replacements of deriveNodeId.  A dot does not match a line break, so the cut at the
  first colon or slash happens where no line break follows.\<close>

definition strip_scheme :: "string \<Rightarrow> string" where
  "strip_scheme s = (if starts_with ''http://'' s then drop 7 s
     else if starts_with ''https://'' s then drop 8 s else s)"

fun cut_authority :: "string \<Rightarrow> string" where
  "cut_authority [] = []"
| "cut_authority (c # cs) =
     (if (c = CHR '':'' \<or> c = CHR ''/'') \<and> CHR 0x0A \<notin> set cs \<and> CHR 0x0D \<notin> set cs then []
      else c # cut_authority cs)"

definition node_char :: "char \<Rightarrow> char" where
  "node_char c = (if is_alnum c \<or> c = CHR ''-'' then c else CHR ''-'')"

definition deriveNodeId :: "string \<Rightarrow> string" where
  "deriveNodeId origin = js_lower (map node_char (cut_authority (strip_scheme origin)))"

record register_info =
  ri_identifier :: string
  ri_hostname :: string
  ri_version :: string
  ri_srsFlvBase :: "string option"
  ri_publicOrigin :: "string option"
  ri_publicRtmpPort :: "int option"
  ri_publicProbeUdpPort :: "int option"
  ri_publicSrsUdpPort :: "int option"

definition non_empty :: "string option \<Rightarrow> string \<Rightarrow> string" where
  "non_empty s d = (case s of Some v \<Rightarrow> if v = [] then d else v | None \<Rightarrow> d)"

definition info_nodeId :: "register_info \<Rightarrow> string" where
  "info_nodeId info = deriveNodeId (if ri_identifier info \<noteq> [] then ri_identifier info else ri_hostname info)"

definition registry_entry :: "string \<Rightarrow> register_info \<Rightarrow> int \<Rightarrow> media_node option \<Rightarrow> media_node" where
  "registry_entry peer info now existing =
     \<lparr>nd_nodeId = info_nodeId info, nd_socketId = peer, nd_identifier = ri_identifier info,
      nd_publicOrigin = non_empty (ri_publicOrigin info) [],
      nd_publicRtmpPort = (case ri_publicRtmpPort info of Some p \<Rightarrow> if p = 0 then 1935 else p | None \<Rightarrow> 1935),
      nd_publicProbeUdpPort = orDefault (ri_publicProbeUdpPort info) 0,
      nd_publicSrsUdpPort = orDefault (ri_publicSrsUdpPort info) 0,
      nd_hostname = ri_hostname info, nd_version = ri_version info, nd_connectedAt = now,
      nd_activeStreams = (case existing of Some e \<Rightarrow> nd_activeStreams e | None \<Rightarrow> 0),
      nd_srsFlvBase = non_empty (ri_srsFlvBase info) (''http://'' @ ri_identifier info @ '':38081'')\<rparr>"

definition register :: "string \<Rightarrow> register_info \<Rightarrow> 'z world_scheme \<Rightarrow> string \<times> 'z world_scheme" where
  "register peer info w =
     (let i = info_nodeId info in
      (i, w\<lparr>nodes := map_put i (registry_entry peer info (clock w) (map_get i (nodes w))) (nodes w),
            socketToNode := map_put peer i (socketToNode w)\<rparr>))"

definition disconnect :: "string \<Rightarrow> 'z world_scheme \<Rightarrow> string option \<times> 'z world_scheme" where
  "disconnect socketId w =
     (case map_get socketId (socketToNode w) of
        None \<Rightarrow> (None, w)
      | Some i \<Rightarrow>
          if i = [] then (None, w)
          else let w1 = w\<lparr>socketToNode := map_del socketId (socketToNode w)\<rparr> in
            (Some i, case map_get i (nodes w1) of
               None \<Rightarrow> w1
             | Some n \<Rightarrow> if nd_socketId n = socketId then w1\<lparr>nodes := map_del i (nodes w1)\<rparr> else w1))"

definition getNode :: "string \<Rightarrow> 'z world_scheme \<Rightarrow> media_node option" where
  "getNode i w = map_get i (nodes w)"

definition listNodes :: "'z world_scheme \<Rightarrow> media_node list" where
  "listNodes w = sort_key nd_connectedAt (map snd (nodes w))"

definition adjustStreamCount :: "string \<Rightarrow> int \<Rightarrow> 'z world_scheme \<Rightarrow> 'z world_scheme" where
  "adjustStreamCount i delta w =
     (case map_get i (nodes w) of
        None \<Rightarrow> w
      | Some n \<Rightarrow> w\<lparr>nodes := map_put i (n\<lparr>nd_activeStreams := max 0 (nd_activeStreams n + delta)\<rparr>) (nodes w)\<rparr>)"

definition getHostingNode :: "string \<Rightarrow> 'z world_scheme \<Rightarrow> media_node option" where
  "getHostingNode name w =
     (case Option.bind (PublishSessionsRepository_findActiveByStream name w) ps_nodeId of
        None \<Rightarrow> None
      | Some i \<Rightarrow> if i = [] then None else map_get i (nodes w))"

definition resolveFlvBase :: "externals \<Rightarrow> string \<Rightarrow> 'z world_scheme \<Rightarrow> string" where
  "resolveFlvBase x name w =
     (case getHostingNode name w of Some n \<Rightarrow> nd_srsFlvBase n | None \<Rightarrow> e_srsFlvBase x)"


section \<open>Snapshots\<close>

definition node_rtmpUrl :: "media_node \<Rightarrow> string option" where
  "node_rtmpUrl n = (if nd_publicOrigin n = [] then None else Some (obsServerUrl (rtmpAuthority n)))"

definition node_snapshot :: "'z db_scheme \<Rightarrow> media_node \<Rightarrow> media_node_snapshot" where
  "node_snapshot d n =
     \<lparr>mn_nodeId = nd_nodeId n, mn_rtmpUrl = node_rtmpUrl n, mn_publicOrigin = nd_publicOrigin n,
      mn_publicRtmpPort = nd_publicRtmpPort n, mn_publicProbeUdpPort = nd_publicProbeUdpPort n,
      mn_publicSrsUdpPort = nd_publicSrsUdpPort n, mn_version = nd_version n,
      mn_activeStreams = nd_activeStreams n, mn_connectedAt = nd_connectedAt n,
      mn_maxUsers = NodeSettingsRepository_getMaxUsers (nd_nodeId n) d,
      mn_assignedUsers = NodeSettingsRepository_assignedCount (nd_nodeId n) d,
      mn_users = map (\<lambda>u. (us_id u, us_email u))
        (take 200 (filter (\<lambda>u. us_nodeId u = Some (nd_nodeId n)) (UsersRepository_findAll d)))\<rparr>"

definition nodesSnapshot :: "'z world_scheme \<Rightarrow> media_node_snapshot list" where
  "nodesSnapshot w = map (node_snapshot w) (listNodes w)"

definition emitNodesChanged :: "'z world_scheme \<Rightarrow> 'z world_scheme" where
  "emitNodesChanged w = emit (NodesChanged (nodesSnapshot w)) w"


section \<open>Assignment\<close>

text \<open>A latency that was measured, or the infinity of the source; the order is that of the
  comparator, for which two infinities are equal.\<close>

datatype latency = Measured int | Unmeasured

instantiation latency :: linorder
begin

fun less_eq_latency :: "latency \<Rightarrow> latency \<Rightarrow> bool" where
  "less_eq_latency (Measured a) (Measured b) = (a \<le> b)"
| "less_eq_latency (Measured a) Unmeasured = True"
| "less_eq_latency Unmeasured (Measured b) = False"
| "less_eq_latency Unmeasured Unmeasured = True"

definition less_latency :: "latency \<Rightarrow> latency \<Rightarrow> bool" where
  "less_latency a b = (a \<le> b \<and> \<not> b \<le> a)"

instance
proof
  fix a b c :: latency
  show "a < b \<longleftrightarrow> a \<le> b \<and> \<not> b \<le> a" by (rule less_latency_def)
  show "a \<le> a" by (cases a) simp_all
  show "a \<le> b \<Longrightarrow> b \<le> c \<Longrightarrow> a \<le> c" by (cases a; cases b; cases c) simp_all
  show "a \<le> b \<Longrightarrow> b \<le> a \<Longrightarrow> a = b" by (cases a; cases b) simp_all
  show "a \<le> b \<or> b \<le> a" by (cases a; cases b) auto
qed

end

text \<open>The ratio is exact here; on counts and caps of at most a hundred thousand the double of the
  source orders candidates the same way.\<close>

record candidate =
  cd_nodeId :: string
  cd_latency :: latency
  cd_ratio :: rat
  cd_underQuota :: bool

definition measured :: "int \<Rightarrow> 'z db_scheme \<Rightarrow> (string, int) jsmap" where
  "measured u d = fold (\<lambda>(n, ms) m. map_put n ms m) (NodeLatenciesRepository_forUser u d) []"

definition candidate_of :: "int \<Rightarrow> 'z db_scheme \<Rightarrow> media_node \<Rightarrow> candidate" where
  "candidate_of u d n =
     (let m = NodeSettingsRepository_getMaxUsers (nd_nodeId n) d;
          assigned = NodeSettingsRepository_assignedCount (nd_nodeId n) d
      in \<lparr>cd_nodeId = nd_nodeId n,
          cd_latency = (case map_get (nd_nodeId n) (measured u d) of Some ms \<Rightarrow> Measured ms | None \<Rightarrow> Unmeasured),
          cd_ratio = of_int assigned / of_int (max 1 m), cd_underQuota = (assigned < m)\<rparr>)"

definition free_key :: "candidate \<Rightarrow> latency \<times> rat" where
  "free_key c = (cd_latency c, cd_ratio c)"

definition overflow_key :: "candidate \<Rightarrow> rat \<times> latency" where
  "overflow_key c = (cd_ratio c, cd_latency c)"

definition allocate :: "int \<Rightarrow> 'z world_scheme \<Rightarrow> string option" where
  "allocate u w =
     (let candidates = map (candidate_of u w) (listNodes w) in
      if candidates = [] then None
      else let free = sort_key free_key (filter cd_underQuota candidates) in
        if free \<noteq> [] then Some (cd_nodeId (hd free))
        else Some (cd_nodeId (hd (sort_key overflow_key candidates))))"

record assignment_view =
  as_assigned :: "string option"
  as_assignedRtmpAuthority :: string
  as_origin :: string
  as_rtmpPort :: int
  as_probeUdpPort :: int
  as_srsUdpPort :: int

definition assignmentView :: "int \<Rightarrow> 'z world_scheme \<Rightarrow> assignment_view" where
  "assignmentView u w =
     (let assigned = Option.bind (UsersRepository_findById u w) us_nodeId;
          node = (case assigned of None \<Rightarrow> None | Some i \<Rightarrow> if i = [] then None else getNode i w)
      in \<lparr>as_assigned = assigned,
          as_assignedRtmpAuthority = (case node of None \<Rightarrow> [] | Some n \<Rightarrow> rtmpAuthority n),
          as_origin = (case node of None \<Rightarrow> [] | Some n \<Rightarrow> nd_publicOrigin n),
          as_rtmpPort = (case node of None \<Rightarrow> 1935 | Some n \<Rightarrow> nd_publicRtmpPort n),
          as_probeUdpPort = (case node of None \<Rightarrow> 0 | Some n \<Rightarrow> nd_publicProbeUdpPort n),
          as_srsUdpPort = (case node of None \<Rightarrow> 0 | Some n \<Rightarrow> nd_publicSrsUdpPort n)\<rparr>)"

definition clamp_latency :: "rat \<Rightarrow> int" where
  "clamp_latency ms = max 0 (min 60000 \<lfloor>ms + 1 / 2\<rfloor>)"

fun record_latencies :: "int \<Rightarrow> string list \<Rightarrow> (string \<times> rat) list \<Rightarrow> 'z world_scheme \<Rightarrow> (unit, 'z world_scheme) outcome" where
  "record_latencies u known [] w = (Inr (), w)"
| "record_latencies u known ((i, ms) # ls) w =
     (if i \<notin> set known then record_latencies u known ls w
      else andThen (NodeLatenciesRepository_upsert u i (clamp_latency ms) w)
             (\<lambda>_ w1. record_latencies u known ls w1))"

definition unassigned :: "user_row \<Rightarrow> bool" where
  "unassigned us \<longleftrightarrow> us_nodeId us = None \<or> us_nodeId us = Some []"

definition backfill :: "int \<Rightarrow> 'z world_scheme \<Rightarrow> string option \<times> 'z world_scheme" where
  "backfill u w =
     (case UsersRepository_findById u w of
        None \<Rightarrow> (None, w)
      | Some us \<Rightarrow>
          if unassigned us
          then (case allocate u w of
                  Some p \<Rightarrow> if p \<noteq> [] then (Some p, UsersRepository_updateNode u (Some p) w) else (us_nodeId us, w)
                | None \<Rightarrow> (us_nodeId us, w))
          else (us_nodeId us, w))"

definition recordVisit :: "int \<Rightarrow> (string \<times> rat) list \<Rightarrow> 'z world_scheme \<Rightarrow> (string option, 'z world_scheme) outcome" where
  "recordVisit u latencies w =
     andThen (record_latencies u (map nd_nodeId (listNodes w)) latencies w)
       (\<lambda>_ w1. let (r, w2) = backfill u w1 in (Inr r, w2))"


section \<open>Endpoints\<close>

text \<open>GET /api/nodes/assignment: anonymous callers get empty values.\<close>

definition nodes_assignment :: "auth_context option \<Rightarrow> 'z world_scheme \<Rightarrow> assignment_view option" where
  "nodes_assignment auth w = map_option (\<lambda>a. assignmentView (ax_userId a) w) auth"

record node_choice =
  nc_nodeId :: string
  nc_rtmpUrl :: "string option"
  nc_assigned :: int
  nc_maxUsers :: int
  nc_publicOrigin :: string
  nc_publicRtmpPort :: int
  nc_publicProbeUdpPort :: int
  nc_publicSrsUdpPort :: int
  nc_isMine :: bool

definition nodes_index :: "auth_context option \<Rightarrow> 'z world_scheme \<Rightarrow> error + node_choice list" where
  "nodes_index auth w =
     (case requireUser auth of
        Inl e \<Rightarrow> Inl e
      | Inr a \<Rightarrow> Inr (map (\<lambda>n.
          \<lparr>nc_nodeId = nd_nodeId n, nc_rtmpUrl = node_rtmpUrl n,
           nc_assigned = NodeSettingsRepository_assignedCount (nd_nodeId n) w,
           nc_maxUsers = NodeSettingsRepository_getMaxUsers (nd_nodeId n) w,
           nc_publicOrigin = nd_publicOrigin n, nc_publicRtmpPort = nd_publicRtmpPort n,
           nc_publicProbeUdpPort = nd_publicProbeUdpPort n, nc_publicSrsUdpPort = nd_publicSrsUdpPort n,
           nc_isMine = (Option.bind (UsersRepository_findById (ax_userId a) w) us_nodeId = Some (nd_nodeId n))\<rparr>)
          (listNodes w)))"

text \<open>POST /api/nodes/measure; an entry whose nodeId is not a string was dropped when the body was
  decoded.\<close>

definition nodes_measure :: "auth_context option \<Rightarrow> (string \<times> rat) list \<Rightarrow> 'z world_scheme \<Rightarrow> (string option, 'z world_scheme) outcome" where
  "nodes_measure auth latencies w =
     (case requireUser auth of
        Inl e \<Rightarrow> (Inl e, w)
      | Inr a \<Rightarrow> recordVisit (ax_userId a) (filter (\<lambda>l. fst l \<noteq> []) latencies) w)"

definition nodes_select :: "auth_context option \<Rightarrow> string \<Rightarrow> 'z world_scheme \<Rightarrow> (string, 'z world_scheme) outcome" where
  "nodes_select auth nodeId0 w =
     (case requireUser auth of
        Inl e \<Rightarrow> (Inl e, w)
      | Inr a \<Rightarrow>
          let nodeId = js_trim nodeId0 in
          if nodeId = [] then (Inl (HttpError 400 ''nodeId is required''), w)
          else if getNode nodeId w = None then (Inl (HttpError 400 ''node is not currently online''), w)
          else case UsersRepository_findById (ax_userId a) w of
            None \<Rightarrow> (Inl user_error, w)
          | Some us \<Rightarrow>
              (Inr nodeId, audit LInfo CPublish (''self-selected node for '' @ us_email us @ '': '' @ nodeId)
                 (no_opts\<lparr>ai_actor := Some (us_email us), ai_streamName := Some (us_email us),
                    ai_detail := Some (JObj [(''userId'', json_int (ax_userId a)), (''nodeId'', JStr nodeId),
                      (''self'', JBool True)])\<rparr>)
                 (UsersRepository_updateNode (ax_userId a) (Some nodeId) w)))"

definition media_nodes_index :: "auth_context option \<Rightarrow> 'z world_scheme \<Rightarrow> error + media_node_snapshot list" where
  "media_nodes_index auth w = (case requireAdmin auth of Inl e \<Rightarrow> Inl e | Inr _ \<Rightarrow> Inr (nodesSnapshot w))"

text \<open>PATCH /api/media-nodes/:nodeId; maxUsers is what Number() made of the body, None for NaN.\<close>

definition media_node_patch :: "auth_context option \<Rightarrow> string \<Rightarrow> rat option \<Rightarrow> 'z world_scheme \<Rightarrow> (node_setting_row, 'z world_scheme) outcome" where
  "media_node_patch auth nodeId0 maxUsers w =
     (case requireAdmin auth of
        Inl e \<Rightarrow> (Inl e, w)
      | Inr _ \<Rightarrow>
          let nodeId = js_trim nodeId0 in
          if nodeId = [] \<or> CHR ''/'' \<in> set nodeId then (Inl (HttpError 400 ''nodeId is required''), w)
          else case maxUsers of
            None \<Rightarrow> (Inl (HttpError 400 ''maxUsers must be an integer in 1..100000''), w)
          | Some m \<Rightarrow>
              if of_int \<lfloor>m\<rfloor> \<noteq> m \<or> m < 1 \<or> m > 100000
              then (Inl (HttpError 400 ''maxUsers must be an integer in 1..100000''), w)
              else let (r, w1) = NodeSettingsRepository_upsert nodeId \<lfloor>m\<rfloor> w in (Inr r, emitNodesChanged w1))"


section \<open>The registry tracks the connections\<close>

text \<open>Histories of the registry, each with the registrations it has seen: the node id and the connection,
  in order.  A connection that is known under a node id keeps it: a further hello on it is ignored
  (onWsMessage); only one that is known under the empty id may still be named.\<close>

inductive reg_run :: "(string \<times> string) list \<Rightarrow> world \<Rightarrow> bool" where
  reg_boot: "reg_run [] world_start"
| reg_register: "reg_run l w \<Longrightarrow> map_get peer (socketToNode w) \<in> {None, Some [], Some (info_nodeId info)}
     \<Longrightarrow> reg_run (l @ [(info_nodeId info, peer)]) (snd (register peer info w))"
| reg_disconnect: "reg_run l w \<Longrightarrow> reg_run l (snd (disconnect peer w))"
| reg_adjust: "reg_run l w \<Longrightarrow> reg_run l (adjustStreamCount i delta w)"
| reg_other: "reg_run l w \<Longrightarrow> nodes w' = nodes w \<Longrightarrow> socketToNode w' = socketToNode w \<Longrightarrow> reg_run l w'"

definition registered :: "string \<Rightarrow> (string \<times> string) list \<Rightarrow> string list" where
  "registered i l = map snd (filter (\<lambda>e. fst e = i) l)"

lemma registered_simps [simp]:
  "registered i [] = []" "registered i (l @ [e]) = registered i l @ (if fst e = i then [snd e] else [])"
  by (simp_all add: registered_def)

text \<open>Every node is the latest registration under its id; with a name, its connection leads back to it, and
  while it does, the node is there.\<close>

definition reg_ok :: "(string \<times> string) list \<Rightarrow> 'z world_scheme \<Rightarrow> bool" where
  "reg_ok l w \<longleftrightarrow> map_ok (nodes w) \<and> map_ok (socketToNode w)
     \<and> (\<forall>i n. map_get i (nodes w) = Some n \<longrightarrow> nd_nodeId n = i \<and> 0 \<le> nd_activeStreams n
          \<and> registered i l \<noteq> [] \<and> nd_socketId n = last (registered i l)
          \<and> (i \<noteq> [] \<longrightarrow> map_get (nd_socketId n) (socketToNode w) = Some i))
     \<and> (\<forall>i. i \<noteq> [] \<longrightarrow> registered i l \<noteq> [] \<longrightarrow> map_get (last (registered i l)) (socketToNode w) = Some i
          \<longrightarrow> map_get i (nodes w) \<noteq> None)"

lemma reg_okI:
  assumes "map_ok (nodes w)" "map_ok (socketToNode w)"
    "\<And>i n. map_get i (nodes w) = Some n \<Longrightarrow> nd_nodeId n = i \<and> 0 \<le> nd_activeStreams n
       \<and> registered i l \<noteq> [] \<and> nd_socketId n = last (registered i l)"
    "\<And>i n. map_get i (nodes w) = Some n \<Longrightarrow> i \<noteq> [] \<Longrightarrow> map_get (nd_socketId n) (socketToNode w) = Some i"
    "\<And>i. i \<noteq> [] \<Longrightarrow> registered i l \<noteq> [] \<Longrightarrow> map_get (last (registered i l)) (socketToNode w) = Some i
       \<Longrightarrow> map_get i (nodes w) \<noteq> None"
  shows "reg_ok l w"
  using assms unfolding reg_ok_def by blast

lemma reg_okD:
  assumes "reg_ok l w"
  shows "map_ok (nodes w)" "map_ok (socketToNode w)"
    "map_get i (nodes w) = Some n \<Longrightarrow> nd_nodeId n = i \<and> 0 \<le> nd_activeStreams n
       \<and> registered i l \<noteq> [] \<and> nd_socketId n = last (registered i l)"
    "map_get i (nodes w) = Some n \<Longrightarrow> i \<noteq> [] \<Longrightarrow> map_get (nd_socketId n) (socketToNode w) = Some i"
    "i \<noteq> [] \<Longrightarrow> registered i l \<noteq> [] \<Longrightarrow> map_get (last (registered i l)) (socketToNode w) = Some i
       \<Longrightarrow> map_get i (nodes w) \<noteq> None"
  using assms unfolding reg_ok_def by blast+

lemma register_gets:
  "map_get j (nodes (snd (register p info w))) =
     (if j = info_nodeId info then Some (registry_entry p info (clock w) (map_get j (nodes w))) else map_get j (nodes w))"
  "map_get q (socketToNode (snd (register p info w))) = (if q = p then Some (info_nodeId info) else map_get q (socketToNode w))"
  by (simp_all add: register_def Let_def map_get_put)

lemma reg_ok_register:
  assumes "reg_ok l w" "map_get p (socketToNode w) \<in> {None, Some [], Some (info_nodeId info)}"
  shows "reg_ok (l @ [(info_nodeId info, p)]) (snd (register p info w))"
proof (rule reg_okI)
  note D = reg_okD [OF assms(1)]
  let ?i = "info_nodeId info" and ?w = "snd (register p info w)"
  show "map_ok (nodes ?w)" "map_ok (socketToNode ?w)" using D(1,2) by (simp_all add: register_def Let_def map_ok_put)
  show "nd_nodeId n = j \<and> 0 \<le> nd_activeStreams n \<and> registered j (l @ [(?i, p)]) \<noteq> []
      \<and> nd_socketId n = last (registered j (l @ [(?i, p)]))" if "map_get j (nodes ?w) = Some n" for j n
    using that D(3) [of j] by (auto simp: register_gets registry_entry_def split: if_splits option.split)
  show "map_get (nd_socketId n) (socketToNode ?w) = Some j" if n: "map_get j (nodes ?w) = Some n" and j: "j \<noteq> []" for j n
  proof (cases "j = ?i")
    case True
    then show ?thesis using n by (auto simp: register_gets registry_entry_def)
  next
    case False
    then have "map_get (nd_socketId n) (socketToNode w) = Some j" using n D(4) j by (simp add: register_gets)
    then show ?thesis using assms(2) j False by (auto simp: register_gets)
  qed
  show "map_get j (nodes ?w) \<noteq> None"
    if "j \<noteq> []" "registered j (l @ [(?i, p)]) \<noteq> []"
      "map_get (last (registered j (l @ [(?i, p)]))) (socketToNode ?w) = Some j" for j
    using that D(5) [of j] by (auto simp: register_gets split: if_splits)
qed

lemma disconnect_gets:
  assumes "reg_ok l w"
  shows "map_get i (nodes (snd (disconnect s w))) =
     (case map_get i (nodes w) of None \<Rightarrow> None | Some n \<Rightarrow> if i \<noteq> [] \<and> nd_socketId n = s then None else Some n)"
    "map_get q (socketToNode (snd (disconnect s w))) =
     (if q = s \<and> map_get s (socketToNode w) \<noteq> Some [] then None else map_get q (socketToNode w))"
proof -
  note D = reg_okD [OF assms]
  show "map_get q (socketToNode (snd (disconnect s w))) =
     (if q = s \<and> map_get s (socketToNode w) \<noteq> Some [] then None else map_get q (socketToNode w))"
    by (auto simp: disconnect_def Let_def map_get_del split: option.split)
  show "map_get i (nodes (snd (disconnect s w))) =
     (case map_get i (nodes w) of None \<Rightarrow> None | Some n \<Rightarrow> if i \<noteq> [] \<and> nd_socketId n = s then None else Some n)"
  proof (cases "\<exists>n. map_get i (nodes w) = Some n \<and> i \<noteq> [] \<and> nd_socketId n = s")
    case True
    then obtain n where n: "map_get i (nodes w) = Some n" "i \<noteq> []" "nd_socketId n = s" by blast
    then have "map_get s (socketToNode w) = Some i" using D(4) by blast
    then show ?thesis using n by (simp add: disconnect_def Let_def map_get_del)
  next
    case False
    then show ?thesis by (auto simp: disconnect_def Let_def map_get_del split: option.split)
  qed
qed

lemma reg_ok_disconnect:
  assumes "reg_ok l w"
  shows "reg_ok l (snd (disconnect s w))"
proof (rule reg_okI)
  note D = reg_okD [OF assms] and G = disconnect_gets [OF assms]
  show "map_ok (nodes (snd (disconnect s w)))" "map_ok (socketToNode (snd (disconnect s w)))"
    using D(1,2) by (auto simp: disconnect_def Let_def map_ok_del split: option.split)
  show "nd_nodeId n = i \<and> 0 \<le> nd_activeStreams n \<and> registered i l \<noteq> [] \<and> nd_socketId n = last (registered i l)"
    if "map_get i (nodes (snd (disconnect s w))) = Some n" for i n
    using that D(3) [of i] by (auto simp: G split: option.splits if_splits)
  show "map_get (nd_socketId n) (socketToNode (snd (disconnect s w))) = Some i"
    if "map_get i (nodes (snd (disconnect s w))) = Some n" "i \<noteq> []" for i n
    using that D(4) [of i] by (auto simp: G split: option.splits if_splits)
  show "map_get i (nodes (snd (disconnect s w))) \<noteq> None"
    if "i \<noteq> []" "registered i l \<noteq> []" "map_get (last (registered i l)) (socketToNode (snd (disconnect s w))) = Some i" for i
    using that D(5) [of i] D(3) [of i] by (auto simp: G split: option.splits if_splits)
qed

lemma adjust_gets:
  "map_get j (nodes (adjustStreamCount i d w)) = (case map_get j (nodes w) of None \<Rightarrow> None
     | Some n \<Rightarrow> Some (if j = i then n\<lparr>nd_activeStreams := max 0 (nd_activeStreams n + d)\<rparr> else n))"
  "socketToNode (adjustStreamCount i d w) = socketToNode w"
  by (auto simp: adjustStreamCount_def map_get_put split: option.split)

lemma reg_ok_adjust:
  assumes "reg_ok l w"
  shows "reg_ok l (adjustStreamCount i d w)"
proof (rule reg_okI)
  note D = reg_okD [OF assms]
  show "map_ok (nodes (adjustStreamCount i d w))" "map_ok (socketToNode (adjustStreamCount i d w))"
    using D(1,2) by (auto simp: adjustStreamCount_def map_ok_put split: option.split)
  show "map_get j (nodes (adjustStreamCount i d w)) \<noteq> None"
    if "j \<noteq> []" "registered j l \<noteq> []" "map_get (last (registered j l)) (socketToNode (adjustStreamCount i d w)) = Some j" for j
    using that D(5) [of j] by (auto simp: adjust_gets split: option.split)
qed (use reg_okD(3,4) [OF assms] in \<open>auto simp: adjust_gets split: option.splits if_splits\<close>)

lemma reg_run_ok: "reg_run l w \<Longrightarrow> reg_ok l w"
proof (induction rule: reg_run.induct)
  case (reg_other l w w')
  have "reg_ok l w' = reg_ok l w" unfolding reg_ok_def reg_other.hyps(2,3) ..
  with reg_other.IH show ?case by simp
qed (simp_all add: reg_ok_register reg_ok_disconnect reg_ok_adjust reg_ok_def [of "[]" world_start] map_ok_def)

text \<open>C16 The node registry tracks the connections: however nodes connect, reconnect on another
  socket, disconnect in any order and publish or stop, where a connection keeps the name it said hello with,
  every registered node sits under its own id,
  never has a negative stream count, and is reached over the connection that registered last under that
  id; a node with a name is registered exactly while that connection, the latest of its id, is known to lead to
  it; and closing a socket unregisters exactly the named nodes whose latest connection it was, so that
  the late close of a replaced connection leaves the node registered, and a node without a name is
  never unregistered.\<close>

theorem registry_tracks:
  assumes "reg_run l w"
  shows "(case getNode i w of None \<Rightarrow> True
      | Some n \<Rightarrow> nd_nodeId n = i \<and> 0 \<le> nd_activeStreams n \<and> registered i l \<noteq> [] \<and> nd_socketId n = last (registered i l))
    \<and> (i \<noteq> [] \<longrightarrow> (getNode i w \<noteq> None \<longleftrightarrow>
         registered i l \<noteq> [] \<and> map_get (last (registered i l)) (socketToNode w) = Some i))
    \<and> getNode i (snd (disconnect s w)) =
        (case getNode i w of None \<Rightarrow> None | Some m \<Rightarrow> if i \<noteq> [] \<and> nd_socketId m = s then None else Some m)"
proof -
  note ok = reg_run_ok [OF assms]
  note D = reg_okD [OF ok] and G = disconnect_gets [OF ok]
  show ?thesis using D(3) [of i] D(4) [of i] D(5) [of i] unfolding getNode_def G(1) by (auto split: option.split)
qed


section \<open>The allocator\<close>

lemma hd_sort_key:
  assumes "xs \<noteq> []"
  shows "hd (sort_key f xs) \<in> set xs \<and> (\<forall>y\<in>set xs. f (hd (sort_key f xs)) \<le> f y)"
proof -
  obtain z zs where z: "sort_key f xs = z # zs"
    using assms by (cases "sort_key f xs") (auto dest: arg_cong[where f=length])
  have "sorted (map f (z # zs))" by (metis sorted_sort_key z)
  moreover have "set (z # zs) = set xs" by (metis set_sort z)
  ultimately show ?thesis using z by auto
qed

definition node_free :: "'z db_scheme \<Rightarrow> media_node \<Rightarrow> bool" where
  "node_free d n \<longleftrightarrow> NodeSettingsRepository_assignedCount (nd_nodeId n) d < NodeSettingsRepository_getMaxUsers (nd_nodeId n) d"

lemma set_listNodes: "set (listNodes w) = snd ` set (nodes w)"
  by (simp add: listNodes_def)

lemma candidate_fields [simp]:
  "cd_nodeId (candidate_of u d n) = nd_nodeId n" "cd_underQuota (candidate_of u d n) = node_free d n"
  by (simp_all add: candidate_of_def Let_def node_free_def)

lemma allocate_pick:
  assumes "allocate u w = Some i"
  shows "\<exists>n\<in>snd ` set (nodes w). nd_nodeId n = i \<and>
     (if \<exists>m\<in>snd ` set (nodes w). node_free w m
      then node_free w n \<and> (\<forall>m\<in>snd ` set (nodes w). node_free w m
             \<longrightarrow> free_key (candidate_of u w n) \<le> free_key (candidate_of u w m))
      else \<forall>m\<in>snd ` set (nodes w). overflow_key (candidate_of u w n) \<le> overflow_key (candidate_of u w m))"
proof -
  define cs where "cs = map (candidate_of u w) (listNodes w)"
  have cs: "set cs = candidate_of u w ` snd ` set (nodes w)" by (simp add: cs_def set_listNodes)
  show ?thesis
  proof (cases "filter cd_underQuota cs = []")
    case True
    then have none: "\<not> (\<exists>m\<in>snd ` set (nodes w). node_free w m)"
      using cs by (auto simp: filter_empty_conv)
    from True assms have "cs \<noteq> []" "cd_nodeId (hd (sort_key overflow_key cs)) = i"
      by (auto simp: allocate_def Let_def cs_def[symmetric] split: if_splits)
    moreover from this(1) have h: "hd (sort_key overflow_key cs) \<in> set cs"
      "\<forall>c\<in>set cs. overflow_key (hd (sort_key overflow_key cs)) \<le> overflow_key c"
      using hd_sort_key[of cs overflow_key] by blast+
    moreover from h(1) cs obtain n where n: "n \<in> snd ` set (nodes w)"
      "hd (sort_key overflow_key cs) = candidate_of u w n" by blast
    ultimately show ?thesis using none cs by (intro bexI[OF _ n(1)]) auto
  next
    case False
    then have "sort_key free_key (filter cd_underQuota cs) \<noteq> []"
      by (metis length_0_conv length_sort)
    with assms False have "cd_nodeId (hd (sort_key free_key (filter cd_underQuota cs))) = i"
      by (auto simp: allocate_def Let_def cs_def[symmetric] split: if_splits)
    moreover from hd_sort_key[OF False, of free_key]
    have h: "hd (sort_key free_key (filter cd_underQuota cs)) \<in> set cs"
      "cd_underQuota (hd (sort_key free_key (filter cd_underQuota cs)))"
      "\<forall>c\<in>set cs. cd_underQuota c \<longrightarrow> free_key (hd (sort_key free_key (filter cd_underQuota cs))) \<le> free_key c"
      by auto
    moreover from h(1) cs obtain n where n: "n \<in> snd ` set (nodes w)"
      "hd (sort_key free_key (filter cd_underQuota cs)) = candidate_of u w n" by blast
    ultimately show ?thesis using cs by (intro bexI[OF _ n(1)]) auto
  qed
qed

lemma allocate_None: "allocate u w = None \<longleftrightarrow> nodes w = []"
  by (auto simp: allocate_def Let_def listNodes_def dest: arg_cong[where f=length])

lemma count_assign:
  assumes "tbl_ok us_id (t_users d)"
  shows "NodeSettingsRepository_assignedCount i (UsersRepository_updateNode u (Some i) d)
    \<le> NodeSettingsRepository_assignedCount i d + 1"
proof -
  have "length (filter (\<lambda>r. us_nodeId r = Some i) (map (\<lambda>r. if us_id r = u then r\<lparr>us_nodeId := Some i\<rparr> else r) rs))
      \<le> length (filter (\<lambda>r. us_nodeId r = Some i) rs) + 1" if "distinct (map us_id rs)" for rs
    using that
  proof (induction rs)
    case (Cons r rs)
    show ?case
    proof (cases "us_id r = u")
      case True
      then have "map (\<lambda>r. if us_id r = u then r\<lparr>us_nodeId := Some i\<rparr> else r) rs = rs"
        using Cons.prems by (intro map_idI) (auto intro: rev_image_eqI)
      with True show ?thesis by simp
    qed (use Cons in auto)
  qed simp
  moreover have "distinct (map us_id (rows (t_users d)))"
    using assms by (auto simp: tbl_ok_def strict_sorted_iff)
  ultimately show ?thesis
    by (force simp: NodeSettingsRepository_assignedCount_def UsersRepository_updateNode_def users_set_def
        tbl_select_def tbl_update_def)
qed

text \<open>The allocator picks well: it gives up exactly when no node is connected; else it picks a
  connected node, and while any connected node has room under its cap the pick has room, no
  node with room is closer by the measured latency (a measured node beats an unmeasured one,
  the lower load ratio breaks ties), and pinning the user there keeps the node within
  its cap; when every node is full, no node has a lower load ratio.\<close>

theorem allocate_best:
  assumes "integrity w"
  shows "(allocate u w = None \<longleftrightarrow> nodes w = []) \<and>
    (\<forall>i. allocate u w = Some i \<longrightarrow> (\<exists>n\<in>snd ` set (nodes w). nd_nodeId n = i \<and>
      (if \<exists>m\<in>snd ` set (nodes w). node_free w m
       then node_free w n
         \<and> (\<forall>m\<in>snd ` set (nodes w). node_free w m \<longrightarrow> free_key (candidate_of u w n) \<le> free_key (candidate_of u w m))
         \<and> NodeSettingsRepository_assignedCount i (UsersRepository_updateNode v (Some i) w)
             \<le> NodeSettingsRepository_getMaxUsers i w
       else \<forall>m\<in>snd ` set (nodes w). cd_ratio (candidate_of u w n) \<le> cd_ratio (candidate_of u w m))))"
proof (intro conjI allI impI allocate_None)
  fix i assume "allocate u w = Some i"
  from allocate_pick[OF this] obtain n where n: "n \<in> snd ` set (nodes w)" "nd_nodeId n = i"
    "if \<exists>m\<in>snd ` set (nodes w). node_free w m
      then node_free w n \<and> (\<forall>m\<in>snd ` set (nodes w). node_free w m
             \<longrightarrow> free_key (candidate_of u w n) \<le> free_key (candidate_of u w m))
      else \<forall>m\<in>snd ` set (nodes w). overflow_key (candidate_of u w n) \<le> overflow_key (candidate_of u w m)"
    by blast
  have ok: "tbl_ok us_id (t_users w)" using assms by (simp add: integrity_def ids_ok_def)
  have "NodeSettingsRepository_assignedCount i (UsersRepository_updateNode v (Some i) w)
      \<le> NodeSettingsRepository_getMaxUsers i w" if "node_free w n"
    using count_assign[OF ok, of i v] that n(2) by (simp add: node_free_def)
  moreover have "cd_ratio (candidate_of u w n) \<le> cd_ratio (candidate_of u w m)"
    if "overflow_key (candidate_of u w n) \<le> overflow_key (candidate_of u w m)" for m
    using that by (auto simp: overflow_key_def less_eq_prod_def)
  ultimately show "\<exists>n\<in>snd ` set (nodes w). nd_nodeId n = i \<and>
      (if \<exists>m\<in>snd ` set (nodes w). node_free w m
       then node_free w n
         \<and> (\<forall>m\<in>snd ` set (nodes w). node_free w m \<longrightarrow> free_key (candidate_of u w n) \<le> free_key (candidate_of u w m))
         \<and> NodeSettingsRepository_assignedCount i (UsersRepository_updateNode v (Some i) w)
             \<le> NodeSettingsRepository_getMaxUsers i w
       else \<forall>m\<in>snd ` set (nodes w). cd_ratio (candidate_of u w n) \<le> cd_ratio (candidate_of u w m))"
    using n by (intro bexI[of _ n]) auto
qed


section \<open>Visits\<close>

definition sample_of :: "int \<Rightarrow> string set \<Rightarrow> node_latency_row \<Rightarrow> bool" where
  "sample_of u known l \<longleftrightarrow> nl_userId l = u \<and> nl_nodeId l \<in> known \<and> 0 \<le> nl_latencyMs l \<and> nl_latencyMs l \<le> 60000"

lemma clamp_bounds: "0 \<le> clamp_latency ms" "clamp_latency ms \<le> 60000"
  by (simp_all add: clamp_latency_def)

lemma upsert_latency:
  assumes "NodeLatenciesRepository_upsert u i ms w = (Inr (), w')"
  shows "l \<in> set (rows (t_nodeLatencies w')) \<Longrightarrow> l \<in> set (rows (t_nodeLatencies w))
      \<or> nl_userId l = u \<and> nl_nodeId l = i \<and> nl_latencyMs l = ms"
    and "t_users w' = t_users w" "nodes w' = nodes w"
  using assms by (auto simp: NodeLatenciesRepository_upsert_def tbl_insert_def tbl_update_def put_latency_def
      split: if_splits)

lemma record_latencies_Inr:
  assumes "record_latencies u known ls w = (Inr (), w')"
  shows "(\<forall>l\<in>set (rows (t_nodeLatencies w')). l \<in> set (rows (t_nodeLatencies w)) \<or> sample_of u (set known) l)
    \<and> t_users w' = t_users w \<and> nodes w' = nodes w"
  using assms
proof (induction u known ls w rule: record_latencies.induct)
  case (2 u known i ms ls w)
  show ?case
  proof (cases "i \<in> set known")
    case True
    with 2(3) obtain w1 where w1: "NodeLatenciesRepository_upsert u i (clamp_latency ms) w = (Inr (), w1)"
      "record_latencies u known ls w1 = (Inr (), w')"
      by (auto simp: andThen_eq_Inr)
    from 2(2)[OF _ w1(2)] True upsert_latency[OF w1(1)] clamp_bounds show ?thesis
      by (fastforce simp: sample_of_def)
  qed (use 2 in simp)
qed simp

lemma backfill_users:
  assumes "tbl_ok us_id (t_users w)" "backfill u w = (r, w')"
  shows "rows (t_users w') = map (\<lambda>us. if us_id us = u \<and> unassigned us then us\<lparr>us_nodeId := r\<rparr> else us) (rows (t_users w))
    \<and> t_nodeLatencies w' = t_nodeLatencies w
    \<and> (\<forall>us. UsersRepository_findById u w = Some us \<longrightarrow>
         r = (if unassigned us \<and> nodes w \<noteq> [] \<and> allocate u w \<noteq> Some [] then allocate u w else us_nodeId us))"
proof (cases "UsersRepository_findById u w")
  case None
  then have "us_id us \<noteq> u" if "us \<in> set (rows (t_users w))" for us
    using that by (auto simp: UsersRepository_findById_def tbl_find_None)
  then have "map (\<lambda>us. if us_id us = u \<and> unassigned us then us\<lparr>us_nodeId := r\<rparr> else us) (rows (t_users w)) = rows (t_users w)"
    by (intro map_idI) simp
  with None assms(2) show ?thesis by (simp add: backfill_def)
next
  case (Some x)
  have only: "us = x" if "us \<in> set (rows (t_users w))" "us_id us = u" for us
    using users.key_inj[OF assms(1) that(1)] that(2) tbl_find_Some[OF Some[unfolded UsersRepository_findById_def]] by auto
  have same: "map (\<lambda>us. if us_id us = u \<and> unassigned us then us\<lparr>us_nodeId := us_nodeId x\<rparr> else us) (rows (t_users w)) = rows (t_users w)"
    using only by (intro map_idI) auto
  have pick: "rows (t_users (UsersRepository_updateNode u n w))
      = map (\<lambda>us. if us_id us = u \<and> unassigned us then us\<lparr>us_nodeId := n\<rparr> else us) (rows (t_users w))" if "unassigned x" for n
    using that by (auto simp: UsersRepository_updateNode_def users_set_def tbl_update_def dest: only)
  show ?thesis
    using Some assms(2) same pick allocate_None[of u w]
    by (auto simp: backfill_def UsersRepository_updateNode_def users_set_def split: option.splits if_splits)
qed

text \<open>A visit leaves assignments alone: a successful recordVisit changes the node of nobody but the
  visiting user, and of that user only when no node was ever assigned; the node then is the
  allocator's pick on the fresh samples (or stays unset when no node is connected), the
  answer is the user's node, and every latency sample it adds or changes belongs to
  the user and to a connected node and lies between 0 and 60000 milliseconds.\<close>

theorem recordVisit_stable:
  fixes w :: "'a world_scheme"
  assumes "integrity w" "recordVisit u ls w = (Inr r, w')"
  shows "rows (t_users w') = map (\<lambda>us. if us_id us = u \<and> unassigned us then us\<lparr>us_nodeId := r\<rparr> else us) (rows (t_users w))
    \<and> list_all (\<lambda>l. l \<in> set (rows (t_nodeLatencies w)) \<or> sample_of u (nd_nodeId ` snd ` set (nodes w)) l)
        (rows (t_nodeLatencies w'))
    \<and> (\<exists>w1 :: 'a world_scheme. nodes w1 = nodes w \<and> t_users w1 = t_users w \<and> t_nodeLatencies w1 = t_nodeLatencies w' \<and>
        (\<forall>us. UsersRepository_findById u w = Some us \<longrightarrow>
           r = (if unassigned us \<and> nodes w \<noteq> [] \<and> allocate u w1 \<noteq> Some [] then allocate u w1 else us_nodeId us)))"
proof -
  obtain w1 where w1: "record_latencies u (map nd_nodeId (listNodes w)) ls w = (Inr (), w1)"
    "(let (r, w2) = backfill u w1 in (Inr r :: error + string option, w2)) = (Inr r, w')"
    using assms(2) by (auto simp: recordVisit_def andThen_eq_Inr)
  from w1(2) have b: "backfill u w1 = (r, w')" by (cases "backfill u w1") simp
  note l = record_latencies_Inr[OF w1(1)]
  have "tbl_ok us_id (t_users w1)" using assms(1) l by (simp add: integrity_def ids_ok_def)
  note bf = backfill_users[OF this b]
  have f: "UsersRepository_findById u w1 = UsersRepository_findById u w" using l by (simp add: UsersRepository_findById_def)
  have "rows (t_users w') = map (\<lambda>us. if us_id us = u \<and> unassigned us then us\<lparr>us_nodeId := r\<rparr> else us) (rows (t_users w))"
    using bf l by simp
  moreover have "list_all (\<lambda>l. l \<in> set (rows (t_nodeLatencies w)) \<or> sample_of u (nd_nodeId ` snd ` set (nodes w)) l)
        (rows (t_nodeLatencies w'))"
    using bf l by (simp add: list_all_iff set_listNodes)
  moreover have "\<forall>us. UsersRepository_findById u w = Some us \<longrightarrow>
      r = (if unassigned us \<and> nodes w \<noteq> [] \<and> allocate u w1 \<noteq> Some [] then allocate u w1 else us_nodeId us)"
    using bf l f by metis
  moreover have "nodes w1 = nodes w" "t_users w1 = t_users w" "t_nodeLatencies w1 = t_nodeLatencies w'"
    using bf l by simp_all
  ultimately show ?thesis by (intro conjI exI[of _ w1])
qed


section \<open>Concrete runs\<close>

definition node_info :: "string \<Rightarrow> register_info" where
  "node_info s = \<lparr>ri_identifier = s, ri_hostname = ''host'', ri_version = ''1'', ri_srsFlvBase = None, ri_publicOrigin = None,
     ri_publicRtmpPort = None, ri_publicProbeUdpPort = None, ri_publicSrsUdpPort = None\<rparr>"

lemma derive_run: "deriveNodeId ''https://A_b.c:80/x'' = ''a-b-c''"
  by code_simp

text \<open>Node a reconnects on s2 before its first socket s1 closes.\<close>

definition reconnected :: world where
  "reconnected = snd (register ''s2'' (node_info ''a'') (snd (register ''s1'' (node_info ''a'') world_start)))"

theorem registry_tracks_witness:
  "\<exists>n. getNode ''a'' (snd (disconnect ''s1'' reconnected)) = Some n \<and> nd_socketId n = ''s2''"
proof -
  have i: "info_nodeId (node_info ''a'') = ''a''" by code_simp
  have "reg_run (([] @ [(info_nodeId (node_info ''a''), ''s1'')]) @ [(info_nodeId (node_info ''a''), ''s2'')]) reconnected"
    unfolding reconnected_def by (intro reg_register reg_boot) (simp_all add: i register_def Let_def map_get_Cons)
  from registry_tracks [OF this, of "''a''" "''s1''"] have t: "case getNode ''a'' reconnected of None \<Rightarrow> True | Some n \<Rightarrow> nd_socketId n = ''s2''"
    "getNode ''a'' reconnected \<noteq> None \<longleftrightarrow> map_get ''s2'' (socketToNode reconnected) = Some ''a''"
    "getNode ''a'' (snd (disconnect ''s1'' reconnected)) =
       (case getNode ''a'' reconnected of None \<Rightarrow> None | Some m \<Rightarrow> if nd_socketId m = ''s1'' then None else Some m)"
    by (auto simp: i registered_def split: option.splits)
  have "map_get ''s2'' (socketToNode reconnected) = Some ''a''"
    by (simp add: reconnected_def register_def Let_def i map_get_Cons)
  with t show ?thesis by (auto split: option.splits)
qed

text \<open>Two nodes, the first with a cap of one and full; and a visitor without a node.\<close>

definition venue :: world where
  "venue = snd (register ''s2'' (node_info ''b'') (snd (register ''s1'' (node_info ''a'')
     (world_start\<lparr>t_users := \<lparr>rows = [(user_values ''ann@x.org'' [])\<lparr>us_id := 1, us_nodeId := Some ''a''\<rparr>,
         (user_values ''bob@x.org'' [])\<lparr>us_id := 2\<rparr>], seq = 3\<rparr>,
       t_nodeSettings := [\<lparr>ns_nodeId = ''a'', ns_maxUsers = 1\<rparr>]\<rparr>))))"

lemma venue_tables:
  "t_users venue = \<lparr>rows = [(user_values ''ann@x.org'' [])\<lparr>us_id := 1, us_nodeId := Some ''a''\<rparr>,
         (user_values ''bob@x.org'' [])\<lparr>us_id := 2\<rparr>], seq = 3\<rparr>"
  "t_nodeSettings venue = [\<lparr>ns_nodeId = ''a'', ns_maxUsers = 1\<rparr>]" "t_nodeLatencies venue = tbl_empty"
  "t_events venue = tbl_empty" "t_streamBans venue = tbl_empty" "t_aliases venue = []" "t_students venue = tbl_empty"
  "t_enrollments venue = tbl_empty" "t_streamKeys venue = tbl_empty" "t_sessions venue = tbl_empty"
  "t_recordings venue = tbl_empty" "t_audit venue = tbl_empty" "t_groups venue = tbl_empty" "t_userGroups venue = []"
  "t_eventGroups venue = []" "t_invites venue = tbl_empty" "t_appConfig venue = []"
  by (simp_all add: venue_def register_def Let_def)

lemma venue_integrity: "integrity venue"
  by (simp add: venue_tables schema_decls event_ban_keys_def tbl_ok_def tbl_empty_def has_def has_opt_def user_values_def)

theorem allocate_best_witness:
  "allocate 2 venue = Some ''b'' \<and> (\<exists>n\<in>snd ` set (nodes venue). nd_nodeId n = ''b'' \<and> node_free venue n)"
proof -
  have a: "allocate 2 venue = Some ''b''" by code_simp
  define b where "b = registry_entry ''s2'' (node_info ''b'') 0 None"
  have i: "info_nodeId (node_info ''a'') = ''a''" "info_nodeId (node_info ''b'') = ''b''" by code_simp+
  have "b \<in> snd ` set (nodes venue)" "nd_nodeId b = ''b''"
    by (simp_all add: venue_def register_def Let_def i b_def map_get_Cons registry_entry_def)
  moreover then have "node_free venue b"
    by (simp add: node_free_def NodeSettingsRepository_getMaxUsers_def NodeSettingsRepository_assignedCount_def
        DEFAULT_MAX_USERS_def venue_tables tbl_select_def user_values_def)
  ultimately show ?thesis using allocate_best[OF venue_integrity, of 2] a by auto
qed

theorem recordVisit_stable_witness:
  "\<exists>w'. recordVisit 2 [(''b'', 90000), (''z'', 1)] venue = (Inr (Some ''b''), w')
     \<and> map us_nodeId (rows (t_users w')) = [Some ''a'', Some ''b'']"
proof -
  let ?r = "recordVisit 2 [(''b'', 90000), (''z'', 1)] venue"
  have "fst ?r = Inr (Some ''b'')" by code_simp
  then have r: "?r = (Inr (Some ''b''), snd ?r)" by (metis prod.collapse)
  have "rows (t_users (snd ?r)) = map (\<lambda>us. if us_id us = 2 \<and> unassigned us then us\<lparr>us_nodeId := Some ''b''\<rparr> else us)
      (rows (t_users venue))"
    by (rule recordVisit_stable[OF venue_integrity r, THEN conjunct1])
  then have "map us_nodeId (rows (t_users (snd ?r))) = [Some ''a'', Some ''b'']"
    by (simp add: venue_tables user_values_def unassigned_def)
  from r this show ?thesis by (intro exI conjI)
qed

end
