(* ===== verification/NodeHandlers.thy ===== *)
theory NodeHandlers
  imports Nodes
begin

text \<open>
  services/media-node-handlers.ts: what a media node can ask and report, whatever wire it uses:
  registration, the publish grant, metrics, the declared spec, violations, the end of a
  publish, finished recordings, and the authmod questions.  The numbers of a payload have the
  types of control.proto (int32 and double); err stands for the message of an exception that
  the handler catches.
\<close>

section \<open>Snapshots\<close>

record metrics =
  mt_width :: "int option"
  mt_height :: "int option"
  mt_fps :: "rat option"
  mt_videoBitrateKbps :: "int option"
  mt_audioBitrateKbps :: "int option"

definition no_metrics :: metrics where
  "no_metrics = \<lparr>mt_width = None, mt_height = None, mt_fps = None, mt_videoBitrateKbps = None, mt_audioBitrateKbps = None\<rparr>"

definition snapshotFromRow :: "publish_session_row \<Rightarrow> session_status option \<Rightarrow> metrics \<Rightarrow> int option \<Rightarrow> session_snapshot" where
  "snapshotFromRow row status m endedAt =
     \<lparr>ss_sessionId = ps_id row, ss_eventId = ps_eventId row, ss_streamName = ps_streamName row,
      ss_status = orDefault status (ps_status row), ss_srsClientId = ps_srsClientId row, ss_nodeId = ps_nodeId row,
      ss_width = orElse (mt_width m) (ps_width row), ss_height = orElse (mt_height m) (ps_height row),
      ss_fps = orElse (mt_fps m) (ps_fps row),
      ss_videoBitrateKbps = orElse (mt_videoBitrateKbps m) (ps_videoBitrateKbps row),
      ss_audioBitrateKbps = orElse (mt_audioBitrateKbps m) (ps_audioBitrateKbps row),
      ss_compliant = ps_compliant row, ss_rejectReason = ps_rejectReason row,
      ss_startedAt = ps_startedAt row, ss_endedAt = endedAt\<rparr>"

text \<open>The metrics of a payload, filled up from the row.\<close>

definition metrics_over :: "publish_session_row \<Rightarrow> metrics \<Rightarrow> metrics" where
  "metrics_over row p = \<lparr>mt_width = orElse (mt_width p) (ps_width row), mt_height = orElse (mt_height p) (ps_height row),
     mt_fps = orElse (mt_fps p) (ps_fps row),
     mt_videoBitrateKbps = orElse (mt_videoBitrateKbps p) (ps_videoBitrateKbps row),
     mt_audioBitrateKbps = orElse (mt_audioBitrateKbps p) (ps_audioBitrateKbps row)\<rparr>"

definition update_metrics :: "int \<Rightarrow> metrics \<Rightarrow> 'z db_scheme \<Rightarrow> 'z db_scheme" where
  "update_metrics i m d = PublishSessionsRepository_updateMetrics i (mt_width m) (mt_height m) (mt_fps m)
     (mt_videoBitrateKbps m) (mt_audioBitrateKbps m) d"


section \<open>Registration\<close>

definition handleRegister :: "string \<Rightarrow> register_info \<Rightarrow> 'z world_scheme \<Rightarrow> (string \<times> limits) \<times> 'z world_scheme" where
  "handleRegister peer info w =
     (let (nodeId, w1) = register peer info w; (c, w2) = getConfig w1
      in ((nodeId, c_limits c), emitNodesChanged w2))"


section \<open>The publish grant\<close>

record publish_start =
  pp_nodeId :: string
  pp_streamName :: string
  pp_token :: string
  pp_authedUser :: string
  pp_srsClientId :: string

record publish_grant =
  pg_sessionId :: int
  pg_eventId :: "int option"
  pg_eventKey :: string
  pg_limits :: limits
  pg_record :: bool
  pg_strict :: bool
  pg_measured :: bool

datatype publish_ack = Granted publish_grant | Denied string

text \<open>The node lock: the user's node when the publish comes from another one.\<close>

definition locked_elsewhere :: "publish_start \<Rightarrow> 'z db_scheme \<Rightarrow> string option" where
  "locked_elsewhere p d =
     (case Option.bind (UsersRepository_findByEmail (pp_streamName p) d) us_nodeId of
        None \<Rightarrow> None
      | Some n \<Rightarrow> if n \<noteq> [] \<and> pp_nodeId p \<noteq> [] \<and> n \<noteq> pp_nodeId p then Some n else None)"

definition where_hint :: "string \<Rightarrow> 'z world_scheme \<Rightarrow> string" where
  "where_hint n w =
     (let auth = (case getNode n w of None \<Rightarrow> [] | Some m \<Rightarrow> rtmpAuthority m) in
      if auth \<noteq> []
      then '' '' @ [CHR 0xE2, CHR 0x80, CHR 0x94] @ '' use '' @ obsServerUrl auth @ '' (or change your selection on the Nodes page)''
      else '' '' @ [CHR 0xE2, CHR 0x80, CHR 0x94] @ '' check the Nodes page on the website for your node address'')"

definition granted_session :: "publish_start \<Rightarrow> int \<Rightarrow> int \<Rightarrow> int \<Rightarrow> publish_session_row" where
  "granted_session p ev key now = (session_values (pp_streamName p))\<lparr>ps_eventId := Some ev,
     ps_streamKeyId := (if 0 < key then Some key else None), ps_nodeId := Some (pp_nodeId p),
     ps_srsClientId := (if pp_srsClientId p = [] then None else Some (pp_srsClientId p)),
     ps_status := SAllowed, ps_startedAt := now\<rparr>"

text \<open>What follows the INSERT of the session.\<close>

definition publish_started :: "publish_start \<Rightarrow> int \<Rightarrow> publish_session_row \<Rightarrow> 'z world_scheme \<Rightarrow> 'z world_scheme" where
  "publish_started p ev row w =
     (let w1 = emitNodesChanged (adjustStreamCount (pp_nodeId p) 1 w);
          w2 = emit (SessionStart (snapshotFromRow row None no_metrics None)) w1
      in audit LInfo CPublish (''media-node publish started: '' @ pp_streamName p)
           \<lparr>ai_actor = Some (pp_streamName p), ai_eventId = Some ev, ai_streamName = Some (pp_streamName p),
            ai_detail = Some (JObj [(''nodeId'', JStr (pp_nodeId p)), (''sessionId'', json_int (ps_id row))])\<rparr> w2)"

definition grant_publish :: "publish_start \<Rightarrow> int \<Rightarrow> int \<Rightarrow> 'z world_scheme \<Rightarrow> publish_ack \<times> 'z world_scheme" where
  "grant_publish p ev key w =
     (let event = (if ev = 0 then None else EventsRepository_findById ev w);
          (l, w1) = getLimitsFor event w;
          (c, w2) = getConfig w1;
          rec = (rec_enabled (c_record c) \<and> (case event of None \<Rightarrow> True | Some e \<Rightarrow> ev_recordEnabled e))
      in case PublishSessionsRepository_insert (granted_session p ev key (clock w2)) w2 of
           (Inl e, w3) \<Rightarrow> (Denied ''internal error'', w3)
         | (Inr row, w3) \<Rightarrow>
             (Granted \<lparr>pg_sessionId = ps_id row, pg_eventId = Some ev,
                pg_eventKey = (case event of None \<Rightarrow> [] | Some e \<Rightarrow> ev_slug e), pg_limits = l, pg_record = rec,
                pg_strict = (case event of None \<Rightarrow> False | Some e \<Rightarrow> ev_strictLimits e),
                pg_measured = (case event of None \<Rightarrow> False | Some e \<Rightarrow> ev_enforceMeasuredLimits e)\<rparr>,
              publish_started p ev row w3))"

definition handlePublishStart :: "externals \<Rightarrow> publish_start \<Rightarrow> 'z world_scheme \<Rightarrow> publish_ack \<times> 'z world_scheme" where
  "handlePublishStart x p w =
     (case authorizePublish x (pp_streamName p) (''?token='' @ pp_token p) w of
        (Reject reason, w1) \<Rightarrow>
          (Denied reason, audit LWarn CAccess (''media-node publish rejected: '' @ pp_streamName p @ '' ('' @ reason @ '')'')
             \<lparr>ai_actor = Some (pp_streamName p), ai_eventId = None, ai_streamName = Some (pp_streamName p),
              ai_detail = Some (JObj [(''reason'', JStr reason), (''nodeId'', JStr (pp_nodeId p))])\<rparr> w1)
      | (Allow ev key label, w1) \<Rightarrow>
         (case locked_elsewhere p w1 of
            Some n \<Rightarrow>
              (Denied (''streaming is locked to your selected node'' @ where_hint n w1),
               audit LWarn CAccess (''publish on wrong node: '' @ pp_streamName p @ '' ('' @ pp_nodeId p @ '', locked to '' @ n @ '')'')
                 \<lparr>ai_actor = Some (pp_streamName p), ai_eventId = None, ai_streamName = Some (pp_streamName p),
                  ai_detail = Some (JObj [(''nodeId'', JStr (pp_nodeId p)), (''lockedTo'', JStr n)])\<rparr> w1)
          | None \<Rightarrow> grant_publish p ev key w1))"


section \<open>Metrics, violations, the end\<close>

definition handleMetrics :: "int \<Rightarrow> metrics \<Rightarrow> 'z core_scheme \<Rightarrow> 'z core_scheme" where
  "handleMetrics sessionId p w =
     (case PublishSessionsRepository_findById sessionId w of
        None \<Rightarrow> w
      | Some row \<Rightarrow>
          let m = metrics_over row p in
          emit (SessionMetric (snapshotFromRow row None m None)) (update_metrics sessionId m w))"

text \<open>endedAt is a time a Date can hold.\<close>

definition handleEnd :: "int \<Rightarrow> int \<Rightarrow> int \<Rightarrow> 'z world_scheme \<Rightarrow> 'z world_scheme" where
  "handleEnd sessionId endedAt durationSec w =
     (case PublishSessionsRepository_findById sessionId w of
        None \<Rightarrow> w
      | Some row \<Rightarrow>
          let final = (if ps_compliant row then SCompliant else SEnded);
              w1 = PublishSessionsRepository_markEnded sessionId final endedAt w;
              w2 = emit (SessionStop (snapshotFromRow row (Some final) no_metrics (Some endedAt))) (emitNodesChanged w1)
          in audit LInfo CPublish (''media-node publish ended: '' @ ps_streamName row)
               \<lparr>ai_actor = Some (ps_streamName row), ai_eventId = ps_eventId row, ai_streamName = Some (ps_streamName row),
                ai_detail = Some (JObj [(''sessionId'', json_int sessionId), (''durationSec'', json_int durationSec)])\<rparr> w2)"

definition handleViolation :: "int \<Rightarrow> string list \<Rightarrow> metrics option \<Rightarrow> 'z core_scheme \<Rightarrow> 'z core_scheme" where
  "handleViolation sessionId reasons m w =
     (case PublishSessionsRepository_findById sessionId w of
        None \<Rightarrow> w
      | Some row \<Rightarrow>
          let w1 = PublishSessionsRepository_updateStatus sessionId SViolating None None w;
              w2 = audit LWarn CPublish (''media-node violation: '' @ ps_streamName row @ '' ('' @ js_join ''; '' reasons @ '')'')
                     \<lparr>ai_actor = Some (ps_streamName row), ai_eventId = ps_eventId row, ai_streamName = Some (ps_streamName row),
                      ai_detail = Some (JObj [(''reasons'', json_strings reasons), (''nodeId'', JStr ''remote'')])\<rparr> w1
          in emit (SessionViolation (snapshotFromRow row (Some SViolating)
               (metrics_over row (orDefault m no_metrics)) None) reasons) w2)"


section \<open>The declared spec\<close>

record spec =
  sp_nodeId :: string
  sp_streamName :: string
  sp_width :: int
  sp_height :: int
  sp_fps :: rat
  sp_videoKbps :: rat
  sp_audioBitrateKbps :: rat

definition js_round :: "rat \<Rightarrow> int" where
  "js_round r = \<lfloor>r + 1 / 2\<rfloor>"

definition spec_metrics :: "publish_session_row \<Rightarrow> spec \<Rightarrow> metrics" where
  "spec_metrics row s =
     (let v = js_round (sp_videoKbps s); a = js_round (sp_audioBitrateKbps s) in
      \<lparr>mt_width = (if sp_width s \<noteq> 0 then Some (sp_width s) else ps_width row),
       mt_height = (if sp_height s \<noteq> 0 then Some (sp_height s) else ps_height row),
       mt_fps = (if sp_fps s \<noteq> 0 then Some (sp_fps s) else ps_fps row),
       mt_videoBitrateKbps = (if v \<noteq> 0 then Some v else ps_videoBitrateKbps row),
       mt_audioBitrateKbps = (if a \<noteq> 0 then Some a
          else if ps_audioBitrateKbps row = Some 0 then None else ps_audioBitrateKbps row)\<rparr>)"

definition spec_reasons :: "limits \<Rightarrow> spec \<Rightarrow> string list" where
  "spec_reasons l s =
     (if 0 < maxWidth l \<and> maxWidth l < sp_width s \<or> 0 < maxHeight l \<and> maxHeight l < sp_height s
      then [''resolution exceeds limit''] else [])
   @ (if 0 < maxFps l \<and> maxFps l < sp_fps s then [''fps exceeds limit''] else [])
   @ (if 0 < maxVideoBitrateKbps l \<and> maxVideoBitrateKbps l < js_round (sp_videoKbps s) then [''bitrate exceeds limit''] else [])
   @ (if 0 < maxAudioBitrateKbps l \<and> maxAudioBitrateKbps l < js_round (sp_audioBitrateKbps s)
      then [''audio bitrate exceeds limit''] else [])"

text \<open>The verdict: None to go on, or the reason of the refusal.\<close>

definition handleSpec :: "spec \<Rightarrow> 'z world_scheme \<Rightarrow> string option \<times> 'z world_scheme" where
  "handleSpec s w =
     (case PublishSessionsRepository_findById
             (case PublishSessionsRepository_findActiveByStream (sp_streamName s) w of None \<Rightarrow> -1 | Some r \<Rightarrow> ps_id r) w of
        None \<Rightarrow> (Some ''no active session'', w)
      | Some row \<Rightarrow>
          let m = spec_metrics row s;
              w1 = emit (SessionMetric (snapshotFromRow row None m None)) (update_metrics (ps_id row) m w);
              event = (case ps_eventId row of None \<Rightarrow> None | Some i \<Rightarrow> if i = 0 then None else EventsRepository_findById i w1);
              (l, w2) = getLimitsFor event w1;
              strict = (case event of None \<Rightarrow> False | Some e \<Rightarrow> ev_strictLimits e);
              reasons = spec_reasons l s
          in if reasons = [] then (None, w2)
             else let w3 = PublishSessionsRepository_updateStatus (ps_id row) SViolating None None w2;
                      w4 = emit (SessionViolation (snapshotFromRow row (Some SViolating) no_metrics None) reasons) w3;
                      w5 = audit LWarn CPublish (''spec '' @ (if strict then ''rejected'' else ''exceeds limits'') @ '': ''
                               @ ps_streamName row @ '' ('' @ js_join ''; '' reasons @ '')'')
                             \<lparr>ai_actor = Some (ps_streamName row), ai_eventId = ps_eventId row, ai_streamName = Some (ps_streamName row),
                              ai_detail = Some (JObj [(''sessionId'', json_int (ps_id row)), (''strict'', JBool strict),
                                (''reasons'', json_strings reasons)])\<rparr> w4
                  in (if strict then Some (js_join ''; '' reasons @ ''. Lower your OBS resolution/FPS/bitrate and reconnect.'')
                      else None, w5))"


section \<open>Recordings\<close>

record segment =
  sg_relPath :: string
  sg_sizeBytes :: int
  sg_durationSec :: int

record recording_ready =
  ry_nodeId :: string
  ry_streamName :: string
  ry_eventId :: "int option"
  ry_sessionId :: "int option"
  ry_segments :: "segment list"
  ry_sizeBytes :: int
  ry_durationSec :: int
  ry_avgFps :: "rat option"
  ry_width :: "int option"
  ry_height :: "int option"

definition first_path :: "recording_ready \<Rightarrow> string" where
  "first_path p = (case ry_segments p of [] \<Rightarrow> [] | s # _ \<Rightarrow> sg_relPath s)"

definition buildRecordingSnapshot :: "int \<Rightarrow> recording_ready \<Rightarrow> int \<Rightarrow> recording_snapshot" where
  "buildRecordingSnapshot i p now = \<lparr>rs_id = i, rs_eventId = ry_eventId p, rs_sessionId = ry_sessionId p,
     rs_streamName = ry_streamName p, rs_studentLabel = None, rs_filePath = first_path p, rs_sizeBytes = ry_sizeBytes p,
     rs_durationSec = Some (of_int (ry_durationSec p)), rs_startedAt = of_int (now - ry_durationSec p * 1000)\<rparr>"

text \<open>The segments column holds a JSON array of paths; anything else that parses is not
  iterated as one, which throws like text that does not parse.\<close>

definition segment_paths :: "recording_row \<Rightarrow> string list option" where
  "segment_paths r = (case rc_segments r of
     None \<Rightarrow> Some [rc_filePath r]
   | Some t \<Rightarrow> Option.bind (json_parse t) z_string_array)"

definition fresh_segments :: "string list \<Rightarrow> recording_ready \<Rightarrow> segment list" where
  "fresh_segments known p = filter (\<lambda>s. sg_relPath s \<notin> set known) (ry_segments p)"

definition merged_fps :: "recording_row \<Rightarrow> recording_ready \<Rightarrow> rat \<Rightarrow> rat \<Rightarrow> rat option" where
  "merged_fps r p prevDur nextDur =
     (case (rc_avgFps r, ry_avgFps p) of
        (Some a, Some b) \<Rightarrow>
          if a \<noteq> 0 \<and> b \<noteq> 0 then Some ((a * prevDur + b * (nextDur - prevDur)) / max 1 nextDur) else Some b
      | (None, Some b) \<Rightarrow> Some b
      | (a, None) \<Rightarrow> a)"

definition merge_recording :: "recording_ready \<Rightarrow> string list \<Rightarrow> int \<Rightarrow> recording_row \<Rightarrow> recording_row" where
  "merge_recording p segs now r =
     (let fresh = fresh_segments segs p;
          prevDur = orDefault (rc_durationSec r) 0;
          nextDur = (if fresh \<noteq> [] then prevDur + of_int (ry_durationSec p) else prevDur)
      in r\<lparr>rc_segments := Some (JText (json_strings (segs @ map sg_relPath fresh))),
           rc_sizeBytes := rc_sizeBytes r + sum_list (map sg_sizeBytes fresh),
           rc_durationSec := Some nextDur, rc_avgFps := merged_fps r p prevDur nextDur,
           rc_width := orElse (ry_width p) (rc_width r), rc_height := orElse (ry_height p) (rc_height r),
           rc_endedAt := Some now\<rparr>)"

definition new_recording :: "recording_ready \<Rightarrow> int \<Rightarrow> recording_row" where
  "new_recording p now = (recording_values (ry_streamName p) (first_path p))\<lparr>rc_eventId := ry_eventId p,
     rc_sessionId := ry_sessionId p, rc_nodeId := Some (ry_nodeId p),
     rc_segments := Some (JText (json_strings (map sg_relPath (ry_segments p)))),
     rc_sizeBytes := ry_sizeBytes p, rc_durationSec := Some (of_int (ry_durationSec p)), rc_avgFps := ry_avgFps p,
     rc_width := ry_width p, rc_height := ry_height p,
     rc_startedAt := now - ry_durationSec p * 1000, rc_endedAt := Some now\<rparr>"

definition merge_target :: "recording_ready \<Rightarrow> 'z db_scheme \<Rightarrow> recording_row option" where
  "merge_target p d = (case ry_eventId p of None \<Rightarrow> None
     | Some ev \<Rightarrow> RecordingsRepository_findMergeTarget ev (ry_streamName p) d)"

definition handleRecordingReady :: "recording_ready \<Rightarrow> 'z core_scheme \<Rightarrow> (unit, 'z core_scheme) outcome" where
  "handleRecordingReady p w =
     (case merge_target p w of
        Some r \<Rightarrow>
          (case segment_paths r of
             None \<Rightarrow> (Inl (JsError ''segments''), w)
           | Some segs \<Rightarrow>
               (Inr (), emit (RecordingReady (buildRecordingSnapshot (rc_id r) p (clock w)))
                  (RecordingsRepository_update (rc_id r) (merge_recording p segs (clock w)) w)))
      | None \<Rightarrow>
          andThen (RecordingsRepository_insert (new_recording p (clock w)) w) (\<lambda>row w1.
            (Inr (), emit (RecordingReady (buildRecordingSnapshot (rc_id row) p (clock w))) w1)))"


section \<open>The authmod questions\<close>

definition handleAuthSalt :: "string \<Rightarrow> 'z core_scheme \<Rightarrow> (string \<times> bool) \<times> 'z core_scheme" where
  "handleAuthSalt email0 w =
     (let email = ban_email email0;
          user = (if email = [] then None else UsersRepository_findByEmail email w);
          stored = non_empty (Option.bind user us_authmodSalt) [];
          (salt, w1) = (if stored \<noteq> [] then (stored, w) else randomSalt w)
      in ((salt, email \<noteq> [] \<and> isSiteWideBanned email w1), w1))"

definition handleAuthVerify :: "externals \<Rightarrow> string option \<Rightarrow> verify_body \<Rightarrow> 'z core_scheme \<Rightarrow> (bool \<times> bool, 'z core_scheme) outcome" where
  "handleAuthVerify x nodeId body w =
     (let email = ban_email (vb_email body);
          user = (if email = [] then None else UsersRepository_findByEmail email w);
          cipher = non_empty (Option.bind user us_authmodVerifier) []
      in if cipher = [] then
           (Inr (False, False), audit LWarn CAuth ''authmod failed: user does not exist''
              (no_opts\<lparr>ai_detail := Some (JObj [(''attemptedEmail'', if email = [] then JNull else JStr email),
                 (''nodeId'', json_opt JStr nodeId)])\<rparr>) w)
         else case verifierFromCipher x cipher of
           Inl e \<Rightarrow> (Inl e, w)
         | Inr v \<Rightarrow>
             if verifyResponse x v (vb_opaque body) (vb_challenge body) (vb_response body) then (Inr (True, True), w)
             else (Inr (False, True), audit LWarn CAuth (''authmod failed: wrong password ('' @ email @ '')'')
                    (no_opts\<lparr>ai_actor := Some email, ai_detail := Some (JObj [(''email'', JStr email),
                       (''nodeId'', json_opt JStr nodeId)])\<rparr>) w))"

definition handleAuthPolicy :: "string \<Rightarrow> string \<Rightarrow> 'z db_scheme \<Rightarrow> rtmp_policy_view" where
  "handleAuthPolicy token stream0 d =
     (let stream = js_trim stream0;
          row = (if token = [] then None else EventsRepository_findByPublishKey token d);
          isOpen = (case row of None \<Rightarrow> True
            | Some e \<Rightarrow> ev_status e = Archived
                \<or> (case ev_startsAt e of None \<Rightarrow> True | Some s \<Rightarrow> s \<le> clock d)
                   \<and> (case ev_endsAt e of None \<Rightarrow> True | Some t \<Rightarrow> clock d \<le> t))
      in \<lparr>rp_publishKey = (row \<noteq> None), rp_requireAccountAuth = True,
          rp_windowOpen = (if map_option ev_status row = Some Archived then False else isOpen),
          rp_banned = (stream \<noteq> [] \<and> isBlocked stream (map_option ev_id row) d)\<rparr>)"

definition nodeIdOfSocket :: "string \<Rightarrow> 'z world_scheme \<Rightarrow> string option" where
  "nodeIdOfSocket socketId w = map_option nd_nodeId (find (\<lambda>n. nd_socketId n = socketId) (listNodes w))"


section \<open>What a grant is worth\<close>

lemma authorize_frame:
  "t_sessions (snd (authorizePublish x n q w)) = t_sessions w" "t_users (snd (authorizePublish x n q w)) = t_users w"
  "t_events (snd (authorizePublish x n q w)) = t_events w" "clock (snd (authorizePublish x n q w)) = clock w"
  "t_appConfig (snd (authorizePublish x n q w)) = t_appConfig w"
  by (auto simp: authorizePublish_def authorize_key_def Let_def StreamKeysRepository_touch_def keys_set_def split: option.splits)

lemma authorize_more: "core.more (snd (authorizePublish x n q w)) = core.more w"
  by (auto simp: authorizePublish_def authorize_key_def Let_def StreamKeysRepository_touch_def keys_set_def split: option.splits)

lemma authorize_event_id:
  assumes "authorizePublish x n q w = (Allow ev key label, w1)"
  shows "\<exists>e. EventsRepository_findById (ev_id e) w = Some e \<and> e \<in> set (rows (t_events w)) \<and> ev_id e = ev
    \<or> e \<in> set (rows (t_events w)) \<and> ev_id e = ev"
  using assms
  by (auto simp: authorizePublish_def authorize_key_def authorize_event_def Let_def
      dest!: EventsRepository_findById_Some shared_eventD split: option.splits if_splits)

lemma config_cong: "core.more w' = core.more w \<Longrightarrow> t_appConfig w' = t_appConfig w \<Longrightarrow> config_of w' = config_of (w :: 'a world_scheme)"
  by (cases w; cases w') (simp add: getConfig_def load_config_def AppConfigRepository_find_def AppConfigRepository_findKey_def Let_def
      split: option.split)

lemma config_twice [simp]: "getConfig (snd (getConfig w)) = getConfig w"
  by (auto simp: getConfig_def Let_def split: option.splits)

lemma getConfig_tables [simp, frame]:
  "t_sessions (snd (getConfig w)) = t_sessions w" "t_events (snd (getConfig w)) = t_events w"
  "t_streamKeys (snd (getConfig w)) = t_streamKeys w" "t_users (snd (getConfig w)) = t_users w"
  "t_streamBans (snd (getConfig w)) = t_streamBans w" "t_recordings (snd (getConfig w)) = t_recordings w"
  "clock (snd (getConfig w)) = clock w"
  by (auto simp: getConfig_def Let_def split: option.splits)

lemma adjust_frame [simp]: "t_sessions (adjustStreamCount i k w) = t_sessions w" "t_streamBans (adjustStreamCount i k w) = t_streamBans w"
  by (auto simp: adjustStreamCount_def split: option.splits)

lemma started_frame [simp]: "t_sessions (publish_started p ev row w) = t_sessions w"
  by (simp add: publish_started_def Let_def emitNodesChanged_def)

lemma grant_Granted:
  assumes "grant_publish p ev key w = (Granted g, w')" "EventsRepository_findById ev w = Some e" "ev \<noteq> 0"
  shows "\<exists>row. rows (t_sessions w') = rows (t_sessions w) @ [row] \<and> ps_id row = pg_sessionId g \<and> ps_eventId row = Some ev
    \<and> ps_streamName row = pp_streamName p \<and> ps_nodeId row = Some (pp_nodeId p) \<and> ps_status row = SAllowed \<and> ps_endedAt row = None
    \<and> pg_eventId g = Some ev \<and> pg_eventKey g = ev_slug e \<and> pg_limits g = limits_for (config_of w) (Some e)
    \<and> pg_strict g = ev_strictLimits e \<and> pg_measured g = ev_enforceMeasuredLimits e
    \<and> pg_record g = (rec_enabled (c_record (config_of w)) \<and> ev_recordEnabled e)"
  using assms
  by (auto simp: grant_publish_def getLimitsFor_def Let_def case_prod_unfold PublishSessionsRepository_insert_def
      tbl_insert_def put_session_def session_norm_def granted_session_def session_values_def
      split: prod.splits sum.splits if_splits)

lemma grant_Denied: "grant_publish p ev key w = (Denied r, w') \<Longrightarrow> t_sessions w' = t_sessions w"
  by (auto simp: grant_publish_def getLimitsFor_def Let_def case_prod_unfold PublishSessionsRepository_insert_def
      split: prod.splits sum.splits if_splits)

text \<open>C19 A publish grant is worth what it says: when the node is told to go on, the authorization
  rules admitted the publisher to the event, an account that has a node is on that node,
  exactly one session was added, open, allowed, and of this event, stream and node, and the
  limits, the strictness and the recording flag that travel with the grant are those of that
  event under the configuration in force; a refused publish adds no session.\<close>

theorem publish_grant_sound:
  assumes "integrity w" "handlePublishStart x p w = (ack, w')"
  shows "case ack of Denied r \<Rightarrow> t_sessions w' = t_sessions w
    | Granted g \<Rightarrow> \<exists>ev key label e row.
        fst (authorizePublish x (pp_streamName p) (''?token='' @ pp_token p) w) = Allow ev key label
      \<and> (\<forall>u n. UsersRepository_findByEmail (pp_streamName p) w = Some u \<and> us_nodeId u = Some n \<and> n \<noteq> [] \<and> pp_nodeId p \<noteq> []
           \<longrightarrow> n = pp_nodeId p)
      \<and> EventsRepository_findById ev w = Some e
      \<and> rows (t_sessions w') = rows (t_sessions w) @ [row] \<and> ps_id row = pg_sessionId g \<and> ps_eventId row = Some ev
      \<and> ps_streamName row = pp_streamName p \<and> ps_nodeId row = Some (pp_nodeId p) \<and> ps_status row = SAllowed \<and> ps_endedAt row = None
      \<and> pg_eventId g = Some ev \<and> pg_eventKey g = ev_slug e \<and> pg_limits g = limits_for (config_of w) (Some e)
      \<and> pg_strict g = ev_strictLimits e \<and> pg_measured g = ev_enforceMeasuredLimits e
      \<and> pg_record g = (rec_enabled (c_record (config_of w)) \<and> ev_recordEnabled e)"
proof -
  let ?a = "authorizePublish x (pp_streamName p) (''?token='' @ pp_token p) w"
  define w1 where "w1 = snd ?a"
  have f: "t_sessions w1 = t_sessions w" "t_users w1 = t_users w" "t_events w1 = t_events w" "config_of w1 = config_of w"
    unfolding w1_def by (rule authorize_frame config_cong[OF authorize_more authorize_frame(5)])+
  show ?thesis
  proof (cases "fst ?a")
    case (Reject r)
    then have "?a = (Reject r, w1)" by (simp add: w1_def prod_eq_iff)
    with assms(2) f show ?thesis by (auto simp: handlePublishStart_def)
  next
    case (Allow ev key label)
    then have a: "?a = (Allow ev key label, w1)" by (simp add: w1_def prod_eq_iff)
    from authorize_event_id[OF a] obtain e where e: "e \<in> set (rows (t_events w))" "ev_id e = ev" by blast
    have ok: "tbl_ok ev_id (t_events w)" using assms(1) by (simp add: integrity_def ids_ok_def)
    then have find: "EventsRepository_findById ev w = Some e" "ev \<noteq> 0"
      using e evts.find_key[OF ok e(1)] by (auto simp: EventsRepository_findById_def tbl_ok_def)
    then have find1: "EventsRepository_findById ev w1 = Some e" by (simp add: EventsRepository_findById_def f)
    show ?thesis
    proof (cases "locked_elsewhere p w1")
      case (Some n)
      with assms(2) a f show ?thesis by (auto simp: handlePublishStart_def)
    next
      case None
      then have g: "grant_publish p ev key w1 = (ack, w')" using assms(2) a by (simp add: handlePublishStart_def)
      have lock: "\<forall>u n. UsersRepository_findByEmail (pp_streamName p) w = Some u \<and> us_nodeId u = Some n \<and> n \<noteq> [] \<and> pp_nodeId p \<noteq> []
           \<longrightarrow> n = pp_nodeId p"
        using None f(2) by (auto simp: locked_elsewhere_def UsersRepository_findByEmail_def split: if_splits)
      show ?thesis
      proof (cases ack)
        case (Denied r)
        with grant_Denied[of p ev key w1 r w'] g f show ?thesis by simp
      next
        case (Granted gr)
        from grant_Granted[OF g[unfolded Granted] find1 find(2)] f lock Allow find(1) Granted show ?thesis by fastforce
      qed
    qed
  qed
qed


section \<open>The verdict on a declared spec\<close>

definition within_limits :: "limits \<Rightarrow> spec \<Rightarrow> bool" where
  "within_limits l s \<longleftrightarrow> (maxWidth l \<le> 0 \<or> sp_width s \<le> maxWidth l) \<and> (maxHeight l \<le> 0 \<or> sp_height s \<le> maxHeight l)
     \<and> (maxFps l \<le> 0 \<or> sp_fps s \<le> maxFps l)
     \<and> (maxVideoBitrateKbps l \<le> 0 \<or> js_round (sp_videoKbps s) \<le> maxVideoBitrateKbps l)
     \<and> (maxAudioBitrateKbps l \<le> 0 \<or> js_round (sp_audioBitrateKbps s) \<le> maxAudioBitrateKbps l)"

lemma spec_reasons_iff: "spec_reasons l s = [] \<longleftrightarrow> within_limits l s"
  by (auto simp: spec_reasons_def within_limits_def)

definition session_event :: "publish_session_row \<Rightarrow> 'z db_scheme \<Rightarrow> event_row option" where
  "session_event row d = (case ps_eventId row of None \<Rightarrow> None | Some i \<Rightarrow> if i = 0 then None else EventsRepository_findById i d)"

lemma first_of_order: "first_of (order_desc k xs) = Some r \<Longrightarrow> r \<in> set xs"
proof -
  assume "first_of (order_desc k xs) = Some r"
  then have "r \<in> set (order_desc k xs)" by (auto simp: first_of_def simp del: order_desc_set split: list.splits)
  then show ?thesis by simp
qed

lemma findActiveByStream_in:
  "PublishSessionsRepository_findActiveByStream n d = Some r \<Longrightarrow>
     r \<in> set (rows (t_sessions d)) \<and> ps_streamName r = n \<and> ps_endedAt r = None"
  by (auto simp: PublishSessionsRepository_findActiveByStream_def tbl_select_def dest: first_of_order)

text \<open>The declared spec is judged against the limits of the session's event: with an open session
  of that stream the publish is refused exactly when the event is strict and a configured limit is
  exceeded (a limit of zero counts as none), the session is flagged as violating
  exactly when a limit is exceeded, strict or not, it stays open, no other session changes, and no
  ban is ever recorded; without an open session it is refused.\<close>

theorem spec_verdict:
  assumes "integrity w"
  shows "case PublishSessionsRepository_findActiveByStream (sp_streamName s) w of
      None \<Rightarrow> handleSpec s w = (Some ''no active session'', w)
    | Some row \<Rightarrow>
       (let event = session_event row w; l = limits_for (config_of w) event in
         (fst (handleSpec s w) \<noteq> None \<longleftrightarrow> (\<exists>e. event = Some e \<and> ev_strictLimits e) \<and> \<not> within_limits l s)
       \<and> t_streamBans (snd (handleSpec s w)) = t_streamBans w
       \<and> (\<exists>m :: metrics. rows (t_sessions (snd (handleSpec s w))) = map (\<lambda>r. if ps_id r = ps_id row then
             (let r1 = r\<lparr>ps_width := mt_width m, ps_height := mt_height m, ps_fps := mt_fps m,
                ps_videoBitrateKbps := mt_videoBitrateKbps m, ps_audioBitrateKbps := mt_audioBitrateKbps m,
                ps_lastMetricAt := Some (db_now w)\<rparr>
              in if within_limits l s then r1 else r1\<lparr>ps_status := SViolating\<rparr>) else r) (rows (t_sessions w))))"
proof (cases "PublishSessionsRepository_findActiveByStream (sp_streamName s) w")
  case None
  have "PublishSessionsRepository_findById (- 1) w = None"
    using assms by (auto simp: PublishSessionsRepository_findById_def tbl_find_None integrity_def ids_ok_def tbl_ok_def)
  with None show ?thesis by (simp add: handleSpec_def)
next
  case (Some row)
  have ok: "tbl_ok ps_id (t_sessions w)" using assms by (simp add: integrity_def ids_ok_def)
  have row: "PublishSessionsRepository_findById (ps_id row) w = Some row"
    using sess.find_key[OF ok] findActiveByStream_in[OF Some] by (simp add: PublishSessionsRepository_findById_def)
  let ?m = "spec_metrics row s"
  define w1 where "w1 = emit (SessionMetric (snapshotFromRow row None ?m None)) (update_metrics (ps_id row) ?m w)"
  have w1: "t_events w1 = t_events w" "config_of w1 = config_of w" "t_streamBans w1 = t_streamBans w" "db_now w1 = db_now w"
    "rows (t_sessions w1) = map (\<lambda>r. if ps_id r = ps_id row then r\<lparr>ps_width := mt_width ?m, ps_height := mt_height ?m,
        ps_fps := mt_fps ?m, ps_videoBitrateKbps := mt_videoBitrateKbps ?m, ps_audioBitrateKbps := mt_audioBitrateKbps ?m,
        ps_lastMetricAt := Some (db_now w)\<rparr> else r) (rows (t_sessions w))"
    using config_cong[of w1 w]
    by (simp_all add: w1_def update_metrics_def PublishSessionsRepository_updateMetrics_def sessions_set_def tbl_update_def
        db_now_def)
  have ev: "session_event row w1 = session_event row w"
    by (simp add: session_event_def EventsRepository_findById_def w1 split: option.split)
  note d = handleSpec_def Some row Let_def case_prod_unfold getLimitsFor_def w1_def[symmetric] session_event_def[symmetric] ev
  show ?thesis
  proof (cases "within_limits (limits_for (config_of w) (session_event row w)) s")
    case True
    then have "handleSpec s w = (None, snd (getConfig w1))"
      by (simp add: d w1(2) spec_reasons_iff)
    with True Some w1 show ?thesis by (auto simp: Let_def intro!: exI[of _ ?m])
  next
    case False
    then have "\<exists>w2. handleSpec s w = (if \<exists>e. session_event row w = Some e \<and> ev_strictLimits e
          then Some (js_join ''; '' (spec_reasons (limits_for (config_of w) (session_event row w)) s)
            @ ''. Lower your OBS resolution/FPS/bitrate and reconnect.'') else None, w2)
        \<and> t_sessions w2 = t_sessions (PublishSessionsRepository_updateStatus (ps_id row) SViolating None None w1)
        \<and> t_streamBans w2 = t_streamBans w"
      by (auto simp: d w1(2,3) spec_reasons_iff PublishSessionsRepository_updateStatus_def sessions_set_def split: option.split)
    then show ?thesis
      using False Some w1
      by (auto simp: Let_def PublishSessionsRepository_updateStatus_def sessions_set_def tbl_update_def intro!: exI[of _ ?m] split: if_splits)
  qed
qed


section \<open>Recordings are merged, not piled up\<close>

lemma paths_roundtrip [simp]: "Option.bind (json_parse (JText (json_strings ps))) z_string_array = Some ps"
  by simp

lemma z_paths: "fresh_segments (segs @ map sg_relPath (fresh_segments segs p)) p = []"
  by (auto simp: fresh_segments_def filter_empty_conv)

lemma merge_target_mem:
  "merge_target p d = Some r \<Longrightarrow> r \<in> set (rows (t_recordings d)) \<and> rc_eventId r = ry_eventId p
     \<and> rc_streamName r = ry_streamName p"
  by (auto simp: merge_target_def RecordingsRepository_findMergeTarget_def tbl_select_def dest!: first_of_order split: option.splits)

text \<open>A row that keeps its key, event, stream and start keeps its place in the search.\<close>

lemma merge_target_update:
  assumes "tbl_ok rc_id (t_recordings d)" "merge_target p d = Some r"
    and "\<And>x. rc_id (f x) = rc_id x \<and> rc_eventId (f x) = rc_eventId x \<and> rc_streamName (f x) = rc_streamName x
           \<and> rc_startedAt (f x) = rc_startedAt x"
  shows "merge_target p (d\<lparr>t_recordings := tbl_update (\<lambda>x. rc_id x = rc_id r) f (t_recordings d)\<rparr>) = Some (f r)"
proof -
  let ?g = "\<lambda>x. if rc_id x = rc_id r then f x else x"
  obtain ev where ev: "ry_eventId p = Some ev" using assms(2) by (auto simp: merge_target_def split: option.splits)
  define xs where "xs = tbl_select (\<lambda>x. rc_eventId x = Some ev \<and> rc_streamName x = ry_streamName p) (t_recordings d)"
  have sel: "tbl_select (\<lambda>x. rc_eventId x = Some ev \<and> rc_streamName x = ry_streamName p)
      (tbl_update (\<lambda>x. rc_id x = rc_id r) f (t_recordings d)) = map ?g xs"
  proof -
    have "(\<lambda>x. rc_eventId x = Some ev \<and> rc_streamName x = ry_streamName p) \<circ> ?g
        = (\<lambda>x. rc_eventId x = Some ev \<and> rc_streamName x = ry_streamName p)"
      using assms(3) by (auto simp: fun_eq_iff)
    then show ?thesis by (simp add: tbl_select_def tbl_update_def xs_def filter_map)
  qed
  have "sort_key (\<lambda>x. - rc_startedAt x) (map ?g xs) = map ?g (sort_key (\<lambda>x. - rc_startedAt x) xs)"
  proof -
    have key: "- rc_startedAt (?g x) = - rc_startedAt x" for x using assms(3) by simp
    have ins: "insort_key (\<lambda>x. - rc_startedAt x) (?g x) (map ?g ys) = map ?g (insort_key (\<lambda>x. - rc_startedAt x) x ys)" for x ys
      by (induction ys) (simp_all add: key del: neg_le_iff_le)
    show ?thesis by (induction xs) (simp_all add: ins)
  qed
  moreover have "first_of (order_desc rc_startedAt xs) = Some r"
    using assms(2) ev by (simp add: merge_target_def RecordingsRepository_findMergeTarget_def xs_def)
  ultimately show ?thesis
    using ev by (auto simp: merge_target_def RecordingsRepository_findMergeTarget_def sel order_desc_def first_of_def
        split: list.splits)
qed

definition strip :: "recording_row \<Rightarrow> recording_row" where
  "strip r = r\<lparr>rc_endedAt := None, rc_avgFps := None\<rparr>"

text \<open>A row that a delivery has gone into: it lists the delivered paths and has taken over the
  dimensions.\<close>

definition delivered :: "recording_ready \<Rightarrow> recording_row \<Rightarrow> bool" where
  "delivered p r \<longleftrightarrow> (\<exists>segs d. segment_paths r = Some segs \<and> sg_relPath ` set (ry_segments p) \<subseteq> set segs
     \<and> rc_segments r = Some (JText (json_strings segs)) \<and> rc_durationSec r = Some d
     \<and> rc_width r = orElse (ry_width p) (rc_width r) \<and> rc_height r = orElse (ry_height p) (rc_height r)
     \<and> recording_norm r = r)"

lemma norm_idem [simp]: "recording_norm (recording_norm r) = recording_norm r"
  by (cases "rc_endedAt r"; cases "rc_retainedUntil r") (simp_all add: recording_norm_def)

lemma strip_merge:
  assumes "delivered p r" "segment_paths r = Some segs"
  shows "strip (put_recording (recording_norm (merge_recording p segs now r)) (rc_id r)) = strip r"
proof -
  from assms obtain d where d: "rc_segments r = Some (JText (json_strings segs))" "rc_durationSec r = Some d"
    "rc_width r = orElse (ry_width p) (rc_width r)" "rc_height r = orElse (ry_height p) (rc_height r)" "recording_norm r = r"
    "sg_relPath ` set (ry_segments p) \<subseteq> set segs"
    by (auto simp: delivered_def)
  then have "fresh_segments segs p = []" by (auto simp: fresh_segments_def filter_empty_conv)
  moreover have "db_ts (rc_startedAt r) = rc_startedAt r" "map_option db_ts (rc_retainedUntil r) = rc_retainedUntil r"
    using d(5) by (metis recording_norm_def recording_row.ext_inject recording_row.surjective recording_row.update_convs(14)
        recording_row.update_convs(15) recording_row.update_convs(16))+
  ultimately show ?thesis
    using d(1-4) by (simp add: strip_def merge_recording_def Let_def put_recording_def recording_norm_def)
qed

lemma merge_delivered:
  assumes "segment_paths r = Some segs"
  shows "delivered p (put_recording (recording_norm (merge_recording p segs now r)) (rc_id r))"
proof -
  let ?r = "put_recording (recording_norm (merge_recording p segs now r)) (rc_id r)"
  let ?s = "segs @ map sg_relPath (fresh_segments segs p)"
  have f: "rc_segments ?r = Some (JText (json_strings ?s))" "recording_norm ?r = ?r"
    by (simp_all add: merge_recording_def Let_def put_recording_def recording_norm_def option.map_comp comp_def)
  have "rc_width ?r = orElse (ry_width p) (rc_width ?r)" "rc_height ?r = orElse (ry_height p) (rc_height ?r)" "\<exists>d. rc_durationSec ?r = Some d"
    by (cases "ry_width p"; cases "ry_height p"; simp add: merge_recording_def Let_def put_recording_def recording_norm_def)+
  moreover have "segment_paths ?r = Some ?s" by (simp add: segment_paths_def f)
  moreover have "sg_relPath ` set (ry_segments p) \<subseteq> set ?s" by (auto simp: fresh_segments_def)
  ultimately show ?thesis using f by (auto simp: delivered_def simp del: set_append map_append)
qed

lemma ready_merges:
  assumes "merge_target p w = Some r" "segment_paths r = Some segs" "tbl_ok rc_id (t_recordings w)"
    and "list_all (\<lambda>r. recording_norm r = r) (rows (t_recordings w))"
  defines "r' \<equiv> put_recording (recording_norm (merge_recording p segs (clock w) r)) (rc_id r)"
  shows "\<exists>w'. handleRecordingReady p w = (Inr (), w')
    \<and> rows (t_recordings w') = map (\<lambda>x. if rc_id x = rc_id r then r' else x) (rows (t_recordings w))
    \<and> merge_target p w' = Some r'"
proof -
  define f where "f = (\<lambda>x. if x = r then r' else x)"
  have only: "x = r" if "x \<in> set (rows (t_recordings w))" "rc_id x = rc_id r" for x
    using recs.key_inj[OF assms(3) that(1)] that(2) merge_target_mem[OF assms(1)] by blast
  have "recording_norm r = r" using assms(4) merge_target_mem[OF assms(1)] by (simp add: list_all_iff)
  then have "db_ts (rc_startedAt r) = rc_startedAt r" by (metis recording_norm_def recording_row.select_convs(14)
        recording_row.surjective recording_row.update_convs(14-16))
  then have keep: "rc_id (f x) = rc_id x \<and> rc_eventId (f x) = rc_eventId x \<and> rc_streamName (f x) = rc_streamName x
      \<and> rc_startedAt (f x) = rc_startedAt x" for x
    by (simp add: f_def r'_def merge_recording_def Let_def put_recording_def recording_norm_def)
  define w' where "w' = snd (handleRecordingReady p w)"
  have h: "handleRecordingReady p w = (Inr (), w')"
    "t_recordings w' = tbl_update (\<lambda>x. rc_id x = rc_id r)
       (\<lambda>x. put_recording (recording_norm (merge_recording p segs (clock w) x)) (rc_id x)) (t_recordings w)"
    using assms(1,2) by (simp_all add: w'_def handleRecordingReady_def RecordingsRepository_update_def)
  have t: "t_recordings w' = tbl_update (\<lambda>x. rc_id x = rc_id r) f (t_recordings w)"
  proof -
    have "map (\<lambda>x. if rc_id x = rc_id r then put_recording (recording_norm (merge_recording p segs (clock w) x)) (rc_id x) else x)
        (rows (t_recordings w)) = map (\<lambda>x. if rc_id x = rc_id r then f x else x) (rows (t_recordings w))"
      by (rule map_cong[OF refl]) (auto simp: f_def r'_def dest: only)
    then show ?thesis by (simp add: h(2) tbl_update_def)
  qed
  have "rows (t_recordings w') = map (\<lambda>x. if rc_id x = rc_id r then r' else x) (rows (t_recordings w))"
    unfolding t tbl_update_def f_def using only by auto
  moreover have "merge_target p w' = Some (f r)"
    using merge_target_update[OF assms(3,1) keep] by (auto simp: merge_target_def RecordingsRepository_findMergeTarget_def t split: option.splits)
  ultimately show ?thesis using h(1) by (auto simp: f_def)
qed

lemma ready_inserts:
  assumes "merge_target p w = None" "ry_eventId p \<noteq> None" "handleRecordingReady p w = (Inr (), w')"
  shows "\<exists>r. rows (t_recordings w') = rows (t_recordings w) @ [r] \<and> merge_target p w' = Some r \<and> delivered p r"
proof -
  obtain ev where ev: "ry_eventId p = Some ev" using assms(2) by blast
  define r where "r = put_recording (recording_norm ((new_recording p (clock w))\<lparr>rc_createdAt := db_now w\<rparr>)) (seq (t_recordings w))"
  have rows: "rows (t_recordings w') = rows (t_recordings w) @ [r]"
    using assms(1,3) by (auto simp: handleRecordingReady_def andThen_eq_Inr RecordingsRepository_insert_def tbl_insert_def r_def
        split: if_splits)
  have none: "filter (\<lambda>x. rc_eventId x = Some ev \<and> rc_streamName x = ry_streamName p) (rows (t_recordings w)) = []"
    using assms(1) ev by (auto simp: merge_target_def RecordingsRepository_findMergeTarget_def first_of_def tbl_select_def
        order_desc_def dest: arg_cong[where f = length] split: list.splits)
  have r: "rc_eventId r = Some ev" "rc_streamName r = ry_streamName p"
    by (simp_all add: r_def new_recording_def put_recording_def recording_norm_def recording_values_def ev)
  have "merge_target p w' = Some r"
    using none r ev by (simp add: merge_target_def RecordingsRepository_findMergeTarget_def tbl_select_def rows order_desc_def first_of_def)
  moreover have "delivered p r"
    by (cases "ry_width p"; cases "ry_height p")
       (simp_all add: delivered_def r_def new_recording_def put_recording_def recording_norm_def recording_values_def segment_paths_def)
  ultimately show ?thesis using rows by blast
qed

text \<open>C20 Recordings can be reported again: the node repeats recording:ready until it is sure, and
  once a report for an event has been taken in, repeating it at any later time succeeds and
  changes no recording but for its end time and averaged frame rate: no row is added, no
  segment is listed again, no size or duration is counted twice; and the report's row lists
  every delivered path.\<close>

theorem recording_ready_idempotent:
  assumes "tbl_ok rc_id (t_recordings w)" "list_all (\<lambda>r. recording_norm r = r) (rows (t_recordings w))"
    and "ry_eventId p \<noteq> None" "handleRecordingReady p w = (Inr (), w1)"
  shows "\<exists>w2 r segs. handleRecordingReady p (w1\<lparr>clock := t\<rparr>) = (Inr (), w2)
    \<and> map strip (rows (t_recordings w2)) = map strip (rows (t_recordings w1))
    \<and> merge_target p w1 = Some r \<and> segment_paths r = Some segs \<and> sg_relPath ` set (ry_segments p) \<subseteq> set segs"
proof -
  have "\<exists>r. merge_target p w1 = Some r \<and> delivered p r \<and> tbl_ok rc_id (t_recordings w1)
      \<and> list_all (\<lambda>r. recording_norm r = r) (rows (t_recordings w1))"
  proof (cases "merge_target p w")
    case None
    from ready_inserts[OF this assms(3,4)] obtain r where r: "rows (t_recordings w1) = rows (t_recordings w) @ [r]"
      "merge_target p w1 = Some r" "delivered p r" by blast
    have "\<exists>v. t_recordings w1 = snd (tbl_insert (put_recording v) (t_recordings w))"
      using None assms(4) by (auto simp: handleRecordingReady_def andThen_eq_Inr RecordingsRepository_insert_def tbl_insert_def
          split: if_splits)
    then have "tbl_ok rc_id (t_recordings w1)" using recs.ok_insert[OF assms(1)] by auto
    with r assms(2) show ?thesis by (auto simp: delivered_def)
  next
    case (Some r0)
    then obtain segs where segs: "segment_paths r0 = Some segs"
      using assms(4) by (cases "segment_paths r0") (simp_all add: handleRecordingReady_def)
    let ?r = "put_recording (recording_norm (merge_recording p segs (clock w) r0)) (rc_id r0)"
    from ready_merges[OF Some segs assms(1,2)] assms(4)
    have w1: "rows (t_recordings w1) = map (\<lambda>x. if rc_id x = rc_id r0 then ?r else x) (rows (t_recordings w))"
      "merge_target p w1 = Some ?r" by auto
    have "t_recordings w1 = tbl_update (\<lambda>x. rc_id x = rc_id r0)
        (\<lambda>x. put_recording (recording_norm (merge_recording p segs (clock w) x)) (rc_id x)) (t_recordings w)"
      using assms(4) Some segs by (auto simp: handleRecordingReady_def RecordingsRepository_update_def)
    then have "tbl_ok rc_id (t_recordings w1)" using recs.ok_update[OF assms(1)] by (simp add: put_recording_def)
    moreover have "delivered p ?r" by (rule merge_delivered[OF segs])
    ultimately show ?thesis using w1 assms(2) by (auto simp: list_all_iff delivered_def)
  qed
  then obtain r where r: "merge_target p w1 = Some r" "delivered p r" "tbl_ok rc_id (t_recordings w1)"
    "list_all (\<lambda>r. recording_norm r = r) (rows (t_recordings w1))" by blast
  then obtain segs where segs: "segment_paths r = Some segs" "sg_relPath ` set (ry_segments p) \<subseteq> set segs"
    by (auto simp: delivered_def)
  let ?w = "w1\<lparr>clock := t\<rparr>"
  have m: "merge_target p ?w = Some r"
    using r(1) by (auto simp: merge_target_def RecordingsRepository_findMergeTarget_def split: option.splits)
  from ready_merges[OF this segs(1)] r obtain w2 where w2: "handleRecordingReady p ?w = (Inr (), w2)"
    "rows (t_recordings w2) = map (\<lambda>x. if rc_id x = rc_id r
       then put_recording (recording_norm (merge_recording p segs t r)) (rc_id r) else x) (rows (t_recordings w1))" by auto
  have "x = r" if "x \<in> set (rows (t_recordings w1))" "rc_id x = rc_id r" for x
    using recs.key_inj[OF r(3) that(1)] that(2) merge_target_mem[OF r(1)] by blast
  then have "map strip (rows (t_recordings w2)) = map strip (rows (t_recordings w1))"
    using w2(2) strip_merge[OF r(2) segs(1)] by auto
  with w2(1) r(1) segs show ?thesis by blast
qed


section \<open>Two wires, one answer\<close>

text \<open>The WebSocket questions and the HTTP endpoints of the gateway answer alike.\<close>

lemma policy_wires: "rtmp_guard x h = None \<Longrightarrow> rtmp_policy x h token stream d = Inr (handleAuthPolicy token stream d)"
  by (auto simp: rtmp_policy_def handleAuthPolicy_def Let_def window_open_def split: option.split)

lemma salt_wires:
  "rtmp_guard x h = None \<Longrightarrow> rtmp_salt x h email w = (Inr (fst (handleAuthSalt email w)), snd (handleAuthSalt email w))"
  by (auto simp: rtmp_salt_def handleAuthSalt_def Let_def non_empty_def case_prod_unfold isSiteWideBanned_def randomSalt_def
      uuid_hex_def StreamBansRepository_findSiteWide_def split: option.splits)

lemma verify_wires: "rtmp_guard x h = None \<Longrightarrow> fst (rtmp_verify x h body w) = fst (handleAuthVerify x nodeId body w)"
  by (auto simp: rtmp_verify_def handleAuthVerify_def Let_def non_empty_def split: option.splits sum.split)


section \<open>Concrete runs\<close>

text \<open>Event 1 of club with its publish key, a site-wide ban on Ann, and a node.\<close>

definition stage :: world where
  "stage = snd (register ''s1'' (node_info ''a'') (club\<lparr>t_streamBans := \<lparr>rows = [\<lparr>sb_id = 1, sb_email = ''ann@x.org'',
     sb_eventId = None, sb_reason = None, sb_bannedBy = None, sb_createdAt = 0\<rparr>], seq = 2\<rparr>\<rparr>))"

definition ann_publish :: publish_start where
  "ann_publish = \<lparr>pp_nodeId = ''a'', pp_streamName = ''ann@x.org'', pp_token = ''contest'', pp_authedUser = ''ann@x.org'',
     pp_srsClientId = ''c1''\<rparr>"

lemma stage_tables:
  "t_users stage = t_users club" "t_events stage = t_events club" "t_aliases stage = t_aliases club"
  "t_students stage = t_students club" "t_enrollments stage = t_enrollments club" "t_streamKeys stage = t_streamKeys club"
  "t_sessions stage = t_sessions club" "t_recordings stage = t_recordings club" "t_audit stage = t_audit club"
  "t_groups stage = t_groups club" "t_userGroups stage = t_userGroups club" "t_eventGroups stage = t_eventGroups club"
  "t_invites stage = t_invites club" "t_appConfig stage = t_appConfig club" "t_nodeSettings stage = t_nodeSettings club"
  "t_nodeLatencies stage = t_nodeLatencies club" "clock stage = clock club"
  "t_streamBans stage = \<lparr>rows = [\<lparr>sb_id = 1, sb_email = ''ann@x.org'',
     sb_eventId = None, sb_reason = None, sb_bannedBy = None, sb_createdAt = 0\<rparr>], seq = 2\<rparr>"
  by (simp_all add: stage_def register_def Let_def)

lemma stage_integrity: "integrity stage"
  using club_integrity
  by (simp add: stage_tables schema_decls event_ban_keys_def tbl_ok_def has_opt_def)

text \<open>The control plane grants a publish to an account that is banned from the whole site: only
  the gateway's own questions look at the bans.\<close>

lemma grant_ignores_bans:
  "isSiteWideBanned ''ann@x.org'' stage \<and> (case fst (handlePublishStart demo_externals ann_publish stage) of
     Granted g \<Rightarrow> pg_eventId g = Some 1 | Denied r \<Rightarrow> False)"
  by code_simp

text \<open>Nothing takes a stream off the count of its node.\<close>

lemma count_only_grows:
  "nodes (handleEnd i t d w) = nodes w"
  by (auto simp: handleEnd_def Let_def emitNodesChanged_def PublishSessionsRepository_markEnded_def sessions_set_def split: option.split)

theorem publish_grant_sound_witness:
  "\<exists>g row. fst (handlePublishStart demo_externals ann_publish stage) = Granted g
     \<and> rows (t_sessions (snd (handlePublishStart demo_externals ann_publish stage))) = [row] \<and> ps_nodeId row = Some ''a''"
proof -
  obtain g where g: "fst (handlePublishStart demo_externals ann_publish stage) = Granted g"
    using grant_ignores_bans by (auto split: publish_ack.splits)
  have "t_sessions stage = tbl_empty" by (simp add: stage_tables club_def)
  with publish_grant_sound[OF stage_integrity, of demo_externals ann_publish "Granted g"
      "snd (handlePublishStart demo_externals ann_publish stage)"] g
  show ?thesis by (auto simp: prod_eq_iff ann_publish_def)
qed

definition on_air :: world where
  "on_air = stage\<lparr>t_events := \<lparr>rows = [demo_event\<lparr>ev_strictLimits := True\<rparr>], seq = 2\<rparr>,
     t_sessions := \<lparr>rows = [(session_values ''ann@x.org'')\<lparr>ps_id := 1, ps_eventId := Some 1, ps_status := SAllowed\<rparr>], seq = 2\<rparr>\<rparr>"

definition huge_spec :: spec where
  "huge_spec = \<lparr>sp_nodeId = ''a'', sp_streamName = ''ann@x.org'', sp_width = 100000, sp_height = 2160, sp_fps = 60,
     sp_videoKbps = 6000, sp_audioBitrateKbps = 160\<rparr>"

lemma on_air_integrity: "integrity on_air"
  by (simp add: on_air_def stage_tables club_def schema_decls event_ban_keys_def tbl_ok_def has_def has_opt_def tbl_empty_def demo_event_def
      event_values_def session_values_def user_values_def)

theorem spec_verdict_witness:
  "fst (handleSpec huge_spec on_air) \<noteq> None \<and> t_streamBans (snd (handleSpec huge_spec on_air)) = t_streamBans on_air"
proof -
  have "fst (handleSpec huge_spec on_air) \<noteq> None" by code_simp
  moreover have "PublishSessionsRepository_findActiveByStream (sp_streamName huge_spec) on_air
      = Some ((session_values ''ann@x.org'')\<lparr>ps_id := 1, ps_eventId := Some 1, ps_status := SAllowed\<rparr>)"
    by (simp add: on_air_def huge_spec_def PublishSessionsRepository_findActiveByStream_def tbl_select_def session_values_def
        order_desc_def first_of_def)
  ultimately show ?thesis using spec_verdict[OF on_air_integrity, of huge_spec] by (simp add: Let_def)
qed

definition two_segments :: recording_ready where
  "two_segments = \<lparr>ry_nodeId = ''a'', ry_streamName = ''ann@x.org'', ry_eventId = Some 1, ry_sessionId = None,
     ry_segments = [\<lparr>sg_relPath = ''x/1.flv'', sg_sizeBytes = 10, sg_durationSec = 2\<rparr>,
       \<lparr>sg_relPath = ''x/2.flv'', sg_sizeBytes = 5, sg_durationSec = 1\<rparr>],
     ry_sizeBytes = 15, ry_durationSec = 3, ry_avgFps = Some 30, ry_width = Some 1280, ry_height = Some 720\<rparr>"

theorem recording_ready_idempotent_witness:
  "\<exists>w1 w2. handleRecordingReady two_segments stage = (Inr (), w1)
     \<and> handleRecordingReady two_segments (w1\<lparr>clock := 60000\<rparr>) = (Inr (), w2)
     \<and> length (rows (t_recordings w2)) = length (rows (t_recordings w1))"
proof -
  let ?r = "handleRecordingReady two_segments stage"
  have "\<not> isl (fst ?r)" by code_simp
  then have r: "?r = (Inr (), snd ?r)" by (metis outcome_ok unit_eq)
  have "tbl_ok rc_id (t_recordings stage)" "list_all (\<lambda>r. recording_norm r = r) (rows (t_recordings stage))"
    "ry_eventId two_segments \<noteq> None"
    by (simp_all add: stage_tables club_def two_segments_def)
  from recording_ready_idempotent[OF this r, of 60000] obtain w2 where
    "handleRecordingReady two_segments ((snd ?r)\<lparr>clock := 60000\<rparr>) = (Inr (), w2)"
    "map strip (rows (t_recordings w2)) = map strip (rows (t_recordings (snd ?r)))" by blast
  with r show ?thesis by (metis length_map)
qed

text \<open>Without an event there is no merge target: every repetition adds a row.\<close>

lemma ready_without_event_piles_up:
  "length (rows (t_recordings (snd (handleRecordingReady (two_segments\<lparr>ry_eventId := None\<rparr>)
     (snd (handleRecordingReady (two_segments\<lparr>ry_eventId := None\<rparr>) stage)))))) = 2"
  by code_simp

end
