(* ===== verification/NodeWs.thy ===== *)
theory NodeWs
  imports NodeHandlers
begin

text \<open>
  services/media-node-ws.ts, the WebSocket channel of the media nodes, with its route
  routes/ws/media-node.ts, and the transfer hub of services/recordings.ts that its frames feed.

  A frame is the value the protobuf decoder yields.  peer.id is unique to a connection.  The
  objects WsConn are shared between the Map conns, the Map byNode and the timers: they live in ws_objs
  under their peer id, and the two Maps hold ids.  A promise that is settled is an entry of
  ws_settled; a frame handed to a peer is an entry of ws_sent; a close that was asked for is an
  entry of ws_closing, and the close itself is an event of its own.
\<close>

section \<open>Frames\<close>

record endpoints =
  ep_publicOrigin :: string
  ep_publicRtmpPort :: int
  ep_publicProbeUdpPort :: int
  ep_publicSrsUdpPort :: int
  ep_srsFlvBase :: string

record hello =
  hl_identifier :: string
  hl_hostname :: string
  hl_version :: string
  hl_authToken :: string
  hl_endpoints :: "endpoints option"

text \<open>The optional numbers of a JudgeSpecRequest.\<close>

record judge_request =
  jq_nodeId :: string
  jq_streamName :: string
  jq_width :: "int option"
  jq_height :: "int option"
  jq_fps :: "rat option"
  jq_videoKbps :: "rat option"
  jq_audioBitrateKbps :: "rat option"

datatype rpc_request =
    QAuthorizePublish publish_start
  | QJudgeSpec judge_request
  | QAuthSalt string
  | QAuthVerify verify_body
  | QAuthPolicy string string
  | QWhepRelay string string
  | QRecordingPull string string

record authorize_response =
  ar_allow :: bool
  ar_reason :: string
  ar_sessionId :: int
  ar_eventId :: "int option"
  ar_eventKey :: string
  ar_limits :: "limits option"
  ar_record :: bool
  ar_strict :: bool
  ar_measured :: bool

datatype rpc_response =
    AAuthorizePublish authorize_response
  | AJudgeSpec bool string
  | AAuthSalt string bool
  | AAuthVerify bool bool
  | AAuthPolicy rtmp_policy_view
  | AWhepRelay string string
  | ARecordingPull bool
  | AError string

datatype in_frame =
    Undecodable
  | NoKind
  | FHello hello
  | FHeartbeat int
  | FRpcRequest int "rpc_request option"
  | FRpcResponse nat "rpc_response option"
  | FPublishMetrics int metrics
  | FPublishViolation int "string list" "metrics option"
  | FPublishEnded int int int
  | FRecordingReady recording_ready
  | FRecordingChunk string string
  | FRecordingStreamEnd string string
  | FOutboundOnly
  | FAck

datatype out_frame =
    OHelloAck string
  | OLimitsConfig limits
  | OHeartbeatAck int
  | ORpcRequest nat rpc_request
  | ORpcResponse int rpc_response
  | OKickStream string string
  | ORecordingCancel string
  | ORecordingDelete "string list"


section \<open>The state of the channel\<close>

text \<open>cn_helloTimer is the time the hello timer fires while it runs, cn_pending the calls that
  wait for an answer with the time each gives up.\<close>

record ws_conn =
  cn_nodeId :: "string option"
  cn_idleAt :: int
  cn_helloTimer :: "int option"
  cn_pending :: "(nat, int) jsmap"

text \<open>A transfer in progress: the node, the call that started it, the chunks and the last activity.\<close>

record rec_pull =
  rp_nodeId :: string
  rp_seq :: "nat option"
  rp_chunks :: "string list"
  rp_lastActivity :: int

record ws_server = world +
  ws_objs :: "(string, ws_conn) jsmap"
  ws_conns :: "string list"
  ws_byNode :: "(string, string) jsmap"
  ws_nextSeq :: nat
  ws_sent :: "(string \<times> out_frame) list"
  ws_closing :: "(string \<times> int) list"
  ws_settled :: "(nat \<times> (error + rpc_response)) list"
  ws_late :: "string list"
  ws_pulls :: "(string, rec_pull) jsmap"
  ws_pulled :: "(string \<times> (error + string)) list"

definition enqueue :: "string \<Rightarrow> out_frame \<Rightarrow> ws_server \<Rightarrow> ws_server" where
  "enqueue p f s = s\<lparr>ws_sent := ws_sent s @ [(p, f)]\<rparr>"

definition peer_close :: "string \<Rightarrow> int \<Rightarrow> ws_server \<Rightarrow> ws_server" where
  "peer_close p code s = s\<lparr>ws_closing := ws_closing s @ [(p, code)]\<rparr>"

definition ws_conn_of :: "string \<Rightarrow> ws_server \<Rightarrow> ws_conn option" where
  "ws_conn_of p s = (if p \<in> set (ws_conns s) then map_get p (ws_objs s) else None)"

definition put_conn :: "string \<Rightarrow> ws_conn \<Rightarrow> ws_server \<Rightarrow> ws_server" where
  "put_conn p c s = s\<lparr>ws_objs := map_put p c (ws_objs s)\<rparr>"

definition touchIdle :: "string \<Rightarrow> ws_conn \<Rightarrow> ws_server \<Rightarrow> ws_server" where
  "touchIdle p c s = put_conn p (c\<lparr>cn_idleAt := clock s + 90000\<rparr>) s"


section \<open>The transfer hub of recordings.ts\<close>

text \<open>finish: the first call settles the transfer and takes it out of pendingPulls.\<close>

definition pull_finish :: "string \<Rightarrow> error option \<Rightarrow> ws_server \<Rightarrow> ws_server" where
  "pull_finish reqId err s =
     (case map_get reqId (ws_pulls s) of
        None \<Rightarrow> s
      | Some r \<Rightarrow> s\<lparr>ws_pulls := map_del reqId (ws_pulls s),
          ws_pulled := ws_pulled s @ [(reqId, case err of Some e \<Rightarrow> Inl e | None \<Rightarrow> Inr (concat (rp_chunks r)))]\<rparr>)"

definition dispatchRecChunk :: "string \<Rightarrow> string \<Rightarrow> ws_server \<Rightarrow> ws_server" where
  "dispatchRecChunk reqId data s =
     (case map_get reqId (ws_pulls s) of
        None \<Rightarrow> s
      | Some r \<Rightarrow> s\<lparr>ws_pulls := map_put reqId (r\<lparr>rp_lastActivity := clock s, rp_chunks := rp_chunks r @ [data]\<rparr>) (ws_pulls s)\<rparr>)"

definition dispatchRecEnd :: "string \<Rightarrow> string \<Rightarrow> ws_server \<Rightarrow> ws_server" where
  "dispatchRecEnd reqId err s = pull_finish reqId (if err = [] then None else Some (JsError (''node: '' @ err))) s"

text \<open>What wsRpcRecordingPull makes of the answer, and the catch of its caller: only a rejected
  call ends the transfer.\<close>

fun pull_answer :: "error + rpc_response \<Rightarrow> error + bool" where
  "pull_answer (Inl e) = Inl e"
| "pull_answer (Inr (AError m)) = Inl (JsError (''node: '' @ m))"
| "pull_answer (Inr (ARecordingPull started)) = Inr started"
| "pull_answer (Inr _) = Inl (JsError ''unexpected rpc response'')"

definition pull_of_call :: "nat \<Rightarrow> ws_server \<Rightarrow> string option" where
  "pull_of_call q s = map_option fst (find (\<lambda>(i, r). rp_seq r = Some q) (ws_pulls s))"

definition settle :: "nat \<Rightarrow> error + rpc_response \<Rightarrow> ws_server \<Rightarrow> ws_server" where
  "settle q r s =
     (let s1 = s\<lparr>ws_settled := ws_settled s @ [(q, r)]\<rparr> in
      case (pull_of_call q s1, pull_answer r) of
        (Some reqId, Inl e) \<Rightarrow> pull_finish reqId (Some e) s1
      | _ \<Rightarrow> s1)"


section \<open>Calls to a node\<close>

definition rpcCall :: "string \<Rightarrow> rpc_request \<Rightarrow> int \<Rightarrow> ws_server \<Rightarrow> nat \<times> ws_server" where
  "rpcCall p body ms s =
     (let q = ws_nextSeq s; s1 = s\<lparr>ws_nextSeq := q + 1\<rparr>;
          s2 = (case map_get p (ws_objs s1) of
                  None \<Rightarrow> s1
                | Some c \<Rightarrow> put_conn p (c\<lparr>cn_pending := map_put q (clock s1 + ms) (cn_pending c)\<rparr>) s1)
      in (q, enqueue p (ORpcRequest q body) s2))"

definition rpc_timeout :: "string \<Rightarrow> nat \<Rightarrow> ws_server \<Rightarrow> ws_server" where
  "rpc_timeout p q s =
     (case map_get p (ws_objs s) of
        None \<Rightarrow> s
      | Some c \<Rightarrow>
          (case map_get q (cn_pending c) of
             None \<Rightarrow> s
           | Some t \<Rightarrow> if clock s < t then s
               else settle q (Inl (JsError ''node rpc timeout'')) (put_conn p (c\<lparr>cn_pending := map_del q (cn_pending c)\<rparr>) s)))"

definition dropPending :: "string \<Rightarrow> error \<Rightarrow> ws_server \<Rightarrow> ws_server" where
  "dropPending p err s =
     (case map_get p (ws_objs s) of
        None \<Rightarrow> s
      | Some c \<Rightarrow> fold (\<lambda>q. settle q (Inl err)) (map fst (cn_pending c)) (put_conn p (c\<lparr>cn_pending := []\<rparr>) s))"

definition wsConnected :: "string \<Rightarrow> ws_server \<Rightarrow> bool" where
  "wsConnected n s = (map_get n (ws_byNode s) \<noteq> None)"

definition node_call :: "string \<Rightarrow> rpc_request \<Rightarrow> int \<Rightarrow> ws_server \<Rightarrow> (nat, ws_server) outcome" where
  "node_call n body ms s =
     (case map_get n (ws_byNode s) of
        None \<Rightarrow> (Inl (JsError ''not connected via websocket''), s)
      | Some p \<Rightarrow> let (q, s1) = rpcCall p body ms s in (Inr q, s1))"

definition wsRpcWhepRelay :: "string \<Rightarrow> string \<Rightarrow> string \<Rightarrow> ws_server \<Rightarrow> (nat, ws_server) outcome" where
  "wsRpcWhepRelay n streamName offerSdp s = node_call n (QWhepRelay streamName offerSdp) 8000 s"

fun whep_answer :: "error + rpc_response \<Rightarrow> error + string" where
  "whep_answer (Inl e) = Inl e"
| "whep_answer (Inr (AError m)) = Inl (JsError (''node: '' @ m))"
| "whep_answer (Inr (AWhepRelay answer err)) =
     (if err \<noteq> [] then Inl (JsError (''node SRS: '' @ err))
      else if answer = [] then Inl (JsError ''node returned an empty WHEP answer'') else Inr answer)"
| "whep_answer (Inr _) = Inl (JsError ''unexpected rpc response'')"

definition wsRpcRecordingPull :: "string \<Rightarrow> string \<Rightarrow> string \<Rightarrow> ws_server \<Rightarrow> (nat, ws_server) outcome" where
  "wsRpcRecordingPull n reqId relPath s = node_call n (QRecordingPull reqId relPath) 3000 s"

definition wsSendKind :: "string \<Rightarrow> out_frame \<Rightarrow> ws_server \<Rightarrow> bool \<times> ws_server" where
  "wsSendKind n f s = (case map_get n (ws_byNode s) of None \<Rightarrow> (False, s) | Some p \<Rightarrow> (True, enqueue p f s))"

definition kickStream :: "string \<Rightarrow> string \<Rightarrow> string \<Rightarrow> ws_server \<Rightarrow> bool \<times> ws_server" where
  "kickStream n streamName reason s = wsSendKind n (OKickStream streamName reason) s"

definition cancelRecordingPull :: "string \<Rightarrow> string \<Rightarrow> ws_server \<Rightarrow> ws_server" where
  "cancelRecordingPull n reqId s = snd (wsSendKind n (ORecordingCancel reqId) s)"

definition sendRecordingDelete :: "string \<Rightarrow> string list \<Rightarrow> ws_server \<Rightarrow> bool \<times> ws_server" where
  "sendRecordingDelete n relPaths s = wsSendKind n (ORecordingDelete relPaths) s"

text \<open>One round of the loop of materializeRemoteSegments: register the handlers, start the call;
  and the watchdog of the round.\<close>

definition pull_start :: "string \<Rightarrow> string \<Rightarrow> string \<Rightarrow> ws_server \<Rightarrow> ws_server" where
  "pull_start n reqId safe s =
     (let r = \<lparr>rp_nodeId = n, rp_seq = None, rp_chunks = [], rp_lastActivity = clock s\<rparr>;
          s1 = s\<lparr>ws_pulls := map_put reqId r (ws_pulls s)\<rparr>
      in case wsRpcRecordingPull n reqId safe s1 of
           (Inl e, s2) \<Rightarrow> pull_finish reqId (Some e) s2
         | (Inr q, s2) \<Rightarrow> s2\<lparr>ws_pulls := map_put reqId (r\<lparr>rp_seq := Some q\<rparr>) (ws_pulls s2)\<rparr>)"

definition pull_watchdog :: "string \<Rightarrow> ws_server \<Rightarrow> ws_server" where
  "pull_watchdog reqId s =
     (case map_get reqId (ws_pulls s) of
        None \<Rightarrow> s
      | Some r \<Rightarrow> if 30000 < clock s - rp_lastActivity r
          then pull_finish reqId (Some (JsError ''node file transfer stalled'')) (cancelRecordingPull (rp_nodeId r) reqId s)
          else s)"


section \<open>Connections\<close>

definition onWsOpen :: "string \<Rightarrow> ws_server \<Rightarrow> ws_server" where
  "onWsOpen p s = s\<lparr>ws_objs := map_put p \<lparr>cn_nodeId = None, cn_idleAt = clock s + 90000,
       cn_helloTimer = Some (clock s + 10000), cn_pending = []\<rparr> (ws_objs s), ws_conns := ws_conns s @ [p]\<rparr>"

definition idle_timeout :: "string \<Rightarrow> ws_server \<Rightarrow> ws_server" where
  "idle_timeout p s = (case ws_conn_of p s of None \<Rightarrow> s | Some c \<Rightarrow> if clock s < cn_idleAt c then s else peer_close p 4004 s)"

definition hello_timeout :: "string \<Rightarrow> ws_server \<Rightarrow> ws_server" where
  "hello_timeout p s =
     (case ws_conn_of p s of
        None \<Rightarrow> s
      | Some c \<Rightarrow> (case cn_helloTimer c of None \<Rightarrow> s
          | Some t \<Rightarrow> if clock s < t then s else peer_close p 4002 (put_conn p (c\<lparr>cn_helloTimer := None\<rparr>) s)))"

definition named :: "string option \<Rightarrow> bool" where
  "named n \<longleftrightarrow> (case n of None \<Rightarrow> False | Some i \<Rightarrow> i \<noteq> [])"

definition onWsClose :: "string \<Rightarrow> ws_server \<Rightarrow> ws_server" where
  "onWsClose p s =
     (case ws_conn_of p s of
        None \<Rightarrow> s
      | Some c \<Rightarrow>
          let s1 = put_conn p (c\<lparr>cn_helloTimer := None\<rparr>) (s\<lparr>ws_conns := filter (\<lambda>q. q \<noteq> p) (ws_conns s)\<rparr>);
              s2 = dropPending p (JsError ''node websocket closed'') s1
          in (case cn_nodeId c of
                Some n \<Rightarrow> if n \<noteq> [] \<and> map_get n (ws_byNode s2) = Some p
                  then s2\<lparr>ws_byNode := map_del n (ws_byNode s2), ws_late := ws_late s2 @ [p]\<rparr> else s2
              | None \<Rightarrow> s2))"

text \<open>The deferred part of the close, after the imports have loaded.\<close>

definition late_disconnect :: "ws_server \<Rightarrow> ws_server" where
  "late_disconnect s =
     (case ws_late s of
        [] \<Rightarrow> s
      | p # ps \<Rightarrow> emitNodesChanged (snd (disconnect p (s\<lparr>ws_late := ps\<rparr>))))"

definition tokenOk :: "externals \<Rightarrow> string \<Rightarrow> bool" where
  "tokenOk x token \<longleftrightarrow> e_mediaNodeAuthToken x = [] \<or> x_sha256 x token = x_sha256 x (e_mediaNodeAuthToken x)"

definition nonzero :: "int \<Rightarrow> int option" where
  "nonzero i = (if i = 0 then None else Some i)"

definition nonempty :: "string \<Rightarrow> string option" where
  "nonempty t = (if t = [] then None else Some t)"

definition hello_info :: "hello \<Rightarrow> register_info" where
  "hello_info h = (let e = hl_endpoints h in
     \<lparr>ri_identifier = (if hl_identifier h \<noteq> [] then hl_identifier h else hl_hostname h), ri_hostname = hl_hostname h,
      ri_version = hl_version h, ri_srsFlvBase = Option.bind e (nonempty \<circ> ep_srsFlvBase),
      ri_publicOrigin = Option.bind e (nonempty \<circ> ep_publicOrigin),
      ri_publicRtmpPort = Option.bind e (nonzero \<circ> ep_publicRtmpPort),
      ri_publicProbeUdpPort = Option.bind e (nonzero \<circ> ep_publicProbeUdpPort),
      ri_publicSrsUdpPort = Option.bind e (nonzero \<circ> ep_publicSrsUdpPort)\<rparr>)"

definition on_hello :: "externals \<Rightarrow> string \<Rightarrow> ws_conn \<Rightarrow> hello \<Rightarrow> ws_server \<Rightarrow> ws_server" where
  "on_hello x p c h s =
     (if named (cn_nodeId c) then s
      else if \<not> tokenOk x (hl_authToken h) then peer_close p 4001 s
      else let ((n, limits), s1) = handleRegister p (hello_info h) s;
               s2 = put_conn p (c\<lparr>cn_nodeId := Some n, cn_helloTimer := None\<rparr>) s1;
               s3 = (case map_get n (ws_byNode s2) of
                       Some q \<Rightarrow> if q \<noteq> p then peer_close q 4000 s2 else s2
                     | None \<Rightarrow> s2)
           in enqueue p (OLimitsConfig limits) (enqueue p (OHelloAck n)
                (s3\<lparr>ws_byNode := map_put n p (ws_byNode s3)\<rparr>)))"


section \<open>Requests and events of a node\<close>

definition authorize_answer :: "publish_ack \<Rightarrow> rpc_response" where
  "authorize_answer a = AAuthorizePublish (case a of
     Granted g \<Rightarrow> \<lparr>ar_allow = True, ar_reason = [], ar_sessionId = pg_sessionId g, ar_eventId = pg_eventId g,
       ar_eventKey = pg_eventKey g, ar_limits = Some (pg_limits g), ar_record = pg_record g, ar_strict = pg_strict g,
       ar_measured = pg_measured g\<rparr>
   | Denied reason \<Rightarrow> \<lparr>ar_allow = False, ar_reason = reason, ar_sessionId = 0, ar_eventId = None,
       ar_eventKey = [], ar_limits = None, ar_record = False, ar_strict = False, ar_measured = False\<rparr>)"

definition judge_spec :: "judge_request \<Rightarrow> spec" where
  "judge_spec v = \<lparr>sp_nodeId = jq_nodeId v, sp_streamName = jq_streamName v, sp_width = orDefault (jq_width v) 0,
     sp_height = orDefault (jq_height v) 0, sp_fps = orDefault (jq_fps v) 0,
     sp_videoKbps = orDefault (jq_videoKbps v) 0, sp_audioBitrateKbps = orDefault (jq_audioBitrateKbps v) 0\<rparr>"

text \<open>The node id of the connection is passed on for the audit trail; nothing asks whether
  there is one.\<close>

fun handleRpcRequest :: "externals \<Rightarrow> string option \<Rightarrow> rpc_request option \<Rightarrow> 'z world_scheme \<Rightarrow> (rpc_response, 'z world_scheme) outcome" where
  "handleRpcRequest x nodeId None w = (Inr (AError ''empty rpc body''), w)"
| "handleRpcRequest x nodeId (Some (QAuthorizePublish p)) w =
     (let (a, w1) = handlePublishStart x p w in (Inr (authorize_answer a), w1))"
| "handleRpcRequest x nodeId (Some (QJudgeSpec v)) w =
     (let (r, w1) = handleSpec (judge_spec v) w in
      (Inr (AJudgeSpec (r = None) (case r of None \<Rightarrow> [] | Some t \<Rightarrow> t)), w1))"
| "handleRpcRequest x nodeId (Some (QAuthSalt email)) w =
     (let ((salt, banned), w1) = handleAuthSalt email w in (Inr (AAuthSalt salt banned), w1))"
| "handleRpcRequest x nodeId (Some (QAuthVerify v)) w =
     andThen (handleAuthVerify x nodeId v w) (\<lambda>(allow, known) w1. (Inr (AAuthVerify allow known), w1))"
| "handleRpcRequest x nodeId (Some (QAuthPolicy token stream)) w =
     (Inr (AAuthPolicy (handleAuthPolicy token stream w)), w)"
| "handleRpcRequest x nodeId (Some (QWhepRelay _ _)) w = (Inr (AError ''unsupported rpc: whepRelay''), w)"
| "handleRpcRequest x nodeId (Some (QRecordingPull _ _)) w = (Inr (AError ''unsupported rpc: recordingPull''), w)"

text \<open>A request whose handler throws is never answered.\<close>

definition on_rpc_request :: "externals \<Rightarrow> string \<Rightarrow> ws_conn \<Rightarrow> int \<Rightarrow> rpc_request option \<Rightarrow> ws_server \<Rightarrow> ws_server" where
  "on_rpc_request x p c q body s =
     (case handleRpcRequest x (cn_nodeId c) body s of
        (Inr r, s1) \<Rightarrow> enqueue p (ORpcResponse q r) s1
      | (Inl e, s1) \<Rightarrow> s1)"

definition on_rpc_response :: "string \<Rightarrow> ws_conn \<Rightarrow> nat \<Rightarrow> rpc_response option \<Rightarrow> ws_server \<Rightarrow> ws_server" where
  "on_rpc_response p c q body s =
     (case map_get q (cn_pending c) of
        None \<Rightarrow> s
      | Some t \<Rightarrow>
          settle q (case body of
              Some (AError m) \<Rightarrow> Inl (JsError m)
            | Some b \<Rightarrow> Inr b
            | None \<Rightarrow> Inr (AError ''empty response''))
            (put_conn p (c\<lparr>cn_pending := map_del q (cn_pending c)\<rparr>) s))"

fun handleEventIn :: "in_frame \<Rightarrow> ws_server \<Rightarrow> (unit, ws_server) outcome" where
  "handleEventIn (FPublishMetrics i m) s = (Inr (), handleMetrics i m s)"
| "handleEventIn (FPublishViolation i reasons m) s = (Inr (), handleViolation i reasons m s)"
| "handleEventIn (FPublishEnded i endedAt dur) s = (Inr (), handleEnd i endedAt dur s)"
| "handleEventIn (FRecordingReady r) s = handleRecordingReady r s"
| "handleEventIn (FRecordingChunk reqId data) s = (Inr (), dispatchRecChunk reqId data s)"
| "handleEventIn (FRecordingStreamEnd reqId err) s = (Inr (), dispatchRecEnd reqId err s)"
| "handleEventIn _ s = (Inr (), s)"

fun ws_dispatch :: "externals \<Rightarrow> string \<Rightarrow> ws_conn \<Rightarrow> in_frame \<Rightarrow> ws_server \<Rightarrow> (unit, ws_server) outcome" where
  "ws_dispatch x p c Undecodable s = (Inr (), peer_close p 4003 s)"
| "ws_dispatch x p c NoKind s = (Inr (), s)"
| "ws_dispatch x p c (FHello h) s = (Inr (), on_hello x p c h s)"
| "ws_dispatch x p c (FHeartbeat t) s = (Inr (), enqueue p (OHeartbeatAck t) s)"
| "ws_dispatch x p c (FRpcRequest q body) s = (Inr (), on_rpc_request x p c q body s)"
| "ws_dispatch x p c (FRpcResponse q body) s = (Inr (), on_rpc_response p c q body s)"
| "ws_dispatch x p c FOutboundOnly s = (Inr (), s)"
| "ws_dispatch x p c FAck s = (Inr (), s)"
| "ws_dispatch x p c f s = handleEventIn f s"

definition onWsMessage :: "externals \<Rightarrow> string \<Rightarrow> in_frame \<Rightarrow> ws_server \<Rightarrow> (unit, ws_server) outcome" where
  "onWsMessage x p f s =
     (case ws_conn_of p s of
        None \<Rightarrow> (Inr (), s)
      | Some c \<Rightarrow> ws_dispatch x p (c\<lparr>cn_idleAt := clock s + 90000\<rparr>) f (touchIdle p c s))"

text \<open>The message hook of the route: an exception closes the connection.\<close>

definition wsRoute_message :: "externals \<Rightarrow> string \<Rightarrow> in_frame \<Rightarrow> ws_server \<Rightarrow> ws_server" where
  "wsRoute_message x p f s =
     (case onWsMessage x p f s of (Inr _, s1) \<Rightarrow> s1 | (Inl e, s1) \<Rightarrow> peer_close p 1011 s1)"

end
