(* ===== verification/NodeWsRun.thy ===== *)
theory NodeWsRun
  imports NodeWs
begin

text \<open>
  Every history of the node channel: connections open, speak, fall silent and close, timers
  fire, calls go out and are answered, and the rest of the server works in between.
\<close>

section \<open>What the rest of the server leaves alone\<close>

text \<open>The registry up to stream counts and addresses, and the state of the channel.\<close>

definition node_socket :: "string \<Rightarrow> 'z world_scheme \<Rightarrow> string option" where
  "node_socket n w = map_option nd_socketId (map_get n (nodes w))"

definition conn_same :: "'z world_scheme \<Rightarrow> 'z world_scheme \<Rightarrow> bool" where
  "conn_same w w' \<longleftrightarrow> world.more w' = world.more w \<and> socketToNode w' = socketToNode w
     \<and> (\<forall>n. node_socket n w' = node_socket n w)"

lemma conn_same_refl [simp]: "conn_same w w"
  by (simp add: conn_same_def)

lemma conn_same_trans: "conn_same a b \<Longrightarrow> conn_same b c \<Longrightarrow> conn_same a c"
  by (simp add: conn_same_def)

lemma conn_same_core: "core.more w' = core.more w \<Longrightarrow> conn_same w w'" for w :: "'a world_scheme"
  by (cases w; cases w') (simp add: conn_same_def node_socket_def)

lemma conn_same_ws:
  assumes "conn_same s s'"
  shows "ws_objs s' = ws_objs s" "ws_conns s' = ws_conns s" "ws_byNode s' = ws_byNode s" "ws_nextSeq s' = ws_nextSeq s"
    "ws_sent s' = ws_sent s" "ws_closing s' = ws_closing s" "ws_settled s' = ws_settled s" "ws_late s' = ws_late s"
    "ws_pulls s' = ws_pulls s" "ws_pulled s' = ws_pulled s" "socketToNode s' = socketToNode s" "node_socket n s' = node_socket n s"
  using assms by (cases s; cases s'; simp add: conn_same_def)+

lemma audit_more [simp]: "core.more (audit l c m v w) = core.more w"
  by (simp add: audit_def emit_def AuditLogRepository_insert_def Let_def case_prod_unfold)

lemma emit_more [simp]: "core.more (emit e w) = core.more w"
  by (simp add: emit_def)

lemma session_writes_more [simp]:
  "core.more (PublishSessionsRepository_updateStatus i st r e w) = core.more w"
  "core.more (PublishSessionsRepository_markEnded i st t w) = core.more w"
  "core.more (update_metrics i m w) = core.more w"
  "core.more (snd (PublishSessionsRepository_insert v w)) = core.more w"
  by (simp_all add: PublishSessionsRepository_updateStatus_def PublishSessionsRepository_markEnded_def update_metrics_def
      PublishSessionsRepository_updateMetrics_def sessions_set_def PublishSessionsRepository_insert_def Let_def case_prod_unfold)

lemma config_same [simp]: "conn_same w (snd (getConfig w))"
  by (cases w) (auto simp: conn_same_def getConfig_def node_socket_def Let_def split: option.splits)

lemma adjust_same [simp]: "conn_same w (adjustStreamCount i k w)"
  by (cases w) (auto simp: conn_same_def adjustStreamCount_def node_socket_def map_get_put split: option.splits)

lemma emitNodes_same [simp]: "conn_same w (emitNodesChanged w)"
  by (rule conn_same_core) (simp add: emitNodesChanged_def)

lemma handleMetrics_same: "conn_same w (handleMetrics i m w)"
  by (rule conn_same_core) (simp add: handleMetrics_def Let_def split: option.split)

lemma handleViolation_same: "conn_same w (handleViolation i rs m w)"
  by (rule conn_same_core) (simp add: handleViolation_def Let_def split: option.split)

lemma handleEnd_same: "conn_same w (handleEnd i t k w)"
  by (rule conn_same_core) (simp add: handleEnd_def Let_def emitNodesChanged_def split: option.split)

lemma handleRecordingReady_same: "conn_same w (snd (handleRecordingReady p w))"
  by (rule conn_same_core) (auto simp: handleRecordingReady_def RecordingsRepository_insert_def RecordingsRepository_update_def
      Let_def andThen_def split: option.splits prod.splits sum.splits if_splits)

lemma handleAuthSalt_same: "conn_same w (snd (handleAuthSalt e w))"
  by (rule conn_same_core) (auto simp: handleAuthSalt_def randomSalt_def uuid_hex_def randomBytes_def Let_def split: prod.splits)

lemma handleAuthVerify_same: "conn_same w (snd (handleAuthVerify x n v w))"
  by (rule conn_same_core) (simp add: handleAuthVerify_def Let_def split: sum.split)

lemma handleSpec_same: "conn_same w (snd (handleSpec s w))"
proof -
  have lim: "conn_same v (snd (getLimitsFor ev v))" for ev and v :: "'a world_scheme"
    by (simp add: getLimitsFor_def Let_def case_prod_unfold)
  have more: "conn_same v w'" if "conn_same v u" "core.more w' = core.more u" for u w' v :: "'a world_scheme"
    using that conn_same_trans conn_same_core by blast
  define row where "row = PublishSessionsRepository_findById
      (case PublishSessionsRepository_findActiveByStream (sp_streamName s) w of None \<Rightarrow> -1 | Some r \<Rightarrow> ps_id r) w"
  show ?thesis
  proof (cases row)
    case None
    then show ?thesis by (simp add: handleSpec_def row_def)
  next
    case (Some r)
    define w1 where "w1 = emit (SessionMetric (snapshotFromRow r None (spec_metrics r s) None))
        (update_metrics (ps_id r) (spec_metrics r s) w)"
    define ev where "ev = session_event r w1"
    have "conn_same w (snd (getLimitsFor ev w1))"
      by (rule conn_same_trans[OF conn_same_core lim]) (simp add: w1_def)
    then show ?thesis
      using Some
      by (auto simp: handleSpec_def row_def[symmetric] Let_def case_prod_unfold w1_def[symmetric] session_event_def[symmetric]
          ev_def[symmetric] intro: more)
  qed
qed

lemma grant_same: "conn_same w (snd (grant_publish p ev key w))"
proof -
  define w1 where "w1 = snd (getLimitsFor (if ev = 0 then None else EventsRepository_findById ev w) w)"
  define w2 where "w2 = snd (getConfig w1)"
  define w3 where "w3 = snd (PublishSessionsRepository_insert (granted_session p ev key (clock w2)) w2)"
  have "conn_same w w1" by (simp add: w1_def getLimitsFor_def Let_def case_prod_unfold)
  moreover have "conn_same w1 w2" by (simp add: w2_def)
  moreover have "conn_same w2 w3" by (rule conn_same_core) (simp add: w3_def)
  ultimately have w3: "conn_same w w3" by (blast intro: conn_same_trans)
  have "conn_same w3 (publish_started p ev row w3)" for row
    by (rule conn_same_trans[OF adjust_same conn_same_core])
       (simp add: publish_started_def Let_def emitNodesChanged_def)
  then have started: "conn_same w (publish_started p ev row w3)" for row using w3 conn_same_trans by blast
  have "snd (grant_publish p ev key w) = w3 \<or> (\<exists>row. snd (grant_publish p ev key w) = publish_started p ev row w3)"
    unfolding grant_publish_def Let_def case_prod_unfold w1_def[symmetric] w2_def[symmetric] w3_def[symmetric]
    by (auto split: sum.split)
  with w3 started show ?thesis by auto
qed

lemma handlePublishStart_same: "conn_same w (snd (handlePublishStart x p w))"
proof -
  let ?a = "authorizePublish x (pp_streamName p) (''?token='' @ pp_token p) w"
  obtain r w1 where a: "?a = (r, w1)" by fastforce
  have w1: "conn_same w w1" by (rule conn_same_core) (metis a authorize_more snd_conv)
  then have "conn_same w (audit l c m v w1)" for l c m v
    by (rule conn_same_trans) (simp add: conn_same_core)
  moreover have "conn_same w (snd (grant_publish p ev key w1))" for ev key
    by (rule conn_same_trans[OF w1 grant_same])
  ultimately show ?thesis
    unfolding handlePublishStart_def a by (auto split: auth_result.split option.split)
qed

lemma handleRpcRequest_same: "conn_same w (snd (handleRpcRequest x n body w))"
  using handlePublishStart_same handleSpec_same handleAuthSalt_same handleAuthVerify_same
  by (cases "(x, n, body, w)" rule: handleRpcRequest.cases) (auto simp: case_prod_unfold Let_def andThen_def split: sum.splits prod.splits)


section \<open>Histories\<close>

datatype ws_event =
    EOpen string
  | EMessage string in_frame
  | EClose string
  | EIdleTimer string
  | EHelloTimer string
  | ERpcTimer string nat
  | ELate
  | EWhep string string string
  | EPull string string string
  | EWatchdog string
  | EKick string string string
  | EDelete string "string list"
  | EClock int

text \<open>A connection id and a transfer id are used once: the runtime makes the first, the second
  is random.\<close>

fun ws_exec :: "externals \<Rightarrow> ws_event \<Rightarrow> ws_server \<Rightarrow> ws_server" where
  "ws_exec x (EOpen p) s = (if map_get p (ws_objs s) = None then onWsOpen p s else s)"
| "ws_exec x (EMessage p f) s = wsRoute_message x p f s"
| "ws_exec x (EClose p) s = onWsClose p s"
| "ws_exec x (EIdleTimer p) s = idle_timeout p s"
| "ws_exec x (EHelloTimer p) s = hello_timeout p s"
| "ws_exec x (ERpcTimer p q) s = rpc_timeout p q s"
| "ws_exec x ELate s = late_disconnect s"
| "ws_exec x (EWhep n stream offer) s = snd (wsRpcWhepRelay n stream offer s)"
| "ws_exec x (EPull n i path) s =
     (if map_get i (ws_pulls s) = None \<and> i \<notin> fst ` set (ws_pulled s) then pull_start n i path s else s)"
| "ws_exec x (EWatchdog i) s = pull_watchdog i s"
| "ws_exec x (EKick n stream reason) s = snd (kickStream n stream reason s)"
| "ws_exec x (EDelete n paths) s = snd (sendRecordingDelete n paths s)"
| "ws_exec x (EClock t) s = s\<lparr>clock := t\<rparr>"

definition ws_boot :: "world \<Rightarrow> ws_server" where
  "ws_boot w = world.extend w (ws_server.fields [] [] [] 1 [] [] [] [] [] [])"

inductive ws_run :: "externals \<Rightarrow> ws_event list \<Rightarrow> ws_server \<Rightarrow> bool" for x where
  run_boot: "nodes w = [] \<Longrightarrow> socketToNode w = [] \<Longrightarrow> ws_run x [] (ws_boot w)"
| run_event: "ws_run x es s \<Longrightarrow> ws_run x (es @ [e]) (ws_exec x e s)"
| run_other: "ws_run x es s \<Longrightarrow> conn_same s s' \<Longrightarrow> ws_run x es s'"


section \<open>Frames of the operations\<close>

text \<open>The part of the state that routing is about: the registry, the Maps, the names of the
  connections, and who is waiting to be disconnected.\<close>

definition conn_name :: "string \<Rightarrow> ws_server \<Rightarrow> string option" where
  "conn_name p s = Option.bind (map_get p (ws_objs s)) cn_nodeId"

lemma view_updates [simp]:
  "node_socket n (s\<lparr>ws_late := l\<rparr>) = node_socket n s" "node_socket n (s\<lparr>ws_conns := cs\<rparr>) = node_socket n s"
  "node_socket n (s\<lparr>ws_byNode := b\<rparr>) = node_socket n s" "node_socket n (s\<lparr>ws_objs := u\<rparr>) = node_socket n s"
  "conn_name p (s\<lparr>ws_late := l\<rparr>) = conn_name p s" "conn_name p (s\<lparr>ws_conns := cs\<rparr>) = conn_name p s"
  "conn_name p (s\<lparr>ws_byNode := b\<rparr>) = conn_name p s"
  by (simp_all add: node_socket_def conn_name_def)

definition route_same :: "ws_server \<Rightarrow> ws_server \<Rightarrow> bool" where
  "route_same s s' \<longleftrightarrow> ws_conns s' = ws_conns s \<and> ws_byNode s' = ws_byNode s \<and> ws_late s' = ws_late s
     \<and> socketToNode s' = socketToNode s \<and> (\<forall>n. node_socket n s' = node_socket n s)
     \<and> (\<forall>p. conn_name p s' = conn_name p s) \<and> fst ` set (ws_objs s') = fst ` set (ws_objs s)"

lemma route_same_refl [simp]: "route_same s s"
  by (simp add: route_same_def)

lemma route_same_trans: "route_same a b \<Longrightarrow> route_same b c \<Longrightarrow> route_same a c"
  by (simp add: route_same_def)


lemma route_same_simps [simp]:
  "route_same s (enqueue p f s)" "route_same s (peer_close p k s)" "route_same s (s\<lparr>ws_settled := l\<rparr>)"
  "route_same s (s\<lparr>ws_pulls := u\<rparr>)" "route_same s (s\<lparr>ws_nextSeq := q\<rparr>)" "route_same s (s\<lparr>clock := t\<rparr>)"
  by (simp_all add: route_same_def enqueue_def peer_close_def conn_name_def node_socket_def)

lemma put_conn_same: "map_get p (ws_objs s) = Some c \<Longrightarrow> cn_nodeId c' = cn_nodeId c \<Longrightarrow> route_same s (put_conn p c' s)"
  using map_get_None[of p "ws_objs s"]
  by (simp add: route_same_def put_conn_def conn_name_def node_socket_def map_get_put map_put_keys insert_absorb)

lemma pull_finish_same [simp]: "route_same s (pull_finish i e s)"
  by (auto simp: pull_finish_def route_same_def conn_name_def node_socket_def split: option.split)

lemma settle_same [simp]: "route_same s (settle q r s)"
  by (auto simp: settle_def Let_def intro: route_same_trans[OF route_same_simps(3) pull_finish_same] split: option.split sum.split)


lemma rpcCall_same [simp]: "route_same s (snd (rpcCall p b t s))"
proof -
  let ?s1 = "s\<lparr>ws_nextSeq := ws_nextSeq s + 1\<rparr>"
  show ?thesis
  proof (cases "map_get p (ws_objs s)")
    case None
    then show ?thesis by (simp add: rpcCall_def Let_def route_same_def enqueue_def conn_name_def node_socket_def)
  next
    case (Some c)
    then have "route_same ?s1 (put_conn p (c\<lparr>cn_pending := m\<rparr>) ?s1)" for m by (intro put_conn_same) simp_all
    then have "route_same s (enqueue p f (put_conn p (c\<lparr>cn_pending := m\<rparr>) ?s1))" for m f
      by (blast intro: route_same_trans route_same_simps)
    with Some show ?thesis by (simp add: rpcCall_def Let_def)
  qed
qed

lemma node_call_same [simp]: "route_same s (snd (node_call n b t s))"
  using rpcCall_same[of s _ b t] by (simp add: node_call_def Let_def case_prod_unfold split: option.split)

lemma wsSendKind_same [simp]: "route_same s (snd (wsSendKind n f s))"
  by (simp add: wsSendKind_def split: option.split)

lemma rpc_timeout_same [simp]: "route_same s (rpc_timeout p q s)"
  by (auto simp: rpc_timeout_def intro: route_same_trans[OF put_conn_same settle_same] split: option.split)


lemma pull_start_same [simp]: "route_same s (pull_start n i f s)"
proof -
  let ?r = "\<lparr>rp_nodeId = n, rp_seq = None, rp_chunks = [], rp_lastActivity = clock s\<rparr>"
  let ?s1 = "s\<lparr>ws_pulls := map_put i ?r (ws_pulls s)\<rparr>"
  obtain r s2 where c: "wsRpcRecordingPull n i f ?s1 = (r, s2)" by fastforce
  have "route_same ?s1 s2" using node_call_same[of ?s1] c by (metis snd_conv wsRpcRecordingPull_def)
  then have "route_same s s2" by (rule route_same_trans[OF route_same_simps(4)])
  then have "route_same s (pull_finish i e s2)" "route_same s (s2\<lparr>ws_pulls := u\<rparr>)" for e u
    by (blast intro: route_same_trans pull_finish_same route_same_simps(4))+
  then show ?thesis by (simp add: pull_start_def Let_def c split: sum.split)
qed

lemma pull_watchdog_same [simp]: "route_same s (pull_watchdog i s)"
  by (auto simp: pull_watchdog_def cancelRecordingPull_def
      intro: route_same_trans[OF wsSendKind_same pull_finish_same] split: option.split)


section \<open>Routing\<close>








lemma ws_conn_of_obj: "ws_conn_of p s = Some c \<Longrightarrow> map_get p (ws_objs s) = Some c \<and> p \<in> set (ws_conns s)"
  by (simp add: ws_conn_of_def split: if_splits)







definition hello_id :: "hello \<Rightarrow> string" where
  "hello_id h = info_nodeId (hello_info h)"



lemma disconnect_map:
  "map_get q (socketToNode (snd (disconnect p w))) = Some n \<Longrightarrow> map_get q (socketToNode w) = Some n"
  "q \<noteq> p \<Longrightarrow> map_get q (socketToNode (snd (disconnect p w))) = map_get q (socketToNode w)"
  "world.more (snd (disconnect p w)) = world.more w"
  by (cases w; auto simp: disconnect_def Let_def map_get_del split: option.splits if_splits)+






lemma timers_same [simp]: "route_same s (idle_timeout p s)" "route_same s (hello_timeout p s)"
  by (auto simp: idle_timeout_def hello_timeout_def dest: ws_conn_of_obj split: option.split
      intro: route_same_trans[OF put_conn_same route_same_simps(2)])





section \<open>Calls are settled once\<close>

definition pend :: "string \<Rightarrow> ws_server \<Rightarrow> nat list" where
  "pend p s = (case map_get p (ws_objs s) of None \<Rightarrow> [] | Some c \<Rightarrow> map fst (cn_pending c))"

definition settled :: "ws_server \<Rightarrow> nat list" where
  "settled s = map fst (ws_settled s)"

text \<open>The connections the two Maps refer to, and the connections there are.\<close>

definition refs :: "ws_server \<Rightarrow> string set" where
  "refs s = {p. \<exists>n. map_get n (ws_byNode s) = Some p} \<union> set (ws_conns s)"

definition peers :: "ws_server \<Rightarrow> string set" where
  "peers s = fst ` set (ws_objs s)"

text \<open>The calls that were made are those settled, those that wait at a connection, and those of the
  list l that are being settled.\<close>

definition calls_ok :: "nat list \<Rightarrow> ws_server \<Rightarrow> bool" where
  "calls_ok l s \<longleftrightarrow> distinct (settled s @ l) \<and> (\<forall>p. distinct (pend p s)) \<and> 1 \<le> ws_nextSeq s
     \<and> (\<forall>p q. q \<in> set (pend p s) \<longrightarrow> q \<notin> set (settled s @ l) \<and> (\<forall>p'. q \<in> set (pend p' s) \<longrightarrow> p' = p))
     \<and> (\<forall>q. 1 \<le> q \<and> q < ws_nextSeq s \<longleftrightarrow> q \<in> set (settled s @ l) \<or> (\<exists>p. q \<in> set (pend p s)))
     \<and> refs s \<subseteq> peers s"

definition calls_same :: "ws_server \<Rightarrow> ws_server \<Rightarrow> bool" where
  "calls_same s s' \<longleftrightarrow> ws_settled s' = ws_settled s \<and> (\<forall>p. pend p s' = pend p s) \<and> ws_nextSeq s' = ws_nextSeq s
     \<and> refs s' \<subseteq> refs s \<union> peers s' \<and> peers s \<subseteq> peers s'"

lemma calls_ok_same: "calls_ok l s \<Longrightarrow> calls_same s s' \<Longrightarrow> calls_ok l s'"
proof -
  assume ok: "calls_ok l s" and same: "calls_same s s'"
  have "refs s \<subseteq> peers s" "refs s' \<subseteq> refs s \<union> peers s'" "peers s \<subseteq> peers s'"
    using ok same by (simp_all add: calls_ok_def calls_same_def)
  then have "refs s' \<subseteq> peers s'" by blast
  moreover have "settled s' = settled s" "pend p s' = pend p s" "ws_nextSeq s' = ws_nextSeq s" for p
    using same by (simp_all add: calls_same_def settled_def)
  ultimately show "calls_ok l s'" using ok unfolding calls_ok_def by simp
qed

lemma calls_same_refl [simp]: "calls_same s s"
  by (simp add: calls_same_def)

lemma calls_same_trans: "calls_same a b \<Longrightarrow> calls_same b c \<Longrightarrow> calls_same a c"
proof -
  assume ab: "calls_same a b" and bc: "calls_same b c"
  have "refs b \<subseteq> refs a \<union> peers b" "peers a \<subseteq> peers b" "refs c \<subseteq> refs b \<union> peers c" "peers b \<subseteq> peers c"
    using ab bc by (simp_all add: calls_same_def)
  then have "refs c \<subseteq> refs a \<union> peers c" "peers a \<subseteq> peers c" by blast+
  with ab bc show "calls_same a c" by (simp add: calls_same_def)
qed

lemma calls_same_conn: "conn_same s s' \<Longrightarrow> calls_same s s'"
  by (simp add: calls_same_def pend_def refs_def peers_def conn_same_ws)

lemma calls_same_simps [simp]:
  "calls_same s (enqueue p f s)" "calls_same s (peer_close p k s)" "calls_same s (s\<lparr>ws_pulls := u\<rparr>)" "calls_same s (s\<lparr>clock := t\<rparr>)"
  by (simp_all add: calls_same_def enqueue_def peer_close_def pend_def refs_def peers_def)

lemma put_conn_calls: "map_get p (ws_objs s) = Some c \<Longrightarrow> cn_pending c' = cn_pending c \<Longrightarrow> calls_same s (put_conn p c' s)"
  by (auto simp: calls_same_def put_conn_def pend_def refs_def peers_def map_get_put map_put_keys)

lemma pull_finish_calls [simp]: "calls_same s (pull_finish i e s)"
  by (auto simp: pull_finish_def calls_same_def pend_def refs_def peers_def split: option.split)

lemma calls_ok_settle:
  assumes "calls_ok (q # l) s"
  shows "calls_ok l (settle q r s)"
proof -
  let ?s = "s\<lparr>ws_settled := ws_settled s @ [(q, r)]\<rparr>"
  have "calls_ok l ?s" using assms by (auto simp: calls_ok_def settled_def pend_def refs_def peers_def)
  moreover have "calls_same ?s (settle q r s)"
    by (auto simp: settle_def Let_def split: option.split sum.split)
  ultimately show ?thesis by (rule calls_ok_same)
qed

lemma calls_ok_settles: "calls_ok (qs @ l) s \<Longrightarrow> calls_ok l (fold (\<lambda>q. settle q r) qs s)"
  by (induction qs arbitrary: s) (auto intro: calls_ok_settle)

text \<open>Taking calls out of a connection.\<close>

lemma calls_ok_take:
  assumes "calls_ok l s" "map_get p (ws_objs s) = Some c" "set qs \<subseteq> fst ` set (cn_pending c)" "distinct qs"
    "map fst m = filter (\<lambda>q. q \<notin> set qs) (map fst (cn_pending c))"
  shows "calls_ok (qs @ l) (put_conn p (c\<lparr>cn_pending := m\<rparr>) s)"
proof -
  let ?s = "put_conn p (c\<lparr>cn_pending := m\<rparr>) s"
  have old: "pend p s = map fst (cn_pending c)" using assms(2) by (simp add: pend_def)
  have new: "pend p' ?s = (if p' = p then filter (\<lambda>q. q \<notin> set qs) (pend p s) else pend p' s)" for p'
    using assms(5) by (simp add: pend_def put_conn_def map_get_put assms(2))
  have qs: "set qs \<subseteq> set (pend p s)" using assms(3) old by simp
  have same: "settled ?s = settled s" "ws_nextSeq ?s = ws_nextSeq s" "refs ?s = refs s" "peers s \<subseteq> peers ?s"
    by (auto simp: settled_def put_conn_def refs_def peers_def map_put_keys)
  note ok = assms(1)[unfolded calls_ok_def]
  show ?thesis
    unfolding calls_ok_def same(1-3)
  proof (intro conjI)
    show "distinct (settled s @ qs @ l)" using ok qs assms(4) by auto
    show "\<forall>p. distinct (pend p ?s)" using ok by (simp add: new)
    show "\<forall>p' q. q \<in> set (pend p' ?s) \<longrightarrow> q \<notin> set (settled s @ qs @ l) \<and> (\<forall>p''. q \<in> set (pend p'' ?s) \<longrightarrow> p'' = p')"
      using ok qs by (simp add: new split: if_splits) blast
    show "\<forall>q. (1 \<le> q \<and> q < ws_nextSeq s) = (q \<in> set (settled s @ qs @ l) \<or> (\<exists>p. q \<in> set (pend p ?s)))"
    proof
      fix q
      have "q \<in> set (settled s @ l) \<or> (\<exists>p. q \<in> set (pend p s)) \<longleftrightarrow> q \<in> set (settled s @ qs @ l) \<or> (\<exists>p. q \<in> set (pend p ?s))"
        using qs by (auto simp: new)
      with ok show "(1 \<le> q \<and> q < ws_nextSeq s) = (q \<in> set (settled s @ qs @ l) \<or> (\<exists>p. q \<in> set (pend p ?s)))" by metis
    qed
  qed (use ok same(4) in blast)+
qed

lemma calls_ok_rpcCall:
  assumes "calls_ok [] s" "map_get p (ws_objs s) = Some c"
  shows "calls_ok [] (snd (rpcCall p b t s))"
proof -
  let ?q = "ws_nextSeq s"
  let ?m = "map_put ?q (clock s + t) (cn_pending c)"
  let ?s1 = "s\<lparr>ws_nextSeq := ?q + 1, ws_objs := map_put p (c\<lparr>cn_pending := ?m\<rparr>) (ws_objs s)\<rparr>"
  note ok = assms(1)[unfolded calls_ok_def]
  have old: "pend p s = map fst (cn_pending c)" using assms(2) by (simp add: pend_def)
  have fresh: "?q \<notin> set (pend p' s)" "?q \<notin> set (settled s)" for p' using ok by (meson less_irrefl, auto)
  have "map fst (map_put k v m) = (if k \<in> fst ` set m then map fst m else map fst m @ [k])" for k v and m :: "(nat, int) jsmap"
    by (induction k v m rule: map_put.induct) auto
  then have new: "pend p' ?s1 = (if p' = p then pend p s @ [?q] else pend p' s)" for p'
    using fresh(1)[of p] old unfolding old by (simp add: pend_def map_get_put)
  have "calls_ok [] ?s1"
    unfolding calls_ok_def new
  proof (intro conjI)
    show "\<forall>p' q. q \<in> set (if p' = p then pend p s @ [?q] else pend p' s) \<longrightarrow> q \<notin> set (settled ?s1 @ [])
        \<and> (\<forall>p''. q \<in> set (if p'' = p then pend p s @ [?q] else pend p'' s) \<longrightarrow> p'' = p')"
      using ok fresh by (auto simp: settled_def split: if_splits)
    show "\<forall>q. (1 \<le> q \<and> q < ws_nextSeq ?s1) = (q \<in> set (settled ?s1 @ []) \<or> (\<exists>p'. q \<in> set (if p' = p then pend p s @ [?q] else pend p' s)))"
    proof
      fix q
      have "(1 \<le> q \<and> q < ?q) = (q \<in> set (settled s @ []) \<or> (\<exists>p. q \<in> set (pend p s)))" using ok by blast
      moreover have "1 \<le> ?q" using ok by blast
      ultimately show "(1 \<le> q \<and> q < ws_nextSeq ?s1) = (q \<in> set (settled ?s1 @ []) \<or> (\<exists>p'. q \<in> set (if p' = p then pend p s @ [?q] else pend p' s)))"
        by (cases "q = ?q") (auto simp: settled_def)
    qed
  qed (use ok fresh in \<open>auto simp: settled_def refs_def peers_def map_put_keys\<close>)
  moreover have "calls_same ?s1 (snd (rpcCall p b t s))"
    by (simp add: rpcCall_def Let_def assms(2) put_conn_def enqueue_def calls_same_def pend_def refs_def peers_def)
  ultimately show ?thesis by (rule calls_ok_same)
qed

lemma calls_same_more: "world.more s' = world.more s \<Longrightarrow> calls_same s s'"
  by (cases s; cases s') (simp add: calls_same_def pend_def refs_def peers_def)

lemma calls_ok_take1:
  assumes "calls_ok [] s" "map_get p (ws_objs s) = Some c" "map_get q (cn_pending c) = Some t"
  shows "calls_ok [q] (put_conn p (c\<lparr>cn_pending := map_del q (cn_pending c)\<rparr>) s)"
proof -
  have "map fst (map_del q m) = filter (\<lambda>k. k \<noteq> q) (map fst m)" for m :: "(nat, int) jsmap"
    by (simp add: map_del_def filter_map comp_def)
  with calls_ok_take[OF assms(1,2), of "[q]"] map_get_Some_in[OF assms(3)] show ?thesis
    by (force intro: rev_image_eqI)
qed

lemma calls_ok_timeout: "calls_ok [] s \<Longrightarrow> calls_ok [] (rpc_timeout p q s)"
  by (auto simp: rpc_timeout_def intro: calls_ok_settle calls_ok_take1 split: option.split)

lemma calls_ok_drop:
  assumes "calls_ok [] s"
  shows "calls_ok [] (dropPending p e s)"
proof (cases "map_get p (ws_objs s)")
  case None
  with assms show ?thesis by (simp add: dropPending_def)
next
  case (Some c)
  have "distinct (pend p s)" using assms by (simp add: calls_ok_def)
  then have "distinct (map fst (cn_pending c))" by (simp add: pend_def Some)
  then have "calls_ok (map fst (cn_pending c) @ []) (put_conn p (c\<lparr>cn_pending := []\<rparr>) s)"
    by (intro calls_ok_take[OF assms Some]) (simp_all add: filter_empty_conv)
  then show ?thesis by (simp add: dropPending_def Some calls_ok_settles)
qed

lemma calls_ok_close:
  assumes "calls_ok [] s"
  shows "calls_ok [] (onWsClose p s)"
proof (cases "ws_conn_of p s")
  case None
  with assms show ?thesis by (simp add: onWsClose_def)
next
  case (Some c)
  let ?s1 = "put_conn p (c\<lparr>cn_helloTimer := None\<rparr>) (s\<lparr>ws_conns := filter (\<lambda>q. q \<noteq> p) (ws_conns s)\<rparr>)"
  let ?s2 = "dropPending p (JsError ''node websocket closed'') ?s1"
  have "calls_same s (s\<lparr>ws_conns := filter (\<lambda>q. q \<noteq> p) (ws_conns s)\<rparr>)"
    by (auto simp: calls_same_def pend_def refs_def peers_def)
  then have "calls_same s ?s1"
    by (rule calls_same_trans[OF _ put_conn_calls]) (use ws_conn_of_obj[OF Some] in simp_all)
  then have "calls_ok [] ?s2" using assms calls_ok_drop calls_ok_same by blast
  moreover have "calls_same ?s2 (onWsClose p s)"
    by (auto simp: onWsClose_def Some Let_def calls_same_def pend_def refs_def peers_def map_get_del split: option.split)
  ultimately show ?thesis by (rule calls_ok_same)
qed

lemma calls_ok_node_call:
  assumes "calls_ok [] s"
  shows "calls_ok [] (snd (node_call n b t s))"
proof (cases "map_get n (ws_byNode s)")
  case (Some p)
  with assms have "p \<in> peers s" by (auto simp: calls_ok_def refs_def)
  then obtain c where "map_get p (ws_objs s) = Some c" using map_get_None[of p "ws_objs s"] by (auto simp: peers_def)
  with calls_ok_rpcCall[OF assms] Some show ?thesis by (simp add: node_call_def case_prod_unfold Let_def)
qed (simp add: node_call_def assms)

lemma calls_ok_pull:
  assumes "calls_ok [] s"
  shows "calls_ok [] (pull_start n i f s)"
proof -
  let ?r = "\<lparr>rp_nodeId = n, rp_seq = None, rp_chunks = [], rp_lastActivity = clock s\<rparr>"
  let ?s1 = "s\<lparr>ws_pulls := map_put i ?r (ws_pulls s)\<rparr>"
  obtain r s2 where c: "wsRpcRecordingPull n i f ?s1 = (r, s2)" by fastforce
  have "calls_ok [] ?s1" using assms calls_same_simps(3) by (rule calls_ok_same)
  then have "calls_ok [] s2" using calls_ok_node_call[of ?s1] c by (metis snd_conv wsRpcRecordingPull_def)
  then have "calls_ok [] (pull_finish i e s2)" "calls_ok [] (s2\<lparr>ws_pulls := u\<rparr>)" for e u
    by (blast intro: calls_ok_same pull_finish_calls calls_same_simps(3))+
  then show ?thesis by (simp add: pull_start_def Let_def c split: sum.split)
qed

lemma wsSendKind_calls [simp]: "calls_same s (snd (wsSendKind n f s))"
  by (simp add: wsSendKind_def split: option.split)

lemma pull_watchdog_calls [simp]: "calls_same s (pull_watchdog i s)"
  by (auto simp: pull_watchdog_def cancelRecordingPull_def
      intro: calls_same_trans[OF wsSendKind_calls pull_finish_calls] split: option.split)

lemma timers_calls [simp]: "calls_same s (idle_timeout p s)" "calls_same s (hello_timeout p s)"
  by (auto simp: idle_timeout_def hello_timeout_def dest: ws_conn_of_obj split: option.split
      intro: calls_same_trans[OF put_conn_calls calls_same_simps(2)])

lemma on_hello_calls:
  assumes "map_get p (ws_objs s) = Some c"
  shows "calls_same s (on_hello x p c h s)"
proof -
  define r where "r = snd (register p (hello_info h) s)"
  define e where "e = emitNodesChanged (snd (getConfig r))"
  have "conn_same r e" unfolding e_def by (rule conn_same_trans[OF config_same emitNodes_same])
  then have "world.more e = world.more s" by (cases s) (simp add: conn_same_def r_def register_def Let_def)
  then have e: "calls_same s e" "ws_objs e = ws_objs s" by (simp_all add: calls_same_more) (cases s; cases e; simp)
  let ?c = "c\<lparr>cn_nodeId := Some (hello_id h), cn_helloTimer := None\<rparr>"
  have s2: "calls_same s (put_conn p ?c e)"
    by (rule calls_same_trans[OF e(1) put_conn_calls]) (use assms e(2) in simp_all)
  have reg: "handleRegister p (hello_info h) s = ((hello_id h, c_limits (fst (getConfig r))), e)"
    by (simp add: handleRegister_def Let_def case_prod_unfold e_def r_def hello_id_def) (simp add: register_def Let_def)
  have by_p: "calls_same v (v\<lparr>ws_byNode := map_put n p (ws_byNode v)\<rparr>)" if "p \<in> peers v" for v n
    using that by (auto simp: calls_same_def pend_def refs_def peers_def map_get_put)
  define s3 where "s3 = (case map_get (hello_id h) (ws_byNode (put_conn p ?c e)) of
      Some q \<Rightarrow> if q \<noteq> p then peer_close q 4000 (put_conn p ?c e) else put_conn p ?c e | None \<Rightarrow> put_conn p ?c e)"
  have "calls_same (put_conn p ?c e) s3" by (simp add: s3_def split: option.split)
  moreover have "p \<in> peers s3"
    by (auto simp: s3_def peers_def put_conn_def peer_close_def map_put_keys split: option.split)
  ultimately have "calls_same s (s3\<lparr>ws_byNode := map_put (hello_id h) p (ws_byNode s3)\<rparr>)"
    by (blast intro: calls_same_trans s2 by_p)
  then show ?thesis
    by (auto simp: on_hello_def reg s3_def[symmetric]
        intro!: calls_same_trans[OF _ calls_same_simps(1)[of _ p]] calls_same_simps)
qed

lemma calls_ok_message:
  assumes "calls_ok [] s"
  shows "calls_ok [] (wsRoute_message x p f s)"
proof (cases "ws_conn_of p s")
  case None
  with assms show ?thesis by (simp add: wsRoute_message_def onWsMessage_def)
next
  case (Some c)
  let ?c = "c\<lparr>cn_idleAt := clock s + 90000\<rparr>"
  let ?t = "touchIdle p c s"
  have c: "map_get p (ws_objs ?t) = Some ?c" by (simp add: touchIdle_def put_conn_def map_get_put)
  have t: "calls_ok [] ?t"
    by (rule calls_ok_same[OF assms]) (use ws_conn_of_obj[OF Some] in \<open>auto simp: touchIdle_def intro: put_conn_calls\<close>)
  have ev: "calls_same ?t (snd (handleEventIn f ?t))"
    by (cases "(f, ?t)" rule: handleEventIn.cases)
       (auto simp: dispatchRecChunk_def dispatchRecEnd_def split: option.split
         intro: calls_same_conn handleMetrics_same handleViolation_same handleEnd_same handleRecordingReady_same)
  have req: "calls_same ?t (on_rpc_request x p ?c q b ?t)" for q b
  proof -
    obtain r s1 where r: "handleRpcRequest x (cn_nodeId ?c) b ?t = (r, s1)" by fastforce
    have "calls_same ?t s1" using handleRpcRequest_same[of ?t x "cn_nodeId ?c" b] r by (simp add: calls_same_conn)
    then show ?thesis unfolding on_rpc_request_def r
      by (auto split: sum.split intro: calls_same_trans[OF _ calls_same_simps(1)])
  qed
  have "calls_ok [] (snd (ws_dispatch x p ?c f ?t))"
  proof (cases "\<exists>q b. f = FRpcResponse q b")
    case True
    have take: "calls_ok [q] (put_conn p (?c\<lparr>cn_pending := map_del q (cn_pending ?c)\<rparr>) ?t)"
      if "map_get q (cn_pending ?c) = Some d" for q d
      using t c that by (rule calls_ok_take1)
    with True t show ?thesis
      by (auto simp: on_rpc_response_def simp del: ws_conn.update_convs split: option.split intro!: calls_ok_settle)
  next
    case False
    then have "calls_same ?t (snd (ws_dispatch x p ?c f ?t))"
      using ev req on_hello_calls[OF c] by (cases f) auto
    with t show ?thesis by (rule calls_ok_same)
  qed
  then show ?thesis
    by (auto simp: wsRoute_message_def onWsMessage_def Some split: sum.split prod.split
        intro: calls_ok_same[OF _ calls_same_simps(2)])
qed

lemma calls_ok_exec:
  assumes "calls_ok [] s"
  shows "calls_ok [] (ws_exec x e s)"
proof (cases e)
  case (EOpen p)
  have "calls_same s (onWsOpen p s)" if "map_get p (ws_objs s) = None"
    using that by (auto simp: onWsOpen_def calls_same_def pend_def refs_def peers_def map_get_put map_put_keys)
  with EOpen assms show ?thesis by (auto intro: calls_ok_same)
next
  case ELate
  have "calls_same s (late_disconnect s)"
  proof (cases "ws_late s")
    case (Cons p ps)
    have "calls_same s (s\<lparr>ws_late := ps\<rparr>)" by (simp add: calls_same_def pend_def refs_def peers_def)
    moreover have "calls_same (s\<lparr>ws_late := ps\<rparr>) (emitNodesChanged (snd (disconnect p (s\<lparr>ws_late := ps\<rparr>))))"
      by (rule calls_same_trans[OF calls_same_more[OF disconnect_map(3)] calls_same_conn[OF emitNodes_same]])
    ultimately show ?thesis by (simp add: late_disconnect_def Cons) (rule calls_same_trans)
  qed (simp add: late_disconnect_def)
  with ELate assms show ?thesis by (auto intro: calls_ok_same)
qed (use assms in \<open>auto simp: wsRpcWhepRelay_def kickStream_def sendRecordingDelete_def
    intro: calls_ok_message calls_ok_close calls_ok_timeout calls_ok_node_call calls_ok_pull calls_ok_same\<close>)

lemma calls_ok_run: "ws_run x es s \<Longrightarrow> calls_ok [] s"
proof (induction rule: ws_run.induct)
  case (run_boot w)
  have "ws_objs (ws_boot w) = []" "ws_settled (ws_boot w) = []" "ws_nextSeq (ws_boot w) = 1" "ws_byNode (ws_boot w) = []"
    "ws_conns (ws_boot w) = []"
    by (simp_all add: ws_boot_def world.defs ws_server.defs)
  then show ?case by (auto simp: calls_ok_def settled_def pend_def refs_def)
qed (auto intro: calls_ok_exec calls_ok_same calls_same_conn)

text \<open>C22 Every call to a node is settled exactly once: in every history the calls made are exactly
  those that wait at one connection, each at one place, and those that were answered, refused,
  dropped with their connection or timed out, each once and never again, whatever answers arrive
  late, twice or on another connection; and no call can wait for ever, because when its time has
  come its timer settles it.\<close>

theorem rpc_settled_once:
  assumes "ws_run x es s" "1 \<le> q" "q < ws_nextSeq s"
  shows "distinct (map fst (ws_settled s))
    \<and> (if q \<in> fst ` set (ws_settled s) then \<forall>p. q \<notin> set (pend p s) else \<exists>!p. q \<in> set (pend p s))
    \<and> (\<forall>p c t. map_get p (ws_objs s) = Some c \<and> map_get q (cn_pending c) = Some t \<and> t \<le> clock s
         \<longrightarrow> (q, Inl (JsError ''node rpc timeout'')) \<in> set (ws_settled (ws_exec x (ERpcTimer p q) s)))"
proof -
  have ok: "calls_ok [] s" using assms(1) by (rule calls_ok_run)
  have "distinct (settled s)" using ok by (simp add: calls_ok_def)
  moreover have "if q \<in> set (settled s) then \<forall>p. q \<notin> set (pend p s) else \<exists>!p. q \<in> set (pend p s)"
  proof -
    have "q \<in> set (settled s) \<or> (\<exists>p. q \<in> set (pend p s))" using ok assms(2,3) unfolding calls_ok_def by auto
    moreover have "q \<in> set (pend p s) \<Longrightarrow> q \<notin> set (settled s) \<and> (\<forall>p'. q \<in> set (pend p' s) \<longrightarrow> p' = p)" for p
      using ok by (simp add: calls_ok_def)
    ultimately show ?thesis by auto
  qed
  moreover have "r \<in> set (ws_settled s) \<Longrightarrow> r \<in> set (ws_settled (pull_finish i e s))" for r i e and s :: ws_server
    by (simp add: pull_finish_def split: option.split)
  then have "(q, r) \<in> set (ws_settled (settle q r v))" for r v
    by (auto simp: settle_def Let_def split: option.split sum.split)
  ultimately show ?thesis by (auto simp: settled_def rpc_timeout_def)
qed


section \<open>Examples\<close>

definition ws_after :: "externals \<Rightarrow> ws_event list \<Rightarrow> world \<Rightarrow> ws_server" where
  "ws_after x es w = fold (ws_exec x) es (ws_boot w)"

lemma ws_run_after:
  assumes "nodes w = []" "socketToNode w = []"
  shows "ws_run x es (ws_after x es w)"
  by (induction es rule: rev_induct) (simp_all add: ws_after_def run_boot assms run_event)

definition guarded :: externals where
  "guarded = demo_externals\<lparr>e_mediaNodeAuthToken := ''k''\<rparr>"

definition hello_a :: hello where
  "hello_a = \<lparr>hl_identifier = ''a'', hl_hostname = ''h'', hl_version = ''1'', hl_authToken = ''k'', hl_endpoints = None\<rparr>"

text \<open>Node a reconnects on c2 while its first connection c1, superseded, closes late.\<close>

definition reconnecting :: "ws_event list" where
  "reconnecting = [EOpen ''c1'', EMessage ''c1'' (FHello hello_a), EWhep ''a'' ''s'' ''o'', EOpen ''c2'',
     EMessage ''c2'' (FHello hello_a), EClose ''c1'', ELate, EWhep ''a'' ''s'' ''o'', EClock 9000]"

lemma reconnecting_state:
  "map_get ''a'' (ws_byNode (ws_after guarded reconnecting world_start)) = Some ''c2''"
  "ws_closing (ws_after guarded reconnecting world_start) = [(''c1'', 4000)]"
  "ws_nextSeq (ws_after guarded reconnecting world_start) = 3"
  "settled (ws_after guarded reconnecting world_start) = [1]"
  "pend ''c2'' (ws_after guarded reconnecting world_start) = [2]"
  by code_simp+


theorem rpc_settled_once_witness:
  "1 \<in> fst ` set (ws_settled (ws_after guarded reconnecting world_start))
   \<and> 1 \<notin> set (pend ''c1'' (ws_after guarded reconnecting world_start))"
proof -
  let ?s = "ws_after guarded reconnecting world_start"
  have run: "ws_run guarded reconnecting ?s" by (rule ws_run_after) simp_all
  have "1 \<in> set (settled ?s)" by (simp add: reconnecting_state)
  then have one: "1 \<in> fst ` set (ws_settled ?s)" by (simp add: settled_def)
  with rpc_settled_once[OF run, of 1] show ?thesis by (simp add: reconnecting_state)
qed

text \<open>A connection that never showed the token is answered all the same: the publish of a node that
  is not there is granted, and its session is in the database.\<close>

lemma rpc_before_hello:
  "length (rows (t_sessions (ws_after guarded
      [EOpen ''c9'', EMessage ''c9'' (FRpcRequest 1 (Some (QAuthorizePublish ann_publish)))] club))) = 1"
  by code_simp

end
