(* ===== verification/Recorder.thy ===== *)
theory Recorder
  imports NodeHandlers
begin

text \<open>
  services/recorder.ts: the local recordings, and services/probe.ts: what ffprobe says of a stream.

  Paths are relative to the recording directory; files lists the files there with their sizes.
  ffmpeg writes the temporary file on its own: the model takes the file as it is when the recording
  stops.  cal is the calendar of the server: the date and the time stamp of an instant.  number is
  the conversion Number of a string, None when the result is not finite.
\<close>

section \<open>Recording\<close>

type_synonym calendar = "int \<Rightarrow> string \<times> string"

definition tmp_path :: "string \<Rightarrow> string \<Rightarrow> string" where
  "tmp_path stream clientId = ''_tmp/'' @ safeName stream @ ''_'' @ clientId @ ''.mkv''"

definition segment_path :: "calendar \<Rightarrow> string \<Rightarrow> int option \<Rightarrow> int \<Rightarrow> string" where
  "segment_path cal stream ev startedAt =
     (let (date, ts) = cal startedAt in
      (case ev of Some i \<Rightarrow> ''e'' @ int_str i @ ''/'' | None \<Rightarrow> []) @ date @ ''/'' @ safeName stream @ ''_'' @ ts @ ''.mkv'')"

definition startRecording :: "string \<Rightarrow> string \<Rightarrow> 'z world_scheme \<Rightarrow> 'z world_scheme" where
  "startRecording stream clientId w =
     (let (c, w1) = getConfig w in
      if \<not> rec_enabled (c_record c) then w1
      else if maxConcurrency (c_record c) \<le> int (length (rec_handles w1)) then w1
      else if map_get stream (rec_handles w1) \<noteq> None then w1
      else w1\<lparr>rec_handles := map_put stream \<lparr>hd_tmpPath = tmp_path stream clientId, hd_startedAt = clock w1,
             hd_compliant = False, hd_width = None, hd_height = None, hd_fps = None\<rparr> (rec_handles w1)\<rparr>)"

definition markCompliant :: "string \<Rightarrow> int \<Rightarrow> int \<Rightarrow> rat \<Rightarrow> 'z world_scheme \<Rightarrow> 'z world_scheme" where
  "markCompliant stream wd ht fps w =
     (case map_get stream (rec_handles w) of
        None \<Rightarrow> w
      | Some h \<Rightarrow> w\<lparr>rec_handles := map_put stream (h\<lparr>hd_compliant := True,
             hd_width := (if wd \<noteq> 0 then Some wd else hd_width h),
             hd_height := (if ht \<noteq> 0 then Some ht else hd_height h),
             hd_fps := (if fps \<noteq> 0 then Some fps else hd_fps h)\<rparr>) (rec_handles w)\<rparr>)"

definition segment_sec :: "handle \<Rightarrow> int \<Rightarrow> int" where
  "segment_sec h now = max 0 (js_round (of_int (now - hd_startedAt h) / 1000))"

definition append_fps :: "handle \<Rightarrow> int \<Rightarrow> recording_row \<Rightarrow> rat option" where
  "append_fps h dur prev =
     (let before = orDefault (rc_durationSec prev) 0 in
      case (rc_avgFps prev, hd_fps h) of
        (Some a, Some b) \<Rightarrow> if a \<noteq> 0 \<and> b \<noteq> 0
           then Some ((a * before + b * of_int dur) / max 1 (before + of_int dur)) else Some b
      | (a, None) \<Rightarrow> a
      | (None, b) \<Rightarrow> b)"

definition append_segment :: "handle \<Rightarrow> string list \<Rightarrow> string \<Rightarrow> int \<Rightarrow> int \<Rightarrow> recording_row \<Rightarrow> recording_row" where
  "append_segment h segs rel bytes now prev =
     (let dur = segment_sec h now in
      prev\<lparr>rc_segments := Some (JText (json_strings (segs @ [rel]))), rc_sizeBytes := rc_sizeBytes prev + bytes,
           rc_durationSec := Some (orDefault (rc_durationSec prev) 0 + of_int dur), rc_avgFps := append_fps h dur prev,
           rc_width := orElse (hd_width h) (rc_width prev), rc_height := orElse (hd_height h) (rc_height prev),
           rc_endedAt := Some now\<rparr>)"

definition first_segment :: "handle \<Rightarrow> string \<Rightarrow> int \<Rightarrow> int \<Rightarrow> string \<Rightarrow> int option \<Rightarrow> int option \<Rightarrow> string option \<Rightarrow> recording_row" where
  "first_segment h rel bytes now stream ev sid label =
     (recording_values stream rel)\<lparr>rc_eventId := ev, rc_sessionId := sid, rc_studentLabel := label,
        rc_segments := Some (JText (json_strings [rel])), rc_sizeBytes := bytes,
        rc_durationSec := Some (of_int (segment_sec h now)), rc_avgFps := hd_fps h, rc_width := hd_width h,
        rc_height := hd_height h, rc_startedAt := hd_startedAt h, rc_endedAt := Some now\<rparr>"

definition append_target :: "int option \<Rightarrow> string \<Rightarrow> 'z db_scheme \<Rightarrow> recording_row option" where
  "append_target ev stream d = Option.bind ev (\<lambda>i. RecordingsRepository_findMergeTarget i stream d)"

text \<open>A finished segment is moved into place and listed; a temporary file that is gone is logged
  and forgotten.\<close>

definition finalizeRecording :: "calendar \<Rightarrow> string \<Rightarrow> handle \<Rightarrow> int option \<Rightarrow> int option \<Rightarrow> string option \<Rightarrow>
    'z world_scheme \<Rightarrow> (unit, 'z world_scheme) outcome" where
  "finalizeRecording cal stream h ev sid label w =
     (let now = clock w; rel = segment_path cal stream ev (hd_startedAt h) in
      case map_get (hd_tmpPath h) (files w) of
        None \<Rightarrow> (Inr (), w)
      | Some bytes \<Rightarrow>
          let w1 = w\<lparr>files := map_put rel bytes (map_del (hd_tmpPath h) (files w))\<rparr> in
          case append_target ev stream w1 of
            Some prev \<Rightarrow>
              (case segment_paths prev of
                 None \<Rightarrow> (Inl (JsError ''segments''), w1)
               | Some segs \<Rightarrow>
                   let new = append_segment h segs rel bytes now prev in
                   (Inr (), emit (RecordingReady \<lparr>rs_id = rc_id prev, rs_eventId = ev, rs_sessionId = sid,
                        rs_streamName = stream, rs_studentLabel = label, rs_filePath = rc_filePath prev,
                        rs_sizeBytes = rc_sizeBytes new, rs_durationSec = rc_durationSec new,
                        rs_startedAt = of_int (rc_startedAt prev)\<rparr>)
                      (RecordingsRepository_update (rc_id prev) (append_segment h segs rel bytes now) w1)))
          | None \<Rightarrow>
              andThen (RecordingsRepository_insert (first_segment h rel bytes now stream ev sid label) w1) (\<lambda>row w2.
                (Inr (), emit (RecordingReady \<lparr>rs_id = rc_id row, rs_eventId = ev, rs_sessionId = sid,
                     rs_streamName = stream, rs_studentLabel = label, rs_filePath = rel, rs_sizeBytes = bytes,
                     rs_durationSec = Some (of_int (segment_sec h now)), rs_startedAt = of_int (hd_startedAt h)\<rparr>) w2)))"

text \<open>The two halves of stopRecording: before and after ffmpeg has quit.\<close>

definition take_handle :: "string \<Rightarrow> 'z world_scheme \<Rightarrow> handle option \<times> 'z world_scheme" where
  "take_handle stream w = (map_get stream (rec_handles w), w\<lparr>rec_handles := map_del stream (rec_handles w)\<rparr>)"

definition close_handle :: "calendar \<Rightarrow> string \<Rightarrow> handle \<Rightarrow> int option \<Rightarrow> int option \<Rightarrow> string option \<Rightarrow>
    'z world_scheme \<Rightarrow> (unit, 'z world_scheme) outcome" where
  "close_handle cal stream h ev sid label w =
     (if hd_compliant h then finalizeRecording cal stream h ev sid label w
      else (Inr (), w\<lparr>files := map_del (hd_tmpPath h) (files w)\<rparr>))"

definition stopRecording :: "calendar \<Rightarrow> string \<Rightarrow> int option \<Rightarrow> int option \<Rightarrow> string option \<Rightarrow>
    'z world_scheme \<Rightarrow> (unit, 'z world_scheme) outcome" where
  "stopRecording cal stream ev sid label w =
     (case take_handle stream w of
        (None, w1) \<Rightarrow> (Inr (), w)
      | (Some h, w1) \<Rightarrow> close_handle cal stream h ev sid label w1)"


section \<open>Probing\<close>

record probe_result =
  pr_width :: int
  pr_height :: int
  pr_fps :: rat
  pr_videoBitrateKbps :: int

definition parseFps :: "(string \<Rightarrow> rat option) \<Rightarrow> string option \<Rightarrow> rat option" where
  "parseFps number fraction =
     (case fraction of
        None \<Rightarrow> None
      | Some t \<Rightarrow> if CHR ''/'' \<notin> set t then None
          else case js_split (CHR ''/'') t of
            a # b # _ \<Rightarrow> (case (number a, number b) of
                (Some n, Some d) \<Rightarrow> if d = 0 then None else Some (n / d)
              | _ \<Rightarrow> None)
          | _ \<Rightarrow> None)"

text \<open>The first stream ffprobe reports; a number that is missing or not one is None.\<close>

record probe_stream =
  pb_width :: "int option"
  pb_height :: "int option"
  pb_avg_frame_rate :: "string option"
  pb_r_frame_rate :: "string option"
  pb_bit_rate :: "rat option"
  pb_format_bit_rate :: "rat option"

definition or_zero :: "rat option \<Rightarrow> rat option \<Rightarrow> rat" where
  "or_zero a b = (case a of Some v \<Rightarrow> if v \<noteq> 0 then v else orDefault b 0 | None \<Rightarrow> orDefault b 0)"

definition probe_of :: "(string \<Rightarrow> rat option) \<Rightarrow> probe_stream \<Rightarrow> probe_result" where
  "probe_of number s =
     \<lparr>pr_width = orDefault (pb_width s) 0, pr_height = orDefault (pb_height s) 0,
      pr_fps = orDefault (orElse (parseFps number (pb_avg_frame_rate s)) (parseFps number (pb_r_frame_rate s))) 0,
      pr_videoBitrateKbps = \<lfloor>or_zero (pb_bit_rate s) (pb_format_bit_rate s) / 1000\<rfloor>\<rparr>"

text \<open>One run of ffprobe: killed at its time limit, failed, without a stream, or a stream.\<close>

datatype probe_run = ProbeTimeout | ProbeExit int "probe_stream option option"

fun probeOnce :: "(string \<Rightarrow> rat option) \<Rightarrow> probe_run \<Rightarrow> probe_result option" where
  "probeOnce number ProbeTimeout = None"
| "probeOnce number (ProbeExit code out) =
     (if code \<noteq> 0 then None else case out of
        None \<Rightarrow> None
      | Some None \<Rightarrow> None
      | Some (Some s) \<Rightarrow> Some (probe_of number s))"

text \<open>The retries: run k is the k-th attempt; left counts the attempts still allowed.\<close>

fun probe_attempts :: "(string \<Rightarrow> rat option) \<Rightarrow> (nat \<Rightarrow> probe_run) \<Rightarrow> nat \<Rightarrow> nat \<Rightarrow> probe_result option" where
  "probe_attempts number run k 0 = None"
| "probe_attempts number run k (Suc left) =
     (case probeOnce number (run k) of Some r \<Rightarrow> Some r | None \<Rightarrow> probe_attempts number run (Suc k) left)"

definition probeStream :: "(string \<Rightarrow> rat option) \<Rightarrow> (nat \<Rightarrow> probe_run) \<Rightarrow> 'z world_scheme \<Rightarrow> probe_result option \<times> 'z world_scheme" where
  "probeStream number run w =
     (let (c, w1) = getConfig w in (probe_attempts number run 1 (nat (retries (c_probe c))), w1))"


section \<open>Recordings are kept exactly when compliant\<close>

text \<open>The retry loop is the first success among the allowed attempts.\<close>

lemma probe_attempts_first:
  "probe_attempts number run k n = first_of (List.map_filter (\<lambda>j. probeOnce number (run j)) [k ..< k + n])"
proof (induction n arbitrary: k)
  case (Suc n)
  have "[k ..< k + Suc n] = k # [Suc k ..< Suc k + n]" by (simp add: upt_conv_Cons)
  with Suc[of "Suc k"] show ?case by (simp add: map_filter_simps first_of_def split: option.split)
qed (simp add: map_filter_simps first_of_def)

text \<open>Where the file of a stream goes; the temporary name has no second segment.\<close>

lemma stop_discards:
  assumes "map_get stream (rec_handles w) = Some h" "\<not> hd_compliant h"
  shows "stopRecording cal stream ev sid label w = (Inr (),
    w\<lparr>rec_handles := map_del stream (rec_handles w), files := map_del (hd_tmpPath h) (files w)\<rparr>)"
  using assms by (simp add: stopRecording_def take_handle_def close_handle_def)

definition lists_segment :: "string \<Rightarrow> recording_row \<Rightarrow> bool" where
  "lists_segment rel r \<longleftrightarrow> (case segment_paths r of Some segs \<Rightarrow> rel \<in> set segs | None \<Rightarrow> False)"

lemma files_moved:
  "map_get p (map_put rel b (map_del t m)) = (if p = rel then Some b else if p = t then None else map_get p m)"
  by (simp add: map_get_put map_get_del)

definition same_row_but :: "recording_row \<Rightarrow> recording_row \<Rightarrow> recording_row list \<Rightarrow> recording_row list \<Rightarrow> bool" where
  "same_row_but r r' xs ys \<longleftrightarrow> ys = map (\<lambda>x. if rc_id x = rc_id r then r' else x) xs"

lemma finalize_appends:
  fixes w :: "'a world_scheme" and cal
  assumes "map_get (hd_tmpPath h) (files w) = Some b" "append_target ev stream w = Some prev" "segment_paths prev = Some segs"
    and "tbl_ok rc_id (t_recordings w)"
  defines "rel \<equiv> segment_path cal stream ev (hd_startedAt h)"
  defines "r' \<equiv> put_recording (recording_norm (append_segment h segs rel b (clock w) prev)) (rc_id prev)"
  shows "\<exists>w'. finalizeRecording cal stream h ev sid label w = (Inr (), w')
    \<and> files w' = map_put rel b (map_del (hd_tmpPath h) (files w))
    \<and> same_row_but prev r' (rows (t_recordings w)) (rows (t_recordings w'))
    \<and> prev \<in> set (rows (t_recordings w)) \<and> segment_paths r' = Some (segs @ [rel])"
proof -
  have prev: "prev \<in> set (rows (t_recordings w))"
    using assms(2) by (auto simp: append_target_def bind_eq_Some_conv RecordingsRepository_findMergeTarget_def tbl_select_def
        dest: first_of_order)
  have only: "x = prev" if "x \<in> set (rows (t_recordings w))" "rc_id x = rc_id prev" for x
    using recs.key_inj[OF assms(4) that(1) prev that(2)] .
  let ?w1 = "w\<lparr>files := map_put rel b (map_del (hd_tmpPath h) (files w))\<rparr>"
  have t: "append_target ev stream ?w1 = Some prev"
    using assms(2) by (simp add: append_target_def RecordingsRepository_findMergeTarget_def)
  have "segment_paths r' = Some (segs @ [rel])"
    by (simp add: r'_def append_segment_def Let_def put_recording_def recording_norm_def segment_paths_def)
  with prev only t assms(1,3) show ?thesis
    by (auto simp: finalizeRecording_def Let_def rel_def[symmetric] RecordingsRepository_update_def tbl_update_def
        same_row_but_def r'_def intro!: map_cong)
qed

lemma finalize_inserts:
  fixes w :: "'a world_scheme" and cal
  assumes "map_get (hd_tmpPath h) (files w) = Some b" "append_target ev stream w = None"
    and "finalizeRecording cal stream h ev sid label w = (Inr (), w')"
  defines "rel \<equiv> segment_path cal stream ev (hd_startedAt h)"
  shows "files w' = map_put rel b (map_del (hd_tmpPath h) (files w))
    \<and> (\<exists>r. rows (t_recordings w') = rows (t_recordings w) @ [r] \<and> segment_paths r = Some [rel] \<and> rc_sizeBytes r = b
          \<and> rc_eventId r = ev \<and> rc_streamName r = stream)"
proof -
  let ?w1 = "w\<lparr>files := map_put rel b (map_del (hd_tmpPath h) (files w))\<rparr>"
  have t: "append_target ev stream ?w1 = None"
    using assms(2) by (simp add: append_target_def RecordingsRepository_findMergeTarget_def)
  obtain row w2 where i: "RecordingsRepository_insert (first_segment h rel b (clock w) stream ev sid label) ?w1 = (Inr row, w2)"
    "t_recordings w' = t_recordings w2" "files w' = files w2"
    using assms(1,3) t by (auto simp: finalizeRecording_def Let_def rel_def[symmetric] andThen_eq_Inr)
  have row: "rows (t_recordings w2) = rows (t_recordings w) @ [row]" "files w2 = files ?w1"
    "row = put_recording (recording_norm ((first_segment h rel b (clock w) stream ev sid label)\<lparr>rc_createdAt := db_now ?w1\<rparr>))
       (seq (t_recordings w))"
    using i(1) by (auto simp: RecordingsRepository_insert_def tbl_insert_def split: if_splits)
  have "segment_paths row = Some [rel]" "rc_sizeBytes row = b" "rc_eventId row = ev" "rc_streamName row = stream"
    by (simp_all add: row(3) put_recording_def recording_norm_def first_segment_def recording_values_def segment_paths_def)
  with row i show ?thesis by auto
qed

text \<open>A local recording is kept exactly when its stream was found compliant: when a recording stops
  its handle is released either way; without compliance its temporary file is removed and nothing
  is listed; with it (and the file there) the file is moved, not copied, to the place of its event,
  the recording of that event and stream lists it as its last segment with its bytes counted once,
  and every other recording and every other file stays as it was.\<close>

theorem recording_kept_iff_compliant:
  fixes w :: "'a world_scheme" and cal
  assumes "tbl_ok rc_id (t_recordings w)" "map_get stream (rec_handles w) = Some h" "map_get (hd_tmpPath h) (files w) = Some b"
    and "stopRecording cal stream ev sid label w = (Inr (), w')"
  defines "rel \<equiv> segment_path cal stream ev (hd_startedAt h)"
  shows "map_get stream (rec_handles w') = None
    \<and> (if hd_compliant h
       then (\<forall>p. map_get p (files w') = (if p = rel then Some b else if p = hd_tmpPath h then None else map_get p (files w)))
         \<and> (case append_target ev stream w of
              None \<Rightarrow> \<exists>r. rows (t_recordings w') = rows (t_recordings w) @ [r] \<and> segment_paths r = Some [rel] \<and> rc_sizeBytes r = b
                \<and> rc_eventId r = ev \<and> rc_streamName r = stream
            | Some prev \<Rightarrow> \<exists>segs r. segment_paths prev = Some segs \<and> segment_paths r = Some (segs @ [rel])
                \<and> rc_sizeBytes r = rc_sizeBytes prev + b \<and> rc_id r = rc_id prev
                \<and> rows (t_recordings w') = map (\<lambda>x. if rc_id x = rc_id prev then r else x) (rows (t_recordings w)))
       else t_recordings w' = t_recordings w
         \<and> (\<forall>p. map_get p (files w') = (if p = hd_tmpPath h then None else map_get p (files w))))"
proof (cases "hd_compliant h")
  case False
  with assms(2,4) show ?thesis by (auto simp: stop_discards map_get_del)
next
  case True
  let ?w0 = "w\<lparr>rec_handles := map_del stream (rec_handles w)\<rparr>"
  have fin: "finalizeRecording cal stream h ev sid label ?w0 = (Inr (), w')"
    using assms(2,4) True by (simp add: stopRecording_def take_handle_def close_handle_def)
  have handles: "rec_handles w' = rec_handles ?w0"
    using fin by (auto simp: finalizeRecording_def Let_def andThen_eq_Inr RecordingsRepository_insert_def RecordingsRepository_update_def
        split: option.splits if_splits prod.splits)
  have t0: "append_target ev stream ?w0 = append_target ev stream w"
    by (simp add: append_target_def RecordingsRepository_findMergeTarget_def)
  show ?thesis
  proof (cases "append_target ev stream w")
    case None
    from finalize_inserts[OF _ _ fin, of b] None t0 assms(3) True handles show ?thesis
      by (simp add: rel_def files_moved map_get_del)
  next
    case (Some prev)
    obtain segs where segs: "segment_paths prev = Some segs"
      using fin Some t0 assms(3) by (cases "segment_paths prev")
        (auto simp: finalizeRecording_def Let_def append_target_def RecordingsRepository_findMergeTarget_def)
    define r where "r = put_recording (recording_norm (append_segment h segs rel b (clock w) prev)) (rc_id prev)"
    have "rc_sizeBytes r = rc_sizeBytes prev + b" "rc_id r = rc_id prev"
      by (simp_all add: r_def put_recording_def recording_norm_def append_segment_def Let_def)
    with finalize_appends[of h ?w0 b ev stream prev segs cal sid label] fin Some t0 segs assms(1,3) True handles show ?thesis
      by (auto simp: rel_def[symmetric] r_def[symmetric] files_moved map_get_del same_row_but_def)
  qed
qed


section \<open>Example\<close>

definition taped :: handle where
  "taped = \<lparr>hd_tmpPath = tmp_path ''bob'' ''c1'', hd_startedAt = 1000, hd_compliant = True, hd_width = Some 1280,
     hd_height = Some 720, hd_fps = Some 30\<rparr>"

definition taping :: world where
  "taping = world_start\<lparr>clock := 61000, rec_handles := [(''bob'', taped)], files := [(hd_tmpPath taped, 7)]\<rparr>"

theorem recording_kept_iff_compliant_witness:
  "\<exists>w' r. stopRecording (\<lambda>t. (''d'', ''t'')) ''bob'' None None None taping = (Inr (), w')
     \<and> rows (t_recordings w') = [r] \<and> segment_paths r = Some [''d/bob_t.mkv''] \<and> map_get ''d/bob_t.mkv'' (files w') = Some 7"
proof -
  let ?r = "stopRecording (\<lambda>t. (''d'', ''t'')) ''bob'' None None None taping"
  have "\<not> isl (fst ?r)" by code_simp
  then have r: "?r = (Inr (), snd ?r)" by (metis outcome_ok unit_eq)
  have p: "segment_path (\<lambda>t. (''d'', ''t'')) ''bob'' None (hd_startedAt taped) = ''d/bob_t.mkv''" by code_simp
  have "tbl_ok rc_id (t_recordings taping)" "map_get ''bob'' (rec_handles taping) = Some taped"
    "map_get (hd_tmpPath taped) (files taping) = Some 7" "hd_compliant taped" "t_recordings taping = tbl_empty"
    by (simp_all add: taping_def taped_def map_get_def tbl_ok_def tbl_empty_def)
  with recording_kept_iff_compliant[OF _ _ _ r, of taped 7] p r show ?thesis
    by (force simp: append_target_def tbl_empty_def)
qed

end
