(* ===== verification/StreamLifecycle.thy ===== *)
theory StreamLifecycle
  imports Recorder
begin

text \<open>
  services/stream-lifecycle.ts, the publishes of the local SRS from hook to end, with the hooks
  api/srs/on_publish and on_unpublish, and services/reconcile.ts, which closes what was lost.

  A monitor loop is an entry of monitors under its session; one round of it, from the probe on, is
  monitor_round.  The objects ActiveSession are shared between the Map active and the loops (see
  World).
\<close>

section \<open>State\<close>

record monitor =
  mo_event :: "event_row option"
  mo_metrics :: metrics
  mo_status :: session_status
  mo_compliant :: bool

record live = world +
  monitors :: "(int, monitor) jsmap"

record publish_context =
  pc_app :: string
  pc_stream :: string
  pc_vhost :: string
  pc_clientId :: string
  pc_param :: string

definition live_snapshot :: "active_session \<Rightarrow> metrics \<Rightarrow> session_status \<Rightarrow> bool \<Rightarrow> int option \<Rightarrow> session_snapshot" where
  "live_snapshot s m status compliant endedAt =
     \<lparr>ss_sessionId = sn_sessionId s, ss_eventId = sn_eventId s, ss_streamName = sn_streamName s, ss_status = status,
      ss_srsClientId = (if sn_clientId s = [] then None else Some (sn_clientId s)), ss_nodeId = None,
      ss_width = mt_width m, ss_height = mt_height m, ss_fps = mt_fps m, ss_videoBitrateKbps = mt_videoBitrateKbps m,
      ss_audioBitrateKbps = mt_audioBitrateKbps m, ss_compliant = compliant, ss_rejectReason = None,
      ss_startedAt = sn_startedAtMs s, ss_endedAt = endedAt\<rparr>"


section \<open>Publish\<close>

definition rejected_session :: "publish_context \<Rightarrow> string \<Rightarrow> int \<Rightarrow> publish_session_row" where
  "rejected_session c reason now = (session_values (pc_stream c))\<lparr>
     ps_srsClientId := (if pc_clientId c = [] then None else Some (pc_clientId c)), ps_status := SRejected,
     ps_rejectReason := Some reason, ps_startedAt := now, ps_endedAt := Some now\<rparr>"

definition allowed_session :: "publish_context \<Rightarrow> int \<Rightarrow> int \<Rightarrow> int \<Rightarrow> publish_session_row" where
  "allowed_session c ev key now = (session_values (pc_stream c))\<lparr>ps_eventId := Some ev,
     ps_streamKeyId := (if 0 < key then Some key else None),
     ps_srsClientId := (if pc_clientId c = [] then None else Some (pc_clientId c)), ps_status := SAllowed, ps_startedAt := now\<rparr>"

definition final_status :: "publish_session_row \<Rightarrow> session_status" where
  "final_status r = (if ps_compliant r then SCompliant else SEnded)"

definition supersede :: "publish_session_row \<Rightarrow> publish_session_row \<Rightarrow> 'z core_scheme \<Rightarrow> 'z core_scheme" where
  "supersede row stale w =
     audit LWarn CPublish (''superseded zombie session #'' @ int_str (ps_id stale) @ '' ('' @ ps_streamName row @ '')'')
       (no_opts\<lparr>ai_streamName := Some (ps_streamName row),
          ai_detail := Some (JObj [(''supersededBy'', json_int (ps_id row))])\<rparr>)
       (PublishSessionsRepository_markEnded (ps_id stale) (final_status stale) (ps_startedAt row) w)"

definition supersede_all :: "publish_session_row \<Rightarrow> 'z core_scheme \<Rightarrow> 'z core_scheme" where
  "supersede_all row w = fold (supersede row)
     (filter (\<lambda>s. ps_streamName s = ps_streamName row \<and> ps_id s \<noteq> ps_id row) (PublishSessionsRepository_findActive None w)) w"

definition active_session_of :: "publish_context \<Rightarrow> publish_session_row \<Rightarrow> active_session" where
  "active_session_of c row = \<lparr>sn_sessionId = ps_id row, sn_eventId = ps_eventId row, sn_streamName = pc_stream c,
     sn_app = pc_app c, sn_vhost = pc_vhost c, sn_clientId = pc_clientId c, sn_startedAtMs = ps_startedAt row, sn_active = True\<rparr>"

text \<open>monitorSession up to its first await.\<close>

definition monitor_start :: "active_session \<Rightarrow> live \<Rightarrow> live" where
  "monitor_start s w =
     (let event = (case sn_eventId s of None \<Rightarrow> None | Some i \<Rightarrow> if i = 0 then None else EventsRepository_findById i w);
          w1 = startRecording (sn_streamName s) (sn_clientId s) w;
          w2 = snd (getConfig w1)
      in w2\<lparr>monitors := map_put (sn_sessionId s) \<lparr>mo_event = event, mo_metrics = no_metrics, mo_status = SAllowed,
             mo_compliant = False\<rparr> (monitors w2)\<rparr>)"

definition publish_admitted :: "publish_context \<Rightarrow> string option \<Rightarrow> publish_session_row \<Rightarrow> live \<Rightarrow> live" where
  "publish_admitted c label row w =
     (let s = active_session_of c row;
          w1 = supersede_all row w;
          w2 = w1\<lparr>session_objs := map_put (ps_id row) s (session_objs w1),
                  active_map := map_put (pc_stream c) (ps_id row) (active_map w1)\<rparr>;
          w3 = emit (SessionStart (live_snapshot s no_metrics SAllowed False None)) w2;
          w4 = audit LInfo CPublish (''publish started: '' @ pc_stream c)
                 \<lparr>ai_actor = Some (pc_stream c), ai_eventId = ps_eventId row, ai_streamName = Some (pc_stream c),
                  ai_detail = Some (JObj [(''clientId'', JStr (pc_clientId c)), (''app'', JStr (pc_app c)),
                    (''studentLabel'', json_opt JStr label)])\<rparr> w3
      in monitor_start s w4)"

text \<open>The result is None for an admitted publish, or the reason of the refusal.\<close>

definition handlePublish :: "externals \<Rightarrow> publish_context \<Rightarrow> live \<Rightarrow> (string option, live) outcome" where
  "handlePublish x c w =
     (case authorizePublish x (pc_stream c) (pc_param c) w of
        (Reject reason, w1) \<Rightarrow>
          andThen (PublishSessionsRepository_insert (rejected_session c reason (clock w1)) w1) (\<lambda>_ w2.
            (Inr (Some reason), audit LWarn CAccess (''publish rejected: '' @ pc_stream c @ '' ('' @ reason @ '')'')
               \<lparr>ai_actor = Some (pc_stream c), ai_eventId = None, ai_streamName = Some (pc_stream c),
                ai_detail = Some (JObj [(''reason'', JStr reason), (''clientId'', JStr (pc_clientId c))])\<rparr> w2))
      | (Allow ev key label, w1) \<Rightarrow>
          andThen (PublishSessionsRepository_insert (allowed_session c ev key (clock w1)) w1) (\<lambda>row w2.
            (Inr None, publish_admitted c label row w2)))"


section \<open>Unpublish\<close>

definition unpublish_status :: "publish_session_row option \<Rightarrow> session_status" where
  "unpublish_status prev = (case prev of None \<Rightarrow> SEnded
     | Some p \<Rightarrow> if ps_status p = SKilled then SKilled else final_status p)"

definition row_metrics :: "publish_session_row option \<Rightarrow> metrics" where
  "row_metrics r = (case r of None \<Rightarrow> no_metrics
     | Some p \<Rightarrow> \<lparr>mt_width = ps_width p, mt_height = ps_height p, mt_fps = ps_fps p,
         mt_videoBitrateKbps = ps_videoBitrateKbps p, mt_audioBitrateKbps = ps_audioBitrateKbps p\<rparr>)"

definition end_session :: "active_session \<Rightarrow> live \<Rightarrow> live" where
  "end_session s w =
     (let prev = PublishSessionsRepository_findById (sn_sessionId s) w; status = unpublish_status prev
      in emit (SessionStop (live_snapshot s (row_metrics prev) status (case prev of None \<Rightarrow> False | Some p \<Rightarrow> ps_compliant p) (Some (clock w))))
           (PublishSessionsRepository_markEnded (sn_sessionId s) status (clock w) w))"

definition handleUnpublish :: "calendar \<Rightarrow> string \<Rightarrow> live \<Rightarrow> (unit, live) outcome" where
  "handleUnpublish cal stream w =
     (let done = (\<lambda>w. (Inr (), audit LInfo CPublish (''publish ended: '' @ stream)
            (no_opts\<lparr>ai_actor := Some stream, ai_streamName := Some stream\<rparr>) w))
      in case Option.bind (map_get stream (active_map w)) (\<lambda>i. map_get i (session_objs w)) of
           None \<Rightarrow> done w
         | Some s \<Rightarrow>
             let w1 = w\<lparr>session_objs := map_put (sn_sessionId s) (s\<lparr>sn_active := False\<rparr>) (session_objs w),
                        active_map := map_del stream (active_map w)\<rparr>;
                 w2 = end_session s w1
             in andThen (stopRecording cal (sn_streamName s) (sn_eventId s) (Some (sn_sessionId s)) None w2) (\<lambda>_ w3. done w3))"


section \<open>The monitor\<close>

text \<open>n.toFixed(2), on exact numbers.\<close>

definition toFixed2 :: "rat \<Rightarrow> string" where
  "toFixed2 r = (let n = js_round (\<bar>r\<bar> * 100); frac = nat_digits (nat (n mod 100)) in
     (if r < 0 then ''-'' else '''') @ int_str (n div 100) @ ''.'' @ (if n mod 100 < 10 then CHR ''0'' # frac else frac))"

text \<open>String of a limit; a whole number has no point.\<close>

definition checkLimits :: "(rat \<Rightarrow> string) \<Rightarrow> probe_result \<Rightarrow> limits \<Rightarrow> string list" where
  "checkLimits num r l =
     (if 0 < maxWidth l \<and> maxWidth l < pr_width r \<or> 0 < maxHeight l \<and> maxHeight l < pr_height r
      then [''resolution '' @ int_str (pr_width r) @ ''x'' @ int_str (pr_height r) @ '' > ''
              @ int_str (maxWidth l) @ ''x'' @ int_str (maxHeight l)] else [])
   @ (if 0 < maxFps l \<and> maxFps l < pr_fps r then [''fps '' @ toFixed2 (pr_fps r) @ '' > '' @ num (maxFps l)] else [])
   @ (if 0 < maxVideoBitrateKbps l \<and> maxVideoBitrateKbps l < pr_videoBitrateKbps r
      then [''bitrate '' @ int_str (pr_videoBitrateKbps r) @ ''kbps > '' @ int_str (maxVideoBitrateKbps l) @ ''kbps''] else [])"

definition probed_metrics :: "probe_result \<Rightarrow> metrics" where
  "probed_metrics r = \<lparr>mt_width = Some (pr_width r), mt_height = Some (pr_height r), mt_fps = Some (pr_fps r),
     mt_videoBitrateKbps = Some (pr_videoBitrateKbps r), mt_audioBitrateKbps = None\<rparr>"

definition probe_json :: "probe_result \<Rightarrow> (string \<times> json) list" where
  "probe_json r = [(''width'', json_int (pr_width r)), (''height'', json_int (pr_height r)), (''fps'', JNum (pr_fps r)),
     (''videoBitrateKbps'', json_int (pr_videoBitrateKbps r))]"

definition monitor_violating :: "active_session \<Rightarrow> monitor \<Rightarrow> probe_result \<Rightarrow> string list \<Rightarrow> live \<Rightarrow> live" where
  "monitor_violating s m r reasons w =
     (let w1 = PublishSessionsRepository_updateStatus (sn_sessionId s) SViolating None None w;
          w2 = emit (SessionViolation (live_snapshot s (mo_metrics m) SViolating (mo_compliant m) None) reasons) w1
      in audit LWarn CPublish (''violation: '' @ sn_streamName s @ '' ('' @ js_join ''; '' reasons @ '')'')
           \<lparr>ai_actor = Some (sn_streamName s), ai_eventId = sn_eventId s, ai_streamName = Some (sn_streamName s),
            ai_detail = Some (JObj ((''reasons'', json_strings reasons) # probe_json r))\<rparr> w2)"

definition monitor_compliant :: "active_session \<Rightarrow> monitor \<Rightarrow> probe_result \<Rightarrow> live \<Rightarrow> live" where
  "monitor_compliant s m r w =
     (let w1 = PublishSessionsRepository_updateStatus (sn_sessionId s) SCompliant None (Some True) w;
          w2 = markCompliant (sn_streamName s) (pr_width r) (pr_height r) (pr_fps r) w1
      in emit (SessionMetric (live_snapshot s (mo_metrics m) SCompliant True None)) w2)"

text \<open>What a round does with the result of its probe.\<close>

definition monitor_judge :: "(rat \<Rightarrow> string) \<Rightarrow> limits \<Rightarrow> active_session \<Rightarrow> monitor \<Rightarrow> probe_result \<Rightarrow> live \<Rightarrow> monitor \<times> live" where
  "monitor_judge num l s m0 r w =
     (let m = m0\<lparr>mo_metrics := probed_metrics r\<rparr>;
          w1 = emit (SessionMetric (live_snapshot s (mo_metrics m) (mo_status m) (mo_compliant m) None))
                 (update_metrics (sn_sessionId s) (mo_metrics m) w);
          reasons = checkLimits num r l
      in if reasons \<noteq> [] then (m\<lparr>mo_status := SViolating\<rparr>, monitor_violating s m r reasons w1)
         else if \<not> mo_compliant m then (m\<lparr>mo_compliant := True, mo_status := SCompliant\<rparr>, monitor_compliant s m r w1)
         else (m, w1))"

text \<open>After the probe: unless the session has ended meanwhile the result is judged; a loop whose
  session has ended stops.\<close>

definition monitor_finish :: "(rat \<Rightarrow> string) \<Rightarrow> limits \<Rightarrow> int \<Rightarrow> probe_result option \<Rightarrow> live \<Rightarrow> live" where
  "monitor_finish num l i result w =
     (case (map_get i (monitors w), map_get i (session_objs w)) of
        (Some m, Some s) \<Rightarrow>
          if \<not> sn_active s then w\<lparr>monitors := map_del i (monitors w)\<rparr>
          else (case result of
              None \<Rightarrow> w
            | Some r \<Rightarrow> let (m1, w1) = monitor_judge num l s m r w in w1\<lparr>monitors := map_put i m1 (monitors w1)\<rparr>)
      | _ \<Rightarrow> w)"

text \<open>A round: the limits are read, the probe runs, and its result is judged.  during is what the
  rest of the server does while the probe runs.\<close>

definition monitor_round :: "(rat \<Rightarrow> string) \<Rightarrow> int \<Rightarrow> (live \<Rightarrow> live) \<Rightarrow> probe_result option \<Rightarrow> live \<Rightarrow> live" where
  "monitor_round num i during result w =
     (case (map_get i (monitors w), map_get i (session_objs w)) of
        (Some m, Some s) \<Rightarrow>
          if \<not> sn_active s then w\<lparr>monitors := map_del i (monitors w)\<rparr>
          else let (l, w1) = getLimitsFor (mo_event m) w in monitor_finish num l i result (during w1)
      | _ \<Rightarrow> w)"


section \<open>The hooks of SRS\<close>

record srs_body =
  sb_action :: "string option"
  sb_client_id :: "string option"
  sb_stream :: "string option"
  sb_app :: "string option"
  sb_vhost :: "string option"
  sb_param :: "string option"

definition on_publish :: "externals \<Rightarrow> srs_body option \<Rightarrow> live \<Rightarrow> string \<times> live" where
  "on_publish x body w =
     (case body of
        None \<Rightarrow> (''1'', w)
      | Some b \<Rightarrow>
          if orDefault (sb_action b) ''on_publish'' = ''on_unpublish'' then (''0'', w)
          else if orDefault (sb_stream b) [] = [] \<or> orDefault (sb_app b) [] = [] then (''1'', w)
          else case handlePublish x \<lparr>pc_app = orDefault (sb_app b) [], pc_stream = orDefault (sb_stream b) [],
                   pc_vhost = orDefault (sb_vhost b) ''__defaultVhost__'', pc_clientId = orDefault (sb_client_id b) [],
                   pc_param = orDefault (sb_param b) []\<rparr> w of
            (Inr None, w1) \<Rightarrow> (''0'', w1)
          | (_, w1) \<Rightarrow> (''1'', w1))"

definition on_unpublish :: "calendar \<Rightarrow> srs_body option \<Rightarrow> live \<Rightarrow> string \<times> live" where
  "on_unpublish cal body w =
     (case body of
        None \<Rightarrow> (''0'', w)
      | Some b \<Rightarrow> if orDefault (sb_stream b) [] = [] then (''0'', w)
          else (''0'', snd (handleUnpublish cal (orDefault (sb_stream b) []) w)))"


section \<open>Writes to the sessions one by one\<close>

text \<open>A fold that rewrites one session at a time, each once, rewrites them all.\<close>

lemma fold_session_writes:
  assumes "\<And>r w. rows (t_sessions (g r w)) = map (\<lambda>x. if ps_id x = ps_id r then h r x else x) (rows (t_sessions w))"
    and "\<And>r x. ps_id (h r x) = ps_id x"
    and "\<And>r x. r \<in> set rs \<Longrightarrow> x \<in> set (rows (t_sessions w)) \<Longrightarrow> ps_id x = ps_id r \<Longrightarrow> x = r"
    and "distinct (map ps_id rs)"
  shows "rows (t_sessions (fold g rs w)) = map (\<lambda>x. if x \<in> set rs then h x x else x) (rows (t_sessions w))"
  using assms(3,4)
proof (induction rs arbitrary: w)
  case (Cons r rs)
  let ?f = "\<lambda>x. if ps_id x = ps_id r then h r x else x"
  have fresh: "ps_id r \<notin> ps_id ` set rs" using Cons.prems(2) by auto
  have "x = r'" if r': "r' \<in> set rs" and x: "x \<in> set (rows (t_sessions (g r w)))" and same: "ps_id x = ps_id r'" for r' x
  proof -
    obtain y where y: "y \<in> set (rows (t_sessions w))" "x = ?f y" using x by (auto simp: assms(1))
    then have "ps_id y = ps_id r'" using same assms(2) by (simp split: if_splits)
    moreover have "ps_id r' \<noteq> ps_id r" using fresh r' by (metis image_eqI)
    ultimately show ?thesis using y Cons.prems(1)[of r' y] r' by simp
  qed
  with Cons.IH[of "g r w"] Cons.prems(2)
  have "rows (t_sessions (fold g rs (g r w))) = map (\<lambda>x. if x \<in> set rs then h x x else x) (map ?f (rows (t_sessions w)))"
    by (simp add: assms(1))
  also have "\<dots> = map (\<lambda>x. if x \<in> set (r # rs) then h x x else x) (rows (t_sessions w))"
  proof (simp only: map_map comp_def, rule map_cong[OF refl])
    fix x assume x: "x \<in> set (rows (t_sessions w))"
    have notin: "y \<notin> set rs" if "ps_id y = ps_id r" for y using fresh that by (metis image_eqI)
    show "(if ?f x \<in> set rs then h (?f x) (?f x) else ?f x) = (if x \<in> set (r # rs) then h x x else x)"
    proof (cases "ps_id x = ps_id r")
      case True
      then have "x = r" using Cons.prems(1)[of r x] x by simp
      then show ?thesis using notin[of "h r r"] assms(2) by simp
    next
      case False
      then show ?thesis by auto
    qed
  qed
  finally show ?case by simp
qed simp

lemma fold_keeps: "(\<And>r w. f (g r w) = f w) \<Longrightarrow> f (fold g rs w) = f w"
  by (induction rs arbitrary: w) simp_all

lemma supersede_effect:
  "rows (t_sessions (supersede row r w)) =
     map (\<lambda>x. if ps_id x = ps_id r then x\<lparr>ps_endedAt := Some (db_ts (ps_startedAt row)), ps_status := final_status r\<rparr> else x) (rows (t_sessions w))"
  "core.more (supersede row r w) = core.more w" "t_events (supersede row r w) = t_events w" "clock (supersede row r w) = clock w"
  by (simp_all add: supersede_def PublishSessionsRepository_markEnded_def sessions_set_def tbl_update_def)

lemma findActive_distinct:
  assumes "tbl_ok ps_id (t_sessions w)"
  shows "distinct (map ps_id (PublishSessionsRepository_findActive ev w))"
proof -
  have "distinct (map ps_id (rows (t_sessions w)))" using assms by (auto simp: tbl_ok_def strict_sorted_iff)
  then show ?thesis
    unfolding PublishSessionsRepository_findActive_def tbl_select_def order_desc_def
    by (metis (no_types, lifting) distinct_map_filter mset_eq_imp_distinct_iff mset_map mset_sort)
qed

definition superseded :: "publish_session_row \<Rightarrow> publish_session_row \<Rightarrow> publish_session_row" where
  "superseded row x = (if ps_streamName x = ps_streamName row \<and> ps_endedAt x = None \<and> ps_id x \<noteq> ps_id row
     then x\<lparr>ps_endedAt := Some (db_ts (ps_startedAt row)), ps_status := final_status x\<rparr> else x)"

lemma supersede_all_effect:
  fixes w :: "'a core_scheme"
  assumes "tbl_ok ps_id (t_sessions w)"
  shows "rows (t_sessions (supersede_all row w)) = map (superseded row) (rows (t_sessions w))"
    "core.more (supersede_all row w) = core.more w" "t_events (supersede_all row w) = t_events w" "clock (supersede_all row w) = clock w"
proof -
  let ?rs = "filter (\<lambda>s. ps_streamName s = ps_streamName row \<and> ps_id s \<noteq> ps_id row) (PublishSessionsRepository_findActive None w)"
  have rs: "set ?rs = {x \<in> set (rows (t_sessions w)). ps_endedAt x = None \<and> ps_streamName x = ps_streamName row \<and> ps_id x \<noteq> ps_id row}"
    by (auto simp: PublishSessionsRepository_findActive_def tbl_select_def)
  have "distinct (map ps_id ?rs)" by (rule distinct_map_filter[OF findActive_distinct[OF assms]])
  moreover have "x = r" if "r \<in> set ?rs" "x \<in> set (rows (t_sessions w))" "ps_id x = ps_id r" for r x
    using sess.key_inj[OF assms that(2) _ that(3)] that(1) unfolding rs by blast
  ultimately have "rows (t_sessions (supersede_all row w)) = map (\<lambda>x. if x \<in> set ?rs
      then x\<lparr>ps_endedAt := Some (db_ts (ps_startedAt row)), ps_status := final_status x\<rparr> else x) (rows (t_sessions w))"
    unfolding supersede_all_def by (intro fold_session_writes) (simp_all add: supersede_effect(1))
  also have "\<dots> = map (superseded row) (rows (t_sessions w))"
    unfolding rs by (intro map_cong) (auto simp: superseded_def)
  finally show "rows (t_sessions (supersede_all row w)) = map (superseded row) (rows (t_sessions w))" .
qed (simp_all add: supersede_all_def fold_keeps supersede_effect)


section \<open>What a publish leaves\<close>

lemma startRecording_frame [simp]:
  fixes w :: "'a world_scheme"
  shows "t_sessions (startRecording n c w) = t_sessions w" "t_events (startRecording n c w) = t_events w"
    "active_map (startRecording n c w) = active_map w" "session_objs (startRecording n c w) = session_objs w"
    "world.more (startRecording n c w) = world.more w"
  by (auto simp: startRecording_def getConfig_def Let_def case_prod_unfold split: option.split)

lemma getConfig_live [simp]:
  fixes w :: "'a world_scheme"
  shows "active_map (snd (getConfig w)) = active_map w" "session_objs (snd (getConfig w)) = session_objs w"
    "world.more (snd (getConfig w)) = world.more w"
  by (auto simp: getConfig_def Let_def split: option.split)

lemma monitors_more: "world.more w' = world.more w \<Longrightarrow> monitors w' = monitors w" for w :: live
  by (cases w; cases w') simp

lemma monitors_core: "core.more w' = core.more w \<Longrightarrow> monitors w' = monitors w \<and> active_map w' = active_map w
    \<and> session_objs w' = session_objs w \<and> rec_handles w' = rec_handles w" for w :: live
  by (cases w; cases w') simp

lemma emit_world_more [simp]: "world.more (emit e w) = world.more w" "world.more (audit l c m v w) = world.more w"
  for w :: "'a world_scheme"
  by (simp_all add: emit_def audit_def AuditLogRepository_insert_def Let_def case_prod_unfold)

lemma monitors_logged [simp]: "monitors (audit l c m v w) = monitors w" "monitors (emit e w) = monitors w"
  for w :: live
  by (rule monitors_more, simp)+

lemma monitor_start_effect:
  "t_sessions (monitor_start s w) = t_sessions w" "active_map (monitor_start s w) = active_map w"
  "session_objs (monitor_start s w) = session_objs w"
  "monitors (monitor_start s w) = map_put (sn_sessionId s)
     \<lparr>mo_event = (case sn_eventId s of None \<Rightarrow> None | Some i \<Rightarrow> if i = 0 then None else EventsRepository_findById i w),
      mo_metrics = no_metrics, mo_status = SAllowed, mo_compliant = False\<rparr> (monitors w)"
proof -
  have "monitors (snd (getConfig (startRecording (sn_streamName s) (sn_clientId s) w))) = monitors w"
    by (rule monitors_more) simp
  then show "monitors (monitor_start s w) = map_put (sn_sessionId s)
     \<lparr>mo_event = (case sn_eventId s of None \<Rightarrow> None | Some i \<Rightarrow> if i = 0 then None else EventsRepository_findById i w),
      mo_metrics = no_metrics, mo_status = SAllowed, mo_compliant = False\<rparr> (monitors w)"
    by (simp add: monitor_start_def Let_def)
qed (simp_all add: monitor_start_def Let_def)

lemma publish_admitted_effect:
  assumes "tbl_ok ps_id (t_sessions w)"
  shows "rows (t_sessions (publish_admitted c label row w)) = map (superseded row) (rows (t_sessions w))"
    "active_map (publish_admitted c label row w) = map_put (pc_stream c) (ps_id row) (active_map w)"
    "session_objs (publish_admitted c label row w) = map_put (ps_id row) (active_session_of c row) (session_objs w)"
    "monitors (publish_admitted c label row w) = map_put (ps_id row)
       \<lparr>mo_event = (case ps_eventId row of None \<Rightarrow> None | Some i \<Rightarrow> if i = 0 then None else EventsRepository_findById i w),
        mo_metrics = no_metrics, mo_status = SAllowed, mo_compliant = False\<rparr> (monitors w)"
proof -
  note s = supersede_all_effect[OF assms, of row]
  note m = monitors_core[OF s(2)]
  show "rows (t_sessions (publish_admitted c label row w)) = map (superseded row) (rows (t_sessions w))"
    by (simp add: publish_admitted_def Let_def monitor_start_effect s)
  show "active_map (publish_admitted c label row w) = map_put (pc_stream c) (ps_id row) (active_map w)"
    using m by (simp add: publish_admitted_def Let_def monitor_start_effect)
  show "session_objs (publish_admitted c label row w) = map_put (ps_id row) (active_session_of c row) (session_objs w)"
    using m by (simp add: publish_admitted_def Let_def monitor_start_effect)
  show "monitors (publish_admitted c label row w) = map_put (ps_id row)
       \<lparr>mo_event = (case ps_eventId row of None \<Rightarrow> None | Some i \<Rightarrow> if i = 0 then None else EventsRepository_findById i w),
        mo_metrics = no_metrics, mo_status = SAllowed, mo_compliant = False\<rparr> (monitors w)"
    using m by (simp add: publish_admitted_def Let_def monitor_start_effect EventsRepository_findById_def s
        active_session_of_def split: option.split)
qed

lemma publish_admitted_seq: "seq (t_sessions (publish_admitted c label row w)) = seq (t_sessions w)"
proof -
  have "seq (t_sessions (supersede_all row w)) = seq (t_sessions w)" for w :: live
    unfolding supersede_all_def
    by (rule fold_keeps) (simp add: supersede_def PublishSessionsRepository_markEnded_def sessions_set_def tbl_update_def)
  then show ?thesis by (simp add: publish_admitted_def Let_def monitor_start_effect)
qed

lemma session_insert:
  assumes "PublishSessionsRepository_insert v w = (Inr row, w')"
  shows "rows (t_sessions w') = rows (t_sessions w) @ [row]" "row = put_session (session_norm v) (seq (t_sessions w))"
    "core.more w' = core.more w" "t_events w' = t_events w" "clock w' = clock w"
  using assms by (auto simp: PublishSessionsRepository_insert_def tbl_insert_def split: if_splits)

lemma superseded_new: "ps_id row = ps_id x \<Longrightarrow> superseded row x = x"
  by (simp add: superseded_def)

lemma authorize_key_id:
  assumes "authorizePublish x n q w = (Allow ev key label, w1)" "0 < key"
  shows "has sk_id (t_streamKeys w1) key"
proof -
  have touched: "has sk_id (t_streamKeys (StreamKeysRepository_touch i w)) j \<longleftrightarrow> has sk_id (t_streamKeys w) j" for i j
    by (simp add: StreamKeysRepository_touch_def keys_set_def has_update)
  show ?thesis using assms
    by (auto simp: authorizePublish_def authorize_key_def authorize_event_def Let_def touched
        dest!: matching_keyD split: option.splits if_splits) (simp add: has_def)
qed

lemma allowed_insert:
  assumes "integrity w" "authorizePublish x (pc_stream c) (pc_param c) w = (Allow ev key label, w1)"
  obtains row w2 where "PublishSessionsRepository_insert (allowed_session c ev key (clock w1)) w1 = (Inr row, w2)"
proof -
  from authorize_event_id[OF assms(2)] obtain e where e: "e \<in> set (rows (t_events w))" "ev_id e = ev" by blast
  have "t_events w1 = t_events w" using authorize_frame(3)[of x "pc_stream c" "pc_param c" w] assms(2) by simp
  moreover have "tbl_ok ev_id (t_events w)" using assms(1) by (simp add: integrity_def ids_ok_def)
  ultimately have "EventsRepository_findById ev w1 = Some e"
    using e evts.find_key[OF _ e(1)] by (simp add: EventsRepository_findById_def)
  moreover have "tbl_find (\<lambda>r. sk_id r = key) (t_streamKeys w1) \<noteq> None" if "0 < key"
    using authorize_key_id[OF assms(2) that] by (simp only: has_find)
  ultimately have "\<exists>row w2. PublishSessionsRepository_insert (allowed_session c ev key (clock w1)) w1 = (Inr row, w2)"
    by (simp add: PublishSessionsRepository_insert_def allowed_session_def case_prod_unfold)
  then show thesis using that by blast
qed

lemma handlePublish_allowed:
  assumes "integrity w" "authorizePublish x (pc_stream c) (pc_param c) w = (Allow ev key label, w1)"
    "handlePublish x c w = (res, w')"
  shows "res = Inr None \<and> (\<exists>row. ps_id row = seq (t_sessions w) \<and> seq (t_sessions w') = ps_id row + 1 \<and> ps_nodeId row = None
     \<and> ps_id row \<notin> ps_id ` set (rows (t_sessions w))
     \<and> rows (t_sessions w') = map (superseded row) (rows (t_sessions w)) @ [row]
     \<and> ps_streamName row = pc_stream c \<and> ps_eventId row = Some ev \<and> ps_status row = SAllowed \<and> ps_endedAt row = None
     \<and> active_map w' = map_put (pc_stream c) (ps_id row) (active_map w)
     \<and> session_objs w' = map_put (ps_id row) (active_session_of c row) (session_objs w)
     \<and> monitors w' = map_put (ps_id row) \<lparr>mo_event = EventsRepository_findById ev w, mo_metrics = no_metrics,
         mo_status = SAllowed, mo_compliant = False\<rparr> (monitors w))"
proof -
  obtain row w2 where i: "PublishSessionsRepository_insert (allowed_session c ev key (clock w1)) w1 = (Inr row, w2)"
    by (rule allowed_insert[OF assms(1,2)])
  note ins = session_insert[OF i]
  have f: "t_sessions w1 = t_sessions w" "t_events w1 = t_events w"
    using authorize_frame(1,3)[of x "pc_stream c" "pc_param c" w] assms(2) by simp_all
  have "core.more w2 = core.more w" using ins(3) authorize_more[of x "pc_stream c" "pc_param c" w] assms(2) by simp
  note m = monitors_core[OF this]
  have "integrity w1" using authorizePublish_state[of x "pc_stream c" "pc_param c" w] assms(1,2)
    by (auto simp: StreamKeysRepository_integrity)
  then have "integrity w2" using PublishSessionsRepository_integrity(1)[of w1] i by (metis snd_conv)
  then have ok: "tbl_ok ps_id (t_sessions w2)" by (simp add: integrity_def ids_ok_def)
  have row: "ps_streamName row = pc_stream c" "ps_eventId row = Some ev" "ps_status row = SAllowed" "ps_endedAt row = None"
    "ps_nodeId row = None" "ps_id row = seq (t_sessions w)"
    unfolding ins(2) f by (simp_all add: put_session_def session_norm_def allowed_session_def session_values_def)
  have seq: "seq (t_sessions w2) = ps_id row + 1" "seq (t_sessions (publish_admitted c label row w2)) = seq (t_sessions w2)"
    using i row(6) f by (auto simp: PublishSessionsRepository_insert_def tbl_insert_def publish_admitted_seq split: if_splits)
  from authorize_event_id[OF assms(2)] obtain e where e: "e \<in> set (rows (t_events w))" "ev_id e = ev" by blast
  have "tbl_ok ev_id (t_events w)" using assms(1) by (simp add: integrity_def ids_ok_def)
  then have "ev \<noteq> 0" using e by (auto simp: tbl_ok_def)
  moreover have "EventsRepository_findById ev w2 = EventsRepository_findById ev w"
    by (simp add: EventsRepository_findById_def ins(4) f)
  moreover have "res = Inr None" "w' = publish_admitted c label row w2"
    using assms(2,3) i by (simp_all add: handlePublish_def andThen_def)
  moreover have "ps_id row \<notin> ps_id ` set (rows (t_sessions w))"
    unfolding ins(2) using assms(1) f by (auto simp: put_session_def integrity_def ids_ok_def tbl_ok_def)
  ultimately show ?thesis
    using row seq publish_admitted_effect[OF ok, where c = c and label = label and row = row] ins(1) f m by (simp add: superseded_new)
qed

lemma handlePublish_refused:
  assumes "authorizePublish x (pc_stream c) (pc_param c) w = (Reject reason, w1)" "handlePublish x c w = (res, w')"
  shows "res = Inr (Some reason) \<and> core.more w' = core.more w \<and> seq (t_sessions w') = seq (t_sessions w) + 1
    \<and> (\<exists>row. rows (t_sessions w') = rows (t_sessions w) @ [row] \<and> ps_streamName row = pc_stream c
        \<and> ps_status row = SRejected \<and> ps_rejectReason row = Some reason \<and> ps_endedAt row \<noteq> None)"
proof -
  have f: "t_sessions w1 = t_sessions w" "core.more w1 = core.more w"
    using authorize_frame(1)[of x "pc_stream c" "pc_param c" w] authorize_more[of x "pc_stream c" "pc_param c" w] assms(1) by simp_all
  obtain row w2 where i: "PublishSessionsRepository_insert (rejected_session c reason (clock w1)) w1 = (Inr row, w2)"
    by (simp add: PublishSessionsRepository_insert_def rejected_session_def session_values_def case_prod_unfold)
  note ins = session_insert[OF i]
  have "ps_streamName row = pc_stream c \<and> ps_status row = SRejected \<and> ps_rejectReason row = Some reason \<and> ps_endedAt row \<noteq> None"
    unfolding ins(2) by (simp add: put_session_def session_norm_def rejected_session_def session_values_def)
  moreover have "seq (t_sessions w2) = seq (t_sessions w) + 1"
    using i f by (auto simp: PublishSessionsRepository_insert_def tbl_insert_def split: if_splits)
  ultimately show ?thesis using i ins f assms by (auto simp: handlePublish_def andThen_def)
qed

text \<open>One live session per name: a publish the authorization admits to an event adds exactly one
  session, open, allowed and of that event; every other open session of that stream name is closed
  at its start, as compliant or ended by what was known of it, and no other session changes, so
  that the new one is the only open session of the name; the Map of live streams and the monitor
  point at it, and its monitor starts with no measurement under the limits of the event.  A
  publish that is refused adds one closed, rejected session with the reason, and no live stream,
  recording or monitor.\<close>

theorem publish_one_live:
  assumes "integrity w" "handlePublish x c w = (res, w')"
  shows "case fst (authorizePublish x (pc_stream c) (pc_param c) w) of
      Reject reason \<Rightarrow> res = Inr (Some reason) \<and> core.more w' = core.more w
        \<and> (\<exists>row. rows (t_sessions w') = rows (t_sessions w) @ [row] \<and> ps_streamName row = pc_stream c
            \<and> ps_status row = SRejected \<and> ps_rejectReason row = Some reason \<and> ps_endedAt row \<noteq> None)
    | Allow ev key label \<Rightarrow> res = Inr None \<and> (\<exists>row.
          rows (t_sessions w') = map (superseded row) (rows (t_sessions w)) @ [row]
        \<and> ps_streamName row = pc_stream c \<and> ps_eventId row = Some ev \<and> ps_status row = SAllowed \<and> ps_endedAt row = None
        \<and> (\<forall>r\<in>set (rows (t_sessions w')). ps_streamName r = pc_stream c \<and> ps_endedAt r = None \<longrightarrow> r = row)
        \<and> map_get (pc_stream c) (active_map w') = Some (ps_id row)
        \<and> map_get (ps_id row) (session_objs w') = Some (active_session_of c row)
        \<and> map_get (ps_id row) (monitors w') =
            Some \<lparr>mo_event = EventsRepository_findById ev w, mo_metrics = no_metrics, mo_status = SAllowed, mo_compliant = False\<rparr>)"
proof -
  let ?a = "authorizePublish x (pc_stream c) (pc_param c) w"
  obtain w1 where w1: "snd ?a = w1" by blast
  show ?thesis
  proof (cases "fst ?a")
    case (Reject reason)
    then have "?a = (Reject reason, w1)" using w1 by (simp add: prod_eq_iff)
    with handlePublish_refused[OF this assms(2)] Reject show ?thesis by simp
  next
    case (Allow ev key label)
    then have a: "?a = (Allow ev key label, w1)" using w1 by (simp add: prod_eq_iff)
    from handlePublish_allowed[OF assms(1) a assms(2)] obtain row where row: "res = Inr None"
      "ps_id row \<notin> ps_id ` set (rows (t_sessions w))"
      "rows (t_sessions w') = map (superseded row) (rows (t_sessions w)) @ [row]"
      "ps_streamName row = pc_stream c" "ps_eventId row = Some ev" "ps_status row = SAllowed" "ps_endedAt row = None"
      "active_map w' = map_put (pc_stream c) (ps_id row) (active_map w)"
      "session_objs w' = map_put (ps_id row) (active_session_of c row) (session_objs w)"
      "monitors w' = map_put (ps_id row) \<lparr>mo_event = EventsRepository_findById ev w, mo_metrics = no_metrics,
         mo_status = SAllowed, mo_compliant = False\<rparr> (monitors w)"
      by blast
    have only: "\<forall>r\<in>set (rows (t_sessions w')). ps_streamName r = pc_stream c \<and> ps_endedAt r = None \<longrightarrow> r = row"
      using row(2,4) unfolding row(3) by (auto simp: superseded_def image_iff split: if_splits)
    have "map_get (pc_stream c) (active_map w') = Some (ps_id row)"
      "map_get (ps_id row) (session_objs w') = Some (active_session_of c row)"
      "map_get (ps_id row) (monitors w') =
         Some \<lparr>mo_event = EventsRepository_findById ev w, mo_metrics = no_metrics, mo_status = SAllowed, mo_compliant = False\<rparr>"
      by (simp_all add: row map_get_put)
    note row = row this
    show ?thesis unfolding Allow auth_result.case
      by (intro conjI exI[of _ row]) (fact row only)+
  qed
qed

text \<open>Event 1 is live, and the process was restarted while Ann published.\<close>

definition zombie :: live where
  "zombie = world.extend (world_start\<lparr>clock := 2000, t_events := \<lparr>rows = [demo_event], seq = 2\<rparr>,
     t_sessions := \<lparr>rows = [(session_values ''ann'')\<lparr>ps_id := 1, ps_eventId := Some 1, ps_status := SCompliant,
       ps_compliant := True\<rparr>], seq = 2\<rparr>\<rparr>) (live.fields [])"

definition ann_again :: publish_context where
  "ann_again = \<lparr>pc_app = ''live'', pc_stream = ''ann'', pc_vhost = ''v'', pc_clientId = ''c2'', pc_param = ''?token=contest''\<rparr>"

lemma zombie_integrity: "integrity zombie"
  by (simp add: zombie_def world.defs live.defs schema_decls event_ban_keys_def tbl_ok_def has_def has_opt_def
      tbl_empty_def demo_event_def event_values_def session_values_def world_start_def demo_core_def core.defs db.defs db_empty_def)

lemma zombie_state:
  "clock zombie = 2000" "t_events zombie = \<lparr>rows = [demo_event], seq = 2\<rparr>" "t_streamKeys zombie = tbl_empty"
  "t_sessions zombie = \<lparr>rows = [(session_values ''ann'')\<lparr>ps_id := 1, ps_eventId := Some 1, ps_status := SCompliant,
     ps_compliant := True\<rparr>], seq = 2\<rparr>"
  by (simp_all add: zombie_def world.defs live.defs)

lemma ann_admitted: "fst (authorizePublish demo_externals (pc_stream ann_again) (pc_param ann_again) zombie) = Allow 1 (-1) None"
proof -
  have "EventsRepository_findByPublishKey ''contest'' zombie = Some demo_event"
    "StreamKeysRepository_findAllByStreamName ''ann'' zombie = []" "findEventByPublishToken demo_externals ''contest'' zombie = None"
    by (simp_all add: zombie_state EventsRepository_findByPublishKey_def tbl_find_def tbl_select_def tbl_empty_def
        EventsRepository_findByPublishTokenPrefix_def StreamKeysRepository_findAllByStreamName_def findEventByPublishToken_def
        demo_event_def event_values_def)
  then show ?thesis
    by (simp add: ann_again_def authorizePublish_def demo_token matching_key_def shared_event_def authorize_event_def)
       (simp add: demo_event_def event_values_def withinWindow_def zombie_state)
qed

theorem publish_one_live_witness:
  "\<exists>t. map (\<lambda>r. (ps_status r, ps_endedAt r)) (rows (t_sessions (snd (handlePublish demo_externals ann_again zombie))))
     = [(SCompliant, Some t), (SAllowed, None)]"
proof -
  let ?x = "(session_values ''ann'')\<lparr>ps_id := 1, ps_eventId := Some 1, ps_status := SCompliant, ps_compliant := True\<rparr>"
  have z: "rows (t_sessions zombie) = [?x]" by (simp add: zombie_state)
  obtain res w' where r: "handlePublish demo_externals ann_again zombie = (res, w')" by fastforce
  have "pc_stream ann_again = ''ann''" by (simp add: ann_again_def)
  from publish_one_live[OF zombie_integrity r, unfolded ann_admitted auth_result.case z, unfolded this]
  obtain row where row: "rows (t_sessions w') = map (superseded row) [?x] @ [row]" "ps_status row = SAllowed" "ps_endedAt row = None"
    "ps_streamName row = ''ann''"
    "\<forall>r\<in>set (rows (t_sessions w')). ps_streamName r = ''ann'' \<and> ps_endedAt r = None \<longrightarrow> r = row"
    by blast
  have "superseded row ?x \<noteq> ?x"
  proof
    assume same: "superseded row ?x = ?x"
    then have "?x \<in> set (rows (t_sessions w'))" unfolding row(1) by simp
    then have "?x = row" using row(5) by (simp add: session_values_def)
    then have "ps_status ?x = SAllowed" using row(2) by metis
    then show False by simp
  qed
  then have "superseded row ?x = ?x\<lparr>ps_endedAt := Some (db_ts (ps_startedAt row)), ps_status := SCompliant\<rparr>"
    by (auto simp: superseded_def final_status_def)
  then show ?thesis using r row(1,2,3) by simp
qed

end
