(* ===== verification/LiveRun.thy ===== *)
theory LiveRun
  imports StreamLifecycle
begin

text \<open>
  The publishes of the local SRS as a process runs: every order of publishes, unpublishes, rounds
  of the monitors and writes of the rest of the server, and what stays true of the Map of live
  streams and the open sessions.
\<close>

section \<open>Runs\<close>

text \<open>A step of the rest of the server that leaves the sessions and the memory of this module alone.\<close>

definition elsewhere :: "live \<Rightarrow> live \<Rightarrow> bool" where
  "elsewhere w w' \<longleftrightarrow> integrity w' \<and> t_sessions w' = t_sessions w \<and> active_map w' = active_map w
     \<and> session_objs w' = session_objs w \<and> monitors w' = monitors w"

text \<open>The runs of a process.  Beside the hooks and the monitors of this module, the rest of the server writes
  sessions too, and does not touch the Map: media-node-handlers inserts the sessions of the nodes (they name
  their node), stores measurements, flags violations and ends any session a node names;
  event-lifecycle and reconcile end sessions; and the deletion of an event deletes its sessions.  The first
  argument is what the rest has done behind the back of this module: the ids of the sessions that
  it has ended or deleted.\<close>

inductive live_run :: "externals \<Rightarrow> live \<Rightarrow> int set \<Rightarrow> live \<Rightarrow> bool" for x boot where
  live_boot: "live_run x boot {} boot"
| live_publish: "live_run x boot C w \<Longrightarrow> live_run x boot C (snd (handlePublish x c w))"
| live_unpublish: "live_run x boot C w \<Longrightarrow> live_run x boot C (snd (handleUnpublish cal n w))"
| live_probe: "live_run x boot C w \<Longrightarrow> live_run x boot C (monitor_finish num l i result w)"
| live_node_session: "live_run x boot C w \<Longrightarrow> ps_nodeId v \<noteq> None
    \<Longrightarrow> live_run x boot C (snd (PublishSessionsRepository_insert v w))"
| live_measured: "live_run x boot C w \<Longrightarrow> live_run x boot C (PublishSessionsRepository_updateMetrics i wd ht fp vb ab w)"
| live_flagged: "live_run x boot C w \<Longrightarrow> live_run x boot C (PublishSessionsRepository_updateStatus i st None compl w)"
| live_ended: "live_run x boot C w \<Longrightarrow> PublishSessionsRepository_findById i w \<noteq> None
    \<Longrightarrow> live_run x boot (insert i C) (PublishSessionsRepository_markEnded i st t w)"
| live_event_gone: "live_run x boot C w
    \<Longrightarrow> live_run x boot (C \<union> ps_id ` {r \<in> set (rows (t_sessions w)). ps_eventId r = Some e}) (EventsRepository_remove e w)"
| live_other: "live_run x boot C w \<Longrightarrow> elsewhere w w' \<Longrightarrow> live_run x boot C w'"

definition is_open :: "publish_session_row \<Rightarrow> bool" where
  "is_open r \<longleftrightarrow> ps_endedAt r = None"

definition local_open :: "publish_session_row \<Rightarrow> bool" where
  "local_open r \<longleftrightarrow> is_open r \<and> ps_nodeId r = None"

text \<open>The invariant; b is the next session id at boot, so that sessions below b are of an earlier
  process.\<close>

definition live_ok :: "int \<Rightarrow> int set \<Rightarrow> live \<Rightarrow> bool" where
  "live_ok b C w \<longleftrightarrow> integrity w
   \<and> (\<forall>n i. map_get n (active_map w) = Some i \<longrightarrow>
        (\<exists>s. map_get i (session_objs w) = Some s \<and> sn_streamName s = n \<and> sn_active s)
      \<and> (i \<in> C \<or> (\<exists>r\<in>set (rows (t_sessions w)). ps_id r = i \<and> ps_streamName r = n \<and> local_open r)))
   \<and> (\<forall>r\<in>set (rows (t_sessions w)). local_open r \<longrightarrow> map_get (ps_streamName r) (active_map w) = Some (ps_id r)
        \<or> ps_id r < b \<and> map_get (ps_streamName r) (active_map w) = None)
   \<and> (\<forall>i s. map_get i (session_objs w) = Some s \<longrightarrow> sn_sessionId s = i \<and> i < seq (t_sessions w))
   \<and> fst ` set (monitors w) \<subseteq> fst ` set (session_objs w)"

lemma live_okD:
  assumes "live_ok b C w"
  shows "integrity w"
    "map_get n (active_map w) = Some i \<Longrightarrow> \<exists>s. map_get i (session_objs w) = Some s \<and> sn_streamName s = n \<and> sn_active s"
    "map_get n (active_map w) = Some i \<Longrightarrow>
       i \<in> C \<or> (\<exists>r\<in>set (rows (t_sessions w)). ps_id r = i \<and> ps_streamName r = n \<and> local_open r)"
    "r \<in> set (rows (t_sessions w)) \<Longrightarrow> local_open r \<Longrightarrow> map_get (ps_streamName r) (active_map w) = Some (ps_id r)
       \<or> ps_id r < b \<and> map_get (ps_streamName r) (active_map w) = None"
    "map_get i (session_objs w) = Some s \<Longrightarrow> sn_sessionId s = i \<and> i < seq (t_sessions w)"
    "fst ` set (monitors w) \<subseteq> fst ` set (session_objs w)"
  using assms unfolding live_ok_def by blast+

lemma live_okI:
  assumes "integrity w"
    "\<And>n i. map_get n (active_map w) = Some i \<Longrightarrow> \<exists>s. map_get i (session_objs w) = Some s \<and> sn_streamName s = n \<and> sn_active s"
    "\<And>n i. map_get n (active_map w) = Some i \<Longrightarrow>
       i \<in> C \<or> (\<exists>r\<in>set (rows (t_sessions w)). ps_id r = i \<and> ps_streamName r = n \<and> local_open r)"
    "\<And>r. r \<in> set (rows (t_sessions w)) \<Longrightarrow> local_open r \<Longrightarrow> map_get (ps_streamName r) (active_map w) = Some (ps_id r)
       \<or> ps_id r < b \<and> map_get (ps_streamName r) (active_map w) = None"
    "\<And>i s. map_get i (session_objs w) = Some s \<Longrightarrow> sn_sessionId s = i \<and> i < seq (t_sessions w)"
    "fst ` set (monitors w) \<subseteq> fst ` set (session_objs w)"
  shows "live_ok b C w"
  using assms unfolding live_ok_def by blast


section \<open>The memory of the process is not in the database\<close>

lemma memory_integrity [simp]:
  fixes w :: "'a world_scheme"
  shows "integrity (w\<lparr>active_map := a\<rparr>) = integrity w" "integrity (w\<lparr>session_objs := o1\<rparr>) = integrity w"
    "integrity (w\<lparr>rec_handles := h\<rparr>) = integrity w" "integrity (w\<lparr>files := f\<rparr>) = integrity w"
    "integrity (w\<lparr>cfg_cache := c\<rparr>) = integrity w" "integrity (w\<lparr>nodes := r\<rparr>) = integrity w"
  by (simp_all add: schema_decls)

lemma monitors_integrity [simp]: "integrity (w\<lparr>monitors := m\<rparr>) = integrity w"
  by (simp add: schema_decls)

lemma emit_integrity [simp]: "integrity (emit e w) = integrity w"
  by (simp add: emit_def schema_decls)

lemma getConfig_integrity [simp]: "integrity (snd (getConfig w)) = integrity w" for w :: "'a world_scheme"
  by (auto simp: getConfig_def Let_def split: option.split)

lemma startRecording_integrity [simp]: "integrity (startRecording n c w) = integrity w" for w :: "'a world_scheme"
  using getConfig_integrity[of w] by (auto simp: startRecording_def Let_def case_prod_unfold)

lemma markCompliant_integrity [simp]: "integrity (markCompliant n wd ht f w) = integrity w" for w :: "'a world_scheme"
  by (auto simp: markCompliant_def split: option.split)

lemma markCompliant_frame [simp]:
  fixes w :: "'a world_scheme"
  shows "t_sessions (markCompliant n wd ht f w) = t_sessions w" "active_map (markCompliant n wd ht f w) = active_map w"
    "session_objs (markCompliant n wd ht f w) = session_objs w" "world.more (markCompliant n wd ht f w) = world.more w"
  by (auto simp: markCompliant_def split: option.split)

lemma fold_integrity: "(\<And>r w. integrity w \<Longrightarrow> integrity (g r w)) \<Longrightarrow> integrity w \<Longrightarrow> integrity (fold g rs w)"
  by (induction rs arbitrary: w) simp_all

lemma supersede_all_integrity: "integrity w \<Longrightarrow> integrity (supersede_all row w)"
  unfolding supersede_all_def
  by (rule fold_integrity) (simp_all add: supersede_def audit_integrity PublishSessionsRepository_integrity)

lemma publish_admitted_integrity: "integrity w \<Longrightarrow> integrity (publish_admitted c label row w)"
  by (simp add: publish_admitted_def monitor_start_def Let_def audit_integrity supersede_all_integrity)

lemma handlePublish_integrity:
  assumes "integrity w"
  shows "integrity (snd (handlePublish x c w))"
proof -
  obtain r w1 where a: "authorizePublish x (pc_stream c) (pc_param c) w = (r, w1)" by fastforce
  then have "integrity w1" using authorizePublish_state[of x "pc_stream c" "pc_param c" w] assms
    by (auto simp: StreamKeysRepository_integrity)
  then have i: "integrity (snd (PublishSessionsRepository_insert v w1))" for v
    by (rule PublishSessionsRepository_integrity)
  show ?thesis
    unfolding handlePublish_def a
    by (auto simp: i publish_admitted_integrity audit_integrity intro!: andThen_state[where P = integrity] split: auth_result.split)
qed

lemma finalizeRecording_frame:
  fixes w :: "'a world_scheme"
  shows "t_sessions (snd (finalizeRecording cal n h ev i l w)) = t_sessions w"
    "active_map (snd (finalizeRecording cal n h ev i l w)) = active_map w"
    "session_objs (snd (finalizeRecording cal n h ev i l w)) = session_objs w"
    "world.more (snd (finalizeRecording cal n h ev i l w)) = world.more w"
  by (auto simp: finalizeRecording_def Let_def andThen_def RecordingsRepository_insert_def RecordingsRepository_update_def
      split: option.split sum.split prod.split)

lemma finalizeRecording_integrity:
  fixes w :: "'a world_scheme"
  shows "integrity w \<Longrightarrow> integrity (snd (finalizeRecording cal n h ev i l w))"
  unfolding finalizeRecording_def Let_def
  by (auto simp: append_segment_def Let_def
      intro!: andThen_state[where P = integrity] RecordingsRepository_integrity RecordingsRepository_update_integrity split: option.split)

lemma stopRecording_frame [simp]:
  fixes w :: "'a world_scheme"
  shows "t_sessions (snd (stopRecording cal n ev i l w)) = t_sessions w"
    "active_map (snd (stopRecording cal n ev i l w)) = active_map w"
    "session_objs (snd (stopRecording cal n ev i l w)) = session_objs w"
    "world.more (snd (stopRecording cal n ev i l w)) = world.more w"
  by (auto simp: stopRecording_def take_handle_def close_handle_def finalizeRecording_frame split: option.split)

lemma stopRecording_integrity: "integrity w \<Longrightarrow> integrity (snd (stopRecording cal n ev i l w))" for w :: "'a world_scheme"
  by (auto simp: stopRecording_def take_handle_def close_handle_def finalizeRecording_integrity split: option.split)


section \<open>Every step keeps the invariant\<close>

lemma map_put_mono: "fst ` set m \<subseteq> fst ` set (map_put k v m)"
  by (auto simp: map_put_keys)

lemma live_ok_same:
  assumes "live_ok b C w" "integrity w'" "t_sessions w' = t_sessions w" "active_map w' = active_map w"
    "session_objs w' = session_objs w" "monitors w' = monitors w"
  shows "live_ok b C w'"
  using assms(1,2) unfolding live_ok_def assms(3-) by blast

text \<open>Rows that are changed without being renamed, moved or reopened, or deleted; what is ended or deleted is
  in the set.\<close>

lemma live_ok_rows:
  assumes "live_ok b C w" "integrity w'" "rows (t_sessions w') = map g (filter q (rows (t_sessions w)))"
    "seq (t_sessions w') = seq (t_sessions w)" "C \<subseteq> D"
    and same: "\<And>r. ps_id (g r) = ps_id r" "\<And>r. ps_streamName (g r) = ps_streamName r" "\<And>r. ps_nodeId (g r) = ps_nodeId r"
      "\<And>r. is_open (g r) \<Longrightarrow> is_open r"
    and taken: "\<And>r. r \<in> set (rows (t_sessions w)) \<Longrightarrow> is_open r \<Longrightarrow> \<not> (q r \<and> is_open (g r)) \<Longrightarrow> ps_id r \<in> D"
    and mem: "active_map w' = active_map w" "session_objs w' = session_objs w" "fst ` set (monitors w') \<subseteq> fst ` set (session_objs w)"
  shows "live_ok b D w'"
proof (rule live_okI)
  note d = live_okD[OF assms(1)]
  show "integrity w'" by (rule assms(2))
  show "\<exists>s. map_get i (session_objs w') = Some s \<and> sn_streamName s = n \<and> sn_active s"
    if "map_get n (active_map w') = Some i" for n i using d(2) that by (simp add: mem)
  show "i \<in> D \<or> (\<exists>r\<in>set (rows (t_sessions w')). ps_id r = i \<and> ps_streamName r = n \<and> local_open r)"
    if m: "map_get n (active_map w') = Some i" for n i
  proof (cases "i \<in> D")
    case False
    from m have "map_get n (active_map w) = Some i" by (simp add: mem)
    with False d(3) assms(5) obtain r where
      r: "r \<in> set (rows (t_sessions w))" "ps_id r = i" "ps_streamName r = n" "local_open r" by blast
    then have "q r" "is_open (g r)" using taken[of r] False by (auto simp: local_open_def)
    with r same show ?thesis unfolding assms(3) set_map set_filter by (intro disjI2 bexI[of _ "g r"]) (auto simp: local_open_def)
  qed simp
  show "map_get (ps_streamName r) (active_map w') = Some (ps_id r)
      \<or> ps_id r < b \<and> map_get (ps_streamName r) (active_map w') = None"
    if r: "r \<in> set (rows (t_sessions w'))" "local_open r" for r
  proof -
    from r(1) obtain p where p: "p \<in> set (rows (t_sessions w))" "r = g p" by (auto simp: assms(3))
    with r(2) same have "local_open p" by (simp add: local_open_def)
    from d(4)[OF p(1) this] show ?thesis by (simp only: p(2) same(1,2) mem)
  qed
qed (use live_okD(5,6)[OF assms(1)] assms(4) mem in auto)

lemma live_ok_append:
  assumes "live_ok b C w" "integrity w'" "rows (t_sessions w') = rows (t_sessions w) @ [row]" "\<not> local_open row"
    "seq (t_sessions w') = seq (t_sessions w) + 1" "active_map w' = active_map w" "session_objs w' = session_objs w"
    "monitors w' = monitors w"
  shows "live_ok b C w'"
proof (rule live_okI)
  note d = live_okD[OF assms(1)]
  show "i \<in> C \<or> (\<exists>r\<in>set (rows (t_sessions w')). ps_id r = i \<and> ps_streamName r = n \<and> local_open r)"
    if "map_get n (active_map w') = Some i" for n i
    using d(3)[of n i] that by (auto simp: assms(3,6))
  show "sn_sessionId s = i \<and> i < seq (t_sessions w')" if "map_get i (session_objs w') = Some s" for i s
    using d(5)[of i s] that by (simp add: assms(5,7))
  show "map_get (ps_streamName r) (active_map w') = Some (ps_id r)
      \<or> ps_id r < b \<and> map_get (ps_streamName r) (active_map w') = None"
    if "r \<in> set (rows (t_sessions w'))" "local_open r" for r
    using d(4)[of r] that assms(4) by (auto simp: assms(3,6))
qed (use live_okD(2,6)[OF assms(1)] assms(2,6-8) in auto)

lemma live_ok_new_row:
  assumes "live_ok b C w" "integrity w'" "ps_id row = seq (t_sessions w)" "seq (t_sessions w') = ps_id row + 1"
    "rows (t_sessions w') = map (superseded row) (rows (t_sessions w)) @ [row]"
    "ps_streamName row = pc_stream c" "ps_endedAt row = None" "ps_nodeId row = None"
    "active_map w' = map_put (pc_stream c) (ps_id row) (active_map w)"
    "session_objs w' = map_put (ps_id row) (active_session_of c row) (session_objs w)"
    "fst ` set (monitors w') \<subseteq> insert (ps_id row) (fst ` set (monitors w))"
  shows "live_ok b C w'"
proof (rule live_okI)
  note d = live_okD[OF assms(1)]
  have low: "ps_id r \<noteq> ps_id row" if "r \<in> set (rows (t_sessions w))" for r
    using d(1) that assms(3) by (auto simp: integrity_def ids_ok_def tbl_ok_def)
  have kept: "ps_id (superseded row r) = ps_id r" "ps_streamName (superseded row r) = ps_streamName r"
    "local_open (superseded row r) \<longleftrightarrow> local_open r \<and> (ps_streamName r \<noteq> pc_stream c \<or> ps_id r = ps_id row)" for r
    by (auto simp: superseded_def is_open_def local_open_def assms(6))
  show "integrity w'" by (rule assms(2))
  show "\<exists>s. map_get i (session_objs w') = Some s \<and> sn_streamName s = n \<and> sn_active s"
    if g: "map_get n (active_map w') = Some i" for n i
  proof (cases "n = pc_stream c")
    case True
    then have "i = ps_id row" using g by (simp add: assms(9) map_get_put)
    then show ?thesis using True by (simp add: assms(10) map_get_put active_session_of_def)
  next
    case False
    then have "map_get n (active_map w) = Some i" using g by (simp add: assms(9) map_get_put)
    from d(2)[OF this] obtain s where s: "map_get i (session_objs w) = Some s" "sn_streamName s = n" "sn_active s" by blast
    then have "i \<noteq> ps_id row" using d(5)[OF s(1)] assms(3) by simp
    with s show ?thesis by (simp add: assms(10) map_get_put)
  qed
  show "i \<in> C \<or> (\<exists>r\<in>set (rows (t_sessions w')). ps_id r = i \<and> ps_streamName r = n \<and> local_open r)"
    if g: "map_get n (active_map w') = Some i" for n i
  proof (cases "n = pc_stream c")
    case True
    then have "i = ps_id row" using g by (simp add: assms(9) map_get_put)
    then show ?thesis using True by (auto simp: assms(5,6,7,8) is_open_def local_open_def)
  next
    case False
    then have "map_get n (active_map w) = Some i" using g by (simp add: assms(9) map_get_put)
    from d(3)[OF this] False kept show ?thesis by (auto simp: assms(5))
  qed
  show "map_get (ps_streamName r) (active_map w') = Some (ps_id r)
      \<or> ps_id r < b \<and> map_get (ps_streamName r) (active_map w') = None"
    if r: "r \<in> set (rows (t_sessions w'))" "local_open r" for r
  proof (cases "r = row")
    case True
    then show ?thesis by (simp add: assms(6,9) map_get_put)
  next
    case False
    with r obtain q where q: "q \<in> set (rows (t_sessions w))" "r = superseded row q" by (auto simp: assms(5))
    with r(2) low[OF q(1)] have "ps_streamName q \<noteq> pc_stream c" "local_open q" by (simp_all add: kept)
    with d(4)[OF q(1)] show ?thesis by (simp add: q(2) kept assms(9) map_get_put)
  qed
  show "sn_sessionId s = i \<and> i < seq (t_sessions w')" if "map_get i (session_objs w') = Some s" for i s
    using that d(5)[of i s] assms(3,4) by (auto simp: assms(10) map_get_put active_session_of_def split: if_splits)
  show "fst ` set (monitors w') \<subseteq> fst ` set (session_objs w')"
    using assms(11) d(6) by (auto simp: assms(10) map_put_keys)
qed

lemma live_ok_publish:
  assumes "live_ok b C w"
  shows "live_ok b C (snd (handlePublish x c w))"
proof -
  note ok = live_okD(1)[OF assms]
  obtain res w' where r: "handlePublish x c w = (res, w')" by fastforce
  have i: "integrity w'" using handlePublish_integrity[OF ok, of x c] r by simp
  obtain a w1 where a: "authorizePublish x (pc_stream c) (pc_param c) w = (a, w1)" by fastforce
  show ?thesis
  proof (cases a)
    case (Reject reason)
    from handlePublish_refused[OF a[unfolded Reject] r] obtain row where
      "rows (t_sessions w') = rows (t_sessions w) @ [row]" "ps_endedAt row \<noteq> None" "core.more w' = core.more w"
      "seq (t_sessions w') = seq (t_sessions w) + 1" by blast
    then show ?thesis
      using live_ok_append[OF assms i, of row] monitors_core[of w' w] r by (simp add: is_open_def local_open_def)
  next
    case (Allow ev key label)
    from handlePublish_allowed[OF ok a[unfolded Allow] r] obtain row where
      "ps_id row = seq (t_sessions w)" "seq (t_sessions w') = ps_id row + 1"
      "rows (t_sessions w') = map (superseded row) (rows (t_sessions w)) @ [row]"
      "ps_streamName row = pc_stream c" "ps_endedAt row = None" "ps_nodeId row = None"
      "active_map w' = map_put (pc_stream c) (ps_id row) (active_map w)"
      "session_objs w' = map_put (ps_id row) (active_session_of c row) (session_objs w)"
      "fst ` set (monitors w') \<subseteq> insert (ps_id row) (fst ` set (monitors w))"
      by (fastforce simp: map_put_keys)
    from live_ok_new_row[OF assms i this] r show ?thesis by simp
  qed
qed

text \<open>The end of a publish takes its session out of the Map and ends the row, when there still is one.\<close>

lemma live_ok_end:
  assumes "live_ok b C w" "integrity w'" "map_get n (active_map w) = Some i"
    "rows (t_sessions w') = map (\<lambda>r. if ps_id r = i then f r else r) (rows (t_sessions w))"
    "seq (t_sessions w') = seq (t_sessions w)"
    "\<And>r. ps_id (f r) = ps_id r" "\<And>r. ps_streamName (f r) = ps_streamName r" "\<And>r. \<not> is_open (f r)"
    "active_map w' = map_del n (active_map w)"
    "session_objs w' = map_put i (s\<lparr>sn_active := False\<rparr>) (session_objs w)" "sn_sessionId s = i"
    "monitors w' = monitors w"
  shows "live_ok b C w'"
proof (rule live_okI)
  note d = live_okD[OF assms(1)]
  let ?g = "\<lambda>r. if ps_id r = i then f r else r"
  have kept: "ps_id (?g r) = ps_id r" "ps_streamName (?g r) = ps_streamName r" "local_open (?g r) \<longleftrightarrow> local_open r \<and> ps_id r \<noteq> i" for r
    using assms(6-8) by (simp_all add: local_open_def)
  obtain s0 where s0: "map_get i (session_objs w) = Some s0" "sn_streamName s0 = n" using d(2)[OF assms(3)] by blast
  have other: "j \<noteq> i" if "map_get m (active_map w) = Some j" "m \<noteq> n" for m j
    using d(2)[OF that(1)] s0 that(2) by auto
  show "integrity w'" by (rule assms(2))
  have before: "map_get m (active_map w) = Some j \<and> m \<noteq> n" if "map_get m (active_map w') = Some j" for m j
    using that by (auto simp: assms(9) map_get_del split: if_splits)
  show "\<exists>s. map_get j (session_objs w') = Some s \<and> sn_streamName s = m \<and> sn_active s"
    if "map_get m (active_map w') = Some j" for m j
    using d(2)[of m j] before[OF that] other[of m j] by (simp add: assms(10) map_get_put)
  show "j \<in> C \<or> (\<exists>r\<in>set (rows (t_sessions w')). ps_id r = j \<and> ps_streamName r = m \<and> local_open r)"
    if m: "map_get m (active_map w') = Some j" for m j
  proof -
    note g = before[OF m]
    have j: "j \<noteq> i" using other g by blast
    from d(3) g consider "j \<in> C" | r where "r \<in> set (rows (t_sessions w))" "ps_id r = j" "ps_streamName r = m" "local_open r" by blast
    then show ?thesis
    proof cases
      case (2 r)
      then have "?g r = r" using j by simp
      with 2(1) have "r \<in> set (rows (t_sessions w'))" unfolding assms(4) set_map by force
      with 2 show ?thesis by blast
    qed simp
  qed
  show "map_get (ps_streamName r) (active_map w') = Some (ps_id r)
        \<or> ps_id r < b \<and> map_get (ps_streamName r) (active_map w') = None"
    if r: "r \<in> set (rows (t_sessions w'))" "local_open r" for r
  proof -
    from r(1) obtain q where q: "q \<in> set (rows (t_sessions w))" "r = ?g q" unfolding assms(4) by (simp only: set_map) blast
    then have "local_open q" "ps_id q \<noteq> i" using r(2) kept(3)[of q] by blast+
    with d(4)[OF q(1)] assms(3) show ?thesis unfolding q(2) kept by (auto simp: assms(9) map_get_del)
  qed
  show "sn_sessionId t = j \<and> j < seq (t_sessions w')" if "map_get j (session_objs w') = Some t" for j t
    using that d(5)[of j t] d(5)[OF s0(1)] assms(11) by (auto simp: assms(5,10) map_get_put split: if_splits)
  show "fst ` set (monitors w') \<subseteq> fst ` set (session_objs w')"
    using d(6) by (auto simp: assms(10,12) map_put_keys)
qed

lemma unpublish_integrity: "integrity w \<Longrightarrow> integrity (snd (handleUnpublish cal n w))"
  by (auto simp: handleUnpublish_def Let_def audit_integrity end_session_def PublishSessionsRepository_integrity stopRecording_integrity
      intro!: andThen_state[where P = integrity] split: option.split)

lemma andThen_snd: "snd (andThen m f) = (case fst m of Inl e \<Rightarrow> snd m | Inr a \<Rightarrow> snd (f a (snd m)))"
  by (cases m) (auto simp: andThen_def split: sum.split)

definition ended_row :: "session_status \<Rightarrow> int \<Rightarrow> publish_session_row \<Rightarrow> publish_session_row" where
  "ended_row status t r = r\<lparr>ps_endedAt := Some (db_ts t), ps_status := status\<rparr>"

lemma unpublish_effect:
  assumes "map_get n (active_map w) = Some i" "map_get i (session_objs w) = Some s" "sn_sessionId s = i"
  shows "rows (t_sessions (snd (handleUnpublish cal n w))) =
      map (\<lambda>r. if ps_id r = i then ended_row (unpublish_status (PublishSessionsRepository_findById i w)) (clock w) r else r) (rows (t_sessions w))"
    "active_map (snd (handleUnpublish cal n w)) = map_del n (active_map w)"
    "session_objs (snd (handleUnpublish cal n w)) = map_put i (s\<lparr>sn_active := False\<rparr>) (session_objs w)"
    "monitors (snd (handleUnpublish cal n w)) = monitors w" "seq (t_sessions (snd (handleUnpublish cal n w))) = seq (t_sessions w)"
proof -
  let ?w1 = "w\<lparr>session_objs := map_put i (s\<lparr>sn_active := False\<rparr>) (session_objs w), active_map := map_del n (active_map w)\<rparr>"
  let ?w2 = "end_session s ?w1"
  let ?p = "stopRecording cal (sn_streamName s) (sn_eventId s) (Some (sn_sessionId s)) None ?w2"
  have e: "snd (handleUnpublish cal n w) = (case fst ?p of Inl e \<Rightarrow> snd ?p | Inr a \<Rightarrow>
      audit LInfo CPublish (''publish ended: '' @ n) (no_opts\<lparr>ai_actor := Some n, ai_streamName := Some n\<rparr>) (snd ?p))"
    unfolding handleUnpublish_def Let_def by (simp only: assms option.case bind.bind_lunit andThen_snd snd_conv)
  have w2: "rows (t_sessions ?w2) = map (\<lambda>r. if ps_id r = i then ended_row (unpublish_status (PublishSessionsRepository_findById i w)) (clock w) r else r)
       (rows (t_sessions w))"
    "active_map ?w2 = active_map ?w1" "session_objs ?w2 = session_objs ?w1" "monitors ?w2 = monitors ?w1"
    "seq (t_sessions ?w2) = seq (t_sessions w)"
    by (simp_all add: end_session_def Let_def PublishSessionsRepository_markEnded_def PublishSessionsRepository_findById_def
        sessions_set_def tbl_update_def assms(3) ended_row_def)
  have m: "monitors (snd ?p) = monitors ?w2" by (rule monitors_more) simp
  show "rows (t_sessions (snd (handleUnpublish cal n w))) =
      map (\<lambda>r. if ps_id r = i then ended_row (unpublish_status (PublishSessionsRepository_findById i w)) (clock w) r else r) (rows (t_sessions w))"
    "active_map (snd (handleUnpublish cal n w)) = map_del n (active_map w)"
    "session_objs (snd (handleUnpublish cal n w)) = map_put i (s\<lparr>sn_active := False\<rparr>) (session_objs w)"
    "monitors (snd (handleUnpublish cal n w)) = monitors w" "seq (t_sessions (snd (handleUnpublish cal n w))) = seq (t_sessions w)"
    unfolding e using m by (simp_all add: w2 split: sum.split)
qed

lemma unpublish_idle:
  assumes "Option.bind (map_get n (active_map w)) (\<lambda>i. map_get i (session_objs w)) = None"
  shows "snd (handleUnpublish cal n w) =
    audit LInfo CPublish (''publish ended: '' @ n) (no_opts\<lparr>ai_actor := Some n, ai_streamName := Some n\<rparr>) w"
  using assms by (simp add: handleUnpublish_def Let_def)

lemma live_ok_unpublish:
  assumes "live_ok b C w"
  shows "live_ok b C (snd (handleUnpublish cal n w))"
proof (cases "map_get n (active_map w)")
  case None
  then show ?thesis
    using live_ok_same[OF assms] audit_integrity[OF live_okD(1)[OF assms]] by (simp add: unpublish_idle)
next
  case (Some i)
  from live_okD(2)[OF assms this] obtain s where s: "map_get i (session_objs w) = Some s" by blast
  then have i: "sn_sessionId s = i" using live_okD(5)[OF assms] by blast
  note e = unpublish_effect[OF Some s i, of cal]
  show ?thesis
    by (rule live_ok_end[OF assms unpublish_integrity[OF live_okD(1)[OF assms]] Some e(1) e(5) _ _ _ e(2,3) i e(4)])
       (simp_all add: ended_row_def is_open_def)
qed

text \<open>The writes of the rest of the server.\<close>

lemma live_ok_set:
  assumes "live_ok b C w" "C \<subseteq> D" "integrity (sessions_set i f w)"
    and same: "\<And>r. ps_id (f r) = ps_id r" "\<And>r. ps_streamName (f r) = ps_streamName r" "\<And>r. ps_nodeId (f r) = ps_nodeId r"
      "\<And>r. is_open (f r) \<Longrightarrow> is_open r"
    and taken: "i \<in> D \<or> (\<forall>r. is_open r \<longrightarrow> is_open (f r))"
  shows "live_ok b D (sessions_set i f w)"
proof -
  let ?g = "\<lambda>r. if ps_id r = i then f r else r"
  have r: "rows (t_sessions (sessions_set i f w)) = map ?g (filter (\<lambda>_. True) (rows (t_sessions w)))"
    "seq (t_sessions (sessions_set i f w)) = seq (t_sessions w)"
    by (simp_all add: sessions_set_def tbl_update_def)
  have g: "ps_id (?g r) = ps_id r" "ps_streamName (?g r) = ps_streamName r" "ps_nodeId (?g r) = ps_nodeId r" for r
    by (simp_all add: same(1-3))
  have o: "is_open r" if "is_open (?g r)" for r using same(4)[of r] that by (cases "ps_id r = i") simp_all
  have t: "ps_id r \<in> D" if "is_open r" "\<not> (True \<and> is_open (?g r))" for r
    using taken that by (cases "ps_id r = i") auto
  have m: "active_map (sessions_set i f w) = active_map w" "session_objs (sessions_set i f w) = session_objs w"
    "monitors (sessions_set i f w) = monitors w" by (simp_all add: sessions_set_def)
  show ?thesis by (rule live_ok_rows[OF assms(1,3) r assms(2) g o t m(1,2)]) (use m(3) live_okD(6)[OF assms(1)] in simp_all)
qed

lemma live_ok_node_session:
  assumes "live_ok b C w" "ps_nodeId v \<noteq> None"
  shows "live_ok b C (snd (PublishSessionsRepository_insert v w))"
proof (cases "PublishSessionsRepository_insert v w")
  case (Pair r w')
  note i = PublishSessionsRepository_integrity(1)[OF live_okD(1)[OF assms(1)], of v]
  show ?thesis
  proof (cases r)
    case (Inl e)
    with Pair have "w' = w" by (auto simp: PublishSessionsRepository_insert_def split: if_splits prod.splits)
    with Pair assms(1) show ?thesis by simp
  next
    case (Inr row)
    note s = session_insert[OF Pair[unfolded Inr]]
    have "seq (t_sessions w') = seq (t_sessions w) + 1" "\<not> local_open row"
      using Pair Inr assms(2)
      by (auto simp: PublishSessionsRepository_insert_def tbl_insert_def s(2) put_session_def session_norm_def local_open_def split: if_splits)
    then show ?thesis
      using live_ok_append[OF assms(1) i, of row] s(1) monitors_core[OF s(3)] Pair by simp
  qed
qed

lemma live_ok_measured:
  assumes "live_ok b C w"
  shows "live_ok b C (PublishSessionsRepository_updateMetrics i wd ht fp vb ab w)"
  using PublishSessionsRepository_integrity(2)[OF live_okD(1)[OF assms], of i wd ht fp vb ab]
  unfolding PublishSessionsRepository_updateMetrics_def by (rule live_ok_set[OF assms subset_refl]) (simp_all add: is_open_def)

lemma live_ok_flagged:
  assumes "live_ok b C w"
  shows "live_ok b C (PublishSessionsRepository_updateStatus i st None compl w)"
  using PublishSessionsRepository_integrity(3)[OF live_okD(1)[OF assms], of i st None compl]
  unfolding PublishSessionsRepository_updateStatus_def by (rule live_ok_set[OF assms subset_refl]) (simp_all add: is_open_def)

lemma live_ok_ended:
  assumes "live_ok b C w"
  shows "live_ok b (insert i C) (PublishSessionsRepository_markEnded i st t w)"
  using PublishSessionsRepository_integrity(4)[OF live_okD(1)[OF assms], of i st t]
  unfolding PublishSessionsRepository_markEnded_def by (rule live_ok_set[OF assms subset_insertI]) (simp_all add: is_open_def)

lemma drop_enrollments_sessions: "t_sessions (drop_enrollments p d) = t_sessions d"
  by (simp add: drop_enrollments_def Let_def)

lemma event_remove_rows:
  "\<exists>g. rows (t_sessions (EventsRepository_remove e d)) = map g (filter (\<lambda>r. ps_eventId r \<noteq> Some e) (rows (t_sessions d)))
     \<and> seq (t_sessions (EventsRepository_remove e d)) = seq (t_sessions d)
     \<and> (\<forall>r. ps_id (g r) = ps_id r \<and> ps_streamName (g r) = ps_streamName r \<and> ps_nodeId (g r) = ps_nodeId r \<and> is_open (g r) = is_open r)"
proof -
  define gone where "gone = map sk_id (tbl_select (\<lambda>k. sk_eventId k = e) (t_streamKeys (drop_enrollments (\<lambda>n. en_eventId n = e) d)))"
  define g where "g = (\<lambda>s :: publish_session_row. if \<exists>k\<in>set gone. ps_streamKeyId s = Some k then ps_streamKeyId_update (\<lambda>_. None) s else s)"
  have r: "rows (t_sessions (EventsRepository_remove e d)) = filter (\<lambda>r. ps_eventId r \<noteq> Some e) (map g (rows (t_sessions d)))"
    "seq (t_sessions (EventsRepository_remove e d)) = seq (t_sessions d)"
    by (simp_all add: EventsRepository_remove_def drop_keys_def drop_sessions_def Let_def tbl_update_def tbl_delete_def
        drop_enrollments_sessions g_def gone_def del: set_map)
  have k: "ps_eventId (g r) = ps_eventId r" "ps_id (g r) = ps_id r \<and> ps_streamName (g r) = ps_streamName r
      \<and> ps_nodeId (g r) = ps_nodeId r \<and> is_open (g r) = is_open r" for r by (simp_all add: g_def is_open_def)
  show ?thesis by (intro exI[of _ g]) (simp add: r filter_map comp_def k)
qed

lemma event_remove_memory:
  "active_map (EventsRepository_remove e w) = active_map w" "session_objs (EventsRepository_remove e w) = session_objs w"
  "monitors (EventsRepository_remove e w) = monitors w" for w :: live
  by (simp_all add: EventsRepository_remove_def drop_keys_def drop_enrollments_def drop_sessions_def Let_def)

lemma live_ok_event_gone:
  assumes "live_ok b C w"
  shows "live_ok b (C \<union> ps_id ` {r \<in> set (rows (t_sessions w)). ps_eventId r = Some e}) (EventsRepository_remove e w)"
proof -
  obtain g where g: "rows (t_sessions (EventsRepository_remove e w)) = map g (filter (\<lambda>r. ps_eventId r \<noteq> Some e) (rows (t_sessions w)))"
    "seq (t_sessions (EventsRepository_remove e w)) = seq (t_sessions w)"
    "\<And>r. ps_id (g r) = ps_id r" "\<And>r. ps_streamName (g r) = ps_streamName r" "\<And>r. ps_nodeId (g r) = ps_nodeId r"
    "\<And>r. is_open (g r) = is_open r" using event_remove_rows[of e w] by blast
  show ?thesis
    by (rule live_ok_rows[OF assms EventsRepository_remove_integrity[OF live_okD(1)[OF assms]] g(1,2)])
       (use live_okD(6)[OF assms] in \<open>auto simp: event_remove_memory g(3-)\<close>)
qed


section \<open>The verdict of a probe\<close>

definition exceeds :: "limits \<Rightarrow> probe_result \<Rightarrow> bool" where
  "exceeds l r \<longleftrightarrow> 0 < maxWidth l \<and> maxWidth l < pr_width r \<or> 0 < maxHeight l \<and> maxHeight l < pr_height r
     \<or> 0 < maxFps l \<and> maxFps l < pr_fps r \<or> 0 < maxVideoBitrateKbps l \<and> maxVideoBitrateKbps l < pr_videoBitrateKbps r"

lemma checkLimits_iff: "checkLimits num r l \<noteq> [] \<longleftrightarrow> exceeds l r"
  by (auto simp: checkLimits_def exceeds_def)

definition judged_row :: "limits \<Rightarrow> monitor \<Rightarrow> probe_result \<Rightarrow> int \<Rightarrow> publish_session_row \<Rightarrow> publish_session_row" where
  "judged_row l m r now x = x\<lparr>ps_width := Some (pr_width r), ps_height := Some (pr_height r), ps_fps := Some (pr_fps r),
     ps_videoBitrateKbps := Some (pr_videoBitrateKbps r), ps_audioBitrateKbps := None, ps_lastMetricAt := Some (db_ts now),
     ps_status := (if exceeds l r then SViolating else if mo_compliant m then ps_status x else SCompliant),
     ps_compliant := (ps_compliant x \<or> \<not> exceeds l r \<and> \<not> mo_compliant m)\<rparr>"

definition judged_monitor :: "limits \<Rightarrow> monitor \<Rightarrow> probe_result \<Rightarrow> monitor" where
  "judged_monitor l m r = m\<lparr>mo_metrics := probed_metrics r,
     mo_status := (if exceeds l r then SViolating else if mo_compliant m then mo_status m else SCompliant),
     mo_compliant := (mo_compliant m \<or> \<not> exceeds l r)\<rparr>"

lemma judge_effect:
  assumes "sn_sessionId s = i"
  shows "fst (monitor_judge num l s m r w) = judged_monitor l m r"
    "rows (t_sessions (snd (monitor_judge num l s m r w))) =
       map (\<lambda>x. if ps_id x = i then judged_row l m r (clock w) x else x) (rows (t_sessions w))"
    "active_map (snd (monitor_judge num l s m r w)) = active_map w"
    "session_objs (snd (monitor_judge num l s m r w)) = session_objs w"
    "world.more (snd (monitor_judge num l s m r w)) = world.more w"
    "rec_handles (snd (monitor_judge num l s m r w)) =
       (if exceeds l r \<or> mo_compliant m then rec_handles w
        else rec_handles (markCompliant (sn_streamName s) (pr_width r) (pr_height r) (pr_fps r) w))"
proof -
  show "fst (monitor_judge num l s m r w) = judged_monitor l m r"
    by (simp add: monitor_judge_def Let_def checkLimits_iff judged_monitor_def)
  show "rows (t_sessions (snd (monitor_judge num l s m r w))) =
       map (\<lambda>x. if ps_id x = i then judged_row l m r (clock w) x else x) (rows (t_sessions w))"
    by (simp add: monitor_judge_def monitor_violating_def monitor_compliant_def Let_def checkLimits_iff update_metrics_def
        PublishSessionsRepository_updateMetrics_def PublishSessionsRepository_updateStatus_def sessions_set_def tbl_update_def
        assms probed_metrics_def judged_row_def db_now_def)
  show "active_map (snd (monitor_judge num l s m r w)) = active_map w"
    "session_objs (snd (monitor_judge num l s m r w)) = session_objs w"
    "world.more (snd (monitor_judge num l s m r w)) = world.more w"
    by (simp_all add: monitor_judge_def monitor_violating_def monitor_compliant_def Let_def update_metrics_def
        PublishSessionsRepository_updateMetrics_def PublishSessionsRepository_updateStatus_def sessions_set_def)
  show "rec_handles (snd (monitor_judge num l s m r w)) =
       (if exceeds l r \<or> mo_compliant m then rec_handles w
        else rec_handles (markCompliant (sn_streamName s) (pr_width r) (pr_height r) (pr_fps r) w))"
    by (simp add: monitor_judge_def monitor_violating_def monitor_compliant_def Let_def checkLimits_iff update_metrics_def
        PublishSessionsRepository_updateMetrics_def PublishSessionsRepository_updateStatus_def sessions_set_def markCompliant_def
        split: option.split)
qed

lemma judge_integrity: "integrity w \<Longrightarrow> integrity (snd (monitor_judge num l s m r w))"
  by (simp add: monitor_judge_def monitor_violating_def monitor_compliant_def update_metrics_def Let_def audit_integrity
      PublishSessionsRepository_integrity)

lemma judge_seq: "seq (t_sessions (snd (monitor_judge num l s m r w))) = seq (t_sessions w)"
  by (simp add: monitor_judge_def monitor_violating_def monitor_compliant_def Let_def update_metrics_def
      PublishSessionsRepository_updateMetrics_def PublishSessionsRepository_updateStatus_def sessions_set_def tbl_update_def)

lemma live_ok_finish:
  assumes "live_ok b C w"
  shows "live_ok b C (monitor_finish num l i result w)"
proof (cases "map_get i (monitors w)")
  case None
  with assms show ?thesis by (simp add: monitor_finish_def)
next
  case (Some m)
  note d = live_okD[OF assms]
  have "i \<in> fst ` set (monitors w)" using Some by (metis fst_conv image_eqI map_get_Some_in)
  then obtain s where s: "map_get i (session_objs w) = Some s" using d(6) map_get_None by (metis option.exhaust subset_iff)
  then have id: "sn_sessionId s = i" using d(5) by blast
  note j = judge_effect[OF id, where num = num and l = l and m = m]
  have keys: "fst ` set (map_put i v mm) \<subseteq> fst ` set (session_objs w)" if "fst ` set mm \<subseteq> fst ` set (session_objs w)"
    for v mm
    using that imageI[OF map_get_Some_in[OF s], of fst] by (simp add: map_put_keys)
  show ?thesis
  proof (cases "sn_active s \<and> result \<noteq> None")
    case True
    then obtain r where r: "result = Some r" by blast
    let ?w1 = "snd (monitor_judge num l s m r w)"
    have m1: "monitors ?w1 = monitors w" by (rule monitors_more[OF j(5)])
    have e: "monitor_finish num l i result w = ?w1\<lparr>monitors := map_put i (judged_monitor l m r) (monitors ?w1)\<rparr>"
      using Some s True r j(1)[of r w] by (simp add: monitor_finish_def case_prod_unfold Let_def)
    let ?g = "\<lambda>x. if ps_id x = i then judged_row l m r (clock w) x else x"
    let ?w2 = "?w1\<lparr>monitors := map_put i (judged_monitor l m r) (monitors ?w1)\<rparr>"
    have g: "ps_id (?g x) = ps_id x" "ps_streamName (?g x) = ps_streamName x" "ps_nodeId (?g x) = ps_nodeId x"
      "is_open (?g x) = is_open x" for x by (simp_all add: judged_row_def is_open_def)
    have rows2: "rows (t_sessions ?w2) = map ?g (filter (\<lambda>_. True) (rows (t_sessions w)))" using j(2)[of r w] by simp
    have rest: "seq (t_sessions ?w2) = seq (t_sessions w)" "active_map ?w2 = active_map w" "session_objs ?w2 = session_objs w"
      using j(3,4)[of r w] judge_seq[of num l s m r w] by simp_all
    have mon: "fst ` set (monitors ?w2) \<subseteq> fst ` set (session_objs w)" using keys[OF d(6)] by (simp add: m1)
    have int2: "integrity ?w2" using judge_integrity[OF d(1), of num l s m r] by simp
    show ?thesis unfolding e
      by (rule live_ok_rows[OF assms int2 rows2 rest(1) subset_refl _ _ _ _ _ rest(2,3) mon]) (simp_all add: g)
  next
    case False
    have "fst ` set (map_del i (monitors w)) \<subseteq> fst ` set (session_objs w)" using d(6) by (auto simp: map_del_def)
    then show ?thesis
      using False Some s assms unfolding monitor_finish_def live_ok_def by (cases result) simp_all
  qed
qed

lemma live_run_ok:
  assumes "live_run x boot C w" "integrity boot" "active_map boot = []" "session_objs boot = []" "monitors boot = []"
  shows "live_ok (seq (t_sessions boot)) C w"
  using assms(1)
proof (induction rule: live_run.induct)
  case live_boot
  have "tbl_ok ps_id (t_sessions boot)" using assms(2) by (simp add: integrity_def ids_ok_def)
  then show ?case using assms(2-) by (auto simp: live_ok_def tbl_ok_def)
next
  case (live_other C w w')
  from live_other.IH live_other.hyps(2) show ?case unfolding elsewhere_def by (blast intro: live_ok_same)
qed (blast intro: live_ok_publish live_ok_unpublish live_ok_finish live_ok_node_session live_ok_measured live_ok_flagged
  live_ok_ended live_ok_event_gone)+

text \<open>What the media nodes make the server do, as it stands in media-node-handlers, are steps of such a run.\<close>

lemma elsewhere_core:
  assumes "live_run x boot C w" "integrity w'" "t_sessions w' = t_sessions w" "core.more w' = core.more w"
  shows "live_run x boot C w'"
proof -
  have "elsewhere w w'" unfolding elsewhere_def using monitors_core[OF assms(4)] assms(2,3) by blast
  then show ?thesis by (rule live_other[OF assms(1)])
qed

lemma emit_core: "t_sessions (emit e w) = t_sessions w" "core.more (emit e w) = core.more w"
  by (simp_all add: emit_def)

lemma audit_run: "live_run x boot C w \<Longrightarrow> integrity w \<Longrightarrow> live_run x boot C (audit l c t oo w)"
  by (rule elsewhere_core) (simp_all add: audit_integrity)

lemma node_grant_run:
  assumes "live_run x boot C w" "integrity w"
  shows "live_run x boot C (snd (grant_publish p ev key w))"
proof -
  define e where "e = (if ev = 0 then None else EventsRepository_findById ev w)"
  define w2 where "w2 = snd (getConfig (snd (getLimitsFor e w)))"
  have l: "live_run x boot C w2" and i: "integrity w2" unfolding w2_def
    by (rule live_other[OF assms(1)]) (auto simp: elsewhere_def assms(2) getLimitsFor_def case_prod_unfold Let_def
        getConfig_def split: option.split)
  let ?ins = "PublishSessionsRepository_insert (granted_session p ev key (clock w2)) w2"
  have n: "live_run x boot C (snd ?ins)" by (rule live_node_session[OF l]) (simp add: granted_session_def)
  have k: "integrity (snd ?ins)" by (rule PublishSessionsRepository_integrity(1)[OF i])
  have s: "live_run x boot C (publish_started p ev row (snd ?ins))" for row
    by (rule live_other[OF n])
       (auto simp: elsewhere_def publish_started_def adjustStreamCount_def Let_def audit_integrity emitNodesChanged_def k split: option.split)
  have "snd (grant_publish p ev key w) \<in> {snd ?ins} \<union> (\<lambda>row. publish_started p ev row (snd ?ins)) ` UNIV"
    unfolding grant_publish_def Let_def e_def[symmetric] case_prod_unfold w2_def[symmetric]
    by (cases "fst ?ins") (auto simp: case_prod_unfold split: sum.split)
  with n s show ?thesis by auto
qed

lemma node_publish_run:
  assumes "live_run x boot C w" "integrity w"
  shows "live_run x boot C (snd (handlePublishStart y p w))"
proof -
  define w1 where "w1 = snd (authorizePublish y (pp_streamName p) (''?token='' @ pp_token p) w)"
  have i: "integrity w1" using authorizePublish_state[of y "pp_streamName p" "''?token='' @ pp_token p" w] assms(2)
    unfolding w1_def by (auto simp: StreamKeysRepository_integrity)
  have l: "live_run x boot C w1" unfolding w1_def
    by (rule elsewhere_core[OF assms(1) i[unfolded w1_def] authorize_frame(1) authorize_more])
  show ?thesis
    unfolding handlePublishStart_def using audit_run[OF l i] node_grant_run[OF l i]
    by (auto simp: w1_def case_prod_unfold split: auth_result.split option.split)
qed

lemma node_metrics_run:
  assumes "live_run x boot C w" "integrity w"
  shows "live_run x boot C (handleMetrics i p w)"
proof -
  have m: "live_run x boot C (update_metrics i m w)" "integrity (update_metrics i m w)" for m
    unfolding update_metrics_def by (rule live_measured[OF assms(1)], rule PublishSessionsRepository_integrity(2)[OF assms(2)])
  have "live_run x boot C (emit e (update_metrics i m w))" for e m
    by (rule elsewhere_core[OF m(1)]) (simp_all only: emit_integrity m(2) emit_core)
  then show ?thesis using assms(1) by (simp add: handleMetrics_def Let_def split: option.split)
qed

lemma node_violation_run:
  assumes "live_run x boot C w" "integrity w"
  shows "live_run x boot C (handleViolation i rs m w)"
proof -
  let ?w1 = "PublishSessionsRepository_updateStatus i SViolating None None w"
  have l: "live_run x boot C ?w1" by (rule live_flagged[OF assms(1)])
  have "live_run x boot C (emit e (audit lv ct t oo ?w1))" for e lv ct t oo
    by (rule elsewhere_core[OF l])
       (simp_all add: emit_core audit_integrity PublishSessionsRepository_integrity(3)[OF assms(2)])
  then show ?thesis using assms(1) by (simp add: handleViolation_def Let_def split: option.split)
qed

lemma node_end_run:
  assumes "live_run x boot C w" "integrity w"
  shows "\<exists>D. live_run x boot D (handleEnd i t d w) \<and> C \<subseteq> D \<and> D \<subseteq> insert i C"
proof (cases "PublishSessionsRepository_findById i w")
  case None
  then show ?thesis using assms(1) by (intro exI[of _ C]) (auto simp: handleEnd_def)
next
  case (Some row)
  let ?w1 = "PublishSessionsRepository_markEnded i (if ps_compliant row then SCompliant else SEnded) t w"
  have l: "live_run x boot (insert i C) ?w1" by (rule live_ended[OF assms(1)]) (simp add: Some)
  have "live_run x boot (insert i C) (audit lv ct tx oo (emit e (emitNodesChanged ?w1)))" for e lv ct tx oo
    by (rule elsewhere_core[OF l])
       (simp_all add: audit_integrity PublishSessionsRepository_integrity(4)[OF assms(2)] emit_core emitNodesChanged_def)
  then show ?thesis using Some by (intro exI[of _ "insert i C"]) (simp add: handleEnd_def Let_def subset_insertI)
qed

text \<open>C24 The Map of live streams and the open sessions, in every run: whatever the order of publishes, ends of
  publishes and verdicts of probes since the process started, and whatever the rest of the server
  writes in between, the sessions of media nodes it opens and the sessions it ends or deletes
  included, a stream name in the Map stands for an object of that name that is still active, and for
  an open session of that name and of this server, unless the rest of the server has ended or deleted that very
  session; and every open session of this server is the one in the Map under its name, except
  sessions an earlier process left behind whose name is not in the Map; so no name ever has two open
  sessions that this process opened.\<close>

theorem live_map_exact:
  assumes "live_run x boot C w" "integrity boot" "active_map boot = []" "session_objs boot = []" "monitors boot = []"
  shows "(\<forall>n i. map_get n (active_map w) = Some i \<longrightarrow>
      (\<exists>s. map_get i (session_objs w) = Some s \<and> sn_sessionId s = i \<and> sn_streamName s = n \<and> sn_active s)
    \<and> (i \<in> C \<or> (\<exists>r\<in>set (rows (t_sessions w)). ps_id r = i \<and> ps_streamName r = n \<and> ps_nodeId r = None \<and> ps_endedAt r = None)))
    \<and> (\<forall>r\<in>set (rows (t_sessions w)). ps_endedAt r = None \<and> ps_nodeId r = None \<longrightarrow>
          map_get (ps_streamName r) (active_map w) = Some (ps_id r)
        \<or> ps_id r < seq (t_sessions boot) \<and> map_get (ps_streamName r) (active_map w) = None)"
proof -
  note d = live_okD[OF live_run_ok[OF assms]]
  have "\<exists>s. map_get i (session_objs w) = Some s \<and> sn_sessionId s = i \<and> sn_streamName s = n \<and> sn_active s"
    if "map_get n (active_map w) = Some i" for n i using d(2)[OF that] d(5) by blast
  then show ?thesis using d(3,4) unfolding is_open_def local_open_def by blast
qed

text \<open>C25 The verdict of a probe: when the session is still live the measurements are stored with the
  time, in this session only; it becomes violating exactly when a limit in force is exceeded,
  otherwise compliant the first time, and its recording is then marked to be kept; the compliance
  flag, once set, stays, and a session that had it keeps its status, violating or not, on later
  probes within the limits.  A probe that failed changes nothing, and when the session has ended while
  the probe ran, the loop stops and nothing is written.\<close>

theorem monitor_verdict:
  fixes num l result
  assumes "map_get i (monitors w) = Some m" "map_get i (session_objs w) = Some s" "sn_sessionId s = i"
  defines "w' \<equiv> monitor_finish num l i result w"
  shows "if \<not> sn_active s then w' = w\<lparr>monitors := map_del i (monitors w)\<rparr>
    else case result of None \<Rightarrow> w' = w
      | Some r \<Rightarrow>
          rows (t_sessions w') = map (\<lambda>x. if ps_id x = i then judged_row l m r (clock w) x else x) (rows (t_sessions w))
        \<and> map_get i (monitors w') = Some (judged_monitor l m r) \<and> session_objs w' = session_objs w
        \<and> rec_handles w' = (if exceeds l r \<or> mo_compliant m then rec_handles w
            else rec_handles (markCompliant (sn_streamName s) (pr_width r) (pr_height r) (pr_fps r) w))"
  using judge_effect[OF assms(3), where num = num and l = l and m = m and w = w] assms(1,2)
  by (auto simp: w'_def monitor_finish_def case_prod_unfold Let_def map_get_put split: option.split)

text \<open>The end of a publish: the stream leaves the Map, its object is inactive, so its monitor
  stops, and its session, and no other, is closed now as killed if it was killed, as compliant if
  it ever was, and as ended otherwise.\<close>

theorem unpublish_closes:
  fixes cal
  assumes "map_get n (active_map w) = Some i" "map_get i (session_objs w) = Some s" "sn_sessionId s = i"
  defines "w' \<equiv> snd (handleUnpublish cal n w)"
  shows "map_get n (active_map w') = None \<and> map_get i (session_objs w') = Some (s\<lparr>sn_active := False\<rparr>)
    \<and> rows (t_sessions w') = map (\<lambda>r. if ps_id r = i then ended_row (case PublishSessionsRepository_findById i w of None \<Rightarrow> SEnded
        | Some p \<Rightarrow> if ps_status p = SKilled then SKilled else if ps_compliant p then SCompliant else SEnded) (clock w) r else r)
        (rows (t_sessions w))
    \<and> (map_get i (monitors w) \<noteq> None \<longrightarrow> monitor_finish num l i result w' = w'\<lparr>monitors := map_del i (monitors w')\<rparr>)"
  unfolding w'_def using unpublish_effect[OF assms(1-3), of cal]
  by (auto simp: map_get_del map_get_put unpublish_status_def final_status_def monitor_finish_def split: option.split)


section \<open>Concrete runs\<close>

theorem live_map_exact_witness:
  "\<exists>r\<in>set (rows (t_sessions (snd (handlePublish demo_externals ann_again zombie)))). ps_endedAt r = None
     \<and> map_get ''ann'' (active_map (snd (handlePublish demo_externals ann_again zombie))) = Some (ps_id r)"
proof -
  let ?w = "snd (handlePublish demo_externals ann_again zombie)"
  have z: "active_map zombie = []" "session_objs zombie = []" "monitors zombie = []"
    by (simp_all add: zombie_def world.defs live.defs)
  have n: "pc_stream ann_again = ''ann''" by (simp add: ann_again_def)
  obtain w1 where a: "authorizePublish demo_externals (pc_stream ann_again) (pc_param ann_again) zombie = (Allow 1 (-1) None, w1)"
    using ann_admitted by (metis prod.collapse)
  have "handlePublish demo_externals ann_again zombie = (fst (handlePublish demo_externals ann_again zombie), ?w)" by simp
  from handlePublish_allowed[OF zombie_integrity a this]
  have "\<exists>i. active_map ?w = map_put ''ann'' i (active_map zombie)" unfolding n by (elim conjE exE) (rule exI)
  then obtain i where i: "map_get ''ann'' (active_map ?w) = Some i" by (auto simp: map_get_put)
  have "live_run demo_externals zombie {} ?w" by (intro live_publish live_boot)
  from live_map_exact[OF this zombie_integrity z, THEN conjunct1, rule_format, OF i, THEN conjunct2] i
  show ?thesis by auto
qed

definition monitored :: live where
  "monitored = zombie\<lparr>active_map := [(''ann'', 1)],
     session_objs := [(1, \<lparr>sn_sessionId = 1, sn_eventId = Some 1, sn_streamName = ''ann'', sn_app = ''live'', sn_vhost = ''v'',
       sn_clientId = ''c1'', sn_startedAtMs = 1000, sn_active = True\<rparr>)],
     monitors := [(1, \<lparr>mo_event = Some demo_event, mo_metrics = no_metrics, mo_status = SCompliant, mo_compliant = True\<rparr>)]\<rparr>"

lemma monitored_state:
  "map_get 1 (monitors monitored) = Some \<lparr>mo_event = Some demo_event, mo_metrics = no_metrics, mo_status = SCompliant, mo_compliant = True\<rparr>"
  "map_get 1 (session_objs monitored) = Some \<lparr>sn_sessionId = 1, sn_eventId = Some 1, sn_streamName = ''ann'', sn_app = ''live'',
     sn_vhost = ''v'', sn_clientId = ''c1'', sn_startedAtMs = 1000, sn_active = True\<rparr>"
  "map_get ''ann'' (active_map monitored) = Some 1" "t_sessions monitored = t_sessions zombie" "clock monitored = 2000"
  by (simp_all add: monitored_def map_get_def zombie_state)

definition hd_limits :: limits where
  "hd_limits = \<lparr>maxWidth = 1280, maxHeight = 720, maxFps = 60, maxVideoBitrateKbps = 0, maxAudioBitrateKbps = 0\<rparr>"

definition uhd :: probe_result where
  "uhd = \<lparr>pr_width = 3840, pr_height = 2160, pr_fps = 30, pr_videoBitrateKbps = 9000\<rparr>"

theorem monitor_verdict_witness:
  "map (\<lambda>r. (ps_status r, ps_compliant r, ps_width r)) (rows (t_sessions (monitor_finish (\<lambda>r. int_str \<lfloor>r\<rfloor>) hd_limits 1 (Some uhd) monitored)))
     = [(SViolating, True, Some 3840)]"
  using monitor_verdict[OF monitored_state(1,2), of "\<lambda>r. int_str \<lfloor>r\<rfloor>" hd_limits "Some uhd"]
  by (simp add: monitored_state(4) zombie_state judged_row_def exceeds_def hd_limits_def uhd_def session_values_def)

theorem unpublish_closes_witness:
  "map (\<lambda>r. (ps_status r, ps_endedAt r)) (rows (t_sessions (snd (handleUnpublish (\<lambda>t. ([], [])) ''ann'' monitored))))
     = [(SCompliant, Some 2000)]"
proof -
  have "PublishSessionsRepository_findById 1 monitored = Some ((session_values ''ann'')\<lparr>ps_id := 1, ps_eventId := Some 1,
      ps_status := SCompliant, ps_compliant := True\<rparr>)"
    by (simp add: PublishSessionsRepository_findById_def monitored_state(4) zombie_state tbl_find_def session_values_def)
  then show ?thesis
    using unpublish_closes[OF monitored_state(3,2), of "\<lambda>t. ([], [])"]
    by (simp add: monitored_state(4,5) zombie_state ended_row_def session_values_def db_ts_def)
qed

end
