(* ===== verification/SrsClient.thy ===== *)
theory SrsClient
  imports Session
begin

text \<open>
  services/srs-client.ts, what the local SRS is asked and what its answers are taken to mean,
  utils/srs-url.ts, the addresses of a stream, and parseIceServers of utils/env.ts.

  An answer is the outcome of a fetch: no answer, a status that is not 2xx, or a body, whose JSON is
  None when it does not parse.
\<close>

datatype fetch_result = Unreachable | NotOk int | Body "json option"


section \<open>decodeURIComponent\<close>

fun percent_bytes :: "string \<Rightarrow> string option" where
  "percent_bytes [] = Some []"
| "percent_bytes (a # s) =
     (if a \<noteq> CHR ''%'' then map_option ((#) a) (percent_bytes s)
      else case s of
        b # c # t \<Rightarrow> (case (hex_value b, hex_value c) of
            (Some h, Some l) \<Rightarrow> map_option ((#) (char_of (16 * h + l))) (percent_bytes t)
          | _ \<Rightarrow> None)
      | _ \<Rightarrow> None)"

definition cont :: "nat \<Rightarrow> bool" where
  "cont b \<longleftrightarrow> 128 \<le> b \<and> b < 192"

fun utf8_bytes :: "nat list \<Rightarrow> bool" where
  "utf8_bytes [] = True"
| "utf8_bytes (a # s) =
     (if a < 128 then utf8_bytes s
      else if a < 194 then False
      else if a < 224 then (case s of b # t \<Rightarrow> cont b \<and> utf8_bytes t | _ \<Rightarrow> False)
      else if a < 240 then (case s of b # c # t \<Rightarrow> cont b \<and> cont c \<and> (a = 224 \<longrightarrow> 160 \<le> b) \<and> (a = 237 \<longrightarrow> b < 160) \<and> utf8_bytes t
          | _ \<Rightarrow> False)
      else if a < 245 then (case s of b # c # e # t \<Rightarrow> cont b \<and> cont c \<and> cont e \<and> (a = 240 \<longrightarrow> 144 \<le> b) \<and> (a = 244 \<longrightarrow> b < 144)
            \<and> utf8_bytes t
          | _ \<Rightarrow> False)
      else False)"

definition utf8_ok :: "string \<Rightarrow> bool" where
  "utf8_ok s = utf8_bytes (map of_char s)"

text \<open>None where it throws URIError.\<close>

definition decodeURIComponent :: "string \<Rightarrow> string option" where
  "decodeURIComponent s = (case percent_bytes s of None \<Rightarrow> None | Some t \<Rightarrow> if utf8_ok t then Some t else None)"

text \<open>encodeURI leaves the reserved characters too.\<close>

definition encodeURI :: "string \<Rightarrow> string" where
  "encodeURI s = concat (map (\<lambda>c. if uri_char c \<or> c \<in> set '';/?:@&=+$,#'' then [c]
     else [CHR ''%'', upper_hex (of_char c div 16), upper_hex (of_char c mod 16)]) s)"


section \<open>The SRS API\<close>

text \<open>The request, if one is made, and the answer to the caller.\<close>

definition killClient :: "string \<Rightarrow> string \<Rightarrow> fetch_result \<Rightarrow> string option \<times> bool" where
  "killClient base clientId res =
     (if clientId = [] then (None, False)
      else (Some (base @ ''/clients/'' @ encodeURIComponent clientId), (case res of Body _ \<Rightarrow> True | _ \<Rightarrow> False)))"

definition json_get :: "string \<Rightarrow> json \<Rightarrow> json option" where
  "json_get k j = (case j of JObj fs \<Rightarrow> map_of (rev fs) k | _ \<Rightarrow> None)"

text \<open>getStreams and getClients throw when SRS does not answer or the body does not parse.\<close>

definition getStreams :: "fetch_result \<Rightarrow> json option" where
  "getStreams res = (case res of Unreachable \<Rightarrow> None | NotOk _ \<Rightarrow> Some (JObj [(''streams'', JArr [])]) | Body j \<Rightarrow> j)"

definition getClients :: "fetch_result \<Rightarrow> json option" where
  "getClients res = (case res of Unreachable \<Rightarrow> None | NotOk _ \<Rightarrow> Some (JObj [(''clients'', JArr [])]) | Body j \<Rightarrow> j)"

text \<open>The name of an entry of the list; SRS sends a string when it sends one.\<close>

definition stream_name :: "json \<Rightarrow> string option" where
  "stream_name j = (if j = JNull then None
     else decodeURIComponent (case json_get ''name'' j of Some (JStr s) \<Rightarrow> s | _ \<Rightarrow> []))"

text \<open>Null, here None, when SRS does not answer, answers with an error, sends no JSON, or any name of
  the list is malformed.\<close>

definition listLiveStreamNames :: "fetch_result \<Rightarrow> string list option" where
  "listLiveStreamNames res =
     (case res of
        Body (Some j) \<Rightarrow> (if j = JNull then None else
          case json_get ''streams'' j of
            Some (JArr es) \<Rightarrow> those (map stream_name es)
          | Some JNull \<Rightarrow> Some []
          | None \<Rightarrow> Some []
          | Some _ \<Rightarrow> None)
      | _ \<Rightarrow> None)"


section \<open>Addresses\<close>

definition buildFlvPullUrl :: "string \<Rightarrow> string \<Rightarrow> string" where
  "buildFlvPullUrl base stream = base @ ''/live/'' @ encodeURI stream @ ''.flv''"

definition buildRtmpUrl :: "string \<Rightarrow> string \<Rightarrow> string \<Rightarrow> string option \<Rightarrow> string" where
  "buildRtmpUrl host app stream vhost =
     ''rtmp://'' @ host @ ''/'' @ encodeURI app @ ''/'' @ encodeURI stream
     @ (case vhost of Some v \<Rightarrow> if v \<noteq> [] \<and> v \<noteq> ''__defaultVhost__'' then ''?vhost='' @ encodeURIComponent v else [] | None \<Rightarrow> [])"

record ice_server =
  ice_urls :: string
  ice_username :: "string option"
  ice_credential :: "string option"

record playback_urls =
  pl_whep :: string
  pl_iceServers :: "ice_server list"

definition buildPlaybackUrls :: "ice_server list \<Rightarrow> string \<Rightarrow> playback_urls" where
  "buildPlaybackUrls ice stream = \<lparr>pl_whep = ''/api/streams/whep/'' @ encodeURIComponent stream, pl_iceServers = ice\<rparr>"

definition ice_of_json :: "json \<Rightarrow> ice_server option" where
  "ice_of_json j = (case json_get ''urls'' j of
     Some (JStr u) \<Rightarrow> if u = [] then None else Some \<lparr>ice_urls = u,
       ice_username = (case json_get ''username'' j of Some (JStr s) \<Rightarrow> Some s | _ \<Rightarrow> None),
       ice_credential = (case json_get ''credential'' j of Some (JStr s) \<Rightarrow> Some s | _ \<Rightarrow> None)\<rparr>
   | _ \<Rightarrow> None)"

text \<open>The pattern turn or turns, user, password, host: the user ends at the first colon, the password
  at the first at sign after it, and none of the three is empty.\<close>

definition turn_shorthand :: "string \<Rightarrow> ice_server option" where
  "turn_shorthand u =
     (let scheme = takeWhile (\<lambda>c. c \<noteq> CHR '':'') u; r1 = tl (dropWhile (\<lambda>c. c \<noteq> CHR '':'') u);
          user = takeWhile (\<lambda>c. c \<noteq> CHR '':'') r1; r2 = dropWhile (\<lambda>c. c \<noteq> CHR '':'') r1;
          pass = takeWhile (\<lambda>c. c \<noteq> CHR ''@'') (tl r2); r3 = dropWhile (\<lambda>c. c \<noteq> CHR ''@'') (tl r2)
      in if scheme \<in> {''turn'', ''turns''} \<and> CHR '':'' \<in> set u \<and> user \<noteq> [] \<and> r2 \<noteq> [] \<and> pass \<noteq> [] \<and> r3 \<noteq> [] \<and> tl r3 \<noteq> []
            \<and> (\<forall>c\<in>set (tl r3). of_char c \<noteq> (10 :: nat) \<and> of_char c \<noteq> (13 :: nat))
         then Some \<lparr>ice_urls = scheme @ CHR '':'' # tl r3, ice_username = Some user, ice_credential = Some pass\<rparr>
         else None)"

text \<open>parse is JSON.parse.\<close>

definition parseIceServers :: "(string \<Rightarrow> json option) \<Rightarrow> string \<Rightarrow> ice_server list" where
  "parseIceServers parse raw =
     (let txt = js_trim raw in
      if txt = [] then []
      else if starts_with ''['' txt \<or> starts_with ''{'' txt then
        (case parse txt of Some (JArr es) \<Rightarrow> List.map_filter ice_of_json es | _ \<Rightarrow> [])
      else map (\<lambda>u. case turn_shorthand u of Some s \<Rightarrow> s | None \<Rightarrow> \<lparr>ice_urls = u, ice_username = None, ice_credential = None\<rparr>)
             (filter (\<lambda>u. u \<noteq> []) (map js_trim (js_split (CHR '','') txt))))"


section \<open>Encoding and decoding\<close>

lemma hex_value_upper: "n < 16 \<Longrightarrow> hex_value (upper_hex n) = Some n"
  by (auto simp: upper_hex_def hex_value_def Let_def)

lemma percent_encode: "percent_bytes (encodeURIComponent s) = Some s"
proof (induction s)
  case (Cons c s)
  have plain: "uri_char c \<Longrightarrow> c \<noteq> CHR ''%''" by (auto simp: uri_char_def is_alnum_def is_digit_def is_upper_def is_lower_def Let_def)
  have "(of_char c :: nat) div 16 < 16" "(of_char c :: nat) mod 16 < 16"
    using of_char_lt[of c] by (auto simp: less_mult_imp_div_less)
  moreover have "char_of (16 * ((of_char c :: nat) div 16) + of_char c mod 16) = c"
    by (simp only: mult_div_mod_eq char_of_char)
  ultimately show ?case
    using Cons plain by (simp add: encodeURIComponent_def hex_value_upper)
qed (simp add: encodeURIComponent_def)

lemma decode_encode: "utf8_ok s \<Longrightarrow> decodeURIComponent (encodeURIComponent s) = Some s"
  by (simp add: decodeURIComponent_def percent_encode)

lemma percent_bytes_plain: "CHR ''%'' \<notin> set s \<Longrightarrow> percent_bytes s = Some s"
  by (induction s rule: percent_bytes.induct) auto

lemma encode_chars: "c \<in> set (encodeURIComponent s) \<Longrightarrow> uri_char c \<or> c = CHR ''%''"
proof (induction s)
  case (Cons d s)
  have hex: "uri_char (upper_hex n)" if "n < 16" for n
  proof -
    have "(of_char (upper_hex n) :: nat) = (if n < 10 then 48 + n else 55 + n)" using that by (simp add: upper_hex_def)
    then show ?thesis using that by (auto simp: uri_char_def is_alnum_def is_digit_def is_upper_def Let_def split: if_splits)
  qed
  have b: "(of_char d :: nat) div 16 < 16" "(of_char d :: nat) mod 16 < 16"
    using of_char_lt[of d] by (auto simp: less_mult_imp_div_less)
  from Cons.prems have "c \<in> set (if uri_char d then [d]
      else [CHR ''%'', upper_hex (of_char d div 16), upper_hex (of_char d mod 16)]) \<or> c \<in> set (encodeURIComponent s)"
    by (simp add: encodeURIComponent_def)
  then show ?case using Cons.IH hex[OF b(1)] hex[OF b(2)] by (auto split: if_splits)
qed (simp add: encodeURIComponent_def)

lemma encode_safe: "c \<in> set (encodeURIComponent s) \<Longrightarrow> c \<notin> set ''/?#&;=''"
  by (drule encode_chars) (auto simp: uri_char_def is_alnum_def is_digit_def is_upper_def is_lower_def Let_def)

text \<open>An answer that lists the streams by their encoded names is read as those names.\<close>

lemma live_names_listed:
  assumes "list_all utf8_ok ns" "json_get ''streams'' j = Some (JArr (map (\<lambda>n. JObj [(''name'', JStr (encodeURIComponent n))]) ns))"
  shows "listLiveStreamNames (Body (Some j)) = Some ns"
proof -
  have "those (map stream_name (map (\<lambda>n. JObj [(''name'', JStr (encodeURIComponent n))]) ns)) = Some ns"
    using assms(1) by (induction ns) (simp_all add: stream_name_def json_get_def decode_encode)
  moreover have "j \<noteq> JNull" using assms(2) by (auto simp: json_get_def)
  ultimately show ?thesis using assms(2) by (simp add: listLiveStreamNames_def)
qed

lemma live_names_unknown: "listLiveStreamNames Unreachable = None" "listLiveStreamNames (NotOk n) = None"
  "listLiveStreamNames (Body None) = None"
  by (simp_all add: listLiveStreamNames_def)

lemma ice_of_json_urls: "ice_of_json j = Some s \<Longrightarrow> ice_urls s \<noteq> []"
  by (auto simp: ice_of_json_def split: option.splits json.splits if_splits)

lemma turn_shorthand_urls: "turn_shorthand u = Some s \<Longrightarrow> ice_urls s \<noteq> []"
  by (auto simp: turn_shorthand_def Let_def split: if_splits)

lemma parseIceServers_urls:
  assumes "s \<in> set (parseIceServers parse raw)"
  shows "ice_urls s \<noteq> []"
proof -
  consider es where "s \<in> set (List.map_filter ice_of_json es)"
    | u where "u \<noteq> []" "s = (case turn_shorthand u of Some s \<Rightarrow> s | None \<Rightarrow> \<lparr>ice_urls = u, ice_username = None, ice_credential = None\<rparr>)"
    using assms unfolding parseIceServers_def Let_def by (fastforce split: if_splits option.splits json.splits)
  then show ?thesis
  proof cases
    case 1
    then show ?thesis by (auto simp: List.map_filter_def dest: ice_of_json_urls)
  next
    case 2
    then show ?thesis using turn_shorthand_urls by (cases "turn_shorthand u") auto
  qed
qed

lemma parseIceServers_shorthand:
  "parseIceServers parse ''turn:alice:s3cret@turn.example.com:3478, stun:b:2'' =
     [\<lparr>ice_urls = ''turn:turn.example.com:3478'', ice_username = Some ''alice'', ice_credential = Some ''s3cret''\<rparr>,
      \<lparr>ice_urls = ''stun:b:2'', ice_username = None, ice_credential = None\<rparr>]"
  by code_simp

end
