(* ===== verification/Reconcile.thy ===== *)
theory Reconcile
  imports LiveRun SrsClient
begin

text \<open>
  services/reconcile.ts: the sweep that closes sessions whose publisher is gone.  Sessions on a media
  node are judged by the age of their last metrics, local ones by the list of streams of the local
  SRS.  The sweep takes one list of open sessions at its start and works through it; during is what
  the rest of the server does while SRS is asked.
\<close>

section \<open>The sweep\<close>

definition REMOTE_STALE_MS :: int where "REMOTE_STALE_MS = 90000"

definition REMOTE_GRACE_MS :: int where "REMOTE_GRACE_MS = 120000"

definition is_local :: "publish_session_row \<Rightarrow> bool" where
  "is_local s \<longleftrightarrow> orDefault (ps_nodeId s) [] = []"

definition remote_stale :: "int \<Rightarrow> publish_session_row \<Rightarrow> bool" where
  "remote_stale now s = (case ps_lastMetricAt s of
     Some l \<Rightarrow> REMOTE_STALE_MS < now - l
   | None \<Rightarrow> REMOTE_GRACE_MS < now - ps_startedAt s)"

definition remote_reason :: "int \<Rightarrow> publish_session_row \<Rightarrow> string" where
  "remote_reason now s = ''node '' @ orDefault (ps_nodeId s) [] @ '' stopped reporting (last metric ''
     @ (case ps_lastMetricAt s of
          Some l \<Rightarrow> if l \<noteq> 0 then int_str (js_round (of_int (now - l) / 1000)) @ ''s ago'' else ''never''
        | None \<Rightarrow> ''never'') @ '')''"

definition ghost_snapshot :: "publish_session_row \<Rightarrow> int \<Rightarrow> session_snapshot" where
  "ghost_snapshot s endedAt =
     \<lparr>ss_sessionId = ps_id s, ss_eventId = ps_eventId s, ss_streamName = ps_streamName s, ss_status = final_status s,
      ss_srsClientId = ps_srsClientId s, ss_nodeId = None,
      ss_width = ps_width s, ss_height = ps_height s, ss_fps = ps_fps s, ss_videoBitrateKbps = ps_videoBitrateKbps s,
      ss_audioBitrateKbps = ps_audioBitrateKbps s, ss_compliant = ps_compliant s, ss_rejectReason = ps_rejectReason s,
      ss_startedAt = ps_startedAt s, ss_endedAt = Some endedAt\<rparr>"

definition closeGhost :: "calendar \<Rightarrow> publish_session_row \<Rightarrow> string \<Rightarrow> 'z world_scheme \<Rightarrow> (unit, 'z world_scheme) outcome" where
  "closeGhost cal s reason w =
     (let endedAt = clock w;
          w1 = PublishSessionsRepository_markEnded (ps_id s) (final_status s) endedAt w
      in andThen (if is_local s then stopRecording cal (ps_streamName s) (ps_eventId s) (Some (ps_id s)) None w1 else (Inr (), w1))
           (\<lambda>_ w2. (Inr (), audit LWarn CPublish
              (''reconciled stale session: '' @ ps_streamName s @ '' (#'' @ int_str (ps_id s) @ '') '' @ EM_DASH @ '' '' @ reason)
              (no_opts\<lparr>ai_actor := Some (ps_streamName s), ai_streamName := Some (ps_streamName s),
                 ai_detail := Some (JObj [(''sessionId'', json_int (ps_id s)), (''reason'', JStr reason)])\<rparr>)
              (emit (SessionStop (ghost_snapshot s endedAt)) w2))))"

text \<open>A loop over sessions that closes those that are ghosts; a throw ends the sweep.\<close>

fun close_each :: "calendar \<Rightarrow> (publish_session_row \<Rightarrow> string option) \<Rightarrow> publish_session_row list \<Rightarrow> 'z world_scheme \<Rightarrow>
    (unit, 'z world_scheme) outcome" where
  "close_each cal why [] w = (Inr (), w)"
| "close_each cal why (s # ss) w =
     (case why s of
        None \<Rightarrow> close_each cal why ss w
      | Some reason \<Rightarrow> andThen (closeGhost cal s reason w) (\<lambda>_ w1. close_each cal why ss w1))"

definition remote_why :: "int \<Rightarrow> publish_session_row \<Rightarrow> string option" where
  "remote_why now s = (if remote_stale now s then Some (remote_reason now s) else None)"

text \<open>newestByName.\<close>

fun newest_by_name :: "publish_session_row list \<Rightarrow> (string, int) jsmap \<Rightarrow> (string, int) jsmap" where
  "newest_by_name [] m = m"
| "newest_by_name (s # ss) m = newest_by_name ss
     (case map_get (ps_streamName s) m of
        None \<Rightarrow> map_put (ps_streamName s) (ps_id s) m
      | Some cur \<Rightarrow> if cur < ps_id s then map_put (ps_streamName s) (ps_id s) m else m)"

definition local_why :: "string list \<Rightarrow> (string, int) jsmap \<Rightarrow> publish_session_row \<Rightarrow> string option" where
  "local_why names newest s =
     (if ps_streamName s \<in> set names \<and> map_get (ps_streamName s) newest = Some (ps_id s) then None
      else Some ''not live in SRS anymore'')"

definition reconcileStaleSessions :: "calendar \<Rightarrow> ('z world_scheme \<Rightarrow> 'z world_scheme) \<Rightarrow> fetch_result \<Rightarrow> 'z world_scheme \<Rightarrow>
    (unit, 'z world_scheme) outcome" where
  "reconcileStaleSessions cal during answer w =
     (let open_ss = PublishSessionsRepository_findActive None w;
          locals = filter is_local open_ss
      in if open_ss = [] then (Inr (), w)
         else andThen (close_each cal (remote_why (clock w)) (filter (\<lambda>s. \<not> is_local s) open_ss) w) (\<lambda>_ w1.
           if locals = [] then (Inr (), w1)
           else let w2 = during w1 in
             (case listLiveStreamNames answer of
                None \<Rightarrow> (Inr (), w2)
              | Some names \<Rightarrow> close_each cal (local_why names (newest_by_name locals [])) locals w2)))"

text \<open>The timer of plugins/02-reconcile.ts swallows a throw.\<close>

definition reconcile_sweep :: "calendar \<Rightarrow> ('z world_scheme \<Rightarrow> 'z world_scheme) \<Rightarrow> fetch_result \<Rightarrow> 'z world_scheme \<Rightarrow> 'z world_scheme" where
  "reconcile_sweep cal during answer w = snd (reconcileStaleSessions cal during answer w)"


section \<open>Exactly the ghosts are closed\<close>

lemma finalizeRecording_keeps:
  fixes w :: "'a world_scheme"
  shows "clock (snd (finalizeRecording cal n h ev i l w)) = clock w" "rec_handles (snd (finalizeRecording cal n h ev i l w)) = rec_handles w"
  by (auto simp: finalizeRecording_def Let_def andThen_def RecordingsRepository_insert_def RecordingsRepository_update_def
      split: option.split sum.split prod.split)

lemma stopRecording_keeps:
  fixes w :: "'a world_scheme"
  shows "clock (snd (stopRecording cal n ev i l w)) = clock w"
    "map_get n (rec_handles (snd (stopRecording cal n ev i l w))) = None"
  by (auto simp: stopRecording_def take_handle_def close_handle_def finalizeRecording_keeps map_get_del split: option.split)

lemma closeGhost_effect:
  fixes w :: "'a world_scheme"
  assumes "closeGhost cal s reason w = (Inr (), w')"
  shows "rows (t_sessions w') = map (\<lambda>x. if ps_id x = ps_id s then ended_row (final_status s) (clock w) x else x) (rows (t_sessions w))"
    "clock w' = clock w" "is_local s \<Longrightarrow> map_get (ps_streamName s) (rec_handles w') = None"
proof -
  let ?w1 = "PublishSessionsRepository_markEnded (ps_id s) (final_status s) (clock w) w"
  let ?stop = "stopRecording cal (ps_streamName s) (ps_eventId s) (Some (ps_id s)) None ?w1"
  obtain w2 where w2: "(if is_local s then ?stop else (Inr (), ?w1)) = (Inr (), w2)"
    "t_sessions w' = t_sessions w2" "clock w' = clock w2" "rec_handles w' = rec_handles w2"
    using assms by (auto simp: closeGhost_def Let_def andThen_eq_Inr)
  then have "w2 = (if is_local s then snd ?stop else ?w1)" by (auto split: if_splits)
  note e = w2(2-4)[unfolded this]
  show "rows (t_sessions w') = map (\<lambda>x. if ps_id x = ps_id s then ended_row (final_status s) (clock w) x else x) (rows (t_sessions w))"
    by (simp add: e PublishSessionsRepository_markEnded_def sessions_set_def tbl_update_def ended_row_def)
  show "clock w' = clock w"
    by (simp add: e stopRecording_keeps PublishSessionsRepository_markEnded_def sessions_set_def)
  show "map_get (ps_streamName s) (rec_handles w') = None" if "is_local s"
    using that by (simp add: e stopRecording_keeps)
qed

definition closing :: "(publish_session_row \<Rightarrow> string option) \<Rightarrow> publish_session_row list \<Rightarrow> int \<Rightarrow> publish_session_row \<Rightarrow> publish_session_row" where
  "closing why ss now x = (case find (\<lambda>s. ps_id s = ps_id x) ss of
     Some s \<Rightarrow> if why s = None then x else ended_row (final_status s) now x
   | None \<Rightarrow> x)"

lemma close_each_effect:
  fixes w :: "'a world_scheme"
  assumes "close_each cal why ss w = (Inr (), w')" "distinct (map ps_id ss)"
  shows "rows (t_sessions w') = map (closing why ss (clock w)) (rows (t_sessions w)) \<and> clock w' = clock w"
  using assms
proof (induction ss arbitrary: w)
  case Nil
  then show ?case by (simp add: closing_def)
next
  case (Cons s ss)
  have "ps_id s \<notin> ps_id ` set ss" using Cons.prems(2) by simp
  then have fresh: "find (\<lambda>q. ps_id q = ps_id s) ss = None" unfolding find_None_iff by (metis image_eqI)
  show ?case
  proof (cases "why s")
    case None
    then have "closing why (s # ss) now x = closing why ss now x" for now x
      using fresh by (auto simp: closing_def)
    with None Cons show ?thesis by simp
  next
    case (Some reason)
    then obtain w1 where w1: "closeGhost cal s reason w = (Inr (), w1)" "close_each cal why ss w1 = (Inr (), w')"
      using Cons.prems(1) by (auto simp: andThen_eq_Inr)
    note e = closeGhost_effect[OF w1(1)]
    have step: "closing why ss now (if ps_id x = ps_id s then ended_row (final_status s) now x else x) = closing why (s # ss) now x" for now x
      using fresh Some by (auto simp: closing_def ended_row_def)
    from Cons.IH[OF w1(2)] Cons.prems(2) show ?thesis by (simp add: e step comp_def)
  qed
qed

lemma Max_insert_max: "finite S \<Longrightarrow> Max (insert (max a b) S) = Max (insert a (insert b S))" for a :: int
  by (cases "S = {}") (simp_all add: max.assoc)

lemma newest_by_name_spec:
  "map_get n (newest_by_name ss m) =
     (let ids = set_option (map_get n m) \<union> ps_id ` {s \<in> set ss. ps_streamName s = n}
      in if ids = {} then None else Some (Max ids))"
proof (induction ss m rule: newest_by_name.induct)
  case (1 m)
  then show ?case by (cases "map_get n m") simp_all
next
  case (2 s ss m)
  let ?m = "case map_get (ps_streamName s) m of None \<Rightarrow> map_put (ps_streamName s) (ps_id s) m
      | Some cur \<Rightarrow> if cur < ps_id s then map_put (ps_streamName s) (ps_id s) m else m"
  let ?rest = "ps_id ` {q \<in> set ss. ps_streamName q = n}"
  have IH: "map_get n (newest_by_name ss ?m) =
     (let ids = set_option (map_get n ?m) \<union> ?rest in if ids = {} then None else Some (Max ids))"
    using 2 by simp
  show ?case
  proof (cases "ps_streamName s = n")
    case False
    then have "map_get n ?m = map_get n m" "{q \<in> set (s # ss). ps_streamName q = n} = {q \<in> set ss. ps_streamName q = n}"
      by (auto simp: map_get_put split: option.split)
    then show ?thesis using IH by simp
  next
    case True
    then have all: "ps_id ` {q \<in> set (s # ss). ps_streamName q = n} = insert (ps_id s) ?rest" by auto
    have fin: "finite ?rest" by simp
    show ?thesis
    proof (cases "map_get n m")
      case None
      then have "map_get n ?m = Some (ps_id s)" using True by (simp add: map_get_put)
      then show ?thesis using IH None all by simp
    next
      case (Some cur)
      then have g: "map_get n ?m = Some (max cur (ps_id s))" using True by (auto simp: map_get_put max_def)
      have "Max (insert (max cur (ps_id s)) ?rest) = Max (insert cur (insert (ps_id s) ?rest))"
        by (rule Max_insert_max[OF fin])
      moreover have "set_option (map_get n m) \<union> ps_id ` {q \<in> set (s # ss). ps_streamName q = n} = insert cur (insert (ps_id s) ?rest)"
        unfolding all Some by auto
      moreover have "set_option (map_get n ?m) \<union> ?rest = insert (max cur (ps_id s)) ?rest" unfolding g by simp
      ultimately show ?thesis using IH by (simp only: newest_by_name.simps Let_def insert_not_empty if_False)
    qed
  qed
qed

lemma find_unique:
  assumes "\<And>s. s \<in> set ss \<Longrightarrow> P s \<longleftrightarrow> c \<and> s = x" "c \<Longrightarrow> x \<in> set ss"
  shows "find P ss = (if c then Some x else None)"
  using assms
proof (induction ss)
  case (Cons s ss)
  then show ?case by (cases "P s") (auto simp: find_None_iff)
qed auto

definition newest_local :: "publish_session_row list \<Rightarrow> publish_session_row \<Rightarrow> bool" where
  "newest_local ss s \<longleftrightarrow> (\<forall>q\<in>set ss. ps_streamName q = ps_streamName s \<longrightarrow> ps_id q \<le> ps_id s)"

lemma local_why_iff:
  assumes "s \<in> set ss"
  shows "local_why names (newest_by_name ss []) s = None \<longleftrightarrow> ps_streamName s \<in> set names \<and> newest_local ss s"
proof -
  let ?ids = "ps_id ` {q \<in> set ss. ps_streamName q = ps_streamName s}"
  have "ps_id s \<in> ?ids" "finite ?ids" using assms by auto
  then have "map_get (ps_streamName s) (newest_by_name ss []) = Some (ps_id s) \<longleftrightarrow> (\<forall>i\<in>?ids. i \<le> ps_id s)"
    by (auto simp: newest_by_name_spec Let_def Max_eq_iff)
  then show ?thesis by (auto simp: local_why_def newest_local_def)
qed

lemma closing_local:
  "closing (local_why names (newest_by_name ss [])) ss now x =
     (case find (\<lambda>s. ps_id s = ps_id x) ss of
        None \<Rightarrow> x
      | Some s \<Rightarrow> if ps_streamName s \<in> set names \<and> newest_local ss s then x else ended_row (final_status s) now x)"
proof (cases "find (\<lambda>s. ps_id s = ps_id x) ss")
  case (Some s)
  then have "s \<in> set ss" by (auto dest: find_SomeD)
  then show ?thesis by (simp add: closing_def Some local_why_iff)
qed (simp add: closing_def)

lemma findActive_mem:
  "x \<in> set (PublishSessionsRepository_findActive None w) \<longleftrightarrow> x \<in> set (rows (t_sessions w)) \<and> ps_endedAt x = None"
  by (auto simp: PublishSessionsRepository_findActive_def tbl_select_def)

text \<open>The row of a session on a media node after the first half of a sweep.\<close>

definition remote_swept :: "int \<Rightarrow> publish_session_row \<Rightarrow> publish_session_row" where
  "remote_swept now x = (if ps_endedAt x = None \<and> \<not> is_local x \<and> remote_stale now x then ended_row (final_status x) now x else x)"

lemma remote_closing:
  assumes "tbl_ok ps_id (t_sessions w)" "x \<in> set (rows (t_sessions w))"
  shows "closing (remote_why now) (filter (\<lambda>s. \<not> is_local s) (PublishSessionsRepository_findActive None w)) now x = remote_swept now x"
proof -
  have "find (\<lambda>s. ps_id s = ps_id x) (filter (\<lambda>s. \<not> is_local s) (PublishSessionsRepository_findActive None w)) =
      (if ps_endedAt x = None \<and> \<not> is_local x then Some x else None)"
    by (rule find_unique) (use assms(2) sess.key_inj[OF assms(1)] in \<open>auto simp: findActive_mem\<close>)
  then show ?thesis by (simp add: closing_def remote_why_def remote_swept_def)
qed

text \<open>C26 The sweep closes exactly the ghosts, and it is fail-safe: a session on a media node is closed
  exactly when its last metrics are older than 90 s, or it never sent any and started more than
  120 s ago; when SRS does not answer, or its answer is not one, no local session is touched; when
  it answers, a local session that was open at the start of the sweep is closed exactly when its
  stream is not live or a newer session of that name was open, so the newest session of a live
  stream is never closed; no other session changes, not even one opened while SRS was asked.\<close>

theorem reconcile_exact:
  fixes cal and w :: "'a world_scheme" and during
  assumes "integrity w" "reconcileStaleSessions cal during answer w = (Inr (), w')"
  defines "open_ss \<equiv> PublishSessionsRepository_findActive None w"
  shows "\<exists>w1. rows (t_sessions w1) = map (remote_swept (clock w)) (rows (t_sessions w))
    \<and> (if \<forall>s\<in>set open_ss. \<not> is_local s then t_sessions w' = t_sessions w1
       else case listLiveStreamNames answer of
         None \<Rightarrow> w' = during w1
       | Some names \<Rightarrow> rows (t_sessions w') = map (\<lambda>x.
           case find (\<lambda>s. ps_id s = ps_id x) (filter is_local open_ss) of
             None \<Rightarrow> x
           | Some s \<Rightarrow> if ps_streamName s \<in> set names \<and> newest_local (filter is_local open_ss) s then x
               else ended_row (final_status s) (clock (during w1)) x) (rows (t_sessions (during w1))))"
proof -
  have ok: "tbl_ok ps_id (t_sessions w)" using assms(1) by (simp add: integrity_def ids_ok_def)
  have dist: "distinct (map ps_id (filter P open_ss))" for P
    unfolding open_ss_def by (rule distinct_map_filter[OF findActive_distinct[OF ok]])
  show ?thesis
  proof (cases "open_ss = []")
    case True
    then have "w' = w" using assms(2) by (simp add: reconcileStaleSessions_def open_ss_def[symmetric])
    moreover have "map (remote_swept (clock w)) (rows (t_sessions w)) = rows (t_sessions w)"
    proof (rule map_idI)
      fix x assume "x \<in> set (rows (t_sessions w))"
      then have "ps_endedAt x \<noteq> None" using findActive_mem[of x w] True unfolding open_ss_def by (metis empty_iff list.set(1))
      then show "remote_swept (clock w) x = x" by (auto simp: remote_swept_def)
    qed
    ultimately show ?thesis using True by (intro exI[of _ w]) simp
  next
    case False
    then obtain w1 where w1: "close_each cal (remote_why (clock w)) (filter (\<lambda>s. \<not> is_local s) open_ss) w = (Inr (), w1)"
      "(if filter is_local open_ss = [] then (Inr (), w1) else case listLiveStreamNames answer of
          None \<Rightarrow> (Inr (), during w1)
        | Some names \<Rightarrow> close_each cal (local_why names (newest_by_name (filter is_local open_ss) [])) (filter is_local open_ss) (during w1))
        = (Inr (), w')"
      using assms(2) unfolding reconcileStaleSessions_def Let_def open_ss_def[symmetric] by (simp add: andThen_eq_Inr False) blast
    have "rows (t_sessions w1) = map (remote_swept (clock w)) (rows (t_sessions w))"
      using close_each_effect[OF w1(1) dist] by (simp add: open_ss_def remote_closing[OF ok] cong: map_cong)
    moreover have "rows (t_sessions w') = map (\<lambda>x.
           case find (\<lambda>s. ps_id s = ps_id x) (filter is_local open_ss) of
             None \<Rightarrow> x
           | Some s \<Rightarrow> if ps_streamName s \<in> set names \<and> newest_local (filter is_local open_ss) s then x
               else ended_row (final_status s) (clock (during w1)) x) (rows (t_sessions (during w1)))"
      if "filter is_local open_ss \<noteq> []" "listLiveStreamNames answer = Some names" for names
      using close_each_effect[OF _ dist, of cal "local_why names (newest_by_name (filter is_local open_ss) [])" is_local "during w1" w'] w1(2) that
      by (auto simp: closing_local intro!: map_cong)
    moreover have "filter is_local open_ss = [] \<longleftrightarrow> (\<forall>s\<in>set open_ss. \<not> is_local s)" by (simp add: filter_empty_conv)
    moreover have "t_sessions w' = t_sessions w1" if "filter is_local open_ss = []" using w1(2) that by simp
    moreover have "w' = during w1" if "filter is_local open_ss \<noteq> []" "listLiveStreamNames answer = None" using w1(2) that by simp
    ultimately show ?thesis by (intro exI[of _ w1]) (simp split: option.split)
  qed
qed


text \<open>Closing a local ghost takes the recording handle of its stream name, whoever records: when an
  older session of a live name is swept, the recording of the live one stops with it.\<close>

lemma sweep_takes_recording:
  fixes w :: "'a world_scheme"
  shows "closeGhost cal s reason w = (Inr (), w') \<Longrightarrow> is_local s \<Longrightarrow> map_get (ps_streamName s) (rec_handles w') = None"
  by (rule closeGhost_effect(3))

text \<open>Two local sessions of ann, of which one is stale, a session of bob that SRS no longer lists, and
  one on a node that went silent.\<close>

definition morning :: world where
  "morning = world_start\<lparr>clock := 500000, t_events := \<lparr>rows = [demo_event], seq = 2\<rparr>,
     t_sessions := \<lparr>rows = [(session_values ''ann'')\<lparr>ps_id := 1, ps_eventId := Some 1\<rparr>, (session_values ''ann'')\<lparr>ps_id := 2, ps_eventId := Some 1\<rparr>,
       (session_values ''bob'')\<lparr>ps_id := 3, ps_compliant := True\<rparr>,
       (session_values ''eve'')\<lparr>ps_id := 4, ps_nodeId := Some ''a'', ps_lastMetricAt := Some 400000\<rparr>], seq = 5\<rparr>\<rparr>"

lemma morning_integrity: "integrity morning"
  by (simp add: morning_def schema_decls event_ban_keys_def tbl_ok_def has_def has_opt_def
      tbl_empty_def demo_event_def event_values_def session_values_def world_start_def demo_core_def core.defs db.defs db_empty_def)

definition ann_live :: fetch_result where
  "ann_live = Body (Some (JObj [(''streams'', JArr [JObj [(''name'', JStr (encodeURIComponent ''ann''))]])]))"

theorem reconcile_exact_witness:
  "\<exists>w'. reconcileStaleSessions (\<lambda>t. ([], [])) id ann_live morning = (Inr (), w')
     \<and> map (\<lambda>r. (ps_id r, ps_endedAt r = None)) (rows (t_sessions w')) = [(1, False), (2, True), (3, False), (4, False)]"
proof -
  let ?r = "reconcileStaleSessions (\<lambda>t. ([], [])) id ann_live morning"
  have "fst ?r = Inr ()" by code_simp
  then obtain w' where r: "?r = (Inr (), w')" by (metis prod.collapse)
  have names: "listLiveStreamNames ann_live = Some [''ann'']"
    using live_names_listed[of "[''ann'']"] by (simp add: ann_live_def json_get_def utf8_ok_def)
  have open_ss: "PublishSessionsRepository_findActive None morning = rows (t_sessions morning)" by code_simp
  have rows: "rows (t_sessions morning) = [(session_values ''ann'')\<lparr>ps_id := 1, ps_eventId := Some 1\<rparr>,
      (session_values ''ann'')\<lparr>ps_id := 2, ps_eventId := Some 1\<rparr>, (session_values ''bob'')\<lparr>ps_id := 3, ps_compliant := True\<rparr>,
      (session_values ''eve'')\<lparr>ps_id := 4, ps_nodeId := Some ''a'', ps_lastMetricAt := Some 400000\<rparr>]" "clock morning = 500000"
    by (simp_all add: morning_def)
  from reconcile_exact[OF morning_integrity r, unfolded open_ss names option.case]
  obtain w1 :: world where w1: "rows (t_sessions w1) = map (remote_swept (clock morning)) (rows (t_sessions morning))"
    "if \<forall>s\<in>set (rows (t_sessions morning)). \<not> is_local s then t_sessions w' = t_sessions w1
     else rows (t_sessions w') = map (\<lambda>x. case find (\<lambda>s. ps_id s = ps_id x) (filter is_local (rows (t_sessions morning))) of
           None \<Rightarrow> x
         | Some s \<Rightarrow> if ps_streamName s \<in> set [''ann''] \<and> newest_local (filter is_local (rows (t_sessions morning))) s then x
             else ended_row (final_status s) (clock (id w1)) x) (rows (t_sessions (id w1)))" by blast
  have rows1: "rows (t_sessions w1) = [(session_values ''ann'')\<lparr>ps_id := 1, ps_eventId := Some 1\<rparr>,
      (session_values ''ann'')\<lparr>ps_id := 2, ps_eventId := Some 1\<rparr>, (session_values ''bob'')\<lparr>ps_id := 3, ps_compliant := True\<rparr>,
      ended_row SEnded 500000 ((session_values ''eve'')\<lparr>ps_id := 4, ps_nodeId := Some ''a'', ps_lastMetricAt := Some 400000\<rparr>)]"
    by (simp add: w1(1) rows remote_swept_def is_local_def session_values_def remote_stale_def REMOTE_STALE_MS_def final_status_def)
  have "\<not> (\<forall>s\<in>set (rows (t_sessions morning)). \<not> is_local s)" by (simp add: rows is_local_def session_values_def)
  with w1(2) have rows': "rows (t_sessions w') = map (\<lambda>x. case find (\<lambda>s. ps_id s = ps_id x) (filter is_local (rows (t_sessions morning))) of
           None \<Rightarrow> x
         | Some s \<Rightarrow> if ps_streamName s \<in> set [''ann''] \<and> newest_local (filter is_local (rows (t_sessions morning))) s then x
             else ended_row (final_status s) (clock (id w1)) x) (rows (t_sessions (id w1)))" by (simp only: if_False)
  have "map (\<lambda>r. (ps_id r, ps_endedAt r = None)) (rows (t_sessions w')) = [(1, False), (2, True), (3, False), (4, False)]"
    unfolding rows' id_apply rows1 rows by (simp add: is_local_def session_values_def ended_row_def newest_local_def)
  with r show ?thesis by (intro exI[of _ w'] conjI)
qed

end
