(* ===== verification/Lifecycle.thy ===== *)
theory Lifecycle
  imports NodeWsRun
begin

text \<open>
  What happens to events and their streams as time passes and as an admin watches:
  services/event-lifecycle.ts (the ticker that opens and closes events), services/streams.ts,
  and the endpoints api/streams (list, ban and disconnect) and api/events/[id]/stats.
\<close>

section \<open>The ticker\<close>

record life_result =
  lr_started :: int
  lr_ended :: int
  lr_killed :: int

definition cut_reason :: "event_row \<Rightarrow> string" where
  "cut_reason e = ''event ended (window closed): '' @ ev_name e"

definition kick_session :: "publish_session_row \<Rightarrow> string \<Rightarrow> ws_server \<Rightarrow> bool \<times> ws_server" where
  "kick_session r reason s =
     (case ps_nodeId r of
        None \<Rightarrow> (False, s)
      | Some n \<Rightarrow> if n = [] then (False, s) else kickStream n (ps_streamName r) reason s)"

definition cut_session :: "event_row \<Rightarrow> publish_session_row \<Rightarrow> ws_server \<Rightarrow> ws_server" where
  "cut_session e r s =
     (let (dead, s1) = kick_session r (cut_reason e) s;
          s2 = (if dead then s1 else PublishSessionsRepository_markEnded (ps_id r) SEnded (clock s1) s1)
      in audit LWarn CPublish (''stream cut at event end: '' @ ps_streamName r)
           \<lparr>ai_actor = Some (ps_streamName r), ai_eventId = Some (ev_id e), ai_streamName = Some (ps_streamName r),
            ai_detail = Some (JObj [(''sessionId'', json_int (ps_id r)), (''reason'', JStr (cut_reason e)),
              (''nodeKick'', JBool dead)])\<rparr> s2)"

definition cutEventStreams :: "event_row \<Rightarrow> ws_server \<Rightarrow> int \<times> ws_server" where
  "cutEventStreams e s =
     (let ss = PublishSessionsRepository_findActiveByEvent (ev_id e) s
      in (int (length ss), fold (cut_session e) ss s))"

definition opens_now :: "int \<Rightarrow> event_row \<Rightarrow> bool" where
  "opens_now now e \<longleftrightarrow> ev_status e = Scheduled \<and> (case ev_startsAt e of None \<Rightarrow> False | Some t \<Rightarrow> t \<le> now)"

definition closes_now :: "int \<Rightarrow> event_row \<Rightarrow> bool" where
  "closes_now now e \<longleftrightarrow> \<not> opens_now now e \<and> (ev_status e = Live \<or> ev_status e = Scheduled)
     \<and> (case ev_endsAt e of None \<Rightarrow> False | Some t \<Rightarrow> t \<le> now)"

definition life_event :: "int \<Rightarrow> event_row \<Rightarrow> life_result \<Rightarrow> ws_server \<Rightarrow> (life_result, ws_server) outcome" where
  "life_event now e out s =
     (if opens_now now e then
        andThen (EventsRepository_update (ev_id e) (\<lambda>x. x\<lparr>ev_status := Live\<rparr>) s) (\<lambda>_ s1.
          (Inr (out\<lparr>lr_started := lr_started out + 1\<rparr>),
           audit LInfo CSystem (''event auto-started (window opened): '' @ ev_name e)
             (no_opts\<lparr>ai_eventId := Some (ev_id e),
                ai_detail := Some (JObj [(''startsAt'', json_opt json_int (ev_startsAt e))])\<rparr>) s1))
      else if closes_now now e then
        (let (n, s1) = cutEventStreams e s in
         andThen (EventsRepository_update (ev_id e) (\<lambda>x. x\<lparr>ev_status := Ended\<rparr>) s1) (\<lambda>_ s2.
           (Inr (out\<lparr>lr_killed := lr_killed out + n, lr_ended := lr_ended out + 1\<rparr>),
            audit LWarn CSystem (''event auto-ended (window closed), streams cut: '' @ ev_name e)
              (no_opts\<lparr>ai_eventId := Some (ev_id e),
                 ai_detail := Some (JObj [(''endsAt'', json_opt json_int (ev_endsAt e))])\<rparr>) s2)))
      else (Inr out, s))"

fun life_loop :: "int \<Rightarrow> event_row list \<Rightarrow> life_result \<Rightarrow> ws_server \<Rightarrow> (life_result, ws_server) outcome" where
  "life_loop now [] out s = (Inr out, s)"
| "life_loop now (e # es) out s = andThen (life_event now e out s) (\<lambda>out1 s1. life_loop now es out1 s1)"

definition runEventLifecycle :: "ws_server \<Rightarrow> (life_result, ws_server) outcome" where
  "runEventLifecycle s =
     life_loop (clock s) (EventsRepository_findAll s) \<lparr>lr_started = 0, lr_ended = 0, lr_killed = 0\<rparr> s"

text \<open>The plugin logs what a tick throws and goes on.\<close>

definition lifecycle_tick :: "ws_server \<Rightarrow> ws_server" where
  "lifecycle_tick s = snd (runEventLifecycle s)"


section \<open>The live panel\<close>

definition active_view :: "publish_session_row \<Rightarrow> session_snapshot" where
  "active_view r = \<lparr>ss_sessionId = ps_id r, ss_eventId = ps_eventId r, ss_streamName = ps_streamName r,
     ss_status = ps_status r, ss_srsClientId = ps_srsClientId r, ss_nodeId = ps_nodeId r, ss_width = ps_width r,
     ss_height = ps_height r, ss_fps = ps_fps r, ss_videoBitrateKbps = ps_videoBitrateKbps r,
     ss_audioBitrateKbps = ps_audioBitrateKbps r, ss_compliant = ps_compliant r, ss_rejectReason = ps_rejectReason r,
     ss_startedAt = ps_startedAt r, ss_endedAt = None\<rparr>"

definition listActiveSessions :: "int option \<Rightarrow> 'z db_scheme \<Rightarrow> session_snapshot list" where
  "listActiveSessions ev d = map active_view (PublishSessionsRepository_findActive ev d)"

text \<open>GET /api/streams; the query value is what Number made of it, None for one that is not an
  integer or not there.\<close>

definition streams_index :: "auth_context option \<Rightarrow> int option \<Rightarrow> 'z db_scheme \<Rightarrow> error + session_snapshot list" where
  "streams_index auth ev d = (case requireAdmin auth of Inl e \<Rightarrow> Inl e | Inr _ \<Rightarrow> Inr (listActiveSessions ev d))"

text \<open>DELETE /api/streams/clients/:clientId bans the publisher and cuts the stream.  killed is the
  answer of the SRS API to killClient.\<close>

record kick_result =
  kr_disconnected :: bool
  kr_ban :: stream_ban_row

definition live_session :: "string \<Rightarrow> string \<Rightarrow> 'z db_scheme \<Rightarrow> publish_session_row option" where
  "live_session email clientId d = orElse (PublishSessionsRepository_findActiveByStream email d)
     (PublishSessionsRepository_findActiveByClientId clientId d)"

definition clients_delete ::
  "auth_context option \<Rightarrow> string \<Rightarrow> string \<Rightarrow> string \<Rightarrow> bool \<Rightarrow> ws_server \<Rightarrow> (kick_result, ws_server) outcome" where
  "clients_delete auth clientId email0 reason0 killed s =
     (case requireAdmin auth of
        Inl e \<Rightarrow> (Inl e, s)
      | Inr a \<Rightarrow>
          let email = ban_email email0; reason = js_trim reason0;
              why = (if reason = [] then None else Some reason) in
          if clientId = [] then (Inl (HttpError 400 ''clientId is required''), s)
          else if email = [] then (Inl (HttpError 400 ''email is required to ban''), s)
          else andThen (ban \<lparr>bi_email = email, bi_eventId = None, bi_reason = Some (orDefault why ''banned from live monitoring''),
                 bi_bannedBy = Some (''user#'' @ int_str (ax_userId a))\<rparr> s) (\<lambda>row s1.
            let (disconnected, s2) = (case live_session email clientId s1 of
                  Some r \<Rightarrow> (case ps_nodeId r of
                      Some n \<Rightarrow> if n \<noteq> [] then kickStream n (ps_streamName r) (orDefault why ''banned'') s1
                                else (killed, s1)
                    | None \<Rightarrow> (killed, s1))
                | None \<Rightarrow> (killed, s1))
            in (Inr \<lparr>kr_disconnected = disconnected, kr_ban = row\<rparr>,
                audit (if disconnected then LWarn else LError) CPublish
                  (''admin banned+disconnected '' @ email @ '' ('' @ (if disconnected then ''ok'' else ''disconnect failed'') @ '')'')
                  \<lparr>ai_actor = Some email, ai_eventId = None, ai_streamName = Some email,
                   ai_detail = Some (JObj [(''email'', JStr email), (''clientId'', JStr clientId), (''banId'', json_int (sb_id row))])\<rparr> s2)))"


section \<open>Insights\<close>

record recent_session =
  re_id :: int
  re_streamName :: string
  re_status :: session_status
  re_compliant :: bool
  re_width :: "int option"
  re_height :: "int option"
  re_fps :: "rat option"
  re_videoBitrateKbps :: "int option"
  re_startedAt :: int
  re_endedAt :: "int option"

record event_stats =
  es_sessions :: int
  es_live :: int
  es_uniqueUsers :: int
  es_streamHours :: rat
  es_violations :: int
  es_rejected :: int
  es_complianceRate :: "rat option"
  es_recordings :: int
  es_totalBytes :: int
  es_totalDurationSec :: int
  es_recent :: "recent_session list"

definition stream_ms :: "int \<Rightarrow> publish_session_row list \<Rightarrow> int" where
  "stream_ms now ss = sum_list (map (\<lambda>r. max 0 (orDefault (ps_endedAt r) now - ps_startedAt r)) ss)"

definition recent_of :: "publish_session_row \<Rightarrow> recent_session" where
  "recent_of r = \<lparr>re_id = ps_id r, re_streamName = ps_streamName r, re_status = ps_status r, re_compliant = ps_compliant r,
     re_width = ps_width r, re_height = ps_height r, re_fps = ps_fps r, re_videoBitrateKbps = ps_videoBitrateKbps r,
     re_startedAt = ps_startedAt r, re_endedAt = ps_endedAt r\<rparr>"

text \<open>Quotients are exact here.\<close>

definition event_stats_of :: "int \<Rightarrow> 'z db_scheme \<Rightarrow> event_stats" where
  "event_stats_of i d =
     (let ss = PublishSessionsRepository_findAllByEvent i d; rs = RecordingsRepository_findByEvent i d in
      \<lparr>es_sessions = int (length ss), es_live = int (length (filter (\<lambda>r. ps_endedAt r = None) ss)),
       es_uniqueUsers = int (length (remdups (map ps_streamName ss))),
       es_streamHours = of_int (js_round (of_int (stream_ms (clock d) ss) / 3600000 * 10)) / 10,
       es_violations = int (length (filter (\<lambda>r. ps_status r = SViolating \<or> ps_status r = SKilled) ss)),
       es_rejected = int (length (filter (\<lambda>r. ps_status r = SRejected) ss)),
       es_complianceRate = (if ss = [] then None
         else Some (of_int (js_round (of_nat (length (filter ps_compliant ss)) / of_nat (length ss) * 1000)) / 10)),
       es_recordings = int (length rs), es_totalBytes = sum_list (map rc_sizeBytes rs),
       es_totalDurationSec = js_round (sum_list (map (\<lambda>r. orDefault (rc_durationSec r) 0) rs)),
       es_recent = map recent_of (take 10 ss)\<rparr>)"

definition stats_get :: "auth_context option \<Rightarrow> int \<Rightarrow> 'z db_scheme \<Rightarrow> error + event_stats" where
  "stats_get auth i d = (case requireAdmin auth of
     Inl e \<Rightarrow> Inl e
   | Inr _ \<Rightarrow> if i \<le> 0 then Inl (HttpError 400 ''invalid event id'') else Inr (event_stats_of i d))"


section \<open>What a tick does\<close>

definition life_status :: "int \<Rightarrow> event_row \<Rightarrow> event_status" where
  "life_status now e = (if opens_now now e then Live else if closes_now now e then Ended else ev_status e)"

definition life_row :: "int \<Rightarrow> event_row \<Rightarrow> event_row" where
  "life_row now e = e\<lparr>ev_status := life_status now e\<rparr>"

definition reachable :: "ws_server \<Rightarrow> publish_session_row \<Rightarrow> bool" where
  "reachable s r \<longleftrightarrow> (case ps_nodeId r of None \<Rightarrow> False | Some n \<Rightarrow> n \<noteq> [] \<and> wsConnected n s)"

text \<open>A session that is cut: told to its node, or closed here.\<close>

definition closed_row :: "int \<Rightarrow> publish_session_row \<Rightarrow> publish_session_row" where
  "closed_row now r = r\<lparr>ps_endedAt := Some (db_ts now), ps_status := SEnded\<rparr>"

definition is_cut :: "event_row \<Rightarrow> publish_session_row \<Rightarrow> bool" where
  "is_cut e r \<longleftrightarrow> ps_eventId r = Some (ev_id e) \<and> ps_endedAt r = None"

definition told :: "event_row \<Rightarrow> publish_session_row \<Rightarrow> ws_server \<Rightarrow> (string \<times> out_frame) list" where
  "told e r s = (case ps_nodeId r of None \<Rightarrow> []
     | Some n \<Rightarrow> if n = [] then [] else (case map_get n (ws_byNode s) of None \<Rightarrow> []
         | Some p \<Rightarrow> [(p, OKickStream (ps_streamName r) (cut_reason e))]))"

text \<open>What one event or a whole tick does to the tables and to the frames sent; everything the
  statements below read.\<close>

definition life_effect :: "ws_server \<Rightarrow> event_row list \<Rightarrow> ws_server \<Rightarrow> bool" where
  "life_effect s es s' \<longleftrightarrow> clock s' = clock s \<and> ws_byNode s' = ws_byNode s
     \<and> rows (t_events s') = map (\<lambda>x. if ev_id x \<in> ev_id ` set es then life_row (clock s) x else x) (rows (t_events s))
     \<and> rows (t_sessions s') = map (\<lambda>r. if (\<exists>e\<in>set es. closes_now (clock s) e \<and> is_cut e r) \<and> \<not> reachable s r
           then closed_row (clock s) r else r) (rows (t_sessions s))
     \<and> ws_sent s' = ws_sent s @ concat (map (\<lambda>e. if closes_now (clock s) e
           then concat (map (\<lambda>r. told e r s) (filter (is_cut e) (rows (t_sessions s)))) else []) es)"

lemma audit_ws [simp]:
  "ws_byNode (audit l c m v s) = ws_byNode s" "ws_sent (audit l c m v s) = ws_sent s"
  by (simp_all add: audit_def emit_def AuditLogRepository_insert_def Let_def case_prod_unfold)

lemma ended_ws [simp]:
  "ws_byNode (PublishSessionsRepository_markEnded i st t s) = ws_byNode s" "ws_sent (PublishSessionsRepository_markEnded i st t s) = ws_sent s"
  "clock (PublishSessionsRepository_markEnded i st t s) = clock s" "t_events (PublishSessionsRepository_markEnded i st t s) = t_events s"
  "rows (t_sessions (PublishSessionsRepository_markEnded i st t s)) =
     map (\<lambda>r. if ps_id r = i then r\<lparr>ps_endedAt := Some (db_ts t), ps_status := st\<rparr> else r) (rows (t_sessions s))"
  by (simp_all add: PublishSessionsRepository_markEnded_def sessions_set_def tbl_update_def)

lemma kick_session_cases:
  "kick_session r why s = (reachable s r, s\<lparr>ws_sent := ws_sent s @ (case ps_nodeId r of None \<Rightarrow> []
     | Some n \<Rightarrow> if n = [] then [] else (case map_get n (ws_byNode s) of None \<Rightarrow> [] | Some p \<Rightarrow> [(p, OKickStream (ps_streamName r) why)]))\<rparr>)"
  by (auto simp: kick_session_def kickStream_def wsSendKind_def reachable_def wsConnected_def enqueue_def split: option.split)

lemma cut_session_effect:
  fixes s :: ws_server and e r
  defines "s' \<equiv> cut_session e r s"
  shows "clock s' = clock s" "ws_byNode s' = ws_byNode s" "t_events s' = t_events s"
    "rows (t_sessions s') = map (\<lambda>x. if ps_id x = ps_id r \<and> \<not> reachable s r then closed_row (clock s) x else x) (rows (t_sessions s))"
    "ws_sent s' = ws_sent s @ told e r s"
  by (simp_all add: s'_def cut_session_def kick_session_cases Let_def closed_row_def told_def cong: if_cong)

lemma reachable_byNode: "ws_byNode s' = ws_byNode s \<Longrightarrow> reachable s' r = reachable s r" "ws_byNode s' = ws_byNode s \<Longrightarrow> told e r s' = told e r s"
  by (simp_all add: reachable_def wsConnected_def told_def split: option.split)

lemma cut_fold:
  fixes s :: ws_server and e
  defines "f \<equiv> (\<lambda>rs s. fold (cut_session e) rs s)"
  shows "clock (f rs s) = clock s \<and> ws_byNode (f rs s) = ws_byNode s \<and> t_events (f rs s) = t_events s
    \<and> rows (t_sessions (f rs s)) = map (\<lambda>x. if \<exists>r\<in>set rs. ps_id x = ps_id r \<and> \<not> reachable s r
         then closed_row (clock s) x else x) (rows (t_sessions s))
    \<and> ws_sent (f rs s) = ws_sent s @ concat (map (\<lambda>r. told e r s) rs)"
proof (induction rs arbitrary: s)
  case (Cons r rs)
  let ?s = "cut_session e r s"
  note c = cut_session_effect[of e r s]
  have "closed_row t (closed_row t x) = closed_row t x" "ps_id (closed_row t x) = ps_id x" for t x
    by (simp_all add: closed_row_def)
  with Cons[of ?s] show ?case
    by (auto simp: f_def c reachable_byNode[OF c(2)] reachable_byNode(2)[OF c(2), abs_def])
qed (simp add: f_def)

lemma cutEventStreams_effect:
  fixes s :: ws_server
  assumes "tbl_ok ps_id (t_sessions s)"
  shows "clock (snd (cutEventStreams e s)) = clock s \<and> ws_byNode (snd (cutEventStreams e s)) = ws_byNode s
    \<and> t_events (snd (cutEventStreams e s)) = t_events s
    \<and> rows (t_sessions (snd (cutEventStreams e s))) = map (\<lambda>x. if is_cut e x \<and> \<not> reachable s x
         then closed_row (clock s) x else x) (rows (t_sessions s))
    \<and> ws_sent (snd (cutEventStreams e s)) = ws_sent s @ concat (map (\<lambda>r. told e r s) (filter (is_cut e) (rows (t_sessions s))))"
proof -
  have ss: "PublishSessionsRepository_findActiveByEvent (ev_id e) s = filter (is_cut e) (rows (t_sessions s))"
    by (simp add: PublishSessionsRepository_findActiveByEvent_def tbl_select_def is_cut_def cong: filter_cong)
  have "(\<exists>r\<in>set (filter (is_cut e) (rows (t_sessions s))). ps_id x = ps_id r \<and> \<not> reachable s r) \<longleftrightarrow> is_cut e x \<and> \<not> reachable s x"
    if "x \<in> set (rows (t_sessions s))" for x
    using sess.key_inj[OF assms that] that by auto
  then show ?thesis
    using cut_fold[of e "filter (is_cut e) (rows (t_sessions s))" s]
    by (simp add: cutEventStreams_def Let_def ss cong: map_cong)
qed

lemma EventsRepository_update_status:
  fixes s :: ws_server
  assumes "tbl_ok ev_id (t_events s)" "distinct (map ev_slug (rows (t_events s)))" "e \<in> set (rows (t_events s))" "event_norm e = e"
  shows "\<exists>s'. EventsRepository_update (ev_id e) (\<lambda>x. x\<lparr>ev_status := st\<rparr>) s = (Inr (), s') \<and> clock s' = clock s
    \<and> ws_byNode s' = ws_byNode s \<and> ws_sent s' = ws_sent s \<and> t_sessions s' = t_sessions s
    \<and> rows (t_events s') = map (\<lambda>x. if ev_id x = ev_id e then x\<lparr>ev_status := st\<rparr> else x) (rows (t_events s))"
proof -
  have find: "EventsRepository_findById (ev_id e) s = Some e"
    using evts.find_key[OF assms(1,3)] by (simp add: EventsRepository_findById_def)
  have "tbl_find (\<lambda>x. ev_slug x = ev_slug e \<and> ev_id x \<noteq> ev_id e) (t_events s) = None"
    using assms(2,3) by (auto simp: tbl_find_None distinct_map inj_on_def)
  moreover have "put_event (event_norm (x\<lparr>ev_status := st\<rparr>)) (ev_id x) = x\<lparr>ev_status := st\<rparr>" if "event_norm x = x" for x
  proof -
    have "event_norm (x\<lparr>ev_status := st\<rparr>) = (event_norm x)\<lparr>ev_status := st\<rparr>" by (simp add: event_norm_def)
    with that show ?thesis by (simp add: put_event_def)
  qed
  moreover have "x = e" if "x \<in> set (rows (t_events s))" "ev_id x = ev_id e" for x
    using evts.key_inj[OF assms(1) that(1) assms(3) that(2)] .
  ultimately show ?thesis
    using find assms(4) by (auto simp: EventsRepository_update_def tbl_update_def intro!: map_cong)
qed

lemma life_event_effect:
  assumes "tbl_ok ev_id (t_events s)" "tbl_ok ps_id (t_sessions s)" "distinct (map ev_slug (rows (t_events s)))"
    and "e \<in> set (rows (t_events s))" "event_norm e = e"
  shows "\<exists>out' s'. life_event (clock s) e out s = (Inr out', s') \<and> life_effect s [e] s'"
proof -
  have only: "x = e" if "x \<in> set (rows (t_events s))" "ev_id x = ev_id e" for x
    using evts.key_inj[OF assms(1) that(1) assms(4) that(2)] .
  consider (open_up) "opens_now (clock s) e" | (close) "closes_now (clock s) e" "\<not> opens_now (clock s) e"
    | (rest) "\<not> opens_now (clock s) e" "\<not> closes_now (clock s) e" by blast
  then show ?thesis
  proof cases
    case open_up
    then have "life_row (clock s) x = x\<lparr>ev_status := Live\<rparr>" if "x \<in> set (rows (t_events s))" "ev_id x = ev_id e" for x
      using only[OF that] by (simp add: life_row_def life_status_def)
    moreover have "\<not> closes_now (clock s) e" using open_up by (simp add: closes_now_def)
    ultimately show ?thesis using EventsRepository_update_status[OF assms(1,3,4,5), of Live] open_up
      by (auto simp: life_event_def life_effect_def intro!: map_cong)
  next
    case close
    obtain n s1 where c: "cutEventStreams e s = (n, s1)" by fastforce
    from cutEventStreams_effect[OF assms(2), of e] c
    have s1: "clock s1 = clock s" "ws_byNode s1 = ws_byNode s" "t_events s1 = t_events s"
      "rows (t_sessions s1) = map (\<lambda>x. if is_cut e x \<and> \<not> reachable s x then closed_row (clock s) x else x) (rows (t_sessions s))"
      "ws_sent s1 = ws_sent s @ concat (map (\<lambda>r. told e r s) (filter (is_cut e) (rows (t_sessions s))))"
      by simp_all
    have "life_row (clock s) x = x\<lparr>ev_status := Ended\<rparr>" if "x \<in> set (rows (t_events s))" "ev_id x = ev_id e" for x
      using only[OF that] close by (simp add: life_row_def life_status_def)
    with close EventsRepository_update_status[of s1 e Ended] assms show ?thesis
      by (auto simp: life_event_def life_effect_def c s1 intro!: map_cong)
  next
    case rest
    then have "life_row (clock s) x = x" if "x \<in> set (rows (t_events s))" "ev_id x = ev_id e" for x
      using only[OF that] by (simp add: life_row_def life_status_def)
    with rest show ?thesis by (auto simp: life_event_def life_effect_def intro!: map_idI[symmetric])
  qed
qed

lemma filter_map_same: "(\<And>x. x \<in> set xs \<Longrightarrow> f x \<noteq> x \<Longrightarrow> \<not> P x \<and> \<not> P (f x)) \<Longrightarrow> filter P (map f xs) = filter P xs"
  by (induction xs) (force, simp, metis)

lemma life_row_simps [simp]: "ev_id (life_row t x) = ev_id x" "ev_slug (life_row t x) = ev_slug x"
  by (simp_all add: life_row_def)

lemma life_effect_step:
  assumes one: "life_effect s [e] s1" and rest: "life_effect s1 es s2"
    and "ev_id e \<notin> ev_id ` set es"
  shows "life_effect s (e # es) s2"
proof -
  let ?t = "clock s"
  let ?cut = "\<lambda>r. if closes_now ?t e \<and> is_cut e r \<and> \<not> reachable s r then closed_row ?t r else r"
  have s1: "clock s1 = ?t" "ws_byNode s1 = ws_byNode s"
    "rows (t_events s1) = map (\<lambda>x. if ev_id x = ev_id e then life_row ?t x else x) (rows (t_events s))"
    "rows (t_sessions s1) = map ?cut (rows (t_sessions s))"
    "ws_sent s1 = ws_sent s @ (if closes_now ?t e then concat (map (\<lambda>r. told e r s) (filter (is_cut e) (rows (t_sessions s)))) else [])"
    using one by (simp_all add: life_effect_def cong: if_cong)
  have r: "reachable s1 = reachable s" "told e' r s1 = told e' r s" for e' r
    using reachable_byNode[OF s1(2)] by (simp_all add: fun_eq_iff)
  have cut: "is_cut e' (?cut x) = is_cut e' x" if "e' \<in> set es" for e' x
    using assms(3) that by (auto simp: is_cut_def closed_row_def)
  have sel: "filter (is_cut e') (rows (t_sessions s1)) = filter (is_cut e') (rows (t_sessions s))" if "e' \<in> set es" for e'
    unfolding s1(4) using assms(3) that by (intro filter_map_same) (auto simp: is_cut_def closed_row_def split: if_splits)
  have reach: "reachable s (?cut x) = reachable s x" for x by (simp add: reachable_def closed_row_def)
  have ends: "closed_row ?t (closed_row ?t x) = closed_row ?t x" for x by (simp add: closed_row_def)
  have sent: "concat (map (\<lambda>r. told e' r s1) (filter (is_cut e') (rows (t_sessions s1))))
      = concat (map (\<lambda>r. told e' r s) (filter (is_cut e') (rows (t_sessions s))))" if "e' \<in> set es" for e'
    by (simp add: sel[OF that] r)
  have "rows (t_events s2) = map (\<lambda>x. if ev_id x \<in> ev_id ` set (e # es) then life_row ?t x else x) (rows (t_events s))"
    using rest assms(3) by (auto simp: life_effect_def s1(1,3))
  moreover have "rows (t_sessions s2) = map (\<lambda>r. if (\<exists>e\<in>set (e # es). closes_now ?t e \<and> is_cut e r) \<and> \<not> reachable s r
      then closed_row ?t r else r) (rows (t_sessions s))"
  proof -
    have "rows (t_sessions s2) = map (\<lambda>r. if (\<exists>e'\<in>set es. closes_now ?t e' \<and> is_cut e' r) \<and> \<not> reachable s r
        then closed_row ?t r else r) (map ?cut (rows (t_sessions s)))"
      using rest unfolding life_effect_def s1(1) r s1(4) by blast
    also have "\<dots> = map (\<lambda>x. if (\<exists>e'\<in>set es. closes_now ?t e' \<and> is_cut e' (?cut x)) \<and> \<not> reachable s (?cut x)
        then closed_row ?t (?cut x) else ?cut x) (rows (t_sessions s))"
      by (simp only: map_map comp_def)
    also have "\<dots> = map (\<lambda>r. if (\<exists>e\<in>set (e # es). closes_now ?t e \<and> is_cut e r) \<and> \<not> reachable s r
        then closed_row ?t r else r) (rows (t_sessions s))"
      by (intro map_cong refl) (simp only: reach cut cong: bex_cong, auto simp: ends)
    finally show ?thesis .
  qed
  moreover have "ws_sent s2 = ws_sent s @ concat (map (\<lambda>e. if closes_now ?t e
      then concat (map (\<lambda>r. told e r s) (filter (is_cut e) (rows (t_sessions s)))) else []) (e # es))"
  proof -
    have "map (\<lambda>x. if closes_now ?t x then concat (map (\<lambda>r. told x r s1) (filter (is_cut x) (rows (t_sessions s1)))) else []) es
        = map (\<lambda>x. if closes_now ?t x then concat (map (\<lambda>r. told x r s) (filter (is_cut x) (rows (t_sessions s)))) else []) es"
      by (rule map_cong[OF refl]) (simp only: sent)
    with rest show ?thesis by (simp add: life_effect_def s1(1,5))
  qed
  ultimately show ?thesis using rest by (simp add: life_effect_def s1(1,2))
qed

lemma ws_sent_integrity [simp]: "integrity (s\<lparr>ws_sent := l\<rparr>) = integrity s"
  by (simp add: schema_decls)

lemma cut_fold_integrity: "integrity s \<Longrightarrow> integrity (fold (cut_session e) rs s)"
proof (induction rs arbitrary: s)
  case (Cons r rs)
  have "integrity (cut_session e r s)"
    using Cons.prems by (auto simp: cut_session_def kick_session_cases Let_def intro!: audit_integrity PublishSessionsRepository_integrity(4))
  with Cons.IH show ?case by simp
qed simp

lemma life_event_integrity: "integrity s \<Longrightarrow> integrity (snd (life_event now e out s))"
  by (auto simp: life_event_def cutEventStreams_def Let_def intro!: andThen_state[where P = integrity] audit_integrity
      EventsRepository_update_integrity cut_fold_integrity)

lemma integrityD:
  assumes "integrity s"
  shows "tbl_ok ev_id (t_events s)" "tbl_ok ps_id (t_sessions s)" "distinct (map ev_slug (rows (t_events s)))"
  using assms by (simp_all add: schema_decls)

lemma life_loop_effect:
  assumes "integrity s" "set es \<subseteq> set (rows (t_events s))" "distinct (map ev_id es)" "list_all (\<lambda>e. event_norm e = e) es"
  shows "\<exists>out' s'. life_loop (clock s) es out s = (Inr out', s') \<and> life_effect s es s' \<and> integrity s'"
  using assms
proof (induction es arbitrary: s out)
  case Nil
  then show ?case by (simp add: life_effect_def)
next
  case (Cons e es)
  note i = integrityD[OF Cons.prems(1)]
  from life_event_effect[OF i, of e out] Cons.prems obtain out1 s1 where
    one: "life_event (clock s) e out s = (Inr out1, s1)" "life_effect s [e] s1" by auto
  have s1: "clock s1 = clock s" "rows (t_events s1) = map (\<lambda>x. if ev_id x = ev_id e then life_row (clock s) x else x) (rows (t_events s))"
    using one(2) by (simp_all add: life_effect_def)
  have fresh: "ev_id e \<notin> ev_id ` set es" using Cons.prems(3) by auto
  have "integrity s1" using life_event_integrity[OF Cons.prems(1), of "clock s" e out] one(1) by simp
  moreover have "set es \<subseteq> set (rows (t_events s1))"
  proof
    fix x assume "x \<in> set es"
    with Cons.prems(2) have "x \<in> set (rows (t_events s))" by auto
    moreover have "ev_id x \<noteq> ev_id e" using fresh \<open>x \<in> set es\<close> by (metis image_eqI)
    ultimately
    show "x \<in> set (rows (t_events s1))" by (auto simp: s1(2) intro: rev_image_eqI)
  qed
  ultimately obtain out2 s2 where
    rest: "life_loop (clock s1) es out1 s1 = (Inr out2, s2)" "life_effect s1 es s2" "integrity s2"
    using Cons.IH[of s1 out1] Cons.prems(3,4) by auto
  with one s1(1) life_effect_step[OF one(2) rest(2) fresh] show ?case by simp
qed

text \<open>C23 The event ticker: a tick never fails, it opens exactly the scheduled events whose start has
  come and ends exactly those live or scheduled events whose end has passed (one that it opens in
  this tick excepted), changes nothing else of any event, and cuts every open session of an event
  it ends: the sessions whose node is connected get one kick frame each, sent to the connection
  of their node, and every other one is closed on the spot; no other session is touched and no
  other frame is sent.\<close>

theorem lifecycle_tick_effect:
  assumes "integrity s" "list_all (\<lambda>e. event_norm e = e) (rows (t_events s))"
  shows "\<exists>res s'. runEventLifecycle s = (Inr res, s') \<and> integrity s'
    \<and> rows (t_events s') = map (life_row (clock s)) (rows (t_events s))
    \<and> rows (t_sessions s') = map (\<lambda>r. if (\<exists>e\<in>set (rows (t_events s)). closes_now (clock s) e \<and> is_cut e r) \<and> \<not> reachable s r
           then closed_row (clock s) r else r) (rows (t_sessions s))
    \<and> ws_sent s' = ws_sent s @ concat (map (\<lambda>e. if closes_now (clock s) e
           then concat (map (\<lambda>r. told e r s) (filter (is_cut e) (rows (t_sessions s)))) else []) (EventsRepository_findAll s))"
proof -
  let ?es = "EventsRepository_findAll s"
  have set: "set ?es = set (rows (t_events s))" by (simp add: EventsRepository_findAll_def)
  have "distinct (map ev_id ?es)"
  proof -
    have "distinct (map ev_id (rows (t_events s)))"
      using integrityD(1)[OF assms(1)] by (auto simp: tbl_ok_def strict_sorted_iff)
    moreover have "mset (map ev_id ?es) = mset (map ev_id (rows (t_events s)))"
      by (simp add: EventsRepository_findAll_def)
    ultimately show ?thesis by (metis mset_eq_imp_distinct_iff)
  qed
  moreover have "list_all (\<lambda>e. event_norm e = e) ?es" using assms(2) set by (simp add: list_all_iff)
  ultimately obtain res s' where r: "runEventLifecycle s = (Inr res, s')" "life_effect s ?es s'" "integrity s'"
    using life_loop_effect[OF assms(1), of ?es "\<lparr>lr_started = 0, lr_ended = 0, lr_killed = 0\<rparr>"] set
    unfolding runEventLifecycle_def by blast
  moreover have "rows (t_events s') = map (life_row (clock s)) (rows (t_events s))"
    using r(2) set by (auto simp: life_effect_def intro!: map_cong)
  ultimately show ?thesis using set by (auto simp: life_effect_def)
qed

text \<open>After the tick nothing of an ended event is admitted.\<close>

lemma tick_closes_gate:
  assumes "closes_now now e"
  shows "authorize_event (life_row now e) d = Reject (publishClosedReason (Some Ended))"
  using assms by (simp add: authorize_event_def life_row_def life_status_def closes_now_def)


section \<open>Example\<close>

text \<open>The event has ended; one session is on node a, which is connected, one is local.\<close>

definition last_call :: ws_server where
  "last_call = (ws_boot world_start)\<lparr>clock := 5000, t_events := \<lparr>rows = [demo_event\<lparr>ev_endsAt := Some 4000\<rparr>], seq = 2\<rparr>,
     t_sessions := \<lparr>rows = [(session_values ''ann'')\<lparr>ps_id := 1, ps_eventId := Some 1, ps_nodeId := Some ''a''\<rparr>,
       (session_values ''bob'')\<lparr>ps_id := 2, ps_eventId := Some 1\<rparr>], seq = 3\<rparr>,
     ws_byNode := [(''a'', ''c1'')]\<rparr>"

lemma last_call_state:
  "clock last_call = 5000" "t_events last_call = \<lparr>rows = [demo_event\<lparr>ev_endsAt := Some 4000\<rparr>], seq = 2\<rparr>"
  "t_sessions last_call = \<lparr>rows = [(session_values ''ann'')\<lparr>ps_id := 1, ps_eventId := Some 1, ps_nodeId := Some ''a''\<rparr>,
       (session_values ''bob'')\<lparr>ps_id := 2, ps_eventId := Some 1\<rparr>], seq = 3\<rparr>"
  "ws_byNode last_call = [(''a'', ''c1'')]" "ws_sent last_call = []"
  by (simp_all add: last_call_def ws_boot_def world.defs ws_server.defs)

lemma last_call_integrity: "integrity last_call"
  by (simp add: last_call_def ws_boot_def world.defs ws_server.defs schema_decls event_ban_keys_def tbl_ok_def has_def has_opt_def
      tbl_empty_def demo_event_def event_values_def session_values_def world_start_def demo_core_def core.defs db.defs db_empty_def)

theorem lifecycle_tick_effect_witness:
  "map ev_status (rows (t_events (lifecycle_tick last_call))) = [Ended]
   \<and> map ps_endedAt (rows (t_sessions (lifecycle_tick last_call))) = [None, Some 5000]
   \<and> map fst (ws_sent (lifecycle_tick last_call)) = [''c1'']"
proof -
  have e: "event_norm (demo_event\<lparr>ev_endsAt := Some 4000\<rparr>) = demo_event\<lparr>ev_endsAt := Some 4000\<rparr>" by code_simp
  then have "list_all (\<lambda>e. event_norm e = e) (rows (t_events last_call))" by (simp add: last_call_state)
  note t = lifecycle_tick_effect[OF last_call_integrity this, unfolded last_call_state(1)]
  have c: "closes_now 5000 (demo_event\<lparr>ev_endsAt := Some 4000\<rparr>)" "ev_id demo_event = 1" by code_simp+
  from t obtain s' where "lifecycle_tick last_call = s'"
    "rows (t_events s') = map (life_row 5000) (rows (t_events last_call))"
    "rows (t_sessions s') = map (\<lambda>r. if (\<exists>e\<in>set (rows (t_events last_call)). closes_now 5000 e \<and> is_cut e r) \<and> \<not> reachable last_call r
           then closed_row 5000 r else r) (rows (t_sessions last_call))"
    "ws_sent s' = concat (map (\<lambda>e. if closes_now 5000 e
           then concat (map (\<lambda>r. told e r last_call) (filter (is_cut e) (rows (t_sessions last_call)))) else [])
           (EventsRepository_findAll last_call))"
    by (auto simp: lifecycle_tick_def last_call_state(5))
  then show ?thesis
    using c by (simp add: last_call_state is_cut_def reachable_def wsConnected_def closed_row_def life_row_def life_status_def
        told_def EventsRepository_findAll_def session_values_def closes_now_def map_get_def db_ts_def)
qed

end
