(* ===== verification/CleanStream.thy ===== *)
theory CleanStream
  imports Lifecycle SrsClient
begin

text \<open>
  services/cleanstream.ts, the re-encoded twins that watchers are served from, with the endpoints
  that start a watch: api/streams/whep/[stream] and api/streams/url.

  A twin's ffmpeg process has a number.  A variant is the object of the Map variants, told apart by its
  process.  procs are the processes that run, each with its stream and the variant that the callback
  of its exit holds; killed are the processes that were sent a signal by kill(): they run on until they
  exit, which the operating system reports later.  spawning are the streams whose startTwin still waits for
  SRS; ending are the exits whose delayed teardown is still to come.  cap is MAX_CONCURRENT.
\<close>

section \<open>State\<close>

record variant =
  vr_proc :: nat
  vr_nodeId :: string
  vr_lastWatchAt :: int

record clean = ws_server +
  variants :: "(string, variant) jsmap"
  spawning :: "string list"
  procs :: "(nat, string \<times> variant) jsmap"
  killed :: "nat list"
  next_proc :: nat
  ending :: "(string \<times> variant) list"

definition CLEAN_PREFIX :: string where "CLEAN_PREFIX = ''clean-''"

definition IDLE_TTL_MS :: int where "IDLE_TTL_MS = 120000"

definition READY_TIMEOUT_MS :: int where "READY_TIMEOUT_MS = 2000"

text \<open>hostname is the host of a URL, None when it does not parse.\<close>

definition srsRtmpBase :: "(string \<Rightarrow> string option) \<Rightarrow> string \<Rightarrow> string" where
  "srsRtmpBase hostname flvBase = ''rtmp://'' @ orDefault (hostname flvBase) flvBase @ '':1935''"

text \<open>The push of sendRecordingDelete, on the wider state.\<close>

definition tell_node :: "string \<Rightarrow> out_frame \<Rightarrow> clean \<Rightarrow> clean" where
  "tell_node n f s = (case map_get n (ws_byNode s) of None \<Rightarrow> s | Some p \<Rightarrow> s\<lparr>ws_sent := ws_sent s @ [(p, f)]\<rparr>)"

definition wipe_twin :: "string \<Rightarrow> string \<Rightarrow> clean \<Rightarrow> clean" where
  "wipe_twin n stream s = tell_node n (ORecordingDelete [''live/'' @ CLEAN_PREFIX @ stream]) s"


section \<open>A twin's life\<close>

definition teardown :: "string \<Rightarrow> variant \<Rightarrow> bool \<Rightarrow> clean \<Rightarrow> clean" where
  "teardown stream entry notifyNode s =
     (let s1 = (if map_option vr_proc (map_get stream (variants s)) = Some (vr_proc entry)
                then s\<lparr>variants := map_del stream (variants s)\<rparr> else s);
          s2 = s1\<lparr>killed := vr_proc entry # killed s1\<rparr>
      in if notifyNode then wipe_twin (vr_nodeId entry) stream s2 else s2)"

text \<open>startTwin up to waitForMount; the entry is registered before its first await.\<close>

definition startTwin :: "string \<Rightarrow> string \<Rightarrow> clean \<Rightarrow> clean" where
  "startTwin stream nodeId s =
     (let s1 = wipe_twin nodeId stream s; p = next_proc s1;
          entry = \<lparr>vr_proc = p, vr_nodeId = nodeId, vr_lastWatchAt = clock s1\<rparr>
      in s1\<lparr>procs := map_put p (stream, entry) (procs s1), next_proc := p + 1,
            variants := map_put stream entry (variants s1)\<rparr>)"

text \<open>The arguments that name the source and the target of the process.\<close>

definition twin_source :: "(string \<Rightarrow> string option) \<Rightarrow> string \<Rightarrow> string \<Rightarrow> string \<Rightarrow> string" where
  "twin_source hostname flvBase eventKey stream = srsRtmpBase hostname flvBase @ ''/'' @ eventKey @ ''/'' @ stream"

definition twin_target :: "(string \<Rightarrow> string option) \<Rightarrow> string \<Rightarrow> string \<Rightarrow> string" where
  "twin_target hostname flvBase stream = srsRtmpBase hostname flvBase @ ''/live/'' @ CLEAN_PREFIX @ stream"

text \<open>Where a watch is answered from, and whether it first waits for a start of the twin.  The process
  is spawned, or the spawn fails with a message.\<close>

definition ensureCleanStream ::
    "int \<Rightarrow> string option \<Rightarrow> string \<Rightarrow> string \<Rightarrow> clean \<Rightarrow> (string \<times> bool, clean) outcome" where
  "ensureCleanStream cap failure stream nodeId s =
     (case map_get stream (variants s) of
        Some v \<Rightarrow> (Inr (CLEAN_PREFIX @ stream, False),
                  s\<lparr>variants := map_put stream (v\<lparr>vr_lastWatchAt := clock s\<rparr>) (variants s)\<rparr>)
      | None \<Rightarrow>
          if stream \<in> set (spawning s) then (Inr (CLEAN_PREFIX @ stream, True), s)
          else if cap \<le> int (length (variants s)) then (Inr (stream, False), s)
          else (case failure of
                  Some m \<Rightarrow> (Inl (JsError m), wipe_twin nodeId stream s)
                | None \<Rightarrow> (Inr (CLEAN_PREFIX @ stream, True),
                           (startTwin stream nodeId s)\<lparr>spawning := stream # spawning s\<rparr>)))"

text \<open>waitForMount has returned.\<close>

definition twin_ready :: "string \<Rightarrow> clean \<Rightarrow> clean" where
  "twin_ready stream s = s\<lparr>spawning := filter (\<lambda>n. n \<noteq> stream) (spawning s)\<rparr>"

text \<open>The process ended, by itself or by the signal: its teardown follows two seconds later.\<close>

definition twin_exit :: "nat \<Rightarrow> clean \<Rightarrow> clean" where
  "twin_exit p s = (case map_get p (procs s) of
     None \<Rightarrow> s
   | Some t \<Rightarrow> s\<lparr>procs := map_del p (procs s), ending := ending s @ [t]\<rparr>)"

definition late_teardown :: "nat \<Rightarrow> clean \<Rightarrow> clean" where
  "late_teardown k s = (if k < length (ending s)
     then teardown (fst (ending s ! k)) (snd (ending s ! k)) True (s\<lparr>ending := take k (ending s) @ drop (Suc k) (ending s)\<rparr>)
     else s)"

definition idle :: "int \<Rightarrow> variant \<Rightarrow> bool" where
  "idle now v \<longleftrightarrow> IDLE_TTL_MS < now - vr_lastWatchAt v"

definition reap :: "clean \<Rightarrow> clean" where
  "reap s = fold (\<lambda>(stream, v). teardown stream v True) (filter (\<lambda>(_, v). idle (clock s) v) (variants s)) s"

text \<open>The probes of waitForMount: each takes its time and sees a status or nothing; between two the
  loop sleeps 250 ms.  The result is the time it returns.\<close>

definition mounted :: "int option \<Rightarrow> bool" where
  "mounted r \<longleftrightarrow> r = Some 200 \<or> r = Some 206"

function waitForMount :: "(nat \<Rightarrow> nat \<times> int option) \<Rightarrow> nat \<Rightarrow> int \<Rightarrow> int \<Rightarrow> int" where
  "waitForMount probe k deadline now =
     (if deadline \<le> now then now
      else let (took, r) = probe k in
        if mounted r then now + int took else waitForMount probe (Suc k) deadline (now + int took + 250))"
  by pat_completeness auto
termination by (relation "measure (\<lambda>(probe, k, deadline, now). nat (deadline - now))") auto


section \<open>Watching\<close>

definition own_stream :: "auth_context \<Rightarrow> string \<Rightarrow> 'z db_scheme \<Rightarrow> bool" where
  "own_stream a stream d \<longleftrightarrow> ax_role a = RAdmin
     \<or> map_option us_email (UsersRepository_findById (ax_userId a) d) = Some stream"

definition streams_url :: "ice_server list \<Rightarrow> auth_context option \<Rightarrow> string \<Rightarrow> 'z db_scheme \<Rightarrow> error + playback_urls" where
  "streams_url ice auth streamName0 d =
     (case auth of
        None \<Rightarrow> Inl (HttpError 403 ''login required'')
      | Some a \<Rightarrow> let n = js_trim streamName0 in
          if n = [] then Inl (HttpError 400 ''streamName is required'')
          else if \<not> own_stream a n d then Inl (HttpError 403 ''you can only watch your own stream'')
          else Inr (buildPlaybackUrls ice n))"

text \<open>What a WHEP request comes to: a relay through a node, of the stream named, after a wait when the
  twin is being started; or a request to the local SRS.\<close>

datatype watch = Relay string string bool | LocalSrs string

definition whep_guard :: "auth_context option \<Rightarrow> string option \<Rightarrow> string \<Rightarrow> 'z db_scheme \<Rightarrow> error + string" where
  "whep_guard auth param offer d =
     (case auth of
        None \<Rightarrow> Inl (HttpError 403 ''login required'')
      | Some a \<Rightarrow>
          (case decodeURIComponent (orDefault param []) of
             None \<Rightarrow> Inl (JsError ''URI malformed'')
           | Some t \<Rightarrow> let stream = js_trim t in
               if stream = [] \<or> CHR ''/'' \<in> set stream then Inl (HttpError 400 ''stream is required'')
               else if \<not> own_stream a stream d then Inl (HttpError 403 ''you can only watch your own stream'')
               else if offer = [] then Inl (HttpError 400 ''SDP offer body is required'')
               else Inr stream))"

definition event_key_of :: "publish_session_row \<Rightarrow> 'z db_scheme \<Rightarrow> string" where
  "event_key_of r d =
     (case ps_eventId r of
        None \<Rightarrow> ''live''
      | Some i \<Rightarrow> if i = 0 then ''live'' else
          (case EventsRepository_findById i d of None \<Rightarrow> ''live'' | Some e \<Rightarrow> if ev_slug e = [] then ''live'' else ev_slug e))"

definition whep_post :: "int \<Rightarrow> string option \<Rightarrow> auth_context option \<Rightarrow> string option \<Rightarrow> string \<Rightarrow> clean \<Rightarrow> (watch, clean) outcome" where
  "whep_post cap failure auth param offer s =
     (case whep_guard auth param offer s of
        Inl e \<Rightarrow> (Inl e, s)
      | Inr stream \<Rightarrow>
          (case PublishSessionsRepository_findActiveByStream stream s of
             None \<Rightarrow> (Inl (HttpError 404 ''stream is not live''), s)
           | Some r \<Rightarrow>
               (case getHostingNode stream s of
                  Some n \<Rightarrow> (case ensureCleanStream cap failure stream (nd_nodeId n) s of
                      (Inl e, s1) \<Rightarrow> (Inl e, s1)
                    | (Inr (name, waits), s1) \<Rightarrow> (Inr (Relay (nd_nodeId n) name waits), s1))
                | None \<Rightarrow> (Inr (LocalSrs stream), s))))"

text \<open>The end of a relay and of a local request, as the watcher sees them.\<close>

definition relay_end :: "error + rpc_response \<Rightarrow> error + string" where
  "relay_end r = (case whep_answer r of Inl (JsError m) \<Rightarrow> Inl (HttpError 502 m) | Inl e \<Rightarrow> Inl e | Inr a \<Rightarrow> Inr a)"

definition local_search :: "string \<Rightarrow> string" where
  "local_search stream = ''?app=live&stream='' @ encodeURI stream"

definition local_end :: "fetch_result \<Rightarrow> string \<Rightarrow> error + string" where
  "local_end res body = (case res of
     Unreachable \<Rightarrow> Inl (HttpError 502 ''WHEP endpoint not reachable (stream live?)'')
   | NotOk n \<Rightarrow> Inl (HttpError 502 (''SRS WHEP responded '' @ int_str n))
   | Body _ \<Rightarrow> Inr body)"


section \<open>Every history of the twins\<close>

text \<open>A process that runs may exit at any time, and one that was sent the signal may take its time.  The rest of
  the server may do anything to the rest of the state.\<close>

inductive clean_run :: "int \<Rightarrow> clean \<Rightarrow> clean \<Rightarrow> bool" for cap boot where
  clean_boot: "clean_run cap boot boot"
| clean_watch: "clean_run cap boot s \<Longrightarrow> clean_run cap boot (snd (ensureCleanStream cap failure stream n s))"
| clean_ready: "clean_run cap boot s \<Longrightarrow> clean_run cap boot (twin_ready stream s)"
| clean_exit: "clean_run cap boot s \<Longrightarrow> clean_run cap boot (twin_exit p s)"
| clean_late: "clean_run cap boot s \<Longrightarrow> clean_run cap boot (late_teardown k s)"
| clean_reap: "clean_run cap boot s \<Longrightarrow> clean_run cap boot (reap s)"
| clean_other: "clean_run cap boot s \<Longrightarrow> variants s' = variants s \<Longrightarrow> spawning s' = spawning s \<Longrightarrow> procs s' = procs s
    \<Longrightarrow> killed s' = killed s \<Longrightarrow> next_proc s' = next_proc s \<Longrightarrow> ending s' = ending s \<Longrightarrow> clean_run cap boot s'"

text \<open>Process p transcodes stream n and nobody has told it to stop.\<close>

definition transcoding :: "clean \<Rightarrow> nat \<Rightarrow> string \<Rightarrow> bool" where
  "transcoding s p n \<longleftrightarrow> map_option fst (map_get p (procs s)) = Some n \<and> p \<notin> set (killed s)"

definition transcoders :: "clean \<Rightarrow> nat list" where
  "transcoders s = filter (\<lambda>p. p \<notin> set (killed s)) (map fst (procs s))"

text \<open>No twin runs on that its stream does not know; and no process is told to stop that has not been
  started.\<close>

definition clean_ok :: "int \<Rightarrow> clean \<Rightarrow> bool" where
  "clean_ok cap s \<longleftrightarrow> map_ok (variants s) \<and> map_ok (procs s) \<and> length (variants s) \<le> nat cap
     \<and> (\<forall>p n. transcoding s p n \<longrightarrow> map_option vr_proc (map_get n (variants s)) = Some p)
     \<and> (\<forall>n v. map_get n (variants s) = Some v \<longrightarrow> vr_proc v < next_proc s)
     \<and> (\<forall>n m v u. map_get n (variants s) = Some v \<longrightarrow> map_get m (variants s) = Some u \<longrightarrow> vr_proc v = vr_proc u \<longrightarrow> n = m)
     \<and> (\<forall>p\<in>set (killed s). p < next_proc s) \<and> (\<forall>e\<in>set (ending s). vr_proc (snd e) < next_proc s)
     \<and> (\<forall>p t. map_get p (procs s) = Some t \<longrightarrow> vr_proc (snd t) < next_proc s)"

lemma clean_okI:
  assumes "map_ok (variants s)" "map_ok (procs s)" "length (variants s) \<le> nat cap"
    "\<And>p n. transcoding s p n \<Longrightarrow> map_option vr_proc (map_get n (variants s)) = Some p"
    "\<And>n v. map_get n (variants s) = Some v \<Longrightarrow> vr_proc v < next_proc s"
    "\<And>n m v u. map_get n (variants s) = Some v \<Longrightarrow> map_get m (variants s) = Some u \<Longrightarrow> vr_proc v = vr_proc u \<Longrightarrow> n = m"
    "\<And>p. p \<in> set (killed s) \<Longrightarrow> p < next_proc s" "\<And>e. e \<in> set (ending s) \<Longrightarrow> vr_proc (snd e) < next_proc s"
    "\<And>p t. map_get p (procs s) = Some t \<Longrightarrow> vr_proc (snd t) < next_proc s"
  shows "clean_ok cap s"
  using assms unfolding clean_ok_def by blast

lemma clean_okD:
  assumes "clean_ok cap s"
  shows "map_ok (variants s)" "map_ok (procs s)" "length (variants s) \<le> nat cap"
    "transcoding s p n \<Longrightarrow> map_option vr_proc (map_get n (variants s)) = Some p"
    "map_get n (variants s) = Some v \<Longrightarrow> vr_proc v < next_proc s"
    "map_get n (variants s) = Some v \<Longrightarrow> map_get m (variants s) = Some u \<Longrightarrow> vr_proc v = vr_proc u \<Longrightarrow> n = m"
    "q \<in> set (killed s) \<Longrightarrow> q < next_proc s" "e \<in> set (ending s) \<Longrightarrow> vr_proc (snd e) < next_proc s"
    "map_get q (procs s) = Some t \<Longrightarrow> vr_proc (snd t) < next_proc s"
  using assms unfolding clean_ok_def by blast+

lemma clean_ok_cong:
  assumes "variants s' = variants s" "procs s' = procs s" "killed s' = killed s" "next_proc s' = next_proc s" "ending s' = ending s"
  shows "clean_ok cap s' = clean_ok cap s"
  unfolding clean_ok_def transcoding_def assms ..

lemma map_put_length: "length (map_put k v m) = (if k \<in> fst ` set m then length m else Suc (length m))"
  by (induction k v m rule: map_put.induct) auto

lemma map_del_length: "length (map_del k m) \<le> length m"
  by (simp add: map_del_def)

lemma wipe_twin_frame [simp]:
  "variants (wipe_twin n m s) = variants s" "procs (wipe_twin n m s) = procs s" "spawning (wipe_twin n m s) = spawning s"
  "next_proc (wipe_twin n m s) = next_proc s" "ending (wipe_twin n m s) = ending s" "clock (wipe_twin n m s) = clock s"
  "ws_byNode (wipe_twin n m s) = ws_byNode s" "killed (wipe_twin n m s) = killed s"
  by (simp_all add: wipe_twin_def tell_node_def split: option.split)

lemma teardown_frame [simp]:
  "next_proc (teardown n v b s) = next_proc s" "clock (teardown n v b s) = clock s" "ending (teardown n v b s) = ending s"
  "procs (teardown n v b s) = procs s" "killed (teardown n v b s) = vr_proc v # killed s"
  "spawning (teardown n v b s) = spawning s" "ws_byNode (teardown n v b s) = ws_byNode s"
  by (simp_all add: teardown_def Let_def)

lemma teardown_variants:
  "variants (teardown n v b s) =
     (if map_option vr_proc (map_get n (variants s)) = Some (vr_proc v) then map_del n (variants s) else variants s)"
  by (auto simp: teardown_def Let_def)

lemma teardown_get:
  "map_get n (variants (teardown a v b s)) =
     (if a = n \<and> map_option vr_proc (map_get n (variants s)) = Some (vr_proc v) then None else map_get n (variants s))"
  by (cases "a = n"; cases "map_get n (variants s)") (auto simp: teardown_variants map_get_del)

lemma transcoding_teardown: "transcoding (teardown n v b s) p m \<longleftrightarrow> transcoding s p m \<and> p \<noteq> vr_proc v"
  by (auto simp: transcoding_def)

lemma teardown_ok:
  assumes "clean_ok cap s" "vr_proc v < next_proc s"
  shows "clean_ok cap (teardown n v b s)"
proof (rule clean_okI)
  note D = clean_okD [OF assms(1)]
  let ?s = "teardown n v b s"
  show "map_ok (variants ?s)" "map_ok (procs ?s)" using D(1,2) by (simp_all add: teardown_variants map_ok_del)
  show "length (variants ?s) \<le> nat cap"
    using D(3) map_del_length [of n "variants s"] by (simp add: teardown_variants)
  show "map_option vr_proc (map_get m (variants ?s)) = Some p" if "transcoding ?s p m" for p m
    using that D(4) [of p m] by (auto simp: transcoding_teardown teardown_get)
  show "vr_proc w < next_proc ?s" if "map_get m (variants ?s) = Some w" for m w
    using that D(5) [of m w] by (auto simp: teardown_get split: if_splits)
  show "m = k" if "map_get m (variants ?s) = Some w" "map_get k (variants ?s) = Some u" "vr_proc w = vr_proc u" for m k w u
    by (rule D(6) [of m w k u]) (use that in \<open>auto simp: teardown_get split: if_splits\<close>)
  show "p < next_proc ?s" if "p \<in> set (killed ?s)" for p using that assms(2) D(7) [of p] by auto
  show "vr_proc (snd e) < next_proc ?s" if "e \<in> set (ending ?s)" for e using that D(8) by simp
  show "vr_proc (snd t) < next_proc ?s" if "map_get p (procs ?s) = Some t" for p t using that D(9) by simp
qed

lemma startTwin_ok:
  assumes "clean_ok cap s" "map_get n (variants s) = None" "int (length (variants s)) < cap"
  shows "clean_ok cap (startTwin n i s)"
proof (rule clean_okI)
  note D = clean_okD [OF assms(1)]
  let ?s = "startTwin n i s" and ?e = "\<lparr>vr_proc = next_proc s, vr_nodeId = i, vr_lastWatchAt = clock s\<rparr>"
  have new: "n \<notin> fst ` set (variants s)" using assms(2) by (simp add: map_get_None)
  have f: "variants ?s = map_put n ?e (variants s)" "procs ?s = map_put (next_proc s) (n, ?e) (procs s)"
    "killed ?s = killed s" "next_proc ?s = Suc (next_proc s)" "ending ?s = ending s"
    by (simp_all add: startTwin_def Let_def)
  show "map_ok (variants ?s)" "map_ok (procs ?s)" using D(1,2) by (simp_all add: f map_ok_put)
  show "length (variants ?s) \<le> nat cap" using assms(3) new by (simp add: f map_put_length)
  show "map_option vr_proc (map_get m (variants ?s)) = Some p" if "transcoding ?s p m" for p m
    using that D(4) [of p m] assms(2) by (auto simp: transcoding_def f map_get_put split: if_splits)
  show "vr_proc v < next_proc ?s" if "map_get m (variants ?s) = Some v" for m v
    using that D(5) [of m v] by (auto simp: f map_get_put split: if_splits)
  show "m = k" if "map_get m (variants ?s) = Some v" "map_get k (variants ?s) = Some u" "vr_proc v = vr_proc u" for m k v u
    using that D(6) [of m v k u] D(5) [of m v] D(5) [of k u] by (auto simp: f map_get_put split: if_splits)
  show "p < next_proc ?s" if "p \<in> set (killed ?s)" for p using that D(7) [of p] by (simp add: f)
  show "vr_proc (snd e) < next_proc ?s" if "e \<in> set (ending ?s)" for e using that D(8) [of e] by (simp add: f)
  show "vr_proc (snd t) < next_proc ?s" if "map_get p (procs ?s) = Some t" for p t
    using that D(9) [of p t] by (auto simp: f map_get_put split: if_splits)
qed

text \<open>A watch of a twin that is there moves its time alone.\<close>

lemma watched_ok:
  assumes "clean_ok cap s" "map_get n (variants s) = Some v" "vr_proc v' = vr_proc v"
  shows "clean_ok cap (s\<lparr>variants := map_put n v' (variants s)\<rparr>)"
proof (rule clean_okI)
  note D = clean_okD [OF assms(1)]
  let ?s = "s\<lparr>variants := map_put n v' (variants s)\<rparr>"
  have "n \<in> fst ` set (variants s)" using assms(2) by (metis map_get_None option.distinct(1))
  then show "length (variants ?s) \<le> nat cap" using D(3) by (simp add: map_put_length)
  show "map_ok (variants ?s)" "map_ok (procs ?s)" using D(1,2) by (simp_all add: map_ok_put)
  show "map_option vr_proc (map_get m (variants ?s)) = Some p" if "transcoding ?s p m" for p m
    using that D(4) [of p m] assms(2,3) by (auto simp: transcoding_def map_get_put)
  show "vr_proc w < next_proc ?s" if "map_get m (variants ?s) = Some w" for m w
    using that D(5) [of m] D(5) [OF assms(2)] assms(3) by (auto simp: map_get_put split: if_splits)
  show "m = k" if "map_get m (variants ?s) = Some w" "map_get k (variants ?s) = Some u" "vr_proc w = vr_proc u" for m k w u
    using that D(6) [of m w k u] D(6) [OF assms(2), of k u] D(6) [OF assms(2), of m w] assms(3)
    by (auto simp: map_get_put split: if_splits)
  show "p < next_proc ?s" if "p \<in> set (killed ?s)" for p using that D(7) by simp
  show "vr_proc (snd e) < next_proc ?s" if "e \<in> set (ending ?s)" for e using that D(8) by simp
  show "vr_proc (snd t) < next_proc ?s" if "map_get p (procs ?s) = Some t" for p t using that D(9) by simp
qed

lemma ensure_ok:
  assumes "clean_ok cap s"
  shows "clean_ok cap (snd (ensureCleanStream cap failure n i s))"
proof (cases "map_get n (variants s)")
  case (Some v)
  then show ?thesis using watched_ok [OF assms Some, of "v\<lparr>vr_lastWatchAt := clock s\<rparr>"] by (simp add: ensureCleanStream_def)
next
  case None
  have wiped: "clean_ok cap (wipe_twin i n s)" using assms clean_ok_cong [of "wipe_twin i n s" s] by simp
  have "clean_ok cap ((startTwin n i s)\<lparr>spawning := ns\<rparr>)" if "int (length (variants s)) < cap" for ns
    using startTwin_ok [OF assms None that, of i] clean_ok_cong [of "(startTwin n i s)\<lparr>spawning := ns\<rparr>" "startTwin n i s"]
    by simp
  then show ?thesis using assms wiped None by (simp add: ensureCleanStream_def split: option.split)
qed

lemma teardowns_ok:
  assumes "clean_ok cap s" "\<forall>e\<in>set vs. vr_proc (snd e) < next_proc s"
  shows "clean_ok cap (fold (\<lambda>(n, v). teardown n v True) vs s)"
  using assms by (induction vs arbitrary: s) (auto simp: teardown_ok)

lemma reap_ok:
  assumes "clean_ok cap s"
  shows "clean_ok cap (reap s)"
  unfolding reap_def
proof (rule teardowns_ok [OF assms])
  note D = clean_okD [OF assms]
  show "\<forall>e\<in>set (filter (\<lambda>(_, v). idle (clock s) v) (variants s)). vr_proc (snd e) < next_proc s"
    using D(5) map_get_in [OF D(1)] by fastforce
qed

lemma twin_exit_ok:
  assumes "clean_ok cap s"
  shows "clean_ok cap (twin_exit p s)"
proof (cases "map_get p (procs s)")
  case None
  then show ?thesis using assms by (simp add: twin_exit_def)
next
  case (Some t)
  have "clean_ok cap (s\<lparr>procs := map_del p (procs s), ending := ending s @ [t]\<rparr>)"
    using clean_okD [OF assms] Some by (intro clean_okI) (auto simp: transcoding_def map_ok_del map_get_del split: if_splits)
  then show ?thesis using Some by (simp add: twin_exit_def)
qed

lemma late_teardown_ok:
  assumes "clean_ok cap s"
  shows "clean_ok cap (late_teardown k s)"
proof (cases "k < length (ending s)")
  case True
  let ?s = "s\<lparr>ending := take k (ending s) @ drop (Suc k) (ending s)\<rparr>"
  note D = clean_okD [OF assms]
  have "clean_ok cap ?s"
    using D by (intro clean_okI) (auto simp: transcoding_def dest: in_set_takeD in_set_dropD)
  then show ?thesis using True D(8) [of "ending s ! k"] by (simp add: late_teardown_def teardown_ok)
qed (use assms in \<open>simp add: late_teardown_def\<close>)

definition quiet_boot :: "clean \<Rightarrow> bool" where
  "quiet_boot s \<longleftrightarrow> variants s = [] \<and> procs s = [] \<and> killed s = [] \<and> ending s = []"

lemma clean_run_ok:
  assumes "clean_run cap boot s" "quiet_boot boot"
  shows "clean_ok cap s"
  using assms(1)
proof induction
  case clean_boot
  then show ?case using assms(2) by (simp add: quiet_boot_def clean_ok_def transcoding_def map_ok_def)
next
  case (clean_ready s stream)
  then show ?case using clean_ok_cong [of "twin_ready stream s" s cap] by (simp add: twin_ready_def)
next
  case (clean_other s s')
  then show ?case using clean_ok_cong [of s' s cap] by simp
qed (simp_all add: ensure_ok twin_exit_ok late_teardown_ok reap_ok)

text \<open>The entries tell the transcoders apart, so these are no more than the entries.\<close>

lemma transcoders_transcoding:
  "map_ok (procs s) \<Longrightarrow> p \<in> set (transcoders s) \<Longrightarrow> \<exists>n. transcoding s p n"
  by (force simp: transcoders_def transcoding_def dest: map_get_in)

lemma transcoders_bounded:
  assumes "clean_ok cap s"
  shows "length (transcoders s) \<le> length (variants s)"
proof -
  note D = clean_okD [OF assms]
  have "set (transcoders s) \<subseteq> (\<lambda>e. vr_proc (snd e)) ` set (variants s)"
  proof
    fix p assume "p \<in> set (transcoders s)"
    then obtain n where "transcoding s p n" using transcoders_transcoding [OF D(2)] by blast
    from D(4) [OF this] obtain v where "map_get n (variants s) = Some v" "vr_proc v = p" by auto
    then show "p \<in> (\<lambda>e. vr_proc (snd e)) ` set (variants s)" by (force dest: map_get_Some_in)
  qed
  then have "card (set (transcoders s)) \<le> card ((\<lambda>e. vr_proc (snd e)) ` set (variants s))" by (simp add: card_mono)
  also have "\<dots> \<le> length (variants s)" by (metis card_image_le card_length finite_set le_trans)
  finally have "card (set (transcoders s)) \<le> length (variants s)" .
  moreover have "distinct (transcoders s)" using D(2) by (simp add: transcoders_def map_ok_def)
  ultimately show ?thesis by (metis distinct_card)
qed

lemma reap_teardowns:
  "map_get n (variants (fold (\<lambda>(n, v). teardown n v True) vs s)) =
     (if map_option vr_proc (map_get n (variants s)) \<in> (\<lambda>e. Some (vr_proc (snd e))) ` {e \<in> set vs. fst e = n} then None
      else map_get n (variants s))"
proof (induction vs arbitrary: s)
  case (Cons e vs)
  obtain a v where e: "e = (a, v)" by (cases e)
  show ?case
  proof (cases "a = n \<and> map_option vr_proc (map_get n (variants s)) = Some (vr_proc v)")
    case True
    then have gone: "map_get n (variants (teardown a v True s)) = None" by (simp add: teardown_get)
    have "(\<exists>e'. e' \<in> {e' \<in> set (e # vs). fst e' = n} \<and> map_option vr_proc (map_get n (variants s)) = Some (vr_proc (snd e')))"
      using True by (intro exI [of _ e]) (simp add: e)
    then have "map_option vr_proc (map_get n (variants s)) \<in> (\<lambda>e. Some (vr_proc (snd e))) ` {e' \<in> set (e # vs). fst e' = n}"
      by blast
    moreover have "map_get n (variants (fold (\<lambda>(n, v). teardown n v True) (e # vs) s)) = None"
      using gone by (simp add: e Cons.IH)
    ultimately show ?thesis by (simp only: if_True)
  next
    case False
    then have same: "map_get n (variants (teardown a v True s)) = map_get n (variants s)"
      by (simp only: teardown_get if_False)
    have "map_option vr_proc (map_get n (variants s)) \<in> (\<lambda>e. Some (vr_proc (snd e))) ` {e' \<in> set (e # vs). fst e' = n}
        \<longleftrightarrow> map_option vr_proc (map_get n (variants s)) \<in> (\<lambda>e. Some (vr_proc (snd e))) ` {e' \<in> set vs. fst e' = n}"
      using False by (auto simp: e image_iff)
    moreover have "map_get n (variants (fold (\<lambda>(n, v). teardown n v True) (e # vs) s)) =
        map_get n (variants (fold (\<lambda>(n, v). teardown n v True) vs (teardown a v True s)))" by (simp add: e)
    ultimately show ?thesis using Cons.IH [of "teardown a v True s"] unfolding same by presburger
  qed
qed simp

lemma map_get_iff: "map_ok m \<Longrightarrow> (k, v) \<in> set m \<longleftrightarrow> map_get k m = Some v"
  by (blast intro: map_get_in map_get_Some_in)

lemma reap_get:
  assumes "map_ok (variants s)"
  shows "map_get n (variants (reap s)) =
           (case map_get n (variants s) of None \<Rightarrow> None | Some v \<Rightarrow> if idle (clock s) v then None else Some v)"
proof -
  have "{e \<in> set (filter (\<lambda>(_, v). idle (clock s) v) (variants s)). fst e = n} =
      {(n, v) | v. map_get n (variants s) = Some v \<and> idle (clock s) v}"
    using map_get_iff [OF assms] by auto
  then show ?thesis unfolding reap_def reap_teardowns by (auto split: option.split)
qed

lemma reap_killed:
  assumes "map_ok (variants s)"
  shows "p \<in> set (killed (reap s)) \<longleftrightarrow>
     p \<in> set (killed s) \<or> (\<exists>m v. map_get m (variants s) = Some v \<and> idle (clock s) v \<and> vr_proc v = p)"
proof -
  have "set (killed (fold (\<lambda>(n, v). teardown n v True) vs t)) = (vr_proc \<circ> snd) ` set vs \<union> set (killed t)" for vs t
    by (induction vs arbitrary: t) auto
  moreover have "p \<in> (vr_proc \<circ> snd) ` set (filter (\<lambda>(_, v). idle (clock s) v) (variants s)) \<longleftrightarrow>
      (\<exists>m v. map_get m (variants s) = Some v \<and> idle (clock s) v \<and> vr_proc v = p)"
    by (auto simp: image_iff map_get_iff [OF assms, symmetric])
  ultimately show ?thesis unfolding reap_def by blast
qed

lemma reap_procs [simp]: "procs (reap s) = procs s"
proof -
  have "procs (fold (\<lambda>(n, v). teardown n v True) vs t) = procs t" for vs t
    by (induction vs arbitrary: t) auto
  then show ?thesis by (simp add: reap_def)
qed

text \<open>C29 Whatever the interleaving of watches, spawns that fail, exits, late teardowns and rounds of the
  reaper: no more twins are kept than CLEAN_MAX_CONCURRENT; every transcoder that runs and has not been sent the
  signal to stop is the process its stream's entry names, so that no more than CLEAN_MAX_CONCURRENT of them run,
  no two for one stream, and a teardown of the entry sends it the signal.  A process that was sent the signal
  still runs until it exits, beside its successor if there is one (reaped_twin_overlaps), so that the cap is
  one of twins and of transcoders that go on, not of processes.\<close>

theorem twins_bounded:
  assumes "clean_run cap boot s" "quiet_boot boot"
  shows "length (variants s) \<le> nat cap \<and> length (transcoders s) \<le> nat cap
    \<and> (\<forall>p q n. transcoding s p n \<and> transcoding s q n \<longrightarrow> p = q)
    \<and> (\<forall>p n v b. transcoding s p n \<and> map_get n (variants s) = Some v \<longrightarrow> \<not> transcoding (teardown n v b s) p n)
    \<and> (\<forall>p n. transcoding s p n \<longrightarrow> map_option vr_proc (map_get n (variants s)) = Some p)"
proof (intro conjI allI impI; (elim conjE)?)
  note ok = clean_run_ok [OF assms]
  note D = clean_okD [OF ok]
  show "length (variants s) \<le> nat cap" by (rule D(3))
  then show "length (transcoders s) \<le> nat cap" using transcoders_bounded [OF ok] by simp
  show "p = q" if "transcoding s p n" "transcoding s q n" for p q n using D(4) [OF that(1)] D(4) [OF that(2)] by simp
  show "\<not> transcoding (teardown n v b s) p n" if "transcoding s p n" "map_get n (variants s) = Some v" for p n v b
    using D(4) [OF that(1)] that(2) by (simp add: transcoding_teardown)
  show "map_option vr_proc (map_get n (variants s)) = Some p" if "transcoding s p n" for p n by (rule D(4) [OF that])
qed

text \<open>A round of the reaper leaves exactly the twins watched within the last two minutes, and sends the
  signal to the transcoders of the others and to no other process.\<close>

theorem reap_exact:
  assumes "clean_run cap boot s" "quiet_boot boot"
  shows "map_get n (variants (reap s)) =
           (case map_get n (variants s) of None \<Rightarrow> None | Some v \<Rightarrow> if idle (clock s) v then None else Some v)
    \<and> (transcoding (reap s) p n \<longleftrightarrow> transcoding s p n \<and> map_get n (variants (reap s)) \<noteq> None)"
proof (rule conjI)
  note D = clean_okD [OF clean_run_ok [OF assms]]
  show left: "map_get n (variants (reap s)) =
      (case map_get n (variants s) of None \<Rightarrow> None | Some v \<Rightarrow> if idle (clock s) v then None else Some v)" for n
    by (rule reap_get [OF D(1)])
  show "transcoding (reap s) p n \<longleftrightarrow> transcoding s p n \<and> map_get n (variants (reap s)) \<noteq> None"
  proof (cases "transcoding s p n")
    case True
    then obtain v where v: "map_get n (variants s) = Some v" "vr_proc v = p" using D(4) by blast
    then have "(\<exists>m u. map_get m (variants s) = Some u \<and> idle (clock s) u \<and> vr_proc u = p) \<longleftrightarrow> idle (clock s) v"
      using D(6) [OF _ v(1)] by fastforce
    then show ?thesis using True v(1) by (simp add: transcoding_def left reap_killed [OF D(1)])
  next
    case False
    then show ?thesis by (auto simp: transcoding_def reap_killed [OF D(1)])
  qed
qed

declare waitForMount.simps [simp del]

lemma waitForMount_in:
  assumes "\<And>k. fst (probe k) \<le> 500"
  shows "waitForMount probe k deadline now \<le> max now (deadline + 749)
    \<and> (deadline \<le> waitForMount probe k deadline now \<or> (\<exists>j\<ge>k. mounted (snd (probe j))))"
proof (induction "nat (deadline - now)" arbitrary: k now rule: less_induct)
  case less
  obtain took r where p: "probe k = (took, r)" by fastforce
  have took: "int took \<le> 500" using assms [of k] p by simp
  consider "deadline \<le> now" | "now < deadline" "mounted r" | "now < deadline" "\<not> mounted r" by linarith
  then show ?case
  proof cases
    case 2
    then show ?thesis using took by (auto simp: waitForMount.simps [of probe k] p intro!: exI [of _ k])
  next
    case 3
    let ?now = "now + int took + 250"
    have "nat (deadline - ?now) < nat (deadline - now)" using 3 by simp
    from less [OF this, of "Suc k"] have
      "waitForMount probe (Suc k) deadline ?now \<le> max ?now (deadline + 749)"
      "deadline \<le> waitForMount probe (Suc k) deadline ?now \<or> (\<exists>j\<ge>Suc k. mounted (snd (probe j)))" by blast+
    moreover have "waitForMount probe k deadline now = waitForMount probe (Suc k) deadline ?now"
      using 3 by (simp add: waitForMount.simps [of probe k] p)
    moreover have "?now \<le> deadline + 749" using 3 took by simp
    ultimately show ?thesis by (metis Suc_leD max.absorb2 max.coboundedI2)
  qed (simp add: waitForMount.simps)
qed

text \<open>waitForMount returns: at the latest 749 ms after its deadline when each probe is cut off after
  500 ms, and no sooner than the deadline unless a probe saw the twin mounted.\<close>

theorem waitForMount_bounds:
  assumes "\<And>k. fst (probe k) \<le> 500"
  shows "waitForMount probe k deadline now \<le> max now (deadline + 749)"
    and "deadline \<le> waitForMount probe k deadline now \<or> (\<exists>j\<ge>k. mounted (snd (probe j)))"
  using waitForMount_in [of probe k deadline now] assms by blast+

text \<open>C30 A watch is answered for the account's own stream or for an administrator, only of a stream with
  an open session, and over the node that hosts it; from the original stream instead of its twin only
  when all twins are taken.\<close>

theorem whep_post_sound:
  assumes "whep_post cap failure auth param offer s = (Inr w, s')"
  obtains a stream r where "auth = Some a" "own_stream a stream s"
    "PublishSessionsRepository_findActiveByStream stream s = Some r"
    "getHostingNode stream s = None \<Longrightarrow> w = LocalSrs stream \<and> s' = s"
    "\<And>n. getHostingNode stream s = Some n \<Longrightarrow>
       \<exists>waits. w = Relay (nd_nodeId n) (CLEAN_PREFIX @ stream) waits
         \<or> w = Relay (nd_nodeId n) stream waits \<and> cap \<le> int (length (variants s)) \<and> s' = s"
proof -
  obtain stream where g: "whep_guard auth param offer s = Inr stream"
    using assms by (cases "whep_guard auth param offer s") (auto simp: whep_post_def)
  obtain r where r: "PublishSessionsRepository_findActiveByStream stream s = Some r"
    using assms g by (cases "PublishSessionsRepository_findActiveByStream stream s") (auto simp: whep_post_def)
  obtain a where a: "auth = Some a" "own_stream a stream s"
    using g by (auto simp: whep_guard_def Let_def split: option.splits if_splits)
  show thesis
  proof (rule that [OF a r])
    show "w = LocalSrs stream \<and> s' = s" if "getHostingNode stream s = None"
      using assms g r that by (auto simp: whep_post_def)
    show "\<exists>waits. w = Relay (nd_nodeId n) (CLEAN_PREFIX @ stream) waits
         \<or> w = Relay (nd_nodeId n) stream waits \<and> cap \<le> int (length (variants s)) \<and> s' = s"
      if n: "getHostingNode stream s = Some n" for n
      using assms g r n by (auto simp: whep_post_def ensureCleanStream_def split: option.splits if_splits)
  qed
qed


section \<open>Concrete runs\<close>

text \<open>Ann is live through node a.  In crowded her twin runs, with room for one twin only.\<close>

definition parlour :: clean where
  "parlour = ws_server.extend ((ws_boot on_air)\<lparr>t_sessions := \<lparr>rows = [(session_values ''ann@x.org'')\<lparr>ps_id := 1,
       ps_nodeId := Some ''a''\<rparr>], seq = 2\<rparr>\<rparr>) (clean.fields [] [] [] [] 0 [])"

definition crowded :: clean where
  "crowded = snd (ensureCleanStream 1 None ''ann@x.org'' ''a'' parlour)"

lemma parlour_state [simp]:
  "variants parlour = []" "procs parlour = []" "spawning parlour = []" "next_proc parlour = 0" "ending parlour = []"
  "ws_byNode parlour = []" "clock parlour = clock on_air" "killed parlour = []" "quiet_boot parlour"
  by (simp_all add: quiet_boot_def parlour_def ws_boot_def world.defs ws_server.defs clean.defs)

lemma crowded_run: "clean_run 1 parlour crowded"
  unfolding crowded_def by (intro clean_watch clean_boot)

abbreviation "ann_twin \<equiv> \<lparr>vr_proc = 0, vr_nodeId = ''a'', vr_lastWatchAt = clock on_air\<rparr>"

lemma crowded_state:
  "variants crowded = [(''ann@x.org'', ann_twin)]" "procs crowded = [(0, (''ann@x.org'', ann_twin))]" "killed crowded = []"
  "spawning crowded = [''ann@x.org'']" "next_proc crowded = 1" "clock crowded = clock on_air"
  by (simp_all add: crowded_def ensureCleanStream_def startTwin_def Let_def)

theorem twins_bounded_witness:
  "transcoders crowded = [0] \<and> \<not> transcoding (teardown ''ann@x.org'' ann_twin True crowded) 0 ''ann@x.org''"
proof -
  note t = twins_bounded [OF crowded_run parlour_state(9)]
  have "length (transcoders crowded) \<le> 1" using t by simp
  moreover have r: "transcoding crowded 0 ''ann@x.org''" by (simp add: transcoding_def crowded_state map_get_def)
  moreover have "transcoders crowded \<noteq> [] \<and> hd (transcoders crowded) = 0" by (simp add: transcoders_def crowded_state)
  moreover have "map_get ''ann@x.org'' (variants crowded) = Some ann_twin" by (simp add: crowded_state map_get_def)
  with t r have "\<not> transcoding (teardown ''ann@x.org'' ann_twin True crowded) 0 ''ann@x.org''" by blast
  ultimately show ?thesis by (cases "transcoders crowded") auto
qed

lemma crowded_idle: "clean_run 1 parlour (crowded\<lparr>clock := clock on_air + 120001\<rparr>)"
  by (rule clean_other [OF crowded_run]) simp_all

theorem reap_exact_witness:
  "map_get ''ann@x.org'' (variants (reap (crowded\<lparr>clock := clock on_air + 120001\<rparr>))) = None
     \<and> \<not> transcoding (reap (crowded\<lparr>clock := clock on_air + 120001\<rparr>)) 0 ''ann@x.org''"
proof -
  note r = reap_exact [OF crowded_idle parlour_state(9)]
  have gone: "map_get ''ann@x.org'' (variants (reap (crowded\<lparr>clock := clock on_air + 120001\<rparr>))) = None"
    using r [of "''ann@x.org''"] by (simp add: crowded_state map_get_def idle_def IDLE_TTL_MS_def)
  then show ?thesis using r [of "''ann@x.org''" 0] by simp
qed

text \<open>The cap is not one of processes: Ann's idle twin is reaped and she watches again before the old ffmpeg has
  exited.  With room for one twin, two processes push the same twin.\<close>

lemma reaped_twin_overlaps:
  defines "s \<equiv> snd (ensureCleanStream 1 None ''ann@x.org'' ''a'' (twin_ready ''ann@x.org''
      (reap (crowded\<lparr>clock := clock on_air + 120001\<rparr>))))"
  shows "clean_run 1 parlour s \<and> map (\<lambda>e. (fst e, fst (snd e))) (procs s) = [(0, ''ann@x.org''), (1, ''ann@x.org'')]"
proof -
  let ?r = "reap (crowded\<lparr>clock := clock on_air + 120001\<rparr>)"
  have "clean_run 1 parlour s" unfolding s_def by (intro clean_watch clean_ready clean_reap crowded_idle)
  moreover have "variants ?r = []" "next_proc ?r = 1" "spawning ?r = [''ann@x.org'']"
    by (simp_all add: reap_def crowded_state idle_def IDLE_TTL_MS_def teardown_variants map_get_def map_del_def)
  moreover have "procs ?r = [(0, (''ann@x.org'', ann_twin))]" by (simp add: crowded_state)
  ultimately show ?thesis
    by (simp add: s_def ensureCleanStream_def twin_ready_def startTwin_def Let_def)
qed

theorem waitForMount_bounds_witness: "waitForMount (\<lambda>k. (500, None)) 0 2000 0 \<in> {2000..2749}"
proof -
  have "waitForMount (\<lambda>k. (500, None)) 0 2000 0 \<le> max 0 (2000 + 749)"
    by (rule waitForMount_bounds(1)) simp
  moreover have "2000 \<le> waitForMount (\<lambda>k. (500, None)) 0 2000 0"
    using waitForMount_bounds(2) [of "\<lambda>k. (500, None)" 2000 0 0] by (simp add: mounted_def)
  ultimately show ?thesis by simp
qed

lemma parlour_watch:
  "fst (whep_post 1 None (Some \<lparr>ax_userId = 1, ax_role = RAdmin\<rparr>) (Some ''ann%40x.org'') ''sdp'' parlour)
     = Inr (Relay ''a'' ''clean-ann@x.org'' True)"
  by code_simp

theorem whep_post_sound_witness:
  "\<exists>stream r. PublishSessionsRepository_findActiveByStream stream parlour = Some r \<and> CLEAN_PREFIX @ stream = ''clean-ann@x.org''"
proof -
  let ?w = "whep_post 1 None (Some \<lparr>ax_userId = 1, ax_role = RAdmin\<rparr>) (Some ''ann%40x.org'') ''sdp'' parlour"
  have w: "?w = (Inr (Relay ''a'' ''clean-ann@x.org'' True), snd ?w)" using parlour_watch by (simp add: prod_eq_iff)
  show ?thesis
  proof (rule whep_post_sound [OF w])
    fix a stream r
    assume r: "PublishSessionsRepository_findActiveByStream stream parlour = Some r"
      and here: "getHostingNode stream parlour = None
        \<Longrightarrow> Relay ''a'' ''clean-ann@x.org'' True = LocalSrs stream \<and> snd ?w = parlour"
      and there: "\<And>n. getHostingNode stream parlour = Some n \<Longrightarrow>
        \<exists>waits. Relay ''a'' ''clean-ann@x.org'' True = Relay (nd_nodeId n) (CLEAN_PREFIX @ stream) waits
          \<or> Relay ''a'' ''clean-ann@x.org'' True = Relay (nd_nodeId n) stream waits
            \<and> 1 \<le> int (length (variants parlour)) \<and> snd ?w = parlour"
    obtain n where "getHostingNode stream parlour = Some n" using here by (cases "getHostingNode stream parlour") auto
    from there [OF this] show ?thesis using r by auto
  qed
qed

end
