(* ===== verification/EmailCode.thy ===== *)
theory EmailCode
  imports World
begin

text \<open>
  utils/email-code.ts: the in-memory store of registration codes.  Codes live ten minutes,
  are consumed by the first correct guess and dropped after five wrong ones.
\<close>

definition CODE_TTL_MS :: int where "CODE_TTL_MS = 10 * 60 * 1000"
definition MAX_ATTEMPTS :: int where "MAX_ATTEMPTS = 5"

definition code_key :: "string \<Rightarrow> string \<Rightarrow> string" where
  "code_key email session = email @ '':'' @ session"

definition sweep :: "int \<Rightarrow> (string, code_entry) jsmap \<Rightarrow> (string, code_entry) jsmap" where
  "sweep now m = filter (\<lambda>(k, v). \<not> ce_expiresAt v \<le> now) m"

definition issueCode :: "string \<Rightarrow> string \<Rightarrow> string \<Rightarrow> 'z world_scheme \<Rightarrow> 'z world_scheme" where
  "issueCode email session code w =
     w\<lparr>codes := map_put (code_key email session)
         \<lparr>ce_code = code, ce_expiresAt = clock w + CODE_TTL_MS, ce_attempts = 0\<rparr> (sweep (clock w) (codes w))\<rparr>"

definition consumeCode :: "string \<Rightarrow> string \<Rightarrow> string \<Rightarrow> 'z world_scheme \<Rightarrow> bool \<times> 'z world_scheme" where
  "consumeCode email session code w =
     (let m = sweep (clock w) (codes w); k = code_key email session
      in case map_get k m of
           None \<Rightarrow> (False, w\<lparr>codes := m\<rparr>)
         | Some entry \<Rightarrow>
             if length code = length (ce_code entry) \<and> code = ce_code entry
             then (True, w\<lparr>codes := map_del k m\<rparr>)
             else let entry' = entry\<lparr>ce_attempts := ce_attempts entry + 1\<rparr>
                  in (False, w\<lparr>codes := (if MAX_ATTEMPTS \<le> ce_attempts entry' then map_del k m
                                        else map_put k entry' m)\<rparr>))"

lemma consumeCode_frame [simp]:
  "clock (snd (consumeCode e s c w)) = clock w" "t_users (snd (consumeCode e s c w)) = t_users w"
  "cfg_cache (snd (consumeCode e s c w)) = cfg_cache w" "bus (snd (consumeCode e s c w)) = bus w"
  by (auto simp: consumeCode_def Let_def split: option.splits)

lemma map_get_sweep:
  "map_ok m \<Longrightarrow> map_get k (sweep now m) =
     (case map_get k m of None \<Rightarrow> None | Some v \<Rightarrow> if ce_expiresAt v \<le> now then None else Some v)"
proof (induction m)
  case (Cons e m)
  then have "map_ok m" "map_get (fst e) m = None" by (auto simp: map_ok_def map_get_None)
  with Cons show ?case
    by (cases e) (auto simp: sweep_def map_get_Cons split: option.splits if_splits)
qed (simp add: sweep_def)

lemma map_ok_sweep: "map_ok m \<Longrightarrow> map_ok (sweep now m)"
  by (simp add: map_ok_def sweep_def distinct_map_filter)


section \<open>Histories of the store\<close>

text \<open>What happened, newest last: a code was issued for a key, or a guess was made.\<close>

datatype code_event = Issued int string string | Tried int string string bool

text \<open>What a history says of a key since its last issue: when, which code, how many wrong
  guesses, and whether it has been redeemed.\<close>

fun since_step :: "string \<Rightarrow> code_event \<Rightarrow> (int \<times> string \<times> int \<times> bool) option \<Rightarrow>
    (int \<times> string \<times> int \<times> bool) option" where
  "since_step k (Issued t k' c) s = (if k' = k then Some (t, c, 0, False) else s)"
| "since_step k (Tried t k' c good) s =
     (if k' = k then (case s of None \<Rightarrow> None
        | Some (t0, c0, n, used) \<Rightarrow> if good then Some (t0, c0, n, True) else Some (t0, c0, n + 1, used))
      else s)"

definition since :: "string \<Rightarrow> code_event list \<Rightarrow> (int \<times> string \<times> int \<times> bool) option" where
  "since k h = fold (since_step k) h None"

lemma since_snoc: "since k (h @ [e]) = since_step k e (since k h)"
  by (simp add: since_def)

inductive code_hist :: "code_event list \<Rightarrow> world \<Rightarrow> bool" where
  hist_start: "codes w = [] \<Longrightarrow> code_hist [] w"
| hist_tick: "\<lbrakk>code_hist h w; clock w \<le> t; codes w' = codes w; clock w' = t\<rbrakk> \<Longrightarrow> code_hist h w'"
| hist_issue: "code_hist h w \<Longrightarrow>
    code_hist (h @ [Issued (clock w) (code_key e s) c]) (issueCode e s c w)"
| hist_try: "\<lbrakk>code_hist h w; consumeCode e s c w = (good, w')\<rbrakk> \<Longrightarrow>
    code_hist (h @ [Tried (clock w) (code_key e s) c good]) w'"

definition live_code :: "int \<Rightarrow> (int \<times> string \<times> int \<times> bool) option \<Rightarrow> (string \<times> int) option" where
  "live_code now s = (case s of
     Some (t, c, n, used) \<Rightarrow> if \<not> used \<and> n < MAX_ATTEMPTS \<and> now < t + CODE_TTL_MS then Some (c, n) else None
   | None \<Rightarrow> None)"

definition stored_code :: "int \<Rightarrow> code_entry option \<Rightarrow> (string \<times> int) option" where
  "stored_code now x = (case x of
     Some e \<Rightarrow> if now < ce_expiresAt e then Some (ce_code e, ce_attempts e) else None | None \<Rightarrow> None)"

text \<open>The store holds exactly the codes the history says are live.\<close>

definition codes_agree :: "code_event list \<Rightarrow> world \<Rightarrow> bool" where
  "codes_agree h w \<longleftrightarrow> map_ok (codes w)
     \<and> (\<forall>k. \<forall>now\<ge>clock w. stored_code now (map_get k (codes w)) = live_code now (since k h))"

lemma codes_agree_hist: "code_hist h w \<Longrightarrow> codes_agree h w"
proof (induction rule: code_hist.induct)
  case (hist_start w)
  then show ?case by (simp add: codes_agree_def map_ok_def stored_code_def live_code_def since_def)
next
  case (hist_tick h w t w')
  then show ?case by (simp add: codes_agree_def)
next
  case (hist_issue h w e s c)
  have ok: "map_ok (codes w)" and ag: "\<And>k now. clock w \<le> now \<Longrightarrow>
      stored_code now (map_get k (codes w)) = live_code now (since k h)"
    using hist_issue.IH by (auto simp: codes_agree_def)
  have "stored_code now (map_get k (codes (issueCode e s c w)))
      = live_code now (since k (h @ [Issued (clock w) (code_key e s) c]))" if "clock w \<le> now" for k now
    using ag[OF that, of k] that
    by (auto simp: issueCode_def map_get_put map_get_sweep ok map_ok_sweep since_snoc stored_code_def
        live_code_def MAX_ATTEMPTS_def split: option.splits if_splits)
  then show ?case
    using ok by (auto simp: codes_agree_def issueCode_def map_ok_put map_ok_sweep)
next
  case (hist_try h w e s c good w')
  let ?k = "code_key e s" and ?m = "sweep (clock w) (codes w)"
  have ok: "map_ok (codes w)" and ag: "\<And>k now. clock w \<le> now \<Longrightarrow>
      stored_code now (map_get k (codes w)) = live_code now (since k h)"
    using hist_try.IH by (auto simp: codes_agree_def)
  have clk: "clock w' = clock w" using hist_try.hyps(2) consumeCode_frame(1)[of e s c w] by simp
  have okm: "map_ok ?m" by (rule map_ok_sweep[OF ok])
  have sw: "stored_code now (map_get k ?m) = live_code now (since k h)" if "clock w \<le> now" for k now
    using ag[OF that, of k] that ok
    by (auto simp: map_get_sweep stored_code_def split: option.splits if_splits)
  have "stored_code now (map_get k (codes w'))
      = live_code now (since k (h @ [Tried (clock w) ?k c good]))" if now: "clock w \<le> now" for k now
  proof (cases "k = ?k")
    case False
    have "map_get k (codes w') = map_get k ?m"
      using hist_try.hyps(2) False
      by (auto simp: consumeCode_def Let_def map_get_del map_get_put split: option.splits if_splits)
    with sw[OF now, of k] False show ?thesis by (auto simp: since_snoc)
  next
    case True
    show ?thesis
    proof (cases "map_get ?k ?m")
      case None
      then have "good = False" "codes w' = ?m"
        using hist_try.hyps(2) by (auto simp: consumeCode_def Let_def)
      moreover have "live_code now (since ?k h) = None"
        using sw[OF now, of ?k] None by (simp add: stored_code_def)
      moreover have "stored_code (clock w) (map_get ?k ?m) = live_code (clock w) (since ?k h)"
        by (rule sw) simp
      ultimately show ?thesis using None True
        by (auto simp: since_snoc stored_code_def live_code_def split: option.splits if_splits prod.splits)
    next
      case (Some entry)
      then have fresh: "clock w < ce_expiresAt entry"
        using ok by (auto simp: map_get_sweep split: option.splits if_splits)
      have "stored_code (clock w) (Some entry) = live_code (clock w) (since ?k h)"
        using sw[of "clock w" ?k] Some by simp
      then obtain t where t: "since ?k h = Some (t, ce_code entry, ce_attempts entry, False)"
        "ce_attempts entry < MAX_ATTEMPTS"
        using fresh by (auto simp: stored_code_def live_code_def split: option.splits if_splits prod.splits)
      have ex: "stored_code n (Some entry) = live_code n (since ?k h)" if "clock w \<le> n" for n
        using sw[OF that, of ?k] Some by simp
      have exp: "ce_expiresAt entry = t + CODE_TTL_MS"
      proof (rule ccontr)
        assume "ce_expiresAt entry \<noteq> t + CODE_TTL_MS"
        then consider "ce_expiresAt entry < t + CODE_TTL_MS" | "t + CODE_TTL_MS < ce_expiresAt entry" by linarith
        then show False
        proof cases
          case 1
          with ex[of "ce_expiresAt entry"] fresh t show False by (auto simp: stored_code_def live_code_def)
        next
          case 2
          have "clock w \<le> max (clock w) (t + CODE_TTL_MS)" by simp
          from ex[OF this] 2 fresh t show False
            by (auto simp: stored_code_def live_code_def split: if_splits)
        qed
      qed
      show ?thesis
        using hist_try.hyps(2) Some t exp True
        by (auto simp: consumeCode_def Let_def map_get_del map_get_put since_snoc stored_code_def
            live_code_def split: if_splits)
    qed
  qed
  moreover have "map_ok (codes w')"
    using hist_try.hyps(2) okm
    by (auto simp: consumeCode_def Let_def map_ok_del map_ok_put split: option.splits if_splits)
  ultimately show ?case by (simp add: codes_agree_def clk)
qed

text \<open>C7 Whatever has happened to the store before, a guess is accepted if and only if it is
  the code last issued for that email and session, less than ten minutes ago, not redeemed
  since, with fewer than five wrong guesses since: codes are one-shot, expire, and cannot be
  brute-forced past the fifth attempt.\<close>

theorem consumeCode_iff:
  assumes "code_hist h w"
  shows "fst (consumeCode e s c w) \<longleftrightarrow>
    (\<exists>t n. since (code_key e s) h = Some (t, c, n, False) \<and> clock w < t + 600000 \<and> n < 5)"
proof -
  let ?k = "code_key e s"
  have ok: "map_ok (codes w)" and ag: "stored_code (clock w) (map_get ?k (codes w)) = live_code (clock w) (since ?k h)"
    using codes_agree_hist[OF assms] by (auto simp: codes_agree_def)
  have "fst (consumeCode e s c w) \<longleftrightarrow> (\<exists>n. stored_code (clock w) (map_get ?k (codes w)) = Some (c, n))"
    by (auto simp: consumeCode_def Let_def map_get_sweep ok stored_code_def split: option.splits if_splits)
  also have "... \<longleftrightarrow> (\<exists>t n. since ?k h = Some (t, c, n, False) \<and> clock w < t + 600000 \<and> n < 5)"
    by (auto simp: ag live_code_def CODE_TTL_MS_def MAX_ATTEMPTS_def split: option.splits if_splits)
  finally show ?thesis .
qed

theorem consumeCode_iff_witness:
  "fst (consumeCode ''a@b.c'' ''s'' ''123456'' (issueCode ''a@b.c'' ''s'' ''123456'' world_start))
   \<and> \<not> fst (consumeCode ''a@b.c'' ''s'' ''123457'' (issueCode ''a@b.c'' ''s'' ''123456'' world_start))"
proof -
  have "code_hist ([] @ [Issued (clock world_start) (code_key ''a@b.c'' ''s'') ''123456''])
      (issueCode ''a@b.c'' ''s'' ''123456'' world_start)"
    by (rule hist_issue) (simp add: hist_start)
  from consumeCode_iff[OF this] show ?thesis
    by (simp add: since_def issueCode_def)
qed

text \<open>The key joins email and session with a colon that both may contain: a code issued for
  one address is accepted for another.\<close>

lemma code_key_collision:
  "fst (consumeCode ''me@x.org:b.edu'' ''s'' c (issueCode ''me@x.org'' ''b.edu:s'' c world_start))"
  by (simp add: consumeCode_def issueCode_def code_key_def map_get_def sweep_def CODE_TTL_MS_def Let_def)

end
