(* ===== verification/Accounts.thy ===== *)
theory Accounts
  imports Nodes EmailCode
begin

text \<open>
  Accounts: the endpoints under api/auth (bootstrap, send-code, register, login, logout, session),
  api/users (role, groups, node, deletion) and api/me (note, announcement, password), with
  utils/email-limit.ts.  RSA decryption of a submitted password, the e-mail rate limiter and the
  delivery of a mail are parameters; a request body is the record of its fields after the
  String() conversions of the handler.  Lengths count the bytes of the ASCII text.
\<close>

record account_view =
  av_id :: int
  av_email :: string
  av_role :: role
  av_loginNotice :: "string option"

definition account_of :: "user_row \<Rightarrow> string \<Rightarrow> account_view" where
  "account_of u notice = \<lparr>av_id = us_id u, av_email = us_email u, av_role = us_role u,
     av_loginNotice = (if notice = [] then None else Some notice)\<rparr>"

text \<open>The message of an Error.\<close>

fun error_message :: "error \<Rightarrow> string" where
  "error_message (HttpError c m) = m"
| "error_message (DbError m) = m"
| "error_message (JsError m) = m"


section \<open>Bootstrap, session, logout\<close>

definition bootstrap_get :: "'z world_scheme \<Rightarrow> (bool \<times> string) \<times> 'z world_scheme" where
  "bootstrap_get w = (let b = UsersRepository_isEmpty w; (c, w1) = getConfig w in ((b, reg_notice (c_registration c)), w1))"

definition session_get :: "auth_context option \<Rightarrow> 'z db_scheme \<Rightarrow> account_view option" where
  "session_get auth d =
     (case auth of None \<Rightarrow> None
      | Some a \<Rightarrow> map_option (\<lambda>u. account_of u []) (UsersRepository_findById (ax_userId a) d))"

definition logout :: "externals \<Rightarrow> auth_context option \<Rightarrow> 'z core_scheme \<Rightarrow> cookie_spec \<times> 'z core_scheme" where
  "logout x auth w =
     (clearSessionCookie x,
      case auth of
        None \<Rightarrow> w
      | Some a \<Rightarrow>
          let email = (case UsersRepository_findById (ax_userId a) w of
                Some u \<Rightarrow> us_email u | None \<Rightarrow> ''uid '' @ int_str (ax_userId a))
          in audit LInfo CAuth (''logout: '' @ email)
               (no_opts\<lparr>ai_actor := Some email, ai_detail := Some (JObj [(''userId'', json_int (ax_userId a))])\<rparr>) w)"


section \<open>Login\<close>

definition login_error :: error where
  "login_error = HttpError 401 ''Invalid email or password''"

text \<open>The two upgrades of a login: a legacy hash is replaced, a missing authmod verifier minted.\<close>

definition login_upgrade :: "externals \<Rightarrow> string \<Rightarrow> user_row \<Rightarrow> 'z core_scheme \<Rightarrow> 'z core_scheme" where
  "login_upgrade x plain u w =
     (let w1 = (if isLegacyHash (us_passwordHash u)
                then (let (h, v) = hashPassword x plain w in UsersRepository_updatePassword (us_id u) h v) else w)
      in if us_authmodVerifier u = None \<or> us_authmodVerifier u = Some []
         then (let ((salt, cipher), v) = mintAuthmod x (us_email u) plain w1
               in UsersRepository_setAuthmod (us_id u) salt cipher v)
         else w1)"

definition login :: "externals \<Rightarrow> string \<Rightarrow> string \<Rightarrow> 'z world_scheme \<Rightarrow> (account_view \<times> cookie_spec, 'z world_scheme) outcome" where
  "login x email0 cipher w =
     (let email = normalizeEmail email0 in
      if email = [] \<or> cipher = [] then (Inl (HttpError 400 ''Email and password are required''), w)
      else case x_rsaDecrypt x cipher of
        None \<Rightarrow> (Inl login_error, w)
      | Some plain \<Rightarrow>
         (case UsersRepository_findByEmail email w of
            None \<Rightarrow> (Inl login_error, audit LWarn CAuth (''failed login: '' @ email) (no_opts\<lparr>ai_actor := Some email\<rparr>) w)
          | Some u \<Rightarrow>
              if \<not> verifyPassword x plain (us_passwordHash u)
              then (Inl login_error, audit LWarn CAuth (''failed login: '' @ email) (no_opts\<lparr>ai_actor := Some email\<rparr>) w)
              else let w1 = login_upgrade x plain u w;
                       cookie = createSessionCookie x (us_id u) (us_role u) w1;
                       w2 = audit LInfo CAuth (''login: '' @ email)
                              (no_opts\<lparr>ai_actor := Some email, ai_detail := Some (JObj [(''userId'', json_int (us_id u))])\<rparr>) w1;
                       (c, w3) = getConfig w2
                   in (Inr (account_of u (loginNotice (c_dashboard c)), cookie), w3)))"


section \<open>Registration\<close>

definition MIN_PASSWORD :: nat where "MIN_PASSWORD = 6"

record register_body =
  rb_email :: string
  rb_password :: string
  rb_code :: string
  rb_session :: string
  rb_invite :: string

definition rules_error :: "string \<Rightarrow> app_config \<Rightarrow> error" where
  "rules_error what c = (let rules = describeEmailRules c in
     HttpError 403 (''This email '' @ what @ '' is not allowed to register'' @ (if rules \<noteq> [] then '' ('' @ rules @ '')'' else [])))"

text \<open>The checks, in the order of the handler, and the decrypted password.\<close>

definition register_checks :: "externals \<Rightarrow> register_body \<Rightarrow> 'z world_scheme \<Rightarrow> (string, 'z world_scheme) outcome" where
  "register_checks x body w =
     (let email = normalizeEmail (rb_email body) in
      if \<not> EMAIL_RE email then (Inl (HttpError 400 ''Invalid email format''), w)
      else case x_rsaDecrypt x (rb_password body) of
        None \<Rightarrow> (Inl (HttpError 400 ''Invalid password payload''), w)
      | Some password \<Rightarrow>
          if length password < MIN_PASSWORD then (Inl (HttpError 400 ''Password must be at least 6 characters''), w)
          else let (c, w1) = getConfig w in
            if isDisallowedEmail email c then (Inl (rules_error ''address'' c), w1)
            else if UsersRepository_findByEmail email w1 \<noteq> None
            then (Inl (HttpError 409 ''This email is already registered''), w1)
            else if UsersRepository_isEmpty w1 then (Inr password, w1)
            else if \<not> passesWhitelist x email c then (Inl (rules_error ''domain'' c), w1)
            else if rb_session body = [] then (Inl (HttpError 400 ''Verification code is invalid or expired''), w1)
            else let (ok, w2) = consumeCode email (rb_session body) (rb_code body) w1 in
              if ok then (Inr password, w2)
              else (Inl (HttpError 400 ''Verification code is invalid or expired''), w2))"

definition assign_first :: "int \<Rightarrow> 'z world_scheme \<Rightarrow> string option \<times> 'z world_scheme" where
  "assign_first u w =
     (let n = allocate u w in
      (n, if n \<noteq> None \<and> n \<noteq> Some [] then UsersRepository_updateNode u n w else w))"

text \<open>The newest announcement of the pool is taken out of the configuration and given to the user.\<close>

definition pop_announcement :: "int \<Rightarrow> string \<Rightarrow> 'z world_scheme \<Rightarrow> (unit, 'z world_scheme) outcome" where
  "pop_announcement u email w =
     (let (c, w1) = getConfig w in
      case announcementPool (c_dashboard c) of
        [] \<Rightarrow> (Inr (), w1)
      | a # rest \<Rightarrow>
          let w2 = UsersRepository_updateAnnouncement u (Some a) w1 in
          (case appConfigSchema (app_config_json (c\<lparr>c_dashboard := (c_dashboard c)\<lparr>announcementPool := rest\<rparr>\<rparr>)) of
             None \<Rightarrow> (Inl (JsError ''ZodError''), w2)
           | Some nxt \<Rightarrow>
               (Inr (), audit LInfo CAuth (''announcement auto-assigned to '' @ email @ '' from pool'')
                  (no_opts\<lparr>ai_actor := Some email, ai_detail := Some (JObj [(''userId'', json_int u),
                     (''remaining'', json_int (int (length rest)))])\<rparr>)
                  (invalidateConfig (AppConfigRepository_upsert (JText (app_config_json nxt)) w2)))))"

definition register_invite :: "string \<Rightarrow> string \<Rightarrow> int \<Rightarrow> 'z world_scheme \<Rightarrow> string option \<times> 'z world_scheme" where
  "register_invite invite email u w =
     (if invite = [] then (None, w)
      else case consumeInvite invite u w of
        (Inr g, w1) \<Rightarrow> (map_option gr_name g, w1)
      | (Inl e, w1) \<Rightarrow>
          (None, audit LWarn CAuth (''invite consume failed at register: '' @ email)
             (no_opts\<lparr>ai_actor := Some email, ai_detail := Some (JObj [(''invite'', JStr invite),
                (''error'', JStr (error_message e))])\<rparr>) w1))"

definition new_account :: "string \<Rightarrow> string \<Rightarrow> role \<Rightarrow> string \<Rightarrow> string \<Rightarrow> user_row" where
  "new_account email h r salt cipher = (user_values email h)\<lparr>us_role := r, us_authmodSalt := Some salt,
     us_authmodVerifier := Some cipher\<rparr>"

text \<open>What follows the INSERT; first the cookie, the audit line and the answer at its end.\<close>

definition register_done :: "externals \<Rightarrow> string \<Rightarrow> bool \<Rightarrow> user_row \<Rightarrow> string option \<Rightarrow> string option \<Rightarrow> 'z world_scheme \<Rightarrow>
    (account_view \<times> cookie_spec) \<times> 'z world_scheme" where
  "register_done x email isFirst user node joined w =
     (let cookie = createSessionCookie x (us_id user) (us_role user) w;
          w1 = audit LInfo CAuth (''register: '' @ email @ '' ('' @ role_str (us_role user) @ '')'')
                 (no_opts\<lparr>ai_actor := Some email, ai_detail := Some (JObj [(''userId'', json_int (us_id user)),
                    (''role'', JStr (role_str (us_role user))), (''first'', JBool isFirst), (''verified'', JBool (\<not> isFirst)),
                    (''joinedGroup'', json_opt JStr joined), (''assignedNode'', json_opt JStr node)])\<rparr>) w;
          (c, w2) = getConfig w1
      in ((account_of user (loginNotice (c_dashboard c)), cookie), w2))"

definition register_finish :: "externals \<Rightarrow> register_body \<Rightarrow> bool \<Rightarrow> user_row \<Rightarrow> 'z world_scheme \<Rightarrow>
    (account_view \<times> cookie_spec, 'z world_scheme) outcome" where
  "register_finish x body isFirst user w =
     (let email = normalizeEmail (rb_email body);
          (node, w1) = assign_first (us_id user) w
      in andThen (pop_announcement (us_id user) email w1) (\<lambda>_ w2.
         let (joined, w3) = register_invite (js_trim (rb_invite body)) email (us_id user) w2;
             (r, w4) = register_done x email isFirst user node joined w3
         in (Inr r, w4)))"

definition register_account :: "externals \<Rightarrow> register_body \<Rightarrow> 'z world_scheme \<Rightarrow> (account_view \<times> cookie_spec, 'z world_scheme) outcome" where
  "register_account x body w =
     andThen (register_checks x body w) (\<lambda>password w1.
       let isFirst = UsersRepository_isEmpty w1;
           email = normalizeEmail (rb_email body);
           (h, w2) = hashPassword x password w1;
           ((salt, cipher), w3) = mintAuthmod x email password w2
       in andThen (UsersRepository_insert (new_account email h (if isFirst then RAdmin else RUser) salt cipher) w3)
            (\<lambda>user w4. register_finish x body isFirst user w4))"


section \<open>Verification codes by mail\<close>

record email_limit =
  el_allowed :: bool
  el_minute :: bool
  el_address :: bool
  el_retryInSeconds :: "int option"
  el_dailyLimit :: int

definition throwEmailLimit :: "email_limit \<Rightarrow> error" where
  "throwEmailLimit r = HttpError 429
     (if el_minute r then ''Sending too frequently '' @ EM_DASH @ '' please wait ''
        @ int_str (orDefault (el_retryInSeconds r) 60) @ '' seconds and try again''
      else if el_address r then ''Daily send limit reached ('' @ int_str (el_dailyLimit r) @ ''/day)''
      else ''Daily send limit reached for your account ('' @ int_str (el_dailyLimit r) @ ''/day)'')"

text \<open>The parameters: the code drawn, the answer of the limiter, the error of the delivery.  The
  result tells whether the answer carries bootstrap.\<close>

definition send_code :: "externals \<Rightarrow> string \<Rightarrow> email_limit \<Rightarrow> string option \<Rightarrow> string \<Rightarrow> string \<Rightarrow> 'z world_scheme \<Rightarrow>
    (bool, 'z world_scheme) outcome" where
  "send_code x code limit failed email0 session w =
     (let email = normalizeEmail email0 in
      if \<not> EMAIL_RE email then (Inl (HttpError 400 ''Invalid email format''), w)
      else if session = [] then (Inl (HttpError 400 ''Missing session identifier''), w)
      else if UsersRepository_isEmpty w then (Inr True, w)
      else let (c, w1) = getConfig w in
        if isDisallowedEmail email c then (Inl (rules_error ''address'' c), w1)
        else if \<not> passesWhitelist x email c then (Inl (rules_error ''domain'' c), w1)
        else if UsersRepository_findByEmail email w1 \<noteq> None then (Inr False, w1)
        else let (configured, w2) = isMailConfigured w1 in
          if \<not> configured then (Inl (HttpError 503 ''Mail service is not configured, please contact the admin''), w2)
          else if \<not> el_allowed limit then (Inl (throwEmailLimit limit), w2)
          else let w3 = issueCode email session code w2 in
            (case failed of
               Some msg \<Rightarrow>
                 (Inl (HttpError 502 ''Failed to send verification code, please try again later or contact the admin''),
                  audit LError CAuth (''verification code send failed: '' @ email)
                    (no_opts\<lparr>ai_actor := Some email, ai_detail := Some (JObj [(''error'', JStr msg)])\<rparr>) w3)
             | None \<Rightarrow>
                 (Inr False, audit LInfo CAuth (''verification code sent: '' @ email) (no_opts\<lparr>ai_actor := Some email\<rparr>) w3)))"


section \<open>The Users panel\<close>

definition user_id_error :: error where
  "user_id_error = HttpError 400 ''invalid user id''"

definition actor_email :: "auth_context option \<Rightarrow> 'z db_scheme \<Rightarrow> string option" where
  "actor_email auth d = Option.bind auth (\<lambda>a. map_option us_email (UsersRepository_findById (ax_userId a) d))"

definition user_delete :: "auth_context option \<Rightarrow> int \<Rightarrow> 'z world_scheme \<Rightarrow> (unit, 'z world_scheme) outcome" where
  "user_delete auth i w =
     (case requireAdmin auth of
        Inl e \<Rightarrow> (Inl e, w)
      | Inr a \<Rightarrow>
          if i \<le> 0 then (Inl user_id_error, w)
          else if ax_userId a = i then (Inl (HttpError 400 ''you cannot delete your own account''), w)
          else case UsersRepository_findById i w of
            None \<Rightarrow> (Inl user_error, w)
          | Some t \<Rightarrow>
              if us_role t = RAdmin \<and> UsersRepository_countByRole RAdmin w \<le> 1
              then (Inl (HttpError 400 ''cannot delete the last admin''), w)
              else let w1 = UsersRepository_remove i w;
                       w2 = audit LWarn CAdmin (''user deleted: '' @ us_email t)
                              (no_opts\<lparr>ai_actor := actor_email auth w1, ai_detail := Some (JObj [(''userId'', json_int i),
                                 (''role'', JStr (role_str (us_role t)))])\<rparr>) w1
                   in (Inr (), emitNodesChanged w2))"

text \<open>A PATCH body: the announcement as it came, the role as String() gives it, the numbers of
  groupIds (None for NaN), the node.\<close>

record user_patch_body =
  up_announcement :: "json option"
  up_role :: "string option"
  up_groupIds :: "rat option list option"
  up_nodeId :: "string maybe"

definition patch_announcement :: "auth_context option \<Rightarrow> int \<Rightarrow> json option \<Rightarrow> 'z core_scheme \<Rightarrow> (unit, 'z core_scheme) outcome" where
  "patch_announcement auth i raw w =
     (case raw of
        None \<Rightarrow> (Inr (), w)
      | Some j \<Rightarrow>
         (case (case j of JStr s \<Rightarrow> Some (Some (take 4000 s)) | JNull \<Rightarrow> Some None | _ \<Rightarrow> None) of
            None \<Rightarrow> (Inl (HttpError 400 ''announcement must be a string or null''), w)
          | Some announcement \<Rightarrow>
             (case UsersRepository_findById i w of
                None \<Rightarrow> (Inl user_error, w)
              | Some t \<Rightarrow>
                  let w1 = UsersRepository_updateAnnouncement i announcement w in
                  (Inr (), audit LInfo CAdmin
                     (''announcement '' @ (if announcement \<noteq> None \<and> announcement \<noteq> Some [] then ''set for'' else ''cleared for'')
                        @ '' '' @ us_email t)
                     (no_opts\<lparr>ai_actor := actor_email auth w1, ai_detail := Some (JObj [(''userId'', json_int i)])\<rparr>) w1))))"

definition patch_role :: "int \<Rightarrow> string option \<Rightarrow> 'z core_scheme \<Rightarrow> (unit, 'z core_scheme) outcome" where
  "patch_role i r w =
     (case r of
        None \<Rightarrow> (Inr (), w)
      | Some s \<Rightarrow>
          if s = ''admin'' then setUserRole i RAdmin w
          else if s = ''user'' then setUserRole i RUser w
          else (Inl (HttpError 400 ''role must be admin or user''), w))"

definition valid_group_ids :: "rat option list \<Rightarrow> int list" where
  "valid_group_ids gs = List.map_filter (\<lambda>g. case g of None \<Rightarrow> None
     | Some r \<Rightarrow> if of_int \<lfloor>r\<rfloor> = r \<and> 0 < r then Some \<lfloor>r\<rfloor> else None) gs"

definition patch_node :: "int \<Rightarrow> string maybe \<Rightarrow> 'z world_scheme \<Rightarrow> (unit, 'z world_scheme) outcome" where
  "patch_node i n w =
     (if n = Undefined then (Inr (), w)
      else let nodeId = maybe_opt n in
        if (case nodeId of None \<Rightarrow> False | Some s \<Rightarrow> getNode s w = None)
        then (Inl (HttpError 400 ''node is not currently registered''), w)
        else case UsersRepository_findById i w of
          None \<Rightarrow> (Inl user_error, w)
        | Some u \<Rightarrow>
            (Inr (), emitNodesChanged (audit LInfo CAdmin
               (''node assignment for '' @ us_email u @ '': '' @ orDefault nodeId ''(cleared)'')
               (no_opts\<lparr>ai_detail := Some (JObj [(''userId'', json_int i), (''nodeId'', json_opt JStr nodeId)])\<rparr>)
               (UsersRepository_updateNode i nodeId w))))"

definition user_patch :: "auth_context option \<Rightarrow> int \<Rightarrow> user_patch_body \<Rightarrow> 'z world_scheme \<Rightarrow> (unit, 'z world_scheme) outcome" where
  "user_patch auth i body w =
     (case requireAdmin auth of
        Inl e \<Rightarrow> (Inl e, w)
      | Inr _ \<Rightarrow>
          if i \<le> 0 then (Inl user_id_error, w)
          else andThen (patch_announcement auth i (up_announcement body) w) (\<lambda>_ w1.
               andThen (patch_role i (up_role body) w1) (\<lambda>_ w2.
               andThen (case up_groupIds body of None \<Rightarrow> (Inr (), w2) | Some gs \<Rightarrow> setUserGroups i (valid_group_ids gs) w2) (\<lambda>_ w3.
               patch_node i (up_nodeId body) w3))))"

definition users_index :: "auth_context option \<Rightarrow> 'z db_scheme \<Rightarrow> error + user_view list" where
  "users_index auth d = (case requireAdmin auth of Inl e \<Rightarrow> Inl e | Inr _ \<Rightarrow> Inr (listUsersWithGroups d))"


section \<open>The caller's own account\<close>

definition me_get :: "auth_context option \<Rightarrow> 'z world_scheme \<Rightarrow> (string option \<times> string option \<times> string, 'z world_scheme) outcome" where
  "me_get auth w =
     (case requireSession auth of
        Inl e \<Rightarrow> (Inl e, w)
      | Inr a \<Rightarrow>
          let u = UsersRepository_findById (ax_userId a) w; (c, w1) = getConfig w in
          (Inr (Option.bind u us_dashboardNotice, Option.bind u us_announcement, dash_notice (c_dashboard c)), w1))"

definition me_patch :: "auth_context option \<Rightarrow> json option \<Rightarrow> 'z db_scheme \<Rightarrow> (string option, 'z db_scheme) outcome" where
  "me_patch auth raw d =
     (case requireSession auth of
        Inl e \<Rightarrow> (Inl e, d)
      | Inr a \<Rightarrow>
         (case (case raw of Some (JStr s) \<Rightarrow> Some (Some (take 4000 s)) | Some JNull \<Rightarrow> Some None | _ \<Rightarrow> None) of
            None \<Rightarrow> (Inl (HttpError 400 ''dashboardNotice must be a string or null''), d)
          | Some notice \<Rightarrow> (Inr notice, UsersRepository_updateDashboardNotice (ax_userId a) notice d)))"

definition me_password :: "externals \<Rightarrow> auth_context option \<Rightarrow> string \<Rightarrow> string \<Rightarrow> 'z core_scheme \<Rightarrow> (unit, 'z core_scheme) outcome" where
  "me_password x auth currentCipher newCipher w =
     (case requireSession auth of
        Inl e \<Rightarrow> (Inl e, w)
      | Inr a \<Rightarrow>
         (case UsersRepository_findById (ax_userId a) w of
            None \<Rightarrow> (Inl (HttpError 404 ''account not found''), w)
          | Some u \<Rightarrow>
             (case (x_rsaDecrypt x currentCipher, x_rsaDecrypt x newCipher) of
                (Some currentPlain, Some nextPlain) \<Rightarrow>
                  if \<not> verifyPassword x currentPlain (us_passwordHash u)
                  then (Inl (HttpError 403 ''current password is incorrect''), w)
                  else if length nextPlain < MIN_PASSWORD
                  then (Inl (HttpError 400 ''new password must be at least 6 characters''), w)
                  else if nextPlain = currentPlain
                  then (Inl (HttpError 400 ''new password must differ from the current one''), w)
                  else let ((salt, cipher), w1) = mintAuthmod x (us_email u) nextPlain w;
                           (h, w2) = hashPassword x nextPlain w1
                       in (Inr (), UsersRepository_setAuthmod (us_id u) salt cipher (UsersRepository_updatePassword (us_id u) h w2))
              | _ \<Rightarrow> (Inl (HttpError 400 ''invalid password payload''), w))))"


section \<open>A row of users through the writes of a request\<close>

lemma getConfig_frame [simp, frame]:
  "t_users (snd (getConfig w)) = t_users w" "clock (snd (getConfig w)) = clock w" "nodes (snd (getConfig w)) = nodes w"
  "t_userGroups (snd (getConfig w)) = t_userGroups w" "t_groups (snd (getConfig w)) = t_groups w"
  "t_invites (snd (getConfig w)) = t_invites w" "t_appConfig (snd (getConfig w)) = t_appConfig w"
  by (auto simp: getConfig_def Let_def split: option.splits)

lemma getConfig_cache_ok: "cache_ok w \<Longrightarrow> cache_ok (snd (getConfig w))"
  by (auto simp: getConfig_def cache_ok_def Let_def load_config_ok split: option.splits)

lemma consume_cache_ok: "cache_ok (snd (consumeCode e s c w)) = cache_ok w"
  by (simp add: cache_ok_def)

text \<open>The columns a login depends on.\<close>

definition same_login :: "user_row \<Rightarrow> user_row \<Rightarrow> bool" where
  "same_login u v \<longleftrightarrow> us_id v = us_id u \<and> us_email v = us_email u \<and> us_passwordHash v = us_passwordHash u
     \<and> us_role v = us_role u \<and> us_authmodSalt v = us_authmodSalt u \<and> us_authmodVerifier v = us_authmodVerifier u"

definition login_row :: "user_row \<Rightarrow> 'z db_scheme \<Rightarrow> bool" where
  "login_row u d \<longleftrightarrow> (\<exists>v. same_login u v \<and> UsersRepository_findByEmail (us_email u) d = Some v
     \<and> UsersRepository_findById (us_id u) d = Some v)"

lemma login_row_cong: "t_users d' = t_users d \<Longrightarrow> login_row u d' = login_row u d"
  by (simp add: login_row_def UsersRepository_findByEmail_def UsersRepository_findById_def)

lemma login_row_set:
  assumes "\<And>v. same_login v (f v)" "login_row u d"
  shows "login_row u (users_set i f d)"
proof -
  obtain v where v: "same_login u v" "UsersRepository_findByEmail (us_email u) d = Some v"
    "UsersRepository_findById (us_id u) d = Some v"
    using assms(2) by (auto simp: login_row_def)
  have f: "us_email (if us_id r = i then f r else r) = us_email r" "us_id (if us_id r = i then f r else r) = us_id r" for r
    using assms(1)[of r] by (auto simp: same_login_def)
  have "UsersRepository_findByEmail (us_email u) (users_set i f d) = Some (if us_id v = i then f v else v)"
    "UsersRepository_findById (us_id u) (users_set i f d) = Some (if us_id v = i then f v else v)"
    using v(2,3) by (simp_all add: UsersRepository_findByEmail_def UsersRepository_findById_def users_set_def
        tbl_find_def tbl_update_def find_map_update f)
  moreover have "same_login u (if us_id v = i then f v else v)"
    using v(1) assms(1)[of v] by (auto simp: same_login_def)
  ultimately show ?thesis by (auto simp: login_row_def)
qed

lemma login_row_inserted:
  assumes "tbl_ok us_id (t_users d)" "UsersRepository_insert v d = (Inr u, d')"
  shows "login_row u d' \<and> us_email u = us_email v \<and> us_passwordHash u = us_passwordHash v \<and> us_role u = us_role v
    \<and> us_authmodSalt u = us_authmodSalt v \<and> us_authmodVerifier u = us_authmodVerifier v"
proof -
  let ?v = "v\<lparr>us_createdAt := db_now d\<rparr>"
  have none: "UsersRepository_findByEmail (us_email v) d = None"
    and u: "u = put_user ?v (seq (t_users d))" "t_users d' = snd (tbl_insert (put_user ?v) (t_users d))"
    using assms(2) by (auto simp: UsersRepository_insert_def tbl_insert_def split: if_splits)
  have "UsersRepository_findById (us_id u) d' = Some u"
    using users.find_inserted[OF assms(1), of ?v] u by (simp add: UsersRepository_findById_def put_user_def)
  moreover have "UsersRepository_findByEmail (us_email u) d' = Some u"
    using none u by (simp add: UsersRepository_findByEmail_def tbl_find_def tbl_insert_def find_append put_user_def)
  moreover have "same_login u u" by (simp add: same_login_def)
  ultimately show ?thesis using u by (auto simp: login_row_def put_user_def)
qed

lemma consumeInvite_users: "t_users (snd (consumeInvite code u w)) = t_users w"
  by (auto simp: consumeInvite_def GroupsRepository_addUserToGroup_def InviteLinksRepository_incrementUsed_def
      andThen_def split: option.splits prod.splits sum.splits if_splits)

lemma register_invite_users: "t_users (snd (register_invite i e u w)) = t_users w"
  using consumeInvite_users[of i u w] by (auto simp: register_invite_def split: prod.splits sum.splits)

lemma register_invite_clock: "clock (snd (register_invite i e u w)) = clock w"
  by (auto simp: register_invite_def consumeInvite_def GroupsRepository_addUserToGroup_def
      InviteLinksRepository_incrementUsed_def andThen_def split: option.splits prod.splits sum.splits if_splits)

lemma assign_first_row: "login_row u w \<Longrightarrow> login_row u (snd (assign_first i w))"
  by (auto simp: assign_first_def Let_def UsersRepository_updateNode_def same_login_def intro!: login_row_set)

lemma pop_announcement_row: "login_row u w \<Longrightarrow> login_row u (snd (pop_announcement i e w))"
proof -
  assume row: "login_row u w"
  then have 1: "login_row u (snd (getConfig w))" by (rule iffD2[OF login_row_cong, rotated]) simp
  then have 2: "login_row u (UsersRepository_updateAnnouncement i a (snd (getConfig w)))" for a
    unfolding UsersRepository_updateAnnouncement_def by (intro login_row_set) (simp_all add: same_login_def)
  have 3: "login_row u (audit l c m v (invalidateConfig (AppConfigRepository_upsert t w'))) = login_row u w'" for l c m v t
    and w' :: "'a world_scheme"
    by (rule login_row_cong) (simp add: invalidateConfig_def AppConfigRepository_upsert_def AppConfigRepository_upsertKey_def)
  show ?thesis
    using 1 2 by (auto simp: pop_announcement_def Let_def case_prod_unfold 3 split: list.split option.split)
qed


section \<open>Registration is total behind its checks\<close>

lemma checks_frame:
  "t_users (snd (register_checks x b w)) = t_users w" "cache_ok w \<Longrightarrow> cache_ok (snd (register_checks x b w))"
  by (auto simp: register_checks_def Let_def case_prod_unfold getConfig_cache_ok consume_cache_ok split: option.splits)

lemma checks_Inr:
  assumes "register_checks x b w = (Inr p, w1)"
  shows "x_rsaDecrypt x (rb_password b) = Some p \<and> EMAIL_RE (normalizeEmail (rb_email b))
    \<and> UsersRepository_findByEmail (normalizeEmail (rb_email b)) w1 = None"
proof -
  have "t_users w1 = t_users w" using checks_frame(1)[of x b w] assms by simp
  then show ?thesis
    using assms by (auto simp: register_checks_def Let_def case_prod_unfold UsersRepository_findByEmail_def
        split: option.splits if_splits)
qed

lemma pop_total:
  assumes "cache_ok w" shows "\<exists>w'. pop_announcement i e w = (Inr (), w')"
proof -
  have "config_ok (config_of w\<lparr>c_dashboard := d\<rparr>)" for d
    using getConfig_ok[OF assms] by (simp add: config_ok_def)
  from config_roundtrip[OF this] show ?thesis
    by (auto simp: pop_announcement_def Let_def case_prod_unfold split: list.split)
qed

lemma mint_frame [simp]:
  "t_users (snd (mintAuthmod x e p w)) = t_users w" "clock (snd (mintAuthmod x e p w)) = clock w"
  "core.more (snd (mintAuthmod x e p w)) = core.more w"
  by (simp_all add: mintAuthmod_def generateSalt_def encrypt_def case_prod_unfold Let_def)

lemma hash_frame [simp]:
  "t_users (snd (hashPassword x p w)) = t_users w" "clock (snd (hashPassword x p w)) = clock w"
  "core.more (snd (hashPassword x p w)) = core.more w"
  by (simp_all add: hashPassword_def case_prod_unfold Let_def)

lemma cache_ok_cong: "core.more w' = core.more w \<Longrightarrow> cache_ok w' = cache_ok (w :: 'a world_scheme)"
  by (cases w; cases w') (simp add: cache_ok_def)

lemma register_done_frame:
  "t_users (snd (register_done x e first u node joined w)) = t_users w"
  "av_id (fst (fst (register_done x e first u node joined w))) = us_id u"
  "av_role (fst (fst (register_done x e first u node joined w))) = us_role u"
  by (simp_all add: register_done_def Let_def case_prod_unfold account_of_def)

lemma finish_Inr:
  assumes "register_finish x b first u w = (Inr (v, ck), w')" "login_row u w"
  shows "login_row u w' \<and> av_id v = us_id u \<and> av_role v = us_role u"
proof -
  let ?p = "pop_announcement (us_id u) (normalizeEmail (rb_email b)) (snd (assign_first (us_id u) w))"
  obtain w2 where w2: "?p = (Inr (), w2)"
    using assms(1) by (cases ?p; cases "fst ?p") (auto simp: register_finish_def Let_def case_prod_unfold)
  define ri where "ri = register_invite (js_trim (rb_invite b)) (normalizeEmail (rb_email b)) (us_id u) w2"
  define R where "R = register_done x (normalizeEmail (rb_email b)) first u (fst (assign_first (us_id u) w)) (fst ri) (snd ri)"
  have "register_finish x b first u w = (Inr (fst R), snd R)"
    using w2 by (simp add: register_finish_def Let_def case_prod_unfold ri_def R_def)
  then have R: "fst R = (v, ck)" "snd R = w'" using assms(1) by simp_all
  have "t_users (snd ri) = t_users w2" by (simp add: ri_def register_invite_users)
  with R have w': "t_users w' = t_users w2" and v: "av_id v = us_id u" "av_role v = us_role u"
    using register_done_frame[of x "normalizeEmail (rb_email b)" first u "fst (assign_first (us_id u) w)" "fst ri" "snd ri"]
    by (simp_all add: R_def)
  from pop_announcement_row[OF assign_first_row[OF assms(2), of "us_id u"], where i = "us_id u" and e = "normalizeEmail (rb_email b)"] w2
  have "login_row u w2" by simp
  then have "login_row u w'" by (rule iffD2[OF login_row_cong[OF w']])
  with v show ?thesis by simp
qed

lemma register_Inr:
  fixes w :: "'a world_scheme"
  assumes "register_account x b w = (Inr (v, ck), w')" "tbl_ok us_id (t_users w)"
  shows "\<exists>u p (w2 :: 'a world_scheme). login_row u w' \<and> av_id v = us_id u \<and> av_role v = us_role u
    \<and> us_role u = (if UsersRepository_isEmpty w then RAdmin else RUser)
    \<and> us_email u = normalizeEmail (rb_email b) \<and> normalizeEmail (rb_email b) \<noteq> []
    \<and> x_rsaDecrypt x (rb_password b) = Some p \<and> us_passwordHash u = fst (hashPassword x p w2)
    \<and> us_authmodVerifier u \<noteq> None \<and> us_authmodVerifier u \<noteq> Some []"
proof -
  let ?e = "normalizeEmail (rb_email b)"
  obtain p w1 where c: "register_checks x b w = (Inr p, w1)"
    and r: "andThen (UsersRepository_insert (new_account ?e (fst (hashPassword x p w1))
         (if UsersRepository_isEmpty w1 then RAdmin else RUser) (fst (fst (mintAuthmod x ?e p (snd (hashPassword x p w1)))))
         (snd (fst (mintAuthmod x ?e p (snd (hashPassword x p w1)))))) (snd (mintAuthmod x ?e p (snd (hashPassword x p w1)))))
       (\<lambda>user w4. register_finish x b (UsersRepository_isEmpty w1) user w4) = (Inr (v, ck), w')"
    using assms(1) by (auto simp: register_account_def Let_def case_prod_unfold andThen_eq_Inr[of "register_checks x b w"])
  then obtain u w4 where i: "UsersRepository_insert (new_account ?e (fst (hashPassword x p w1))
         (if UsersRepository_isEmpty w1 then RAdmin else RUser) (fst (fst (mintAuthmod x ?e p (snd (hashPassword x p w1)))))
         (snd (fst (mintAuthmod x ?e p (snd (hashPassword x p w1)))))) (snd (mintAuthmod x ?e p (snd (hashPassword x p w1)))) = (Inr u, w4)"
    and f: "register_finish x b (UsersRepository_isEmpty w1) u w4 = (Inr (v, ck), w')"
    by (auto simp: andThen_eq_Inr)
  have t: "t_users w1 = t_users w" using checks_frame(1)[of x b w] c by simp
  have "tbl_ok us_id (t_users (snd (mintAuthmod x ?e p (snd (hashPassword x p w1)))))" using assms(2) t by simp
  note row = login_row_inserted[OF this i]
  have "UsersRepository_isEmpty w1 = UsersRepository_isEmpty w"
    using t by (simp add: UsersRepository_isEmpty_def UsersRepository_count_def)
  moreover have "snd (fst (mintAuthmod x ?e p (snd (hashPassword x p w1)))) \<noteq> []"
    using mint_nonempty[of x ?e p "snd (hashPassword x p w1)"] by (metis prod.collapse)
  moreover have "?e \<noteq> []" using checks_Inr[OF c] by (auto simp: EMAIL_RE_def)
  ultimately show ?thesis
    using checks_Inr[OF c] row finish_Inr[OF f] by (intro exI[of _ u] exI[of _ p] exI[of _ w1]) (simp add: new_account_def user_values_def)
qed

text \<open>C17 Registering and logging in fit together: after a successful registration the account
  exists under the normalised e-mail, an administrator exactly when it is the first account of
  all; the same password, encrypted again in any way and with the e-mail in any case or
  padding, logs in to that account with that role, and the cookie of that login
  authenticates requests as that account.\<close>

theorem register_then_login:
  fixes w :: "'a world_scheme"
  assumes "jwt_laws x" "integrity w" "register_account x b w = (Inr (v, ck), w')"
    and "normalizeEmail email = normalizeEmail (rb_email b)" "cipher \<noteq> []"
    and "x_rsaDecrypt x cipher = x_rsaDecrypt x (rb_password b)"
  shows "\<exists>v' ck' w''. login x email cipher w' = (Inr (v', ck'), w'') \<and> av_id v' = av_id v \<and> av_role v' = av_role v
    \<and> av_email v' = normalizeEmail (rb_email b)
    \<and> av_role v = (if UsersRepository_isEmpty w then RAdmin else RUser)
    \<and> context_auth x (Some (ck_value ck')) w'' = Some \<lparr>ax_userId = av_id v, ax_role = av_role v\<rparr>"
proof -
  have "tbl_ok us_id (t_users w)" using assms(2) by (simp add: integrity_def ids_ok_def)
  from register_Inr[OF assms(3) this] obtain u p and w2 :: "'a world_scheme" where u: "login_row u w'" "av_id v = us_id u" "av_role v = us_role u"
    "us_role u = (if UsersRepository_isEmpty w then RAdmin else RUser)" "us_email u = normalizeEmail (rb_email b)"
    "normalizeEmail (rb_email b) \<noteq> []" "x_rsaDecrypt x (rb_password b) = Some p"
    "us_passwordHash u = fst (hashPassword x p w2)" "us_authmodVerifier u \<noteq> None" "us_authmodVerifier u \<noteq> Some []" by blast
  then obtain v2 where v2: "same_login u v2" "UsersRepository_findByEmail (us_email u) w' = Some v2"
    "UsersRepository_findById (us_id u) w' = Some v2" by (auto simp: login_row_def)
  then have up: "login_upgrade x p v2 w' = w'"
    using u by (auto simp: login_upgrade_def same_login_def)
  define wa where "wa = audit LInfo CAuth (''login: '' @ us_email u)
      (no_opts\<lparr>ai_actor := Some (us_email u), ai_detail := Some (JObj [(''userId'', json_int (us_id v2))])\<rparr>) w'"
  let ?w'' = "snd (getConfig wa)"
  have t: "t_users ?w'' = t_users w'" "clock ?w'' = clock w'" by (simp_all add: wa_def)
  have l: "login x email cipher w' = (Inr (account_of v2 (loginNotice (c_dashboard (config_of wa))),
      createSessionCookie x (us_id v2) (us_role v2) w'), ?w'')"
    using assms(4-6) u v2 verify_hashPassword[of x p p w2]
    by (simp add: login_def Let_def case_prod_unfold same_login_def up wa_def)
  have "readSessionCookie x (Some (ck_value (createSessionCookie x (us_id v2) (us_role v2) w'))) ?w''
      = Some \<lparr>sp_uid = of_int (us_id v2), sp_role = us_role v2, sp_exp = of_int (now_sec w' + MAX_AGE_SEC)\<rparr>"
    by (rule read_own_cookie[OF assms(1)]) (simp add: now_sec_def wa_def MAX_AGE_SEC_def)
  moreover have "UsersRepository_findById (us_id v2) ?w'' = Some v2"
    using v2 by (simp add: UsersRepository_findById_def wa_def same_login_def)
  ultimately have "context_auth x (Some (ck_value (createSessionCookie x (us_id v2) (us_role v2) w'))) ?w''
      = Some \<lparr>ax_userId = us_id v2, ax_role = us_role v2\<rparr>"
    by (simp add: context_auth_def)
  then show ?thesis using l u v2 by (simp add: account_of_def same_login_def)
qed

lemma register_total:
  assumes "cache_ok w" "register_checks x b w = (Inr p, w1)"
  shows "\<not> isl (fst (register_account x b w))"
proof -
  let ?e = "normalizeEmail (rb_email b)" and ?w2 = "snd (hashPassword x p w1)"
  define w3 where "w3 = snd (mintAuthmod x ?e p ?w2)"
  define row where "row = new_account ?e (fst (hashPassword x p w1)) (if UsersRepository_isEmpty w1 then RAdmin else RUser)
      (fst (fst (mintAuthmod x ?e p ?w2))) (snd (fst (mintAuthmod x ?e p ?w2)))"
  have "UsersRepository_findByEmail ?e w3 = None"
    using checks_Inr[OF assms(2)] by (simp add: UsersRepository_findByEmail_def w3_def)
  then obtain u w4 where i: "UsersRepository_insert row w3 = (Inr u, w4)" "core.more w4 = core.more w3"
    by (auto simp: UsersRepository_insert_def row_def new_account_def user_values_def tbl_insert_def)
  have "cache_ok w1" using checks_frame(2)[OF assms(1), of x b] assms(2) by simp
  then have "cache_ok w4" using cache_ok_cong[of w4 w3] cache_ok_cong[of w3 w1] i(2) by (simp add: w3_def)
  then have "cache_ok (snd (assign_first (us_id u) w4))"
    using cache_ok_cong[of "snd (assign_first (us_id u) w4)" w4]
    by (simp add: assign_first_def Let_def UsersRepository_updateNode_def users_set_def)
  then obtain wp where "pop_announcement (us_id u) ?e (snd (assign_first (us_id u) w4)) = (Inr (), wp)"
    using pop_total by blast
  then have "\<not> isl (fst (register_finish x b first u w4))" for first
    by (simp add: register_finish_def Let_def case_prod_unfold)
  then show ?thesis
    using i(1) by (simp add: register_account_def assms(2) Let_def case_prod_unfold row_def w3_def)
qed

text \<open>A registration that is refused leaves no trace of an account: with a sane cached
  configuration the handler fails only in its checks, with 400, 403 or 409, before
  anything is written: the users, their groups, the announcement pool and the audit log
  are as they were (at most the submitted code has been used up).\<close>

theorem register_refused:
  assumes "cache_ok w" "register_account x b w = (Inl e, w')"
  shows "register_checks x b w = (Inl e, w') \<and> t_users w' = t_users w \<and> t_userGroups w' = t_userGroups w
    \<and> t_appConfig w' = t_appConfig w \<and> t_audit w' = t_audit w
    \<and> (\<exists>c m. e = HttpError c m \<and> c \<in> {400, 403, 409})"
proof (cases "fst (register_checks x b w)")
  case (Inl e')
  then obtain w1 where c: "register_checks x b w = (Inl e', w1)" by (metis prod.collapse)
  then have "register_account x b w = (Inl e', w1)" by (simp add: register_account_def)
  with assms(2) c have c': "register_checks x b w = (Inl e, w')" by simp
  have "t_audit (snd (getConfig w)) = t_audit w" by (auto simp: getConfig_def Let_def split: option.splits)
  with c' show ?thesis
    by (auto simp: register_checks_def Let_def case_prod_unfold rules_error_def consumeCode_def split: option.splits if_splits)
next
  case (Inr p)
  then obtain w1 where "register_checks x b w = (Inr p, w1)" by (metis prod.collapse)
  from register_total[OF assms(1) this] assms(2) show ?thesis by simp
qed


section \<open>The Users panel and the password\<close>

lemma emitNodesChanged_frame [simp]: "t_users (emitNodesChanged w) = t_users w"
  by (simp add: emitNodesChanged_def)

text \<open>C18 Deleting accounts cannot lock the administrators out: a successful deletion is made by
  an administrator on somebody else, removes exactly that row with its memberships, its
  latency samples and its authorship of invites, and leaves at least one administrator whenever
  there was one; a refused one changes nothing.\<close>

theorem user_delete_keeps_admin:
  assumes "user_delete auth i w = (r, w')"
  shows "(case r of Inl e \<Rightarrow> w' = w
     | Inr _ \<Rightarrow> (\<exists>a. auth = Some a \<and> ax_role a = RAdmin \<and> ax_userId a \<noteq> i)
         \<and> UsersRepository_findById i w \<noteq> None
         \<and> rows (t_users w') = filter (\<lambda>u. us_id u \<noteq> i) (rows (t_users w))
         \<and> list_all (\<lambda>m. ug_userId m \<noteq> i) (t_userGroups w')
         \<and> list_all (\<lambda>l. nl_userId l \<noteq> i) (rows (t_nodeLatencies w'))
         \<and> list_all (\<lambda>v. iv_createdBy v \<noteq> Some i) (rows (t_invites w'))
         \<and> (integrity w \<and> (\<exists>u\<in>set (rows (t_users w)). us_role u = RAdmin)
              \<longrightarrow> (\<exists>u\<in>set (rows (t_users w')). us_role u = RAdmin)))"
proof (cases r)
  case (Inl e)
  with assms show ?thesis by (auto simp: user_delete_def Let_def requireAdmin_def split: sum.splits option.splits if_splits)
next
  case (Inr x)
  then obtain a t where a: "auth = Some a" "ax_role a = RAdmin" "ax_userId a \<noteq> i" "UsersRepository_findById i w = Some t"
    "us_role t = RAdmin \<Longrightarrow> 1 < UsersRepository_countByRole RAdmin w"
    and w': "t_users w' = t_users (UsersRepository_remove i w)" "t_userGroups w' = t_userGroups (UsersRepository_remove i w)"
      "t_nodeLatencies w' = t_nodeLatencies (UsersRepository_remove i w)" "t_invites w' = t_invites (UsersRepository_remove i w)"
    using assms by (auto simp: user_delete_def Let_def requireAdmin_def emitNodesChanged_def not_le
        split: sum.splits option.splits if_splits)
  have rows: "rows (t_users w') = filter (\<lambda>u. us_id u \<noteq> i) (rows (t_users w))"
    by (simp add: w' UsersRepository_remove_def tbl_delete_def)
  have "\<exists>u\<in>set (rows (t_users w')). us_role u = RAdmin"
    if "integrity w" and b: "b \<in> set (rows (t_users w))" "us_role b = RAdmin" for b
  proof (rule ccontr)
    assume "\<not> ?thesis"
    then have only: "us_id u = i" if "u \<in> set (rows (t_users w))" "us_role u = RAdmin" for u
      using that rows by auto
    have ok: "tbl_ok us_id (t_users w)" using \<open>integrity w\<close> by (simp add: integrity_def ids_ok_def)
    then have "distinct (map us_id (rows (t_users w)))" by (auto simp: tbl_ok_def strict_sorted_iff)
    then have d: "distinct (filter (\<lambda>u. us_role u = RAdmin) (rows (t_users w)))" by (simp add: distinct_map)
    have "set (filter (\<lambda>u. us_role u = RAdmin) (rows (t_users w))) \<subseteq> {b}"
      using only users.key_inj[OF ok] b by auto
    then have "length (filter (\<lambda>u. us_role u = RAdmin) (rows (t_users w))) \<le> 1"
      using card_mono[of "{b}" "set (filter (\<lambda>u. us_role u = RAdmin) (rows (t_users w)))"]
        distinct_card[OF d] by (simp del: set_filter)
    then have "UsersRepository_countByRole RAdmin w \<le> 1"
      by (simp add: UsersRepository_countByRole_def tbl_select_def)
    moreover have "t = b"
      using users.key_inj[OF ok, of t b] tbl_find_Some[OF a(4)[unfolded UsersRepository_findById_def]] b only by auto
    ultimately show False using a(5) b by simp
  qed
  then show ?thesis
    using Inr a rows
    by (auto simp: w' UsersRepository_remove_def tbl_delete_def tbl_update_def list_all_iff)
qed

text \<open>A changed password is in force everywhere at once: when me_password succeeds, the caller had
  proved the current password, the new one differs from it and has six characters or more, login
  verifies exactly what argon2id cannot tell from the new one, the RTMP gateway accepts
  exactly the response librtmp computes from the new password and the new salt, and no other
  account is touched.\<close>

theorem password_change:
  assumes "gcm_laws x" "\<And>s. x_md5 x s \<noteq> []" "integrity w" "me_password x auth cur new w = (Inr (), w')"
  shows "\<exists>a u u' p q salt argonSalt. auth = Some a \<and> UsersRepository_findById (ax_userId a) w = Some u
    \<and> x_rsaDecrypt x cur = Some p \<and> verifyPassword x p (us_passwordHash u)
    \<and> x_rsaDecrypt x new = Some q \<and> q \<noteq> p \<and> 6 \<le> length q
    \<and> UsersRepository_findById (ax_userId a) w' = Some u' \<and> us_authmodSalt u' = Some salt
    \<and> (\<forall>s. verifyPassword x s (us_passwordHash u') \<longleftrightarrow> x_argon2id x s argonSalt = x_argon2id x q argonSalt)
    \<and> (\<exists>v cipher. us_authmodVerifier u' = Some cipher \<and> verifierFromCipher x cipher = Inr v
         \<and> (\<forall>opq ch resp. verifyResponse x v opq ch resp \<longleftrightarrow> resp = librtmp_response x (us_email u) salt q opq ch))
    \<and> rows (t_users w') = map (\<lambda>r. if us_id r = us_id u then u' else r) (rows (t_users w))"
proof -
  obtain a u p q where a: "auth = Some a" "UsersRepository_findById (ax_userId a) w = Some u"
    "x_rsaDecrypt x cur = Some p" "verifyPassword x p (us_passwordHash u)" "x_rsaDecrypt x new = Some q" "q \<noteq> p" "6 \<le> length q"
    using assms(4) by (auto simp: me_password_def requireSession_def MIN_PASSWORD_def Let_def
        split: sum.splits option.splits if_splits)
  obtain salt cipher w1 where m: "mintAuthmod x (us_email u) q w = ((salt, cipher), w1)" by (metis prod.collapse)
  define h where "h = fst (hashPassword x q w1)"
  define w2 where "w2 = snd (hashPassword x q w1)"
  have w': "w' = UsersRepository_setAuthmod (us_id u) salt cipher (UsersRepository_updatePassword (us_id u) h w2)"
    using assms(4) a m by (simp add: me_password_def requireSession_def MIN_PASSWORD_def case_prod_unfold Let_def h_def w2_def)
  have t: "t_users w2 = t_users w" using mint_frame(1)[of x "us_email u" q w] m by (simp add: w2_def)
  define f :: "user_row \<Rightarrow> user_row" where "f = (\<lambda>r. r\<lparr>us_passwordHash := h, us_authmodSalt := Some salt, us_authmodVerifier := Some cipher\<rparr>)"
  have rows': "rows (t_users w') = map (\<lambda>r. if us_id r = us_id u then f r else r) (rows (t_users w))"
    by (simp add: w' UsersRepository_setAuthmod_def UsersRepository_updatePassword_def users_set_def tbl_update_def t f_def)
  have ok: "tbl_ok us_id (t_users w)" using assms(3) by (simp add: integrity_def ids_ok_def)
  have u: "u \<in> set (rows (t_users w))" "us_id u = ax_userId a"
    using tbl_find_Some[OF a(2)[unfolded UsersRepository_findById_def]] by auto
  have one: "rows (t_users w') = map (\<lambda>r. if us_id r = us_id u then f u else r) (rows (t_users w))"
    unfolding rows' by (rule map_cong[OF refl]) (use users.key_inj[OF ok _ u(1)] in auto)
  have "UsersRepository_findById (ax_userId a) w' = Some (f u)"
  proof -
    have "us_id (if us_id r = us_id u then f r else r) = us_id r" for r by (simp add: f_def)
    then show ?thesis
      using a(2) u(2) by (simp add: UsersRepository_findById_def tbl_find_def rows' find_map_update)
  qed
  moreover obtain v where "verifierFromCipher x cipher = Inr v"
    "\<forall>opq ch resp. verifyResponse x v opq ch resp \<longleftrightarrow> resp = librtmp_response x (us_email u) salt q opq ch"
    using authmod_complete[OF assms(1,2) m] by blast
  moreover have "verifyPassword x s h \<longleftrightarrow> x_argon2id x s (fst (randomBytes 16 w1)) = x_argon2id x q (fst (randomBytes 16 w1))" for s
    by (simp add: h_def verify_hashPassword)
  ultimately show ?thesis
    using a one by (intro exI[of _ a] exI[of _ u] exI[of _ "f u"] exI[of _ p] exI[of _ q] exI[of _ salt]
        exI[of _ "fst (randomBytes 16 w1)"]) (auto simp: f_def)
qed


section \<open>Concrete runs\<close>

definition ann_body :: register_body where
  "ann_body = \<lparr>rb_email = '' Ann@x.org '', rb_password = ''secret1'', rb_code = [], rb_session = [], rb_invite = []\<rparr>"

lemma start_integrity: "integrity world_start"
  by (simp add: schema_decls event_ban_keys_def tbl_ok_def tbl_empty_def has_def has_opt_def)

lemma start_cache: "cache_ok world_start"
  by (simp add: cache_ok_def)

lemma demo_jwt_gcm: "gcm_laws demo_jwt" "x_md5 demo_jwt s \<noteq> []"
  using demo_gcm_laws by (simp_all add: demo_jwt_def gcm_laws_def demo_md5)

theorem register_then_login_witness:
  "\<exists>v ck w' v' ck' w''. register_account demo_jwt ann_body world_start = (Inr (v, ck), w')
     \<and> login demo_jwt ''ann@X.org'' ''secret1'' w' = (Inr (v', ck'), w'')
     \<and> context_auth demo_jwt (Some (ck_value ck')) w'' = Some \<lparr>ax_userId = av_id v, ax_role = RAdmin\<rparr>"
proof -
  have "\<not> isl (fst (register_checks demo_jwt ann_body world_start))" by code_simp
  then obtain p w1 where "register_checks demo_jwt ann_body world_start = (Inr p, w1)" by (metis outcome_ok)
  from outcome_ok[OF register_total[OF start_cache this]] obtain v ck w' where
    r: "register_account demo_jwt ann_body world_start = (Inr (v, ck), w')" by (metis surj_pair)
  have n: "normalizeEmail ''ann@X.org'' = normalizeEmail (rb_email ann_body)" by code_simp
  have "UsersRepository_isEmpty world_start" by (simp add: UsersRepository_isEmpty_def UsersRepository_count_def)
  with register_then_login[OF demo_jwt_laws start_integrity r n, of "''secret1''"] r
  show ?thesis by (auto simp: ann_body_def)
qed

theorem register_refused_witness:
  "t_users (snd (register_account demo_jwt (ann_body\<lparr>rb_password := ''short''\<rparr>) world_start)) = tbl_empty"
proof -
  let ?r = "register_account demo_jwt (ann_body\<lparr>rb_password := ''short''\<rparr>) world_start"
  have "isl (fst (register_checks demo_jwt (ann_body\<lparr>rb_password := ''short''\<rparr>) world_start))" by code_simp
  then have "isl (fst ?r)"
    by (cases "register_checks demo_jwt (ann_body\<lparr>rb_password := ''short''\<rparr>) world_start")
       (auto simp: register_account_def isl_def)
  then obtain e where "?r = (Inl e, snd ?r)" by (metis isl_def prod.collapse)
  from register_refused[OF start_cache this] show ?thesis by simp
qed

definition office :: world where
  "office = world_start\<lparr>t_users := \<lparr>rows =
     [(user_values ''ann@x.org'' (fst (hashPassword demo_externals ''secret1'' demo_core)))\<lparr>us_id := 1, us_role := RAdmin\<rparr>,
      (user_values ''bob@x.org'' [])\<lparr>us_id := 2, us_role := RAdmin\<rparr>], seq = 3\<rparr>\<rparr>"

lemma office_integrity: "integrity office"
  by (simp add: office_def schema_decls event_ban_keys_def tbl_ok_def tbl_empty_def has_def has_opt_def user_values_def)

theorem user_delete_keeps_admin_witness:
  "\<exists>u\<in>set (rows (t_users (snd (user_delete (Some \<lparr>ax_userId = 1, ax_role = RAdmin\<rparr>) 2 office)))). us_role u = RAdmin"
proof -
  let ?r = "user_delete (Some \<lparr>ax_userId = 1, ax_role = RAdmin\<rparr>) 2 office"
  have "\<not> isl (fst ?r)" by code_simp
  then have r: "?r = (Inr (), snd ?r)" by (metis outcome_ok unit_eq)
  have "\<exists>u\<in>set (rows (t_users office)). us_role u = RAdmin" by (simp add: office_def)
  moreover from user_delete_keeps_admin[OF r] have "integrity office \<and> (\<exists>u\<in>set (rows (t_users office)). us_role u = RAdmin)
      \<longrightarrow> (\<exists>u\<in>set (rows (t_users (snd ?r))). us_role u = RAdmin)" unfolding sum.case by (elim conjE)
  ultimately show ?thesis using office_integrity by blast
qed

theorem password_change_witness:
  "\<exists>w' u. me_password demo_externals (Some \<lparr>ax_userId = 1, ax_role = RAdmin\<rparr>) ''secret1'' ''secret2'' office = (Inr (), w')
     \<and> UsersRepository_findById 1 w' = Some u \<and> verifyPassword demo_externals ''secret2'' (us_passwordHash u)"
proof -
  let ?r = "me_password demo_externals (Some \<lparr>ax_userId = 1, ax_role = RAdmin\<rparr>) ''secret1'' ''secret2'' office"
  have x: "x_rsaDecrypt demo_externals s = Some s" for s by (simp add: demo_externals_def)
  obtain u where u: "UsersRepository_findById 1 office = Some u"
    "us_passwordHash u = fst (hashPassword demo_externals ''secret1'' demo_core)"
    by (simp add: office_def UsersRepository_findById_def tbl_find_def user_values_def)
  then have "verifyPassword demo_externals ''secret1'' (us_passwordHash u)" by (simp add: verify_hashPassword)
  with u have "\<not> isl (fst ?r)"
    by (simp add: me_password_def requireSession_def x MIN_PASSWORD_def Let_def case_prod_unfold)
  then have r: "?r = (Inr (), snd ?r)" by (metis outcome_ok unit_eq)
  from password_change[OF demo_gcm_laws demo_md5 office_integrity r] obtain u' where
    "UsersRepository_findById 1 (snd ?r) = Some u'" "verifyPassword demo_externals ''secret2'' (us_passwordHash u')"
    by (auto simp: x)
  with r show ?thesis by (intro exI[of _ "snd ?r"] exI[of _ u'] conjI)
qed

end
