(* ===== verification/Mail.thy ===== *)
theory Mail
  imports Accounts SrsClient
begin

text \<open>
  services/mail.ts and the endpoints under api/mail: what is handed to the transport for a message,
  and the administrators' mail settings.  nodemailer and email-poster are outside: a plan holds what
  they are called with, and deliver is the outcome of the call, the message id or an error's text.
  JSON.parse and JSON.stringify of the two columns that hold JSON text are parameters, and so are
  the answers of the e-mail rate limiter.
\<close>

section \<open>Sending\<close>

record send_mail_input =
  sm_to :: string
  sm_subject :: string
  sm_body :: string
  sm_html :: bool

definition fromAddress :: "mail_config \<Rightarrow> string" where
  "fromAddress c = (let display = js_trim (ml_senderDisplay c) in
     if ml_usePassword c then
       (if display \<noteq> [] \<and> display \<noteq> ml_senderEmail c then display @ '' <'' @ ml_senderEmail c @ ''>'' else ml_senderEmail c)
     else if display \<noteq> [] then display else ml_senderEmail c)"

definition mail_validate :: "mail_config \<Rightarrow> send_mail_input \<Rightarrow> error option" where
  "mail_validate c m =
     (if \<not> EMAIL_RE (sm_to m) then Some (JsError ''Invalid recipient email format'')
      else if ml_maxLenRecipientEmail c < int (length (sm_to m))
      then Some (JsError (''Recipient email too long (max '' @ int_str (ml_maxLenRecipientEmail c) @ '')''))
      else if ml_maxLenSubject c < int (length (sm_subject m))
      then Some (JsError (''Subject too long (max '' @ int_str (ml_maxLenSubject c) @ '')''))
      else None)"

datatype field_map = Fields json | CustomExample | SmtogoPreset

definition resolveFieldMapFromConfig :: "(string \<Rightarrow> json option) \<Rightarrow> mail_config \<Rightarrow> field_map" where
  "resolveFieldMapFromConfig parse c =
     (let legacy = (if ml_postSchema c = Powerautomate then CustomExample else SmtogoPreset);
          raw = js_trim (ml_postFieldMap c)
      in if raw = [] then legacy else case parse raw of Some j \<Rightarrow> Fields j | None \<Rightarrow> legacy)"

text \<open>Host, port, secure, requireTLS, login, sender, message id and message; or URL, field map, sender,
  bearer token and message.\<close>

datatype send_plan =
    SmtpPlan string int bool bool "(string \<times> string) option" (pl_from: string) "string option" (pl_message: send_mail_input)
  | PostPlan string field_map (pl_from: string) "string option" (pl_message: send_mail_input)

definition sendViaPost ::
    "(string \<Rightarrow> json option) \<Rightarrow> (send_plan \<Rightarrow> string + string) \<Rightarrow> mail_config \<Rightarrow> send_mail_input \<Rightarrow> error + string" where
  "sendViaPost parse deliver c m =
     (if ml_postUrl c = [] then Inl (JsError ''Webhook URL not configured'')
      else case mail_validate c m of
        Some e \<Rightarrow> Inl e
      | None \<Rightarrow>
          (case deliver (PostPlan (ml_postUrl c) (resolveFieldMapFromConfig parse c) (fromAddress c)
                  (if ml_postAuthToken c = [] then None else Some (ml_postAuthToken c)) m) of
             Inl msg \<Rightarrow> Inl (JsError msg) | Inr i \<Rightarrow> Inr i))"

definition sendMailWithConfig :: "(string \<Rightarrow> json option) \<Rightarrow> (send_plan \<Rightarrow> string + string) \<Rightarrow> mail_config \<Rightarrow> send_mail_input \<Rightarrow>
    'z core_scheme \<Rightarrow> (string, 'z core_scheme) outcome" where
  "sendMailWithConfig parse deliver c m w =
     (if ml_provider c = Post then (sendViaPost parse deliver c m, w)
      else if ml_host c = [] then (Inl (JsError ''SMTP server not configured''), w)
      else case mail_validate c m of
        Some e \<Rightarrow> (Inl e, w)
      | None \<Rightarrow>
          let (i, w1) = (if ml_senderDomain c = [] then (None, w)
                else let (b, w1) = randomBytes 12 w in (Some (''<'' @ to_hex b @ ''@'' @ ml_senderDomain c @ ''>''), w1))
          in (case deliver (SmtpPlan (ml_host c) (ml_port c) (ml_useSsl c) (ml_useTls c)
                  (if ml_usePassword c then Some (ml_senderEmail c, ml_senderPassword c) else None) (fromAddress c) i m) of
                Inl msg \<Rightarrow> (Inl (JsError msg), w1) | Inr r \<Rightarrow> (Inr r, w1)))"


section \<open>The settings\<close>

definition mail_config_get :: "auth_context option \<Rightarrow> 'z world_scheme \<Rightarrow> (mail_client, 'z world_scheme) outcome" where
  "mail_config_get auth w = (case requireAdmin auth of
     Inl e \<Rightarrow> (Inl e, w)
   | Inr _ \<Rightarrow> let (c, w1) = getMailConfig w in (Inr (mailConfigToClient c), w1))"

definition body_fields :: "json \<Rightarrow> (string, json) jsmap" where
  "body_fields j = (case j of JObj fs \<Rightarrow> fs | _ \<Rightarrow> [])"

definition mail_config_put :: "auth_context option \<Rightarrow> json \<Rightarrow> 'z world_scheme \<Rightarrow> (mail_client, 'z world_scheme) outcome" where
  "mail_config_put auth body w = (case requireAdmin auth of
     Inl e \<Rightarrow> (Inl e, w)
   | Inr _ \<Rightarrow> andThen (saveMailConfig (body_fields body) w) (\<lambda>nxt w1.
       (Inr (mailConfigToClient nxt), audit LInfo CConfig ''mail config updated''
          (no_opts\<lparr>ai_detail := Some (JObj [(''provider'', provider_json (ml_provider nxt)),
             (''hasPassword'', JBool (0 < length (ml_senderPassword nxt))),
             (''hasPostAuthToken'', JBool (0 < length (ml_postAuthToken nxt)))])\<rparr>) w1)))"

text \<open>A library entry: the id, the name and the fields, each a string; fields may be left out.\<close>

definition postSchemaEntry :: "json \<Rightarrow> json option" where
  "postSchemaEntry j = (case j of
     JObj kvs \<Rightarrow>
       (case (Option.bind (map_of kvs ''id'') z_string, Option.bind (map_of kvs ''name'') z_string,
              z_default kvs ''fields'' z_object []) of
          (Some i, Some n, Some fs) \<Rightarrow>
            if list_all (\<lambda>(_, v). z_string v \<noteq> None) fs
            then Some (JObj [(''id'', JStr i), (''name'', JStr n), (''fields'', JObj fs)]) else None
        | _ \<Rightarrow> None)
   | _ \<Rightarrow> None)"

definition post_schemas_body :: "json \<Rightarrow> json list option" where
  "post_schemas_body body = (case map_of (body_fields body) ''schemas'' of
     Some (JArr es) \<Rightarrow> those (map postSchemaEntry es)
   | _ \<Rightarrow> None)"

definition mail_post_schemas_put :: "(json \<Rightarrow> string) \<Rightarrow> auth_context option \<Rightarrow> json \<Rightarrow> 'z world_scheme \<Rightarrow>
    (unit, 'z world_scheme) outcome" where
  "mail_post_schemas_put stringify auth body w = (case requireAdmin auth of
     Inl e \<Rightarrow> (Inl e, w)
   | Inr _ \<Rightarrow> (case post_schemas_body body of
        None \<Rightarrow> (Inl (JsError ''ZodError''), w)
      | Some es \<Rightarrow> andThen (saveMailConfig [(''postSchemas'', JStr (stringify (JArr es)))] w) (\<lambda>_ w1.
          (Inr (), audit LInfo CConfig ''mail post schemas updated''
             (no_opts\<lparr>ai_detail := Some (JObj [(''count'', json_int (int (length es)))])\<rparr>) w1))))"

text \<open>A test message: html is the rendered card.\<close>

record mail_env =
  me_parse :: "string \<Rightarrow> json option"
  me_deliver :: "send_plan \<Rightarrow> string + string"
  me_accountLimit :: email_limit
  me_addressLimit :: email_limit
  me_card :: string

definition error_text :: "error \<Rightarrow> string" where
  "error_text e = (case e of HttpError _ m \<Rightarrow> m | DbError m \<Rightarrow> m | JsError m \<Rightarrow> m)"

definition mail_test :: "mail_env \<Rightarrow> auth_context option \<Rightarrow> string \<Rightarrow> 'z world_scheme \<Rightarrow> (unit, 'z world_scheme) outcome" where
  "mail_test m auth to0 w = (case requireAdmin auth of
     Inl e \<Rightarrow> (Inl e, w)
   | Inr _ \<Rightarrow>
       let to = normalizeEmail to0 in
       if \<not> EMAIL_RE to then (Inl (HttpError 400 ''Invalid recipient email format''), w)
       else if \<not> el_allowed (me_accountLimit m) then (Inl (throwEmailLimit (me_accountLimit m)), w)
       else if \<not> el_allowed (me_addressLimit m) then (Inl (throwEmailLimit (me_addressLimit m)), w)
       else let (configured, w1) = isMailConfigured w in
         if \<not> configured then (Inl (HttpError 503 ''Mail service is not configured''), w1)
         else let (c, w2) = getMailConfig w1;
                  (r, w3) = sendMailWithConfig (me_parse m) (me_deliver m) c
                    \<lparr>sm_to = to, sm_subject = ''[Constrainable Ingest] Test email'', sm_body = me_card m, sm_html = True\<rparr> w2
              in (case r of
                    Inl e \<Rightarrow> (Inl (HttpError 502 (''Send failed: '' @ error_text e)),
                              audit LError CConfig (''mail test failed '' @ ARROW @ '' '' @ to)
                                (no_opts\<lparr>ai_detail := Some (JObj [(''error'', JStr (error_text e))])\<rparr>) w3)
                  | Inr _ \<Rightarrow> (Inr (), audit LInfo CConfig (''mail test sent '' @ ARROW @ '' '' @ to) no_opts w3)))"


section \<open>Lemmas\<close>

text \<open>What reaches the transport: a message to a well-formed address within the limits, from the
  account that logs in, to the host or the webhook of the configuration.\<close>

definition plan_of :: "mail_config \<Rightarrow> send_plan \<Rightarrow> bool" where
  "plan_of c p \<longleftrightarrow> EMAIL_RE (sm_to (pl_message p)) \<and> int (length (sm_to (pl_message p))) \<le> ml_maxLenRecipientEmail c
     \<and> int (length (sm_subject (pl_message p))) \<le> ml_maxLenSubject c \<and> pl_from p = fromAddress c
     \<and> (case p of SmtpPlan h pt _ _ l _ _ _ \<Rightarrow> ml_provider c = Smtp \<and> h = ml_host c \<and> h \<noteq> [] \<and> pt = ml_port c
            \<and> (l \<noteq> None \<longleftrightarrow> ml_usePassword c)
        | PostPlan u _ _ b _ \<Rightarrow> ml_provider c = Post \<and> u = ml_postUrl c \<and> u \<noteq> [] \<and> b \<noteq> Some [])"

lemma mail_validate_None:
  "mail_validate c m = None \<longleftrightarrow> EMAIL_RE (sm_to m) \<and> int (length (sm_to m)) \<le> ml_maxLenRecipientEmail c
     \<and> int (length (sm_subject m)) \<le> ml_maxLenSubject c"
  by (auto simp: mail_validate_def)

text \<open>A message that counts as sent was handed to the transport once its address and lengths had
  passed: an outcome other than an error depends on what the transport does with plans that are in
  order and with no other.\<close>

theorem sent_through_checks:
  assumes "\<And>p. plan_of c p \<Longrightarrow> deliver p = Inl e"
  shows "\<exists>e. fst (sendMailWithConfig parse deliver c m w) = Inl e"
proof (cases "ml_provider c")
  case Post
  then show ?thesis using assms
    by (auto simp: sendMailWithConfig_def sendViaPost_def plan_of_def mail_validate_None split: option.split)
next
  case Smtp
  have "deliver (SmtpPlan (ml_host c) (ml_port c) (ml_useSsl c) (ml_useTls c)
      (if ml_usePassword c then Some (ml_senderEmail c, ml_senderPassword c) else None) (fromAddress c) i m) = Inl e"
    if "ml_host c \<noteq> []" "mail_validate c m = None" for i
    using that Smtp by (intro assms) (auto simp: plan_of_def mail_validate_None)
  then show ?thesis using Smtp
    by (auto simp: sendMailWithConfig_def case_prod_unfold Let_def split: option.split)
qed

end
