(* ===== verification/Recordings.thy ===== *)
theory Recordings
  imports Lifecycle
begin

text \<open>
  services/recordings.ts, the catalogue of recordings with its endpoints api/recordings,
  the serving of a file with Range, and services/retention.ts.

  Files of the recording directory are named by their path below it, as the rows list them.  day is
  the local calendar date of an instant; mtime the time a file was last written; join_glue the run
  of ffmpeg that joins segments, which yields the size of its output or None when it fails.
\<close>

section \<open>The catalogue\<close>

definition hostingNodeIdOf :: "recording_row \<Rightarrow> 'z db_scheme \<Rightarrow> string option" where
  "hostingNodeIdOf r d =
     (if orDefault (rc_nodeId r) [] \<noteq> [] then rc_nodeId r
      else case rc_sessionId r of
        None \<Rightarrow> None
      | Some i \<Rightarrow> if i = 0 then None else
          (case PublishSessionsRepository_findById i d of
             None \<Rightarrow> None
           | Some s \<Rightarrow> if orDefault (ps_nodeId s) [] \<noteq> [] then ps_nodeId s else None))"

record recording_view =
  vw_id :: int
  vw_eventId :: "int option"
  vw_sessionId :: "int option"
  vw_streamName :: string
  vw_studentLabel :: "string option"
  vw_filePath :: string
  vw_sizeBytes :: int
  vw_durationSec :: "rat option"
  vw_avgFps :: "rat option"
  vw_width :: "int option"
  vw_height :: "int option"
  vw_startedAt :: int
  vw_endedAt :: "int option"
  vw_retainedUntil :: "int option"
  vw_createdAt :: int
  vw_nodeId :: "string option"
  vw_nodeOnline :: "bool option"

definition recording_toView :: "ws_server \<Rightarrow> recording_row \<Rightarrow> recording_view" where
  "recording_toView s r =
     (let n = hostingNodeIdOf r s in
      \<lparr>vw_id = rc_id r, vw_eventId = rc_eventId r, vw_sessionId = rc_sessionId r, vw_streamName = rc_streamName r,
       vw_studentLabel = rc_studentLabel r, vw_filePath = rc_filePath r, vw_sizeBytes = rc_sizeBytes r,
       vw_durationSec = rc_durationSec r, vw_avgFps = rc_avgFps r, vw_width = rc_width r, vw_height = rc_height r,
       vw_startedAt = rc_startedAt r, vw_endedAt = rc_endedAt r, vw_retainedUntil = rc_retainedUntil r,
       vw_createdAt = rc_createdAt r, vw_nodeId = n, vw_nodeOnline = map_option (\<lambda>i. wsConnected i s) n\<rparr>)"

record recording_filters =
  rf_eventId :: "int option"
  rf_date :: "string option"
  rf_q :: "string option"

definition matches_q :: "string \<Rightarrow> recording_row \<Rightarrow> bool" where
  "matches_q q r = (js_includes (js_lower q) (js_lower (rc_streamName r))
     \<or> js_includes (js_lower q) (js_lower (orDefault (rc_studentLabel r) [])))"

definition listRecordings :: "(int \<Rightarrow> string) \<Rightarrow> recording_filters \<Rightarrow> ws_server \<Rightarrow> recording_view list" where
  "listRecordings day f s =
     (let r0 = RecordingsRepository_findAll s;
          r1 = (case rf_eventId f of Some e \<Rightarrow> if 0 < e then filter (\<lambda>r. rc_eventId r = Some e) r0 else r0 | None \<Rightarrow> r0);
          r2 = (case rf_date f of Some t \<Rightarrow> if t \<noteq> [] then filter (\<lambda>r. day (rc_startedAt r) = t) r1 else r1 | None \<Rightarrow> r1);
          r3 = (case rf_q f of Some q \<Rightarrow> if q \<noteq> [] then filter (matches_q q) r2 else r2 | None \<Rightarrow> r2)
      in map (recording_toView s) r3)"

definition recordings_index :: "auth_context option \<Rightarrow> (int \<Rightarrow> string) \<Rightarrow> recording_filters \<Rightarrow> ws_server \<Rightarrow> error + recording_view list" where
  "recordings_index auth day f s = (case requireAdmin auth of Inl e \<Rightarrow> Inl e | Inr _ \<Rightarrow> Inr (listRecordings day f s))"

definition getRecording :: "int \<Rightarrow> ws_server \<Rightarrow> error + recording_view" where
  "getRecording i s = (case RecordingsRepository_findById i s of
     None \<Rightarrow> Inl (HttpError 404 ''recording not found'') | Some r \<Rightarrow> Inr (recording_toView s r))"

definition recording_get :: "auth_context option \<Rightarrow> int \<Rightarrow> ws_server \<Rightarrow> error + recording_view" where
  "recording_get auth i s = (case requireAdmin auth of
     Inl e \<Rightarrow> Inl e
   | Inr _ \<Rightarrow> if i \<le> 0 then Inl (HttpError 400 ''invalid id'') else getRecording i s)"

definition ext_of :: "string \<Rightarrow> string" where
  "ext_of p = (if CHR ''.'' \<in> set p then js_lower (CHR ''.'' # rev (takeWhile (\<lambda>c. c \<noteq> CHR ''.'') (rev p)))
     else js_lower (drop (length p - 1) p))"

definition mime_of :: "string \<Rightarrow> string" where
  "mime_of ext = (if ext = ''.mp4'' then ''video/mp4'' else if ext = ''.flv'' then ''video/x-flv''
     else if ext = ''.mkv'' then ''video/x-matroska'' else if ext = ''.webm'' then ''video/webm'' else ''application/octet-stream'')"

definition base_name :: "string \<Rightarrow> string" where
  "base_name p = rev (takeWhile (\<lambda>c. c \<noteq> CHR ''/'') (rev p))"

text \<open>The segments of a row; text that is not a list of strings throws.\<close>

definition row_segments :: "recording_row \<Rightarrow> error + string list" where
  "row_segments r = (case segment_paths r of Some ps \<Rightarrow> Inr ps | None \<Rightarrow> Inl (JsError ''segments''))"

definition resolveSegments :: "int \<Rightarrow> 'z world_scheme \<Rightarrow> error + string list" where
  "resolveSegments i w =
     (case RecordingsRepository_findById i w of
        None \<Rightarrow> Inl (HttpError 404 ''recording not found'')
      | Some r \<Rightarrow> (case row_segments r of
          Inl e \<Rightarrow> Inl e
        | Inr segs \<Rightarrow> Inr (if hostingNodeIdOf r w \<noteq> None then segs
            else filter (\<lambda>p. map_get p (files w) \<noteq> None) segs)))"

record resolved_file =
  rv_path :: string
  rv_filename :: string
  rv_mime :: string
  rv_size :: int

definition resolveRecordingFile :: "int \<Rightarrow> 'z world_scheme \<Rightarrow> error + resolved_file" where
  "resolveRecordingFile i w =
     (case RecordingsRepository_findById i w of
        None \<Rightarrow> Inl (HttpError 404 ''recording not found'')
      | Some r \<Rightarrow>
          let f = (\<lambda>n. \<lparr>rv_path = rc_filePath r, rv_filename = base_name (rc_filePath r),
                     rv_mime = mime_of (ext_of (rc_filePath r)), rv_size = n\<rparr>)
          in if hostingNodeIdOf r w \<noteq> None then Inr (f (rc_sizeBytes r))
             else case map_get (rc_filePath r) (files w) of
               None \<Rightarrow> Inl (HttpError 410 ''recording file missing on disk'')
             | Some n \<Rightarrow> Inr (f n))"

definition drop_files :: "string list \<Rightarrow> 'z world_scheme \<Rightarrow> 'z world_scheme" where
  "drop_files ps w = w\<lparr>files := fold map_del ps (files w)\<rparr>"

definition deleteRecording :: "int \<Rightarrow> ws_server \<Rightarrow> (unit, ws_server) outcome" where
  "deleteRecording i s =
     (case RecordingsRepository_findById i s of
        None \<Rightarrow> (Inl (HttpError 404 ''recording not found''), s)
      | Some r \<Rightarrow> (case row_segments r of
          Inl e \<Rightarrow> (Inl e, s)
        | Inr segs \<Rightarrow>
            let s1 = drop_files segs s;
                s2 = (case hostingNodeIdOf r s1 of None \<Rightarrow> s1 | Some n \<Rightarrow> snd (sendRecordingDelete n segs s1))
            in (Inr (), audit LWarn CRecording (''recording deleted: '' @ rc_streamName r)
                 (no_opts\<lparr>ai_eventId := rc_eventId r, ai_streamName := Some (rc_streamName r),
                    ai_detail := Some (JObj [(''id'', json_int i), (''filePath'', JStr (rc_filePath r))])\<rparr>)
                 (RecordingsRepository_remove i s2))))"

definition recording_delete :: "auth_context option \<Rightarrow> int \<Rightarrow> ws_server \<Rightarrow> (unit, ws_server) outcome" where
  "recording_delete auth i s = (case requireAdmin auth of
     Inl e \<Rightarrow> (Inl e, s)
   | Inr _ \<Rightarrow> if i \<le> 0 then (Inl (HttpError 400 ''invalid id''), s) else deleteRecording i s)"


section \<open>Serving a file\<close>

text \<open>The pattern bytes=(digits)-(digits), wherever it first matches.\<close>

definition range_here :: "string \<Rightarrow> (string \<times> string) option" where
  "range_here h =
     (if \<not> starts_with ''bytes='' h then None
      else let t = drop 6 h; a = takeWhile is_digit t; r = dropWhile is_digit t in
        case r of
          c # u \<Rightarrow> if c = CHR ''-'' then Some (a, takeWhile is_digit u) else None
        | [] \<Rightarrow> None)"

fun range_match :: "string \<Rightarrow> (string \<times> string) option" where
  "range_match [] = None"
| "range_match (c # h) = (case range_here (c # h) of Some m \<Rightarrow> Some m | None \<Rightarrow> range_match h)"

definition digits_value :: "string \<Rightarrow> int" where
  "digits_value ds = foldl (\<lambda>n c. 10 * n + (of_char c - 48)) 0 ds"

text \<open>An answer: its status, the bytes it announces, and the bytes the stream then delivers, each
  by first and last; a stream never reads past the end of its file.\<close>

record file_response =
  fs_status :: int
  fs_contentRange :: string
  fs_contentLength :: "int option"
  fs_body :: "(int \<times> int) option"

definition serveFile :: "string option \<Rightarrow> int \<Rightarrow> file_response" where
  "serveFile rq len =
     (if orDefault rq [] = [] then
        \<lparr>fs_status = 200, fs_contentRange = [], fs_contentLength = Some len, fs_body = Some (0, len - 1)\<rparr>
      else
        let m = range_match (orDefault rq []);
            start = (case m of Some (a, b) \<Rightarrow> if a \<noteq> [] then digits_value a else 0 | None \<Rightarrow> 0);
            last = (case m of Some (a, b) \<Rightarrow> if b \<noteq> [] then digits_value b else len - 1 | None \<Rightarrow> len - 1)
        in if last < start \<or> len \<le> start
           then \<lparr>fs_status = 416, fs_contentRange = ''bytes */'' @ int_str len, fs_contentLength = None, fs_body = None\<rparr>
           else \<lparr>fs_status = 206, fs_contentRange = ''bytes '' @ int_str start @ ''-'' @ int_str last @ ''/'' @ int_str len,
                 fs_contentLength = Some (last - start + 1), fs_body = Some (start, min last (len - 1))\<rparr>)"

definition glue_path :: "int \<Rightarrow> string \<Rightarrow> bool \<Rightarrow> string" where
  "glue_path i hash dl = ''_glue/rec-'' @ int_str i @ ''-'' @ hash @ (if dl then ''.mkv'' else ''.mp4'')"

definition drop_ext :: "string \<Rightarrow> string" where
  "drop_ext n = (if length n \<ge> 4 \<and> drop (length n - 4) n \<in> {''.mkv'', ''.flv''} then take (length n - 4) n else n)"

text \<open>What is served: a file, its type, a name to save it under, when the copy is removed again, and
  the answer.  Every request of a copy arms a removal of its own.\<close>

record served =
  sv_path :: string
  sv_mime :: string
  sv_download :: "string option"
  sv_unlinkAt :: "int option"
  sv_answer :: file_response

definition GLUE_GRACE_MS :: int where "GLUE_GRACE_MS = 1800000"

definition serve_glued :: "string option \<Rightarrow> string list \<Rightarrow> bool \<Rightarrow> string \<Rightarrow> int \<Rightarrow> int \<Rightarrow> error + served" where
  "serve_glued rq segs dl path n now =
     (let s = \<lparr>sv_path = path, sv_mime = ''video/mp4'', sv_download = None, sv_unlinkAt = Some (now + GLUE_GRACE_MS),
                sv_answer = serveFile rq n\<rparr>
      in if \<not> dl then Inr s
         else case segs of
           [] \<Rightarrow> Inl (JsError ''segs[0]'')
         | p # _ \<Rightarrow> Inr (s\<lparr>sv_mime := ''video/x-matroska'', sv_download := Some (drop_ext (base_name p) @ ''_merged.mkv'')\<rparr>))"

definition glue_unlink :: "string \<Rightarrow> 'z world_scheme \<Rightarrow> 'z world_scheme" where
  "glue_unlink path w = drop_files [path] w"

text \<open>hash is that of the segment list; relayed the outcome of materializeRemoteSegments.\<close>

definition file_get :: "auth_context option \<Rightarrow> int \<Rightarrow> bool \<Rightarrow> string option \<Rightarrow> (string list \<Rightarrow> string) \<Rightarrow> (string list \<Rightarrow> bool \<Rightarrow> int option) \<Rightarrow>
    (error + string list) \<Rightarrow> 'z world_scheme \<Rightarrow> (served, 'z world_scheme) outcome" where
  "file_get auth i dl rq hash join_glue relayed w =
     (case requireAdmin auth of
        Inl e \<Rightarrow> (Inl e, w)
      | Inr _ \<Rightarrow> if i \<le> 0 then (Inl (HttpError 400 ''invalid id''), w)
      else case resolveSegments i w of
        Inl e \<Rightarrow> (Inl e, w)
      | Inr segs0 \<Rightarrow> (case resolveRecordingFile i w of
          Inl e \<Rightarrow> (Inl e, w)
        | Inr f \<Rightarrow>
            let segs = rev (remdups (rev segs0));
                host = Option.bind (RecordingsRepository_findById i w) (\<lambda>r. hostingNodeIdOf r w) in
            if drop (length (rv_path f) - 4) (rv_path f) = ''.mkv'' \<or> 1 < length segs \<or> host \<noteq> None then
              (if host \<noteq> None \<and> segs = [] then (Inl (HttpError 410 ''recording has no segments''), w)
               else let glued = glue_path i (hash segs) dl in
                 case map_get glued (files w) of
                   Some n \<Rightarrow> (serve_glued rq segs dl glued n (clock w), w)
                 | None \<Rightarrow> (case (if host \<noteq> None then relayed else Inr segs) of
                     Inl e \<Rightarrow> (Inl e, w)
                   | Inr parts \<Rightarrow> (case join_glue parts dl of
                       None \<Rightarrow> (Inl (HttpError 500 ''ffmpeg concat failed''), w)
                     | Some n \<Rightarrow> (serve_glued rq segs dl glued n (clock w), w\<lparr>files := map_put glued n (files w)\<rparr>))))
            else (Inr \<lparr>sv_path = rv_path f, sv_mime = rv_mime f, sv_download = (if dl then Some (rv_filename f) else None),
                       sv_unlinkAt = None, sv_answer = serveFile rq (rv_size f)\<rparr>, w)))"


section \<open>Retention\<close>

definition below :: "string \<Rightarrow> string \<Rightarrow> bool" where
  "below dir p \<longleftrightarrow> starts_with (dir @ ''/'') p"

text \<open>Files of a directory older than an age: the sweep of _tmp, and of _glue.\<close>

definition clean_old :: "string \<Rightarrow> int \<Rightarrow> (string \<Rightarrow> int) \<Rightarrow> 'z world_scheme \<Rightarrow> int \<times> 'z world_scheme" where
  "clean_old dir age mtime w =
     (let old = filter (\<lambda>p. below dir p \<and> age < clock w - mtime p) (map fst (files w))
      in (int (length old), drop_files old w))"

definition cleanOrphanTmp :: "(string \<Rightarrow> int) \<Rightarrow> 'z world_scheme \<Rightarrow> int \<times> 'z world_scheme" where
  "cleanOrphanTmp mtime w = clean_old ''_tmp'' 3600000 mtime w"

definition glue_sweep :: "(string \<Rightarrow> int) \<Rightarrow> 'z world_scheme \<Rightarrow> 'z world_scheme" where
  "glue_sweep mtime w = snd (clean_old ''_glue'' GLUE_GRACE_MS mtime w)"

fun retention_loop :: "recording_row list \<Rightarrow> 'z world_scheme \<Rightarrow> (unit, 'z world_scheme) outcome" where
  "retention_loop [] w = (Inr (), w)"
| "retention_loop (r # rs) w = (case row_segments r of
     Inl e \<Rightarrow> (Inl e, w)
   | Inr segs \<Rightarrow> retention_loop rs (RecordingsRepository_remove (rc_id r) (drop_files segs w)))"

definition runRetention :: "(string \<Rightarrow> int) \<Rightarrow> 'z world_scheme \<Rightarrow> (int \<times> int, 'z world_scheme) outcome" where
  "runRetention mtime w =
     (let (c, w1) = getConfig w; days = retentionDays (c_record c);
          finish = (\<lambda>n w. case cleanOrphanTmp mtime w of (k, w1) \<Rightarrow> (Inr (n, k), w1)) in
      if days \<le> 0 then finish 0 w1
      else let expired = RecordingsRepository_findExpired (clock w1 - days * 86400000) w1; n = int (length expired) in
        andThen (retention_loop expired w1) (\<lambda>_ w2.
          finish n (if 0 < n then audit LInfo CRecording (''retention deleted '' @ int_str n @ '' expired recording(s)'')
            (no_opts\<lparr>ai_detail := Some (JObj [(''retentionDays'', json_int days)])\<rparr>) w2 else w2)))"


section \<open>What is deleted\<close>

lemma map_get_dels: "map_get p (fold map_del ps m) = (if p \<in> set ps then None else map_get p m)"
  by (induction ps arbitrary: m) (auto simp: map_get_del)

lemma map_del_subset: "set (fold map_del ps m) \<subseteq> set m"
proof (induction ps arbitrary: m)
  case (Cons q ps)
  have "set (map_del q m) \<subseteq> set m" by (auto simp: map_del_def)
  with Cons[of "map_del q m"] show ?case by auto
qed simp

lemma drop_files_frame [simp]:
  fixes w :: "'a world_scheme"
  shows "t_recordings (drop_files ps w) = t_recordings w" "t_sessions (drop_files ps w) = t_sessions w" "clock (drop_files ps w) = clock w"
    "world.more (drop_files ps w) = world.more w" "map_get p (files (drop_files ps w)) = (if p \<in> set ps then None else map_get p (files w))"
  by (simp_all add: drop_files_def map_get_dels)

text \<open>Deleting a recording removes its row, the files of its segments and nothing else: every other
  row and every other file stays, and the node that hosts it, the one of the row or else that of
  its session, is told to delete the same segments exactly when it is connected.\<close>

theorem delete_recording_exact:
  assumes "RecordingsRepository_findById i s = Some r" "row_segments r = Inr segs"
  shows "\<exists>s'. deleteRecording i s = (Inr (), s')
    \<and> rows (t_recordings s') = filter (\<lambda>x. rc_id x \<noteq> i) (rows (t_recordings s))
    \<and> (\<forall>p. map_get p (files s') = (if p \<in> set segs then None else map_get p (files s)))
    \<and> ws_sent s' = ws_sent s @ (case Option.bind (hostingNodeIdOf r s) (\<lambda>n. map_get n (ws_byNode s)) of
          None \<Rightarrow> [] | Some c \<Rightarrow> [(c, ORecordingDelete segs)])"
proof -
  have "PublishSessionsRepository_findById j (drop_files segs s) = PublishSessionsRepository_findById j s" for j
    by (simp add: PublishSessionsRepository_findById_def)
  then have host: "hostingNodeIdOf r (drop_files segs s) = hostingNodeIdOf r s"
    unfolding hostingNodeIdOf_def by presburger
  have ws: "ws_byNode (drop_files segs s) = ws_byNode s" "ws_sent (drop_files segs s) = ws_sent s"
    by (simp_all add: drop_files_def)
  show ?thesis using assms
    by (auto simp: deleteRecording_def Let_def host ws sendRecordingDelete_def wsSendKind_def enqueue_def RecordingsRepository_remove_def
        tbl_delete_def split: option.split)
qed

definition is_expired :: "int \<Rightarrow> int \<Rightarrow> recording_row \<Rightarrow> bool" where
  "is_expired days now r \<longleftrightarrow> 0 < days \<and> rc_startedAt r < db_ts (now - days * 86400000)"

lemma retention_loop_effect:
  fixes w :: "'a world_scheme"
  assumes "retention_loop rs w = (Inr (), w')"
  shows "rows (t_recordings w') = filter (\<lambda>x. rc_id x \<notin> rc_id ` set rs) (rows (t_recordings w)) \<and> clock w' = clock w
    \<and> (\<forall>p. map_get p (files w') = (if \<exists>r\<in>set rs. \<exists>segs. segment_paths r = Some segs \<and> p \<in> set segs then None else map_get p (files w)))"
  using assms
proof (induction rs arbitrary: w)
  case (Cons r rs)
  then obtain segs where segs: "segment_paths r = Some segs"
    "retention_loop rs (RecordingsRepository_remove (rc_id r) (drop_files segs w)) = (Inr (), w')"
    by (auto simp: row_segments_def split: option.splits sum.splits)
  from Cons.IH[OF segs(2)] segs(1) show ?case
    by (auto simp: RecordingsRepository_remove_def tbl_delete_def)
qed simp

lemma clean_old_effect:
  fixes w :: "'a world_scheme"
  shows "map_get p (files (snd (clean_old dir age mtime w))) =
      (if below dir p \<and> age < clock w - mtime p then None else map_get p (files w))"
    "t_recordings (snd (clean_old dir age mtime w)) = t_recordings w"
  by (auto simp: clean_old_def Let_def map_get_None)

text \<open>C27 Retention removes exactly what has expired: with a retention of no days nothing is listed away;
  otherwise exactly the recordings that started before the cutoff go, each with the files of its
  segments; besides these only files of _tmp older than an hour are removed, and the first count
  reported is the number of recordings removed.\<close>

theorem retention_exact:
  fixes w :: "'a world_scheme" and mtime
  assumes "integrity w" "runRetention mtime w = (Inr (n, k), w')"
  defines "days \<equiv> retentionDays (c_record (config_of w))"
  defines "expired \<equiv> filter (is_expired days (clock w)) (rows (t_recordings w))"
  shows "rows (t_recordings w') = filter (\<lambda>r. \<not> is_expired days (clock w) r) (rows (t_recordings w)) \<and> n = int (length expired)
    \<and> (\<forall>p. map_get p (files w') =
        (if (\<exists>r\<in>set expired. \<exists>segs. segment_paths r = Some segs \<and> p \<in> set segs) \<or> below ''_tmp'' p \<and> 3600000 < clock w - mtime p
         then None else map_get p (files w)))"
proof -
  obtain cfg w1 where c: "getConfig w = (cfg, w1)" by fastforce
  then have w1: "w1 = snd (getConfig w)" by simp
  have d: "retentionDays (c_record cfg) = days" unfolding days_def c by simp
  have same: "t_recordings w1 = t_recordings w" "clock w1 = clock w" "files w1 = files w"
    unfolding w1 by (auto simp: getConfig_def Let_def split: option.split)
  have ok: "tbl_ok rc_id (t_recordings w)" using assms(1) by (simp add: integrity_def ids_ok_def)
  show ?thesis
  proof (cases "days \<le> 0")
    case True
    then have "cleanOrphanTmp mtime w1 = (k, w')" "n = 0"
      using assms(2) by (auto simp: runRetention_def c d Let_def split: prod.splits)
    then have "w' = snd (clean_old ''_tmp'' 3600000 mtime w1)" by (simp add: cleanOrphanTmp_def)
    moreover have "expired = []" "\<And>r. \<not> is_expired days (clock w) r" using True by (auto simp: expired_def is_expired_def)
    ultimately show ?thesis using \<open>n = 0\<close> by (simp add: clean_old_effect same)
  next
    case False
    have ex: "RecordingsRepository_findExpired (clock w1 - days * 86400000) w1 = expired"
      using False by (auto simp: RecordingsRepository_findExpired_def tbl_select_def expired_def is_expired_def same intro!: filter_cong)
    obtain w2 where loop: "retention_loop expired w1 = (Inr (), w2)"
      "cleanOrphanTmp mtime (if 0 < int (length expired)
          then audit LInfo CRecording (''retention deleted '' @ int_str (int (length expired)) @ '' expired recording(s)'')
            (no_opts\<lparr>ai_detail := Some (JObj [(''retentionDays'', json_int days)])\<rparr>) w2 else w2) = (k, w')"
      "n = int (length expired)"
      using assms(2) False unfolding runRetention_def c prod.case Let_def d ex
      by (simp add: andThen_eq_Inr case_prod_unfold) (metis prod.collapse)
    define w3 where "w3 = (if 0 < int (length expired)
          then audit LInfo CRecording (''retention deleted '' @ int_str (int (length expired)) @ '' expired recording(s)'')
            (no_opts\<lparr>ai_detail := Some (JObj [(''retentionDays'', json_int days)])\<rparr>) w2 else w2)"
    have w2: "retention_loop expired w1 = (Inr (), w2)" "w3 = w2 \<or> (\<exists>l c m v. w3 = audit l c m v w2)"
      "cleanOrphanTmp mtime w3 = (k, w')" "n = int (length expired)"
      using loop unfolding w3_def[symmetric] by (auto simp: w3_def)
    note l = retention_loop_effect[OF w2(1)]
    have w3: "t_recordings w3 = t_recordings w2" "clock w3 = clock w2" "files w3 = files w2" using w2(2) by auto
    have w': "w' = snd (clean_old ''_tmp'' 3600000 mtime w3)" using w2(3) by (simp add: cleanOrphanTmp_def)
    have gone: "rc_id r \<in> rc_id ` set expired \<longleftrightarrow> is_expired days (clock w) r" if "r \<in> set (rows (t_recordings w))" for r
      using recs.key_inj[OF ok that] that by (auto simp: expired_def)
    have "rows (t_recordings w') = filter (\<lambda>r. \<not> is_expired days (clock w) r) (rows (t_recordings w))"
      using l by (simp add: w' clean_old_effect w3 same gone cong: filter_cong)
    moreover have "map_get p (files w') =
        (if (\<exists>r\<in>set expired. \<exists>segs. segment_paths r = Some segs \<and> p \<in> set segs) \<or> below ''_tmp'' p \<and> 3600000 < clock w - mtime p
         then None else map_get p (files w))" for p
      using l by (auto simp: w' clean_old_effect w3 same)
    ultimately show ?thesis using w2(4) by blast
  qed
qed

lemma digits_value_pos:
  assumes "list_all is_digit ds"
  shows "0 \<le> digits_value ds"
proof -
  have "0 \<le> foldl (\<lambda>n c. 10 * n + (of_char c - 48)) m ds" if "0 \<le> m" for m :: int
    using assms that
  proof (induction ds arbitrary: m)
    case (Cons c ds)
    then have "48 \<le> (of_char c :: nat)" by (simp add: is_digit_def Let_def)
    then have "48 \<le> (of_char c :: int)" by (metis of_nat_le_iff of_nat_numeral of_nat_of_char)
    with Cons show ?case by simp
  qed simp
  then show ?thesis by (simp add: digits_value_def)
qed

lemma range_digits: "range_match h = Some (a, b) \<Longrightarrow> 0 \<le> digits_value a"
proof (induction h)
  case (Cons c h)
  have "list_all is_digit (takeWhile is_digit t)" for t by (induction t) auto
  with Cons show ?case
    by (auto simp: range_here_def Let_def intro!: digits_value_pos split: option.splits if_splits list.splits)
qed simp

text \<open>C28 A range answer is honest inside the file: an answer that carries a body, whole or partial,
  carries a non-empty span of the file, the one its length announces whenever the end asked for
  lies inside the file; a span that begins after its end or past the file is refused with 416 and
  carries nothing.\<close>

theorem range_honest:
  assumes "0 < len"
  shows "case fs_body (serveFile rq len) of
      None \<Rightarrow> fs_status (serveFile rq len) = 416 \<and> fs_contentLength (serveFile rq len) = None
    | Some (a, z) \<Rightarrow> 0 \<le> a \<and> a \<le> z \<and> z < len \<and> fs_status (serveFile rq len) \<in> {200, 206}
        \<and> ((\<forall>h s e. rq = Some h \<and> range_match h = Some (s, e) \<and> e \<noteq> [] \<longrightarrow> digits_value e < len)
             \<longrightarrow> fs_contentLength (serveFile rq len) = Some (z - a + 1))"
proof (cases "orDefault rq [] = []")
  case True
  then show ?thesis using assms by (simp add: serveFile_def)
next
  case False
  then obtain h where h: "rq = Some h" "h \<noteq> []" by (cases rq) (auto simp: orDefault_def)
  define start where "start = (case range_match h of Some (a, b) \<Rightarrow> if a \<noteq> [] then digits_value a else 0 | None \<Rightarrow> 0)"
  define last where "last = (case range_match h of Some (a, b) \<Rightarrow> if b \<noteq> [] then digits_value b else len - 1 | None \<Rightarrow> len - 1)"
  have pos: "0 \<le> start" by (auto simp: start_def range_digits split: option.split)
  have inside: "last < len" if "\<forall>s e. range_match h = Some (s, e) \<and> e \<noteq> [] \<longrightarrow> digits_value e < len"
    using that assms by (auto simp: last_def split: option.split)
  have "serveFile rq len = (if last < start \<or> len \<le> start
        then \<lparr>fs_status = 416, fs_contentRange = ''bytes */'' @ int_str len, fs_contentLength = None, fs_body = None\<rparr>
        else \<lparr>fs_status = 206, fs_contentRange = ''bytes '' @ int_str start @ ''-'' @ int_str last @ ''/'' @ int_str len,
              fs_contentLength = Some (last - start + 1), fs_body = Some (start, min last (len - 1))\<rparr>)"
    using h by (simp add: serveFile_def Let_def start_def last_def orDefault_def)
  then show ?thesis using pos inside h by (auto simp: min_def)
qed

lemma overlong_range: "let r = serveFile (Some ''bytes=0-999'') 100 in fs_status r = 206 \<and> fs_contentLength r = Some 1000 \<and> fs_body r = Some (0, 99)"
  by code_simp

lemma suffix_range: "let r = serveFile (Some ''bytes=-10'') 100 in fs_status r = 206 \<and> fs_body r = Some (0, 10)"
  by code_simp


section \<open>Concrete runs\<close>

text \<open>An old recording on node a, which is connected, and a new local one; a stale temporary file.\<close>

definition archive :: ws_server where
  "archive = (ws_boot world_start)\<lparr>clock := 100 * 86400000, cfg_cache := Some default_config,
     t_recordings := \<lparr>rows = [(recording_values ''ann'' ''e1/a.mkv'')\<lparr>rc_id := 1, rc_nodeId := Some ''a''\<rparr>,
       (recording_values ''bob'' ''e1/b.mkv'')\<lparr>rc_id := 2, rc_startedAt := 99 * 86400000\<rparr>], seq = 3\<rparr>,
     files := [(''e1/b.mkv'', 7), (''_tmp/x.mkv'', 1)], ws_byNode := [(''a'', ''c1'')]\<rparr>"

lemma archive_state:
  "t_recordings archive = \<lparr>rows = [(recording_values ''ann'' ''e1/a.mkv'')\<lparr>rc_id := 1, rc_nodeId := Some ''a''\<rparr>,
     (recording_values ''bob'' ''e1/b.mkv'')\<lparr>rc_id := 2, rc_startedAt := 99 * 86400000\<rparr>], seq = 3\<rparr>"
  "files archive = [(''e1/b.mkv'', 7), (''_tmp/x.mkv'', 1)]" "clock archive = 100 * 86400000" "ws_byNode archive = [(''a'', ''c1'')]"
  "ws_sent archive = []" "retentionDays (c_record (config_of archive)) = 7"
  by (simp_all add: archive_def ws_boot_def world.defs ws_server.defs getConfig_def default_config_def)

lemma archive_integrity: "integrity archive"
  by (simp add: archive_def ws_boot_def world.defs ws_server.defs schema_decls event_ban_keys_def tbl_ok_def has_def has_opt_def
      tbl_empty_def recording_values_def world_start_def demo_core_def core.defs db.defs db_empty_def)

theorem delete_recording_exact_witness:
  "\<exists>s'. deleteRecording 1 archive = (Inr (), s') \<and> map rc_id (rows (t_recordings s')) = [2]
     \<and> ws_sent s' = [(''c1'', ORecordingDelete [''e1/a.mkv''])]"
proof -
  let ?r = "(recording_values ''ann'' ''e1/a.mkv'')\<lparr>rc_id := 1, rc_nodeId := Some ''a''\<rparr>"
  have "RecordingsRepository_findById 1 archive = Some ?r" "row_segments ?r = Inr [''e1/a.mkv'']"
    by (simp_all add: RecordingsRepository_findById_def tbl_find_def archive_state row_segments_def segment_paths_def recording_values_def)
  moreover have "hostingNodeIdOf ?r archive = Some ''a''" by (simp add: hostingNodeIdOf_def recording_values_def orDefault_def)
  ultimately show ?thesis
    using delete_recording_exact[of 1 archive ?r "[''e1/a.mkv'']"] by (auto simp: archive_state map_get_def recording_values_def)
qed

theorem retention_exact_witness:
  "\<exists>n k s'. runRetention (\<lambda>p. 0) archive = (Inr (n, k), s') \<and> n = 1 \<and> map rc_id (rows (t_recordings s')) = [2]
     \<and> map_get ''_tmp/x.mkv'' (files s') = None \<and> map_get ''e1/b.mkv'' (files s') = Some 7"
proof -
  let ?r = "runRetention (\<lambda>p. 0) archive"
  have "\<not> isl (fst ?r)" by code_simp
  then obtain n k s' where r: "?r = (Inr (n, k), s')" by (metis outcome_ok surj_pair)
  have "below ''_tmp'' ''_tmp/x.mkv''" "\<not> below ''_tmp'' ''e1/b.mkv''" by code_simp+
  with retention_exact[OF archive_integrity r] r show ?thesis
    by (simp add: archive_state is_expired_def recording_values_def db_ts_def segment_paths_def map_get_def)
qed

theorem range_honest_witness: "fs_contentLength (serveFile (Some ''bytes=10-19'') 100) = Some 10"
proof -
  have "fs_body (serveFile (Some ''bytes=10-19'') 100) = Some (10, 19)" by code_simp
  moreover have "range_match ''bytes=10-19'' = Some (''10'', ''19'')" "digits_value ''19'' = 19" by code_simp+
  ultimately show ?thesis using range_honest[of 100 "Some ''bytes=10-19''"] by simp
qed

end
