(* ===== verification/AdminApi.thy ===== *)
theory AdminApi
  imports Mail Recordings
begin

text \<open>
  The remaining endpoints of api/: events, publish credentials, keys, roster, groups, invites, bans,
  audit and configuration; and all the requests that only an administrator may make, as one type with
  the handler of each.

  A body is the JSON value readBody gives, JNull for none; txt is Number.prototype.toString on the
  numbers that are not integers, or too large to be written without an exponent.
\<close>

section \<open>String and Number\<close>

fun js_String :: "(rat \<Rightarrow> string) \<Rightarrow> json \<Rightarrow> string" where
  "js_String txt JNull = ''null''"
| "js_String txt (JBool b) = (if b then ''true'' else ''false'')"
| "js_String txt (JNum n) = (if of_int \<lfloor>n\<rfloor> = n \<and> \<bar>n\<bar> < 10 ^ 21 then int_str \<lfloor>n\<rfloor> else txt n)"
| "js_String txt (JStr s) = s"
| "js_String txt (JArr js) = js_join '','' (map (\<lambda>j. if j = JNull then [] else js_String txt j) js)"
| "js_String txt (JObj _) = ''[object Object]''"

definition radix_value :: "nat \<Rightarrow> string \<Rightarrow> rat option" where
  "radix_value r ds = (let vs = map hex_value ds in
     if ds \<noteq> [] \<and> list_all (\<lambda>v. case v of Some d \<Rightarrow> d < r | None \<Rightarrow> False) vs
     then Some (of_nat (fold (\<lambda>v n. r * n + the v) vs 0)) else None)"

definition exponent :: "string \<Rightarrow> int option" where
  "exponent s = (case s of
     [] \<Rightarrow> Some 0
   | e # t \<Rightarrow> if e \<notin> {CHR ''e'', CHR ''E''} then None
       else let neg = (t \<noteq> [] \<and> hd t = CHR ''-''); ds = (if t \<noteq> [] \<and> hd t \<in> {CHR ''-'', CHR ''+''} then tl t else t)
         in if ds \<noteq> [] \<and> list_all is_digit ds then Some (if neg then - digits_value ds else digits_value ds) else None)"

definition decimal :: "string \<Rightarrow> rat option" where
  "decimal s =
     (let ip = takeWhile is_digit s; r = dropWhile is_digit s;
          (fp, r2) = (case r of CHR ''.'' # t \<Rightarrow> (takeWhile is_digit t, dropWhile is_digit t) | _ \<Rightarrow> ([], r))
      in if ip = [] \<and> fp = [] then None
         else map_option (\<lambda>e. (of_int (digits_value ip) + of_int (digits_value fp) / 10 ^ length fp)
             * (if 0 \<le> e then 10 ^ nat e else 1 / 10 ^ nat (- e))) (exponent r2))"

text \<open>None where the result is not a finite number.  Doubles are rationals here, without rounding.\<close>

definition js_Number :: "string \<Rightarrow> rat option" where
  "js_Number s0 = (let s = js_trim s0 in
     case s of
       [] \<Rightarrow> Some 0
     | c # t \<Rightarrow>
         if c = CHR ''0'' \<and> t \<noteq> [] \<and> hd t \<in> {CHR ''x'', CHR ''X''} then radix_value 16 (tl t)
         else if c = CHR ''0'' \<and> t \<noteq> [] \<and> hd t \<in> {CHR ''o'', CHR ''O''} then radix_value 8 (tl t)
         else if c = CHR ''0'' \<and> t \<noteq> [] \<and> hd t \<in> {CHR ''b'', CHR ''B''} then radix_value 2 (tl t)
         else if c = CHR ''-'' then map_option uminus (decimal t)
         else if c = CHR ''+'' then decimal t
         else decimal s)"

fun json_Number :: "(rat \<Rightarrow> string) \<Rightarrow> json \<Rightarrow> rat option" where
  "json_Number txt JNull = Some 0"
| "json_Number txt (JBool b) = Some (if b then 1 else 0)"
| "json_Number txt (JNum n) = Some n"
| "json_Number txt (JStr s) = js_Number s"
| "json_Number txt (JArr js) = js_Number (js_String txt (JArr js))"
| "json_Number txt (JObj _) = None"


section \<open>Parameters and fields\<close>

text \<open>The id of a route: 0 stands for one that is refused.\<close>

definition route_id :: "string option \<Rightarrow> int" where
  "route_id p = (case Option.bind p js_Number of
     Some r \<Rightarrow> if of_int \<lfloor>r\<rfloor> = r \<and> 0 < r then \<lfloor>r\<rfloor> else 0
   | None \<Rightarrow> 0)"

text \<open>String(body?.k ?? ''), body?.k ? String(body.k) : null, and body?.k != null ? String(body.k) : null.\<close>

definition str_field :: "(rat \<Rightarrow> string) \<Rightarrow> string \<Rightarrow> json \<Rightarrow> string" where
  "str_field txt k body = (case json_get k body of None \<Rightarrow> [] | Some JNull \<Rightarrow> [] | Some v \<Rightarrow> js_String txt v)"

definition truthy_field :: "(rat \<Rightarrow> string) \<Rightarrow> string \<Rightarrow> json \<Rightarrow> string option" where
  "truthy_field txt k body = (case json_get k body of None \<Rightarrow> None | Some v \<Rightarrow> if truthy v then Some (js_String txt v) else None)"

definition null_field :: "(rat \<Rightarrow> string) \<Rightarrow> string \<Rightarrow> json \<Rightarrow> string option" where
  "null_field txt k body = (case json_get k body of None \<Rightarrow> None | Some JNull \<Rightarrow> None | Some v \<Rightarrow> Some (js_String txt v))"

definition string_field :: "string \<Rightarrow> json \<Rightarrow> string maybe" where
  "string_field k body = (case json_get k body of Some (JStr s) \<Rightarrow> Val s | _ \<Rightarrow> Undefined)"

text \<open>The checks the handlers open with.\<close>

definition as_admin :: "auth_context option \<Rightarrow> (auth_context \<Rightarrow> 's \<Rightarrow> ('a, 's) outcome) \<Rightarrow> 's \<Rightarrow> ('a, 's) outcome" where
  "as_admin auth k w = (case requireAdmin auth of Inl e \<Rightarrow> (Inl e, w) | Inr a \<Rightarrow> k a w)"

definition with_id :: "string \<Rightarrow> string option \<Rightarrow> (int \<Rightarrow> 's \<Rightarrow> ('a, 's) outcome) \<Rightarrow> 's \<Rightarrow> ('a, 's) outcome" where
  "with_id message p k w = (if route_id p \<le> 0 then (Inl (HttpError 400 message), w) else k (route_id p) w)"


section \<open>Events\<close>

definition events_post :: "auth_context option \<Rightarrow> event_input \<Rightarrow> 'z core_scheme \<Rightarrow> (event_view, 'z core_scheme) outcome" where
  "events_post auth body = as_admin auth (\<lambda>_. createEvent body)"

definition event_patch :: "auth_context option \<Rightarrow> string option \<Rightarrow> event_input \<Rightarrow> 'z core_scheme \<Rightarrow> (event_view, 'z core_scheme) outcome" where
  "event_patch auth p body = as_admin auth (\<lambda>_. with_id ''invalid event id'' p (\<lambda>i. updateEvent i body))"

definition event_delete :: "auth_context option \<Rightarrow> string option \<Rightarrow> 'z core_scheme \<Rightarrow> (unit, 'z core_scheme) outcome" where
  "event_delete auth p = as_admin auth (\<lambda>_. with_id ''invalid event id'' p deleteEvent)"

definition publish_key_get :: "auth_context option \<Rightarrow> string option \<Rightarrow> 'z core_scheme \<Rightarrow> (string option, 'z core_scheme) outcome" where
  "publish_key_get auth p = as_admin auth (\<lambda>_. with_id ''invalid event id'' p (\<lambda>i w. (getPublishKey i w, w)))"

definition publish_key_post :: "auth_context option \<Rightarrow> string option \<Rightarrow> json \<Rightarrow> 'z core_scheme \<Rightarrow>
    (string \<times> bool, 'z core_scheme) outcome" where
  "publish_key_post auth p body = as_admin auth (\<lambda>_. with_id ''invalid event id'' p (\<lambda>i. setPublishKey i (string_field ''key'' body)))"

definition publish_key_delete :: "auth_context option \<Rightarrow> string option \<Rightarrow> 'z core_scheme \<Rightarrow> (unit, 'z core_scheme) outcome" where
  "publish_key_delete auth p = as_admin auth (\<lambda>_. with_id ''invalid event id'' p clearPublishKey)"

definition publish_token_post :: "externals \<Rightarrow> auth_context option \<Rightarrow> string option \<Rightarrow> json \<Rightarrow> 'z core_scheme \<Rightarrow>
    (string \<times> string \<times> bool, 'z core_scheme) outcome" where
  "publish_token_post x auth p body =
     as_admin auth (\<lambda>_. with_id ''invalid event id'' p (\<lambda>i. rotatePublishToken x i (string_field ''token'' body)))"

definition publish_token_delete :: "auth_context option \<Rightarrow> string option \<Rightarrow> 'z core_scheme \<Rightarrow> (unit, 'z core_scheme) outcome" where
  "publish_token_delete auth p = as_admin auth (\<lambda>_. with_id ''invalid event id'' p clearPublishToken)"


section \<open>Keys and roster\<close>

definition two_ids :: "string option \<Rightarrow> string option \<Rightarrow> (int \<Rightarrow> int \<Rightarrow> 's \<Rightarrow> ('a, 's) outcome) \<Rightarrow> 's \<Rightarrow> ('a, 's) outcome" where
  "two_ids p q k = with_id ''invalid id'' p (\<lambda>i. with_id ''invalid id'' q (k i))"

definition key_delete :: "auth_context option \<Rightarrow> string option \<Rightarrow> string option \<Rightarrow> 'z core_scheme \<Rightarrow> (unit, 'z core_scheme) outcome" where
  "key_delete auth p q = as_admin auth (\<lambda>_. two_ids p q revokeKey)"

definition keys_bulk :: "externals \<Rightarrow> auth_context option \<Rightarrow> string option \<Rightarrow> 'z core_scheme \<Rightarrow>
    (generated_key list, 'z core_scheme) outcome" where
  "keys_bulk x auth p = as_admin auth (\<lambda>_. with_id ''invalid event id'' p (generateKeysForUnkeyed x))"

definition keys_index :: "auth_context option \<Rightarrow> string option \<Rightarrow> 'z core_scheme \<Rightarrow> (key_view list, 'z core_scheme) outcome" where
  "keys_index auth p = as_admin auth (\<lambda>_. with_id ''invalid event id'' p (\<lambda>i w. (Inr (listKeys i w), w)))"

definition keys_post :: "externals \<Rightarrow> (rat \<Rightarrow> string) \<Rightarrow> auth_context option \<Rightarrow> string option \<Rightarrow> json \<Rightarrow> 'z core_scheme \<Rightarrow>
    (generated_key, 'z core_scheme) outcome" where
  "keys_post x txt auth p body = as_admin auth (\<lambda>_. with_id ''invalid event id'' p (\<lambda>i w.
     let number = js_trim (str_field txt ''studentNumber'' body); name = js_trim (str_field txt ''name'' body) in
     if number = [] \<or> name = [] then (Inl (HttpError 400 ''studentNumber and name are required''), w)
     else generateKeyForEvent x i \<lparr>gi_studentNumber = number, gi_name = name, gi_email = truthy_field txt ''email'' body,
       gi_seatLabel = truthy_field txt ''seatLabel'' body, gi_streamName = truthy_field txt ''streamName'' body\<rparr> w))"

definition roster_delete :: "auth_context option \<Rightarrow> string option \<Rightarrow> string option \<Rightarrow> 'z core_scheme \<Rightarrow> (unit, 'z core_scheme) outcome" where
  "roster_delete auth p q = as_admin auth (\<lambda>_. two_ids p q removeEnrollment)"

definition roster_line :: "(rat \<Rightarrow> string) \<Rightarrow> json \<Rightarrow> roster_input" where
  "roster_line txt s = \<lparr>ri_studentNumber = Some (str_field txt ''studentNumber'' s), ri_name = Some (str_field txt ''name'' s),
     ri_email = null_field txt ''email'' s, ri_seatLabel = null_field txt ''seatLabel'' s\<rparr>"

definition roster_bulk :: "(rat \<Rightarrow> string) \<Rightarrow> auth_context option \<Rightarrow> string option \<Rightarrow> json \<Rightarrow> 'z core_scheme \<Rightarrow>
    (import_result, 'z core_scheme) outcome" where
  "roster_bulk txt auth p body = as_admin auth (\<lambda>_. with_id ''invalid event id'' p (\<lambda>i w.
     case (case body of JArr ss \<Rightarrow> Some (JArr ss) | _ \<Rightarrow> json_get ''students'' body) of
       Some (JArr ss) \<Rightarrow> importRoster i (map (roster_line txt) ss) w
     | _ \<Rightarrow> (Inl (HttpError 400 ''students array required''), w)))"

definition roster_index :: "auth_context option \<Rightarrow> string option \<Rightarrow> 'z core_scheme \<Rightarrow> (roster_entry list, 'z core_scheme) outcome" where
  "roster_index auth p = as_admin auth (\<lambda>_. with_id ''invalid event id'' p (\<lambda>i w. (listRoster i w, w)))"


section \<open>Groups and invites\<close>

definition groups_index :: "auth_context option \<Rightarrow> 'z core_scheme \<Rightarrow> (group_view list, 'z core_scheme) outcome" where
  "groups_index auth = as_admin auth (\<lambda>_ w. (Inr (listGroups w), w))"

definition groups_post :: "(rat \<Rightarrow> string) \<Rightarrow> auth_context option \<Rightarrow> json \<Rightarrow> 'z core_scheme \<Rightarrow> (group_view, 'z core_scheme) outcome" where
  "groups_post txt auth body = as_admin auth (\<lambda>_ w.
     let name = js_trim (str_field txt ''name'' body) in
     if name = [] then (Inl (HttpError 400 ''name is required''), w)
     else createGroup name (null_field txt ''description'' body) w)"

definition group_delete :: "auth_context option \<Rightarrow> string option \<Rightarrow> 'z core_scheme \<Rightarrow> (unit, 'z core_scheme) outcome" where
  "group_delete auth p = as_admin auth (\<lambda>_. with_id ''invalid group id'' p deleteGroup)"

definition group_get :: "auth_context option \<Rightarrow> string option \<Rightarrow> 'z core_scheme \<Rightarrow> (group_view, 'z core_scheme) outcome" where
  "group_get auth p = as_admin auth (\<lambda>_. with_id ''invalid group id'' p (\<lambda>i w. (toGroupView i w, w)))"

definition group_patch :: "(rat \<Rightarrow> string) \<Rightarrow> auth_context option \<Rightarrow> string option \<Rightarrow> json \<Rightarrow> 'z core_scheme \<Rightarrow>
    (group_view, 'z core_scheme) outcome" where
  "group_patch txt auth p body = as_admin auth (\<lambda>_. with_id ''invalid group id'' p (\<lambda>i.
     updateGroup i (case null_field txt ''name'' body of Some n \<Rightarrow> Val n | None \<Rightarrow> Undefined)
       (case json_get ''description'' body of None \<Rightarrow> Undefined | Some JNull \<Rightarrow> Null | Some v \<Rightarrow> Val (js_String txt v))))"

definition invites_index :: "auth_context option \<Rightarrow> 'z core_scheme \<Rightarrow> (invite_view list, 'z core_scheme) outcome" where
  "invites_index auth = as_admin auth (\<lambda>_ w. (Inr (listInvites w), w))"

text \<open>body?.k != null ? Number(body.k) : null; a number that is not finite is stored as null.\<close>

definition number_field :: "(rat \<Rightarrow> string) \<Rightarrow> string \<Rightarrow> json \<Rightarrow> rat option" where
  "number_field txt k body = (case json_get k body of None \<Rightarrow> None | Some JNull \<Rightarrow> None | Some v \<Rightarrow> json_Number txt v)"

text \<open>Uses are counted in whole numbers; a fraction counts like the next integer, except below one.\<close>

definition uses_of :: "rat \<Rightarrow> int" where
  "uses_of r = (if r < 1 then 0 else \<lceil>r\<rceil>)"

definition invites_post :: "(rat \<Rightarrow> string) \<Rightarrow> auth_context option \<Rightarrow> json \<Rightarrow> 'z core_scheme \<Rightarrow> (invite_view, 'z core_scheme) outcome" where
  "invites_post txt auth body = as_admin auth (\<lambda>a w.
     case Option.bind (json_get ''groupId'' body) (json_Number txt) of
       None \<Rightarrow> (Inl (HttpError 400 ''groupId is required''), w)
     | Some r \<Rightarrow> if of_int \<lfloor>r\<rfloor> \<noteq> r \<or> r \<le> 0 then (Inl (HttpError 400 ''groupId is required''), w)
         else createInvite \<lparr>ii_groupId = \<lfloor>r\<rfloor>, ii_maxUses = map_option uses_of (number_field txt ''maxUses'' body),
                ii_ttlHours = number_field txt ''ttlHours'' body, ii_note = null_field txt ''note'' body\<rparr> (ax_userId a) w)"

definition invite_delete :: "auth_context option \<Rightarrow> string option \<Rightarrow> 'z core_scheme \<Rightarrow> (unit, 'z core_scheme) outcome" where
  "invite_delete auth p = as_admin auth (\<lambda>_. with_id ''invalid invite id'' p removeInvite)"

definition invite_claim :: "auth_context option \<Rightarrow> string option \<Rightarrow> 'z core_scheme \<Rightarrow> (int \<times> string, 'z core_scheme) outcome" where
  "invite_claim auth code w =
     (case requireSession auth of
        Inl e \<Rightarrow> (Inl e, w)
      | Inr a \<Rightarrow> andThen (consumeInvite (orDefault code []) (ax_userId a) w) (\<lambda>g w1.
          case g of None \<Rightarrow> (Inl (HttpError 404 ''invite is invalid or expired''), w1) | Some r \<Rightarrow> (Inr (gr_id r, gr_name r), w1)))"


section \<open>Bans, audit, configuration\<close>

text \<open>The query value of bans: a number that is an integer other than 0, else no filter.\<close>

definition bans_filter :: "string option \<Rightarrow> int option" where
  "bans_filter q = (case q of None \<Rightarrow> None | Some t \<Rightarrow> if t = [] then None else
     (case js_Number t of None \<Rightarrow> None | Some r \<Rightarrow> if of_int \<lfloor>r\<rfloor> = r \<and> r \<noteq> 0 then Some \<lfloor>r\<rfloor> else None))"

definition bans_index :: "auth_context option \<Rightarrow> string option \<Rightarrow> 'z core_scheme \<Rightarrow> (stream_ban_row list, 'z core_scheme) outcome" where
  "bans_index auth q = as_admin auth (\<lambda>_ w. (Inr (listBans (bans_filter q) w), w))"

text \<open>The fields eventId and reason have the types of the body's annotation.\<close>

definition bans_post :: "(rat \<Rightarrow> string) \<Rightarrow> auth_context option \<Rightarrow> json \<Rightarrow> int option \<Rightarrow> string option \<Rightarrow> 'z core_scheme \<Rightarrow>
    (stream_ban_row, 'z core_scheme) outcome" where
  "bans_post txt auth body ev reason = as_admin auth (\<lambda>a w.
     let email = js_trim (str_field txt ''email'' body) in
     if email = [] then (Inl (HttpError 400 ''email is required''), w)
     else ban \<lparr>bi_email = email, bi_eventId = ev, bi_reason = reason,
            bi_bannedBy = Some (''user#'' @ int_str (ax_userId a))\<rparr> w)"

definition ban_delete :: "auth_context option \<Rightarrow> string option \<Rightarrow> 'z core_scheme \<Rightarrow> (unit, 'z core_scheme) outcome" where
  "ban_delete auth p = as_admin auth (\<lambda>a. with_id ''invalid id'' p
     (\<lambda>i w. (Inr (), unban i (Some (''user#'' @ int_str (ax_userId a))) w)))"

definition AUDIT_LEVELS :: "(string \<times> audit_level) list" where
  "AUDIT_LEVELS = [(''info'', LInfo), (''warn'', LWarn), (''error'', LError)]"

definition AUDIT_CATEGORIES :: "(string \<times> audit_category) list" where
  "AUDIT_CATEGORIES =
     [(''auth'', CAuth),
      (''publish'', CPublish),
      (''access'', CAccess),
      (''config'', CConfig),
      (''recording'', CRecording),
      (''system'', CSystem),
      (''admin'', CAdmin)]"

definition pick :: "string option \<Rightarrow> (string \<times> 'a) list \<Rightarrow> 'a option" where
  "pick v allowed = Option.bind v (map_of allowed)"

text \<open>A query; the page and its size are integers where they are given.  A number no row can have
  stands for a fraction; one that is not finite is no filter.\<close>

record audit_query =
  aq_level :: "string option"
  aq_category :: "string option"
  aq_eventId :: "string option"
  aq_q :: "string option"
  aq_page :: "int option"
  aq_pageSize :: "int option"

definition audit_event :: "string option \<Rightarrow> int option" where
  "audit_event q = (case q of None \<Rightarrow> None | Some t \<Rightarrow> if t = [] then None else
     map_option (\<lambda>r. if of_int \<lfloor>r\<rfloor> = r then \<lfloor>r\<rfloor> else - 1) (js_Number t))"

definition audit_index :: "auth_context option \<Rightarrow> audit_query \<Rightarrow> 'z core_scheme \<Rightarrow> (audit_page, 'z core_scheme) outcome" where
  "audit_index auth q = as_admin auth (\<lambda>_ w. (Inr (listAudit
     \<lparr>af_level = pick (aq_level q) AUDIT_LEVELS, af_category = pick (aq_category q) AUDIT_CATEGORIES,
      af_eventId = audit_event (aq_eventId q), af_actor = None, af_involvedEmail = None, af_q = aq_q q\<rparr>
     (aq_page q) (aq_pageSize q) w), w))"

definition audit_mine :: "auth_context option \<Rightarrow> audit_query \<Rightarrow> 'z db_scheme \<Rightarrow> error + audit_page" where
  "audit_mine auth q d = (case requireSession auth of
     Inl e \<Rightarrow> Inl e
   | Inr a \<Rightarrow> (case UsersRepository_findById (ax_userId a) d of
        None \<Rightarrow> Inl (HttpError 401 ''account not found'')
      | Some u \<Rightarrow> Inr (listAudit
          \<lparr>af_level = pick (aq_level q) AUDIT_LEVELS, af_category = pick (aq_category q) AUDIT_CATEGORIES,
           af_eventId = None, af_actor = None, af_involvedEmail = Some (us_email u), af_q = aq_q q\<rparr>
          (aq_page q) (aq_pageSize q) d)))"

definition config_get :: "auth_context option \<Rightarrow> 'z world_scheme \<Rightarrow> (app_config, 'z world_scheme) outcome" where
  "config_get auth = as_admin auth (\<lambda>_ w. let (c, w1) = getConfig w in (Inr c, w1))"

definition config_patch :: "auth_context option \<Rightarrow> json \<Rightarrow> 'z world_scheme \<Rightarrow> (app_config, 'z world_scheme) outcome" where
  "config_patch auth body = as_admin auth (\<lambda>_. updateConfig body)"


section \<open>The latency probe\<close>

text \<open>pwd is probeIcePwd, derived from the node token.\<close>

definition PROBE_UFRAG :: string where "PROBE_UFRAG = ''probe''"

definition DUMMY_FP :: string where
  "DUMMY_FP = js_join '':'' (replicate 32 ''00'')"

definition CRLF :: string where "CRLF = [CHR 0x0D, CHR 0x0A]"

definition probe_sdp :: "string \<Rightarrow> string \<Rightarrow> int \<Rightarrow> string" where
  "probe_sdp pwd host port = js_join CRLF
     [''v=0'',
      ''o=- 0 0 IN IP4 127.0.0.1'',
      ''s=latency-probe'',
      ''t=0 0'',
      ''a=group:BUNDLE 0'',
      ''a=ice-options:trickle'',
      ''m=application 9 UDP/DTLS/SCTP webrtc-datachannel'',
      ''c=IN IP4 0.0.0.0'',
      ''a=mid:0'',
      ''a=ice-ufrag:'' @ PROBE_UFRAG,
      ''a=ice-pwd:'' @ pwd,
      ''a=fingerprint:sha-256 '' @ DUMMY_FP,
      ''a=setup:active'',
      ''a=sctp-port:5000'',
      ''a=candidate:1 1 udp 2130706431 '' @ host @ '' '' @ int_str port @ '' typ host generation 0''] @ CRLF"

definition probe_ice :: "string \<Rightarrow> auth_context option \<Rightarrow> string option \<Rightarrow> 'z world_scheme \<Rightarrow> error + string" where
  "probe_ice pwd auth nodeId w =
     (case requireUser auth of
        Inl e \<Rightarrow> Inl e
      | Inr _ \<Rightarrow> (case getNode (orDefault nodeId []) w of
          None \<Rightarrow> Inl (HttpError 404 ''node not found'')
        | Some n \<Rightarrow>
            if nd_publicProbeUdpPort n = 0
            then Inl (HttpError 501 (''node firmware has no probe port '' @ EM_DASH @ '' falling back to server-side probe''))
            else if nd_publicOrigin n = []
            then Inl (HttpError 501 (''node has no public authority '' @ EM_DASH @ '' server-side probe only''))
            else Inr (probe_sdp pwd (nd_publicOrigin n) (nd_publicProbeUdpPort n))))"


section \<open>All the requests of an administrator\<close>

text \<open>The environment of the handlers: the parameters of the components they call.\<close>

record api_env =
  ap_x :: externals
  ap_txt :: "rat \<Rightarrow> string"
  ap_stringify :: "json \<Rightarrow> string"
  ap_mail :: mail_env
  ap_day :: "int \<Rightarrow> string"
  ap_hash :: "string list \<Rightarrow> string"
  ap_join :: "string list \<Rightarrow> bool \<Rightarrow> int option"
  ap_relayed :: "error + string list"
  ap_killed :: bool

datatype admin_request =
    PostEvent event_input | PatchEvent "string option" event_input | DeleteEvent "string option"
  | GetPublishKey "string option" | PostPublishKey "string option" json | DeletePublishKey "string option"
  | PostPublishToken "string option" json | DeletePublishToken "string option" | GetStats int
  | DeleteKey "string option" "string option" | BulkKeys "string option" | ListKeys "string option" | PostKey "string option" json
  | DeleteRoster "string option" "string option" | BulkRoster "string option" json | ListRoster "string option"
  | ListGroups | PostGroup json | DeleteGroup "string option" | GetGroup "string option" | PatchGroup "string option" json
  | ListInvites | PostInvite json | DeleteInvite "string option"
  | ListBans "string option" | PostBan json "int option" "string option" | DeleteBan "string option"
  | GetAudit audit_query | GetConfig | PatchConfig json
  | GetMail | PutMail json | PutPostSchemas json | TestMail string
  | ListMediaNodes | PatchMediaNode string "rat option"
  | ListRecordings recording_filters | GetRecording int | DeleteRecording int | GetRecordingFile int bool "string option"
  | ListStreams "int option" | KickClient string string string
  | ListUsers | PatchUser int user_patch_body | DeleteUser int

definition forget :: "('a, 's) outcome \<Rightarrow> (unit, 's) outcome" where
  "forget r = (map_sum id (\<lambda>_. ()) (fst r), snd r)"

definition reading :: "error + 'a \<Rightarrow> 's \<Rightarrow> (unit, 's) outcome" where
  "reading r w = forget (r, w)"

fun admin_api :: "api_env \<Rightarrow> auth_context option \<Rightarrow> admin_request \<Rightarrow> ws_server \<Rightarrow> (unit, ws_server) outcome" where
  "admin_api v a (PostEvent b) w = forget (events_post a b w)"
| "admin_api v a (PatchEvent p b) w = forget (event_patch a p b w)"
| "admin_api v a (DeleteEvent p) w = event_delete a p w"
| "admin_api v a (GetPublishKey p) w = forget (publish_key_get a p w)"
| "admin_api v a (PostPublishKey p b) w = forget (publish_key_post a p b w)"
| "admin_api v a (DeletePublishKey p) w = publish_key_delete a p w"
| "admin_api v a (PostPublishToken p b) w = forget (publish_token_post (ap_x v) a p b w)"
| "admin_api v a (DeletePublishToken p) w = publish_token_delete a p w"
| "admin_api v a (GetStats i) w = reading (stats_get a i w) w"
| "admin_api v a (DeleteKey p q) w = key_delete a p q w"
| "admin_api v a (BulkKeys p) w = forget (keys_bulk (ap_x v) a p w)"
| "admin_api v a (ListKeys p) w = forget (keys_index a p w)"
| "admin_api v a (PostKey p b) w = forget (keys_post (ap_x v) (ap_txt v) a p b w)"
| "admin_api v a (DeleteRoster p q) w = roster_delete a p q w"
| "admin_api v a (BulkRoster p b) w = forget (roster_bulk (ap_txt v) a p b w)"
| "admin_api v a (ListRoster p) w = forget (roster_index a p w)"
| "admin_api v a ListGroups w = forget (groups_index a w)"
| "admin_api v a (PostGroup b) w = forget (groups_post (ap_txt v) a b w)"
| "admin_api v a (DeleteGroup p) w = group_delete a p w"
| "admin_api v a (GetGroup p) w = forget (group_get a p w)"
| "admin_api v a (PatchGroup p b) w = forget (group_patch (ap_txt v) a p b w)"
| "admin_api v a ListInvites w = forget (invites_index a w)"
| "admin_api v a (PostInvite b) w = forget (invites_post (ap_txt v) a b w)"
| "admin_api v a (DeleteInvite p) w = invite_delete a p w"
| "admin_api v a (ListBans q) w = forget (bans_index a q w)"
| "admin_api v a (PostBan b ev r) w = forget (bans_post (ap_txt v) a b ev r w)"
| "admin_api v a (DeleteBan p) w = ban_delete a p w"
| "admin_api v a (GetAudit q) w = forget (audit_index a q w)"
| "admin_api v a GetConfig w = forget (config_get a w)"
| "admin_api v a (PatchConfig b) w = forget (config_patch a b w)"
| "admin_api v a GetMail w = forget (mail_config_get a w)"
| "admin_api v a (PutMail b) w = forget (mail_config_put a b w)"
| "admin_api v a (PutPostSchemas b) w = mail_post_schemas_put (ap_stringify v) a b w"
| "admin_api v a (TestMail t) w = mail_test (ap_mail v) a t w"
| "admin_api v a ListMediaNodes w = reading (media_nodes_index a w) w"
| "admin_api v a (PatchMediaNode n m) w = forget (media_node_patch a n m w)"
| "admin_api v a (ListRecordings f) w = reading (recordings_index a (ap_day v) f w) w"
| "admin_api v a (GetRecording i) w = reading (recording_get a i w) w"
| "admin_api v a (DeleteRecording i) w = recording_delete a i w"
| "admin_api v a (GetRecordingFile i dl rq) w = forget (file_get a i dl rq (ap_hash v) (ap_join v) (ap_relayed v) w)"
| "admin_api v a (ListStreams ev) w = reading (streams_index a ev w) w"
| "admin_api v a (KickClient c e r) w = forget (clients_delete a c e r (ap_killed v) w)"
| "admin_api v a ListUsers w = reading (users_index a w) w"
| "admin_api v a (PatchUser i b) w = user_patch a i b w"
| "admin_api v a (DeleteUser i) w = user_delete a i w"

declare admin_api.simps [simp del]

lemma admin_api_refused:
  assumes "\<not> (\<exists>c. a = Some c \<and> ax_role c = RAdmin)"
  shows "admin_api v a r w = (Inl (HttpError 403 ''admin privileges required''), w)"
proof -
  have "requireAdmin a = Inl (HttpError 403 ''admin privileges required'')"
    using assms by (auto simp: requireAdmin_def split: option.split)
  then show ?thesis
    by (cases r)
      (simp_all add: admin_api.simps forget_def reading_def as_admin_def events_post_def event_patch_def event_delete_def
        publish_key_get_def publish_key_post_def publish_key_delete_def publish_token_post_def publish_token_delete_def
        stats_get_def key_delete_def keys_bulk_def keys_index_def keys_post_def roster_delete_def roster_bulk_def roster_index_def
        groups_index_def groups_post_def group_delete_def group_get_def group_patch_def invites_index_def invites_post_def
        invite_delete_def bans_index_def bans_post_def ban_delete_def audit_index_def config_get_def config_patch_def
        mail_config_get_def mail_config_put_def mail_post_schemas_put_def mail_test_def media_nodes_index_def
        media_node_patch_def recordings_index_def recording_get_def recording_delete_def file_get_def streams_index_def
        clients_delete_def users_index_def user_patch_def user_delete_def)
qed

text \<open>Not one of the administrators' requests does anything for a caller who is not one: it is
  refused with the same 403 and the state of the server is untouched.\<close>

theorem admin_api_gated:
  assumes "\<And>c. a = Some c \<Longrightarrow> ax_role c \<noteq> RAdmin"
  shows "admin_api v a r w = (Inl (HttpError 403 ''admin privileges required''), w)"
  using assms by (intro admin_api_refused) blast

definition demo_env :: api_env where
  "demo_env = \<lparr>ap_x = demo_externals, ap_txt = (\<lambda>_. []), ap_stringify = (\<lambda>_. []),
     ap_mail = \<lparr>me_parse = (\<lambda>_. None), me_deliver = (\<lambda>_. Inl ''down''),
       me_accountLimit = \<lparr>el_allowed = True, el_minute = False, el_address = False, el_retryInSeconds = None, el_dailyLimit = 24\<rparr>,
       me_addressLimit = \<lparr>el_allowed = True, el_minute = False, el_address = True, el_retryInSeconds = None, el_dailyLimit = 10\<rparr>,
       me_card = ''<p></p>''\<rparr>,
     ap_day = (\<lambda>_. []), ap_hash = concat, ap_join = (\<lambda>_ _. None), ap_relayed = Inr [], ap_killed = False\<rparr>"

theorem admin_api_gated_witness:
  "admin_api demo_env (Some \<lparr>ax_userId = 2, ax_role = RUser\<rparr>) (DeleteRecording 1) archive
     = (Inl (HttpError 403 ''admin privileges required''), archive)"
  by (rule admin_api_gated) simp

end
