(* ===== verification/Served.thy ===== *)
theory Served
  imports Prelude
begin

text \<open>
  The contract of a group of request handlers behind a gate, and what follows from it for every
  sequence of requests.
\<close>

text \<open>Requests of anyone, one after the other.\<close>

fun serve :: "('c \<Rightarrow> 'r \<Rightarrow> 's \<Rightarrow> ('a, 's) outcome) \<Rightarrow> ('c \<times> 'r) list \<Rightarrow> 's \<Rightarrow> 's" where
  "serve api [] s = s"
| "serve api ((c, r) # rs) s = serve api rs (snd (api c r s))"

locale gated_api =
  fixes api :: "'c \<Rightarrow> 'r \<Rightarrow> 's \<Rightarrow> ('a, 's) outcome" and allowed :: "'c \<Rightarrow> 'r \<Rightarrow> bool" and sound :: "'s \<Rightarrow> bool"
  assumes refused: "\<not> allowed c r \<Longrightarrow> snd (api c r s) = s"
    and keeps_sound: "sound s \<Longrightarrow> sound (snd (api c r s))"
begin

lemma serve_sound: "sound s \<Longrightarrow> sound (serve api rs s)"
proof (induction rs arbitrary: s)
  case (Cons e rs)
  then show ?case by (cases e) (simp add: keeps_sound)
qed simp

lemma serve_allowed: "serve api rs s = serve api (filter (\<lambda>(c, r). allowed c r) rs) s"
proof (induction rs arbitrary: s)
  case (Cons e rs)
  then show ?case by (cases e) (simp add: refused)
qed simp

lemma serve_refused: "list_all (\<lambda>(c, r). \<not> allowed c r) rs \<Longrightarrow> serve api rs s = s"
  by (induction rs) (auto simp: refused)

end

end
