(* ===== verification/ApiIntegrity.thy ===== *)
theory ApiIntegrity
  imports AdminApi LiveRun Served
begin

text \<open>
  The database under the requests of the administrators: every handler, on each of its branches and
  errors, keeps the constraints of the schema, so no sequence of requests breaks them.
\<close>

named_theorems keeps "operations that keep the database's integrity"

lemma andThen_keeps [keeps]:
  "integrity (snd r) \<Longrightarrow> (\<And>y s. integrity s \<Longrightarrow> integrity (snd (k y s))) \<Longrightarrow> integrity (snd (andThen r k))"
  by (rule andThen_state)

declare repository_integrity [keeps] audit_integrity [keeps] user_patch_integrity [keeps]
  randomBytes_integrity [keeps]

section \<open>Events\<close>

lemma choose_secret_keeps [keeps]: "integrity w \<Longrightarrow> integrity (snd (choose_secret what c w))"
  by (auto simp: choose_secret_def generateToken_def Let_def case_prod_unfold split: maybe.split intro!: keeps)

lemma createEvent_keeps [keeps]: "integrity w \<Longrightarrow> integrity (snd (createEvent b w))"
  by (auto simp: createEvent_def event_created_def Let_def split: sum.split option.split maybe.split intro!: keeps)

lemma rename_set_keeps [keeps]: "integrity w \<Longrightarrow> integrity (snd (rename_set m e w))"
  by (auto simp: rename_set_def Let_def split: sum.split maybe.split intro!: keeps)

lemma eventGroups_keeps [keeps]: "integrity w \<Longrightarrow> integrity (w\<lparr>t_eventGroups := filter P (t_eventGroups w)\<rparr>)"
  by (auto simp: schema_decls distinct_map_filter)

lemma update_scope_keeps [keeps]: "integrity w \<Longrightarrow> integrity (snd (update_scope i m w))"
  by (auto simp: update_scope_def split: maybe.split intro!: keeps)

lemma event_updated_keeps [keeps]: "integrity w \<Longrightarrow> integrity (snd (event_updated i g names name w))"
  by (auto simp: event_updated_def Let_def split: sum.split intro!: keeps)

lemma updateEvent_keeps [keeps]: "integrity w \<Longrightarrow> integrity (snd (updateEvent i b w))"
  by (auto simp: updateEvent_def Let_def split: sum.split option.split intro!: keeps)

lemma deleteEvent_keeps [keeps]: "integrity w \<Longrightarrow> integrity (snd (deleteEvent i w))"
  by (auto simp: deleteEvent_def Let_def split: sum.split intro!: keeps)

lemma hashToken_keeps [keeps]: "integrity w \<Longrightarrow> integrity (snd (hashToken x t w))"
  by (auto simp: hashToken_def hashPassword_def Let_def case_prod_unfold intro!: keeps)

lemma rotatePublishToken_keeps [keeps]: "integrity w \<Longrightarrow> integrity (snd (rotatePublishToken x i c w))"
  by (auto simp: rotatePublishToken_def Let_def case_prod_unfold split: sum.split intro!: keeps)

lemma clearPublishToken_keeps [keeps]: "integrity w \<Longrightarrow> integrity (snd (clearPublishToken i w))"
  by (auto simp: clearPublishToken_def split: sum.split intro!: keeps)

lemma setPublishKey_keeps [keeps]: "integrity w \<Longrightarrow> integrity (snd (setPublishKey i c w))"
  by (auto simp: setPublishKey_def Let_def case_prod_unfold split: sum.split intro!: keeps)

lemma clearPublishKey_keeps [keeps]: "integrity w \<Longrightarrow> integrity (snd (clearPublishKey i w))"
  by (auto simp: clearPublishKey_def split: sum.split intro!: keeps)


section \<open>Keys and roster\<close>

lemma revokeKey_keeps [keeps]: "integrity w \<Longrightarrow> integrity (snd (revokeKey ev i w))"
  by (auto simp: revokeKey_def split: option.split intro!: keeps)

lemma upsert_student_keeps [keeps]: "integrity w \<Longrightarrow> integrity (snd (upsert_student n m e w))"
  by (auto simp: upsert_student_def Let_def split: option.split intro!: keeps)

lemma find_enrollment_keeps [keeps]: "integrity w \<Longrightarrow> integrity (snd (find_enrollment ev st seat w))"
  by (auto simp: find_enrollment_def split: option.split intro!: keeps)

lemma store_key_keeps [keeps]: "integrity w \<Longrightarrow> integrity (snd (store_key ev en n h p w))"
  by (auto simp: store_key_def split: option.split intro!: keeps)

lemma streamNameFor_keeps [keeps]: "integrity w \<Longrightarrow> integrity (snd (streamNameFor b w))"
  by (auto simp: streamNameFor_def Let_def case_prod_unfold intro!: keeps)

lemma generateToken_keeps [keeps]: "integrity w \<Longrightarrow> integrity (snd (generateToken n w))"
  by (auto simp: generateToken_def Let_def case_prod_unfold intro!: keeps)

lemma issue_key_keeps [keeps]: "integrity w \<Longrightarrow> integrity (snd (issue_key x ev input n st e w))"
  by (auto simp: issue_key_def Let_def case_prod_unfold intro!: keeps)

lemma generateKeyForEvent_keeps [keeps]: "integrity w \<Longrightarrow> integrity (snd (generateKeyForEvent x ev input w))"
  by (auto simp: generateKeyForEvent_def Let_def split: option.split intro!: keeps)

lemma generate_each_keeps [keeps]: "integrity w \<Longrightarrow> integrity (snd (generate_each x ev es w))"
proof (induction es arbitrary: w)
  case (Cons e es)
  obtain a b where e: "e = (a, b)" by (cases e)
  show ?case unfolding e generate_each.simps
    by (intro andThen_keeps generateKeyForEvent_keeps Cons.IH Cons.prems) simp_all
qed simp

lemma generateKeysForUnkeyed_keeps [keeps]: "integrity w \<Longrightarrow> integrity (snd (generateKeysForUnkeyed x ev w))"
  by (auto simp: generateKeysForUnkeyed_def Let_def split: option.split intro!: keeps)

lemma import_one_keeps [keeps]: "integrity w \<Longrightarrow> integrity (snd (import_one ev s w))"
  unfolding import_one_def Let_def
  by (auto split: option.split intro!: andThen_keeps StudentsRepository_integrity EnrollmentsRepository_integrity)

lemma import_all_keeps [keeps]: "integrity w \<Longrightarrow> integrity (snd (import_all ev ss c u w))"
proof (induction ss arbitrary: c u w)
  case (Cons s ss)
  then show ?case unfolding import_all.simps by (intro andThen_keeps import_one_keeps)
qed simp

lemma importRoster_keeps [keeps]: "integrity w \<Longrightarrow> integrity (snd (importRoster ev ss w))"
  by (auto simp: importRoster_def case_prod_unfold split: option.split intro!: keeps)

lemma removeEnrollment_keeps [keeps]: "integrity w \<Longrightarrow> integrity (snd (removeEnrollment ev i w))"
  by (auto simp: removeEnrollment_def Let_def split: option.split intro!: keeps)


section \<open>Groups, invites, bans\<close>

lemma createGroup_keeps [keeps]: "integrity w \<Longrightarrow> integrity (snd (createGroup n d w))"
  by (auto simp: createGroup_def Let_def intro!: keeps)

lemma updateGroup_keeps [keeps]: "integrity w \<Longrightarrow> integrity (snd (updateGroup i n d w))"
  by (auto simp: updateGroup_def Let_def split: option.split sum.split intro!: keeps)

lemma deleteGroup_keeps [keeps]: "integrity w \<Longrightarrow> integrity (snd (deleteGroup i w))"
  by (auto simp: deleteGroup_def split: option.split intro!: keeps)

lemma setUserGroups_keeps [keeps]: "integrity w \<Longrightarrow> integrity (snd (setUserGroups i gs w))"
  by (auto simp: setUserGroups_def split: option.split intro!: keeps)

lemma setUserRole_keeps [keeps]: "integrity w \<Longrightarrow> integrity (snd (setUserRole i r w))"
  by (auto simp: setUserRole_def split: option.split intro!: keeps)

lemma try_codes_keeps [keeps]: "integrity w \<Longrightarrow> integrity (snd (try_codes n w))"
proof (induction n arbitrary: w)
  case (Suc n)
  have "integrity (snd (randomBytes CODE_BYTES w))" using Suc.prems by (rule randomBytes_integrity)
  with Suc.IH show ?case by (auto simp: Let_def case_prod_unfold)
qed simp

lemma createInvite_keeps [keeps]: "integrity w \<Longrightarrow> integrity (snd (createInvite input u w))"
  by (auto simp: createInvite_def generateUniqueCode_def Let_def intro!: keeps split: option.split)

lemma removeInvite_keeps [keeps]: "integrity w \<Longrightarrow> integrity (snd (removeInvite i w))"
  by (auto simp: removeInvite_def split: sum.split intro!: keeps)

lemma ban_keeps [keeps]: "integrity w \<Longrightarrow> integrity (snd (ban input w))"
  by (auto simp: ban_def Let_def split: option.split intro!: keeps)

lemma unban_keeps [keeps]: "integrity w \<Longrightarrow> integrity (unban i a w)"
  by (auto simp: unban_def Let_def split: option.split intro!: keeps)


section \<open>Configuration, mail, nodes\<close>

lemma caches_integrity [simp]:
  fixes w :: "'z world_scheme"
  shows "integrity (w\<lparr>mail_cache := mc\<rparr>) = integrity w" "integrity (w\<lparr>probe_sem := ps\<rparr>) = integrity w"
  by (simp_all add: schema_decls)

lemma getMailConfig_keeps [keeps]: "integrity w \<Longrightarrow> integrity (snd (getMailConfig w))"
  by (auto simp: getMailConfig_def Let_def split: option.split)

lemma updateConfig_keeps [keeps]: "integrity w \<Longrightarrow> integrity (snd (updateConfig b w))"
  by (auto simp: updateConfig_def AppConfigRepository_upsert_def invalidateConfig_def Let_def case_prod_unfold
      split: option.split intro!: keeps)

lemma saveMailConfig_keeps [keeps]: "integrity w \<Longrightarrow> integrity (snd (saveMailConfig p w))"
  by (auto simp: saveMailConfig_def Let_def case_prod_unfold split: option.split intro!: keeps)

lemma isMailConfigured_keeps [keeps]: "integrity w \<Longrightarrow> integrity (snd (isMailConfigured w))"
  by (auto simp: isMailConfigured_def case_prod_unfold Let_def intro!: keeps)

lemma sendMail_keeps [keeps]: "integrity w \<Longrightarrow> integrity (snd (sendMailWithConfig parse deliver c m w))"
  by (auto simp: sendMailWithConfig_def case_prod_unfold Let_def split: option.split sum.split intro!: keeps)

lemma mail_test_keeps [keeps]: "integrity w \<Longrightarrow> integrity (snd (mail_test m a t w))"
  by (auto simp: mail_test_def case_prod_unfold Let_def split: sum.split intro!: keeps)

lemma emitNodesChanged_keeps [keeps]: "integrity w \<Longrightarrow> integrity (emitNodesChanged w)"
  by (simp add: emitNodesChanged_def)

lemma media_node_patch_keeps [keeps]: "integrity w \<Longrightarrow> integrity (snd (media_node_patch a n m w))"
  by (auto simp: media_node_patch_def Let_def case_prod_unfold split: sum.split option.split intro!: keeps)

lemma patch_announcement_keeps [keeps]: "integrity w \<Longrightarrow> integrity (snd (patch_announcement a i raw w))"
  unfolding patch_announcement_def Let_def
  by (auto split: option.split json.split intro!: audit_integrity user_patch_integrity)

lemma patch_role_keeps [keeps]: "integrity w \<Longrightarrow> integrity (snd (patch_role i r w))"
  unfolding patch_role_def by (auto split: option.split intro!: setUserRole_keeps)

lemma patch_node_keeps [keeps]: "integrity w \<Longrightarrow> integrity (snd (patch_node i n w))"
  unfolding patch_node_def Let_def
  by (auto split: option.split intro!: emitNodesChanged_keeps audit_integrity user_patch_integrity)

lemma user_patch_keeps [keeps]: "integrity w \<Longrightarrow> integrity (snd (user_patch a i b w))"
  unfolding user_patch_def
  by (auto split: sum.split option.split intro!: andThen_keeps patch_announcement_keeps patch_role_keeps setUserGroups_keeps
      patch_node_keeps)

lemma user_delete_keeps [keeps]: "integrity w \<Longrightarrow> integrity (snd (user_delete a i w))"
  by (auto simp: user_delete_def Let_def split: sum.split option.split intro!: keeps)

lemma enqueue_integrity [simp]: "integrity (enqueue p f s) = integrity s"
  by (simp add: enqueue_def schema_decls)

lemma deleteRecording_keeps [keeps]: "integrity w \<Longrightarrow> integrity (snd (deleteRecording i w))"
  by (auto simp: deleteRecording_def Let_def sendRecordingDelete_def wsSendKind_def drop_files_def
      split: sum.split option.split intro!: keeps)

lemma file_get_keeps [keeps]: "integrity w \<Longrightarrow> integrity (snd (file_get a i dl rq hash jn rel w))"
  by (auto simp: file_get_def Let_def split: sum.split option.split)

lemma clients_delete_keeps [keeps]: "integrity w \<Longrightarrow> integrity (snd (clients_delete a c e r k w))"
  unfolding clients_delete_def Let_def
  by (auto simp: kickStream_def wsSendKind_def case_prod_unfold split: sum.split option.split intro!: keeps)


section \<open>Every request\<close>

lemma snd_forget [simp]: "snd (forget r) = snd r"
  by (simp add: forget_def)

lemma snd_reading [simp]: "snd (reading r w) = w"
  by (simp add: reading_def)

lemma as_admin_keeps:
  assumes "integrity w" "\<And>a. integrity (snd (k a w))"
  shows "integrity (snd (as_admin auth k w))"
  using assms by (auto simp: as_admin_def split: sum.split)

lemma with_id_keeps:
  assumes "integrity w" "\<And>i. integrity (snd (k i w))"
  shows "integrity (snd (with_id m p k w))"
  using assms by (auto simp: with_id_def)

lemmas event_handlers = events_post_def event_patch_def event_delete_def publish_key_get_def publish_key_post_def
  publish_key_delete_def publish_token_post_def publish_token_delete_def

lemmas roster_handlers = key_delete_def keys_bulk_def keys_index_def keys_post_def roster_delete_def roster_bulk_def
  roster_index_def two_ids_def

lemmas group_handlers = groups_index_def groups_post_def group_delete_def group_get_def group_patch_def invites_index_def
  invites_post_def invite_delete_def bans_index_def bans_post_def ban_delete_def audit_index_def

lemmas config_handlers = config_get_def config_patch_def mail_config_get_def mail_config_put_def mail_post_schemas_put_def

lemma admin_api_keeps:
  assumes "integrity w"
  shows "integrity (snd (admin_api v a r w))"
proof (cases r)
  case (PostKey p b)
  show ?thesis using assms unfolding PostKey admin_api.simps snd_forget keys_post_def Let_def
    by (auto intro!: as_admin_keeps with_id_keeps generateKeyForEvent_keeps)
next
  case (BulkRoster p b)
  show ?thesis using assms unfolding BulkRoster admin_api.simps snd_forget roster_bulk_def
    by (auto split: option.split json.split intro!: as_admin_keeps with_id_keeps importRoster_keeps)
next
  case (PostInvite b)
  show ?thesis using assms unfolding PostInvite admin_api.simps snd_forget invites_post_def
    by (auto split: option.split intro!: as_admin_keeps createInvite_keeps)
qed (use assms in \<open>auto simp: admin_api.simps event_handlers roster_handlers group_handlers config_handlers Let_def case_prod_unfold
    recording_delete_def split: sum.split option.split intro!: as_admin_keeps with_id_keeps keeps\<close>)

definition is_administrator :: "auth_context option \<Rightarrow> bool" where
  "is_administrator a \<longleftrightarrow> (case a of None \<Rightarrow> False | Some c \<Rightarrow> ax_role c = RAdmin)"

interpretation administration: gated_api "admin_api v" "\<lambda>a _. is_administrator a" integrity
  by unfold_locales (simp_all add: admin_api_refused admin_api_keeps is_administrator_def split: option.splits)

end
