(* ===== verification/UserApi.thy ===== *)
theory UserApi
  imports ApiIntegrity
begin

text \<open>
  The requests any account may make, on its own behalf: the own profile and password, the choice of a
  media node, the claim of an invite link, the own audit trail, and the events it may see.  They act on
  the rows of the account that asks and on no other's.
\<close>

datatype user_request =
    MeGet | MePatch "json option" | MePassword string string | AuditMine audit_query
  | NodesIndex | NodesMeasure "(string \<times> rat) list" | NodesSelect string | ProbeIce "string option"
  | ClaimInvite "string option"

text \<open>pwd is the ICE password derived from the node token.\<close>

fun user_api :: "api_env \<Rightarrow> string \<Rightarrow> auth_context option \<Rightarrow> user_request \<Rightarrow> ws_server \<Rightarrow> (unit, ws_server) outcome" where
  "user_api v pwd a MeGet w = forget (me_get a w)"
| "user_api v pwd a (MePatch n) w = forget (me_patch a n w)"
| "user_api v pwd a (MePassword c n) w = me_password (ap_x v) a c n w"
| "user_api v pwd a (AuditMine q) w = reading (audit_mine a q w) w"
| "user_api v pwd a NodesIndex w = reading (nodes_index a w) w"
| "user_api v pwd a (NodesMeasure ls) w = forget (nodes_measure a ls w)"
| "user_api v pwd a (NodesSelect n) w = forget (nodes_select a n w)"
| "user_api v pwd a (ProbeIce n) w = reading (probe_ice pwd a n w) w"
| "user_api v pwd a (ClaimInvite c) w = forget (invite_claim a c w)"

declare user_api.simps [simp del]

lemma user_api_refused: "snd (user_api v pwd None r w) = w"
  by (cases r) (simp_all add: user_api.simps me_get_def me_patch_def me_password_def nodes_measure_def nodes_select_def
      invite_claim_def requireUser_def requireSession_def)


section \<open>Integrity\<close>

lemma mintAuthmod_keeps [keeps]: "integrity w \<Longrightarrow> integrity (snd (mintAuthmod x u p w))"
  by (auto simp: mintAuthmod_def generateSalt_def encrypt_def Let_def case_prod_unfold intro!: keeps)

lemma hashPassword_keeps [keeps]: "integrity w \<Longrightarrow> integrity (snd (hashPassword x p w))"
  by (auto simp: hashPassword_def Let_def case_prod_unfold intro!: keeps)

lemma record_latencies_keeps [keeps]: "integrity w \<Longrightarrow> integrity (snd (record_latencies u known ls w))"
proof (induction ls arbitrary: w)
  case (Cons l ls)
  obtain i ms where l: "l = (i, ms)" by (cases l)
  show ?case unfolding l record_latencies.simps
    by (auto intro!: andThen_keeps NodeLatenciesRepository_integrity Cons)
qed simp

lemma backfill_keeps [keeps]: "integrity w \<Longrightarrow> integrity (snd (backfill u w))"
  by (auto simp: backfill_def split: option.split intro!: keeps)

lemma consumeInvite_keeps [keeps]: "integrity w \<Longrightarrow> integrity (snd (consumeInvite c u w))"
  by (auto simp: consumeInvite_def split: option.split intro!: keeps)

lemma getConfig_keeps [keeps]: "integrity w \<Longrightarrow> integrity (snd (getConfig w))"
  by (simp add: getConfig_integrity)

lemma user_api_keeps: "integrity w \<Longrightarrow> integrity (snd (user_api v pwd a r w))"
  by (cases r) (auto simp: user_api.simps me_get_def me_patch_def me_password_def nodes_measure_def nodes_select_def recordVisit_def
      invite_claim_def Let_def case_prod_unfold split: sum.split option.split json.split intro!: keeps)

interpretation own: gated_api "user_api v pwd" "\<lambda>a _. a \<noteq> None" integrity
  by unfold_locales (auto simp: user_api_refused user_api_keeps)



section \<open>Whose rows a request touches\<close>

text \<open>The roles and addresses of all accounts stay, the rows of the other accounts and of their links
  stay, and so do the tables that only administrators and the media plane write.\<close>

definition own_effect :: "int \<Rightarrow> 'z db_scheme \<Rightarrow> 'z db_scheme \<Rightarrow> bool" where
  "own_effect u d d' \<longleftrightarrow>
     map (\<lambda>x. (us_id x, us_email x, us_role x)) (rows (t_users d')) = map (\<lambda>x. (us_id x, us_email x, us_role x)) (rows (t_users d))
   \<and> filter (\<lambda>x. us_id x \<noteq> u) (rows (t_users d')) = filter (\<lambda>x. us_id x \<noteq> u) (rows (t_users d))
   \<and> filter (\<lambda>m. ug_userId m \<noteq> u) (t_userGroups d') = filter (\<lambda>m. ug_userId m \<noteq> u) (t_userGroups d)
   \<and> filter (\<lambda>l. nl_userId l \<noteq> u) (rows (t_nodeLatencies d')) = filter (\<lambda>l. nl_userId l \<noteq> u) (rows (t_nodeLatencies d))
   \<and> t_events d' = t_events d \<and> t_aliases d' = t_aliases d \<and> t_streamBans d' = t_streamBans d
   \<and> t_students d' = t_students d \<and> t_enrollments d' = t_enrollments d \<and> t_streamKeys d' = t_streamKeys d
   \<and> t_sessions d' = t_sessions d \<and> t_recordings d' = t_recordings d \<and> t_groups d' = t_groups d
   \<and> t_eventGroups d' = t_eventGroups d \<and> t_appConfig d' = t_appConfig d \<and> t_nodeSettings d' = t_nodeSettings d"

named_theorems own_effects "operations that act on the rows of one account"

lemma own_refl [own_effects]: "own_effect u d d"
  by (simp add: own_effect_def)

lemma own_trans: "own_effect u d d' \<Longrightarrow> own_effect u d' d'' \<Longrightarrow> own_effect u d d''"
  by (simp add: own_effect_def)

lemma rows_update: "rows (tbl_update P f t) = map (\<lambda>r. if P r then f r else r) (rows t)"
  by (simp add: tbl_update_def)

lemma filter_map_other: "(\<And>x. P x \<Longrightarrow> \<not> Q x) \<Longrightarrow> (\<And>x. P x \<Longrightarrow> \<not> Q (f x)) \<Longrightarrow>
    filter Q (map (\<lambda>x. if P x then f x else x) xs) = filter Q xs"
  by (induction xs) auto

lemma users_set_own:
  assumes "\<And>x. us_id (f x) = us_id x" "\<And>x. us_email (f x) = us_email x" "\<And>x. us_role (f x) = us_role x"
  shows "own_effect u d (users_set u f d)"
  using assms by (auto simp: own_effect_def users_set_def rows_update intro!: filter_map_other)

lemma user_writes_own [own_effects]:
  "own_effect u d (UsersRepository_updateNode u n d)" "own_effect u d (UsersRepository_updateDashboardNotice u x d)"
  "own_effect u d (UsersRepository_updatePassword u h d)" "own_effect u d (UsersRepository_setAuthmod u s c d)"
  by (simp_all add: UsersRepository_updateNode_def UsersRepository_updateDashboardNotice_def UsersRepository_updatePassword_def
      UsersRepository_setAuthmod_def users_set_own)

lemma links_own [own_effects]:
  "own_effect u d (snd (NodeLatenciesRepository_upsert u n ms d))" "own_effect u d (snd (GroupsRepository_addUserToGroup u g d))"
  "own_effect u d (InviteLinksRepository_incrementUsed i d)"
  by (auto simp: own_effect_def NodeLatenciesRepository_upsert_def GroupsRepository_addUserToGroup_def put_latency_def
      InviteLinksRepository_incrementUsed_def rows_update tbl_insert_def intro!: filter_map_other)

lemma quiet_own [own_effects]:
  "own_effect u w (audit l c m opts w)" "own_effect u w (snd (randomBytes k w))"
  by (simp_all add: own_effect_def)

lemma getConfig_own [own_effects]: "own_effect u w (snd (getConfig w))"
  by (auto simp: own_effect_def getConfig_def Let_def split: option.split)

lemma mintAuthmod_own [own_effects]: "own_effect u w (snd (mintAuthmod x e p w))"
  by (auto simp: own_effect_def mintAuthmod_def generateSalt_def encrypt_def Let_def case_prod_unfold)

lemma hashPassword_own [own_effects]: "own_effect u w (snd (hashPassword x p w))"
  by (auto simp: own_effect_def hashPassword_def Let_def case_prod_unfold)

lemma andThen_own:
  "own_effect u w (snd r) \<Longrightarrow> (\<And>y s. own_effect u w s \<Longrightarrow> own_effect u w (snd (k y s))) \<Longrightarrow> own_effect u w (snd (andThen r k))"
  by (rule andThen_state)

lemma record_latencies_own: "own_effect u w (snd (record_latencies u known ls w))"
proof (induction ls arbitrary: w)
  case (Cons l ls)
  obtain i ms where l: "l = (i, ms)" by (cases l)
  show ?case unfolding l record_latencies.simps
    by (auto intro!: andThen_own links_own Cons intro: own_trans [OF _ Cons])
qed (simp add: own_refl)

lemma backfill_own: "own_effect u w (snd (backfill u w))"
  by (auto simp: backfill_def own_effects split: option.split)

lemma consumeInvite_own: "own_effect u w (snd (consumeInvite c u w))"
  by (auto simp: consumeInvite_def own_effects split: option.split intro!: andThen_own own_trans [OF _ quiet_own(1)]
      own_trans [OF _ links_own(3)])

lemma found_user_id: "UsersRepository_findById i d = Some u \<Longrightarrow> us_id u = i"
  unfolding UsersRepository_findById_def by (drule tbl_find_Some) simp

lemma me_password_own: "own_effect (ax_userId a) w (snd (me_password x (Some a) c n w))"
  by (auto simp: me_password_def requireSession_def own_effects Let_def case_prod_unfold split: option.split
      intro!: own_trans [OF _ user_writes_own(4)] own_trans [OF _ user_writes_own(3)] own_trans [OF _ hashPassword_own]
        dest!: found_user_id)

text \<open>C36 What a user asks for on his own behalf stays his own: whatever an account that is logged in
  requests, and however it ends, no other account, nor its memberships and measurements, changes, no
  account, his own included, changes its role or its address, and the events, keys, bans, sessions,
  recordings, groups, their links to events and the settings stay as they were.\<close>

theorem user_api_confined:
  "own_effect (ax_userId a) w (snd (user_api v pwd (Some a) r w))"
proof (cases r)
  case (MePassword c n)
  then show ?thesis by (simp add: user_api.simps me_password_own)
next
  case (NodesMeasure ls)
  then show ?thesis
    by (auto simp: user_api.simps nodes_measure_def requireUser_def recordVisit_def case_prod_unfold Let_def
        intro!: andThen_own record_latencies_own intro: own_trans [OF _ backfill_own])
next
  case (ClaimInvite c)
  then show ?thesis
    by (auto simp: user_api.simps invite_claim_def requireSession_def intro!: andThen_own consumeInvite_own split: option.split)
next
  case (NodesSelect n)
  then show ?thesis
    by (auto simp: user_api.simps nodes_select_def requireUser_def Let_def own_effects split: option.split
        intro!: own_trans [OF user_writes_own(1) quiet_own(1)])
qed (auto simp: user_api.simps me_get_def me_patch_def requireSession_def own_effects Let_def case_prod_unfold
    split: option.split json.split)


section \<open>All requests\<close>

definition app_api :: "api_env \<Rightarrow> string \<Rightarrow> auth_context option \<Rightarrow> admin_request + user_request \<Rightarrow> ws_server \<Rightarrow> (unit, ws_server) outcome" where
  "app_api v pwd a q w = (case q of Inl r \<Rightarrow> admin_api v a r w | Inr r \<Rightarrow> user_api v pwd a r w)"

fun app_allowed :: "auth_context option \<Rightarrow> admin_request + user_request \<Rightarrow> bool" where
  "app_allowed a (Inl r) \<longleftrightarrow> is_administrator a"
| "app_allowed a (Inr r) \<longleftrightarrow> a \<noteq> None"

interpretation app: gated_api "app_api v pwd" app_allowed integrity
proof unfold_locales
  show "snd (app_api v pwd c r s) = s" if "\<not> app_allowed c r" for c r s
    using that administration.refused own.refused by (cases r) (auto simp: app_api_def)
  show "integrity (snd (app_api v pwd c r s))" if "integrity s" for c r s
    using that administration.keeps_sound own.keeps_sound by (cases r) (auto simp: app_api_def)
qed

text \<open>C35 No sequence of requests of administrators and users, by whomever and with whatever parameters,
  bodies and outcomes, breaks a key, a unique column or a foreign key of the database; and the requests
  of callers who may not make them could as well not have been made.\<close>

theorem serve_integrity:
  assumes "integrity w"
  shows "integrity (serve (app_api v pwd) rs w)
    \<and> serve (app_api v pwd) rs w = serve (app_api v pwd) (filter (\<lambda>(a, r). app_allowed a r) rs) w"
  using app.serve_sound [OF assms] app.serve_allowed by blast

definition demo_requests :: "(auth_context option \<times> (admin_request + user_request)) list" where
  "demo_requests = [(None, Inl (DeleteUser 1)), (Some \<lparr>ax_userId = 2, ax_role = RUser\<rparr>, Inl (DeleteRecording 1)),
     (Some \<lparr>ax_userId = 1, ax_role = RAdmin\<rparr>, Inl (DeleteRecording 1)), (None, Inr (MePatch (Some JNull)))]"

theorem serve_integrity_witness:
  "integrity (serve (app_api demo_env []) demo_requests archive)
   \<and> serve (app_api demo_env []) demo_requests archive = snd (recording_delete (Some \<lparr>ax_userId = 1, ax_role = RAdmin\<rparr>) 1 archive)"
proof -
  have "filter (\<lambda>(a, r). app_allowed a r) demo_requests = [(Some \<lparr>ax_userId = 1, ax_role = RAdmin\<rparr>, Inl (DeleteRecording 1))]"
    by (simp add: demo_requests_def is_administrator_def)
  moreover have "serve (app_api demo_env []) [(Some \<lparr>ax_userId = 1, ax_role = RAdmin\<rparr>, Inl (DeleteRecording 1))] archive
      = snd (recording_delete (Some \<lparr>ax_userId = 1, ax_role = RAdmin\<rparr>) 1 archive)"
    by (simp add: app_api_def admin_api.simps)
  ultimately show ?thesis
    using serve_integrity [OF archive_integrity, of demo_env "[]" demo_requests] by metis
qed

end
