(* ===== verification/Rsa.thy ===== *)
theory Rsa
  imports Config
begin

text \<open>
  Passwords in transit: utils/rsa.ts with GET /api/auth/pubkey, and usePasswordCipher in the browser.
  A key pair is named by the PEM of its private key; RSA itself is a parameter.
\<close>

record rsa_lib =
  rl_import :: "string \<Rightarrow> bool"
  rl_jwk :: "string \<Rightarrow> string"
  rl_encrypt :: "string \<Rightarrow> string \<Rightarrow> string \<Rightarrow> string"
  rl_decrypt :: "string \<Rightarrow> string \<Rightarrow> string option"

text \<open>What RSA-OAEP promises: with a key pair that node:crypto reads, what was encrypted under its public
  half, with whatever seed, decrypts to the plaintext.\<close>

definition rsa_laws :: "rsa_lib \<Rightarrow> bool" where
  "rsa_laws l \<longleftrightarrow> (\<forall>pem seed p. rl_import l pem \<longrightarrow> rl_decrypt l pem (rl_encrypt l (rl_jwk l pem) seed p) = Some p)"


section \<open>The server's key\<close>

record rsa_world = world +
  rsa_cache :: "string option"

definition RSA_KEY :: string where "RSA_KEY = ''rsa''"

text \<open>The pem of a stored row, None where reading it throws.\<close>

definition stored_pem :: "rsa_lib \<Rightarrow> app_config_row \<Rightarrow> string option" where
  "stored_pem l row = (case json_parse (ac_value row) of
       Some (JObj kvs) \<Rightarrow> (case map_of kvs ''pem'' of Some (JStr pem) \<Rightarrow> if rl_import l pem then Some pem else None | _ \<Rightarrow> None)
     | _ \<Rightarrow> None)"

text \<open>fresh is the key generateKeyPairSync makes; generate itself returns without the cache, which load
  sets.\<close>

definition rsa_generate :: "string \<Rightarrow> rsa_world \<Rightarrow> string \<times> rsa_world" where
  "rsa_generate fresh w = (fresh, AppConfigRepository_upsertKey RSA_KEY (JText (JObj [(''pem'', JStr fresh)])) w)"

definition rsa_load :: "rsa_lib \<Rightarrow> string \<Rightarrow> rsa_world \<Rightarrow> string \<times> rsa_world" where
  "rsa_load l fresh w =
     (case rsa_cache w of
        Some k \<Rightarrow> (k, w)
      | None \<Rightarrow>
          (case Option.bind (AppConfigRepository_findKey RSA_KEY w) (stored_pem l) of
             Some pem \<Rightarrow> (pem, w\<lparr>rsa_cache := Some pem\<rparr>)
           | None \<Rightarrow> let (k, w1) = rsa_generate fresh w in (k, w1\<lparr>rsa_cache := Some k\<rparr>)))"

definition getPublicJwk :: "rsa_lib \<Rightarrow> string \<Rightarrow> rsa_world \<Rightarrow> string \<times> rsa_world" where
  "getPublicJwk l fresh w = (let (k, w1) = rsa_load l fresh w in (rl_jwk l k, w1))"

text \<open>None where it throws.\<close>

definition rsaDecrypt :: "rsa_lib \<Rightarrow> string \<Rightarrow> string \<Rightarrow> rsa_world \<Rightarrow> string option \<times> rsa_world" where
  "rsaDecrypt l fresh cipherB64 w = (let (k, w1) = rsa_load l fresh w in (rl_decrypt l k (from_base64 cipherB64), w1))"


section \<open>The browser\<close>

text \<open>The key of the page, fetched once, is a JWK; answer is that of /api/auth/pubkey.\<close>

definition loadKey :: "error + string \<Rightarrow> string option \<Rightarrow> (error + string) \<times> string option" where
  "loadKey answer cached = (case cached of
       Some k \<Rightarrow> (Inr k, cached)
     | None \<Rightarrow> (case answer of Inl e \<Rightarrow> (Inl e, None) | Inr k \<Rightarrow> (Inr k, Some k)))"

text \<open>webcrypto: whether crypto.subtle is there.\<close>

definition encryptPassword :: "rsa_lib \<Rightarrow> bool \<Rightarrow> string \<Rightarrow> error + string \<Rightarrow> string \<Rightarrow> string option \<Rightarrow> (error + string) \<times> string option" where
  "encryptPassword l webcrypto seed answer plain cached =
     (if \<not> webcrypto then (Inr plain, cached)
      else let (r, cached') = loadKey answer cached
        in (case r of Inl e \<Rightarrow> Inl e | Inr k \<Rightarrow> Inr (to_base64 (rl_encrypt l k seed plain)), cached'))"


section \<open>From the browser to the server\<close>

text \<open>What may happen to the server after it has a key: it is used, with whatever key a generation would
  give, the process restarts, and the rest of the server writes, the row of the key excepted.\<close>

inductive rsa_run :: "rsa_lib \<Rightarrow> rsa_world \<Rightarrow> rsa_world \<Rightarrow> bool" for l w0 where
  rsa_start: "rsa_run l w0 w0"
| rsa_use: "rsa_run l w0 w \<Longrightarrow> rsa_run l w0 (snd (rsa_load l fresh w))"
| rsa_restart: "rsa_run l w0 w \<Longrightarrow> rsa_run l w0 (w\<lparr>rsa_cache := None\<rparr>)"
| rsa_other: "rsa_run l w0 w \<Longrightarrow> rsa_cache w' = rsa_cache w
    \<Longrightarrow> AppConfigRepository_findKey RSA_KEY w' = AppConfigRepository_findKey RSA_KEY w \<Longrightarrow> rsa_run l w0 w'"

definition has_key :: "rsa_lib \<Rightarrow> string \<Rightarrow> rsa_world \<Rightarrow> bool" where
  "has_key l k w \<longleftrightarrow> rl_import l k \<and> Option.bind (AppConfigRepository_findKey RSA_KEY w) (stored_pem l) = Some k
     \<and> (case rsa_cache w of None \<Rightarrow> True | Some c \<Rightarrow> c = k)"

lemma findKey_cache [simp]: "AppConfigRepository_findKey k (w\<lparr>rsa_cache := c\<rparr>) = AppConfigRepository_findKey k w"
  by (simp add: AppConfigRepository_findKey_def)

lemma upsert_rsa_cache [simp]: "rsa_cache (AppConfigRepository_upsertKey k v w) = rsa_cache w"
  by (simp add: AppConfigRepository_upsertKey_def)

lemma has_key_load: "has_key l k w \<Longrightarrow> fst (rsa_load l fresh w) = k \<and> has_key l k (snd (rsa_load l fresh w))"
  by (auto simp: has_key_def rsa_load_def split: option.splits)

lemma has_key_run:
  assumes "rsa_run l w0 w" "has_key l k w0" shows "has_key l k w"
  using assms
proof (induction rule: rsa_run.induct)
  case (rsa_use w fresh)
  then show ?case using has_key_load by blast
next
  case (rsa_restart w)
  then show ?case by (simp add: has_key_def)
next
  case (rsa_other w w')
  then show ?case by (simp add: has_key_def)
qed

lemma stored_pem_import: "stored_pem l row = Some pem \<Longrightarrow> rl_import l pem"
  unfolding stored_pem_def by (simp split: option.splits json.splits if_splits)

lemma loaded_has_key:
  assumes "rl_import l fresh" "rsa_cache w = None"
  shows "has_key l (fst (rsa_load l fresh w)) (snd (rsa_load l fresh w))"
proof (cases "Option.bind (AppConfigRepository_findKey RSA_KEY w) (stored_pem l)")
  case None
  have "stored_pem l row = Some fresh" if "ac_value row = JText (JObj [(''pem'', JStr fresh)])" for row
    using assms(1) by (simp add: stored_pem_def that)
  then have stored: "Option.bind (AppConfigRepository_findKey RSA_KEY (snd (rsa_generate fresh w))) (stored_pem l) = Some fresh"
    by (simp add: rsa_generate_def find_upsertKey split: option.split)
  have "rsa_load l fresh w = (fresh, (snd (rsa_generate fresh w))\<lparr>rsa_cache := Some fresh\<rparr>)"
    unfolding rsa_load_def assms(2) None by (simp add: rsa_generate_def)
  then show ?thesis using assms(1) stored unfolding has_key_def by (simp only: fst_conv snd_conv findKey_cache) simp
next
  case (Some pem)
  then have "rl_import l pem" unfolding bind_eq_Some_conv using stored_pem_import by blast
  moreover have "rsa_load l fresh w = (pem, w\<lparr>rsa_cache := Some pem\<rparr>)" unfolding rsa_load_def assms(2) Some by simp
  ultimately show ?thesis using Some unfolding has_key_def by (simp only: fst_conv snd_conv findKey_cache) simp
qed

text \<open>C39 A password arrives: what a browser encrypts under the key it was given is decrypted by the server
  to that password, however often the server was used, written to and restarted in between, as long as
  the stored key is not replaced.\<close>

theorem password_arrives:
  assumes "rsa_laws l" "rl_import l fresh" "rsa_cache w = None"
    and "getPublicJwk l fresh w = (jwk, w1)" "rsa_run l w1 w2"
    and "encryptPassword l True seed (Inr jwk) plain None = (Inr cipher, cached)"
  shows "fst (rsaDecrypt l fresh' cipher w2) = Some plain \<and> cached = Some jwk"
proof -
  obtain k where k: "rsa_load l fresh w = (k, w1)" "jwk = rl_jwk l k"
    using assms(4) by (auto simp: getPublicJwk_def split: prod.splits)
  have "has_key l k w2" using has_key_run [OF assms(5)] loaded_has_key [OF assms(2,3)] k(1) by simp
  then have "fst (rsa_load l fresh' w2) = k" "rl_import l k" using has_key_load by (auto simp: has_key_def)
  moreover have "cipher = to_base64 (rl_encrypt l jwk seed plain)" "cached = Some jwk"
    using assms(6) by (auto simp: encryptPassword_def loadKey_def)
  ultimately show ?thesis using assms(1) k(2) by (simp add: rsaDecrypt_def rsa_laws_def case_prod_unfold Let_def)
qed

definition demo_rsa :: rsa_lib where
  "demo_rsa = \<lparr>rl_import = (\<lambda>k. k \<noteq> []), rl_jwk = (\<lambda>k. CHR ''p'' # k), rl_encrypt = (\<lambda>k s p. k @ p),
     rl_decrypt = (\<lambda>k c. if take (length k + 1) c = CHR ''p'' # k then Some (drop (length k + 1) c) else None)\<rparr>"

definition fresh_server :: rsa_world where
  "fresh_server = world.extend world_start (rsa_world.fields None)"

text \<open>A restart between the page and the login.\<close>

theorem password_arrives_witness:
  "fst (rsaDecrypt demo_rsa ''other'' (to_base64 (''pk1secret'')) ((snd (getPublicJwk demo_rsa ''k1'' fresh_server))\<lparr>rsa_cache := None\<rparr>))
     = Some ''secret''"
proof -
  let ?g = "getPublicJwk demo_rsa ''k1'' fresh_server"
  have "AppConfigRepository_findKey RSA_KEY fresh_server = None"
    by (simp add: fresh_server_def AppConfigRepository_findKey_def world.defs rsa_world.defs)
  moreover have "rsa_cache fresh_server = None" by (simp add: fresh_server_def world.defs rsa_world.defs)
  ultimately have jwk: "fst ?g = ''pk1''" "rsa_cache fresh_server = None"
    by (simp_all add: getPublicJwk_def rsa_load_def rsa_generate_def demo_rsa_def)
  then have g: "?g = (''pk1'', snd ?g)" by (metis prod.collapse)
  have laws: "rsa_laws demo_rsa" by (simp add: rsa_laws_def demo_rsa_def)
  have enc: "encryptPassword demo_rsa True [] (Inr ''pk1'') ''secret'' None = (Inr (to_base64 ''pk1secret''), Some ''pk1'')"
    by (simp add: encryptPassword_def loadKey_def demo_rsa_def)
  have run: "rsa_run demo_rsa (snd ?g) ((snd ?g)\<lparr>rsa_cache := None\<rparr>)" by (intro rsa_restart rsa_start)
  have "rl_import demo_rsa ''k1''" by (simp add: demo_rsa_def)
  from password_arrives [OF laws this jwk(2) g run enc] show ?thesis by blast
qed

end
