(* ===== verification/AdminWs.thy ===== *)
theory AdminWs
  imports SrsClient
begin

text \<open>
  The gateway in front of the application, plugins/03-ws-gateway.ts: the routing of upgrades and the
  static files, and services/admin-ws.ts, the realtime connections of administrators.

  A peer is named by its random id.  aw_out is what was handed to the sockets, in order: frames and
  closes.  A close is reported by onAdminWsClose later, at any time.  PUBLIC_DIR, the file system and
  the parser of URLs are parameters.
\<close>

section \<open>Who may connect\<close>









section \<open>Connections\<close>

record admin_conn =
  ac_auth :: auth_context
  ac_topics :: "string list"
  ac_idleAt :: "int option"

datatype admin_out = AEvent string bus_event | APong | AClose int string

record admin_server = world +
  aw_conns :: "(string, admin_conn) jsmap"
  aw_byAdmin :: "(int, string) jsmap"
  aw_out :: "(string \<times> admin_out) list"

definition ADMIN_IDLE_TIMEOUT_MS :: int where "ADMIN_IDLE_TIMEOUT_MS = 90000"

definition aw_say :: "string \<Rightarrow> admin_out \<Rightarrow> admin_server \<Rightarrow> admin_server" where
  "aw_say p f s = s\<lparr>aw_out := aw_out s @ [(p, f)]\<rparr>"

definition publish :: "string \<Rightarrow> string \<Rightarrow> bus_event \<Rightarrow> admin_server \<Rightarrow> admin_server" where
  "publish topic name payload s =
     fold (\<lambda>(p, c) s. if topic \<in> set (ac_topics c) then aw_say p (AEvent name payload) s else s) (aw_conns s) s"

definition touchIdle :: "string \<Rightarrow> admin_conn \<Rightarrow> admin_server \<Rightarrow> admin_server" where
  "touchIdle p c s = s\<lparr>aw_conns := map_put p (c\<lparr>ac_idleAt := Some (clock s + ADMIN_IDLE_TIMEOUT_MS)\<rparr>) (aw_conns s)\<rparr>"

text \<open>The timer of a connection runs out.\<close>

definition admin_idle :: "string \<Rightarrow> admin_server \<Rightarrow> admin_server" where
  "admin_idle p s = (case map_get p (aw_conns s) of
       Some c \<Rightarrow> (case ac_idleAt c of
           Some t \<Rightarrow> if t \<le> clock s
             then aw_say p (AClose 4004 ''idle timeout'') (s\<lparr>aw_conns := map_put p (c\<lparr>ac_idleAt := None\<rparr>) (aw_conns s)\<rparr>)
             else s
         | None \<Rightarrow> s)
     | None \<Rightarrow> s)"

definition replace_prev :: "int \<Rightarrow> admin_server \<Rightarrow> admin_server" where
  "replace_prev uid s =
     (case map_get uid (aw_byAdmin s) of
        None \<Rightarrow> s
      | Some q \<Rightarrow> if q = [] then s else
          (case map_get q (aw_conns s) of
             None \<Rightarrow> s
           | Some _ \<Rightarrow> aw_say q (AClose 4000 ''superseded by a newer connection'') (s\<lparr>aw_conns := map_del q (aw_conns s)\<rparr>)))"

definition onAdminWsOpen :: "string \<Rightarrow> auth_context \<Rightarrow> admin_server \<Rightarrow> admin_server" where
  "onAdminWsOpen p a s =
     (let s1 = replace_prev (ax_userId a) s
      in s1\<lparr>aw_conns := map_put p \<lparr>ac_auth = a, ac_topics = [''admin''],
              ac_idleAt = Some (clock s1 + ADMIN_IDLE_TIMEOUT_MS)\<rparr> (aw_conns s1),
            aw_byAdmin := map_put (ax_userId a) p (aw_byAdmin s1)\<rparr>)"

definition onAdminWsMessage :: "string \<Rightarrow> string \<Rightarrow> admin_server \<Rightarrow> admin_server" where
  "onAdminWsMessage p t s =
     (case map_get p (aw_conns s) of
        None \<Rightarrow> s
      | Some c \<Rightarrow> let s1 = touchIdle p c s in if t = ''ping'' then aw_say p APong s1 else s1)"

definition onAdminWsClose :: "string \<Rightarrow> admin_server \<Rightarrow> admin_server" where
  "onAdminWsClose p s =
     (case map_get p (aw_conns s) of
        None \<Rightarrow> s
      | Some c \<Rightarrow> let s1 = s\<lparr>aw_conns := map_del p (aw_conns s)\<rparr>; u = ax_userId (ac_auth c)
          in if map_get u (aw_byAdmin s1) = Some p then s1\<lparr>aw_byAdmin := map_del u (aw_byAdmin s1)\<rparr> else s1)"

fun bus_name :: "bus_event \<Rightarrow> string" where
  "bus_name (SessionStart _) = ''session:start''"
| "bus_name (SessionMetric _) = ''session:metric''"
| "bus_name (SessionViolation _ _) = ''session:violation''"
| "bus_name (SessionStop _) = ''session:stop''"
| "bus_name (RecordingReady _) = ''recording:ready''"
| "bus_name (AuditCreated _) = ''audit:created''"
| "bus_name (ConfigChanged _) = ''config:changed''"
| "bus_name (NodesChanged _) = ''nodes:changed''"

definition FORWARD :: "string list" where
  "FORWARD = [''session:start'', ''session:metric'', ''session:violation'', ''session:stop'', ''recording:ready'',
     ''audit:created'', ''config:changed'', ''nodes:changed'']"

text \<open>What the bridge of initAdminWs does with an event of the bus.\<close>

definition bridge :: "bus_event \<Rightarrow> admin_server \<Rightarrow> admin_server" where
  "bridge e s = (if bus_name e \<in> set FORWARD then publish ''admin'' (bus_name e) e s else s)"


section \<open>Static files\<close>

text \<open>path.resolve of a path below an absolute one.\<close>

fun path_norm :: "string list \<Rightarrow> string list \<Rightarrow> string list" where
  "path_norm acc [] = rev acc"
| "path_norm acc (n # ns) =
     (if n = [] \<or> n = ''.'' then path_norm acc ns
      else if n = ''..'' then path_norm (tl acc) ns
      else path_norm (n # acc) ns)"

definition abs_path :: "string list \<Rightarrow> string" where
  "abs_path ns = (if ns = [] then ''/'' else concat (map ((#) (CHR ''/'')) ns))"

definition path_resolve :: "string \<Rightarrow> string \<Rightarrow> string" where
  "path_resolve dir rel = abs_path (path_norm [] (js_split (CHR ''/'') dir @ js_split (CHR ''/'') rel))"

definition STATIC_MIME :: "(string \<times> string) list" where
  "STATIC_MIME =
     [(''.js'', ''text/javascript; charset=utf-8''),
      (''.mjs'', ''text/javascript; charset=utf-8''),
      (''.css'', ''text/css; charset=utf-8''),
      (''.json'', ''application/json; charset=utf-8''),
      (''.svg'', ''image/svg+xml''),
      (''.png'', ''image/png''),
      (''.jpg'', ''image/jpeg''),
      (''.jpeg'', ''image/jpeg''),
      (''.webp'', ''image/webp''),
      (''.ico'', ''image/x-icon''),
      (''.woff'', ''font/woff''),
      (''.woff2'', ''font/woff2''),
      (''.txt'', ''text/plain; charset=utf-8''),
      (''.html'', ''text/html; charset=utf-8''),
      (''.map'', ''application/json'')]"

text \<open>From the last dot; the last character where there is none.\<close>

definition static_ext :: "string \<Rightarrow> string" where
  "static_ext p = js_lower (if CHR ''.'' \<in> set p then CHR ''.'' # rev (takeWhile (\<lambda>c. c \<noteq> CHR ''.'') (rev p))
     else drop (length p - 1) p)"

datatype encoding = Brotli | Gzip | Identity

record static_response =
  sr_file :: string
  sr_type :: string
  sr_encoding :: encoding
  sr_immutable :: bool

definition fileResponse :: "string \<Rightarrow> encoding \<Rightarrow> bool \<Rightarrow> static_response" where
  "fileResponse p enc immutable =
     \<lparr>sr_file = (case enc of Brotli \<Rightarrow> p @ ''.br'' | Gzip \<Rightarrow> p @ ''.gz'' | Identity \<Rightarrow> p),
      sr_type = orDefault (map_of STATIC_MIME (static_ext p)) ''application/octet-stream'',
      sr_encoding = enc, sr_immutable = immutable\<rparr>"

definition serveStatic ::
    "string \<Rightarrow> (string \<Rightarrow> bool) \<Rightarrow> (string \<Rightarrow> bool) \<Rightarrow> string \<Rightarrow> string option \<Rightarrow> static_response option" where
  "serveStatic public exists is_file pathname accept =
     (case decodeURIComponent pathname of
        None \<Rightarrow> None
      | Some rel \<Rightarrow>
          if js_includes ''..'' rel \<or> CHR 0x00 \<in> set rel then None
          else let p = path_resolve public (CHR ''.'' # rel); immutable = starts_with ''/_nuxt/'' rel; ae = orDefault accept []
            in if \<not> starts_with (public @ ''/'') p then None
               else if js_includes ''br'' ae \<and> exists (p @ ''.br'') then Some (fileResponse p Brotli immutable)
               else if js_includes ''gzip'' ae \<and> exists (p @ ''.gz'') then Some (fileResponse p Gzip immutable)
               else if is_file p then Some (fileResponse p Identity immutable) else None)"


section \<open>Every history of the connections\<close>

text \<open>The list is the connections that were opened: peer, user, and how many events the bus had carried.\<close>

inductive admin_run :: "(string \<times> int \<times> nat) list \<Rightarrow> admin_server \<Rightarrow> bool" where
  admin_boot: "aw_conns s = [] \<Longrightarrow> aw_byAdmin s = [] \<Longrightarrow> aw_out s = [] \<Longrightarrow> admin_run [] s"
| admin_open: "admin_run l s \<Longrightarrow> p \<notin> fst ` set l \<Longrightarrow> p \<noteq> [] \<Longrightarrow> ax_role a = RAdmin
    \<Longrightarrow> admin_run (l @ [(p, ax_userId a, length (bus s))]) (onAdminWsOpen p a s)"
| admin_message: "admin_run l s \<Longrightarrow> admin_run l (onAdminWsMessage p t s)"
| admin_close: "admin_run l s \<Longrightarrow> admin_run l (onAdminWsClose p s)"
| admin_timer: "admin_run l s \<Longrightarrow> admin_run l (admin_idle p s)"
| admin_emit: "admin_run l s \<Longrightarrow> admin_run l (bridge e (emit e s))"
| admin_other: "admin_run l s \<Longrightarrow> bus s' = bus s \<Longrightarrow> aw_conns s' = aw_conns s \<Longrightarrow> aw_byAdmin s' = aw_byAdmin s
    \<Longrightarrow> aw_out s' = aw_out s \<Longrightarrow> admin_run l s'"

fun events_to :: "string \<Rightarrow> (string \<times> admin_out) list \<Rightarrow> bus_event list" where
  "events_to p [] = []"
| "events_to p ((q, f) # out) = (case f of AEvent _ e \<Rightarrow> if q = p then e # events_to p out else events_to p out
     | _ \<Rightarrow> events_to p out)"

definition opened_by :: "int \<Rightarrow> (string \<times> int \<times> nat) list \<Rightarrow> string list" where
  "opened_by u l = map fst (filter (\<lambda>e. fst (snd e) = u) l)"

definition conn_good :: "(string \<times> int \<times> nat) list \<Rightarrow> admin_server \<Rightarrow> string \<Rightarrow> admin_conn \<Rightarrow> bool" where
  "conn_good l s p c \<longleftrightarrow> map_get (ax_userId (ac_auth c)) (aw_byAdmin s) = Some p \<and> ac_topics c = [''admin'']
     \<and> (\<exists>k\<le>length (bus s). (p, ax_userId (ac_auth c), k) \<in> set l \<and> events_to p (aw_out s) = drop k (bus s))"

definition admin_ok :: "(string \<times> int \<times> nat) list \<Rightarrow> admin_server \<Rightarrow> bool" where
  "admin_ok l s \<longleftrightarrow> map_ok (aw_conns s) \<and> [] \<notin> fst ` set l
     \<and> (\<forall>p c. map_get p (aw_conns s) = Some c \<longrightarrow> conn_good l s p c)
     \<and> (\<forall>u p. map_get u (aw_byAdmin s) = Some p \<longrightarrow> opened_by u l \<noteq> [] \<and> last (opened_by u l) = p)
     \<and> (\<forall>p. p \<notin> fst ` set l \<longrightarrow> events_to p (aw_out s) = [])"

lemma admin_okD:
  assumes "admin_ok l s"
  shows "map_ok (aw_conns s)" "[] \<notin> fst ` set l"
    "map_get p (aw_conns s) = Some c \<Longrightarrow> conn_good l s p c"
    "map_get u (aw_byAdmin s) = Some p \<Longrightarrow> opened_by u l \<noteq> [] \<and> last (opened_by u l) = p"
    "p \<notin> fst ` set l \<Longrightarrow> events_to p (aw_out s) = []"
  using assms unfolding admin_ok_def by blast+

lemma events_to_append [simp]: "events_to p (a @ b) = events_to p a @ events_to p b"
  by (induction p a rule: events_to.induct) (auto split: admin_out.split)

lemma aw_say_frame [simp]:
  "aw_conns (aw_say p f s) = aw_conns s" "aw_byAdmin (aw_say p f s) = aw_byAdmin s" "bus (aw_say p f s) = bus s"
  "aw_out (aw_say p f s) = aw_out s @ [(p, f)]" "clock (aw_say p f s) = clock s"
  by (simp_all add: aw_say_def)

lemma publish_effect:
  "aw_conns (publish t n e s) = aw_conns s" "aw_byAdmin (publish t n e s) = aw_byAdmin s" "bus (publish t n e s) = bus s"
  "aw_out (publish t n e s) = aw_out s @ map (\<lambda>(p, c). (p, AEvent n e)) (filter (\<lambda>(p, c). t \<in> set (ac_topics c)) (aw_conns s))"
proof -
  let ?say = "\<lambda>(p, c) s. if t \<in> set (ac_topics c) then aw_say p (AEvent n e) s else s"
  have *: "aw_conns (fold ?say cs s) = aw_conns s \<and> aw_byAdmin (fold ?say cs s) = aw_byAdmin s \<and> bus (fold ?say cs s) = bus s
      \<and> aw_out (fold ?say cs s) = aw_out s @ map (\<lambda>(p, c). (p, AEvent n e)) (filter (\<lambda>(p, c). t \<in> set (ac_topics c)) cs)"
    for cs by (induction cs arbitrary: s) (auto split: if_splits)
  show "aw_conns (publish t n e s) = aw_conns s" "aw_byAdmin (publish t n e s) = aw_byAdmin s" "bus (publish t n e s) = bus s"
    "aw_out (publish t n e s) = aw_out s @ map (\<lambda>(p, c). (p, AEvent n e)) (filter (\<lambda>(p, c). t \<in> set (ac_topics c)) (aw_conns s))"
    using * [of "aw_conns s"] by (simp_all add: publish_def)
qed

lemma forwarded: "bus_name e \<in> set FORWARD"
  by (cases e) (simp_all add: FORWARD_def)

lemma events_to_map:
  "events_to p (map (\<lambda>(q, c). (q, AEvent n e)) cs) = replicate (length (filter (\<lambda>(q, c). q = p) cs)) e"
  by (induction cs) auto

lemma bridge_events:
  assumes "map_ok (aw_conns s)" "\<And>q c. map_get q (aw_conns s) = Some c \<Longrightarrow> ac_topics c = [''admin'']"
  shows "events_to p (aw_out (bridge e s)) = events_to p (aw_out s) @ (if map_get p (aw_conns s) = None then [] else [e])"
proof -
  have all: "filter (\<lambda>(p, c). ''admin'' \<in> set (ac_topics c)) (aw_conns s) = aw_conns s"
    by (auto simp: filter_id_conv dest!: map_get_in [OF assms(1)] assms(2))
  have "length (filter (\<lambda>(q, c). q = p) cs) = (if map_get p cs = None then 0 else 1)"
    if "map_ok cs" for cs :: "(string, admin_conn) jsmap"
    using that
  proof (induction cs)
    case (Cons e cs)
    then have ok: "map_ok cs" "fst e \<notin> fst ` set cs" by (auto simp: map_ok_def)
    show ?case
      using Cons.IH [OF ok(1)] ok(2) map_get_None [of "fst e" cs] by (cases e) (auto simp: map_get_Cons)
  qed simp
  from this [OF assms(1)] show ?thesis
    by (simp add: bridge_def forwarded publish_effect all events_to_map)
qed

lemma bridge_frame [simp]:
  "aw_conns (bridge e s) = aw_conns s" "aw_byAdmin (bridge e s) = aw_byAdmin s" "bus (bridge e s) = bus s"
  by (simp_all add: bridge_def publish_effect)

text \<open>A step that opens nothing and emits nothing.\<close>

lemma admin_ok_step:
  assumes "admin_ok l s" "map_ok (aw_conns s')" "bus s' = bus s" "\<And>p. events_to p (aw_out s') = events_to p (aw_out s)"
    "\<And>p c. map_get p (aw_conns s') = Some c \<Longrightarrow> \<exists>c0. map_get p (aw_conns s) = Some c0 \<and> ac_auth c = ac_auth c0
       \<and> ac_topics c = ac_topics c0
       \<and> map_get (ax_userId (ac_auth c)) (aw_byAdmin s') = map_get (ax_userId (ac_auth c)) (aw_byAdmin s)"
    "\<And>u p. map_get u (aw_byAdmin s') = Some p \<Longrightarrow> map_get u (aw_byAdmin s) = Some p"
  shows "admin_ok l s'"
  unfolding admin_ok_def
proof (intro conjI allI impI)
  note D = admin_okD [OF assms(1)]
  show "map_ok (aw_conns s')" "[] \<notin> fst ` set l" using assms(2) D(2) by blast+
  show "conn_good l s' p c" if "map_get p (aw_conns s') = Some c" for p c
    using assms(5) [OF that] D(3) [of p] assms(3,4) unfolding conn_good_def by metis
  show "opened_by u l \<noteq> []" "last (opened_by u l) = p" if "map_get u (aw_byAdmin s') = Some p" for u p
    using D(4) [OF assms(6) [OF that]] by blast+
  show "events_to p (aw_out s') = []" if "p \<notin> fst ` set l" for p using D(5) [OF that] assms(4) by simp
qed

lemma same_conn:
  assumes "admin_ok l s" "map_get p (aw_conns s) = Some c" "map_get q (aw_conns s) = Some d"
    "ax_userId (ac_auth c) = ax_userId (ac_auth d)"
  shows "p = q"
  using admin_okD(3) [OF assms(1,2)] admin_okD(3) [OF assms(1,3)] assms(4) by (auto simp: conn_good_def)

lemma admin_close_ok:
  assumes "admin_ok l s"
  shows "admin_ok l (onAdminWsClose p s)"
proof (cases "map_get p (aw_conns s)")
  case None
  then show ?thesis using assms by (simp add: onAdminWsClose_def)
next
  case (Some c)
  note D = admin_okD [OF assms]
  have mine: "map_get (ax_userId (ac_auth c)) (aw_byAdmin s) = Some p" using D(3) [OF Some] by (simp add: conn_good_def)
  show ?thesis
  proof (rule admin_ok_step [OF assms], goal_cases)
    case (4 q d)
    then have q: "map_get q (aw_conns s) = Some d" "q \<noteq> p"
      by (auto simp: onAdminWsClose_def Some Let_def map_get_del split: if_splits)
    then have "ax_userId (ac_auth d) \<noteq> ax_userId (ac_auth c)" using same_conn [OF assms q(1) Some] by blast
    then show ?case using q by (simp add: onAdminWsClose_def Some mine Let_def map_get_del)
  qed (use D(1) in \<open>auto simp: onAdminWsClose_def Some mine Let_def map_ok_del map_get_del split: if_splits\<close>)
qed

lemma admin_message_ok:
  assumes "admin_ok l s"
  shows "admin_ok l (onAdminWsMessage p t s)"
proof (cases "map_get p (aw_conns s)")
  case (Some c)
  show ?thesis
    by (rule admin_ok_step [OF assms])
      (use admin_okD(1) [OF assms] Some in \<open>auto simp: onAdminWsMessage_def touchIdle_def Let_def map_ok_put map_get_put split: if_splits\<close>)
qed (use assms in \<open>simp add: onAdminWsMessage_def\<close>)

lemma admin_idle_ok:
  assumes "admin_ok l s"
  shows "admin_ok l (admin_idle p s)"
proof (cases "map_get p (aw_conns s)")
  case (Some c)
  show ?thesis
    by (rule admin_ok_step [OF assms])
      (use admin_okD(1) [OF assms] Some in \<open>auto simp: admin_idle_def map_ok_put map_get_put split: option.splits if_splits\<close>)
qed (use assms in \<open>simp add: admin_idle_def\<close>)

lemma admin_emit_ok:
  assumes "admin_ok l s"
  shows "admin_ok l (bridge e (emit e s))"
  unfolding admin_ok_def
proof (intro conjI allI impI)
  note D = admin_okD [OF assms]
  have same: "aw_conns (emit e s) = aw_conns s" "aw_byAdmin (emit e s) = aw_byAdmin s" "aw_out (emit e s) = aw_out s"
    by (simp_all add: emit_def)
  have out: "events_to p (aw_out (bridge e (emit e s))) = events_to p (aw_out s) @ (if map_get p (aw_conns s) = None then [] else [e])" for p
    using bridge_events [of "emit e s" p e] D(1,3) by (simp add: same conn_good_def)
  show "map_ok (aw_conns (bridge e (emit e s)))" "[] \<notin> fst ` set l" using D(1,2) by (simp_all add: same)
  show "conn_good l (bridge e (emit e s)) p c" if "map_get p (aw_conns (bridge e (emit e s))) = Some c" for p c
  proof -
    from that have c: "map_get p (aw_conns s) = Some c" by (simp add: same)
    from D(3) [OF this] obtain k where k: "k \<le> length (bus s)" "(p, ax_userId (ac_auth c), k) \<in> set l"
      "events_to p (aw_out s) = drop k (bus s)" by (auto simp: conn_good_def)
    then have "events_to p (aw_out (bridge e (emit e s))) = drop k (bus (bridge e (emit e s)))" by (simp add: out c)
    moreover have "k \<le> length (bus (bridge e (emit e s)))" using k(1) by simp
    ultimately show ?thesis using D(3) [OF c] k(2) unfolding conn_good_def bridge_frame same by blast
  qed
  show "opened_by u l \<noteq> []" "last (opened_by u l) = p" if "map_get u (aw_byAdmin (bridge e (emit e s))) = Some p" for u p
    using that D(4) [of u p] by (simp_all add: same)
  show "events_to p (aw_out (bridge e (emit e s))) = []" if "p \<notin> fst ` set l" for p
  proof -
    have "map_get p (aw_conns s) = None"
      using D(3) [of p] that by (cases "map_get p (aw_conns s)") (force simp: conn_good_def)+
    then show ?thesis using D(5) [OF that] by (simp add: out)
  qed
qed

lemma replace_prev_frame [simp]:
  "bus (replace_prev u s) = bus s" "aw_byAdmin (replace_prev u s) = aw_byAdmin s" "clock (replace_prev u s) = clock s"
  "events_to p (aw_out (replace_prev u s)) = events_to p (aw_out s)"
  by (auto simp: replace_prev_def split: option.split)

lemma replace_prev_conns:
  "map_get p (aw_conns (replace_prev u s)) = Some c \<Longrightarrow> map_get p (aw_conns s) = Some c"
  by (auto simp: replace_prev_def map_get_del split: option.splits if_splits)

lemma replace_prev_ok:
  assumes "admin_ok l s"
  shows "admin_ok l (replace_prev u s)"
    and "map_get p (aw_conns (replace_prev u s)) = Some c \<Longrightarrow> ax_userId (ac_auth c) \<noteq> u"
proof -
  note D = admin_okD [OF assms]
  show "admin_ok l (replace_prev u s)"
  proof (rule admin_ok_step [OF assms], goal_cases)
    case 1
    then show ?case using D(1) by (auto simp: replace_prev_def map_ok_del split: option.split)
  next
    case (4 p c)
    then show ?case using replace_prev_conns [of p u s c] by auto
  qed auto
  show "ax_userId (ac_auth c) \<noteq> u" if c: "map_get p (aw_conns (replace_prev u s)) = Some c"
  proof
    assume u: "ax_userId (ac_auth c) = u"
    note c0 = replace_prev_conns [OF c]
    from D(3) [OF c0] obtain k where mine: "map_get u (aw_byAdmin s) = Some p" and l: "(p, u, k) \<in> set l"
      using u by (auto simp: conn_good_def)
    have "p \<noteq> []" using l D(2) by force
    then have "map_get p (aw_conns (replace_prev u s)) = None" by (simp add: replace_prev_def mine c0 map_get_del)
    with c show False by simp
  qed
qed

lemma admin_open_ok:
  assumes "admin_ok l s" "p \<notin> fst ` set l" "p \<noteq> []"
  shows "admin_ok (l @ [(p, ax_userId a, length (bus s))]) (onAdminWsOpen p a s)"
  unfolding admin_ok_def
proof (intro conjI allI impI)
  let ?u = "ax_userId a" and ?s1 = "replace_prev (ax_userId a) s" and ?l = "l @ [(p, ax_userId a, length (bus s))]"
  note D = admin_okD [OF replace_prev_ok(1) [OF assms(1), of ?u]]
  have out [simp]: "aw_out (onAdminWsOpen p a s) = aw_out ?s1" "bus (onAdminWsOpen p a s) = bus s"
    "aw_byAdmin (onAdminWsOpen p a s) = map_put ?u p (aw_byAdmin s)"
    by (simp_all add: onAdminWsOpen_def Let_def)
  have conns: "map_get q (aw_conns (onAdminWsOpen p a s)) =
      (if q = p then Some \<lparr>ac_auth = a, ac_topics = [''admin''], ac_idleAt = Some (clock s + ADMIN_IDLE_TIMEOUT_MS)\<rparr>
       else map_get q (aw_conns ?s1))" for q
    by (simp add: onAdminWsOpen_def Let_def map_get_put)
  show "map_ok (aw_conns (onAdminWsOpen p a s))" using D(1) by (simp add: onAdminWsOpen_def Let_def map_ok_put)
  show "[] \<notin> fst ` set ?l" using D(2) assms(3) by auto
  show "conn_good ?l (onAdminWsOpen p a s) q c" if c: "map_get q (aw_conns (onAdminWsOpen p a s)) = Some c" for q c
  proof (cases "q = p")
    case True
    then have "ac_auth c = a" "ac_topics c = [''admin'']" using c by (auto simp: conns)
    moreover have "events_to p (aw_out (onAdminWsOpen p a s)) = drop (length (bus s)) (bus s)"
      using D(5) [OF assms(2)] by simp
    ultimately show ?thesis using True unfolding conn_good_def
      by (intro conjI exI [of _ "length (bus s)"]) (simp_all add: map_get_put)
  next
    case False
    then have c1: "map_get q (aw_conns ?s1) = Some c" using c by (simp add: conns)
    have "ax_userId (ac_auth c) \<noteq> ?u" by (rule replace_prev_ok(2) [OF assms(1) c1])
    then show ?thesis using D(3) [OF c1] by (auto simp: conn_good_def map_get_put)
  qed
  show "opened_by v ?l \<noteq> []" "last (opened_by v ?l) = q" if "map_get v (aw_byAdmin (onAdminWsOpen p a s)) = Some q" for v q
    using that D(4) [of v q] by (auto simp: opened_by_def map_get_put split: if_splits)
  show "events_to q (aw_out (onAdminWsOpen p a s)) = []" if "q \<notin> fst ` set ?l" for q
    using D(5) [of q] that by auto
qed

lemma admin_run_ok: "admin_run l s \<Longrightarrow> admin_ok l s"
proof (induction rule: admin_run.induct)
  case (admin_boot s)
  then show ?case by (simp add: admin_ok_def map_ok_def)
next
  case (admin_other l s s')
  show ?case by (rule admin_ok_step [OF admin_other.IH]) (use admin_okD(1) [OF admin_other.IH] admin_other in auto)
qed (simp_all add: admin_open_ok admin_message_ok admin_close_ok admin_idle_ok admin_emit_ok)

text \<open>C31 Whatever connections come, go, fall silent or are replaced while the application emits: a live
  connection of an administrator is the one opened last for that account, no account has two, and it has
  been sent exactly the events the bus carried since it opened, each once and in order.\<close>

theorem admin_stream_exact:
  assumes "admin_run l s" "map_get p (aw_conns s) = Some c"
  obtains k where "(p, ax_userId (ac_auth c), k) \<in> set l" "events_to p (aw_out s) = drop k (bus s)"
    "last (opened_by (ax_userId (ac_auth c)) l) = p"
    "\<And>q d. map_get q (aw_conns s) = Some d \<Longrightarrow> ax_userId (ac_auth d) = ax_userId (ac_auth c) \<Longrightarrow> q = p"
proof -
  note ok = admin_run_ok [OF assms(1)]
  note good = admin_okD(3) [OF ok assms(2)]
  then obtain k where k: "(p, ax_userId (ac_auth c), k) \<in> set l" "events_to p (aw_out s) = drop k (bus s)"
    by (auto simp: conn_good_def)
  have newest: "last (opened_by (ax_userId (ac_auth c)) l) = p"
    using good admin_okD(4) [OF ok] by (simp add: conn_good_def)
  show thesis by (rule that [OF k newest]) (use same_conn [OF ok _ assms(2)] in blast)
qed


section \<open>The gate\<close>
















section \<open>Static files stay below their directory\<close>

definition path_plain :: "string list \<Rightarrow> bool" where
  "path_plain ns \<longleftrightarrow> (\<forall>n\<in>set ns. n \<notin> {[], ''.'', ''..''} \<and> CHR ''/'' \<notin> set n)"

lemma path_norm_plain: "path_plain ns \<Longrightarrow> path_norm acc (ns @ ms) = path_norm (rev ns @ acc) ms"
  by (induction ns arbitrary: acc) (auto simp: path_plain_def)

lemma path_norm_down: "''..'' \<notin> set ns \<Longrightarrow> path_norm acc ns = rev acc @ filter (\<lambda>n. n \<noteq> [] \<and> n \<noteq> ''.'') ns"
  by (induction ns arbitrary: acc) auto

lemma js_split_slash: "n \<in> set (js_split c s) \<Longrightarrow> c \<notin> set n"
  by (induction c s arbitrary: n rule: js_split.induct) (auto split: if_splits list.splits)

lemma js_split_abs:
  assumes "path_plain ns" "ns \<noteq> []"
  shows "js_split (CHR ''/'') (abs_path ns) = [] # ns"
proof -
  have "js_split (CHR ''/'') (m @ concat (map ((#) (CHR ''/'')) ns)) = m # ns" if "CHR ''/'' \<notin> set m" "path_plain ns" for m ns
    using that
  proof (induction ns arbitrary: m)
    case (Cons n ns)
    then show ?case by (simp add: js_split_cons path_plain_def)
  qed (simp add: js_split_plain)
  from this [of "[]" ns] assms show ?thesis by (simp add: abs_path_def)
qed

lemma js_includes_iff: "js_includes p s \<longleftrightarrow> (\<exists>a b. s = a @ p @ b)"
proof (induction s)
  case (Cons c cs)
  have "(\<exists>a b. c # cs = a @ p @ b) \<longleftrightarrow> (\<exists>b. c # cs = p @ b) \<or> (\<exists>a b. cs = a @ p @ b)"
    by (auto simp: Cons_eq_append_conv)
  then show ?case by (simp add: Cons starts_with_iff)
qed simp

lemma js_split_hd: "\<exists>b. s = hd (js_split c s) @ b"
  by (induction c s rule: js_split.induct) (auto split: list.splits)

lemma js_split_part: "n \<in> set (js_split c s) \<Longrightarrow> js_includes n s"
proof (induction c s arbitrary: n rule: js_split.induct)
  case (2 d c cs)
  obtain w ws where w: "js_split d cs = w # ws" using js_split_nonempty by (metis list.exhaust)
  obtain b where b: "cs = w @ b" using js_split_hd [of cs d] w by auto
  have whole: "js_includes m (c # cs)" if "js_includes m cs" for m
    using that by simp
  show ?case
  proof (cases "c = d")
    case True
    then have "n = [] \<or> n \<in> set (js_split d cs)" using 2(3) by simp
    then show ?thesis using 2(1) [OF True] whole by (auto simp: starts_with_iff)
  next
    case False
    then have "n = c # w \<or> n \<in> set ws" using 2(3) w by simp
    then show ?thesis
    proof
      assume "n = c # w"
      then show ?thesis using b by (auto simp: starts_with_iff)
    next
      assume "n \<in> set ws"
      then show ?thesis using 2(2) [OF False] w whole by simp
    qed
  qed
qed simp

text \<open>C33 Whatever the request's path is, percent-encoded or not, a file that is served lies below the
  public directory, under names of which none is a step up; it is the file asked for or its compressed
  copy, and it exists.\<close>

theorem static_confined:
  assumes "serveStatic (abs_path base) exists is_file (CHR ''/'' # t) accept = Some r" "path_plain base" "base \<noteq> []"
  obtains names sfx where "sr_file r = abs_path (base @ names) @ sfx" "path_plain names" "names \<noteq> []"
    "sfx = [] \<and> is_file (sr_file r) \<or> sfx \<in> {''.br'', ''.gz''} \<and> exists (sr_file r)"
proof -
  obtain rel where rel: "decodeURIComponent (CHR ''/'' # t) = Some rel" and up: "\<not> js_includes ''..'' rel"
    using assms(1) by (auto simp: serveStatic_def split: option.splits if_splits)
  obtain q where q: "rel = CHR ''/'' # q"
    using rel by (auto simp: decodeURIComponent_def split: option.splits if_splits)
  let ?names = "filter (\<lambda>n. n \<noteq> [] \<and> n \<noteq> ''.'') (js_split (CHR ''/'') q)"
  let ?p = "path_resolve (abs_path base) (CHR ''.'' # rel)"
  have no_up: "''..'' \<notin> set (js_split (CHR ''/'') q)"
    using js_split_part [of "''..''" "CHR ''/''" q] up by (auto simp: q)
  have plain: "path_plain ?names" using no_up by (auto simp: path_plain_def dest: js_split_slash)
  have "js_split (CHR ''/'') (CHR ''.'' # rel) = ''.'' # js_split (CHR ''/'') q" by (simp add: q)
  then have "path_norm [] (js_split (CHR ''/'') (abs_path base) @ js_split (CHR ''/'') (CHR ''.'' # rel)) = base @ ?names"
    using no_up by (simp add: js_split_abs [OF assms(2,3)] path_norm_plain [OF assms(2)] path_norm_down)
  then have p: "?p = abs_path (base @ ?names)" by (simp add: path_resolve_def)
  have guard: "starts_with (abs_path base @ ''/'') ?p"
    using assms(1) rel up by (auto simp: serveStatic_def Let_def split: if_splits)
  have "?names \<noteq> []"
  proof
    assume "?names = []"
    with guard p have "starts_with (abs_path base @ ''/'') (abs_path base)" by simp
    then show False by (auto simp: starts_with_iff)
  qed
  moreover have "sr_file r = ?p \<and> is_file ?p \<or> sr_file r = ?p @ ''.br'' \<and> exists (sr_file r) \<or> sr_file r = ?p @ ''.gz'' \<and> exists (sr_file r)"
    using assms(1) rel up by (auto simp: serveStatic_def fileResponse_def Let_def split: if_splits)
  ultimately show thesis
    using that [OF _ plain, of "[]"] that [OF _ plain, of "''.br''"] that [OF _ plain, of "''.gz''"] unfolding p by auto
qed


section \<open>Concrete runs\<close>

text \<open>An administrator opens a second tab and an event follows.\<close>

definition lobby :: admin_server where
  "lobby = world.extend world_start (admin_server.fields [] [] [])"

definition boss :: auth_context where "boss = \<lparr>ax_userId = 1, ax_role = RAdmin\<rparr>"

definition second_tab :: admin_server where
  "second_tab = bridge (NodesChanged []) (emit (NodesChanged []) (onAdminWsOpen ''q'' boss (onAdminWsOpen ''p'' boss lobby)))"

lemma second_tab_run: "admin_run ([(''p'', 1, 0)] @ [(''q'', 1, 0)]) second_tab"
proof -
  have l: "aw_conns lobby = []" "aw_byAdmin lobby = []" "aw_out lobby = []" "bus lobby = []"
    by (simp_all add: lobby_def world.defs admin_server.defs)
  have "admin_run ([] @ [(''p'', ax_userId boss, length (bus lobby))]) (onAdminWsOpen ''p'' boss lobby)"
    by (rule admin_open) (simp_all add: admin_boot l boss_def)
  moreover have b: "bus (onAdminWsOpen ''p'' boss lobby) = []" by (simp add: onAdminWsOpen_def Let_def l)
  ultimately have "admin_run ([(''p'', 1, 0)] @ [(''q'', ax_userId boss, length (bus (onAdminWsOpen ''p'' boss lobby)))])
      (onAdminWsOpen ''q'' boss (onAdminWsOpen ''p'' boss lobby))"
    by (intro admin_open) (simp_all add: l boss_def)
  then show ?thesis unfolding second_tab_def by (intro admin_emit) (simp only: b, simp add: boss_def)
qed

lemma second_tab_conn: "\<exists>c. map_get ''q'' (aw_conns second_tab) = Some c \<and> ac_auth c = boss"
  by (simp add: second_tab_def onAdminWsOpen_def Let_def map_get_put emit_def)

theorem admin_stream_exact_witness:
  "map_get ''p'' (aw_conns second_tab) = None \<and> events_to ''q'' (aw_out second_tab) = [NodesChanged []]"
proof -
  obtain c where c: "map_get ''q'' (aw_conns second_tab) = Some c" "ac_auth c = boss" using second_tab_conn by blast
  have bus: "bus second_tab = [NodesChanged []]"
    by (simp add: second_tab_def onAdminWsOpen_def Let_def emit_def lobby_def world.defs admin_server.defs)
  show ?thesis
  proof (rule admin_stream_exact [OF second_tab_run c(1)])
    fix k
    assume k: "(''q'', ax_userId (ac_auth c), k) \<in> set ([(''p'', 1, 0)] @ [(''q'', 1, 0)])"
      "events_to ''q'' (aw_out second_tab) = drop k (bus second_tab)"
      and only: "\<And>q d. map_get q (aw_conns second_tab) = Some d \<Longrightarrow> ax_userId (ac_auth d) = ax_userId (ac_auth c) \<Longrightarrow> q = ''q''"
    have "map_get ''p'' (aw_conns second_tab) = None"
    proof (rule ccontr)
      assume "\<not> ?thesis"
      then obtain d where d: "map_get ''p'' (aw_conns second_tab) = Some d" by blast
      have "conn_good ([(''p'', 1, 0)] @ [(''q'', 1, 0)]) second_tab ''p'' d"
        by (rule admin_okD(3) [OF admin_run_ok [OF second_tab_run] d])
      then have "ax_userId (ac_auth d) = 1" by (auto simp: conn_good_def)
      with only [OF d] c(2) show False by (simp add: boss_def)
    qed
    then show ?thesis using k bus by auto
  qed
qed




theorem static_confined_witness:
  "\<exists>names. path_plain names \<and> ''/srv/public/_nuxt/a.js'' = abs_path ([''srv'', ''public''] @ names)"
proof -
  have "serveStatic (abs_path [''srv'', ''public'']) (\<lambda>p. False) (\<lambda>p. p = ''/srv/public/_nuxt/a.js'') (CHR ''/'' # ''_nuxt/./a%2Ejs'') None
      = Some \<lparr>sr_file = ''/srv/public/_nuxt/a.js'', sr_type = ''text/javascript; charset=utf-8'', sr_encoding = Identity, sr_immutable = True\<rparr>"
    by code_simp
  moreover have "path_plain [''srv'', ''public'']" by (simp add: path_plain_def)
  ultimately show ?thesis by - (erule static_confined, auto)
qed

end
