(* ===== verification/Client.thy ===== *)
theory Client
  imports AdminWs
begin

text \<open>
  The browser side of a session, app/composables, app/middleware and app/plugins: the realtime socket
  of the dashboard with its reconnects, the state of the login, the gate of the routes, the routing of
  API calls in a split deployment, and the address shown for OBS.

  What the browser does (opening, closing and failing sockets, timers, answers of the server, the parser
  of URLs) is the argument of a step.
\<close>

section \<open>useSocket: LiveSocket\<close>

text \<open>A socket is named by its place among those created, the last being this.ws; an interval by the
  socket whose onopen set it.  ls_calls is the calls of handlers in order, the payload None where it is
  undefined.\<close>

datatype ready = Connecting | Opened | Closing | Closed

record live_socket =
  ls_handlers :: "(string, nat list) jsmap"
  ls_socks :: "ready list"
  ls_pingTimer :: "nat option"
  ls_intervals :: "nat list"
  ls_reconnect :: bool
  ls_closedByUs :: bool
  ls_calls :: "(nat \<times> string \<times> json option) list"
  ls_sent :: "(nat \<times> string) list"

definition ls_connect :: "live_socket \<Rightarrow> live_socket" where
  "ls_connect s = s\<lparr>ls_socks := ls_socks s @ [Connecting]\<rparr>"

definition live_socket_new :: live_socket where
  "live_socket_new = ls_connect \<lparr>ls_handlers = [], ls_socks = [], ls_pingTimer = None, ls_intervals = [],
     ls_reconnect = False, ls_closedByUs = False, ls_calls = [], ls_sent = []\<rparr>"

definition ls_on :: "string \<Rightarrow> nat \<Rightarrow> live_socket \<Rightarrow> live_socket" where
  "ls_on ev cb s =
     (let hs = orDefault (map_get ev (ls_handlers s)) []
      in s\<lparr>ls_handlers := map_put ev (if cb \<in> set hs then hs else hs @ [cb]) (ls_handlers s)\<rparr>)"

definition ls_off :: "string \<Rightarrow> nat \<Rightarrow> live_socket \<Rightarrow> live_socket" where
  "ls_off ev cb s = (case map_get ev (ls_handlers s) of
       None \<Rightarrow> s
     | Some hs \<Rightarrow> s\<lparr>ls_handlers := map_put ev (filter (\<lambda>h. h \<noteq> cb) hs) (ls_handlers s)\<rparr>)"

definition ls_emit :: "string \<Rightarrow> json option \<Rightarrow> live_socket \<Rightarrow> live_socket" where
  "ls_emit ev payload s =
     s\<lparr>ls_calls := ls_calls s @ map (\<lambda>h. (h, ev, payload)) (orDefault (map_get ev (ls_handlers s)) [])\<rparr>"

text \<open>ws.close() of the browser.\<close>

definition ws_shut :: "nat \<Rightarrow> live_socket \<Rightarrow> live_socket" where
  "ws_shut k s = (if ls_socks s ! k \<in> {Connecting, Opened} then s\<lparr>ls_socks := (ls_socks s)[k := Closing]\<rparr> else s)"

definition ls_onopen :: "nat \<Rightarrow> live_socket \<Rightarrow> live_socket" where
  "ls_onopen k s = (ls_emit ''connect'' None s)\<lparr>ls_pingTimer := Some k, ls_intervals := ls_intervals s @ [k]\<rparr>"

definition ls_ping :: "nat \<Rightarrow> live_socket \<Rightarrow> live_socket" where
  "ls_ping k s = (if ls_socks s ! k = Opened then s\<lparr>ls_sent := ls_sent s @ [(k, ''ping'')]\<rparr> else s)"

text \<open>The destructuring of what JSON.parse gives: an array, or the characters of a string; anything
  else throws and the frame is ignored.\<close>

definition frame_parts :: "json \<Rightarrow> (json option \<times> json option) option" where
  "frame_parts j = (case j of
       JArr xs \<Rightarrow> Some (if xs = [] then (None, None) else (Some (hd xs), if tl xs = [] then None else Some (xs ! 1)))
     | JStr cs \<Rightarrow> Some (if cs = [] then (None, None) else (Some (JStr [hd cs]), if tl cs = [] then None else Some (JStr [cs ! 1])))
     | _ \<Rightarrow> None)"

text \<open>A text frame: pong, or what JSON.parse makes of it; a binary frame is None.\<close>

datatype text_frame = PongText | FrameText jtext

definition ls_onmessage :: "text_frame option \<Rightarrow> live_socket \<Rightarrow> live_socket" where
  "ls_onmessage data s = (case data of
       None \<Rightarrow> s
     | Some PongText \<Rightarrow> s
     | Some (FrameText t) \<Rightarrow> (case Option.bind (json_parse t) frame_parts of
           Some (Some (JStr name), payload) \<Rightarrow> ls_emit name payload s
         | _ \<Rightarrow> s))"

definition ls_onclose :: "live_socket \<Rightarrow> live_socket" where
  "ls_onclose s =
     (let s1 = (case ls_pingTimer s of
                  None \<Rightarrow> s
                | Some k \<Rightarrow> s\<lparr>ls_intervals := filter (\<lambda>i. i \<noteq> k) (ls_intervals s), ls_pingTimer := None\<rparr>);
          s2 = ls_emit ''disconnect'' None s1
      in if \<not> ls_closedByUs s2 then s2\<lparr>ls_reconnect := True\<rparr> else s2)"

definition ls_onerror :: "nat \<Rightarrow> live_socket \<Rightarrow> live_socket" where
  "ls_onerror k s = ws_shut k s"

definition ls_close :: "live_socket \<Rightarrow> live_socket" where
  "ls_close s =
     (let s1 = s\<lparr>ls_closedByUs := True, ls_reconnect := False,
                 ls_intervals := (case ls_pingTimer s of None \<Rightarrow> ls_intervals s | Some k \<Rightarrow> filter (\<lambda>i. i \<noteq> k) (ls_intervals s))\<rparr>
      in ws_shut (length (ls_socks s1) - 1) s1)"

text \<open>What the browser may do to a LiveSocket at any time: a socket opens once, while it is connecting;
  messages arrive on an open one; a socket that is not closed may fail, and closes once.\<close>

inductive browser_step :: "live_socket \<Rightarrow> live_socket \<Rightarrow> bool" where
  b_open: "k < length (ls_socks s) \<Longrightarrow> ls_socks s ! k = Connecting
     \<Longrightarrow> browser_step s (ls_onopen k (s\<lparr>ls_socks := (ls_socks s)[k := Opened]\<rparr>))"
| b_message: "k < length (ls_socks s) \<Longrightarrow> ls_socks s ! k = Opened \<Longrightarrow> browser_step s (ls_onmessage data s)"
| b_error: "k < length (ls_socks s) \<Longrightarrow> ls_socks s ! k \<noteq> Closed \<Longrightarrow> browser_step s (ls_onerror k s)"
| b_closed: "k < length (ls_socks s) \<Longrightarrow> ls_socks s ! k \<noteq> Closed
     \<Longrightarrow> browser_step s (ls_onclose (s\<lparr>ls_socks := (ls_socks s)[k := Closed]\<rparr>))"
| b_ping: "k \<in> set (ls_intervals s) \<Longrightarrow> browser_step s (ls_ping k s)"
| b_reconnect: "ls_reconnect s \<Longrightarrow> browser_step s (ls_connect (s\<lparr>ls_reconnect := False\<rparr>))"
| b_on: "browser_step s (ls_on ev cb s)"
| b_off: "browser_step s (ls_off ev cb s)"
| b_close: "browser_step s (ls_close s)"

inductive browser_run :: "live_socket \<Rightarrow> bool" where
  run_new: "browser_run live_socket_new"
| run_step: "browser_run s \<Longrightarrow> browser_step s s' \<Longrightarrow> browser_run s'"

text \<open>The socket all pages share, and its address.\<close>

definition strip_slashes :: "string \<Rightarrow> string" where
  "strip_slashes s = rev (dropWhile (\<lambda>c. c = CHR ''/'') (rev s))"

definition wsUrl :: "string \<Rightarrow> string \<Rightarrow> string \<Rightarrow> string" where
  "wsUrl apiOrigin protocol host =
     (if starts_with ''http'' apiOrigin then strip_slashes (''ws'' @ drop 4 apiOrigin) @ ''/ws/admin''
      else (if protocol = ''https:'' then ''wss'' else ''ws'') @ ''://'' @ host @ ''/ws/admin'')"

definition useSocket :: "live_socket option \<Rightarrow> live_socket" where
  "useSocket so = (case so of Some s \<Rightarrow> s | None \<Rightarrow> live_socket_new)"

text \<open>The second component is the socket that was let go.\<close>

definition disposeSocket :: "live_socket option \<Rightarrow> live_socket option \<times> live_socket option" where
  "disposeSocket so = (None, map_option ls_close so)"


section \<open>A socket never gets stuck\<close>

definition newest :: "live_socket \<Rightarrow> ready" where
  "newest s = last (ls_socks s)"

definition ls_ok :: "live_socket \<Rightarrow> bool" where
  "ls_ok s \<longleftrightarrow> ls_socks s \<noteq> [] \<and> (\<forall>r\<in>set (butlast (ls_socks s)). r = Closed)
     \<and> (if ls_closedByUs s then \<not> ls_reconnect s \<and> newest s \<in> {Closing, Closed} \<and> ls_intervals s = []
        else (ls_reconnect s \<longleftrightarrow> newest s = Closed)
          \<and> (ls_intervals s = [] \<and> newest s \<noteq> Opened
             \<or> ls_intervals s = [length (ls_socks s) - 1] \<and> ls_pingTimer s = Some (length (ls_socks s) - 1)
               \<and> newest s \<in> {Opened, Closing}))"

lemma live_index:
  assumes "\<forall>r\<in>set (butlast xs). r = Closed" "k < length xs" "xs ! k \<noteq> Closed"
  shows "k = length xs - 1" "last xs = xs ! k"
proof -
  show k: "k = length xs - 1"
  proof (rule ccontr)
    assume "k \<noteq> length xs - 1"
    then have "k < length (butlast xs)" using assms(2) by simp
    then have "xs ! k \<in> set (butlast xs)" by (metis nth_butlast nth_mem)
    then show False using assms(1,3) by blast
  qed
  show "last xs = xs ! k" using assms(2) k by (cases xs rule: rev_cases) auto
qed

lemma update_newest:
  "k = length xs - 1 \<Longrightarrow> xs \<noteq> [] \<Longrightarrow> last (xs[k := r]) = r" "k = length xs - 1 \<Longrightarrow> butlast (xs[k := r]) = butlast xs"
  by (cases xs rule: rev_cases; simp)+

lemma ls_emit_frame [simp]:
  "ls_socks (ls_emit e p s) = ls_socks s" "ls_pingTimer (ls_emit e p s) = ls_pingTimer s"
  "ls_intervals (ls_emit e p s) = ls_intervals s" "ls_reconnect (ls_emit e p s) = ls_reconnect s"
  "ls_closedByUs (ls_emit e p s) = ls_closedByUs s"
  by (simp_all add: ls_emit_def)

lemma ls_ok_frame:
  assumes "ls_ok s" "ls_socks s' = ls_socks s" "ls_pingTimer s' = ls_pingTimer s" "ls_intervals s' = ls_intervals s"
    "ls_reconnect s' = ls_reconnect s" "ls_closedByUs s' = ls_closedByUs s"
  shows "ls_ok s'"
  using assms(1) unfolding ls_ok_def newest_def assms(2-6) .

lemma ws_shut_ok:
  assumes "ls_ok s" "k < length (ls_socks s)"
  shows "ls_ok (ws_shut k s)"
proof (cases "ls_socks s ! k \<in> {Connecting, Opened}")
  case True
  then have "ls_socks s ! k \<noteq> Closed" by auto
  note k = live_index [OF _ assms(2) this]
  have "k = length (ls_socks s) - 1" "last (ls_socks s) = ls_socks s ! k" using k assms(1) by (simp_all add: ls_ok_def)
  then show ?thesis using assms(1) True by (auto simp: ws_shut_def ls_ok_def newest_def update_newest)
qed (simp add: ws_shut_def assms(1))

lemma browser_step_ok:
  assumes "browser_step s s'" "ls_ok s"
  shows "ls_ok s'"
  using assms
proof (cases rule: browser_step.cases)
  case (b_open k)
  have k: "k = length (ls_socks s) - 1" "last (ls_socks s) = Connecting"
    using live_index [of "ls_socks s" k] b_open assms(2) by (simp_all add: ls_ok_def)
  then show ?thesis using b_open assms(2) by (auto simp: ls_onopen_def ls_ok_def newest_def update_newest split: if_splits)
next
  case (b_message k data)
  have *: "ls_onmessage data s = s \<or> (\<exists>e p. ls_onmessage data s = ls_emit e p s)"
    by (auto simp: ls_onmessage_def split: option.split text_frame.split json.split)
  show ?thesis unfolding b_message(1) using * by (elim disjE exE) (auto intro: ls_ok_frame [OF assms(2)] simp: assms(2))
next
  case (b_error k)
  then show ?thesis using ws_shut_ok [OF assms(2)] by (simp add: ls_onerror_def)
next
  case (b_closed k)
  have k: "k = length (ls_socks s) - 1" "last (ls_socks s) = ls_socks s ! k"
    using live_index [of "ls_socks s" k] b_closed assms(2) by (simp_all add: ls_ok_def)
  then show ?thesis using b_closed assms(2)
    by (auto simp: ls_onclose_def Let_def ls_ok_def newest_def update_newest split: option.splits if_splits)
next
  case (b_ping k)
  then show ?thesis by (auto simp: ls_ping_def intro: ls_ok_frame [OF assms(2)])
next
  case b_reconnect
  then show ?thesis using assms(2)
    by (auto simp: ls_connect_def ls_ok_def newest_def butlast_append split: if_splits dest!: in_set_butlastD)
      (metis append_butlast_last_id insertE list.set(2) rotate1.simps(2) set_rotate1)+
next
  case b_close
  let ?s = "s\<lparr>ls_closedByUs := True, ls_reconnect := False,
     ls_intervals := (case ls_pingTimer s of None \<Rightarrow> ls_intervals s | Some k \<Rightarrow> filter (\<lambda>i. i \<noteq> k) (ls_intervals s))\<rparr>"
  have "newest s \<in> {Connecting, Opened} \<longleftrightarrow> ls_socks s ! (length (ls_socks s) - 1) \<in> {Connecting, Opened}"
    using assms(2) by (simp add: ls_ok_def newest_def last_conv_nth)
  then show ?thesis using assms(2) unfolding b_close ls_close_def Let_def
    by (cases "newest s") (auto simp: ws_shut_def ls_ok_def newest_def update_newest split: option.splits if_splits)
qed (auto simp: ls_on_def ls_off_def Let_def intro: ls_ok_frame split: option.split)

lemma browser_run_ok: "browser_run s \<Longrightarrow> ls_ok s"
proof (induction rule: browser_run.induct)
  case run_new
  show ?case by (simp add: live_socket_new_def ls_connect_def ls_ok_def newest_def)
next
  case (run_step s s')
  then show ?case using browser_step_ok by blast
qed

text \<open>C38 The dashboard's socket cannot get stuck and cannot double: in every history of opens, frames,
  failures and closes exactly one of these holds until the page lets it go: one socket is not closed
  yet, or a reconnect is pending; once the page has let it go no reconnect is pending, no step opens
  another socket and none sends a ping; and pings only run on a socket that did open.\<close>

theorem socket_never_stuck:
  assumes "browser_run s"
  shows "(\<not> ls_closedByUs s \<longrightarrow> length (filter (\<lambda>r. r \<noteq> Closed) (ls_socks s)) + (if ls_reconnect s then 1 else 0) = 1)
    \<and> (ls_closedByUs s \<longrightarrow> length (filter (\<lambda>r. r \<noteq> Closed) (ls_socks s)) \<le> 1 \<and> \<not> ls_reconnect s
        \<and> (\<forall>s'. browser_step s s' \<longrightarrow> length (ls_socks s') = length (ls_socks s) \<and> ls_sent s' = ls_sent s))
    \<and> (\<not> ls_closedByUs s \<longrightarrow> (\<forall>k\<in>set (ls_intervals s). ls_socks s ! k \<in> {Opened, Closing}))"
proof -
  note ok = browser_run_ok [OF assms]
  have split: "ls_socks s = butlast (ls_socks s) @ [newest s]" using ok by (simp add: ls_ok_def newest_def)
  have "filter (\<lambda>r. r \<noteq> Closed) (butlast (ls_socks s)) = []" using ok by (simp add: ls_ok_def filter_empty_conv)
  then have live: "filter (\<lambda>r. r \<noteq> Closed) (ls_socks s) = (if newest s = Closed then [] else [newest s])"
    by (subst split) simp
  have "length (ls_socks s') = length (ls_socks s) \<and> ls_sent s' = ls_sent s" if "browser_step s s'" "ls_closedByUs s" for s'
    using that(1)
  proof (cases rule: browser_step.cases)
    case (b_open k)
    then show ?thesis by (simp add: ls_onopen_def ls_emit_def)
  next
    case (b_closed k)
    then show ?thesis by (simp add: ls_onclose_def ls_emit_def Let_def split: option.split)
  qed (use ok that(2) in \<open>auto simp: ls_ok_def ls_onmessage_def ls_emit_def ls_onerror_def ws_shut_def ls_on_def ls_off_def
        ls_close_def Let_def split: option.splits text_frame.split json.split\<close>)
  moreover have "last (ls_socks s) = ls_socks s ! (length (ls_socks s) - 1)" using ok by (simp add: ls_ok_def last_conv_nth)
  ultimately show ?thesis using ok by (auto simp: live ls_ok_def newest_def)
qed

text \<open>A socket that opened, failed, and was let go while the reconnect was pending.\<close>

definition dropped :: live_socket where
  "dropped = ls_onclose ((ls_onopen 0 (live_socket_new\<lparr>ls_socks := [Opened]\<rparr>))\<lparr>ls_socks := [Closed]\<rparr>)"

lemma dropped_run: "browser_run dropped"
proof -
  have "browser_step live_socket_new (ls_onopen 0 (live_socket_new\<lparr>ls_socks := [Opened]\<rparr>))" (is "browser_step _ ?o")
    using b_open [of 0 live_socket_new] by (simp add: live_socket_new_def ls_connect_def)
  then have o: "browser_run ?o" by (rule run_step [OF run_new])
  have "browser_step ?o dropped"
    using b_closed [of 0 ?o] by (simp add: dropped_def ls_onopen_def)
  with o show ?thesis by (rule run_step)
qed

theorem socket_never_stuck_witness:
  "ls_reconnect dropped \<and> ls_intervals dropped = [] \<and> \<not> ls_reconnect (ls_close dropped)"
proof -
  have d: "\<not> ls_closedByUs dropped" "ls_socks dropped = [Closed]" "ls_intervals dropped = []"
    by (simp_all add: dropped_def ls_onclose_def ls_onopen_def ls_emit_def live_socket_new_def ls_connect_def Let_def)
  have "ls_closedByUs (ls_close dropped)" by (simp add: ls_close_def ws_shut_def Let_def)
  with socket_never_stuck [OF run_step [OF dropped_run b_close]] have "\<not> ls_reconnect (ls_close dropped)" by blast
  moreover have "ls_reconnect dropped" using socket_never_stuck [OF dropped_run] d by (simp split: if_splits)
  ultimately show ?thesis using d by simp
qed

text \<open>Two tabs of one administrator: each that connects closes the other, whose browser connects again.\<close>

lemma tabs_take_turns:
  assumes "map_get u (aw_byAdmin s) = Some p" "map_get p (aw_conns s) = Some c" "p \<noteq> []" "q \<noteq> []" "q \<noteq> p" "ax_userId a = u"
  shows "aw_out (onAdminWsOpen q a s) = aw_out s @ [(p, AClose 4000 ''superseded by a newer connection'')]"
    and "map_get p (aw_conns (onAdminWsOpen q a s)) = None"
    and "map_get u (aw_byAdmin (onAdminWsOpen q a s)) = Some q" "\<exists>d. map_get q (aw_conns (onAdminWsOpen q a s)) = Some d"
  using assms by (simp_all add: onAdminWsOpen_def replace_prev_def Let_def map_get_put map_get_del)

lemma superseded_reconnects:
  "\<not> ls_closedByUs l \<Longrightarrow> ls_reconnect (ls_onclose l)"
  by (auto simp: ls_onclose_def ls_emit_def Let_def split: option.split)


section \<open>useAuth\<close>

text \<open>The state every page shares, and the two keys of sessionStorage.\<close>

record session_user =
  su_id :: int
  su_email :: string
  su_role :: role

record auth_state =
  au_user :: "session_user option"
  au_probed :: bool
  ss_loginNotice :: "string option"
  ss_invite :: "string option"

definition stashLoginNotice :: "string option \<Rightarrow> auth_state \<Rightarrow> auth_state" where
  "stashLoginNotice n s = (case n of None \<Rightarrow> s | Some t \<Rightarrow> if t = [] then s else s\<lparr>ss_loginNotice := Some t\<rparr>)"

definition setPendingInvite :: "string \<Rightarrow> auth_state \<Rightarrow> auth_state" where
  "setPendingInvite c s = (if c \<noteq> [] then s\<lparr>ss_invite := Some c\<rparr> else s)"

definition takePendingInvite :: "auth_state \<Rightarrow> string \<times> auth_state" where
  "takePendingInvite s = (orDefault (ss_invite s) [], s\<lparr>ss_invite := None\<rparr>)"

definition peekPendingInvite :: "auth_state \<Rightarrow> string" where
  "peekPendingInvite s = orDefault (ss_invite s) []"

definition isAuthenticated :: "auth_state \<Rightarrow> bool" where
  "isAuthenticated s = (au_user s \<noteq> None)"

definition isAdmin :: "auth_state \<Rightarrow> bool" where
  "isAdmin s = (map_option su_role (au_user s) = Some RAdmin)"

text \<open>answer is what the request came back with.\<close>

definition fetchSession :: "error + session_user option \<Rightarrow> auth_state \<Rightarrow> session_user option \<times> auth_state" where
  "fetchSession answer s = (case answer of
       Inr u \<Rightarrow> (u, s\<lparr>au_user := u, au_probed := True\<rparr>)
     | Inl _ \<Rightarrow> (None, s\<lparr>au_user := None, au_probed := True\<rparr>))"

text \<open>The user and the login notice of an answer of login or register.\<close>

definition signed_in :: "session_user \<times> string option \<Rightarrow> auth_state \<Rightarrow> (session_user, auth_state) outcome" where
  "signed_in a s = (Inr (fst a), (stashLoginNotice (snd a) s)\<lparr>au_user := Some (fst a), au_probed := True\<rparr>)"

definition client_login :: "error + session_user \<times> string option \<Rightarrow> auth_state \<Rightarrow> (session_user, auth_state) outcome" where
  "client_login answer s = (case answer of Inl e \<Rightarrow> (Inl e, s) | Inr a \<Rightarrow> signed_in a s)"

record register_request =
  rr_email :: string
  rr_password :: string
  rr_code :: string
  rr_session :: string
  rr_invite :: "string option"

text \<open>encrypted is the outcome of encryptPassword; the server answers what was sent.\<close>

definition client_register ::
    "(register_request \<Rightarrow> error + session_user \<times> string option) \<Rightarrow> error + string \<Rightarrow> string \<Rightarrow> string \<Rightarrow> string \<Rightarrow> auth_state
       \<Rightarrow> (session_user, auth_state) outcome" where
  "client_register server encrypted email code session s =
     (case encrypted of
        Inl e \<Rightarrow> (Inl e, s)
      | Inr cipher \<Rightarrow>
          let (invite, s1) = takePendingInvite s in
          (case server \<lparr>rr_email = email, rr_password = cipher, rr_code = code, rr_session = session,
                        rr_invite = (if invite \<noteq> [] then Some invite else None)\<rparr> of
             Inl e \<Rightarrow> (Inl e, s1)
           | Inr a \<Rightarrow> signed_in a s1))"

text \<open>Where the page goes, whatever the answer, and the answer, an error being thrown on.\<close>

definition client_logout :: "error + unit \<Rightarrow> auth_state \<Rightarrow> string \<times> (unit, auth_state) outcome" where
  "client_logout answer s = (''/login'', answer, s\<lparr>au_user := None\<rparr>)"

definition fetchBootstrap :: "error + bool \<times> string \<Rightarrow> bool \<times> string" where
  "fetchBootstrap answer = (case answer of Inr b \<Rightarrow> b | Inl _ \<Rightarrow> (False, []))"

text \<open>A stashed invite goes into one registration, and is gone whether that succeeds or not.\<close>

lemma invite_sent_once:
  assumes "c \<noteq> []" "encrypted = Inr cipher"
    and "client_register server encrypted email code session (setPendingInvite c s) = (r, s')"
  shows "ss_invite s' = None" "peekPendingInvite s' = []"
    and "server \<lparr>rr_email = email, rr_password = cipher, rr_code = code, rr_session = session, rr_invite = Some c\<rparr> = Inl e \<Longrightarrow> r = Inl e"
  using assms by (auto simp: client_register_def setPendingInvite_def takePendingInvite_def peekPendingInvite_def Let_def
      signed_in_def stashLoginNotice_def split: sum.splits option.splits if_splits)


section \<open>The gate of the routes\<close>

definition PUBLIC :: "string list" where "PUBLIC = [''/'', ''/login'', ''/invite'']"

definition ADMIN_ONLY :: "string list" where
  "ADMIN_ONLY = [''/dashboard/streams'', ''/dashboard/nodes'', ''/dashboard/config'', ''/dashboard/mail'', ''/dashboard/audit'',
     ''/dashboard/users'', ''/dashboard/groups'']"

record route =
  rt_path :: string
  rt_fullPath :: string
  rt_adminOnly :: bool

definition admin_route :: "route \<Rightarrow> bool" where
  "admin_route to \<longleftrightarrow> rt_adminOnly to \<or> list_ex (\<lambda>p. rt_path to = p \<or> starts_with (p @ ''/'') (rt_path to)) ADMIN_ONLY"

text \<open>None: the navigation goes on.\<close>

definition auth_global :: "bool \<Rightarrow> session_user option \<Rightarrow> route \<Rightarrow> string option" where
  "auth_global client user to =
     (if rt_path to = ''/login'' \<and> user \<noteq> None then Some ''/dashboard''
      else if rt_path to \<in> set PUBLIC then None
      else if (case user of Some u \<Rightarrow> su_role u \<noteq> RAdmin | None \<Rightarrow> False) \<and> admin_route to then Some ''/dashboard''
      else if user = None \<and> client then Some (''/login?redirect='' @ encodeURIComponent (rt_fullPath to))
      else None)"

definition page :: "string \<Rightarrow> route" where
  "page p = \<lparr>rt_path = p, rt_fullPath = p, rt_adminOnly = False\<rparr>"

text \<open>The user a browser holds is the one the server knows by the cookie.\<close>

definition session_of :: "auth_context option \<Rightarrow> session_user option \<Rightarrow> bool" where
  "session_of a user \<longleftrightarrow> map_option (\<lambda>c. (ax_userId c, ax_role c)) a = map_option (\<lambda>u. (su_id u, su_role u)) user"

text \<open>C37 The gate of the single-page app mirrors the gate of the server: for a page without a query that
  is none of the server's public prefixes, the guide pages among them, the one asks for the login
  exactly when the other does, with the same way back; what the app sends elsewhere, to the dashboard,
  is only the login page of somebody logged in and the administrators' pages of somebody who is not
  one; and no redirect leads to another.\<close>

theorem gate_mirrors:
  assumes "session_of (context_auth x cookie d) user" "CHR ''?'' \<notin> set p" "\<not> starts_with ''/api/'' p"
    and "\<not> list_ex (\<lambda>q. starts_with q p) ALLOW_PREFIX" "p \<noteq> ''/favicon.ico''"
  shows "(snd (auth_middleware x cookie p d) = RedirectTo t \<longleftrightarrow> auth_global True user (page p) = Some t \<and> t \<noteq> ''/dashboard'')
    \<and> (auth_global True user (page p) = Some ''/dashboard'' \<longleftrightarrow>
         (\<exists>u. user = Some u \<and> (p = ''/login'' \<or> su_role u \<noteq> RAdmin \<and> admin_route (page p))))
    \<and> (\<forall>r q. auth_global True user (page q) = Some r \<longrightarrow> auth_global True user (page (takeWhile (\<lambda>c. c \<noteq> CHR ''?'') r)) = None)"
proof -
  have path: "takeWhile (\<lambda>c. c \<noteq> CHR ''?'') p = p" using assms(2) by (auto simp: takeWhile_eq_all_conv)
  have logged: "context_auth x cookie d = None \<longleftrightarrow> user = None"
    using assms(1) by (cases user; cases "context_auth x cookie d") (simp_all add: session_of_def)
  have allowed: "allowlisted p \<longleftrightarrow> p \<in> set PUBLIC"
    using assms(4,5) by (auto simp: allowlisted_def ALLOW_EXACT_def PUBLIC_def)
  have home: "\<not> admin_route (page ''/dashboard'')" by (simp add: admin_route_def page_def ADMIN_ONLY_def)
  have public: "\<not> admin_route (page q)" if "q \<in> set PUBLIC" for q
    using that by (auto simp: admin_route_def page_def ADMIN_ONLY_def PUBLIC_def)
  have "auth_global True user (page (takeWhile (\<lambda>c. c \<noteq> CHR ''?'') r)) = None" if "auth_global True user (page q) = Some r" for r q
    using that home by (cases user) (auto simp: auth_global_def page_def PUBLIC_def split: if_splits)
  moreover have "snd (auth_middleware x cookie p d) =
      (if p \<in> set PUBLIC \<or> user \<noteq> None then Through else RedirectTo (''/login?redirect='' @ encodeURIComponent p))"
    using assms(3) by (simp add: auth_middleware_def Let_def path allowed logged)
  ultimately show ?thesis
    using public [of p] by (cases user) (auto simp: auth_global_def page_def PUBLIC_def)
qed

theorem gate_mirrors_witness:
  "auth_global True None (page ''/dashboard'') = Some ''/login?redirect=%2Fdashboard''
   \<and> snd (auth_middleware demo_jwt None ''/dashboard'' studio) = RedirectTo ''/login?redirect=%2Fdashboard''"
proof -
  have none: "session_of (context_auth demo_jwt None studio) None"
    by (simp add: session_of_def context_auth_def readSessionCookie_def)
  have "auth_global True None (page ''/dashboard'') = Some ''/login?redirect=%2Fdashboard''" by code_simp
  with gate_mirrors [OF none, of "''/dashboard''" "''/login?redirect=%2Fdashboard''"] show ?thesis
    by (simp add: ALLOW_PREFIX_def)
qed

text \<open>The guide of an event is public on the server, but not in the app.\<close>

lemma guide_page_gated:
  "snd (auth_middleware x cookie ''/e/spring'' d) = Through"
  "auth_global True None (page ''/e/spring'') = Some ''/login?redirect=%2Fe%2Fspring''"
proof -
  show "snd (auth_middleware x cookie ''/e/spring'' d) = Through"
    by (simp add: auth_middleware_def allowlisted_def ALLOW_PREFIX_def Let_def)
  show "auth_global True None (page ''/e/spring'') = Some ''/login?redirect=%2Fe%2Fspring''" by code_simp
qed


section \<open>API calls in a split deployment\<close>

text \<open>A parsed URL; parse is new URL, None where it throws.\<close>

record url =
  ur_origin :: string
  ur_hostname :: string
  ur_pathname :: string
  ur_search :: string

definition http_url :: "string \<Rightarrow> bool" where
  "http_url s = (starts_with ''http://'' s \<or> starts_with ''https://'' s)"

text \<open>The origin the plugin works with, None where it does nothing.\<close>

definition api_origin :: "string \<Rightarrow> string option" where
  "api_origin configured = (let a = strip_slashes configured in
     if a = [] \<or> \<not> starts_with ''http'' a then None else Some a)"

definition fetch_target :: "string \<Rightarrow> string \<Rightarrow> (string \<Rightarrow> url option) \<Rightarrow> string \<Rightarrow> error + string option" where
  "fetch_target apiOrigin here parse raw =
     (if starts_with ''/api/'' raw then Inr (Some (apiOrigin @ raw))
      else if http_url raw then
        (case parse raw of
           None \<Rightarrow> Inl (JsError ''Invalid URL'')
         | Some u \<Rightarrow> Inr (if ur_origin u = here \<and> starts_with ''/api/'' (ur_pathname u)
             then Some (apiOrigin @ ur_pathname u @ ur_search u) else None))
      else Inr None)"

text \<open>What is fetched: the URL, and whether credentials were added.\<close>

definition wrapped_fetch :: "string \<Rightarrow> string \<Rightarrow> (string \<Rightarrow> url option) \<Rightarrow> string \<Rightarrow> error + string \<times> bool" where
  "wrapped_fetch configured here parse raw =
     (case api_origin configured of
        None \<Rightarrow> Inr (raw, False)
      | Some a \<Rightarrow> (case fetch_target a here parse raw of
            Inl e \<Rightarrow> Inl e
          | Inr None \<Rightarrow> Inr (raw, False)
          | Inr (Some t) \<Rightarrow> Inr (t, True)))"

lemma strip_slashes_end: "strip_slashes s = [] \<or> last (strip_slashes s) \<noteq> CHR ''/''"
proof -
  have "dropWhile (\<lambda>c. c = CHR ''/'') (rev s) = [] \<or> hd (dropWhile (\<lambda>c. c = CHR ''/'') (rev s)) \<noteq> CHR ''/''"
    using hd_dropWhile [of "\<lambda>c. c = CHR ''/''" "rev s"] by blast
  then show ?thesis by (auto simp: strip_slashes_def last_rev)
qed

text \<open>Credentials go with nothing but a path below /api/ of the configured origin, which does not end in
  a slash, and every other request is left as it is.\<close>

lemma credentials_confined:
  assumes "wrapped_fetch configured here parse raw = Inr (t, credentials)"
  shows "if credentials then \<exists>rest. t = strip_slashes configured @ ''/api/'' @ rest \<and> starts_with ''http'' t else t = raw"
  using assms by (auto simp: wrapped_fetch_def fetch_target_def api_origin_def Let_def starts_with_iff
      split: option.splits sum.splits if_splits)


section \<open>The address for OBS\<close>

text \<open>hostnameOf by the parser of URLs.\<close>

definition hostnameOf :: "(string \<Rightarrow> url option) \<Rightarrow> string \<Rightarrow> string" where
  "hostnameOf parse origin = (if origin = [] then [] else case parse origin of None \<Rightarrow> [] | Some u \<Rightarrow> ur_hostname u)"

definition ingestHost :: "(string \<Rightarrow> url option) \<Rightarrow> string \<Rightarrow> string \<Rightarrow> string \<Rightarrow> string" where
  "ingestHost parse srsPublicHost apiOrigin browsed =
     (let override = hostnameOf parse srsPublicHost; api = hostnameOf parse apiOrigin
      in if override \<noteq> [] then override else if api \<noteq> [] then api else browsed)"

definition obs_server :: "(string \<Rightarrow> url option) \<Rightarrow> string \<Rightarrow> string \<Rightarrow> string \<Rightarrow> string \<Rightarrow> string" where
  "obs_server parse assignedRtmpAuthority srsPublicHost apiOrigin browsed =
     (let assigned = (if assignedRtmpAuthority \<noteq> [] then obsServerUrl assignedRtmpAuthority else [])
      in if assigned \<noteq> [] then assigned else obsServerUrl (ingestHost parse srsPublicHost apiOrigin browsed))"

definition obs_streamKey :: "string \<Rightarrow> string \<Rightarrow> string" where
  "obs_streamKey streamName token = streamName @ ''?token='' @ token"

text \<open>The assigned node goes before the override; an override that is no URL, such as a bare address,
  counts for nothing.\<close>

lemma assigned_first: "a \<noteq> [] \<Longrightarrow> obs_server parse a override api browsed = obsServerUrl a"
  by (simp add: obs_server_def obsServerUrl_def Let_def)

lemma bare_override_ignored: "parse h = None \<Longrightarrow> ingestHost parse h [] browsed = browsed"
  by (simp add: ingestHost_def hostnameOf_def Let_def)


section \<open>Dialogs\<close>

text \<open>useConfirm; a pending run is a name.\<close>

record 'r confirm_state =
  cf_open :: bool
  cf_message :: string
  cf_actionLabel :: string
  cf_destructive :: bool
  cf_pendingRun :: "'r option"

definition confirm_new :: "'r confirm_state" where
  "confirm_new = \<lparr>cf_open = False, cf_message = [], cf_actionLabel = ''Confirm'', cf_destructive = True, cf_pendingRun = None\<rparr>"

definition confirm_ask :: "string \<Rightarrow> 'r \<Rightarrow> string option \<Rightarrow> bool option \<Rightarrow> 'r confirm_state \<Rightarrow> 'r confirm_state" where
  "confirm_ask message run actionLabel destructive s =
     s\<lparr>cf_message := message, cf_actionLabel := orDefault actionLabel ''Confirm'', cf_destructive := orDefault destructive True,
       cf_pendingRun := Some run, cf_open := True\<rparr>"

definition confirm_cancel :: "'r confirm_state \<Rightarrow> 'r confirm_state" where
  "confirm_cancel s = s\<lparr>cf_open := False, cf_pendingRun := None\<rparr>"

text \<open>The run that is started.\<close>

definition confirm_accept :: "'r confirm_state \<Rightarrow> 'r option \<times> 'r confirm_state" where
  "confirm_accept s = (cf_pendingRun s, s\<lparr>cf_open := False, cf_pendingRun := None\<rparr>)"

text \<open>The dialog asked last runs once, and not after it was cancelled.\<close>

lemma confirm_runs_once:
  "fst (confirm_accept (confirm_ask m r l d s)) = Some r"
  "fst (confirm_accept (snd (confirm_accept s))) = None" "fst (confirm_accept (confirm_cancel s)) = None"
  by (simp_all add: confirm_accept_def confirm_ask_def confirm_cancel_def)

text \<open>useUnsavedLeaveGuard\<close>

record leave_guard =
  lg_confirmLeave :: bool
  lg_pendingTo :: "string option"

text \<open>A route is left: the first component says whether the navigation goes on.\<close>

definition before_leave :: "bool \<Rightarrow> bool \<Rightarrow> string \<Rightarrow> leave_guard \<Rightarrow> bool \<times> leave_guard" where
  "before_leave dirty saving to g =
     (if dirty \<and> \<not> saving then (False, g\<lparr>lg_pendingTo := Some to, lg_confirmLeave := True\<rparr>) else (True, g))"

definition leave_proceed :: "leave_guard \<Rightarrow> string option \<times> leave_guard" where
  "leave_proceed g = (case lg_pendingTo g of Some t \<Rightarrow> if t = [] then None else Some t | None \<Rightarrow> None,
     g\<lparr>lg_confirmLeave := False, lg_pendingTo := None\<rparr>)"

text \<open>A dirty page is not left unasked, and a page that proceeds when it is clean goes where it was to go.\<close>

lemma leave_resumes:
  assumes "to \<noteq> []" "before_leave True False to g = (on, g')"
  shows "\<not> on" "fst (leave_proceed g') = Some to" "fst (before_leave False saving to (snd (leave_proceed g')))"
  using assms by (auto simp: before_leave_def leave_proceed_def)

end
