(* ===== verification/Pages.thy ===== *)
theory Pages
  imports Client Accounts
begin

text \<open>
  The state behind the pages of app/pages that decide something: the login form, the invitation, the
  live list, the users panel and the configuration form.  What the server answers and what the user
  types are arguments; toasts and markup are left out.
\<close>

section \<open>login.vue\<close>

datatype login_mode = LoginMode | RegisterMode

record login_page =
  lp_mode :: login_mode
  lp_email :: string
  lp_password :: string
  lp_confirm :: string
  lp_code :: string
  lp_error :: string
  lp_bootstrap :: bool
  lp_session :: string
  lp_cooldown :: int
  lp_timer :: bool

text \<open>text is what an error shows: its statusMessage or message, empty where it has neither; fresh is
  what newSession makes up.  The answer of sendCode is its bootstrap flag; the first component of the
  result is what was sent.\<close>

definition error_or :: "string \<Rightarrow> string \<Rightarrow> string" where
  "error_or t fallback = (if t \<noteq> [] then t else fallback)"

definition doSendCode :: "(error \<Rightarrow> string) \<Rightarrow> string \<Rightarrow> (string \<times> string \<Rightarrow> error + bool) \<Rightarrow> login_page
    \<Rightarrow> (string \<times> string) option \<times> login_page" where
  "doSendCode text fresh server g0 =
     (let g = g0\<lparr>lp_error := []\<rparr>; e = js_trim (lp_email g)
      in if e = [] then (None, g\<lparr>lp_error := ''Please enter your email first''\<rparr>)
         else let g1 = (if lp_session g = [] then g\<lparr>lp_session := fresh\<rparr> else g)
         in (Some (e, lp_session g1),
             case server (e, lp_session g1) of
               Inl err \<Rightarrow> g1\<lparr>lp_error := error_or (text err) ''Failed to send verification code''\<rparr>
             | Inr True \<Rightarrow> g1\<lparr>lp_bootstrap := True\<rparr>
             | Inr False \<Rightarrow> g1\<lparr>lp_cooldown := 60, lp_timer := True\<rparr>))"

text \<open>A second of the cooldown.\<close>

definition cooldown_tick :: "login_page \<Rightarrow> login_page" where
  "cooldown_tick g = (if lp_timer g
     then let c = lp_cooldown g - 1 in g\<lparr>lp_cooldown := c, lp_timer := (0 < c)\<rparr> else g)"

text \<open>The button that sends a code is shown disabled while the cooldown runs.\<close>

definition code_button :: "login_page \<Rightarrow> bool" where
  "code_button g = (\<not> 0 < lp_cooldown g)"

definition submit_error :: "login_page \<Rightarrow> string option" where
  "submit_error g =
     (if js_trim (lp_email g) = [] \<or> lp_password g = [] then Some ''Please enter your email and password''
      else if lp_mode g = RegisterMode \<and> lp_password g \<noteq> lp_confirm g then Some ''The two passwords do not match''
      else if lp_mode g = RegisterMode \<and> \<not> lp_bootstrap g \<and> js_trim (lp_code g) = []
      then Some ''Please enter the email verification code''
      else None)"

definition HOME :: string where "HOME = ''/dashboard''"

text \<open>logins and registers are the server behind the two calls, encrypted the outcome of encryptPassword,
  redirect the query parameter where it is one string; the first component is where the page goes.\<close>

definition login_submit ::
    "(error \<Rightarrow> string) \<Rightarrow> (string \<times> string \<Rightarrow> error + session_user \<times> string option)
       \<Rightarrow> (register_request \<Rightarrow> error + session_user \<times> string option) \<Rightarrow> error + string \<Rightarrow> string option
       \<Rightarrow> login_page \<times> auth_state \<Rightarrow> string option \<times> login_page \<times> auth_state" where
  "login_submit text logins registers encrypted redirect ga =
     (let g = (fst ga)\<lparr>lp_error := []\<rparr>; a = snd ga
      in case submit_error g of
           Some m \<Rightarrow> (None, g\<lparr>lp_error := m\<rparr>, a)
         | None \<Rightarrow>
             let (r, a1) = (if lp_mode g = LoginMode
                   then (case encrypted of Inl e \<Rightarrow> (Inl e, a) | Inr c \<Rightarrow> client_login (logins (js_trim (lp_email g), c)) a)
                   else client_register registers encrypted (js_trim (lp_email g)) (js_trim (lp_code g)) (lp_session g) a)
             in case r of
                  Inl e \<Rightarrow> (None, g\<lparr>lp_error := error_or (text e)
                      (if lp_mode g = LoginMode then ''Sign in failed'' else ''Registration failed'')\<rparr>, a1)
                | Inr _ \<Rightarrow> (Some (orDefault redirect HOME), g, a1))"

definition switchMode :: "login_mode \<Rightarrow> login_page \<Rightarrow> login_page" where
  "switchMode next g = g\<lparr>lp_mode := next, lp_error := [], lp_confirm := [], lp_code := []\<rparr>"

text \<open>onMounted: the answer of fetchBootstrap and the invite of the query.\<close>

definition login_mounted :: "error + bool \<times> string \<Rightarrow> string option \<Rightarrow> login_page \<times> auth_state \<Rightarrow> login_page \<times> auth_state" where
  "login_mounted answer invite ga =
     ((fst ga)\<lparr>lp_bootstrap := fst (fetchBootstrap answer)\<rparr>,
      case invite of None \<Rightarrow> snd ga | Some i \<Rightarrow> setPendingInvite (js_trim i) (snd ga))"

text \<open>What a user does on the page.\<close>

inductive login_edit :: "login_page \<Rightarrow> login_page \<Rightarrow> bool" where
  edit_email: "login_edit g (g\<lparr>lp_email := s\<rparr>)"
| edit_password: "login_edit g (g\<lparr>lp_password := s\<rparr>)"
| edit_confirm: "login_edit g (g\<lparr>lp_confirm := s\<rparr>)"
| edit_code: "login_edit g (g\<lparr>lp_code := s\<rparr>)"
| edit_mode: "login_edit g (switchMode m g)"
| edit_tick: "login_edit g (cooldown_tick g)"
| edit_send: "code_button g \<Longrightarrow> login_edit g (snd (doSendCode text fresh server g))"
| edit_submit: "login_edit g (fst (snd (login_submit text logins registers encrypted redirect (g, a))))"

text \<open>The flow token: once a code was asked for, every later code and the registration name the same one.\<close>

lemma session_stable:
  assumes "login_edit g g'" "lp_session g \<noteq> []"
  shows "lp_session g' = lp_session g"
  using assms
  by (cases rule: login_edit.cases)
    (auto simp: switchMode_def cooldown_tick_def doSendCode_def login_submit_def Let_def case_prod_unfold
      split: option.split sum.split bool.split)

definition cooldown_ok :: "login_page \<Rightarrow> bool" where
  "cooldown_ok g \<longleftrightarrow> (lp_timer g \<longleftrightarrow> 0 < lp_cooldown g) \<and> 0 \<le> lp_cooldown g \<and> lp_cooldown g \<le> 60"

text \<open>The cooldown runs exactly while it is above 0 and ends after at most 60 seconds.\<close>

lemma cooldown_kept:
  assumes "login_edit g g'" "cooldown_ok g"
  shows "cooldown_ok g'"
  using assms
  by (cases rule: login_edit.cases)
    (auto simp: cooldown_ok_def switchMode_def cooldown_tick_def doSendCode_def login_submit_def code_button_def Let_def
      case_prod_unfold split: option.split sum.split bool.split)

lemma cooldown_ends: "cooldown_ok g \<Longrightarrow> code_button ((cooldown_tick ^^ 60) g)"
proof -
  have "cooldown_ok g \<Longrightarrow> cooldown_ok ((cooldown_tick ^^ n) g) \<and> lp_cooldown ((cooldown_tick ^^ n) g) = max 0 (lp_cooldown g - int n)" for n
  proof (induction n)
    case (Suc n)
    then show ?case by (auto simp: cooldown_tick_def cooldown_ok_def Let_def)
  qed (auto simp: cooldown_ok_def)
  then show "cooldown_ok g \<Longrightarrow> code_button ((cooldown_tick ^^ 60) g)" by (auto simp: code_button_def cooldown_ok_def)
qed


section \<open>invite.vue\<close>

record invite_page =
  ip_code :: string
  ip_claiming :: bool
  ip_joined :: "(int \<times> string) option"

text \<open>The answer of the claim, asked for only when the first component says so.\<close>

definition invite_claim_click :: "error + int \<times> string \<Rightarrow> invite_page \<Rightarrow> bool \<times> invite_page" where
  "invite_claim_click answer g =
     (if ip_code g = [] \<or> ip_claiming g then (False, g)
      else (True, (case answer of Inr j \<Rightarrow> g\<lparr>ip_joined := Some j\<rparr> | Inl _ \<Rightarrow> g)\<lparr>ip_claiming := False\<rparr>))"

definition goSignIn :: "invite_page \<Rightarrow> auth_state \<Rightarrow> (string \<times> string option) \<times> auth_state" where
  "goSignIn g a = ((''/login'', if ip_code g \<noteq> [] then Some (ip_code g) else None),
     if ip_code g \<noteq> [] then setPendingInvite (ip_code g) a else a)"


section \<open>streams.vue\<close>

record live_page =
  vp_sessions :: "(int, session_snapshot) jsmap"
  vp_connected :: bool
  vp_lastViolation :: "(session_snapshot \<times> string list) option"

definition live_upsert :: "session_snapshot \<Rightarrow> live_page \<Rightarrow> live_page" where
  "live_upsert s g = g\<lparr>vp_sessions := map_put (ss_sessionId s) s (vp_sessions g)\<rparr>"

definition live_seed :: "session_snapshot list \<Rightarrow> live_page \<Rightarrow> live_page" where
  "live_seed ss g = fold live_upsert ss g"

fun live_event :: "bus_event \<Rightarrow> live_page \<Rightarrow> live_page" where
  "live_event (SessionStart s) g = live_upsert s g"
| "live_event (SessionMetric s) g = live_upsert s g"
| "live_event (SessionViolation s rs) g = (live_upsert s g)\<lparr>vp_lastViolation := Some (s, rs)\<rparr>"
| "live_event (SessionStop s) g = g\<lparr>vp_sessions := map_del (ss_sessionId s) (vp_sessions g)\<rparr>"
| "live_event _ g = g"

definition live_connect :: "bool \<Rightarrow> live_page \<Rightarrow> live_page" where
  "live_connect on g = g\<lparr>vp_connected := on\<rparr>"

definition live_list :: "live_page \<Rightarrow> session_snapshot list" where
  "live_list g = order_desc ss_startedAt (map snd (vp_sessions g))"

datatype sort_by = Newest | Oldest | UserAsc | UserDesc

text \<open>coll is the collation key of localeCompare; Array.sort is stable.\<close>

definition live_sorted :: "(string \<Rightarrow> string) \<Rightarrow> sort_by \<Rightarrow> live_page \<Rightarrow> session_snapshot list" where
  "live_sorted coll order g = (case order of
       Oldest \<Rightarrow> sort_key ss_startedAt (live_list g)
     | UserAsc \<Rightarrow> sort_key (coll \<circ> ss_streamName) (live_list g)
     | UserDesc \<Rightarrow> rev (sort_key (coll \<circ> ss_streamName) (rev (live_list g)))
     | Newest \<Rightarrow> order_desc ss_startedAt (live_list g))"

text \<open>A page size of at least 1.\<close>

definition total_pages :: "nat \<Rightarrow> 'a list \<Rightarrow> nat" where
  "total_pages n xs = max 1 ((length xs + n - 1) div n)"

definition grid_page :: "nat \<Rightarrow> nat \<Rightarrow> 'a list \<Rightarrow> 'a list" where
  "grid_page pageNo n xs = (let c = min pageNo (total_pages n xs) in take n (drop ((c - 1) * n) xs))"

text \<open>The last word of a run of events on a session.\<close>

fun says :: "int \<Rightarrow> bus_event \<Rightarrow> session_snapshot option option" where
  "says i (SessionStart s) = (if ss_sessionId s = i then Some (Some s) else None)"
| "says i (SessionMetric s) = (if ss_sessionId s = i then Some (Some s) else None)"
| "says i (SessionViolation s _) = (if ss_sessionId s = i then Some (Some s) else None)"
| "says i (SessionStop s) = (if ss_sessionId s = i then Some None else None)"
| "says i _ = None"

definition last_word :: "int \<Rightarrow> bus_event list \<Rightarrow> session_snapshot option \<Rightarrow> session_snapshot option" where
  "last_word i es before = (case List.map_filter (says i) es of [] \<Rightarrow> before | ws \<Rightarrow> last ws)"

lemma live_event_sessions:
  "map_get i (vp_sessions (live_event e g)) = (case says i e of None \<Rightarrow> map_get i (vp_sessions g) | Some x \<Rightarrow> x)"
  by (cases e) (auto simp: live_upsert_def map_get_put map_get_del)

lemma live_events_sessions:
  "map_get i (vp_sessions (fold live_event es g)) = last_word i es (map_get i (vp_sessions g))"
proof (induction es arbitrary: g)
  case (Cons e es)
  show ?case
    by (cases "says i e") (auto simp: Cons.IH live_event_sessions last_word_def List.map_filter_simps split: list.split)
qed (simp add: last_word_def List.map_filter_simps)

text \<open>C40 From the bus to the screen: while an administrator's connection lives, the live list of his page,
  seeded when the connection opened and fed by its frames, holds for every session exactly what the
  last event of the bus on it since then said, nothing where that was its end, and the seed where no
  event named it.\<close>

theorem live_page_exact:
  assumes "admin_run l s" "map_get p (aw_conns s) = Some c"
  shows "\<exists>k. (p, ax_userId (ac_auth c), k) \<in> set l \<and>
     (\<forall>i. map_get i (vp_sessions (fold live_event (events_to p (aw_out s)) g)) = last_word i (drop k (bus s)) (map_get i (vp_sessions g)))"
proof -
  have "conn_good l s p c" using admin_okD(3) [OF admin_run_ok [OF assms(1)] assms(2)] .
  then show ?thesis unfolding conn_good_def using live_events_sessions by metis
qed

text \<open>After a reconnect the page keeps what it had: the events in between are lost to it.\<close>

lemma reconnect_keeps_stale: "vp_sessions (live_connect True (live_connect False g)) = vp_sessions g"
  by (simp add: live_connect_def)

text \<open>The pages of the grid, one after the other, are the list.\<close>

lemma grid_pages:
  assumes "0 < n"
  shows "concat (map (\<lambda>i. grid_page (Suc i) n xs) [0..<total_pages n xs]) = xs"
proof -
  let ?q = "(length xs + n - 1) div n"
  have "length xs + n - 1 = ?q * n + (length xs + n - 1) mod n" by simp
  moreover have "(length xs + n - 1) mod n < n" using assms by simp
  ultimately have "length xs \<le> ?q * n" by linarith
  also have "\<dots> \<le> total_pages n xs * n" by (simp add: total_pages_def)
  finally have "length xs \<le> total_pages n xs * n" .
  from pages_concat [OF assms this] have "concat (map (\<lambda>i. take n (drop (i * n) xs)) [0..<total_pages n xs]) = xs" .
  moreover have "map (\<lambda>i. grid_page (Suc i) n xs) [0..<total_pages n xs] = map (\<lambda>i. take n (drop (i * n) xs)) [0..<total_pages n xs]"
    by (auto simp: grid_page_def)
  ultimately show ?thesis by metis
qed

theorem live_page_exact_witness:
  "map_get 7 (vp_sessions (fold live_event (events_to ''q'' (aw_out second_tab)) (live_seed [] \<lparr>vp_sessions = [], vp_connected = True, vp_lastViolation = None\<rparr>))) = None"
proof -
  obtain c where "map_get ''q'' (aw_conns second_tab) = Some c" using second_tab_conn by blast
  from live_page_exact [OF second_tab_run this, of "live_seed [] \<lparr>vp_sessions = [], vp_connected = True, vp_lastViolation = None\<rparr>"]
  obtain k where "map_get 7 (vp_sessions (fold live_event (events_to ''q'' (aw_out second_tab))
      (live_seed [] \<lparr>vp_sessions = [], vp_connected = True, vp_lastViolation = None\<rparr>)))
    = last_word 7 (drop k (bus second_tab)) (map_get 7 (vp_sessions (live_seed [] \<lparr>vp_sessions = [], vp_connected = True, vp_lastViolation = None\<rparr>)))"
    by blast
  moreover have "bus second_tab = [NodesChanged []]"
    by (simp add: second_tab_def onAdminWsOpen_def Let_def emit_def lobby_def world.defs admin_server.defs)
  ultimately show ?thesis by (cases k) (simp_all add: last_word_def List.map_filter_simps live_seed_def)
qed


section \<open>users.vue\<close>

record user_draft =
  dr_role :: role
  dr_groupIds :: "int list"
  dr_nodeId :: "string option"

type_synonym drafts = "(int, user_draft) jsmap"

definition NONE :: string where "NONE = ''(none)''"

definition fresh_draft :: "user_view \<Rightarrow> user_draft" where
  "fresh_draft u = \<lparr>dr_role = uv_role u, dr_groupIds = map fst (uv_groups u), dr_nodeId = uv_nodeId u\<rparr>"

definition ensureDraft :: "user_view \<Rightarrow> drafts \<Rightarrow> drafts" where
  "ensureDraft u ds = (if map_get (uv_id u) ds = None then map_put (uv_id u) (fresh_draft u) ds else ds)"

definition draft_of :: "user_view \<Rightarrow> drafts \<Rightarrow> user_draft" where
  "draft_of u ds = orDefault (map_get (uv_id u) ds) (fresh_draft u)"

definition nodeOf :: "user_view \<Rightarrow> drafts \<Rightarrow> string" where
  "nodeOf u ds = (case Option.bind (map_get (uv_id u) ds) dr_nodeId of
       Some n \<Rightarrow> n
     | None \<Rightarrow> orDefault (uv_nodeId u) NONE)"

text \<open>v is what the select gave, None for a value that is no string.\<close>

definition setNode :: "user_view \<Rightarrow> string option \<Rightarrow> drafts \<Rightarrow> drafts" where
  "setNode u v ds = map_put (uv_id u) ((draft_of u ds)\<lparr>dr_nodeId := (if v = Some NONE then None else v)\<rparr>) (ensureDraft u ds)"

definition roleOf :: "user_view \<Rightarrow> drafts \<Rightarrow> role" where
  "roleOf u ds = (case map_get (uv_id u) ds of Some d \<Rightarrow> dr_role d | None \<Rightarrow> uv_role u)"

definition inGroup :: "user_view \<Rightarrow> int \<Rightarrow> drafts \<Rightarrow> bool" where
  "inGroup u g ds = (case map_get (uv_id u) ds of
       Some d \<Rightarrow> g \<in> set (dr_groupIds d)
     | None \<Rightarrow> list_ex (\<lambda>x. fst x = g) (uv_groups u))"

definition setRole :: "user_view \<Rightarrow> string \<Rightarrow> drafts \<Rightarrow> drafts" where
  "setRole u v ds =
     (if v = ''admin'' then map_put (uv_id u) ((draft_of u ds)\<lparr>dr_role := RAdmin\<rparr>) (ensureDraft u ds)
      else if v = ''user'' then map_put (uv_id u) ((draft_of u ds)\<lparr>dr_role := RUser\<rparr>) (ensureDraft u ds)
      else ensureDraft u ds)"

definition toggleGroup :: "user_view \<Rightarrow> int \<Rightarrow> drafts \<Rightarrow> drafts" where
  "toggleGroup u g ds =
     (let d = draft_of u ds in
      map_put (uv_id u) (d\<lparr>dr_groupIds := (if g \<in> set (dr_groupIds d) then remove1 g (dr_groupIds d) else dr_groupIds d @ [g])\<rparr>)
        (ensureDraft u ds))"

text \<open>Array.sort without a comparator orders by the text of the numbers.\<close>

definition id_text :: "int list \<Rightarrow> string" where
  "id_text is = js_join '','' (sort (map int_str is))"

definition draft_dirty :: "drafts \<Rightarrow> user_view \<Rightarrow> bool" where
  "draft_dirty ds u = (case map_get (uv_id u) ds of
       None \<Rightarrow> False
     | Some d \<Rightarrow> dr_role d \<noteq> uv_role u \<or> dr_nodeId d \<noteq> uv_nodeId u \<or> id_text (dr_groupIds d) \<noteq> id_text (map fst (uv_groups u)))"

text \<open>The body of the PATCH of a user.\<close>

definition draft_body :: "user_draft \<Rightarrow> user_patch_body" where
  "draft_body d = \<lparr>up_announcement = None, up_role = Some (role_str (dr_role d)),
     up_groupIds = Some (map (\<lambda>g. Some (of_int g)) (dr_groupIds d)),
     up_nodeId = (case dr_nodeId d of None \<Rightarrow> Null | Some n \<Rightarrow> Val n)\<rparr>"

text \<open>The requests saveAll sends, and the drafts after them, where all_done tells whether all were answered.\<close>

definition saveAll :: "user_view list \<Rightarrow> bool \<Rightarrow> drafts \<Rightarrow> (int \<times> user_patch_body) list \<times> bool \<times> drafts" where
  "saveAll us all_done ds =
     (let dirty = filter (draft_dirty ds) us in
      if dirty = [] then ([], False, ds)
      else (map (\<lambda>u. (uv_id u, draft_body (draft_of u ds))) dirty, if all_done then (True, []) else (False, ds)))"

lemma int_str_plain: "c \<in> set (int_str i) \<Longrightarrow> c \<noteq> CHR '',''"
proof -
  have digit: "char_of (48 + k) \<noteq> CHR '',''" if "k < 10" for k :: nat
  proof
    assume "char_of (48 + k) = CHR '',''"
    then have "of_char (char_of (48 + k) :: char) = (of_char (CHR '','') :: nat)" by simp
    then show False using that by simp
  qed
  have "c \<noteq> CHR '',''" if "c \<in> set (nat_digits n)" for n
    using that
  proof (induction n rule: nat_digits.induct)
    case (1 n)
    then show ?case using digit [of n] digit [of "n mod 10"]
      by (cases "n < 10") (auto simp: nat_digits_lt nat_digits_ge)
  qed
  moreover assume "c \<in> set (int_str i)"
  ultimately show ?thesis by (auto simp: int_str_def split: if_splits)
qed

lemma int_str_inj: "int_str a = int_str b \<longleftrightarrow> a = b"
proof
  have minus: "nat_digits n \<noteq> CHR ''-'' # s" for n s
  proof
    assume "nat_digits n = CHR ''-'' # s"
    moreover have "hd (nat_digits n) \<noteq> CHR ''-''"
    proof (induction n rule: nat_digits.induct)
      case (1 n)
      have "char_of (48 + n) \<noteq> CHR ''-''" if "n < 10"
      proof
        assume "char_of (48 + n) = CHR ''-''"
        then have "of_char (char_of (48 + n) :: char) = (of_char (CHR ''-'') :: nat)" by simp
        then show False using that by simp
      qed
      then show ?case using 1 nat_digits_nonempty [of "n div 10"] by (cases "n < 10") (simp_all add: nat_digits_lt nat_digits_ge)
    qed
    ultimately show False by simp
  qed
  show "a = b" if "int_str a = int_str b"
    using that minus minus [symmetric] by (auto simp: int_str_def split: if_splits dest!: nat_digits_inj)
qed simp

lemma split_join:
  assumes "\<And>s. s \<in> set ss \<Longrightarrow> d \<notin> set s" "ss \<noteq> []"
  shows "js_split d (js_join [d] ss) = ss"
  using assms by (induction ss rule: induct_list012) (simp_all add: js_split_plain js_split_cons)

lemma image_mset_same:
  assumes "image_mset int_str A = image_mset int_str B" shows "A = B"
  using assms
proof (induction A arbitrary: B)
  case (add a A)
  then have "int_str a \<in># image_mset int_str B" by (metis image_mset_add_mset union_single_eq_member)
  then obtain b where b: "b \<in># B" "int_str b = int_str a" by auto
  then obtain C where C: "B = add_mset a C" using int_str_inj by (metis multi_member_split)
  with add show ?case by simp
qed simp

lemma id_text_iff: "id_text xs = id_text ys \<longleftrightarrow> mset xs = mset ys"
proof
  have empty: "int_str i \<noteq> []" for i using nat_digits_nonempty by (simp add: int_str_def)
  have plain: "CHR '','' \<notin> set s" if "s \<in> set (sort (map int_str zs))" for s zs
    using that int_str_plain by auto
  have none: "id_text zs = [] \<longleftrightarrow> zs = []" for zs
  proof (cases "sort (map int_str zs)")
    case (Cons s ss)
    then have "s \<in> int_str ` set zs" by (metis list.set_intros(1) set_map set_sort)
    then have "s \<noteq> []" using empty by auto
    then show ?thesis using Cons by (cases ss) (auto simp: id_text_def)
  next
    case Nil
    then have "zs = []" by (metis length_0_conv length_map length_sort)
    then show ?thesis by (simp add: id_text_def)
  qed
  assume eq: "id_text xs = id_text ys"
  show "mset xs = mset ys"
  proof (cases "xs = []")
    case True
    then have "ys = []" using eq none by metis
    with True show ?thesis by simp
  next
    case False
    then have "ys \<noteq> []" using eq none by metis
    have parts: "js_split (CHR '','') (id_text zs) = sort (map int_str zs)" if "zs \<noteq> []" for zs
      unfolding id_text_def
    proof (rule split_join)
      show "CHR '','' \<notin> set s" if "s \<in> set (sort (map int_str zs))" for s using plain [OF that] .
      show "sort (map int_str zs) \<noteq> []" using that by (metis length_0_conv length_map length_sort)
    qed
    have "sort (map int_str xs) = sort (map int_str ys)"
      using parts [OF False] parts [OF \<open>ys \<noteq> []\<close>] eq by simp
    then have "mset (map int_str xs) = mset (map int_str ys)" by (metis mset_sort)
    then have "image_mset int_str (mset xs) = image_mset int_str (mset ys)" by simp
    then show ?thesis using image_mset_same by metis
  qed
next
  assume "mset xs = mset ys"
  then have "mset (map int_str xs) = mset (map int_str ys)" by simp
  then have "sort (map int_str xs) = sort (map int_str ys)" by (metis properties_for_sort mset_sort sorted_sort)
  then show "id_text xs = id_text ys" by (simp add: id_text_def)
qed

lemma draft_dirty_iff:
  "draft_dirty ds u \<longleftrightarrow> (\<exists>d. map_get (uv_id u) ds = Some d \<and>
     (dr_role d \<noteq> uv_role u \<or> dr_nodeId d \<noteq> uv_nodeId u \<or> mset (dr_groupIds d) \<noteq> mset (map fst (uv_groups u))))"
  by (auto simp: draft_dirty_def id_text_iff split: option.split)

text \<open>Opening a draft, or toggling a group twice, leaves a user clean.\<close>

lemma toggled_twice_clean:
  assumes "map_get (uv_id u) ds = None" "distinct (map fst (uv_groups u))"
  shows "\<not> draft_dirty (toggleGroup u g (toggleGroup u g ds)) u"
  using assms
  by (auto simp: draft_dirty_iff toggleGroup_def ensureDraft_def draft_of_def fresh_draft_def Let_def map_get_put remove1_append)

text \<open>What a body says to the endpoint of users: the groups of the draft, as long as their ids are ids.\<close>

lemma body_groups:
  assumes "list_all (\<lambda>g. 0 < g) (dr_groupIds d)"
  shows "map_option valid_group_ids (up_groupIds (draft_body d)) = Some (dr_groupIds d)"
proof -
  have "valid_group_ids (map (\<lambda>g. Some (of_int g)) gs) = gs" if "list_all (\<lambda>g. 0 < g) gs" for gs
    using that by (induction gs) (auto simp: valid_group_ids_def List.map_filter_simps)
  then show ?thesis using assms by (simp add: draft_body_def)
qed

text \<open>Saving the users panel asks for exactly what was changed: a PATCH goes out for a user exactly
  when his draft differs from the row in the role, the node or the set of groups, however often and
  in whatever order boxes were ticked; it carries the draft, which the endpoint reads as that role,
  those groups and that node; and when all were answered nothing is left to be saved, while after a
  failure the drafts are all still there.\<close>

theorem saveAll_exact:
  assumes "saveAll us all_done ds = (sent, saved, ds')" "distinct (map uv_id us)"
    and "\<And>d. d \<in> snd ` set ds \<Longrightarrow> list_all (\<lambda>g. 0 < g) (dr_groupIds d)" "u \<in> set us"
  shows "(uv_id u \<in> fst ` set sent \<longleftrightarrow> (\<exists>d. map_get (uv_id u) ds = Some d \<and>
        (dr_role d \<noteq> uv_role u \<or> dr_nodeId d \<noteq> uv_nodeId u \<or> mset (dr_groupIds d) \<noteq> mset (map fst (uv_groups u)))))
    \<and> (\<forall>b. (uv_id u, b) \<in> set sent \<longrightarrow> (\<exists>d. map_get (uv_id u) ds = Some d \<and> up_role b = Some (role_str (dr_role d))
        \<and> map_option valid_group_ids (up_groupIds b) = Some (dr_groupIds d) \<and> maybe_opt (up_nodeId b) = dr_nodeId d
        \<and> up_nodeId b \<noteq> Undefined \<and> up_announcement b = None))
    \<and> (if saved then \<not> draft_dirty ds' u \<and> all_done else ds' = ds \<and> (sent = [] \<or> \<not> all_done))"
proof -
  have sent: "sent = map (\<lambda>v. (uv_id v, draft_body (draft_of v ds))) (filter (draft_dirty ds) us)"
    using assms(1) by (auto simp: saveAll_def Let_def split: if_splits)
  have same: "v = u" if "v \<in> set us" "uv_id v = uv_id u" for v
    using that assms(2,4) by (auto simp: distinct_map inj_on_def)
  have dirty: "uv_id u \<in> fst ` set sent \<longleftrightarrow> draft_dirty ds u"
    using same assms(4) by (auto simp: sent image_iff)
  have body: "\<exists>d. map_get (uv_id u) ds = Some d \<and> b = draft_body d" if mem: "(uv_id u, b) \<in> set sent" for b
  proof -
    obtain v where v: "v \<in> set us" "draft_dirty ds v" "uv_id v = uv_id u" "b = draft_body (draft_of v ds)" using mem by (auto simp: sent)
    then show ?thesis using same [OF v(1,3)] by (auto simp: draft_dirty_iff draft_of_def)
  qed
  have good: "map_option valid_group_ids (up_groupIds (draft_body d)) = Some (dr_groupIds d)" if "map_get (uv_id u) ds = Some d" for d
    using body_groups assms(3) map_get_Some_in [OF that] by force
  have "if saved then \<not> draft_dirty ds' u \<and> all_done else ds' = ds \<and> (sent = [] \<or> \<not> all_done)"
    using assms(1) by (auto simp: saveAll_def Let_def draft_dirty_def map_get_def split: if_splits)
  moreover have "maybe_opt (up_nodeId (draft_body d)) = dr_nodeId d \<and> up_nodeId (draft_body d) \<noteq> Undefined
      \<and> up_role (draft_body d) = Some (role_str (dr_role d)) \<and> up_announcement (draft_body d) = None" for d
    by (auto simp: draft_body_def split: option.split)
  ultimately show ?thesis using dirty body good by (auto simp: draft_dirty_iff) blast+
qed

definition ann_view :: user_view where
  "ann_view = \<lparr>uv_id = 1, uv_email = ''ann@x.org'', uv_role = RUser, uv_groups = [(3, ''a''), (5, ''b'')], uv_nodeId = Some ''n1'',
     uv_latencies = Map.empty, uv_announcement = None, uv_createdAt = 0\<rparr>"

theorem saveAll_exact_witness:
  "1 \<in> fst ` set (fst (saveAll [ann_view] True (toggleGroup ann_view 5 [])))
   \<and> 1 \<notin> fst ` set (fst (saveAll [ann_view] True (toggleGroup ann_view 5 (toggleGroup ann_view 5 []))))"
proof -
  define one two :: drafts where d: "one = [(1, \<lparr>dr_role = RUser, dr_groupIds = [3], dr_nodeId = Some ''n1''\<rparr>)]"
    "two = [(1, \<lparr>dr_role = RUser, dr_groupIds = [3, 5], dr_nodeId = Some ''n1''\<rparr>)]"
  have ds: "toggleGroup ann_view 5 [] = one" "toggleGroup ann_view 5 one = two"
    by (simp_all add: d toggleGroup_def ensureDraft_def draft_of_def fresh_draft_def ann_view_def map_get_def Let_def)
  have id: "uv_id ann_view = 1" by (simp add: ann_view_def)
  have pos: "list_all (\<lambda>g. 0 < g) (dr_groupIds e)" if "ds = one \<or> ds = two" "e \<in> snd ` set ds" for e ds
    using that by (auto simp: d)
  have "uv_id ann_view \<in> fst ` set (fst (saveAll [ann_view] True ds)) \<longleftrightarrow> (\<exists>d. map_get (uv_id ann_view) ds = Some d \<and>
        (dr_role d \<noteq> uv_role ann_view \<or> dr_nodeId d \<noteq> uv_nodeId ann_view
          \<or> mset (dr_groupIds d) \<noteq> mset (map fst (uv_groups ann_view))))" if "ds = one \<or> ds = two" for ds
  proof -
    obtain sent saved ds' where s: "saveAll [ann_view] True ds = (sent, saved, ds')" by (metis prod_cases3)
    have "distinct (map uv_id [ann_view])" "ann_view \<in> set [ann_view]" by simp_all
    from saveAll_exact [OF s this(1) pos [OF that] this(2)] show ?thesis unfolding s fst_conv by blast
  qed
  from this [of one] this [of two] show ?thesis by (simp add: ds id) (simp add: d ann_view_def map_get_def)
qed

text \<open>A node that was cleared in the draft is still shown.\<close>

lemma cleared_node_shown: "uv_nodeId u = Some n \<Longrightarrow> nodeOf u (setNode u (Some NONE) ds) = n"
  by (simp add: nodeOf_def setNode_def map_get_put)


section \<open>config.vue\<close>

text \<open>path.split('.') along the objects of the form; None is undefined.\<close>

fun get_at :: "string list \<Rightarrow> json \<Rightarrow> json option" where
  "get_at [] j = Some j"
| "get_at (k # ks) (JObj kvs) = Option.bind (map_get k kvs) (get_at ks)"
| "get_at (k # ks) j = None"

definition getPath :: "json \<Rightarrow> string \<Rightarrow> json option" where
  "getPath obj path = get_at (js_split (CHR ''.'') path) obj"

fun put_at :: "string list \<Rightarrow> json \<Rightarrow> json \<Rightarrow> json option" where
  "put_at [] v j = None"
| "put_at [k] v (JObj kvs) = Some (JObj (map_put k v kvs))"
| "put_at (k # ks) v (JObj kvs) =
     Option.bind (map_get k kvs) (\<lambda>c. map_option (\<lambda>c'. JObj (map_put k c' kvs)) (put_at ks v c))"
| "put_at (k # ks) v j = None"

definition setPath :: "json \<Rightarrow> string \<Rightarrow> json \<Rightarrow> json option" where
  "setPath obj path v = put_at (js_split (CHR ''.'') path) v obj"

text \<open>The three text areas: one entry to a line.\<close>

definition NL :: char where "NL = CHR 0x0A"

definition lines_text :: "string list \<Rightarrow> string" where
  "lines_text ps = js_join [NL] ps"

definition text_lines :: "string \<Rightarrow> string list" where
  "text_lines v = filter (\<lambda>p. 0 < length p) (map js_trim (js_split NL v))"

lemma put_then_get: "put_at ks v j = Some j' \<Longrightarrow> get_at ks j' = Some v"
proof (induction ks v j arbitrary: j' rule: put_at.induct)
  case (3 k k' ks v kvs)
  then show ?case by (auto simp: bind_eq_Some_conv map_get_put simp del: get_at.simps(2)) (auto simp: map_get_put)
qed (auto simp: map_get_put)

lemma setPath_getPath: "setPath obj path v = Some obj' \<Longrightarrow> getPath obj' path = Some v"
  unfolding setPath_def getPath_def by (rule put_then_get)

text \<open>Entries that are lines, trimmed and not empty, come back from their text.\<close>

lemma text_lines_back:
  assumes "\<And>p. p \<in> set ps \<Longrightarrow> NL \<notin> set p \<and> js_trim p = p \<and> p \<noteq> []"
  shows "text_lines (lines_text ps) = ps"
proof (cases "ps = []")
  case True
  then show ?thesis by (simp add: text_lines_def lines_text_def js_trim_def)
next
  case False
  then have "js_split NL (lines_text ps) = ps" unfolding lines_text_def using assms by (intro split_join) blast+
  then show ?thesis using assms by (simp add: text_lines_def map_idI filter_id_conv)
qed

end
