(* ===== verification/EventSettings.thy ===== *)
theory EventSettings
  imports Pages AdminApi
begin

text \<open>
  The settings form of an event, pages/dashboard/events/[id]/settings.vue: what counts as a change, what
  the form refuses to send, and the body of the PATCH, against the checks of services/events.ts.
\<close>

record limit_inputs =
  li_maxWidth :: string
  li_maxHeight :: string
  li_maxFps :: string
  li_maxVideoBitrateKbps :: string
  li_maxAudioBitrateKbps :: string

record settings_form =
  sf_name :: string
  sf_slug :: string
  sf_description :: "string option"
  sf_status :: event_status
  sf_recordEnabled :: bool
  sf_strictLimits :: bool
  sf_enforceMeasuredLimits :: bool
  sf_visibility :: visibility
  sf_streamGuide :: "string option"
  sf_startsAtLocal :: string
  sf_endsAtLocal :: string
  sf_limits :: limit_inputs
  sf_groupIds :: "int list"

text \<open>The local time of the browser: what a datetime-local input shows for a moment, and the moment it
  stands for, None where Date gives NaN.\<close>

record local_time =
  lt_show :: "int \<Rightarrow> string"
  lt_read :: "string \<Rightarrow> int option"

definition toLocalInput :: "local_time \<Rightarrow> int option \<Rightarrow> string" where
  "toLocalInput z ms = (case ms of None \<Rightarrow> [] | Some t \<Rightarrow> if t = 0 then [] else lt_show z t)"

definition fromLocalInput :: "local_time \<Rightarrow> string \<Rightarrow> int option" where
  "fromLocalInput z v = (if v = [] then None else lt_read z v)"

text \<open>A limit of the event as the text of its input; txt is String of a number.\<close>

definition limit_text :: "(rat \<Rightarrow> string) \<Rightarrow> json option \<Rightarrow> string \<Rightarrow> string" where
  "limit_text txt lo k = (case lo of
       Some (JObj kvs) \<Rightarrow> (case map_of kvs k of Some (JNum n) \<Rightarrow> txt n | _ \<Rightarrow> [])
     | _ \<Rightarrow> [])"

text \<open>The form of a freshly loaded event, and after Discard.\<close>

definition settings_of :: "local_time \<Rightarrow> (rat \<Rightarrow> string) \<Rightarrow> event_view \<Rightarrow> settings_form" where
  "settings_of z txt e =
     \<lparr>sf_name = vw_name e, sf_slug = vw_slug e, sf_description = vw_description e, sf_status = vw_status e,
      sf_recordEnabled = vw_recordEnabled e, sf_strictLimits = vw_strictLimits e,
      sf_enforceMeasuredLimits = vw_enforceMeasuredLimits e, sf_visibility = vw_visibility e,
      sf_streamGuide = vw_streamGuide e, sf_startsAtLocal = toLocalInput z (vw_startsAt e),
      sf_endsAtLocal = toLocalInput z (vw_endsAt e),
      sf_limits = \<lparr>li_maxWidth = limit_text txt (vw_limitsOverride e) ''maxWidth'',
        li_maxHeight = limit_text txt (vw_limitsOverride e) ''maxHeight'', li_maxFps = limit_text txt (vw_limitsOverride e) ''maxFps'',
        li_maxVideoBitrateKbps = limit_text txt (vw_limitsOverride e) ''maxVideoBitrateKbps'',
        li_maxAudioBitrateKbps = limit_text txt (vw_limitsOverride e) ''maxAudioBitrateKbps''\<rparr>,
      sf_groupIds = map fst (vw_groups e)\<rparr>"

definition sameSet :: "int list \<Rightarrow> int list \<Rightarrow> bool" where
  "sameSet a b \<longleftrightarrow> id_text a = id_text b"

text \<open>Number(input || 0) against the stored limit, or 0; a NaN differs from everything.\<close>

definition limit_changed :: "json option \<Rightarrow> string \<Rightarrow> string \<Rightarrow> bool" where
  "limit_changed lo k v =
     (js_Number (if v = [] then ''0'' else v) \<noteq> Some (case lo of
          Some (JObj kvs) \<Rightarrow> (case map_of kvs k of Some (JNum n) \<Rightarrow> n | _ \<Rightarrow> 0)
        | _ \<Rightarrow> 0))"

definition settings_dirty :: "local_time \<Rightarrow> event_view \<Rightarrow> settings_form \<Rightarrow> bool" where
  "settings_dirty z e s \<longleftrightarrow>
     sf_name s \<noteq> vw_name e \<or> sf_slug s \<noteq> vw_slug e \<or> sf_description s \<noteq> vw_description e \<or> sf_status s \<noteq> vw_status e
   \<or> sf_recordEnabled s \<noteq> vw_recordEnabled e \<or> sf_strictLimits s \<noteq> vw_strictLimits e
   \<or> sf_enforceMeasuredLimits s \<noteq> vw_enforceMeasuredLimits e \<or> sf_visibility s \<noteq> vw_visibility e
   \<or> sf_streamGuide s \<noteq> vw_streamGuide e \<or> sf_startsAtLocal s \<noteq> toLocalInput z (vw_startsAt e)
   \<or> sf_endsAtLocal s \<noteq> toLocalInput z (vw_endsAt e)
   \<or> limit_changed (vw_limitsOverride e) ''maxWidth'' (li_maxWidth (sf_limits s))
   \<or> limit_changed (vw_limitsOverride e) ''maxHeight'' (li_maxHeight (sf_limits s))
   \<or> limit_changed (vw_limitsOverride e) ''maxFps'' (li_maxFps (sf_limits s))
   \<or> limit_changed (vw_limitsOverride e) ''maxVideoBitrateKbps'' (li_maxVideoBitrateKbps (sf_limits s))
   \<or> limit_changed (vw_limitsOverride e) ''maxAudioBitrateKbps'' (li_maxAudioBitrateKbps (sf_limits s))
   \<or> \<not> sameSet (sf_groupIds s) (map fst (vw_groups e))"

definition limit_num :: "string \<Rightarrow> json" where
  "limit_num v = (let t = js_trim v in
     case js_Number t of Some n \<Rightarrow> if t \<noteq> [] \<and> 0 \<le> n then JNum n else JNull | None \<Rightarrow> JNull)"

definition limitsPayload :: "limit_inputs \<Rightarrow> json" where
  "limitsPayload l = JObj [(''maxWidth'', limit_num (li_maxWidth l)), (''maxHeight'', limit_num (li_maxHeight l)),
     (''maxFps'', limit_num (li_maxFps l)), (''maxVideoBitrateKbps'', limit_num (li_maxVideoBitrateKbps l)),
     (''maxAudioBitrateKbps'', limit_num (li_maxAudioBitrateKbps l))]"

definition windowIncomplete :: "settings_form \<Rightarrow> bool" where
  "windowIncomplete s \<longleftrightarrow> sf_status s = Scheduled \<and> (sf_startsAtLocal s = [] \<or> sf_endsAtLocal s = [])"

definition windowReversed :: "local_time \<Rightarrow> settings_form \<Rightarrow> bool" where
  "windowReversed z s \<longleftrightarrow> sf_startsAtLocal s \<noteq> [] \<and> sf_endsAtLocal s \<noteq> []
     \<and> orDefault (fromLocalInput z (sf_endsAtLocal s)) 0 \<le> orDefault (fromLocalInput z (sf_startsAtLocal s)) 0"

definition nullable :: "'a option \<Rightarrow> 'a maybe" where
  "nullable v = (case v of None \<Rightarrow> Null | Some x \<Rightarrow> Val x)"

definition settings_body :: "local_time \<Rightarrow> settings_form \<Rightarrow> event_input" where
  "settings_body z s =
     \<lparr>ei_name = Val (sf_name s), ei_slug = Val (sf_slug s), ei_description = nullable (sf_description s),
      ei_startsAt = nullable (fromLocalInput z (sf_startsAtLocal s)), ei_endsAt = nullable (fromLocalInput z (sf_endsAtLocal s)),
      ei_status = Val (sf_status s), ei_limitsOverride = Val (limitsPayload (sf_limits s)),
      ei_recordEnabled = Val (sf_recordEnabled s), ei_strictLimits = Val (sf_strictLimits s),
      ei_enforceMeasuredLimits = Val (sf_enforceMeasuredLimits s), ei_visibility = Val (sf_visibility s),
      ei_streamGuide = nullable (sf_streamGuide s), ei_groupIds = Val (sf_groupIds s)\<rparr>"

text \<open>The message of a refusal, or the body that is sent.\<close>

definition saveSettings :: "local_time \<Rightarrow> settings_form \<Rightarrow> string + event_input" where
  "saveSettings z s =
     (if \<not> EVENT_KEY_RE (sf_slug s) then Inl ''Event key may only contain lowercase letters, digits, _ and -''
      else if windowIncomplete s then Inl ''Scheduled events need both a start and an end time''
      else if windowReversed z s then Inl ''The end time must be after the start time''
      else Inr (settings_body z s))"


section \<open>What the form lets through\<close>

lemma sameSet_iff: "sameSet a b \<longleftrightarrow> mset a = mset b"
  by (simp add: sameSet_def id_text_iff)

text \<open>A time input holds a moment other than the epoch when it is not empty.\<close>

definition times_read :: "local_time \<Rightarrow> settings_form \<Rightarrow> bool" where
  "times_read z s \<longleftrightarrow> (\<forall>v\<in>{sf_startsAtLocal s, sf_endsAtLocal s}. v \<noteq> [] \<longrightarrow> (\<exists>t. lt_read z v = Some t \<and> t \<noteq> 0 \<and> valid_date t))"

text \<open>A form that is sent passes the checks of the server on its key and on its own window.\<close>

lemma sent_form_passes:
  assumes "saveSettings z s = Inr b" "times_read z s"
  shows "validEventKey (sf_slug s) = Inr (sf_slug s)"
    and "assertWindow (Some (sf_status s)) (maybe_opt (ei_startsAt b)) (maybe_opt (ei_endsAt b)) = None"
  using assms
  by (auto simp: saveSettings_def settings_body_def validEventKey_def assertWindow_def win_ms_def windowIncomplete_def
      windowReversed_def fromLocalInput_def times_read_def nullable_def Let_def split: option.splits if_splits)

text \<open>But the check of the server takes a cleared time for one that was not sent: a form without an end
  can be refused for an end it does not show.\<close>

lemma cleared_end_refused:
  assumes "saveSettings z s = Inr b" "sf_endsAtLocal s = []" "fromLocalInput z (sf_startsAtLocal s) = Some t"
    and "valid_date t" "t \<noteq> 0" "valid_date e" "0 < e" "e \<le> t"
  shows "assertWindow (Some (sf_status s)) (eff_time (ei_startsAt b) old) (eff_time (ei_endsAt b) (Some e))
    = Some (HttpError 400 ''end time must be after the start time'')"
proof -
  have "b = settings_body z s" using assms(1) by (simp add: saveSettings_def split: if_splits)
  then have b: "ei_startsAt b = Val t" "ei_endsAt b = Null"
    using assms(2,3) by (simp_all add: settings_body_def nullable_def fromLocalInput_def)
  have "eff_time (ei_startsAt b) old = Some t" "eff_time (ei_endsAt b) (Some e) = Some e"
    using assms(4,5) by (simp_all add: b eff_time_def toTs_def)
  then show ?thesis using assms(4-8) by (simp add: assertWindow_def win_ms_def Let_def)
qed

end
