(* ===== verification/Forms.thy ===== *)
theory Forms
  imports Pages Mail AdminApi
begin

text \<open>
  The forms of the dashboard that guard their unsaved changes: pages/dashboard/groups.vue, mail.vue,
  config.vue and users.vue, with saveAndLeave and discardAndLeave, and what their requests come to at the
  endpoints.  The answer of the server is the argument of a save: an error or what the endpoint returns.
\<close>

section \<open>Leaving a form\<close>

text \<open>discardAndLeave and saveAndLeave of the pages: the first component is where proceed navigates.\<close>

definition discardAndLeave :: "('p \<Rightarrow> 'p) \<Rightarrow> 'p \<times> leave_guard \<Rightarrow> string option \<times> 'p \<times> leave_guard" where
  "discardAndLeave discard pg = (let (t, g) = leave_proceed (snd pg) in (t, discard (fst pg), g))"

definition saveAndLeave :: "('p \<Rightarrow> bool \<times> 'p) \<Rightarrow> 'p \<times> leave_guard \<Rightarrow> string option \<times> 'p \<times> leave_guard" where
  "saveAndLeave save pg =
     (let (done, p) = save (fst pg)
      in if done then (let (t, g) = leave_proceed (snd pg) in (t, p, g)) else (None, p, snd pg))"

text \<open>A form that Discard makes clean; one that a successful save makes clean; and one that a failed save
  leaves as it was.\<close>

locale clean_form =
  fixes dirty :: "'p \<Rightarrow> bool" and discard :: "'p \<Rightarrow> 'p"
  assumes discard_clean: "\<not> dirty (discard p)"
begin

lemma discard_goes:
  assumes "before_leave (dirty p) False to g = (False, g1)" "to \<noteq> []"
    and "discardAndLeave discard (p, g1) = (t, p', g2)"
  shows "t = Some to \<and> fst (before_leave (dirty p') False to g2)"
  using assms discard_clean
  by (auto simp: before_leave_def discardAndLeave_def leave_proceed_def split: if_splits)

end

locale leave_form = clean_form dirty discard for dirty :: "'p \<Rightarrow> bool" and discard :: "'p \<Rightarrow> 'p" +
  fixes save :: "'a \<Rightarrow> 'p \<Rightarrow> bool \<times> 'p"
  assumes save_clean: "fst (save a p) \<Longrightarrow> \<not> dirty (snd (save a p))"
begin

lemma save_goes:
  assumes "before_leave (dirty p) False to g = (False, g1)" "to \<noteq> []" "fst (save a p)"
    and "saveAndLeave (save a) (p, g1) = (t, p', g2)"
  shows "t = Some to \<and> fst (before_leave (dirty p') False to g2)"
  using assms save_clean [of a p]
  by (auto simp: before_leave_def saveAndLeave_def leave_proceed_def case_prod_unfold Let_def split: if_splits)

end

locale keep_form = leave_form dirty discard save
    for dirty :: "'p \<Rightarrow> bool" and discard :: "'p \<Rightarrow> 'p" and save :: "'a \<Rightarrow> 'p \<Rightarrow> bool \<times> 'p" +
  assumes save_keeps: "\<not> fst (save a p) \<Longrightarrow> dirty (snd (save a p)) = dirty p"
begin

lemma failed_save_stays:
  assumes "dirty p" "\<not> fst (save a p)" "saveAndLeave (save a) (p, g) = (t, p', g')"
  shows "t = None \<and> g' = g \<and> dirty p' \<and> \<not> fst (before_leave (dirty p') False to g')"
  using assms save_keeps [of a p] by (auto simp: saveAndLeave_def before_leave_def case_prod_unfold)

text \<open>The dialog's two ways out: whichever is taken, the page goes where it was headed or stays with every
  edit in place.\<close>

lemma leave_dialog:
  assumes "before_leave (dirty p) False to g = (False, g1)" "to \<noteq> []"
    and "saveAndLeave (save a) (p, g1) = (t, p', g2)"
  shows "if fst (save a p) then t = Some to \<and> fst (before_leave (dirty p') False to g2)
         else t = None \<and> lg_confirmLeave g2 \<and> dirty p'"
proof (cases "fst (save a p)")
  case True
  then show ?thesis using save_goes [OF assms(1,2) True assms(3)] by simp
next
  case False
  have d: "dirty p" "lg_confirmLeave g1" using assms(1) by (auto simp: before_leave_def split: if_splits)
  then show ?thesis using failed_save_stays [OF d(1) False assms(3)] False by simp
qed

end


section \<open>groups.vue: the groups\<close>

record groups_page =
  gp_editId :: "int option"
  gp_editName :: string
  gp_editDesc :: string
  gp_editOrig :: "string \<times> string"
  gp_newName :: string
  gp_newDesc :: string

definition startEdit :: "group_view \<Rightarrow> groups_page \<Rightarrow> groups_page" where
  "startEdit g p = p\<lparr>gp_editId := Some (gv_id g), gp_editName := gv_name g,
     gp_editDesc := orDefault (gv_description g) [], gp_editOrig := (gv_name g, orDefault (gv_description g) [])\<rparr>"

definition cancelEdit :: "groups_page \<Rightarrow> groups_page" where
  "cancelEdit p = p\<lparr>gp_editId := None\<rparr>"

definition editDirty :: "groups_page \<Rightarrow> bool" where
  "editDirty p \<longleftrightarrow> gp_editId p \<noteq> None \<and> (gp_editName p \<noteq> fst (gp_editOrig p) \<or> gp_editDesc p \<noteq> snd (gp_editOrig p))"

text \<open>A text that is sent trimmed, or null when nothing is left of it.\<close>

definition text_or_null :: "string \<Rightarrow> json" where
  "text_or_null s = (if js_trim s = [] then JNull else JStr (js_trim s))"

definition group_body :: "string \<Rightarrow> string \<Rightarrow> json" where
  "group_body name desc = JObj [(''name'', JStr (js_trim name)), (''description'', text_or_null desc)]"

text \<open>The first component is the request that goes out.\<close>

definition saveEdit :: "bool \<Rightarrow> groups_page \<Rightarrow> (int \<times> json) option \<times> bool \<times> groups_page" where
  "saveEdit answered p = (case gp_editId p of
       None \<Rightarrow> (None, False, p)
     | Some i \<Rightarrow> if js_trim (gp_editName p) = [] then (None, False, p)
         else (Some (i, group_body (gp_editName p) (gp_editDesc p)), answered,
               if answered then p\<lparr>gp_editId := None\<rparr> else p))"

definition groups_createGroup :: "bool \<Rightarrow> groups_page \<Rightarrow> json option \<times> groups_page" where
  "groups_createGroup answered p =
     (if js_trim (gp_newName p) = [] then (None, p)
      else (Some (group_body (gp_newName p) (gp_newDesc p)),
            if answered then p\<lparr>gp_newName := [], gp_newDesc := []\<rparr> else p))"

interpretation group_edit: keep_form editDirty cancelEdit "\<lambda>answered p. snd (saveEdit answered p)"
  by unfold_locales (auto simp: editDirty_def cancelEdit_def saveEdit_def split: option.splits)

text \<open>Opening the edit of another row drops an edit that was not saved, without a word.\<close>

lemma startEdit_drops: "\<not> editDirty (startEdit g p)"
  by (simp add: startEdit_def editDirty_def)

text \<open>What the two forms send is what the endpoints store: the name and the description, trimmed.\<close>

lemma group_body_read:
  "js_trim (str_field txt ''name'' (group_body n d)) = js_trim n"
  "null_field txt ''name'' (group_body n d) = Some (js_trim n)"
  "null_field txt ''description'' (group_body n d) = (if js_trim d = [] then None else Some (js_trim d))"
  "json_get ''description'' (group_body n d) = Some (text_or_null d)"
  by (auto simp: group_body_def text_or_null_def str_field_def null_field_def json_get_def)

lemma new_group_sent:
  assumes "groups_createGroup answered p = (Some b, p')" "ax_role a = RAdmin"
  shows "groups_post txt (Some a) b w = createGroup (js_trim (gp_newName p))
      (if js_trim (gp_newDesc p) = [] then None else Some (js_trim (gp_newDesc p))) w"
    and "js_trim (gp_newName p) \<noteq> []"
  using assms
  by (auto simp: groups_createGroup_def groups_post_def as_admin_def requireAdmin_def group_body_read Let_def split: if_splits)

lemma edited_group_sent:
  assumes "saveEdit answered p = (Some (i, b), r)" "ax_role a = RAdmin" "route_id (Some s) = i" "0 < i"
  shows "group_patch txt (Some a) (Some s) b w = updateGroup i (Val (js_trim (gp_editName p)))
      (if js_trim (gp_editDesc p) = [] then Null else Val (js_trim (gp_editDesc p))) w"
  using assms
  by (auto simp: saveEdit_def group_patch_def as_admin_def with_id_def requireAdmin_def group_body_read text_or_null_def
      split: option.splits if_splits)


section \<open>groups.vue: the invites\<close>

record invite_inputs =
  in_groupId :: "int option"
  in_maxUses :: string
  in_ttlHours :: string
  in_note :: string

text \<open>createInvite up to the request: the message of a refusal, or the body.  An id is never 0.\<close>

definition invite_body :: "invite_inputs \<Rightarrow> string + json" where
  "invite_body v = (case in_groupId v of
       None \<Rightarrow> Inl ''Select a target group''
     | Some g \<Rightarrow>
         let mu = js_trim (in_maxUses v); ttl = js_trim (in_ttlHours v); note = js_trim (in_note v);
             uses = js_Number mu; hours = js_Number ttl
         in if g = 0 then Inl ''Select a target group''
            else if mu \<noteq> [] \<and> (case uses of None \<Rightarrow> True | Some n \<Rightarrow> of_int \<lfloor>n\<rfloor> \<noteq> n \<or> n \<le> 0)
            then Inl ''Max uses must be a positive whole number''
            else if ttl \<noteq> [] \<and> (case hours of None \<Rightarrow> True | Some n \<Rightarrow> n \<le> 0)
            then Inl ''TTL must be a positive number of hours''
            else Inr (JObj ([(''groupId'', json_int g)]
                @ (if mu = [] then [] else [(''maxUses'', JNum (the uses))])
                @ (if ttl = [] then [] else [(''ttlHours'', JNum (the hours))])
                @ (if note = [] then [] else [(''note'', JStr note)]))))"

definition inviteUrl :: "string \<Rightarrow> string \<Rightarrow> string" where
  "inviteUrl origin code = origin @ ''/invite?code='' @ code"

text \<open>What the page has after an answer: the inputs and the link that is shown once.\<close>

definition groups_createInvite :: "string \<Rightarrow> (json \<Rightarrow> error + invite_view) \<Rightarrow> invite_inputs \<times> string \<Rightarrow>
    json option \<times> invite_inputs \<times> string" where
  "groups_createInvite origin server p = (case invite_body (fst p) of
       Inl _ \<Rightarrow> (None, p)
     | Inr b \<Rightarrow> (Some b, case server b of
           Inl _ \<Rightarrow> p
         | Inr c \<Rightarrow> ((fst p)\<lparr>in_maxUses := [], in_ttlHours := [], in_note := []\<rparr>, inviteUrl origin (il_code c))))"

datatype invite_badge = Inactive | Expired | Exhausted | Active

definition isExpired :: "int \<Rightarrow> int option \<Rightarrow> bool" where
  "isExpired now ms = (case ms of None \<Rightarrow> False | Some t \<Rightarrow> t < now)"

definition badge_of :: "int \<Rightarrow> invite_view \<Rightarrow> invite_badge" where
  "badge_of now v =
     (if \<not> il_active v then Inactive
      else if isExpired now (il_expiresAt v) then Expired
      else if (case il_maxUses v of None \<Rightarrow> False | Some m \<Rightarrow> m \<le> il_usedCount v) then Exhausted
      else Active)"

text \<open>A link is shown as active exactly when the server would take it at that time.\<close>

lemma badge_exact: "badge_of now (rowToView v d) = Active \<longleftrightarrow> invite_usable now v"
  by (auto simp: badge_of_def rowToView_def invite_usable_def isExpired_def split: option.splits)

lemma uses_of_whole: "of_int \<lfloor>n\<rfloor> = n \<Longrightarrow> 0 < n \<Longrightarrow> uses_of n = \<lfloor>n\<rfloor>"
proof -
  assume n: "of_int \<lfloor>n\<rfloor> = n" "0 < n"
  obtain i where i: "n = of_int i" using n(1) by metis
  then have "1 \<le> i" using n(2) by simp
  then show ?thesis by (simp add: uses_of_def i)
qed

text \<open>The form closes the gap of the endpoint, which takes a limit that is not a number for none: an
  invite made here is unlimited only if the field was left blank, and never has a limit below one.\<close>

lemma invite_form_meant:
  assumes "invite_body v = Inr b" "ax_role a = RAdmin" "in_groupId v = Some g" "0 < g"
  shows "invites_post txt (Some a) b w = createInvite
      \<lparr>ii_groupId = g,
       ii_maxUses = (if js_trim (in_maxUses v) = [] then None else map_option floor (js_Number (js_trim (in_maxUses v)))),
       ii_ttlHours = (if js_trim (in_ttlHours v) = [] then None else js_Number (js_trim (in_ttlHours v))),
       ii_note = (if js_trim (in_note v) = [] then None else Some (js_trim (in_note v)))\<rparr> (ax_userId a) w"
    and "js_trim (in_maxUses v) \<noteq> [] \<Longrightarrow> \<exists>n. js_Number (js_trim (in_maxUses v)) = Some n \<and> 1 \<le> \<lfloor>n\<rfloor>"
proof -
  define mu ttl nt where d: "mu = js_trim (in_maxUses v)" "ttl = js_trim (in_ttlHours v)" "nt = js_trim (in_note v)"
  have b: "b = JObj ([(''groupId'', json_int g)] @ (if mu = [] then [] else [(''maxUses'', JNum (the (js_Number mu)))])
      @ (if ttl = [] then [] else [(''ttlHours'', JNum (the (js_Number ttl)))]) @ (if nt = [] then [] else [(''note'', JStr nt)]))"
    using assms(1,3) by (simp add: invite_body_def Let_def d split: if_splits)
  have mu: "mu = [] \<or> (\<exists>n. js_Number mu = Some n \<and> of_int \<lfloor>n\<rfloor> = n \<and> 0 < n)"
    using assms(1,3) by (auto simp: invite_body_def Let_def d not_le split: if_splits option.splits)
  have ttl: "ttl = [] \<or> (\<exists>n. js_Number ttl = Some n)"
    using assms(1,3) by (auto simp: invite_body_def Let_def d split: if_splits option.splits)
  have fields: "json_get ''groupId'' b = Some (json_int g)"
    "number_field txt ''maxUses'' b = (if mu = [] then None else js_Number mu)"
    "number_field txt ''ttlHours'' b = (if ttl = [] then None else js_Number ttl)"
    "null_field txt ''note'' b = (if nt = [] then None else Some nt)"
    using mu ttl by (auto simp: b json_get_def number_field_def null_field_def)
  have uses: "map_option uses_of (js_Number mu) = map_option floor (js_Number mu)" if "mu \<noteq> []"
    using mu that by (auto simp: uses_of_whole)
  show "invites_post txt (Some a) b w = createInvite
      \<lparr>ii_groupId = g,
       ii_maxUses = (if js_trim (in_maxUses v) = [] then None else map_option floor (js_Number (js_trim (in_maxUses v)))),
       ii_ttlHours = (if js_trim (in_ttlHours v) = [] then None else js_Number (js_trim (in_ttlHours v))),
       ii_note = (if js_trim (in_note v) = [] then None else Some (js_trim (in_note v)))\<rparr> (ax_userId a) w"
    using assms(2,4) by (simp add: invites_post_def as_admin_def requireAdmin_def fields json_int_def d(1-3) [symmetric] uses)
  show "\<exists>n. js_Number (js_trim (in_maxUses v)) = Some n \<and> 1 \<le> \<lfloor>n\<rfloor>" if "js_trim (in_maxUses v) \<noteq> []"
    using mu that by (auto simp: d)
qed


section \<open>mail.vue\<close>

text \<open>The port is what its input holds: a number, or a text that is none.\<close>

record mail_form =
  mf_provider :: mail_provider
  mf_host :: string
  mf_port :: json
  mf_useSsl :: bool
  mf_useTls :: bool
  mf_usePassword :: bool
  mf_senderEmail :: string
  mf_senderDisplay :: string
  mf_senderDomain :: string
  mf_postUrl :: string
  mf_postSchema :: post_schema
  mf_postFieldMap :: string

record mail_page =
  mp_data :: "mail_client option"
  mp_form :: mail_form
  mp_senderPassword :: string
  mp_postAuthToken :: string
  mp_postShape :: post_schema
  mp_hasPassword :: bool
  mp_hasPostAuthToken :: bool
  mp_testTo :: string
  mp_testToInitialized :: bool

definition quoted :: "string \<Rightarrow> string" where
  "quoted s = CHR 0x22 # s @ [CHR 0x22]"

definition field_map :: "(string \<times> string) list \<Rightarrow> string" where
  "field_map kvs = ''{'' @ js_join '','' (map (\<lambda>(k, v). quoted k @ '':'' @ quoted v) kvs) @ ''}''"

definition PA_FIELD_MAP :: string where
  "PA_FIELD_MAP = field_map [(''to'', ''email''), (''subject'', ''subject''), (''body'', ''content'')]"

definition SMTOGO_FIELD_MAP :: string where
  "SMTOGO_FIELD_MAP = field_map [(''from'', ''from''), (''to'', ''to''), (''subject'', ''subject''), (''bodyHtml'', ''html'')]"

definition shapeOf :: "string \<Rightarrow> post_schema \<Rightarrow> post_schema" where
  "shapeOf fieldMap schema =
     (if js_includes (quoted ''email'') fieldMap then Powerautomate
      else if js_trim fieldMap \<noteq> [] then Smtogo
      else schema)"

definition applyPostShape :: "post_schema \<Rightarrow> mail_page \<Rightarrow> mail_page" where
  "applyPostShape v p = p\<lparr>mp_postShape := v, mp_form := (mp_form p)
     \<lparr>mf_postFieldMap := (if v = Powerautomate then PA_FIELD_MAP else SMTOGO_FIELD_MAP), mf_postSchema := v\<rparr>\<rparr>"

definition form_of :: "mail_client \<Rightarrow> mail_form" where
  "form_of c = \<lparr>mf_provider = mc_provider c, mf_host = mc_host c, mf_port = json_int (mc_port c), mf_useSsl = mc_useSsl c,
     mf_useTls = mc_useTls c, mf_usePassword = mc_usePassword c, mf_senderEmail = mc_senderEmail c,
     mf_senderDisplay = mc_senderDisplay c, mf_senderDomain = mc_senderDomain c, mf_postUrl = mc_postUrl c,
     mf_postSchema = mc_postSchema c, mf_postFieldMap = mc_postFieldMap c\<rparr>"

definition syncFromConfig :: "mail_client \<Rightarrow> mail_page \<Rightarrow> mail_page" where
  "syncFromConfig c p = p\<lparr>mp_form := form_of c, mp_postShape := shapeOf (mc_postFieldMap c) (mc_postSchema c),
     mp_hasPassword := mc_hasPassword c, mp_hasPostAuthToken := mc_hasPostAuthToken c\<rparr>"

text \<open>data gets a value: the watch.\<close>

definition mail_data :: "mail_client \<Rightarrow> mail_page \<Rightarrow> mail_page" where
  "mail_data c p0 = (let p = syncFromConfig c (p0\<lparr>mp_data := Some c\<rparr>)
     in if mp_testToInitialized p then p else p\<lparr>mp_testTo := mc_senderEmail c, mp_testToInitialized := True\<rparr>)"

definition mail_dirty :: "mail_page \<Rightarrow> bool" where
  "mail_dirty p = (case mp_data p of
       None \<Rightarrow> False
     | Some c \<Rightarrow> mp_form p \<noteq> form_of c \<or> mp_senderPassword p \<noteq> [] \<or> mp_postAuthToken p \<noteq> [])"

definition mail_body :: "mail_page \<Rightarrow> json" where
  "mail_body p = (let f = mp_form p in JObj
     [(''provider'', provider_json (mf_provider f)), (''host'', JStr (mf_host f)), (''port'', mf_port f),
      (''useSsl'', JBool (mf_useSsl f)), (''useTls'', JBool (mf_useTls f)), (''usePassword'', JBool (mf_usePassword f)),
      (''senderEmail'', JStr (mf_senderEmail f)), (''senderDisplay'', JStr (mf_senderDisplay f)),
      (''senderDomain'', JStr (mf_senderDomain f)), (''postUrl'', JStr (mf_postUrl f)),
      (''postSchema'', post_schema_json (mf_postSchema f)), (''postFieldMap'', JStr (mf_postFieldMap f)),
      (''senderPassword'', JStr (mp_senderPassword p)), (''postAuthToken'', JStr (mp_postAuthToken p))])"

definition mail_save :: "error + mail_client \<Rightarrow> mail_page \<Rightarrow> bool \<times> mail_page" where
  "mail_save answer p = (case answer of
       Inl _ \<Rightarrow> (False, p)
     | Inr c \<Rightarrow> (True, (mail_data c p)\<lparr>mp_senderPassword := [], mp_postAuthToken := []\<rparr>))"

definition mail_reset :: "mail_page \<Rightarrow> mail_page" where
  "mail_reset p = (case mp_data p of None \<Rightarrow> p | Some c \<Rightarrow> syncFromConfig c p)\<lparr>mp_senderPassword := [], mp_postAuthToken := []\<rparr>"

definition sendTest :: "mail_page \<Rightarrow> json option" where
  "sendTest p = (if js_trim (mp_testTo p) = [] then None else Some (JObj [(''to'', JStr (js_trim (mp_testTo p)))]))"

interpretation mail_edit: keep_form mail_dirty mail_reset mail_save
  by unfold_locales
    (auto simp: mail_dirty_def mail_reset_def mail_save_def mail_data_def syncFromConfig_def Let_def split: option.splits sum.splits)

lemma mail_schema_fields:
  assumes "mailConfigSchema (JObj kvs) = Some c"
  shows "z_default kvs ''provider'' z_provider Smtp = Some (ml_provider c) \<and> z_default kvs ''host'' z_string [] = Some (ml_host c)
    \<and> z_default kvs ''port'' (z_int 0 65535) 587 = Some (ml_port c) \<and> z_default kvs ''useSsl'' z_boolean False = Some (ml_useSsl c)
    \<and> z_default kvs ''useTls'' z_boolean True = Some (ml_useTls c) \<and> z_default kvs ''usePassword'' z_boolean True = Some (ml_usePassword c)
    \<and> z_default kvs ''senderEmail'' z_string [] = Some (ml_senderEmail c) \<and> z_default kvs ''senderDisplay'' z_string [] = Some (ml_senderDisplay c)
    \<and> z_default kvs ''senderDomain'' z_string [] = Some (ml_senderDomain c) \<and> z_default kvs ''postUrl'' z_string [] = Some (ml_postUrl c)
    \<and> z_default kvs ''postSchema'' z_post_schema Smtogo = Some (ml_postSchema c)
    \<and> z_default kvs ''postFieldMap'' z_string [] = Some (ml_postFieldMap c)
    \<and> z_default kvs ''maxLenRecipientEmail'' (z_int 1 MAX_SAFE) 320 = Some (ml_maxLenRecipientEmail c)
    \<and> z_default kvs ''maxLenSubject'' (z_int 1 MAX_SAFE) 200 = Some (ml_maxLenSubject c)
    \<and> z_default kvs ''maxLenBody'' (z_int 1 MAX_SAFE) 50000 = Some (ml_maxLenBody c)
    \<and> z_default kvs ''postSchemas'' z_string [] = Some (ml_postSchemas c)"
  using assms by (auto simp: mailConfigSchema_def z_object_def bind_Some_iff)

lemma z_int_json_of:
  assumes "z_int lo hi j = Some n" shows "j = json_int n"
proof -
  obtain r where r: "j = JNum r" "quotient_of r = (n, 1)"
    using assms by (auto simp: z_int_def split: json.splits if_splits prod.splits)
  have "r = of_int n" using quotient_of_div [OF r(2)] by simp
  then show ?thesis by (simp add: r(1) json_int_def)
qed

lemma z_enum_json_of: "z_provider j = Some a \<Longrightarrow> j = provider_json a" "z_post_schema j = Some b \<Longrightarrow> j = post_schema_json b"
  by (cases a; simp add: z_provider_def provider_json_def split: if_splits)
     (cases b; simp add: z_post_schema_def post_schema_json_def split: if_splits)

lemma json_inj [simp]:
  "json_int m = json_int n \<longleftrightarrow> m = n"
  "provider_json a = provider_json a' \<longleftrightarrow> a = a'"
  "post_schema_json b = post_schema_json b' \<longleftrightarrow> b = b'"
proof -
  show "json_int m = json_int n \<longleftrightarrow> m = n" by (simp add: json_int_def)
  show "provider_json a = provider_json a' \<longleftrightarrow> a = a'" by (metis z_enum_json(1) option.inject)
  show "post_schema_json b = post_schema_json b' \<longleftrightarrow> b = b'" by (metis z_enum_json(2) option.inject)
qed

text \<open>The merged object that saveMailConfig parses, key by key.\<close>

lemma saved_merge:
  assumes "saveMailConfig p w = (Inr c, w')" "distinct (map fst p)"
  shows "\<exists>kvs. mailConfigSchema (JObj kvs) = Some c
    \<and> (\<forall>k. k \<noteq> ''senderPassword'' \<longrightarrow> k \<noteq> ''postAuthToken'' \<longrightarrow>
          map_of kvs k = (case map_of p k of None \<Rightarrow> map_of (mail_fields (fst (getMailConfig w))) k | Some v \<Rightarrow> Some v))"
proof -
  define cur where "cur = fst (getMailConfig w)"
  define kvs where "kvs = keep_secret ''postAuthToken'' (ml_postAuthToken cur) p
      (keep_secret ''senderPassword'' (ml_senderPassword cur) p (spread (mail_fields cur) p))"
  have "mailConfigSchema (JObj kvs) = Some c"
    using assms(1) by (auto simp: saveMailConfig_def Let_def case_prod_unfold kvs_def cur_def split: option.splits)
  moreover have "map_get k kvs = (case map_get k p of None \<Rightarrow> map_get k (mail_fields cur) | Some v \<Rightarrow> Some v)"
    if "k \<noteq> ''senderPassword''" "k \<noteq> ''postAuthToken''" for k
    using that by (simp add: kvs_def keep_secret_get spread_get [OF assms(2)])
  ultimately show ?thesis unfolding map_get_def cur_def by blast
qed

lemma mail_sent_stored:
  assumes "saveMailConfig (body_fields (mail_body p)) w = (Inr c, w')"
  shows "form_of (mailConfigToClient c) = mp_form p
    \<and> ml_maxLenRecipientEmail c = ml_maxLenRecipientEmail (fst (getMailConfig w))
    \<and> ml_maxLenSubject c = ml_maxLenSubject (fst (getMailConfig w))
    \<and> ml_maxLenBody c = ml_maxLenBody (fst (getMailConfig w)) \<and> ml_postSchemas c = ml_postSchemas (fst (getMailConfig w))"
proof -
  have dist: "distinct (map fst (body_fields (mail_body p)))" by (simp add: body_fields_def mail_body_def Let_def)
  obtain kvs where k: "mailConfigSchema (JObj kvs) = Some c"
    "\<And>k. k \<noteq> ''senderPassword'' \<Longrightarrow> k \<noteq> ''postAuthToken'' \<Longrightarrow> map_of kvs k = (case map_of (body_fields (mail_body p)) k of
        None \<Rightarrow> map_of (mail_fields (fst (getMailConfig w))) k | Some v \<Rightarrow> Some v)"
    using saved_merge [OF assms dist] by blast
  note fields = mail_schema_fields [OF k(1), unfolded z_default_def]
  have "form_of (mailConfigToClient c) = mp_form p"
    using fields
    by (simp add: k(2) body_fields_def mail_body_def Let_def form_of_def mailConfigToClient_def z_string_def z_boolean_def)
      (auto dest: z_int_json_of)
  moreover have "ml_maxLenRecipientEmail c = ml_maxLenRecipientEmail (fst (getMailConfig w))
    \<and> ml_maxLenSubject c = ml_maxLenSubject (fst (getMailConfig w))
    \<and> ml_maxLenBody c = ml_maxLenBody (fst (getMailConfig w)) \<and> ml_postSchemas c = ml_postSchemas (fst (getMailConfig w))"
    using fields
    by (simp add: k(2) body_fields_def mail_body_def Let_def mail_fields_def mail_config_json_def z_string_def)
      (auto dest: z_int_json_of)
  ultimately show ?thesis by simp
qed

text \<open>What is typed into the mail form is what the server keeps: when an administrator's save is
  answered, the configuration read from then on has every field of the form as it was typed (so the port
  was a whole number), the password and the token that were typed or, where nothing was typed, those
  stored before, and the limits and the library of schemas unchanged; the form then shows it and is
  clean.  A save that is refused leaves the form as it was.\<close>

theorem mail_form_stored:
  assumes "mail_config_put (Some a) (mail_body p) w = (r, w')" "ax_role a = RAdmin"
  shows "case r of
      Inl _ \<Rightarrow> mail_save r p = (False, p)
    | Inr c' \<Rightarrow>
        (let new = fst (getMailConfig w'); old = fst (getMailConfig w); p' = snd (mail_save r p) in
          c' = mailConfigToClient new \<and> form_of c' = mp_form p \<and> mp_form p' = mp_form p \<and> \<not> mail_dirty p'
        \<and> ml_senderPassword new = (if mp_senderPassword p = [] then ml_senderPassword old else mp_senderPassword p)
        \<and> ml_postAuthToken new = (if mp_postAuthToken p = [] then ml_postAuthToken old else mp_postAuthToken p)
        \<and> new = new\<lparr>ml_maxLenRecipientEmail := ml_maxLenRecipientEmail old, ml_maxLenSubject := ml_maxLenSubject old,
            ml_maxLenBody := ml_maxLenBody old, ml_postSchemas := ml_postSchemas old\<rparr>)"
proof (cases r)
  case (Inl e)
  then show ?thesis by (simp add: mail_save_def)
next
  case (Inr c')
  obtain c w1 l ct m op where s: "saveMailConfig (body_fields (mail_body p)) w = (Inr c, w1)" "c' = mailConfigToClient c"
    "w' = audit l ct m op w1"
    using assms Inr
    by (simp add: mail_config_put_def requireAdmin_def andThen_eq_Inr) blast
  have dist: "distinct (map fst (body_fields (mail_body p)))" by (simp add: body_fields_def mail_body_def Let_def)
  have read: "fst (getMailConfig w') = fst (getMailConfig w1)"
    by (simp add: s(3) getMailConfig_def load_mail_def AppConfigRepository_findKey_def Let_def split: option.split)
  have kept: "ml_senderPassword c = new_secret ''senderPassword'' (body_fields (mail_body p)) (ml_senderPassword (fst (getMailConfig w)))
    \<and> ml_postAuthToken c = new_secret ''postAuthToken'' (body_fields (mail_body p)) (ml_postAuthToken (fst (getMailConfig w)))
    \<and> fst (getMailConfig w1) = c"
    using saveMailConfig_secrets [OF s(1) dist] .
  note stored = mail_sent_stored [OF s(1)]
  have secrets: "new_secret ''senderPassword'' (body_fields (mail_body p)) old = (if mp_senderPassword p = [] then old else mp_senderPassword p)"
    "new_secret ''postAuthToken'' (body_fields (mail_body p)) old = (if mp_postAuthToken p = [] then old else mp_postAuthToken p)" for old
    by (simp_all add: new_secret_def map_get_def body_fields_def mail_body_def Let_def)
  have "mp_form (snd (mail_save r p)) = form_of c' \<and> \<not> mail_dirty (snd (mail_save r p))"
    by (simp add: Inr mail_save_def mail_data_def syncFromConfig_def mail_dirty_def Let_def)
  then show ?thesis using kept stored s(2) by (simp add: Inr read secrets Let_def)
qed

definition mail_admin :: auth_context where
  "mail_admin = \<lparr>ax_userId = 1, ax_role = RAdmin\<rparr>"

definition typed_mail :: mail_page where
  "typed_mail = \<lparr>mp_data = Some (mailConfigToClient default_mail),
     mp_form = (form_of (mailConfigToClient default_mail))\<lparr>mf_host := ''mx'', mf_port := JNum 25\<rparr>, mp_senderPassword = ''pw'',
     mp_postAuthToken = [], mp_postShape = Smtogo, mp_hasPassword = False, mp_hasPostAuthToken = False,
     mp_testTo = [], mp_testToInitialized = True\<rparr>"

theorem mail_form_stored_witness:
  "\<exists>c w. mail_config_put (Some mail_admin) (mail_body typed_mail) world_start = (Inr c, w)
     \<and> form_of c = mp_form typed_mail \<and> ml_senderPassword (fst (getMailConfig w)) = ''pw''"
proof -
  have cur: "getMailConfig world_start = (default_mail, world_start\<lparr>mail_cache := Some default_mail\<rparr>)"
    by (simp add: getMailConfig_def load_mail_def AppConfigRepository_findKey_def Let_def)
  have "mailConfigSchema (JObj (keep_secret ''postAuthToken'' (ml_postAuthToken default_mail) (body_fields (mail_body typed_mail))
      (keep_secret ''senderPassword'' (ml_senderPassword default_mail) (body_fields (mail_body typed_mail))
        (spread (mail_fields default_mail) (body_fields (mail_body typed_mail)))))) \<noteq> None"
    by code_simp
  then obtain c w where s: "mail_config_put (Some mail_admin) (mail_body typed_mail) world_start = (Inr c, w)"
    by (auto simp: mail_config_put_def requireAdmin_def mail_admin_def saveMailConfig_def cur Let_def)
  show ?thesis
    using mail_form_stored [OF s] s by (auto simp: mail_admin_def typed_mail_def Let_def)
qed


section \<open>config.vue\<close>

text \<open>Both the data and the form are JSON objects, and the form is a clone; two of them have the same text
  exactly when they are the same.  A number that is NaN has the text null.\<close>

record config_page =
  cp_data :: "json option"
  cp_form :: "json option"

datatype config_input = NumberText string | Text string | Flag bool | Area string

definition input_json :: "config_input \<Rightarrow> json" where
  "input_json v = (case v of
       NumberText raw \<Rightarrow> if raw = [] then JNum 0 else (case js_Number raw of Some n \<Rightarrow> JNum n | None \<Rightarrow> JNull)
     | Text raw \<Rightarrow> JStr raw
     | Flag b \<Rightarrow> JBool b
     | Area raw \<Rightarrow> JArr (map JStr (text_lines raw)))"

definition config_data :: "json \<Rightarrow> config_page \<Rightarrow> config_page" where
  "config_data d p = p\<lparr>cp_data := Some d, cp_form := Some d\<rparr>"

text \<open>An input of the page, at the path of its field; outside the objects of the form it would throw.\<close>

definition config_onInput :: "string \<Rightarrow> config_input \<Rightarrow> config_page \<Rightarrow> config_page" where
  "config_onInput path v p = (case Option.bind (cp_form p) (\<lambda>f. setPath f path (input_json v)) of
       None \<Rightarrow> p | Some f \<Rightarrow> p\<lparr>cp_form := Some f\<rparr>)"

definition config_dirty :: "config_page \<Rightarrow> bool" where
  "config_dirty p \<longleftrightarrow> cp_form p \<noteq> None \<and> cp_data p \<noteq> None \<and> cp_form p \<noteq> cp_data p"

definition config_save :: "error + json \<Rightarrow> config_page \<Rightarrow> bool \<times> config_page" where
  "config_save answer p = (case cp_form p of
       None \<Rightarrow> (False, p)
     | Some _ \<Rightarrow> (case answer of Inl _ \<Rightarrow> (False, p) | Inr u \<Rightarrow> (True, p\<lparr>cp_data := Some u, cp_form := Some u\<rparr>)))"

definition config_reset :: "config_page \<Rightarrow> config_page" where
  "config_reset p = (case cp_data p of None \<Rightarrow> p | Some d \<Rightarrow> p\<lparr>cp_form := Some d\<rparr>)"

interpretation config_edit: keep_form config_dirty config_reset config_save
  by unfold_locales (auto simp: config_dirty_def config_reset_def config_save_def split: option.splits sum.splits)

text \<open>What was put into a field is what the form has there.\<close>

lemma config_input_read:
  assumes "cp_form p = Some f" "setPath f path (input_json v) = Some f'"
  shows "map_option (\<lambda>g. getPath g path) (cp_form (config_onInput path v p)) = Some (Some (input_json v))"
  using assms setPath_getPath [OF assms(2)] by (simp add: config_onInput_def)


section \<open>users.vue\<close>

definition anyDirty :: "user_view list \<times> drafts \<Rightarrow> bool" where
  "anyDirty p \<longleftrightarrow> (\<exists>u\<in>set (fst p). draft_dirty (snd p) u)"

definition resetAll :: "user_view list \<times> drafts \<Rightarrow> user_view list \<times> drafts" where
  "resetAll p = (fst p, [])"

text \<open>saveAll with the list that refresh brings, after a success and after a failure.\<close>

definition users_save :: "bool \<times> user_view list \<Rightarrow> user_view list \<times> drafts \<Rightarrow> bool \<times> user_view list \<times> drafts" where
  "users_save answer p = (let (sent, saved, ds) = saveAll (fst p) (fst answer) (snd p)
     in (saved, if sent = [] then fst p else snd answer, ds))"

text \<open>After a failure the refreshed list may agree with a draft that did get through, so this form is a
  leave_form only.\<close>

interpretation users_edit: leave_form anyDirty resetAll users_save
  by unfold_locales
    (auto simp: anyDirty_def resetAll_def users_save_def saveAll_def draft_dirty_def map_get_def Let_def split: if_splits)

text \<open>The dialog on the pages of the groups, the mail settings and the configuration: whichever way is
  taken, the page goes where it was headed or stays with every edit in place.\<close>

lemmas dashboard_leaves = group_edit.leave_dialog mail_edit.leave_dialog config_edit.leave_dialog

end
