(* ===== verification/Panels.thy ===== *)
theory Panels
  imports Forms
begin

text \<open>
  The panels of the dashboard with logic of their own: the audit log with its pager (pages/dashboard/
  audit.vue, components/audit/AuditPager.vue), the bans (components/streams/BansPanel.vue), the nodes
  (NodesTable.vue, nodes/NodePicker.vue), the own password (settings.vue), the creation of events
  (events/index.vue), the note on the dashboard (index.vue) and the pages of the manual (manual.vue), against
  what the endpoints make of their requests.
\<close>

section \<open>The audit log\<close>

definition PAGE_SIZES :: "int list" where "PAGE_SIZES = [20, 50, 100, 200]"

definition pageCount :: "int \<Rightarrow> int \<Rightarrow> int" where
  "pageCount entries per = max 1 \<lceil>(of_int entries :: rat) / of_int per\<rceil>"

definition row_from :: "int \<Rightarrow> int \<Rightarrow> int \<Rightarrow> int" where
  "row_from pg per entries = (if entries = 0 then 0 else (pg - 1) * per + 1)"

definition row_to :: "int \<Rightarrow> int \<Rightarrow> int \<Rightarrow> int" where
  "row_to pg per entries = min (pg * per) entries"

record audit_filter_form =
  fa_level :: string
  fa_category :: string
  fa_eventId :: string
  fa_q :: string

record audit_panel =
  pn_filters :: audit_filter_form
  pn_applied :: audit_filter_form
  pn_page :: int
  pn_pageSize :: int

definition ALL_OPTION :: string where "ALL_OPTION = ''all''"

definition no_all :: "string \<Rightarrow> string" where
  "no_all s = (if s = ALL_OPTION then [] else s)"

definition audit_apply :: "audit_panel \<Rightarrow> audit_panel" where
  "audit_apply p = p\<lparr>pn_page := 1, pn_applied := \<lparr>fa_level = no_all (fa_level (pn_filters p)),
     fa_category = no_all (fa_category (pn_filters p)), fa_eventId = no_all (fa_eventId (pn_filters p)), fa_q = fa_q (pn_filters p)\<rparr>\<rparr>"

definition resetFilters :: "audit_panel \<Rightarrow> audit_panel" where
  "resetFilters p = audit_apply (p\<lparr>pn_filters := \<lparr>fa_level = ALL_OPTION, fa_category = ALL_OPTION, fa_eventId = ALL_OPTION, fa_q = []\<rparr>\<rparr>)"

definition onPageSize :: "int \<Rightarrow> audit_panel \<Rightarrow> audit_panel" where
  "onPageSize n p = p\<lparr>pn_pageSize := n, pn_page := 1\<rparr>"

definition panel_query :: "audit_panel \<Rightarrow> audit_query" where
  "panel_query p = \<lparr>aq_level = Some (fa_level (pn_applied p)), aq_category = Some (fa_category (pn_applied p)),
     aq_eventId = Some (fa_eventId (pn_applied p)), aq_q = Some (fa_q (pn_applied p)), aq_page = Some (pn_page p),
     aq_pageSize = Some (pn_pageSize p)\<rparr>"

text \<open>The watch on the data.\<close>

definition audit_arrived :: "audit_page \<Rightarrow> audit_panel \<Rightarrow> audit_panel" where
  "audit_arrived d p =
     (if ap_entries d \<noteq> [] then p
      else let last = pageCount (ap_total d) (ap_pageSize d) in if last < pn_page p then p\<lparr>pn_page := last\<rparr> else p)"

lemma ceiling_pages:
  assumes "0 < per" "0 \<le> entries"
  shows "(pageCount entries per - 1) * per < max 1 entries \<and> entries \<le> pageCount entries per * per"
proof (cases "entries = 0")
  case True
  then show ?thesis using assms by (simp add: pageCount_def)
next
  case False
  define r :: rat where "r = of_int entries / of_int per"
  have r: "0 < r" "r * of_int per = of_int entries" using assms False by (simp_all add: r_def)
  define c where "c = \<lceil>r\<rceil>"
  have c: "of_int (c - 1) < r" "r \<le> of_int c" "1 \<le> c"
    using r(1) ceiling_correct [of r] by (simp_all add: c_def one_le_ceiling)
  have pos: "(0 :: rat) < of_int per" using assms by simp
  have "(of_int ((c - 1) * per) :: rat) < of_int entries"
    using mult_strict_right_mono [OF c(1) pos] r(2) by simp
  moreover have "(of_int entries :: rat) \<le> of_int (c * per)"
    using mult_right_mono [OF c(2), of "of_int per"] r(2) pos by simp
  ultimately have "(c - 1) * per < entries" "entries \<le> c * per" by (simp_all only: of_int_less_iff of_int_le_iff)
  moreover have "pageCount entries per = c" using c(3) by (simp add: pageCount_def c_def r_def)
  ultimately show ?thesis using False assms by simp
qed

lemma listAudit_length:
  assumes "1 \<le> pg" "1 \<le> sz" "sz \<le> 1000"
  shows "int (length (ap_entries (listAudit f (Some pg) (Some sz) d)))
      = min sz (max 0 (ap_total (listAudit f (Some pg) (Some sz) d) - (pg - 1) * sz))"
    and "ap_pageSize (listAudit f (Some pg) (Some sz) d) = sz" "0 \<le> ap_total (listAudit f (Some pg) (Some sz) d)"
    and "ap_total (listAudit f (Some pg') (Some sz') d) = ap_total (listAudit f (Some pg) (Some sz) d)"
proof -
  have sz: "clamp_pageSize (Some sz) = sz" "clamp_page (Some pg) = pg"
    using assms by (simp_all add: clamp_pageSize_def clamp_page_def AUDIT_MAX_PAGE_SIZE_def orDefault_def)
  show "ap_pageSize (listAudit f (Some pg) (Some sz) d) = sz" "0 \<le> ap_total (listAudit f (Some pg) (Some sz) d)"
    "ap_total (listAudit f (Some pg') (Some sz') d) = ap_total (listAudit f (Some pg) (Some sz) d)"
    by (simp_all add: listAudit_def Let_def sz AuditLogRepository_countFiltered_def)
  have "0 \<le> (pg - 1) * sz" using assms by simp
  then show "int (length (ap_entries (listAudit f (Some pg) (Some sz) d)))
      = min sz (max 0 (ap_total (listAudit f (Some pg) (Some sz) d) - (pg - 1) * sz))"
    using assms(2)
    by (simp add: listAudit_def Let_def sz AuditLogRepository_countFiltered_def AuditLogRepository_findMany_def)
qed

text \<open>What the pager says of a page that is shown is true: from and to count its entries.  And a page that
  comes empty because the log has fewer is left for one that does not: the page the panel asks for next
  has entries, unless nothing matches at all.\<close>

theorem audit_panel_shows:
  assumes "1 \<le> pn_page p" "pn_pageSize p \<in> set PAGE_SIZES"
    and "d = listAudit f (Some (pn_page p)) (Some (pn_pageSize p)) db"
  shows "(ap_entries d \<noteq> [] \<longrightarrow> int (length (ap_entries d))
            = row_to (pn_page p) (ap_pageSize d) (ap_total d) - row_from (pn_page p) (ap_pageSize d) (ap_total d) + 1)
    \<and> (ap_total d \<noteq> 0 \<longrightarrow> ap_entries (listAudit f (Some (pn_page (audit_arrived d p))) (Some (pn_pageSize p)) db) \<noteq> [])
    \<and> 1 \<le> pn_page (audit_arrived d p)"
proof -
  define pg sz where "pg = pn_page p" "sz = pn_pageSize p"
  have b: "1 \<le> pg" "1 \<le> sz" "sz \<le> 1000" using assms(1,2) by (auto simp: pg_sz_def PAGE_SIZES_def)
  note len = listAudit_length [OF b, where f = f and d = db]
  have d: "d = listAudit f (Some pg) (Some sz) db" by (simp add: assms(3) pg_sz_def)
  have n: "int (length (ap_entries d)) = min sz (max 0 (ap_total d - (pg - 1) * sz))" "ap_pageSize d = sz" "0 \<le> ap_total d"
    using len by (simp_all add: d)
  have mult: "pg * sz = (pg - 1) * sz + sz" by (simp add: left_diff_distrib)
  have shown: "int (length (ap_entries d)) = row_to pg (ap_pageSize d) (ap_total d) - row_from pg (ap_pageSize d) (ap_total d) + 1"
    if "ap_entries d \<noteq> []"
  proof -
    have "0 < int (length (ap_entries d))" using that by simp
    then have "(pg - 1) * sz < ap_total d" using n(1) b by linarith
    moreover have "0 \<le> (pg - 1) * sz" using b by simp
    ultimately have "(pg - 1) * sz < ap_total d" "ap_total d \<noteq> 0" by linarith+
    then show ?thesis using n(1,2) b mult by (simp add: row_to_def row_from_def)
  qed
  have next_page: "ap_entries (listAudit f (Some (pn_page (audit_arrived d p))) (Some sz) db) \<noteq> [] \<and> 1 \<le> pn_page (audit_arrived d p)"
    if total: "ap_total d \<noteq> 0"
  proof (cases "ap_entries d = [] \<and> pageCount (ap_total d) sz < pg")
    case True
    define l where "l = pageCount (ap_total d) sz"
    have l: "1 \<le> l" "(l - 1) * sz < ap_total d"
      using ceiling_pages [of sz "ap_total d"] b n(3) total by (auto simp: l_def pageCount_def)
    have "ap_total (listAudit f (Some l) (Some sz) db) = ap_total d" by (simp add: d listAudit_def Let_def)
    then have "0 < int (length (ap_entries (listAudit f (Some l) (Some sz) db)))"
      using listAudit_length(1) [OF l(1) b(2,3), where f = f and d = db] l b(2) by linarith
    moreover have "pn_page (audit_arrived d p) = l" using True n(2) by (simp add: audit_arrived_def l_def pg_sz_def Let_def)
    ultimately show ?thesis using l(1) by auto
  next
    case False
    have same: "pn_page (audit_arrived d p) = pg" using False n(2) by (auto simp: audit_arrived_def pg_sz_def Let_def)
    have "pg \<le> pageCount (ap_total d) sz" if "ap_entries d = []" using False that by simp
    moreover have "ap_total d \<le> (pg - 1) * sz" if "ap_entries d = []" using n(1) that b by (simp add: max_def split: if_splits)
    moreover have "(pageCount (ap_total d) sz - 1) * sz < ap_total d"
      using ceiling_pages [of sz "ap_total d"] b n(3) total by simp
    ultimately have "ap_entries d \<noteq> []"
      using mult_right_mono [of "pg - 1" "pageCount (ap_total d) sz - 1" sz] b(2) by fastforce
    then show ?thesis using same d b(1) by simp
  qed
  moreover have "1 \<le> pn_page (audit_arrived d p)"
    using b(1) by (auto simp: audit_arrived_def pg_sz_def pageCount_def Let_def)
  ultimately show ?thesis using shown by (simp add: pg_sz_def)
qed

text \<open>Cleared filters ask for everything, from the first page.\<close>

lemma reset_asks_all:
  "pn_page (resetFilters p) = 1"
  "pick (aq_level (panel_query (resetFilters p))) AUDIT_LEVELS = None"
  "pick (aq_category (panel_query (resetFilters p))) AUDIT_CATEGORIES = None"
  "audit_event (aq_eventId (panel_query (resetFilters p))) = None"
  by (simp_all add: resetFilters_def audit_apply_def panel_query_def no_all_def pick_def AUDIT_LEVELS_def
      AUDIT_CATEGORIES_def audit_event_def)


section \<open>The bans\<close>

record bans_panel =
  bp_eventId :: "int option"
  bp_email :: string
  bp_reason :: string
  bp_eventScope :: bool

definition bans_panel_new :: "int option \<Rightarrow> bans_panel" where
  "bans_panel_new ev = \<lparr>bp_eventId = ev, bp_email = [], bp_reason = [], bp_eventScope = (ev \<noteq> None)\<rparr>"

definition visible_bans :: "int option \<Rightarrow> stream_ban_row list \<Rightarrow> stream_ban_row list" where
  "visible_bans ev bs = filter (\<lambda>b. case ev of None \<Rightarrow> True | Some i \<Rightarrow> sb_eventId b = Some i \<or> sb_eventId b = None) bs"

text \<open>The request of addBan, the email, the event and the reason, and the panel after the answer.\<close>

definition addBan :: "bool \<Rightarrow> bans_panel \<Rightarrow> (string \<times> int option \<times> string option) option \<times> bans_panel" where
  "addBan answered p =
     (if js_trim (bp_email p) = [] then (None, p)
      else (Some (js_trim (bp_email p), if bp_eventScope p then bp_eventId p else None,
              if js_trim (bp_reason p) = [] then None else Some (js_trim (bp_reason p))),
            if answered then p\<lparr>bp_email := [], bp_reason := []\<rparr> else p))"

lemma ban_sent:
  assumes "addBan answered p = (Some (e, ev, r), p')" "ax_role a = RAdmin"
  shows "bans_post txt (Some a) (JObj [(''email'', JStr e)]) ev r w
      = ban \<lparr>bi_email = e, bi_eventId = ev, bi_reason = r, bi_bannedBy = Some (''user#'' @ int_str (ax_userId a))\<rparr> w"
    and "e \<noteq> []"
  using assms
  by (auto simp: addBan_def bans_post_def as_admin_def requireAdmin_def str_field_def json_get_def js_trim_idem Let_def split: if_splits)

text \<open>The panel of an event means to show the site-wide bans too, but they are not among what the endpoint
  gives it.\<close>

lemma site_bans_hidden: "sb_eventId b \<noteq> None" if "b \<in> set (visible_bans (Some i) (listBans (Some i) d))"
  using that by (auto simp: visible_bans_def listBans_def StreamBansRepository_listByEvent_def order_desc_set tbl_select_def)


section \<open>The nodes\<close>

type_synonym cap_drafts = "(string, int) jsmap"

definition capOf :: "media_node_snapshot \<Rightarrow> cap_drafts \<Rightarrow> int" where
  "capOf n ds = orDefault (map_get (mn_nodeId n) ds) (mn_maxUsers n)"

definition setCap :: "media_node_snapshot \<Rightarrow> string \<Rightarrow> cap_drafts \<Rightarrow> cap_drafts" where
  "setCap n v ds = (case js_Number v of
       Some m \<Rightarrow> if of_int \<lfloor>m\<rfloor> = m \<and> 1 \<le> m then map_put (mn_nodeId n) \<lfloor>m\<rfloor> ds else ds
     | None \<Rightarrow> ds)"

definition saveCap :: "bool \<Rightarrow> media_node_snapshot \<Rightarrow> cap_drafts \<Rightarrow> (string \<times> int) option \<times> cap_drafts" where
  "saveCap answered n ds = (case map_get (mn_nodeId n) ds of
       None \<Rightarrow> (None, ds)
     | Some m \<Rightarrow> if m = mn_maxUsers n then (None, ds)
         else (Some (mn_nodeId n, m), if answered then map_del (mn_nodeId n) ds else ds))"

inductive cap_edits :: "cap_drafts \<Rightarrow> bool" where
  none_edited: "cap_edits []"
| cap_typed: "cap_edits ds \<Longrightarrow> cap_edits (setCap n v ds)"
| cap_saved: "cap_edits ds \<Longrightarrow> cap_edits (snd (saveCap answered n ds))"

lemma caps_positive:
  assumes "cap_edits ds" "map_get k ds = Some m" shows "1 \<le> m"
  using assms
proof (induction arbitrary: m)
  case (cap_typed ds n v)
  then show ?case by (auto simp: setCap_def map_get_put one_le_floor split: option.splits if_splits)
next
  case (cap_saved ds answered n)
  then show ?case by (auto simp: saveCap_def map_get_del split: option.splits if_splits)
qed simp

text \<open>A cap that is sent is a new one and positive, so the endpoint refuses it only above its maximum.\<close>

lemma cap_sent:
  assumes "cap_edits ds" "saveCap answered n ds = (Some (k, m), ds')" "ax_role a = RAdmin"
    and "js_trim (mn_nodeId n) = mn_nodeId n" "mn_nodeId n \<noteq> []" "CHR ''/'' \<notin> set (mn_nodeId n)"
  shows "k = mn_nodeId n \<and> m \<noteq> mn_maxUsers n
    \<and> ((\<exists>r w'. media_node_patch (Some a) k (Some (of_int m)) w = (Inr r, w')) \<longleftrightarrow> m \<le> 100000)"
proof -
  have s: "map_get (mn_nodeId n) ds = Some m" "m \<noteq> mn_maxUsers n" "k = mn_nodeId n"
    using assms(2) by (auto simp: saveCap_def split: option.splits if_splits)
  have "1 \<le> m" using caps_positive [OF assms(1) s(1)] .
  then show ?thesis using s assms(3-6) by (auto simp: media_node_patch_def requireAdmin_def case_prod_unfold Let_def)
qed

text \<open>The latency test of NodePicker.  A probe is the outcome of the browser's check, None when nothing
  answered in time; the nodes answer in any order.\<close>

datatype ping_outcome = OutMs | OutTimeout | OutNA

record ping_state =
  pg_rtts :: "(string, int option) jsmap"
  pg_outcomes :: "(string, ping_outcome) jsmap"

definition reportResult :: "string \<Rightarrow> int option \<Rightarrow> bool \<Rightarrow> ping_state \<Rightarrow> ping_state" where
  "reportResult i ms probed s = s\<lparr>pg_rtts := map_put i ms (pg_rtts s),
     pg_outcomes := map_put i (if ms \<noteq> None then OutMs else if probed then OutTimeout else OutNA) (pg_outcomes s)\<rparr>"

text \<open>One node of the list settles; the samples collected so far are the second component.\<close>

definition ping_node :: "(string \<Rightarrow> int option) \<Rightarrow> node_choice \<Rightarrow> ping_state \<times> (string \<times> rat) list \<Rightarrow> ping_state \<times> (string \<times> rat) list" where
  "ping_node probe n sl =
     (if \<not> 0 < nc_publicProbeUdpPort n then (reportResult (nc_nodeId n) None False (fst sl), snd sl)
      else case probe (nc_nodeId n) of
             None \<Rightarrow> (reportResult (nc_nodeId n) None True (fst sl), snd sl)
           | Some ms \<Rightarrow> (reportResult (nc_nodeId n) (Some ms) True (fst sl), snd sl @ [(nc_nodeId n, of_int ms)]))"

text \<open>order is the order in which the nodes settle; the samples are the body of the one request, which is not
  made without any.\<close>

definition pingNodes :: "(string \<Rightarrow> int option) \<Rightarrow> node_choice list \<Rightarrow> ping_state \<Rightarrow> (string \<times> rat) list option \<times> ping_state" where
  "pingNodes probe order s = (let (s', latencies) = fold (ping_node probe) order (s, []) in
     (if latencies = [] then None else Some latencies, s'))"

lemma ping_fold:
  "snd (fold (ping_node probe) ns sl) = snd sl @ List.map_filter (\<lambda>n. if 0 < nc_publicProbeUdpPort n
      then map_option (\<lambda>ms. (nc_nodeId n, of_int ms)) (probe (nc_nodeId n)) else None) ns"
  by (induction ns arbitrary: sl) (auto simp: ping_node_def List.map_filter_simps split: option.split)

text \<open>What is reported to the server is, in some order, the answers of exactly the nodes that can be probed and
  answered; nothing is reported for a node that did not.\<close>

lemma ping_reports:
  "set (orDefault (fst (pingNodes probe ns s)) [])
     = {(nc_nodeId n, of_int ms) | n ms. n \<in> set ns \<and> 0 < nc_publicProbeUdpPort n \<and> probe (nc_nodeId n) = Some ms}"
proof -
  have "orDefault (fst (pingNodes probe ns s)) [] = snd (fold (ping_node probe) ns (s, []))"
    by (simp add: pingNodes_def case_prod_unfold Let_def)
  then show ?thesis by (auto simp: ping_fold set_map_filter split: if_splits)
qed

definition offlineMine :: "bool \<Rightarrow> string option \<Rightarrow> node_choice list \<Rightarrow> string option" where
  "offlineMine loaded assigned ns =
     (if \<not> loaded then None
      else case assigned of None \<Rightarrow> None
        | Some i \<Rightarrow> if i \<noteq> [] \<and> \<not> (\<exists>n\<in>set ns. nc_isMine n) \<and> \<not> (\<exists>n\<in>set ns. nc_nodeId n = i) then Some i else None)"


section \<open>The own password\<close>

record password_form =
  pf_current :: string
  pf_new :: string
  pf_confirm :: string
  pf_saving :: bool

definition canSave :: "password_form \<Rightarrow> bool" where
  "canSave f \<longleftrightarrow> pf_current f \<noteq> [] \<and> pf_new f \<noteq> [] \<and> pf_confirm f \<noteq> [] \<and> pf_new f = pf_confirm f
     \<and> \<not> length (pf_new f) < 6 \<and> pf_new f \<noteq> pf_current f \<and> \<not> pf_saving f"

text \<open>A change that the form lets through is refused only because the current password is wrong, as long as
  both arrive as they were typed.\<close>

lemma password_form_passes:
  assumes "canSave f" "x_rsaDecrypt x c = Some (pf_current f)" "x_rsaDecrypt x n = Some (pf_new f)"
    and "UsersRepository_findById (ax_userId a) w = Some u"
  shows "(\<exists>w'. me_password x (Some a) c n w = (Inr (), w')) \<longleftrightarrow> verifyPassword x (pf_current f) (us_passwordHash u)"
  using assms
  by (auto simp: me_password_def requireSession_def canSave_def MIN_PASSWORD_def case_prod_unfold Let_def)


section \<open>New events\<close>

record event_form =
  ef_name :: string
  ef_slug :: string
  ef_description :: string

definition create_body :: "event_form \<Rightarrow> string + event_input" where
  "create_body f =
     (if js_trim (ef_name f) = [] then Inl ''Please fill in the event name''
      else if js_trim (ef_slug f) = [] \<or> \<not> EVENT_KEY_RE (js_trim (ef_slug f))
      then Inl ''Event key is required (lowercase letters, digits, _ and - only)''
      else Inr (no_input\<lparr>ei_name := Val (ef_name f), ei_slug := Val (js_trim (ef_slug f)),
             ei_description := (if ef_description f = [] then Undefined else Val (ef_description f))\<rparr>))"

text \<open>What the form sends is refused only when the key is taken; the event is a draft.\<close>

lemma create_form_passes:
  assumes "create_body f = Inr b" "fst (createEvent b w) = Inl (HttpError s m)"
  shows "slug_taken (js_trim (ef_slug f)) None w \<and> s = 409"
proof (rule ccontr)
  assume neg: "\<not> (slug_taken (js_trim (ef_slug f)) None w \<and> s = 409)"
  have b: "js_trim (ef_name f) \<noteq> []" "EVENT_KEY_RE (js_trim (ef_slug f))"
    "b = no_input\<lparr>ei_name := Val (ef_name f), ei_slug := Val (js_trim (ef_slug f)),
       ei_description := (if ef_description f = [] then Undefined else Val (ef_description f))\<rparr>"
    using assms(1) by (auto simp: create_body_def split: if_splits)
  show False
  proof (cases "slug_taken (js_trim (ef_slug f)) None w")
    case True
    then show False using assms(2) neg b by (simp add: createEvent_def b(3) maybe_val_def js_trim_idem validEventKey_def slug_error_def no_input_def)
  next
    case False
    define i where "i = EventsRepository_insert (event_of_input (js_trim (ef_name f)) (js_trim (ef_slug f)) None b) w"
    have "createEvent b w = andThen i (event_created b (js_trim (ef_name f)) (js_trim (ef_slug f)))"
      using False b(1,2)
      by (simp add: createEvent_def b(3) maybe_val_def js_trim_idem validEventKey_def no_input_def input_override_def
          assertWindow_def win_ms_def Let_def i_def)
    moreover have "fst i \<noteq> Inl (HttpError s m)" unfolding i_def by (rule insert_event_error)
    ultimately show False
      using assms(2) event_created_error [of b "js_trim (ef_name f)" "js_trim (ef_slug f)"]
      by (cases "fst i"; cases i) (auto simp: andThen_def)
  qed
qed


section \<open>The note on the dashboard\<close>

record note_card =
  nt_me :: "string option option"
  nt_personalNote :: string
  nt_editing :: bool
  nt_draft :: string

text \<open>me arrives with its dashboardNotice; nt_me is None before.\<close>

definition me_arrived :: "string option \<Rightarrow> note_card \<Rightarrow> note_card" where
  "me_arrived v c = (let d = c\<lparr>nt_me := Some v\<rparr> in if nt_editing c then d else d\<lparr>nt_personalNote := orDefault v []\<rparr>)"

definition note_startEdit :: "note_card \<Rightarrow> note_card" where
  "note_startEdit c = c\<lparr>nt_draft := nt_personalNote c, nt_editing := True\<rparr>"

text \<open>The answer of the server: what it stored.\<close>

definition saveNote :: "error + string option \<Rightarrow> note_card \<Rightarrow> note_card" where
  "saveNote answer c = (case answer of
       Inl _ \<Rightarrow> c
     | Inr v \<Rightarrow> c\<lparr>nt_personalNote := orDefault v [], nt_me := map_option (\<lambda>_. v) (nt_me c), nt_editing := False\<rparr>)"

text \<open>A note that is being edited is not overwritten by an answer that arrives; one that is saved is shown as the
  server stored it.\<close>

lemma note_kept:
  "nt_draft (me_arrived v c) = nt_draft c"
  "nt_editing c \<Longrightarrow> nt_personalNote (me_arrived v c) = nt_personalNote c"
  "nt_personalNote (saveNote (Inr v) c) = orDefault v [] \<and> \<not> nt_editing (saveNote (Inr v) c)"
  by (simp_all add: me_arrived_def saveNote_def Let_def)


section \<open>The pages of the manual\<close>

definition PAGE_COUNT :: int where "PAGE_COUNT = 10"

definition ANCHORS :: "(string \<times> int) list" where
  "ANCHORS = [(''values'', 1), (''install'', 2), (''capture'', 3), (''capture-b'', 4), (''capture-fit'', 5), (''volume'', 6),
     (''settings'', 6), (''settings-b'', 8), (''settings-c'', 9), (''other-software'', 10), (''go-live'', 10), (''troubleshooting'', 10)]"

text \<open>The page of the query parameter, which is NaN when it is missing.\<close>

definition manual_page :: "string option \<Rightarrow> int" where
  "manual_page q = (case Option.bind q js_Number of
       Some n \<Rightarrow> if of_int \<lfloor>n\<rfloor> = n \<and> 1 \<le> n \<and> n \<le> of_int PAGE_COUNT then \<lfloor>n\<rfloor> else 1
     | None \<Rightarrow> 1)"

definition pageQuery :: "int \<Rightarrow> string option" where
  "pageQuery n = (if 1 < n then Some (int_str n) else None)"

definition manual_go :: "int \<Rightarrow> string option \<Rightarrow> string option" where
  "manual_go n q = (if n < 1 \<or> PAGE_COUNT < n \<or> n = manual_page q then q else pageQuery n)"

definition manual_jump :: "string \<Rightarrow> string option \<Rightarrow> string option" where
  "manual_jump anchor q = (let target = orDefault (map_of ANCHORS anchor) 1 in if target \<noteq> manual_page q then pageQuery target else q)"

lemma manual_page_bounds: "1 \<le> manual_page q \<and> manual_page q \<le> PAGE_COUNT"
  by (auto simp: manual_page_def PAGE_COUNT_def one_le_floor floor_le_iff split: option.split)

lemma page_of_query: "list_all (\<lambda>n. manual_page (pageQuery n) = n) [1..PAGE_COUNT]"
  by code_simp

text \<open>Going to a page ends on it, whatever the query was before; and every anchor is on a page there is.\<close>

lemma manual_reached:
  assumes "1 \<le> n" "n \<le> PAGE_COUNT" shows "manual_page (manual_go n q) = n"
proof -
  have "n \<in> set [1..PAGE_COUNT]" using assms by simp
  then have "manual_page (pageQuery n) = n" using page_of_query unfolding list_all_iff by blast
  then show ?thesis using assms by (simp add: manual_go_def)
qed

lemma anchors_reached:
  assumes "(anchor, n) \<in> set ANCHORS" shows "manual_page (manual_jump anchor q) = n"
proof -
  have "distinct (map fst ANCHORS)" by code_simp
  then have n: "map_of ANCHORS anchor = Some n" using assms by (rule map_of_is_SomeI)
  have "list_all (\<lambda>(_, k). manual_page (pageQuery k) = k) ANCHORS" by code_simp
  then have "manual_page (pageQuery n) = n" using assms by (auto simp: list_all_iff)
  then show ?thesis using n by (simp add: manual_jump_def orDefault_def)
qed

end
