(* ===== verification/Player.thy ===== *)
theory Player
  imports World
begin

text \<open>
  The live player of the dashboard, components/streams/Player.vue, and the tiles of
  components/streams/Grid.vue.

  An RTCPeerConnection is an entry of py_pcs, named by its index, with the attempt its handlers close
  over.  A call of startWebrtc is cut at its awaits: py_runs holds the stage each attempt waits in.  What
  the browser and the server do is an event.  The addresses of a stream are of any type: they are only
  passed on.  A resize with a width is a decoded frame; a video without srcObject has no width.
\<close>

section \<open>Player.vue\<close>

datatype player_status = Idle | Loading | Playing | PlayError

datatype pc_state = PcNew | PcConnecting | PcConnected | PcDisconnected | PcFailed | PcClosed

record peer =
  pc_attempt :: nat
  pc_state :: pc_state
  pc_answers :: "nat list"

datatype run_stage = AtOffer | AtLocal | AtFetch | AtText | AtRemote

datatype player_timer = ConnectTimer nat | FrameTimer nat

record 'u player =
  py_video :: bool
  py_src :: bool
  py_width :: nat
  py_decoded :: bool
  py_status :: player_status
  py_errorMsg :: string
  py_urls :: "'u option"
  py_pc :: "nat option"
  py_pcs :: "peer list"
  py_attempt :: nat
  py_timers :: "(nat, player_timer) jsmap"
  py_next :: nat
  py_watchdog :: "nat option"
  py_frameWatchdog :: "nat option"
  py_onFirstFrame :: "nat option"
  py_listeners :: "(nat, nat) jsmap"
  py_runs :: "(nat, run_stage) jsmap"
  py_stats :: "nat list"
  py_resolving :: nat

definition player_new :: "'u player" where
  "player_new = \<lparr>py_video = True, py_src = False, py_width = 0, py_decoded = False, py_status = Idle, py_errorMsg = [],
     py_urls = None, py_pc = None, py_pcs = [], py_attempt = 0, py_timers = [], py_next = 0, py_watchdog = None,
     py_frameWatchdog = None, py_onFirstFrame = None, py_listeners = [], py_runs = [], py_stats = [], py_resolving = 0\<rparr>"

definition clear_timer :: "nat option \<Rightarrow> (nat, player_timer) jsmap \<Rightarrow> (nat, player_timer) jsmap" where
  "clear_timer t ts = (case t of None \<Rightarrow> ts | Some i \<Rightarrow> map_del i ts)"

definition pc_close :: "nat option \<Rightarrow> peer list \<Rightarrow> peer list" where
  "pc_close i ps = (case i of None \<Rightarrow> ps | Some k \<Rightarrow> ps[k := (ps ! k)\<lparr>pc_state := PcClosed\<rparr>])"

text \<open>py_decoded records that a frame was shown since srcObject was last cleared.\<close>

definition teardown_player :: "'u player \<Rightarrow> 'u player" where
  "teardown_player p =
     (let gone = (py_onFirstFrame p \<noteq> None \<and> py_video p) in
      p\<lparr>py_timers := clear_timer (py_frameWatchdog p) (clear_timer (py_watchdog p) (py_timers p)),
        py_watchdog := None, py_frameWatchdog := None,
        py_listeners := (if gone then map_del (the (py_onFirstFrame p)) (py_listeners p) else py_listeners p),
        py_onFirstFrame := (if gone then None else py_onFirstFrame p),
        py_pcs := pc_close (py_pc p) (py_pcs p), py_pc := None,
        py_src := (py_src p \<and> \<not> py_video p), py_width := (if py_video p then 0 else py_width p),
        py_decoded := (py_decoded p \<and> \<not> py_video p)\<rparr>)"

definition player_fail :: "string \<Rightarrow> nat \<Rightarrow> 'u player \<Rightarrow> 'u player" where
  "player_fail reason a p =
     (if a \<noteq> py_attempt p then p
      else (teardown_player p)\<lparr>py_status := PlayError, py_errorMsg := ''WebRTC: '' @ reason\<rparr>)"

text \<open>made is the error of the constructor of the peer connection, if it throws.\<close>

definition startWebrtc :: "string option \<Rightarrow> 'u player \<Rightarrow> 'u player" where
  "startWebrtc made p0 =
     (let p = teardown_player p0 in
      if py_urls p = None \<or> \<not> py_video p then p
      else let a = Suc (py_attempt p);
               q = p\<lparr>py_attempt := a, py_status := Loading, py_errorMsg := []\<rparr>
        in case made of
             Some e \<Rightarrow> player_fail e a q
           | None \<Rightarrow> q\<lparr>py_pcs := py_pcs q @ [\<lparr>pc_attempt = a, pc_state = PcNew, pc_answers = []\<rparr>],
                 py_pc := Some (length (py_pcs q)), py_timers := map_put (py_next q) (ConnectTimer a) (py_timers q),
                 py_watchdog := Some (py_next q), py_next := Suc (py_next q), py_runs := map_put a AtOffer (py_runs q)\<rparr>)"

definition resolve_start :: "'u player \<Rightarrow> 'u player" where
  "resolve_start p = p\<lparr>py_status := Loading, py_resolving := Suc (py_resolving p)\<rparr>"

text \<open>The answer of resolveUrls and what onMounted and the watch do next.\<close>

definition resolve_done :: "string + 'u \<Rightarrow> string option \<Rightarrow> 'u player \<Rightarrow> 'u player" where
  "resolve_done r made p0 =
     (if py_resolving p0 = 0 then p0
      else let p = p0\<lparr>py_resolving := py_resolving p0 - 1\<rparr>;
               q = (case r of Inl m \<Rightarrow> p\<lparr>py_status := PlayError, py_errorMsg := m\<rparr> | Inr u \<Rightarrow> p\<lparr>py_urls := Some u\<rparr>)
        in if py_urls q = None then q else startWebrtc made q)"

definition retry :: "string option \<Rightarrow> 'u player \<Rightarrow> 'u player" where
  "retry made p = (if py_status p = PlayError then startWebrtc made p else p)"

text \<open>The part of startWebrtc after an await, as far as the next one.  The local and the remote description
  are set on the connection that pc holds then, which need not be the one of the attempt; the text of the
  TypeError is the engine's.\<close>

definition run_resume :: "nat \<Rightarrow> string option \<Rightarrow> 'u player \<Rightarrow> 'u player" where
  "run_resume a err p = (case map_get a (py_runs p) of
       None \<Rightarrow> p
     | Some s \<Rightarrow>
         let q = p\<lparr>py_runs := map_del a (py_runs p)\<rparr>;
             go = (\<lambda>s'. q\<lparr>py_runs := map_put a s' (py_runs p)\<rparr>);
             null = player_fail ''null is not an object'' a q
         in case err of
              Some e \<Rightarrow> player_fail e a q
            | None \<Rightarrow> (case s of
                AtOffer \<Rightarrow> if py_pc p = None then null else go AtLocal
              | AtLocal \<Rightarrow> go AtFetch
              | AtFetch \<Rightarrow> go AtText
              | AtText \<Rightarrow> (case py_pc p of
                    None \<Rightarrow> null
                  | Some i \<Rightarrow> (go AtRemote)\<lparr>py_pcs := (py_pcs p)[i := (py_pcs p ! i)
                      \<lparr>pc_answers := pc_answers (py_pcs p ! i) @ [a]\<rparr>]\<rparr>)
              | AtRemote \<Rightarrow> q))"

definition pc_track :: "nat \<Rightarrow> 'u player \<Rightarrow> 'u player" where
  "pc_track i p =
     (if length (py_pcs p) \<le> i \<or> pc_state (py_pcs p ! i) = PcClosed \<or> pc_attempt (py_pcs p ! i) \<noteq> py_attempt p
         \<or> \<not> py_video p then p
      else p\<lparr>py_src := True, py_width := 0\<rparr>)"

definition pc_connected :: "nat \<Rightarrow> 'u player \<Rightarrow> 'u player" where
  "pc_connected a p0 =
     (let p = p0\<lparr>py_timers := clear_timer (py_watchdog p0) (py_timers p0), py_watchdog := None\<rparr> in
      if py_video p \<and> 0 < py_width p then p\<lparr>py_status := Playing\<rparr>
      else p\<lparr>py_onFirstFrame := Some (py_next p),
             py_listeners := (if py_video p then map_put (py_next p) a (py_listeners p) else py_listeners p),
             py_timers := map_put (Suc (py_next p)) (FrameTimer a) (py_timers p),
             py_frameWatchdog := Some (Suc (py_next p)), py_next := Suc (Suc (py_next p))\<rparr>)"

text \<open>onconnectionstatechange; the script closes connections itself, and hears nothing of a closed one.\<close>

definition pc_change :: "nat \<Rightarrow> pc_state \<Rightarrow> 'u player \<Rightarrow> 'u player" where
  "pc_change i st p0 =
     (if length (py_pcs p0) \<le> i \<or> pc_state (py_pcs p0 ! i) = PcClosed \<or> st = PcClosed then p0
      else let p = p0\<lparr>py_pcs := (py_pcs p0)[i := (py_pcs p0 ! i)\<lparr>pc_state := st\<rparr>]\<rparr>; a = pc_attempt (py_pcs p0 ! i)
        in if a \<noteq> py_attempt p \<or> py_pc p = None then p
           else if st = PcConnected then pc_connected a p
           else if st = PcFailed then player_fail ''WebRTC connection failed (UDP to the node blocked?)'' a p
           else p)"

definition first_frame :: "nat \<Rightarrow> 'u player \<Rightarrow> 'u player" where
  "first_frame a p =
     (if a \<noteq> py_attempt p \<or> \<not> py_video p \<or> py_width p = 0 then p
      else p\<lparr>py_timers := clear_timer (py_frameWatchdog p) (py_timers p), py_frameWatchdog := None, py_status := Playing\<rparr>)"

definition video_resize :: "nat \<Rightarrow> 'u player \<Rightarrow> 'u player" where
  "video_resize w p =
     (if \<not> py_video p \<or> \<not> py_src p \<or> w = 0 then p
      else fold (\<lambda>(_, a). first_frame a) (py_listeners p) (p\<lparr>py_width := w, py_decoded := True\<rparr>))"

definition timer_fires :: "nat \<Rightarrow> 'u player \<Rightarrow> 'u player" where
  "timer_fires t p = (case map_get t (py_timers p) of
       None \<Rightarrow> p
     | Some k \<Rightarrow>
         let q = p\<lparr>py_timers := map_del t (py_timers p)\<rparr> in
         (case k of
            ConnectTimer a \<Rightarrow> if a \<noteq> py_attempt q \<or> py_pc q = None then q
              else if pc_state (py_pcs q ! the (py_pc q)) \<noteq> PcConnected
              then player_fail (''connect timeout '' @ EM_DASH @ '' is udp open to the node?'') a q else q
          | FrameTimer a \<Rightarrow> if a \<noteq> py_attempt q \<or> py_pc q = None then q
              else q\<lparr>py_stats := a # py_stats q\<rparr>))"

text \<open>getStats answers, or fails; diag is what was made of it, with the advice that follows.\<close>

definition stats_answer :: "nat \<Rightarrow> string \<Rightarrow> 'u player \<Rightarrow> 'u player" where
  "stats_answer a diag p =
     (if a \<notin> set (py_stats p) then p
      else player_fail (''connected but no video frames'' @ diag) a (p\<lparr>py_stats := remove1 a (py_stats p)\<rparr>))"

definition player_unmount :: "'u player \<Rightarrow> 'u player" where
  "player_unmount p = (teardown_player p)\<lparr>py_video := False\<rparr>"

datatype 'u player_event =
    Resolve | Resolved "string + 'u" "string option" | Retry "string option" | Resume nat "string option"
  | Track nat | Change nat pc_state | Resize nat | Fire nat | Stats nat string | Unmount

fun player_exec :: "'u player_event \<Rightarrow> 'u player \<Rightarrow> 'u player" where
  "player_exec Resolve p = resolve_start p"
| "player_exec (Resolved r made) p = resolve_done r made p"
| "player_exec (Retry made) p = retry made p"
| "player_exec (Resume a err) p = run_resume a err p"
| "player_exec (Track i) p = pc_track i p"
| "player_exec (Change i st) p = pc_change i st p"
| "player_exec (Resize w) p = video_resize w p"
| "player_exec (Fire t) p = timer_fires t p"
| "player_exec (Stats a d) p = stats_answer a d p"
| "player_exec Unmount p = player_unmount p"

definition player_after :: "'u player_event list \<Rightarrow> 'u player" where
  "player_after es = fold player_exec es player_new"


section \<open>What every history of the player keeps\<close>

text \<open>At most one connection is open, the one that is held, and it is of the latest attempt; a player that
  shows itself playing has shown a frame of it; and one that shows itself connecting has a timer that
  will end it.\<close>

definition peers_ok :: "'u player \<Rightarrow> bool" where
  "peers_ok p \<longleftrightarrow> (\<forall>i<length (py_pcs p). pc_state (py_pcs p ! i) \<noteq> PcClosed \<longrightarrow> py_pc p = Some i)
     \<and> (\<forall>i. py_pc p = Some i \<longrightarrow>
          i < length (py_pcs p) \<and> pc_attempt (py_pcs p ! i) = py_attempt p \<and> pc_state (py_pcs p ! i) \<noteq> PcClosed)"

definition frames_ok :: "'u player \<Rightarrow> bool" where
  "frames_ok p \<longleftrightarrow> (py_src p \<longrightarrow> py_pc p \<noteq> None) \<and> (0 < py_width p \<longrightarrow> py_decoded p)
     \<and> (py_status p = Playing \<longrightarrow> py_decoded p \<and> py_pc p \<noteq> None)"

definition guarded_load :: "'u player \<Rightarrow> bool" where
  "guarded_load p \<longleftrightarrow> py_pc p \<noteq> None
     \<and> (pc_state (py_pcs p ! the (py_pc p)) \<noteq> PcConnected
          \<and> Option.bind (py_watchdog p) (\<lambda>t. map_get t (py_timers p)) = Some (ConnectTimer (py_attempt p))
      \<or> Option.bind (py_frameWatchdog p) (\<lambda>t. map_get t (py_timers p)) = Some (FrameTimer (py_attempt p))
      \<or> py_attempt p \<in> set (py_stats p))"

definition player_ok :: "'u player \<Rightarrow> bool" where
  "player_ok p \<longleftrightarrow> peers_ok p \<and> (py_video p \<longrightarrow> frames_ok p \<and> (py_status p = Loading \<and> py_resolving p = 0 \<longrightarrow> guarded_load p))"

lemma player_teardown_frame [simp]:
  "py_video (teardown_player p) = py_video p" "py_status (teardown_player p) = py_status p" "py_urls (teardown_player p) = py_urls p"
  "py_attempt (teardown_player p) = py_attempt p" "py_pc (teardown_player p) = None" "py_stats (teardown_player p) = py_stats p"
  "py_resolving (teardown_player p) = py_resolving p" "py_next (teardown_player p) = py_next p" "py_runs (teardown_player p) = py_runs p"
  "py_video p \<Longrightarrow> \<not> py_src (teardown_player p)" "py_video p \<Longrightarrow> py_width (teardown_player p) = 0"
  "length (py_pcs (teardown_player p)) = length (py_pcs p)"
  by (auto simp: teardown_player_def Let_def pc_close_def split: option.split)

lemma teardown_closes:
  assumes "peers_ok p" "i < length (py_pcs p)"
  shows "pc_state (py_pcs (teardown_player p) ! i) = PcClosed"
proof (cases "py_pc p")
  case None
  then show ?thesis using assms by (auto simp: peers_ok_def teardown_player_def Let_def pc_close_def)
next
  case (Some k)
  then have "pc_state (py_pcs p ! i) = PcClosed" if "i \<noteq> k" using assms that by (auto simp: peers_ok_def)
  then show ?thesis using assms(2) Some by (cases "i = k") (simp_all add: teardown_player_def Let_def pc_close_def)
qed

lemma peers_ok_teardown: "peers_ok p \<Longrightarrow> peers_ok (teardown_player p)"
  using teardown_closes [of p] unfolding peers_ok_def [of "teardown_player p"] by simp

lemma peers_ok_cong:
  "py_pcs q = py_pcs p \<Longrightarrow> py_pc q = py_pc p \<Longrightarrow> py_attempt q = py_attempt p \<Longrightarrow> peers_ok q = peers_ok p"
  by (simp add: peers_ok_def)

lemma peers_ok_frame [simp]:
  "peers_ok (p\<lparr>py_video := v1\<rparr>) = peers_ok p" "peers_ok (p\<lparr>py_src := v2\<rparr>) = peers_ok p" "peers_ok (p\<lparr>py_width := v3\<rparr>) = peers_ok p"
  "peers_ok (p\<lparr>py_decoded := v4\<rparr>) = peers_ok p" "peers_ok (p\<lparr>py_status := v5\<rparr>) = peers_ok p"
  "peers_ok (p\<lparr>py_errorMsg := v6\<rparr>) = peers_ok p" "peers_ok (p\<lparr>py_urls := v7\<rparr>) = peers_ok p"
  "peers_ok (p\<lparr>py_timers := v8\<rparr>) = peers_ok p" "peers_ok (p\<lparr>py_next := v9\<rparr>) = peers_ok p"
  "peers_ok (p\<lparr>py_watchdog := v10\<rparr>) = peers_ok p" "peers_ok (p\<lparr>py_frameWatchdog := v10\<rparr>) = peers_ok p"
  "peers_ok (p\<lparr>py_onFirstFrame := v10\<rparr>) = peers_ok p" "peers_ok (p\<lparr>py_listeners := v11\<rparr>) = peers_ok p"
  "peers_ok (p\<lparr>py_runs := v12\<rparr>) = peers_ok p" "peers_ok (p\<lparr>py_stats := v13\<rparr>) = peers_ok p"
  "peers_ok (p\<lparr>py_resolving := v9\<rparr>) = peers_ok p"
  by (simp_all add: peers_ok_def)

lemma peers_okD:
  assumes "peers_ok p"
  shows "py_pc p = Some i \<Longrightarrow> i < length (py_pcs p) \<and> pc_attempt (py_pcs p ! i) = py_attempt p \<and> pc_state (py_pcs p ! i) \<noteq> PcClosed"
    and "i < length (py_pcs p) \<Longrightarrow> pc_state (py_pcs p ! i) \<noteq> PcClosed \<Longrightarrow> py_pc p = Some i"
  using assms unfolding peers_ok_def by blast+

lemma peers_ok_update:
  assumes "peers_ok p" "py_pc p = Some i" "pc_attempt x = py_attempt p" "pc_state x \<noteq> PcClosed"
  shows "peers_ok (p\<lparr>py_pcs := (py_pcs p)[i := x]\<rparr>)"
  unfolding peers_ok_def
proof (intro conjI allI impI)
  fix k
  assume "k < length (py_pcs (p\<lparr>py_pcs := (py_pcs p)[i := x]\<rparr>))" "pc_state (py_pcs (p\<lparr>py_pcs := (py_pcs p)[i := x]\<rparr>) ! k) \<noteq> PcClosed"
  then show "py_pc (p\<lparr>py_pcs := (py_pcs p)[i := x]\<rparr>) = Some k"
    using peers_okD(2) [OF assms(1), of k] assms(2) by (cases "k = i") simp_all
next
  fix k
  assume "py_pc (p\<lparr>py_pcs := (py_pcs p)[i := x]\<rparr>) = Some k"
  then show "k < length (py_pcs (p\<lparr>py_pcs := (py_pcs p)[i := x]\<rparr>))"
    and "pc_attempt (py_pcs (p\<lparr>py_pcs := (py_pcs p)[i := x]\<rparr>) ! k) = py_attempt (p\<lparr>py_pcs := (py_pcs p)[i := x]\<rparr>)"
    and "pc_state (py_pcs (p\<lparr>py_pcs := (py_pcs p)[i := x]\<rparr>) ! k) \<noteq> PcClosed"
    using peers_okD(1) [OF assms(1,2)] assms(2-4) by simp_all
qed

lemma player_fail_ok:
  assumes "peers_ok p" "a \<noteq> py_attempt p \<Longrightarrow> player_ok p"
  shows "player_ok (player_fail e a p)"
  using assms peers_ok_teardown [of p]
  by (auto simp: player_fail_def player_ok_def frames_ok_def)

lemma startWebrtc_ok:
  assumes "peers_ok p" "py_video p \<Longrightarrow> py_urls p = None \<Longrightarrow> py_status p = PlayError"
  shows "player_ok (startWebrtc made p)"
proof -
  define t where "t = teardown_player p"
  have t: "peers_ok t" "py_pc t = None" "\<And>i. i < length (py_pcs t) \<Longrightarrow> pc_state (py_pcs t ! i) = PcClosed"
    using peers_ok_teardown [OF assms(1)] teardown_closes [OF assms(1)] by (simp_all add: t_def)
  show ?thesis
  proof (cases "py_urls t = None \<or> \<not> py_video t")
    case True
    then have "startWebrtc made p = t" by (simp add: startWebrtc_def Let_def t_def)
    then show ?thesis using True t assms(2) by (auto simp: player_ok_def frames_ok_def t_def)
  next
    case False
    define q where "q = t\<lparr>py_attempt := Suc (py_attempt t), py_status := Loading, py_errorMsg := []\<rparr>"
    have q: "peers_ok q" "py_attempt q = Suc (py_attempt t)" using t(2,3) by (auto simp: peers_ok_def q_def)
    show ?thesis
    proof (cases made)
      case (Some e)
      have "startWebrtc made p = player_fail e (Suc (py_attempt t)) q"
        unfolding startWebrtc_def Let_def t_def [symmetric] q_def [symmetric] Some using False by auto
      then show ?thesis using player_fail_ok [OF q(1)] q(2) by simp
    next
      case None
      define r where "r = q\<lparr>py_pcs := py_pcs q @ [\<lparr>pc_attempt = py_attempt q, pc_state = PcNew, pc_answers = []\<rparr>],
         py_pc := Some (length (py_pcs q)), py_timers := map_put (py_next q) (ConnectTimer (py_attempt q)) (py_timers q),
         py_watchdog := Some (py_next q), py_next := Suc (py_next q), py_runs := map_put (py_attempt q) AtOffer (py_runs q)\<rparr>"
      have r: "startWebrtc made p = r"
        using False by (auto simp: startWebrtc_def Let_def t_def [symmetric] q_def r_def None)
      have "pc_state (py_pcs r ! i) = PcClosed" if "i < length (py_pcs t)" for i
        using t(3) [OF that] that by (simp add: r_def q_def nth_append)
      then have "peers_ok r"
        unfolding peers_ok_def by (simp add: r_def less_Suc_eq) (simp add: q_def)
      moreover have "frames_ok r" using False by (simp add: frames_ok_def r_def q_def t_def)
      moreover have "guarded_load r" by (simp add: guarded_load_def r_def map_get_put)
      ultimately show ?thesis by (simp add: r player_ok_def)
    qed
  qed
qed

lemma first_frame_peers [simp]:
  "py_pcs (first_frame a p) = py_pcs p" "py_pc (first_frame a p) = py_pc p" "py_attempt (first_frame a p) = py_attempt p"
  "py_video (first_frame a p) = py_video p" "py_src (first_frame a p) = py_src p" "py_width (first_frame a p) = py_width p"
  "py_decoded (first_frame a p) = py_decoded p" "py_resolving (first_frame a p) = py_resolving p"
  by (simp_all add: first_frame_def)

lemma first_frame_ok: "player_ok p \<Longrightarrow> py_src p \<Longrightarrow> player_ok (first_frame a p)"
  by (simp add: player_ok_def peers_ok_cong [of "first_frame a p" p])
    (auto simp: frames_ok_def guarded_load_def first_frame_def)

lemma first_frames_ok: "player_ok p \<Longrightarrow> py_src p \<Longrightarrow> player_ok (fold (\<lambda>(_, a). first_frame a) ls p)"
proof (induction ls arbitrary: p)
  case (Cons l ls)
  then show ?case using first_frame_ok [of p "snd l"] by (auto simp: case_prod_unfold)
qed simp

lemma run_resume_ok: "player_ok p \<Longrightarrow> player_ok (run_resume a err p)"
proof -
  assume ok: "player_ok p"
  have same: "player_ok (p\<lparr>py_runs := m\<rparr>)" for m
    using ok by (simp add: player_ok_def frames_ok_def guarded_load_def)
  have fail: "player_ok (player_fail e b (p\<lparr>py_runs := m\<rparr>))" for e b m
  proof (rule player_fail_ok)
    show "peers_ok (p\<lparr>py_runs := m\<rparr>)" using ok by (simp add: player_ok_def)
  qed (rule same)
  have noted: "player_ok (p\<lparr>py_runs := m, py_pcs := (py_pcs p)[i := (py_pcs p ! i)\<lparr>pc_answers := xs\<rparr>]\<rparr>)"
    if i: "py_pc p = Some i" for i m xs
  proof -
    have held: "pc_attempt (py_pcs p ! i) = py_attempt p" "pc_state (py_pcs p ! i) \<noteq> PcClosed" "i < length (py_pcs p)"
      using ok i peers_okD(1) [of p i] by (auto simp: player_ok_def)
    have "peers_ok (p\<lparr>py_runs := m, py_pcs := (py_pcs (p\<lparr>py_runs := m\<rparr>))[i := (py_pcs p ! i)\<lparr>pc_answers := xs\<rparr>]\<rparr>)"
      using ok i held by (intro peers_ok_update) (simp_all add: player_ok_def)
    then show ?thesis using ok held(3) i by (simp add: player_ok_def frames_ok_def guarded_load_def)
  qed
  show ?thesis
    using ok same fail noted by (auto simp: run_resume_def Let_def split: option.split run_stage.split)
qed

lemma pc_track_ok:
  assumes "player_ok p" shows "player_ok (pc_track i p)"
proof (cases "length (py_pcs p) \<le> i \<or> pc_state (py_pcs p ! i) = PcClosed \<or> pc_attempt (py_pcs p ! i) \<noteq> py_attempt p \<or> \<not> py_video p")
  case False
  then have "py_pc p = Some i" using assms peers_okD(2) [of p i] by (auto simp: player_ok_def)
  then show ?thesis using assms False by (simp add: pc_track_def player_ok_def frames_ok_def guarded_load_def)
qed (use assms in \<open>auto simp: pc_track_def\<close>)

lemma pc_connected_ok:
  assumes "peers_ok p" "py_video p \<Longrightarrow> frames_ok p" "py_pc p \<noteq> None"
  shows "player_ok (pc_connected (py_attempt p) p)"
  using assms
  by (auto simp: pc_connected_def Let_def player_ok_def frames_ok_def guarded_load_def map_get_put)

lemma pc_change_ok:
  assumes "player_ok p0" shows "player_ok (pc_change i st p0)"
proof (cases "length (py_pcs p0) \<le> i \<or> pc_state (py_pcs p0 ! i) = PcClosed \<or> st = PcClosed")
  case True
  then show ?thesis using assms by (auto simp: pc_change_def)
next
  case False
  define p where "p = p0\<lparr>py_pcs := (py_pcs p0)[i := (py_pcs p0 ! i)\<lparr>pc_state := st\<rparr>]\<rparr>"
  have held: "py_pc p0 = Some i" "pc_attempt (py_pcs p0 ! i) = py_attempt p0" "i < length (py_pcs p0)"
    using assms False peers_okD [of p0 i] by (auto simp: player_ok_def)
  have p: "peers_ok p" "py_video p \<Longrightarrow> frames_ok p" "py_pc p = Some i" "py_attempt p = py_attempt p0"
    using assms False held peers_ok_update [of p0 i "(py_pcs p0 ! i)\<lparr>pc_state := st\<rparr>"]
    by (simp_all add: p_def player_ok_def frames_ok_def)
  have ok: "player_ok p" if "st \<noteq> PcConnected"
    using assms p(1,2) held that by (auto simp: player_ok_def guarded_load_def p_def)
  have step: "pc_change i st p0 = (if st = PcConnected then pc_connected (py_attempt p) p
      else if st = PcFailed then player_fail ''WebRTC connection failed (UDP to the node blocked?)'' (py_attempt p) p else p)"
    using False held by (auto simp: pc_change_def p_def Let_def)
  show ?thesis
    using pc_connected_ok [OF p(1,2)] player_fail_ok [OF p(1)] ok p(3) unfolding step by auto
qed

lemma video_resize_ok:
  assumes "player_ok p" shows "player_ok (video_resize w p)"
proof (cases "\<not> py_video p \<or> \<not> py_src p \<or> w = 0")
  case False
  have "player_ok (p\<lparr>py_width := w, py_decoded := True\<rparr>)"
    using assms False by (auto simp: player_ok_def frames_ok_def guarded_load_def)
  then show ?thesis using False first_frames_ok [of "p\<lparr>py_width := w, py_decoded := True\<rparr>"] by (simp add: video_resize_def)
qed (use assms in \<open>auto simp: video_resize_def\<close>)

lemma timer_fires_ok:
  assumes "player_ok p" shows "player_ok (timer_fires t p)"
proof (cases "map_get t (py_timers p)")
  case (Some k)
  define q where "q = p\<lparr>py_timers := map_del t (py_timers p)\<rparr>"
  have q: "peers_ok q" "py_video q \<Longrightarrow> frames_ok q" using assms by (auto simp: q_def player_ok_def frames_ok_def)
  have stale: "player_ok q"
    if "k = ConnectTimer a \<and> (a \<noteq> py_attempt p \<or> py_pc p = None \<or> pc_state (py_pcs p ! the (py_pc p)) = PcConnected)
      \<or> k = FrameTimer a \<and> (a \<noteq> py_attempt p \<or> py_pc p = None)" for a
  proof -
    have "guarded_load q" if "guarded_load p"
      using that \<open>k = ConnectTimer a \<and> _ \<or> _\<close> Some
      by (cases "py_watchdog p"; cases "py_frameWatchdog p") (auto simp: q_def guarded_load_def map_get_del)
    then show ?thesis using assms q by (auto simp: q_def player_ok_def)
  qed
  have told: "player_ok (q\<lparr>py_stats := a # py_stats q\<rparr>)" if "a = py_attempt p" "py_pc p \<noteq> None" for a
    using q that by (auto simp: q_def player_ok_def frames_ok_def guarded_load_def)
  show ?thesis
  proof (cases k)
    case (ConnectTimer a)
    then show ?thesis using Some stale [of a] player_fail_ok [OF q(1), of a]
      by (auto simp: timer_fires_def q_def [symmetric] Let_def) (auto simp: q_def)
  next
    case (FrameTimer a)
    then show ?thesis using Some stale [of a] told [of a]
      by (auto simp: timer_fires_def q_def [symmetric] Let_def) (auto simp: q_def)
  qed
qed (use assms in \<open>simp add: timer_fires_def\<close>)

lemma player_exec_ok: "player_ok p \<Longrightarrow> player_ok (player_exec e p)"
proof (cases e)
  case Resolve
  moreover assume "player_ok p"
  ultimately show ?thesis by (auto simp: resolve_start_def player_ok_def frames_ok_def guarded_load_def)
next
  case (Resolved r made)
  assume ok: "player_ok p"
  show ?thesis
  proof (cases "py_resolving p = 0")
    case False
    define q where "q = (case r of
        Inl m \<Rightarrow> p\<lparr>py_resolving := py_resolving p - 1, py_status := PlayError, py_errorMsg := m\<rparr>
      | Inr u \<Rightarrow> p\<lparr>py_resolving := py_resolving p - 1, py_urls := Some u\<rparr>)"
    have q: "peers_ok q" "py_urls q = None \<Longrightarrow> py_status q = PlayError" "py_video q \<Longrightarrow> py_urls q = None \<Longrightarrow> frames_ok q"
      using ok by (auto simp: q_def player_ok_def frames_ok_def split: sum.splits)
    have "player_exec e p = (if py_urls q = None then q else startWebrtc made q)"
      using False by (auto simp: Resolved resolve_done_def Let_def q_def split: sum.split)
    then show ?thesis using startWebrtc_ok [OF q(1)] q by (auto simp: player_ok_def)
  qed (use ok Resolved in \<open>simp add: resolve_done_def\<close>)
next
  case (Retry made)
  moreover assume "player_ok p"
  ultimately show ?thesis using startWebrtc_ok [of p made] by (auto simp: retry_def player_ok_def)
next
  case (Stats a d)
  assume ok: "player_ok p"
  have "player_ok (player_fail m a (p\<lparr>py_stats := remove1 a (py_stats p)\<rparr>))" for m
  proof (rule player_fail_ok)
    show "peers_ok (p\<lparr>py_stats := remove1 a (py_stats p)\<rparr>)" using ok by (simp add: player_ok_def)
    show "player_ok (p\<lparr>py_stats := remove1 a (py_stats p)\<rparr>)"
      if "a \<noteq> py_attempt (p\<lparr>py_stats := remove1 a (py_stats p)\<rparr>)"
      using ok that by (auto simp: player_ok_def frames_ok_def guarded_load_def)
  qed
  then show ?thesis using ok by (simp add: Stats stats_answer_def)
next
  case Unmount
  moreover assume "player_ok p"
  ultimately show ?thesis using peers_ok_teardown [of p] by (simp add: player_unmount_def player_ok_def)
qed (simp_all add: run_resume_ok pc_track_ok pc_change_ok video_resize_ok timer_fires_ok)

text \<open>In every history of the player, as long as it is on the page: every connection but the one it holds is
  closed; it shows itself playing only with a connection of the latest attempt, of which a frame has been
  shown; and while it shows itself connecting, and no address is being asked for, a timer of the latest
  attempt (or the statistics it asked for) will end that, so it is never stuck.\<close>

theorem player_honest:
  assumes "p = player_after es" "py_video p"
  shows "(\<forall>i<length (py_pcs p). pc_state (py_pcs p ! i) \<noteq> PcClosed \<longrightarrow> py_pc p = Some i \<and> pc_attempt (py_pcs p ! i) = py_attempt p)
    \<and> (py_status p = Playing \<longrightarrow> py_decoded p \<and> py_pc p \<noteq> None)
    \<and> (py_status p = Loading \<longrightarrow> 0 < py_resolving p
        \<or> (\<exists>t k. map_get t (py_timers p) = Some k \<and> k \<in> {ConnectTimer (py_attempt p), FrameTimer (py_attempt p)})
        \<or> py_attempt p \<in> set (py_stats p))"
proof -
  have "player_ok (fold player_exec es q)" if "player_ok q" for q :: "'a player"
    using that by (induction es arbitrary: q) (simp_all add: player_exec_ok)
  moreover have "player_ok (player_new :: 'a player)" by (simp add: player_ok_def peers_ok_def frames_ok_def player_new_def)
  ultimately have "player_ok p" by (simp add: assms(1) player_after_def)
  then have ok: "peers_ok p" "frames_ok p" "py_status p = Loading \<Longrightarrow> py_resolving p = 0 \<Longrightarrow> guarded_load p"
    using assms(2) by (auto simp: player_ok_def)
  have "py_pc p = Some i \<and> pc_attempt (py_pcs p ! i) = py_attempt p"
    if "i < length (py_pcs p)" "pc_state (py_pcs p ! i) \<noteq> PcClosed" for i
    using peers_okD [OF ok(1)] that by blast
  moreover have "0 < py_resolving p
      \<or> (\<exists>t k. map_get t (py_timers p) = Some k \<and> k \<in> {ConnectTimer (py_attempt p), FrameTimer (py_attempt p)})
      \<or> py_attempt p \<in> set (py_stats p)" if "py_status p = Loading"
    using ok(3) [OF that] unfolding guarded_load_def bind_eq_Some_conv by blast
  ultimately show ?thesis using ok(2) by (auto simp: frames_ok_def)
qed

text \<open>The token is not looked at after the awaits: the answer fetched for a stream that was left is set on
  the connection of the next one.\<close>

definition switched :: "string player_event list" where
  "switched = [Resolve, Resolved (Inr ''a'') None, Resume 1 None, Resume 1 None,
     Resolve, Resolved (Inr ''b'') None, Resume 2 None, Resume 2 None, Resume 1 None, Resume 1 None]"

lemma late_answer_applied:
  "let p = player_after switched in
     py_urls p = Some ''b'' \<and> py_pc p = Some 1 \<and> pc_attempt (py_pcs p ! 1) = 2 \<and> pc_answers (py_pcs p ! 1) = [1]"
  by code_simp

text \<open>The connection then takes no second answer, so the stream that was switched to ends in an error.\<close>

lemma late_answer_fails:
  "py_status (player_after (switched @ [Resume 2 None, Resume 2 None, Resume 2 (Some ''InvalidStateError'')])) = PlayError"
  by code_simp

text \<open>When the address of the next stream cannot be had, the player starts the one it had before.\<close>

definition unresolved :: "string player_event list" where
  "unresolved = [Resolve, Resolved (Inr ''a'') None, Resolve, Resolved (Inl ''forbidden'') None]"

lemma old_address_played:
  "let p = player_after unresolved in
     py_urls p = Some ''a'' \<and> py_status p = Loading \<and> py_pc p = Some 1 \<and> py_errorMsg p = []"
  by code_simp

text \<open>A connection that connects twice before its first frame leaves the first frame timer running, which
  ends the player while it plays.\<close>

definition reconnected_player :: "string player_event list" where
  "reconnected_player = [Resolve, Resolved (Inr ''a'') None, Track 0, Change 0 PcConnected, Change 0 PcDisconnected,
     Change 0 PcConnected, Resize 640]"

lemma playing_then_failed:
  "py_status (player_after reconnected_player) = Playing
   \<and> py_status (player_after (reconnected_player @ [Fire 2, Stats 1 []])) = PlayError"
  by code_simp

theorem player_honest_witness:
  "py_status (player_after reconnected_player) = Playing \<and> py_decoded (player_after reconnected_player)"
proof -
  have "py_video (player_after reconnected_player)" "py_status (player_after reconnected_player) = Playing" by code_simp+
  then show ?thesis using player_honest [of _ reconnected_player] by blast
qed


section \<open>Grid.vue\<close>

text \<open>starts holds the calls of startTile that wait, with the connection they made, if they have made it;
  open_pcs are the connections that were made and not closed.  posters is the last frame of a tile; a
  frame is any value.\<close>

record 'f grid =
  gd_tiles :: "string list"
  gd_width :: "string \<Rightarrow> nat"
  gd_playing :: "string list"
  gd_framed :: "string list"
  gd_posters :: "(string, 'f) jsmap"
  gd_players :: "(string, nat) jsmap"
  gd_starts :: "(nat \<times> string \<times> nat option) list"
  gd_open :: "nat list"
  gd_next :: nat
  gd_playAll :: bool

definition grid_new :: "string list \<Rightarrow> 'f grid" where
  "grid_new names = \<lparr>gd_tiles = names, gd_width = (\<lambda>_. 0), gd_playing = [], gd_framed = [], gd_posters = [], gd_players = [],
     gd_starts = [], gd_open = [], gd_next = 0, gd_playAll = False\<rparr>"

definition capturePoster :: "(string \<Rightarrow> 'f) \<Rightarrow> string \<Rightarrow> 'f grid \<Rightarrow> 'f grid" where
  "capturePoster frame name g =
     (if name \<notin> set (gd_tiles g) \<or> gd_width g name = 0 then g
      else g\<lparr>gd_posters := map_put name (frame name) (gd_posters g)\<rparr>)"

text \<open>startTile up to its first await.\<close>

definition startTile :: "string \<Rightarrow> 'f grid \<Rightarrow> 'f grid" where
  "startTile name g =
     (if name \<in> set (gd_playing g) \<or> name \<notin> set (gd_tiles g) then g
      else g\<lparr>gd_playing := gd_playing g @ [name], gd_starts := gd_starts g @ [(gd_next g, name, None)], gd_next := Suc (gd_next g)\<rparr>)"

definition stopTile :: "(string \<Rightarrow> 'f) \<Rightarrow> string \<Rightarrow> 'f grid \<Rightarrow> 'f grid" where
  "stopTile frame name g0 =
     (let g = capturePoster frame name g0 in
      g\<lparr>gd_playing := removeAll name (gd_playing g), gd_framed := removeAll name (gd_framed g),
        gd_open := (case map_get name (gd_players g) of None \<Rightarrow> gd_open g | Some pc \<Rightarrow> removeAll pc (gd_open g)),
        gd_players := map_del name (gd_players g), gd_width := (gd_width g)(name := 0)\<rparr>)"

text \<open>The address arrives and the connection is made; the answer is set; either may fail.  tile_frame is the
  resize that the listener of a start waits for.\<close>

definition tile_url :: "(string \<Rightarrow> 'f) \<Rightarrow> nat \<Rightarrow> bool \<Rightarrow> 'f grid \<Rightarrow> 'f grid" where
  "tile_url frame k got g = (case find (\<lambda>(i, _, pc). i = k \<and> pc = None) (gd_starts g) of
       None \<Rightarrow> g
     | Some (_, name, _) \<Rightarrow>
         let rest = filter (\<lambda>(i, _). i \<noteq> k) (gd_starts g) in
         if got then g\<lparr>gd_starts := rest @ [(k, name, Some (gd_next g))], gd_open := gd_next g # gd_open g, gd_next := Suc (gd_next g)\<rparr>
         else stopTile frame name (g\<lparr>gd_starts := rest\<rparr>))"

definition tile_answer :: "(string \<Rightarrow> 'f) \<Rightarrow> nat \<Rightarrow> bool \<Rightarrow> 'f grid \<Rightarrow> 'f grid" where
  "tile_answer frame k got g = (case find (\<lambda>(i, _, pc). i = k \<and> pc \<noteq> None) (gd_starts g) of
       None \<Rightarrow> g
     | Some (_, name, pc) \<Rightarrow>
         let h = g\<lparr>gd_starts := filter (\<lambda>(i, _). i \<noteq> k) (gd_starts g)\<rparr> in
         if got then h\<lparr>gd_players := map_put name (the pc) (gd_players h)\<rparr> else stopTile frame name h)"

definition tile_frame :: "(string \<Rightarrow> 'f) \<Rightarrow> string \<Rightarrow> nat \<Rightarrow> 'f grid \<Rightarrow> 'f grid" where
  "tile_frame frame name w g =
     (let h = g\<lparr>gd_width := (gd_width g)(name := w)\<rparr> in
      if w = 0 then h else capturePoster frame name (h\<lparr>gd_framed := List.insert name (gd_framed h)\<rparr>))"

definition onEnter :: "string \<Rightarrow> 'f grid \<Rightarrow> 'f grid" where
  "onEnter name g = (if gd_playAll g then g else startTile name g)"

definition onLeave :: "(string \<Rightarrow> 'f) \<Rightarrow> string \<Rightarrow> 'f grid \<Rightarrow> 'f grid" where
  "onLeave frame name g = (if gd_playAll g then g else stopTile frame name g)"

definition stop_tiles :: "(string \<Rightarrow> 'f) \<Rightarrow> (string \<Rightarrow> bool) \<Rightarrow> 'f grid \<Rightarrow> 'f grid" where
  "stop_tiles frame P g = fold (stopTile frame) (filter P (map fst (gd_players g))) g"

definition togglePlayAll :: "(string \<Rightarrow> 'f) \<Rightarrow> string list \<Rightarrow> 'f grid \<Rightarrow> 'f grid" where
  "togglePlayAll frame shown g0 =
     (let g = g0\<lparr>gd_playAll := \<not> gd_playAll g0\<rparr> in
      if gd_playAll g then fold startTile shown g else stop_tiles frame (\<lambda>_. True) g)"

text \<open>The page turns: the tiles of the next page are there when the watch runs.\<close>

definition page_turned :: "(string \<Rightarrow> 'f) \<Rightarrow> string list \<Rightarrow> 'f grid \<Rightarrow> 'f grid" where
  "page_turned frame shown g =
     (if gd_playAll g then fold startTile shown (stop_tiles frame (\<lambda>n. n \<notin> set shown) g) else g)"

definition grid_unmount :: "(string \<Rightarrow> 'f) \<Rightarrow> 'f grid \<Rightarrow> 'f grid" where
  "grid_unmount frame g = stop_tiles frame (\<lambda>_. True) g"

lemma stop_players: "gd_players (fold (stopTile frame) ns g) = filter (\<lambda>(n, _). n \<notin> set ns) (gd_players g)"
proof (induction ns arbitrary: g)
  case (Cons n ns)
  have "gd_players (stopTile frame n g) = map_del n (gd_players g)"
    by (simp add: stopTile_def Let_def capturePoster_def)
  then show ?case using Cons by (simp add: map_del_def case_prod_unfold conj_commute)
qed simp

lemma start_players [simp]: "gd_players (fold startTile ns g) = gd_players g" "gd_players (startTile n g) = gd_players g"
  by (induction ns arbitrary: g) (simp_all add: startTile_def)

text \<open>When all tiles play, turning the page leaves players on the tiles of the new page only, and leaving the
  grid leaves none.\<close>

lemma page_players:
  "gd_playAll g \<Longrightarrow> fst ` set (gd_players (page_turned frame shown g)) = fst ` set (gd_players g) \<inter> set shown"
  "gd_players (grid_unmount frame g) = []"
  by (auto simp: page_turned_def grid_unmount_def stop_tiles_def stop_players filter_empty_conv image_iff)

text \<open>A tile that is left while it starts is not stopped: its connection is made and kept afterwards.  The next
  time it starts, the entry is overwritten, and no later stop closes the first connection.\<close>

definition hovered :: "unit grid" where
  "hovered = tile_answer (\<lambda>_. ()) 0 True (tile_url (\<lambda>_. ()) 0 True (onLeave (\<lambda>_. ()) ''a'' (onEnter ''a'' (grid_new [''a'']))))"

lemma left_tile_plays: "gd_playing hovered = [] \<and> gd_players hovered = [(''a'', 1)] \<and> gd_open hovered = [1]"
  by code_simp

lemma left_tile_leaks:
  "gd_open (grid_unmount (\<lambda>_. ()) (tile_answer (\<lambda>_. ()) 2 True (tile_url (\<lambda>_. ()) 2 True (onEnter ''a'' hovered)))) = [1]"
  by code_simp

text \<open>A start that fails after its connection was made leaves the connection open.\<close>

lemma failed_tile_leaks:
  "gd_open (tile_answer (\<lambda>_. ()) 0 False (tile_url (\<lambda>_. ()) 0 True (onEnter ''a'' (grid_new [''a''])))) = [1]"
  by code_simp

end
