(* ===== verification/Startup.thy ===== *)
theory Startup
  imports Prelude
begin

text \<open>
  database/db.ts: how the live SQLite file is brought to the schema before anything reads it.  The schema
  is a list of tables with their columns, a live file the list of its tables with the names of their
  columns.  drizzle-kit push is a parameter: its exit code and the file it leaves, which need not be what
  it was asked for.
\<close>

text \<open>A default that is not a number, a boolean or a text is an SQL literal; one that the code computes leaves
  hasDefault without a default.\<close>

datatype col_default = NumberDefault rat | BoolDefault bool | TextDefault string | SqlDefault

record column =
  cl_name :: string
  cl_type :: string
  cl_notNull :: bool
  cl_hasDefault :: bool
  cl_default :: "col_default option"

type_synonym table_def = "string \<times> column list"
type_synonym live_file = "(string \<times> string list) list"

definition live_columns :: "string \<Rightarrow> live_file \<Rightarrow> string list" where
  "live_columns t f = orDefault (map_of f t) []"

text \<open>The ADD COLUMN that is emitted: whether it says NOT NULL, and whether it has a DEFAULT; None for a column
  that is left alone.\<close>

definition heal_ddl :: "column \<Rightarrow> (bool \<times> bool) option" where
  "heal_ddl c =
     (if cl_notNull c \<and> \<not> cl_hasDefault c then None
      else if \<not> cl_hasDefault c then Some (cl_notNull c, False)
      else case cl_default c of
             None \<Rightarrow> Some (cl_notNull c, False)
           | Some SqlDefault \<Rightarrow> if cl_notNull c then None else Some (False, False)
           | Some _ \<Rightarrow> Some (cl_notNull c, True))"

text \<open>ALTER TABLE as SQLite runs it: the table must exist, and NOT NULL needs a DEFAULT.\<close>

definition add_column :: "string \<Rightarrow> string \<Rightarrow> bool \<times> bool \<Rightarrow> live_file \<Rightarrow> string + live_file" where
  "add_column t c d f =
     (if map_of f t = None then Inl (''no such table: '' @ t)
      else if fst d \<and> \<not> snd d then Inl ''Cannot add a NOT NULL column with default value NULL''
      else Inr (map (\<lambda>(u, cs). if u = t then (u, cs @ [c]) else (u, cs)) f))"

text \<open>The columns of one table; live are those it had when the table was come to.\<close>

fun ensure_table :: "string \<Rightarrow> string list \<Rightarrow> column list \<Rightarrow> live_file \<Rightarrow> string + live_file" where
  "ensure_table t live [] f = Inr f"
| "ensure_table t live (c # cs) f =
     (if cl_name c \<in> set live then ensure_table t live cs f
      else case heal_ddl c of
             None \<Rightarrow> ensure_table t live cs f
           | Some d \<Rightarrow> (case add_column t (cl_name c) d f of Inl e \<Rightarrow> Inl e | Inr f' \<Rightarrow> ensure_table t live cs f'))"

fun ensureColumns :: "table_def list \<Rightarrow> live_file \<Rightarrow> string + live_file" where
  "ensureColumns [] f = Inr f"
| "ensureColumns ((t, cs) # ts) f =
     (case ensure_table t (live_columns t f) cs f of Inl e \<Rightarrow> Inl e | Inr f' \<Rightarrow> ensureColumns ts f')"

definition missingColumns :: "table_def list \<Rightarrow> live_file \<Rightarrow> (string \<times> string) list" where
  "missingColumns s f = concat (map (\<lambda>(t, cs). map (\<lambda>c. (t, cl_name c)) (filter (\<lambda>c. cl_name c \<notin> set (live_columns t f)) cs)) s)"

datatype schema_error = PushFailed int | TablesMissing "string list" | ColumnsMissing "(string \<times> string) list" | SqliteError string

definition verifySchema :: "table_def list \<Rightarrow> live_file \<Rightarrow> schema_error option" where
  "verifySchema s f =
     (let missing = filter (\<lambda>n. n \<notin> fst ` set f) (map fst s) in
      if missing \<noteq> [] then Some (TablesMissing missing)
      else if missingColumns s f \<noteq> [] then Some (ColumnsMissing (missingColumns s f)) else None)"

text \<open>The roles of the stored accounts, of which viewer is of an older version.\<close>

definition runDataMigrations :: "string list \<Rightarrow> string list" where
  "runDataMigrations roles = map (\<lambda>r. if r = ''viewer'' then ''user'' else r) roles"

definition createClient :: "(live_file \<Rightarrow> int \<times> live_file) \<Rightarrow> table_def list \<Rightarrow> live_file \<times> string list \<Rightarrow>
    schema_error + live_file \<times> string list" where
  "createClient push s fr =
     (let (exit, f) = push (fst fr) in
      if exit \<noteq> 0 then Inl (PushFailed exit)
      else case ensureColumns s f of
             Inl e \<Rightarrow> Inl (SqliteError e)
           | Inr f' \<Rightarrow> (case verifySchema s f' of Some e \<Rightarrow> Inl e | None \<Rightarrow> Inr (f', runDataMigrations (snd fr))))"


section \<open>What is healed, and what is refused\<close>

text \<open>g has everything f has.\<close>

definition extends :: "live_file \<Rightarrow> live_file \<Rightarrow> bool" where
  "extends f g \<longleftrightarrow> map fst g = map fst f \<and> (\<forall>t. set (live_columns t f) \<subseteq> set (live_columns t g))"

lemma extends_refl: "extends f f"
  by (simp add: extends_def)

lemma extends_trans: "extends f g \<Longrightarrow> extends g h \<Longrightarrow> extends f h"
  by (auto simp: extends_def)

lemma map_of_append_column:
  "map_of (map (\<lambda>(u, cs). if u = t then (u, cs @ [c]) else (u, cs)) f) u = (if u = t then map_option (\<lambda>cs. cs @ [c]) (map_of f u) else map_of f u)"
  by (induction f) auto

lemma add_column_Inr:
  assumes "add_column t c d f = Inr g"
  shows "extends f g \<and> live_columns t g = live_columns t f @ [c] \<and> (\<forall>u. u \<noteq> t \<longrightarrow> live_columns u g = live_columns u f)"
proof -
  have g: "g = map (\<lambda>(u, cs). if u = t then (u, cs @ [c]) else (u, cs)) f" "map_of f t \<noteq> None"
    using assms by (auto simp: add_column_def split: if_splits)
  have "live_columns u g = live_columns u f @ (if u = t then [c] else [])" for u
    using g(2) by (auto simp: g(1) live_columns_def map_of_append_column orDefault_def split: option.splits)
  then show ?thesis by (simp add: extends_def) (simp add: g(1) case_prod_unfold comp_def if_distrib cong: if_cong)
qed

lemma ensure_table_Inr:
  assumes "ensure_table t live cs f = Inr g"
  shows "extends f g \<and> (\<forall>u. u \<noteq> t \<longrightarrow> live_columns u g = live_columns u f)
    \<and> set (live_columns t g) = set (live_columns t f) \<union> {cl_name c | c. c \<in> set cs \<and> cl_name c \<notin> set live \<and> heal_ddl c \<noteq> None}"
  using assms
proof (induction cs arbitrary: f)
  case (Cons c cs)
  show ?case
  proof (cases "cl_name c \<in> set live \<or> heal_ddl c = None")
    case True
    then have "ensure_table t live cs f = Inr g" using Cons.prems by (auto split: if_splits)
    from Cons.IH [OF this] True show ?thesis by auto
  next
    case False
    then obtain d h where h: "heal_ddl c = Some d" "add_column t (cl_name c) d f = Inr h" "ensure_table t live cs h = Inr g"
      using Cons.prems by (auto split: sum.splits)
    from Cons.IH [OF h(3)] add_column_Inr [OF h(2)] h(1) False show ?thesis
      by (auto intro: extends_trans)
  qed
qed (simp add: extends_refl)

definition healed :: "table_def list \<Rightarrow> live_file \<Rightarrow> string \<Rightarrow> string set" where
  "healed s f u = {cl_name c | c cs. (u, cs) \<in> set s \<and> c \<in> set cs \<and> cl_name c \<notin> set (live_columns u f) \<and> heal_ddl c \<noteq> None}"

lemma healed_Cons:
  "healed ((t, cs) # ts) f u = (if u = t then {cl_name c | c. c \<in> set cs \<and> cl_name c \<notin> set (live_columns t f) \<and> heal_ddl c \<noteq> None} else {})
     \<union> healed ts f u"
  unfolding healed_def by (cases "u = t") (simp_all, blast)

lemma healed_cong: "live_columns u f = live_columns u g \<Longrightarrow> healed s f u = healed s g u"
  by (simp add: healed_def)

lemma healed_none: "u \<notin> fst ` set s \<Longrightarrow> healed s f u = {}"
  by (force simp: healed_def image_iff)

lemma healedI: "(u, cs) \<in> set s \<Longrightarrow> c \<in> set cs \<Longrightarrow> heal_ddl c \<noteq> None \<Longrightarrow> cl_name c \<in> set (live_columns u f) \<union> healed s f u"
  unfolding healed_def by blast

lemma ensureColumns_Inr:
  assumes "ensureColumns s f = Inr g" "distinct (map fst s)"
  shows "extends f g \<and> (\<forall>u. set (live_columns u g) = set (live_columns u f) \<union> healed s f u)"
  using assms
proof (induction s f rule: ensureColumns.induct)
  case (2 t cs ts f)
  obtain h where h: "ensure_table t (live_columns t f) cs f = Inr h" "ensureColumns ts h = Inr g"
    using 2(2) by (auto split: sum.splits)
  have step: "extends f h" "\<And>u. u \<noteq> t \<Longrightarrow> live_columns u h = live_columns u f"
    "set (live_columns t h) = set (live_columns t f) \<union> {cl_name c | c. c \<in> set cs \<and> cl_name c \<notin> set (live_columns t f) \<and> heal_ddl c \<noteq> None}"
    using ensure_table_Inr [OF h(1)] by simp_all
  have rest: "extends h g" "\<And>u. set (live_columns u g) = set (live_columns u h) \<union> healed ts h u"
    using 2(1) [OF h(1,2)] 2(3) by auto
  have "set (live_columns u g) = set (live_columns u f) \<union> healed ((t, cs) # ts) f u" for u
  proof (cases "u = t")
    case True
    have "healed ts x t = {}" for x using 2(3) by (intro healed_none) simp
    then show ?thesis using True step(3) rest(2) [of t] by (simp add: healed_Cons)
  next
    case False
    then show ?thesis using step(2) rest(2) [of u] healed_cong [of u h f ts] by (simp add: healed_Cons)
  qed
  then show ?case using step(1) rest(1) extends_trans by blast
qed (simp add: extends_refl healed_def)

text \<open>Whatever the push did, the server that starts has every table and every column of the schema, and every
  table and column the push left is still there.\<close>

theorem startup_complete:
  assumes "createClient push s (f0, roles) = Inr (f, roles')" "distinct (map fst s)"
  shows "(\<forall>(t, cs)\<in>set s. t \<in> fst ` set f \<and> cl_name ` set cs \<subseteq> set (live_columns t f))
    \<and> extends (snd (push f0)) f \<and> fst (push f0) = 0 \<and> ''viewer'' \<notin> set roles'"
proof -
  obtain f1 where p: "push f0 = (0, f1)" "ensureColumns s f1 = Inr f" "verifySchema s f = None" "roles' = runDataMigrations roles"
    using assms(1) by (auto simp: createClient_def split: prod.splits if_splits sum.splits option.splits)
  have tables: "filter (\<lambda>n. n \<notin> fst ` set f) (map fst s) = []" and columns: "missingColumns s f = []"
    using p(3) by (auto simp: verifySchema_def Let_def split: if_splits)
  have "t \<in> fst ` set f" if "(t, cs) \<in> set s" for t cs
    using tables that by (force simp: filter_empty_conv)
  moreover have "cl_name c \<in> set (live_columns t f)" if "(t, cs) \<in> set s" "c \<in> set cs" for t cs c
    using columns that by (auto simp: missingColumns_def filter_empty_conv)
  ultimately show ?thesis
    using ensureColumns_Inr [OF p(2) assms(2), THEN conjunct1] p(1,4) by (auto simp: runDataMigrations_def split: if_splits)
qed

text \<open>A column that is missing keeps the server from starting exactly when it cannot be added with what the
  code can render: it is NOT NULL and has no default, or an SQL literal for one.\<close>

theorem startup_refuses:
  assumes "ensureColumns s f = Inr g" "distinct (map fst s)" "fst ` set s \<subseteq> fst ` set f"
  shows "(verifySchema s g \<noteq> None \<longleftrightarrow> (\<exists>(t, cs)\<in>set s. \<exists>c\<in>set cs. cl_name c \<notin> set (live_columns t g)))
  \<and> (\<forall>(t, cs)\<in>set s. \<forall>c\<in>set cs. cl_name c \<notin> set (live_columns t g)
        \<longrightarrow> cl_notNull c \<and> (\<not> cl_hasDefault c \<or> cl_default c = Some SqlDefault))"
proof -
  note eff = ensureColumns_Inr [OF assms(1,2)]
  have "fst ` set g = fst ` set f" using eff by (metis extends_def set_map)
  then have tables: "filter (\<lambda>n. n \<notin> fst ` set g) (map fst s) = []" using assms(3) by (auto simp: filter_empty_conv)
  have none: "heal_ddl c = None \<Longrightarrow> cl_notNull c \<and> (\<not> cl_hasDefault c \<or> cl_default c = Some SqlDefault)" for c
    by (auto simp: heal_ddl_def split: if_splits option.splits col_default.splits)
  have left: "heal_ddl c = None" if "(t, cs) \<in> set s" "c \<in> set cs" "cl_name c \<notin> set (live_columns t g)" for t cs c
    using conjunct2 [OF eff, rule_format, of t] healedI [OF that(1,2), of f] that(3) by blast
  have "missingColumns s g \<noteq> [] \<longleftrightarrow> (\<exists>(t, cs)\<in>set s. \<exists>c\<in>set cs. cl_name c \<notin> set (live_columns t g))"
    unfolding missingColumns_def case_prod_unfold by (auto simp: filter_empty_conv)
  then show ?thesis using tables left none by (auto simp: verifySchema_def Let_def)
qed

text \<open>A table that is missing never gets as far as the message that says so: adding its first column fails.\<close>

lemma missing_table_fails:
  assumes "map_of f t = None" "cl_hasDefault c \<or> \<not> cl_notNull c" "cl_default c \<noteq> Some SqlDefault"
  shows "\<exists>e. ensureColumns ((t, c # cs) # s) f = Inl e"
proof -
  have "\<exists>d. heal_ddl c = Some d" using assms(2,3) by (auto simp: heal_ddl_def split: option.split col_default.split)
  then show ?thesis using assms(1) by (auto simp: live_columns_def orDefault_def add_column_def)
qed

end
