(* ===== verification/Spec2Isabelle.thy ===== *)
theory Spec2Isabelle
  imports NodeWsRun StreamKeys Semaphore Config Reconcile CleanStream UserApi Rsa EventSettings Panels Player Startup
begin

text \<open>
  A model of constrainable, a platform for proctored live streaming, and the theorems that make it
  correct.  The program is the Nuxt application under src/app: a server (src/app/server), the types it
  shares with its clients (src/app/shared) and the browser side (src/app/app).

  THE PROGRAM.  Participants stream over RTMP, either to the SRS beside the server or to a media node, a
  separate Go process.  The hooks of SRS and the calls of the nodes ask the server who may publish; the
  server keeps events with their time windows, stream keys for the students of an event, bans, sessions
  of publishing, recordings and an audit log in one SQLite database.  Probes measure the streams and
  judge them against the limits of the event.  Media nodes hold one WebSocket each to the server, over
  which both sides make calls; administrators hold one each to follow what happens.  Watchers are served
  re-encoded twins of the streams.  Background tickers open and end events, sweep sessions that are gone
  and delete old recordings.

  HOW IT IS MODELLED.  The server is single-threaded, so its state is one record that is passed on: core
  (the database, the realtime bus and the source of random bytes, AuditLog.thy), extended by world with
  the module-level Maps and caches (World.thy), and by the states of the services with timers and
  processes of their own: live (Recorder.thy, StreamLifecycle.thy), ws_server (NodeWs.thy), admin_server
  (AdminWs.thy), clean (CleanStream.thy).  A handler is a function from its arguments and the state to an
  outcome and the state; an operation that can throw returns the error with the state it leaves, since
  the services run without transactions.  Where the code awaits, or timers and sockets act on their own,
  the function is cut at the suspension points and a step relation takes the parts in every order, with
  the writes of the rest of the server to the same state between them.  A signal to a process and its end
  are two steps.
  Objects shared between Maps and closures are entries of a store under an identity.  Definitions carry
  the names of the source.

  THEORIES, in the order of their imports.
  Prelude: errors, outcomes, JSON, string idioms and the relational table; the locale keyed.
  Schema: database/schema.ts.  Repositories: repositories/*.ts.  SharedTypes: shared/config.ts, mail.ts,
  events.ts.  Tokens: utils/password.ts, token.ts, crypto.ts, authmod.ts, filename.ts, shared/rtmp.ts.
  AuditLog: services/audit.ts, utils/bus.ts.  World: the Maps of the process.
  Semaphore: utils/semaphore.ts.  Config: utils/config-store.ts, mail-config.ts, registration.ts,
  services/config.ts.  EmailCode: utils/email-code.ts.
  AccessControl: services/access-control.ts.  Events: services/events.ts.  StreamKeys:
  services/stream-keys.ts, roster.ts.  Membership: services/groups.ts, invites.ts, the guide.  Gateway:
  services/stream-bans.ts, api/srs/rtmp-auth.  Session: utils/session.ts, auth.ts, server/middleware.
  Accounts: api/auth, api/users, api/me, utils/email-limit.ts.
  Nodes: services/media-node-registry.ts, media-node-snapshot.ts, node-assignment.ts, node-probe.ts,
  api/nodes.  NodeHandlers: services/media-node-handlers.ts.  NodeWs and NodeWsRun:
  services/media-node-ws.ts with the transfer hub of services/recordings.ts.
  SrsClient: services/srs-client.ts, utils/srs-url.ts.  Recorder: services/recorder.ts, probe.ts.
  StreamLifecycle and LiveRun: services/stream-lifecycle.ts, api/srs.  Lifecycle:
  services/event-lifecycle.ts, streams.ts, api/streams.  Reconcile: services/reconcile.ts.  Recordings:
  services/recordings.ts, retention.ts, api/recordings.  CleanStream: services/cleanstream.ts, the
  watching endpoints.  Mail: services/mail.ts, api/mail.  Rsa: utils/rsa.ts and usePasswordCipher.
  AdminWs: services/admin-ws.ts, plugins/03-ws-gateway.ts.
  AdminApi: the endpoints of administrators; UserApi: those of every account.
  Integrity, ApiIntegrity, Served: constraints of the schema under all writes and all requests.
  Startup: database/db.ts.
  Client: app/composables, app/middleware, app/plugins/api-origin.  Pages, EventSettings, Forms and Panels:
  the state behind app/pages and the panels of app/components.  Player: the live player and the grid,
  app/components/streams.
\<close>

text \<open>
  WHAT IS SHOWN.  The database: every sequence of repository writes (db_write) keeps keys, UNIQUE columns
  and foreign keys, and so does every sequence of requests of administrators and users, who can only do
  what their gate lets them.  Admission: who is let in to publish, by stream key, publish token, publish
  key, librtmp challenge or node call, holds a credential of an event that is open, and is not banned
  where bans are looked at; the policy that the gateway is told never reports a window closed to a publisher
  whom the hook lets in by the publish key.  Secrets: tokens, codes, password hashes and
  the encrypted transport do what their callers rely on.  State machines: the registry of nodes, the
  calls over their sockets, live sessions, transcoders, invites, e-mail codes, the semaphore, the RSA key,
  the configuration cache and the dashboard socket are step relations with invariants over all their
  histories.  Housekeeping: ticker, sweep and retention act on exactly the rows they should.  Client: the
  route gate mirrors the server's, the socket and the player do not get stuck, the live list shows what the
  server sent, and what the forms send is what the endpoints store.  Where the code does not do what it means to, a lemma beside the model shows the behaviour.

  INTERFACES.  The locale keyed (Prelude) is a table whose rows have an identity, interpreted for the
  twelve tables with a numeric key in Integrity.  gate (Semaphore) is a limiter with entry and exit,
  interpreted on AsyncSemaphore.  gated_api (Served) is a group of request handlers behind a gate that
  keep an invariant, interpreted on the endpoints of administrators (ApiIntegrity), on the own
  endpoints of an account and on both together (UserApi).  clean_form, leave_form and keep_form (Forms),
  each extending the one before, are what the guard of unsaved changes relies on, interpreted on the forms
  of the groups, the mail settings, the configuration and the users.

  BOUNDS.  No fuel is needed where the source recursion ends: deepMerge ends by the size of the patch,
  unique_name by the distance to the last name taken, waitForMount by its deadline (it overshoots by less
  than one period of 750 ms).  The invite codes are tried eight times and probes as often as the
  configured retries, as the code does.  Times are integers of milliseconds.
  The program is JavaScript, which has no machine integers: whole numbers are integers, numbers that may
  be fractions are rationals (json, the bodies of requests, the spec of a node), and NaN or an infinite
  result is None where the code can meet one.  Rounding of doubles is left out; the comparisons it could
  touch are noted where they stand.

  PARAMETERS.  What lies outside src is an argument: the cryptography of node:crypto, @noble/hashes and
  jose (records externals and rsa_lib), mailers and their rate limiter, SRS and its answers, ffmpeg and
  ffprobe, the protobuf codec, the file system, the URL parser, picomatch, the calendar, and the steps of
  the browser.  Where a theorem relies on one of them the assumption is stated in it, for example that
  verifying a token accepts what signing made, and its witness gives a function for which it holds.

  NOT MODELLED.  The markup, styles and labels of the Vue files, and the pages and components that only
  fetch, show and send on: there is nothing in them but calls of endpoints that are modelled.  What the
  browser does for WebRTC, with the latency check of NodePicker, and the rendering of Markdown.  The scripts
  for smoke and load tests.  The Go node and the protobuf schema, which are other programs; the server's
  side of the protocol is modelled.  The pragmas of the database, the spawning of processes
  (utils/process.ts), the HTML of the mails (utils/mail-template.ts), and the endpoints for health and
  client errors, which only log or answer a constant.
\<close>

end
